(* ===== verification/Low_Prelude.thy ===== *)
theory Low_Prelude
  imports Main "HOL-Library.Word"
begin

section \<open>Prelude\<close>

text \<open>
  What every component of the development shares: the faults with which a piece of the C code
  can stop, the result type \<open>'a res\<close> and its sequencing, blocks of C memory as lists of byte
  cells with the effect of \<open>memcpy\<close> and \<open>memmove\<close> on them, and the generic lemmas about
  lists, chunks of a block and 32-bit words that carry the component proofs.
\<close>

subsection \<open>Faults and results\<close>

text \<open>
  The ways in which the C code stops instead of returning. \<open>Assert_Failed\<close> is a failed
  \<open>assert\<close>, \<open>Aborted\<close> is \<open>abort()\<close> (directly or through \<open>die\<close>), \<open>Exited\<close> is
  \<open>exit(1)\<close> (directly or through \<open>derror\<close>), \<open>Undefined\<close> is an access that the C
  standard leaves undefined (out of the bounds of a block, through a null pointer), and
  \<open>Diverges\<close> is a loop that never ends.
\<close>

datatype fault =
    Assert_Failed string
  | Aborted string
  | Exited string
  | Undefined string
  | Diverges

type_synonym 'a res = "fault + 'a"

type_synonym u32 = "32 word"

definition rbind :: "'a res \<Rightarrow> ('a \<Rightarrow> 'b res) \<Rightarrow> 'b res" where
  "rbind m f = (case m of Inl e \<Rightarrow> Inl e | Inr x \<Rightarrow> f x)"

named_theorems res_elims \<open>what a successful step says about the steps it is made of\<close>

lemma rbind_simps [simp]:
  "rbind (Inl e) f = Inl e"
  "rbind (Inr x) f = f x"
  by (simp_all add: rbind_def)

lemma rbind_Inr_conv: "rbind m f = Inr y \<longleftrightarrow> (\<exists>x. m = Inr x \<and> f x = Inr y)"
  by (cases m) simp_all

lemma rbind_InrE [res_elims]:
  assumes "rbind m f = Inr y"
  obtains x where "m = Inr x" and "f x = Inr y"
  using assms by (auto simp: rbind_Inr_conv)

lemma rbind_assoc: "rbind (rbind m f) g = rbind m (\<lambda>x. rbind (f x) g)"
  by (cases m) simp_all

lemma rbind_return [simp]: "rbind m Inr = m"
  by (cases m) simp_all

lemma rbind_cong [fundef_cong]:
  "m = m' \<Longrightarrow> (\<And>x. m' = Inr x \<Longrightarrow> f x = f' x) \<Longrightarrow> rbind m f = rbind m' f'"
  by (cases m') simp_all

text \<open>A result holds a value (it is not a fault).\<close>

definition returns :: "'a res \<Rightarrow> bool" where
  "returns m \<longleftrightarrow> (case m of Inl _ \<Rightarrow> False | Inr _ \<Rightarrow> True)"

lemma returns_simps [simp]: "returns (Inr x)" "\<not> returns (Inl e)"
  by (simp_all add: returns_def)

lemma returns_conv: "returns m \<longleftrightarrow> (\<exists>x. m = Inr x)"
  by (cases m) simp_all

subsection \<open>Lists\<close>

lemma take_eq_map_nth: "n \<le> length xs \<Longrightarrow> take n xs = map ((!) xs) [0..<n]"
  by (rule nth_equalityI) simp_all

lemma nth_overwrite:
  assumes "i < length xs" and "off + length bs \<le> length xs"
  shows "(take off xs @ bs @ drop (off + length bs) xs) ! i =
    (if i < off then xs ! i else if i < off + length bs then bs ! (i - off) else xs ! i)"
  using assms by (auto simp: nth_append)

subsection \<open>Blocks of memory\<close>

text \<open>
  A block obtained from the allocator is the list of its byte cells; \<open>None\<close> is a cell with an
  indeterminate value (fresh memory). \<open>overwrite\<close> overwrites the cells from an offset on.
  \<open>memcpy_block\<close> and \<open>memmove_block\<close> are undefined when a range leaves its block.
  Allocation is assumed to succeed: \<open>malloc\<close> returns a block of the requested size, and
  \<open>realloc\<close> keeps the common prefix, and frees the block when the new size is 0 (the
  result is then a null pointer, as in glibc).
\<close>

type_synonym cell = "8 word option"

type_synonym block = "cell list"

definition overwrite :: "nat \<Rightarrow> 'a list \<Rightarrow> 'a list \<Rightarrow> 'a list" where
  "overwrite off bs xs = take off xs @ bs @ drop (off + length bs) xs"

lemma length_overwrite [simp]: "off + length bs \<le> length xs \<Longrightarrow> length (overwrite off bs xs) = length xs"
  by (simp add: overwrite_def)

definition malloc_block :: "nat \<Rightarrow> block option" where
  "malloc_block n = Some (replicate n None)"

definition realloc_block :: "block \<Rightarrow> nat \<Rightarrow> block option" where
  "realloc_block r n = (if n = 0 then None else Some (take n r @ replicate (n - length r) None))"

definition memcpy_block :: "block \<Rightarrow> nat \<Rightarrow> block \<Rightarrow> nat \<Rightarrow> block res" where
  "memcpy_block r dst src n =
     (if n \<le> length src \<and> dst + n \<le> length r then Inr (overwrite dst (take n src) r)
      else Inl (Undefined ''memcpy out of bounds''))"

definition memmove_block :: "block \<Rightarrow> nat \<Rightarrow> nat \<Rightarrow> nat \<Rightarrow> block res" where
  "memmove_block r dst src n =
     (if src + n \<le> length r \<and> dst + n \<le> length r then Inr (overwrite dst (take n (drop src r)) r)
      else Inl (Undefined ''memmove out of bounds''))"

text \<open>The \<open>j\<close>-th chunk of width \<open>w\<close> of a block: the bytes of one item of an array.\<close>

definition chunk :: "nat \<Rightarrow> nat \<Rightarrow> 'a list \<Rightarrow> 'a list" where
  "chunk w j xs = take w (drop (j * w) xs)"

lemma length_chunk: "(j + 1) * w \<le> length xs \<Longrightarrow> length (chunk w j xs) = w"
  by (simp add: chunk_def algebra_simps)

lemma chunk_bound: "j < n \<Longrightarrow> (j + 1) * w \<le> n * (w::nat)"
  by (metis Suc_eq_plus1 Suc_leI mult_le_mono1)

lemma nth_chunk: "i < w \<Longrightarrow> (j + 1) * w \<le> length xs \<Longrightarrow> chunk w j xs ! i = xs ! (j * w + i)"
  by (simp add: chunk_def)

lemma chunk_eqI:
  assumes "length bs = w" and "(j + 1) * w \<le> length xs"
    and "\<And>i. i < w \<Longrightarrow> xs ! (j * w + i) = bs ! i"
  shows "chunk w j xs = bs"
  using assms by (intro nth_equalityI) (simp_all add: length_chunk nth_chunk del: mult_Suc)

lemma chunk_overwrite:
  assumes len: "length bs = k * w" and fit: "(p + k) * w \<le> length xs"
    and j: "(j + 1) * w \<le> length xs"
  shows "chunk w j (overwrite (p * w) bs xs) =
    (if j < p then chunk w j xs else if j < p + k then chunk w (j - p) bs else chunk w j xs)"
proof (rule chunk_eqI)
  have fit': "p * w + length bs \<le> length xs"
    using len fit by (simp add: algebra_simps)
  let ?rhs = "if j < p then chunk w j xs else if j < p + k then chunk w (j - p) bs
    else chunk w j xs"
  show "length ?rhs = w"
    using len j chunk_bound [of "j - p" k w] by (auto simp: length_chunk)
  show "(j + 1) * w \<le> length (overwrite (p * w) bs xs)"
    using fit' j by simp
  fix i assume i: "i < w"
  have pos: "j * w + i < length xs"
    using i j by (simp add: algebra_simps)
  have before: "j < p \<Longrightarrow> j * w + i < p * w"
    using i chunk_bound [of j p w] by (simp add: algebra_simps)
  have inside: "p * w \<le> j * w + i \<and> j * w + i < p * w + k * w \<and> (j - p + 1) * w \<le> k * w \<and>
      j * w + i - p * w = (j - p) * w + i" if "\<not> j < p" "j < p + k"
  proof -
    from that obtain d where d: "j = p + d" and "d < k"
      by (metis le_add_diff_inverse nat_add_left_cancel_less not_less)
    then have "(d + 1) * w \<le> k * w"
      using chunk_bound by blast
    with d i show ?thesis by (simp add: algebra_simps)
  qed
  have after: "\<not> j < p + k \<Longrightarrow> p * w + k * w \<le> j * w + i"
    using mult_le_mono1 [of "p + k" j w] by (simp add: algebra_simps)
  show "overwrite (p * w) bs xs ! (j * w + i) = ?rhs ! i"
    using nth_overwrite [OF pos fit'] before inside after i j len
    by (auto simp: overwrite_def nth_chunk)
qed

lemma chunk_take_drop:
  assumes "(j + 1) * w \<le> k * w"
  shows "chunk w j (take (k * w) (drop (p * w) xs)) = chunk w (p + j) xs"
proof -
  have "w \<le> k * w - j * w"
    using assms by (simp add: algebra_simps)
  then show ?thesis
    by (simp add: chunk_def drop_take min_absorb1 algebra_simps)
qed

lemma chunk_append1: "(j + 1) * w \<le> length xs \<Longrightarrow> chunk w j (xs @ ys) = chunk w j xs"
  by (simp add: chunk_def algebra_simps)

lemma chunk_take: "(j + 1) * w \<le> n \<Longrightarrow> chunk w j (take n xs) = chunk w j xs"
  by (simp add: chunk_def drop_take min_absorb1 algebra_simps)

lemma chunk_whole: "length bs = w \<Longrightarrow> chunk w 0 bs = bs"
  by (simp add: chunk_def)

subsection \<open>32-bit words\<close>

lemma unat_mult_less [simp]:
  "unat (a::u32) * unat b < 2 ^ 32 \<Longrightarrow> unat (a * b) = unat a * unat b"
  by (simp add: unat_word_ariths)

lemma unat_add_less:
  "unat (a::u32) + unat b < 2 ^ 32 \<Longrightarrow> unat (a + b) = unat a + unat b"
  by (simp add: unat_word_ariths)

lemma unat_minus_le: "(b::u32) \<le> a \<Longrightarrow> unat (a - b) = unat a - unat b"
  by (simp add: unat_sub)

lemma unat_less_2_32: "unat (a::u32) < 2 ^ 32"
  using unsigned_less [of a] by simp

end
