(* ===== verification/Dyn_Array.thy ===== *)
theory Dyn_Array
  imports Low_Prelude
begin

section \<open>The dynamic array (src/array.c)\<close>

text \<open>
  The record \<open>array\<close> is the C struct: sizes are 32-bit words whose arithmetic wraps, and the
  items live in one block of byte cells (\<open>None\<close> is the null pointer). Every operation of
  \<open>array.c\<close> is a definition with its assertions; a pointer into the array is the byte offset
  from \<open>items\<close>. The bytes of an item are passed by value, so an item inside the array that
  is reallocated is not modelled. \<open>array_ok\<close> is the representation invariant,
  \<open>array_items\<close> the list of items an array stands for; the operations refine list
  operations under \<open>array_ok\<close> when the grown block stays below 4 GiB.
\<close>

subsection \<open>The struct and its operations\<close>

record array =
  a_size :: u32
  a_capacity :: u32
  a_item_size :: u32
  a_items :: "block option"

text \<open>Runs a memory operation on the item block; there is none behind a null pointer.\<close>

definition with_items :: "array \<Rightarrow> (block \<Rightarrow> block res) \<Rightarrow> array res" where
  "with_items self f =
     (case a_items self of
        None \<Rightarrow> Inl (Undefined ''access through a null items pointer'')
      | Some r \<Rightarrow> rbind (f r) (\<lambda>r'. Inr (self\<lparr>a_items := Some r'\<rparr>)))"

definition array_reallocate :: "array \<Rightarrow> u32 \<Rightarrow> array" where
  "array_reallocate self capacity = self\<lparr>
     a_items := (case a_items self of
         Some r \<Rightarrow> realloc_block r (unat (capacity * a_item_size self))
       | None \<Rightarrow> malloc_block (unat (capacity * a_item_size self))),
     a_capacity := capacity\<rparr>"

text \<open>The loop \<open>while (cap < req) cap *= 2\<close>; \<open>None\<close> when it never ends.\<close>

partial_function (option) grow_cap :: "u32 \<Rightarrow> u32 \<Rightarrow> u32 option" where
  "grow_cap cap req = (if cap < req then grow_cap (cap * 2) req else Some cap)"

definition array_grow :: "array \<Rightarrow> u32 \<Rightarrow> array res" where
  "array_grow self additional =
     (let req = a_size self + additional in
      if a_capacity self < req then
        (case grow_cap (if a_capacity self = 0 then 1 else a_capacity self) req of
           None \<Rightarrow> Inl Diverges
         | Some cap \<Rightarrow> Inr (array_reallocate self cap))
      else Inr self)"

definition array_move_tail :: "array \<Rightarrow> u32 \<Rightarrow> u32 \<Rightarrow> array res" where
  "array_move_tail self from to = with_items self (\<lambda>r.
     memmove_block r (unat (to * a_item_size self)) (unat (from * a_item_size self))
       (unat ((a_size self - from) * a_item_size self)))"

definition array_init :: "u32 \<Rightarrow> array res" where
  "array_init item_size =
     (if \<not> 0 < item_size then Inl (Assert_Failed ''item_size > 0'')
      else Inr \<lparr>a_size = 0, a_capacity = 0, a_item_size = item_size, a_items = None\<rparr>)"

definition array_dispose :: "array \<Rightarrow> array" where
  "array_dispose self =
     (case a_items self of None \<Rightarrow> self | Some _ \<Rightarrow> self\<lparr>a_items := None\<rparr>)"

definition array_reserve :: "array \<Rightarrow> u32 \<Rightarrow> array" where
  "array_reserve self capacity =
     (if capacity \<le> a_capacity self then self else array_reallocate self capacity)"

definition array_resize :: "array \<Rightarrow> u32 \<Rightarrow> array" where
  "array_resize self items =
     (let self' = (if items > a_capacity self then array_reallocate self items else self)
      in self'\<lparr>a_size := items\<rparr>)"

definition array_shrink :: "array \<Rightarrow> array" where
  "array_shrink self =
     (if a_size self \<noteq> a_capacity self then array_reallocate self (a_size self) else self)"

definition array_get :: "array \<Rightarrow> u32 \<Rightarrow> u32 res" where
  "array_get self index =
     (if \<not> index < a_size self then Inl (Assert_Failed ''index < self->size'')
      else Inr (index * a_item_size self))"

text \<open>Reading \<open>n\<close> bytes through a pointer into the items, as a client of \<open>array_get\<close> does.\<close>

definition read_items :: "array \<Rightarrow> u32 \<Rightarrow> nat \<Rightarrow> block res" where
  "read_items self p n =
     (case a_items self of
        None \<Rightarrow> Inl (Undefined ''access through a null items pointer'')
      | Some r \<Rightarrow> memcpy_block (replicate n None) 0 (drop (unat p) r) n)"

definition array_get_many :: "array \<Rightarrow> u32 \<Rightarrow> u32 \<Rightarrow> block res" where
  "array_get_many self index num_items =
     (if \<not> index < a_size self then Inl (Assert_Failed ''index < self->size'')
      else if \<not> index + num_items \<le> a_size self
      then Inl (Assert_Failed ''index+num_items <= self->size'')
      else read_items self (index * a_item_size self) (unat (num_items * a_item_size self)))"

definition array_set :: "array \<Rightarrow> u32 \<Rightarrow> block \<Rightarrow> array res" where
  "array_set self index item =
     (if \<not> index < a_size self then Inl (Assert_Failed ''index < self->size'')
      else with_items self (\<lambda>r.
        memcpy_block r (unat (index * a_item_size self)) item (unat (a_item_size self))))"

definition array_set_many :: "array \<Rightarrow> u32 \<Rightarrow> block \<Rightarrow> u32 \<Rightarrow> array res" where
  "array_set_many self index items num_items =
     (if \<not> index + num_items \<le> a_size self
      then Inl (Assert_Failed ''index+num_items <= self->size'')
      else with_items self (\<lambda>r.
        memcpy_block r (unat (index * a_item_size self)) items
          (unat (num_items * a_item_size self))))"

text \<open>
  The insertions return the pointer to the new location; \<open>None\<close> for the item is the null
  pointer, which leaves the location as it is.
\<close>

definition array_insert :: "array \<Rightarrow> u32 \<Rightarrow> block option \<Rightarrow> (array \<times> u32) res" where
  "array_insert self index item =
     (if \<not> index \<le> a_size self then Inl (Assert_Failed ''index <= self->size'')
      else rbind (array_grow self 1) (\<lambda>s1.
        rbind (if index < a_size s1 then array_move_tail s1 index (index + 1) else Inr s1) (\<lambda>s2.
          let s3 = s2\<lparr>a_size := a_size s2 + 1\<rparr> in
          rbind (case item of None \<Rightarrow> Inr s3 | Some it \<Rightarrow> array_set s3 index it) (\<lambda>s4.
            Inr (s4, index * a_item_size s4)))))"

definition array_insert_many ::
    "array \<Rightarrow> u32 \<Rightarrow> block option \<Rightarrow> u32 \<Rightarrow> (array \<times> u32) res" where
  "array_insert_many self index items num_items =
     (if \<not> index \<le> a_size self then Inl (Assert_Failed ''index <= self->size'')
      else rbind (array_grow self num_items) (\<lambda>s1.
        rbind (if index < a_size s1 then array_move_tail s1 index (index + num_items)
               else Inr s1) (\<lambda>s2.
          let s3 = s2\<lparr>a_size := a_size s2 + num_items\<rparr> in
          rbind (case items of None \<Rightarrow> Inr s3
                 | Some its \<Rightarrow> array_set_many s3 index its num_items) (\<lambda>s4.
            Inr (s4, index * a_item_size s4)))))"

definition array_erase :: "array \<Rightarrow> u32 \<Rightarrow> array res" where
  "array_erase self index =
     (if \<not> index < a_size self then Inl (Assert_Failed ''index < self->size'')
      else rbind (if index < a_size self - 1 then array_move_tail self (index + 1) index
                  else Inr self) (\<lambda>s1.
        Inr (s1\<lparr>a_size := a_size s1 - 1\<rparr>)))"

definition array_erase_range :: "array \<Rightarrow> u32 \<Rightarrow> u32 \<Rightarrow> array res" where
  "array_erase_range self fst_i last_i =
     (if \<not> fst_i \<le> last_i then Inl (Assert_Failed ''first <= last'')
      else if \<not> last_i \<le> a_size self then Inl (Assert_Failed ''last <= self->size'')
      else rbind (if last_i < a_size self then array_move_tail self last_i fst_i
                  else Inr self) (\<lambda>s1.
        Inr (s1\<lparr>a_size := a_size s1 - (last_i - fst_i)\<rparr>)))"

definition array_add :: "array \<Rightarrow> block option \<Rightarrow> (array \<times> u32) res" where
  "array_add self item = array_insert self (a_size self) item"

definition array_add_many :: "array \<Rightarrow> block option \<Rightarrow> u32 \<Rightarrow> (array \<times> u32) res" where
  "array_add_many self items num_items = array_insert_many self (a_size self) items num_items"

definition array_remove :: "array \<Rightarrow> array res" where
  "array_remove self =
     (if \<not> a_size self > 0 then Inl (Assert_Failed ''self->size > 0'')
      else Inr (self\<lparr>a_size := a_size self - 1\<rparr>))"

definition array_remove_many :: "array \<Rightarrow> u32 \<Rightarrow> array res" where
  "array_remove_many self num_items =
     (if \<not> num_items \<le> a_size self then Inl (Assert_Failed ''num_items <= self->size'')
      else Inr (self\<lparr>a_size := a_size self - num_items\<rparr>))"

definition array_clear :: "array \<Rightarrow> array" where
  "array_clear self = self\<lparr>a_size := 0\<rparr>"


subsection \<open>Representation invariant and abstraction\<close>

definition array_ok :: "array \<Rightarrow> bool" where
  "array_ok a \<longleftrightarrow> 0 < a_item_size a \<and> a_size a \<le> a_capacity a \<and>
     unat (a_capacity a) * unat (a_item_size a) < 2 ^ 32 \<and>
     (case a_items a of None \<Rightarrow> a_capacity a = 0
      | Some r \<Rightarrow> length r = unat (a_capacity a) * unat (a_item_size a))"

definition item_at :: "array \<Rightarrow> nat \<Rightarrow> block" where
  "item_at a j = chunk (unat (a_item_size a)) j (the (a_items a))"

definition array_items :: "array \<Rightarrow> block list" where
  "array_items a = map (item_at a) [0..<unat (a_size a)]"

text \<open>
  Room for \<open>n\<close> more items: the capacity after growing is less than twice the items held, so
  half of the 32-bit address arithmetic is enough.
\<close>

definition array_room :: "array \<Rightarrow> nat \<Rightarrow> bool" where
  "array_room a n \<longleftrightarrow> 2 * (unat (a_size a) + n) * unat (a_item_size a) < 2 ^ 32"

lemma length_array_items [simp]: "length (array_items a) = unat (a_size a)"
  by (simp add: array_items_def)

lemma nth_array_items: "j < unat (a_size a) \<Longrightarrow> array_items a ! j = item_at a j"
  by (simp add: array_items_def)

lemma array_ok_size: "array_ok a \<Longrightarrow> unat (a_size a) \<le> unat (a_capacity a)"
  by (simp add: array_ok_def word_le_nat_alt)

lemma array_ok_item_size: "array_ok a \<Longrightarrow> 0 < unat (a_item_size a)"
  by (simp add: array_ok_def word_less_nat_alt)

lemma array_ok_block:
  "array_ok a \<Longrightarrow> a_items a = Some r \<Longrightarrow>
    length r = unat (a_capacity a) * unat (a_item_size a)"
  by (simp add: array_ok_def)

lemma array_ok_some:
  assumes "array_ok a" and "0 < unat (a_capacity a)"
  obtains r where "a_items a = Some r"
  using assms by (cases "a_items a") (auto simp: array_ok_def)

text \<open>Offsets below the capacity do not wrap.\<close>

lemma offset_unat:
  assumes "array_ok a" and "unat i \<le> unat (a_capacity a)"
  shows "unat (i * a_item_size a) = unat i * unat (a_item_size a)"
proof -
  have "unat i * unat (a_item_size a) \<le> unat (a_capacity a) * unat (a_item_size a)"
    using assms(2) by (rule mult_le_mono1)
  also have "\<dots> < 2 ^ 32" using assms(1) by (simp add: array_ok_def)
  finally show ?thesis by (rule unat_mult_less)
qed

lemma item_fits:
  "array_ok a \<Longrightarrow> a_items a = Some r \<Longrightarrow> j < unat (a_capacity a) \<Longrightarrow>
    (j + 1) * unat (a_item_size a) \<le> length r"
  by (simp only: array_ok_block chunk_bound)

lemma length_item_at:
  assumes "array_ok a" and "j < unat (a_capacity a)"
  shows "length (item_at a j) = unat (a_item_size a)"
proof -
  obtain r where "a_items a = Some r"
    using assms array_ok_some by (metis not_less_zero gr0I)
  with assms show ?thesis
    using item_fits [OF assms(1) _ assms(2)] by (simp only: item_at_def length_chunk option.sel)
qed

lemma room_less:
  assumes "array_ok a" and "array_room a n"
  shows "unat (a_size a) + n < 2 ^ 31"
proof -
  have "2 * (unat (a_size a) + n) * 1 \<le> 2 * (unat (a_size a) + n) * unat (a_item_size a)"
    using array_ok_item_size [OF assms(1)] by (intro mult_le_mono2) simp
  also have "\<dots> < 2 ^ 32" using assms(2) by (simp only: array_room_def)
  finally show ?thesis by simp
qed

subsection \<open>Growing\<close>

lemma grow_cap_returns:
  assumes "0 < cap" and "unat req \<le> 2 ^ 31"
  shows "\<exists>c. grow_cap cap req = Some c \<and> req \<le> c \<and> (c = cap \<or> unat c < 2 * unat req)"
  using assms(1)
proof (induction "unat req - unat cap" arbitrary: cap rule: less_induct)
  case less
  show ?case
  proof (cases "cap < req")
    case False
    then show ?thesis by (subst grow_cap.simps) simp
  next
    case True
    then have lt: "unat cap < unat req" by (simp add: word_less_nat_alt)
    have dbl: "unat (cap * 2) = unat cap * 2"
      using lt assms(2) by (simp add: unat_word_ariths)
    have "0 < unat cap" using less.prems by (simp add: word_less_nat_alt)
    with lt dbl have "unat req - unat (cap * 2) < unat req - unat cap" and "0 < cap * 2"
      by (simp_all add: word_less_nat_alt)
    from less.hyps [OF this] obtain c where c: "grow_cap (cap * 2) req = Some c" "req \<le> c"
      "c = cap * 2 \<or> unat c < 2 * unat req" by blast
    with dbl lt have "unat c < 2 * unat req" by auto
    with True c show ?thesis by (subst grow_cap.simps) simp
  qed
qed

lemma grow_cap_zero: "0 < req \<Longrightarrow> grow_cap 0 req = None"
proof (rule ccontr)
  assume "0 < req" and "grow_cap 0 req \<noteq> None"
  then obtain c where "grow_cap 0 req = Some c" by blast
  then have "0 < req \<longrightarrow> False"
  proof (rule grow_cap.raw_induct [where P = "\<lambda>cap req c. cap = 0 \<longrightarrow> 0 < req \<longrightarrow> False",
        THEN mp, rotated])
    fix f :: "u32 \<Rightarrow> u32 \<Rightarrow> u32 option" and cap req c
    assume "\<And>cap req c. f cap req = Some c \<Longrightarrow> cap = 0 \<longrightarrow> 0 < req \<longrightarrow> False"
      and "(if cap < req then f (cap * 2) req else Some cap) = Some c"
    then show "cap = 0 \<longrightarrow> 0 < req \<longrightarrow> False"
      by (auto split: if_splits)
  qed simp
  with \<open>0 < req\<close> show False by simp
qed

lemma grow_cap_2_31:
  assumes "2 ^ 31 < unat req"
  shows "grow_cap (2 ^ 31) req = None"
proof -
  have "(2 ^ 31 :: u32) * 2 = 0" by simp
  with assms show ?thesis
    by (subst grow_cap.simps) (simp only: word_less_nat_alt grow_cap_zero, simp add: grow_cap_zero word_less_nat_alt)
qed

lemma array_reallocate_ok:
  assumes ok: "array_ok a" and fit: "a_size a \<le> c" "unat c * unat (a_item_size a) < 2 ^ 32"
  shows "array_ok (array_reallocate a c)" and "array_items (array_reallocate a c) = array_items a"
proof -
  let ?w = "unat (a_item_size a)" and ?a = "array_reallocate a c"
  have w: "0 < ?w" using ok by (rule array_ok_item_size)
  have [simp]: "a_item_size ?a = a_item_size a" "a_size ?a = a_size a" "a_capacity ?a = c"
    by (simp_all add: array_reallocate_def)
  have bytes: "unat (c * a_item_size a) = unat c * ?w" using fit by simp
  show "array_ok ?a"
    using ok fit bytes w
    by (auto simp: array_ok_def array_reallocate_def malloc_block_def realloc_block_def
        word_less_nat_alt word_le_nat_alt unat_eq_0 split: option.splits)
  show "array_items ?a = array_items a"
  proof (rule nth_equalityI)
    fix j assume "j < length (array_items ?a)"
    then have j: "j < unat (a_size a)" by simp
    then have jc: "(j + 1) * ?w \<le> unat c * ?w"
      using fit(1) by (intro chunk_bound) (simp add: word_le_nat_alt)
    have jcap: "j < unat (a_capacity a)" using j array_ok_size [OF ok] by simp
    then obtain r where r: "a_items a = Some r" using array_ok_some [OF ok] by force
    have "0 < (j + 1) * ?w" using w by simp
    then have "0 < unat c * ?w" using jc by (rule less_le_trans)
    then have "a_items ?a = Some (take (unat c * ?w) r @ replicate (unat c * ?w - length r) None)"
      using bytes by (simp add: array_reallocate_def realloc_block_def r)
    then have "item_at ?a j = chunk ?w j (take (unat c * ?w) r)"
      using jc item_fits [OF ok r jcap] by (simp add: item_at_def chunk_append1)
    then show "array_items ?a ! j = array_items a ! j"
      using j jc r by (simp add: nth_array_items chunk_take item_at_def)
  qed simp
qed

text \<open>After growing for \<open>n\<close> items the same items are held, and \<open>n\<close> more slots are free.\<close>

lemma array_grow_ok:
  assumes ok: "array_ok a" and room: "array_room a (unat n)"
  obtains b where "array_grow a n = Inr b" and "array_ok b" and "array_items b = array_items a"
    and "a_size b = a_size a" and "a_item_size b = a_item_size a"
    and "unat (a_size a) + unat n \<le> unat (a_capacity b)"
proof -
  let ?w = "unat (a_item_size a)"
  have less: "unat (a_size a) + unat n < 2 ^ 31" using ok room by (rule room_less)
  then have req: "unat (a_size a + n) = unat (a_size a) + unat n"
    by (intro unat_add_less) simp
  show thesis
  proof (cases "a_capacity a < a_size a + n")
    case False
    then show thesis using that [of a] ok req by (simp add: array_grow_def word_less_nat_alt)
  next
    case True
    let ?c0 = "if a_capacity a = 0 then 1 else a_capacity a"
    have "unat (a_size a + n) \<le> 2 ^ 31" and "0 < ?c0"
      using less req by (simp_all add: word_gt_0)
    from grow_cap_returns [OF this(2,1)] obtain c where c: "grow_cap ?c0 (a_size a + n) = Some c"
      "a_size a + n \<le> c" "c = ?c0 \<or> unat c < 2 * unat (a_size a + n)" by blast
    have "unat ?c0 \<le> unat (a_size a + n)"
      using True by (auto simp: word_less_nat_alt)
    moreover have "0 < unat (a_size a + n)" using True by (simp add: word_less_nat_alt)
    ultimately have "unat c < 2 * (unat (a_size a) + unat n)"
      using c(3) req by auto
    then have "unat c * ?w \<le> 2 * (unat (a_size a) + unat n) * ?w"
      by (intro mult_le_mono1) simp
    also have "\<dots> < 2 ^ 32" using room by (simp only: array_room_def)
    finally have fit: "unat c * ?w < 2 ^ 32" .
    have "a_size a \<le> c" using c(2) req by (simp add: word_le_nat_alt)
    note realloc = array_reallocate_ok [OF ok this fit]
    have "array_grow a n = Inr (array_reallocate a c)"
      using True c(1) by (simp add: array_grow_def)
    then show thesis
      using that realloc c(2) req by (simp add: array_reallocate_def word_le_nat_alt)
  qed
qed


subsection \<open>Moving the tail, writing and reading items\<close>

lemma size_word_less:
  "array_ok a \<Longrightarrow> unat i < unat (a_size a) \<Longrightarrow> unat i < unat (a_capacity a)"
  using array_ok_size by (metis less_le_trans)

lemma array_move_tail_ok:
  assumes ok: "array_ok a" and frm: "unat from \<le> unat (a_size a)"
    and to: "unat to + (unat (a_size a) - unat from) \<le> unat (a_capacity a)"
    and cap: "0 < unat (a_capacity a)"
  obtains b where "array_move_tail a from to = Inr b" and "array_ok b"
    and "b = a\<lparr>a_items := a_items b\<rparr>"
    and "\<And>j. j < unat (a_capacity a) \<Longrightarrow> item_at b j =
      (if j < unat to then item_at a j
       else if j < unat to + (unat (a_size a) - unat from) then item_at a (j - unat to + unat from)
       else item_at a j)"
proof -
  let ?w = "unat (a_item_size a)" and ?k = "unat (a_size a) - unat from"
  obtain r where r: "a_items a = Some r" using array_ok_some [OF ok cap] .
  have len: "length r = unat (a_capacity a) * ?w" using ok r by (rule array_ok_block)
  have le: "unat (a_size a) \<le> unat (a_capacity a)" using ok by (rule array_ok_size)
  have off: "unat (to * a_item_size a) = unat to * ?w"
    "unat (from * a_item_size a) = unat from * ?w"
    "unat ((a_size a - from) * a_item_size a) = ?k * ?w"
    using offset_unat [OF ok, of to] offset_unat [OF ok, of "from"]
      offset_unat [OF ok, of "a_size a - from"] to frm le
    by (simp_all add: unat_sub word_le_nat_alt)
  have "(unat from + ?k) * ?w \<le> unat (a_capacity a) * ?w" using frm le by (intro mult_le_mono1) simp
  then have src: "unat from * ?w + ?k * ?w \<le> length r" by (simp only: len add_mult_distrib)
  have "(unat to + ?k) * ?w \<le> unat (a_capacity a) * ?w" using to by (rule mult_le_mono1)
  then have dst: "unat to * ?w + ?k * ?w \<le> length r" by (simp only: len add_mult_distrib)
  define moved where "moved = take (?k * ?w) (drop (unat from * ?w) r)"
  have moved: "length moved = ?k * ?w" using src by (simp add: moved_def)
  define b where "b = a\<lparr>a_items := Some (overwrite (unat to * ?w) moved r)\<rparr>"
  have move: "array_move_tail a from to = Inr b"
    using src dst by (simp add: array_move_tail_def with_items_def r off memmove_block_def
        moved_def b_def)
  have okb: "array_ok b" using ok dst moved by (simp add: array_ok_def b_def r len)
  have items: "item_at b j = (if j < unat to then item_at a j
      else if j < unat to + ?k then item_at a (j - unat to + unat from) else item_at a j)"
    if j: "j < unat (a_capacity a)" for j
  proof -
    have ia: "item_at a i = chunk ?w i r" for i by (simp add: item_at_def r)
    have "item_at b j = (if j < unat to then chunk ?w j r
        else if j < unat to + ?k then chunk ?w (j - unat to) moved else chunk ?w j r)"
      using chunk_overwrite [OF moved, of "unat to" r j] dst item_fits [OF ok r j]
      by (simp add: item_at_def b_def add_mult_distrib)
    moreover have "chunk ?w (j - unat to) moved = chunk ?w (j - unat to + unat from) r"
      if "\<not> j < unat to" "j < unat to + ?k"
      using that chunk_bound [of "j - unat to" ?k ?w]
      by (simp add: moved_def chunk_take_drop add.commute)
    ultimately show ?thesis by (simp only: ia if_True if_False split: if_split) blast
  qed
  show thesis using that [OF move okb _ items] by (simp add: b_def)
qed

lemma array_set_many_ok:
  assumes ok: "array_ok a" and fit: "unat i + unat n \<le> unat (a_size a)" and cap: "0 < unat (a_capacity a)"
    and len: "length bs = unat n * unat (a_item_size a)"
  obtains b where "array_set_many a i bs n = Inr b" and "array_ok b"
    and "b = a\<lparr>a_items := a_items b\<rparr>"
    and "\<And>j. j < unat (a_capacity a) \<Longrightarrow> item_at b j =
      (if unat i \<le> j \<and> j < unat i + unat n then chunk (unat (a_item_size a)) (j - unat i) bs
       else item_at a j)"
proof -
  let ?w = "unat (a_item_size a)"
  obtain r where r: "a_items a = Some r" using array_ok_some [OF ok cap] .
  have lenr: "length r = unat (a_capacity a) * ?w" using ok r by (rule array_ok_block)
  have le: "unat (a_size a) \<le> unat (a_capacity a)" using ok by (rule array_ok_size)
  have "unat i + unat n < 2 ^ 32" using fit unat_less_2_32 [of "a_size a"] by simp
  then have idx: "i + n \<le> a_size a" using fit by (simp only: word_le_nat_alt unat_add_less)
  have off: "unat (i * a_item_size a) = unat i * ?w" "unat (n * a_item_size a) = unat n * ?w"
    using offset_unat [OF ok] fit le by simp_all
  have "(unat i + unat n) * ?w \<le> unat (a_capacity a) * ?w" using fit le by (intro mult_le_mono1) simp
  then have dst: "unat i * ?w + unat n * ?w \<le> length r" by (simp only: lenr add_mult_distrib)
  define b where "b = a\<lparr>a_items := Some (overwrite (unat i * ?w) bs r)\<rparr>"
  have set: "array_set_many a i bs n = Inr b"
    using idx dst len by (simp add: array_set_many_def with_items_def r off memcpy_block_def b_def)
  have okb: "array_ok b" using ok dst len by (simp add: array_ok_def b_def r lenr)
  have items: "item_at b j = (if unat i \<le> j \<and> j < unat i + unat n then chunk ?w (j - unat i) bs
      else item_at a j)" if j: "j < unat (a_capacity a)" for j
    using chunk_overwrite [OF len, of "unat i" r j] dst item_fits [OF ok r j]
    by (simp add: item_at_def b_def add_mult_distrib r)
  show thesis using that [OF set okb _ items] by (simp add: b_def)
qed

text \<open>Setting one item is setting many of them, one long.\<close>

lemma array_set_conv_many:
  assumes "unat i < unat (a_size a)"
  shows "array_set a i bs = array_set_many a i bs 1"
proof -
  have "i + 1 \<le> a_size a" using assms unat_add_less [of i 1] unat_less_2_32 [of "a_size a"]
    by (simp add: word_le_nat_alt)
  with assms show ?thesis
    by (simp add: array_set_def array_set_many_def word_less_nat_alt)
qed

lemma array_read_item:
  assumes ok: "array_ok a" and i: "unat i < unat (a_size a)"
  shows "rbind (array_get a i) (\<lambda>p. read_items a p (unat (a_item_size a))) =
    Inr (array_items a ! unat i)"
proof -
  let ?w = "unat (a_item_size a)"
  have cap: "unat i < unat (a_capacity a)" using ok i by (rule size_word_less)
  obtain r where r: "a_items a = Some r" using array_ok_some [OF ok] cap by force
  have off: "unat (i * a_item_size a) = unat i * ?w" using ok cap by (intro offset_unat) simp_all
  have "unat i * ?w + ?w \<le> length r" using item_fits [OF ok r cap] by (simp add: algebra_simps)
  then show ?thesis
    using i by (simp add: array_get_def read_items_def word_less_nat_alt r off memcpy_block_def
        overwrite_def nth_array_items item_at_def chunk_def)
qed


subsection \<open>Insertion\<close>

text \<open>The part both insertions share: grow, move the tail up, count the new items.\<close>

definition array_gap :: "array \<Rightarrow> u32 \<Rightarrow> u32 \<Rightarrow> array res" where
  "array_gap self index n = rbind (array_grow self n) (\<lambda>s1.
     rbind (if index < a_size s1 then array_move_tail s1 index (index + n) else Inr s1) (\<lambda>s2.
       Inr (s2\<lparr>a_size := a_size s2 + n\<rparr>)))"

lemma array_insert_many_gap:
  "array_insert_many self index items n =
     (if \<not> index \<le> a_size self then Inl (Assert_Failed ''index <= self->size'')
      else rbind (array_gap self index n) (\<lambda>s3.
        rbind (case items of None \<Rightarrow> Inr s3 | Some its \<Rightarrow> array_set_many s3 index its n) (\<lambda>s4.
          Inr (s4, index * a_item_size s4))))"
  by (simp add: array_insert_many_def array_gap_def rbind_assoc Let_def)

lemma array_insert_gap:
  "array_insert self index item =
     (if \<not> index \<le> a_size self then Inl (Assert_Failed ''index <= self->size'')
      else rbind (array_gap self index 1) (\<lambda>s3.
        rbind (case item of None \<Rightarrow> Inr s3 | Some it \<Rightarrow> array_set s3 index it) (\<lambda>s4.
          Inr (s4, index * a_item_size s4))))"
  by (simp add: array_insert_def array_gap_def rbind_assoc Let_def)

lemma array_gap_ok:
  assumes ok: "array_ok a" and room: "array_room a (unat n)" and i: "unat i \<le> unat (a_size a)"
    and n: "0 < unat n"
  obtains b where "array_gap a i n = Inr b" and "array_ok b" and "a_item_size b = a_item_size a"
    and "unat (a_size b) = unat (a_size a) + unat n" and "0 < unat (a_capacity b)"
    and "\<forall>j. j < unat i \<longrightarrow> item_at b j = array_items a ! j"
    and "\<forall>j. unat i \<le> j \<longrightarrow> j < unat (a_size a) \<longrightarrow> item_at b (j + unat n) = array_items a ! j"
proof -
  obtain g where g: "array_grow a n = Inr g" "array_ok g" "array_items g = array_items a"
    "a_size g = a_size a" "a_item_size g = a_item_size a"
    "unat (a_size a) + unat n \<le> unat (a_capacity g)"
    using array_grow_ok [OF ok room] by blast
  have less: "unat (a_size a) + unat n < 2 ^ 31" using ok room by (rule room_less)
  have i_n: "unat (i + n) = unat i + unat n" and sz: "unat (a_size a + n) = unat (a_size a) + unat n"
    using less i by (simp_all add: unat_add_less)
  have old: "item_at g j = array_items a ! j" if "j < unat (a_size a)" for j
    using that g(3,4) by (metis nth_array_items)
  obtain m where m: "(if i < a_size g then array_move_tail g i (i + n) else Inr g) = Inr m"
    "array_ok m" "m = g\<lparr>a_items := a_items m\<rparr>"
    "\<And>j. j < unat i \<Longrightarrow> item_at m j = array_items a ! j"
    "\<And>j. unat i \<le> j \<Longrightarrow> j < unat (a_size a) \<Longrightarrow> item_at m (j + unat n) = array_items a ! j"
  proof (cases "i < a_size g")
    case False
    with i g(4) have "unat i = unat (a_size a)" by (simp add: word_less_nat_alt)
    with False that [of g] g(2) old show thesis by simp
  next
    case True
    obtain m where m: "array_move_tail g i (i + n) = Inr m" "array_ok m"
      "m = g\<lparr>a_items := a_items m\<rparr>"
      and mj: "\<And>j. j < unat (a_capacity g) \<Longrightarrow> item_at m j = (if j < unat (i + n) then item_at g j
        else if j < unat (i + n) + (unat (a_size g) - unat i) then item_at g (j - unat (i + n) + unat i)
        else item_at g j)"
      by (rule array_move_tail_ok [OF g(2), of i "i + n"]) (use i n g(4,6) i_n in simp_all)
    show thesis
    proof (rule that [of m])
      fix j assume "unat i \<le> j" "j < unat (a_size a)"
      then show "item_at m (j + unat n) = array_items a ! j"
        using mj [of "j + unat n"] g(4,6) i_n by (simp add: old)
    qed (use True m mj i g(4,6) i_n old in simp_all)
  qed
  define b where "b = m\<lparr>a_size := a_size m + n\<rparr>"
  have ms: "a_size m = a_size a" "a_item_size m = a_item_size a" "a_capacity m = a_capacity g"
    using m(3) g(4,5) by (metis array.select_convs(1-3) array.surjective array.update_convs(4))+
  have gap: "array_gap a i n = Inr b" by (simp add: array_gap_def g(1) m(1) b_def)
  have items: "item_at b j = item_at m j" for j by (simp add: item_at_def b_def)
  show thesis
  proof (rule that [OF gap])
    show "array_ok b" using m(2) sz g(6) ms
      by (auto simp: array_ok_def b_def word_le_nat_alt split: option.splits)
    show "0 < unat (a_capacity b)" using g(6) n ms by (simp add: b_def)
  qed (use ms sz m items in \<open>simp_all add: b_def\<close>)
qed

lemma items_with_gap:
  assumes "unat (a_size b) = unat (a_size a) + n" and "i \<le> unat (a_size a)" and "length ys = n"
    and "\<And>j. j < i \<Longrightarrow> item_at b j = array_items a ! j"
    and "\<And>j. i \<le> j \<Longrightarrow> j < unat (a_size a) \<Longrightarrow> item_at b (j + n) = array_items a ! j"
    and "\<And>j. j < n \<Longrightarrow> item_at b (i + j) = ys ! j"
  shows "array_items b = take i (array_items a) @ ys @ drop i (array_items a)"
proof (rule nth_equalityI)
  fix j assume "j < length (array_items b)"
  then have j: "j < unat (a_size a) + n" using assms(1) by simp
  consider "j < i" | "i \<le> j" "j < i + n" | "i + n \<le> j" by linarith
  then show "array_items b ! j = (take i (array_items a) @ ys @ drop i (array_items a)) ! j"
  proof cases
    case 2
    then have "j - i < n" by simp
    with 2 show ?thesis using j assms(1,2,3) assms(6) [of "j - i"]
      by (simp add: nth_array_items nth_append)
  next
    case 3
    then have "\<not> j - i < n" and "i \<le> j" by simp_all
    with 3 show ?thesis using j assms(1,2,3) assms(5) [of "j - n"]
      by (simp add: nth_array_items nth_append)
  qed (use j assms in \<open>simp_all add: nth_array_items nth_append\<close>)
qed (use assms in simp)

lemma array_insert_many_ok:
  assumes ok: "array_ok a" and room: "array_room a (unat n)" and i: "unat i \<le> unat (a_size a)"
    and n: "0 < unat n" and len: "length bs = unat n * unat (a_item_size a)"
  obtains b where "array_insert_many a i (Some bs) n = Inr (b, i * a_item_size a)" and "array_ok b"
    and "a_item_size b = a_item_size a"
    and "array_items b = take (unat i) (array_items a)
      @ map (\<lambda>j. chunk (unat (a_item_size a)) j bs) [0..<unat n] @ drop (unat i) (array_items a)"
proof -
  obtain g where g: "array_gap a i n = Inr g" "array_ok g" "a_item_size g = a_item_size a"
    "unat (a_size g) = unat (a_size a) + unat n" "0 < unat (a_capacity g)"
    and lo: "\<forall>j. j < unat i \<longrightarrow> item_at g j = array_items a ! j"
    and hi: "\<forall>j. unat i \<le> j \<longrightarrow> j < unat (a_size a) \<longrightarrow> item_at g (j + unat n) = array_items a ! j"
    by (rule array_gap_ok [OF ok room i n])
  obtain b where b: "array_set_many g i bs n = Inr b" "array_ok b" "b = g\<lparr>a_items := a_items b\<rparr>"
    and bj: "\<And>j. j < unat (a_capacity g) \<Longrightarrow> item_at b j =
      (if unat i \<le> j \<and> j < unat i + unat n then chunk (unat (a_item_size g)) (j - unat i) bs
       else item_at g j)"
    by (rule array_set_many_ok [OF g(2), of i n bs]) (use i g len in simp_all)
  have bs: "a_size b = a_size g" "a_item_size b = a_item_size g"
    using b(3) by (metis array.select_convs(1,3) array.surjective array.update_convs(4))+
  have cap: "unat (a_size a) + unat n \<le> unat (a_capacity g)"
    using array_ok_size [OF g(2)] g(4) by simp
  have items: "array_items b = take (unat i) (array_items a)
      @ map (\<lambda>j. chunk (unat (a_item_size a)) j bs) [0..<unat n] @ drop (unat i) (array_items a)"
    by (rule items_with_gap [where n = "unat n"]) (use bs g i cap bj lo hi in simp_all)
  have "i \<le> a_size a" using i by (simp add: word_le_nat_alt)
  with that [OF _ b(2) _ items] show thesis
    by (simp add: array_insert_many_gap g(1,3) b(1) bs)
qed

lemma array_insert_conv_many:
  assumes ok: "array_ok a" and room: "array_room a 1" and i: "unat i \<le> unat (a_size a)"
  shows "array_insert a i (Some bs) = array_insert_many a i (Some bs) 1"
proof -
  obtain g where "array_gap a i 1 = Inr g" "unat (a_size g) = unat (a_size a) + unat (1::u32)"
    by (rule array_gap_ok [OF ok, of 1 i]) (use room i in simp_all)
  with i show ?thesis
    by (simp add: array_insert_gap array_insert_many_gap array_set_conv_many)
qed

lemma array_insert_ok:
  assumes ok: "array_ok a" and room: "array_room a 1" and i: "unat i \<le> unat (a_size a)"
    and len: "length it = unat (a_item_size a)"
  obtains b where "array_insert a i (Some it) = Inr (b, i * a_item_size a)" and "array_ok b"
    and "a_item_size b = a_item_size a"
    and "array_items b = take (unat i) (array_items a) @ it # drop (unat i) (array_items a)"
proof -
  have one: "unat (1::u32) = 1" by simp
  obtain b where b: "array_insert_many a i (Some it) 1 = Inr (b, i * a_item_size a)" "array_ok b"
    "a_item_size b = a_item_size a"
    "array_items b = take (unat i) (array_items a)
      @ map (\<lambda>j. chunk (unat (a_item_size a)) j it) [0..<unat (1::u32)] @ drop (unat i) (array_items a)"
    by (rule array_insert_many_ok [OF ok, of 1 i it]) (use room i len in simp_all)
  from b(1) have "array_insert a i (Some it) = Inr (b, i * a_item_size a)"
    by (simp only: array_insert_conv_many [OF ok room i])
  moreover from b(4) have "array_items b = take (unat i) (array_items a) @ it # drop (unat i) (array_items a)"
    by (simp add: one chunk_whole [OF len])
  ultimately show thesis using that b(2,3) by blast
qed

text \<open>With a null pointer for the items the new slots hold unspecified bytes.\<close>

lemma array_insert_many_null_ok:
  assumes ok: "array_ok a" and room: "array_room a (unat n)" and i: "unat i \<le> unat (a_size a)"
    and n: "0 < unat n"
  obtains b ys where "array_insert_many a i None n = Inr (b, i * a_item_size a)" and "array_ok b"
    and "a_item_size b = a_item_size a" and "length ys = unat n"
    and "array_items b = take (unat i) (array_items a) @ ys @ drop (unat i) (array_items a)"
proof -
  obtain g where g: "array_gap a i n = Inr g" "array_ok g" "a_item_size g = a_item_size a"
    "unat (a_size g) = unat (a_size a) + unat n" "0 < unat (a_capacity g)"
    and lo: "\<forall>j. j < unat i \<longrightarrow> item_at g j = array_items a ! j"
    and hi: "\<forall>j. unat i \<le> j \<longrightarrow> j < unat (a_size a) \<longrightarrow> item_at g (j + unat n) = array_items a ! j"
    by (rule array_gap_ok [OF ok room i n])
  define ys where "ys = map (\<lambda>j. item_at g (unat i + j)) [0..<unat n]"
  have items: "array_items g = take (unat i) (array_items a) @ ys @ drop (unat i) (array_items a)"
    by (rule items_with_gap [where n = "unat n"]) (use g(4) i lo hi in \<open>simp_all add: ys_def\<close>)
  have "i \<le> a_size a" using i by (simp add: word_le_nat_alt)
  then have "array_insert_many a i None n = Inr (g, i * a_item_size a)"
    by (simp add: array_insert_many_gap g(1,3))
  moreover have "length ys = unat n" by (simp add: ys_def)
  ultimately show thesis using that g(2,3) items by blast
qed


subsection \<open>Erasing, truncating and clearing\<close>

lemma array_shorten_ok:
  assumes "array_ok a" and "unat s \<le> unat (a_size a)"
  shows "array_ok (a\<lparr>a_size := s\<rparr>)"
    and "array_items (a\<lparr>a_size := s\<rparr>) = take (unat s) (array_items a)"
proof -
  show "array_ok (a\<lparr>a_size := s\<rparr>)"
    using assms by (auto simp: array_ok_def word_le_nat_alt split: option.splits)
  show "array_items (a\<lparr>a_size := s\<rparr>) = take (unat s) (array_items a)"
    using assms(2) by (simp add: array_items_def item_at_def take_map)
qed

lemma array_erase_range_ok:
  assumes ok: "array_ok a" and le: "unat i \<le> unat j" "unat j \<le> unat (a_size a)"
  obtains b where "array_erase_range a i j = Inr b" and "array_ok b"
    and "a_item_size b = a_item_size a"
    and "array_items b = take (unat i) (array_items a) @ drop (unat j) (array_items a)"
proof -
  have ij: "i \<le> j" "j \<le> a_size a" and d: "unat (j - i) = unat j - unat i"
    using le by (simp_all add: word_le_nat_alt unat_sub)
  have cap: "unat (a_size a) \<le> unat (a_capacity a)" using ok by (rule array_ok_size)
  have "unat (j - i) \<le> unat (a_size a)" using d le by simp
  then have s: "unat (a_size a - (j - i)) = unat (a_size a) - (unat j - unat i)"
    using d by (simp add: unat_sub word_le_nat_alt)
  have short: "unat (a_size a - (j - i)) \<le> unat (a_size a)" using s by simp
  show thesis
  proof (cases "j < a_size a")
    case False
    with ij(2) have j: "j = a_size a" by simp
    show thesis
      using that [OF _ array_shorten_ok(1) [OF ok short]] array_shorten_ok(2) [OF ok short] False ij s j le
      by (simp add: array_erase_range_def)
  next
    case True
    then have lt: "unat j < unat (a_size a)" by (simp add: word_less_nat_alt)
    obtain m where m: "array_move_tail a j i = Inr m" "array_ok m" "m = a\<lparr>a_items := a_items m\<rparr>"
      and mj: "\<And>k. k < unat (a_capacity a) \<Longrightarrow> item_at m k = (if k < unat i then item_at a k
        else if k < unat i + (unat (a_size a) - unat j) then item_at a (k - unat i + unat j)
        else item_at a k)"
      by (rule array_move_tail_ok [OF ok, of j i]) (use le lt cap in simp_all)
    have ms: "a_size m = a_size a" "a_item_size m = a_item_size a"
      using m(3) by (metis array.select_convs(1,3) array.surjective array.update_convs(4))+
    note short' = array_shorten_ok [OF m(2), of "a_size a - (j - i)"]
    have at: "item_at (m\<lparr>a_size := x\<rparr>) k = item_at m k" for x k
      by (simp add: item_at_def)
    have "array_items (m\<lparr>a_size := a_size a - (j - i)\<rparr>) =
        take (unat i) (array_items a) @ drop (unat j) (array_items a)"
      by (rule nth_equalityI)
        (use s le lt cap mj in \<open>auto simp: nth_array_items nth_append at add.commute [of _ "unat j"]\<close>)
    with that [of "m\<lparr>a_size := a_size a - (j - i)\<rparr>"] short' short m(1) ms ij True
    show thesis by (simp add: array_erase_range_def)
  qed
qed

lemma array_erase_conv_range:
  assumes "unat i < unat (a_size a)"
  shows "array_erase a i = array_erase_range a i (i + 1)"
proof -
  have i1: "unat (i + 1) = unat i + 1" using assms unat_less_2_32 [of "a_size a"]
    by (simp add: unat_add_less)
  have "i + 1 \<le> a_size a" and "i \<le> i + 1" using assms i1 by (simp_all add: word_le_nat_alt)
  moreover have "unat (a_size a - 1) = unat (a_size a) - 1"
    using assms by (simp add: unat_sub word_le_nat_alt)
  then have "i < a_size a - 1 \<longleftrightarrow> i + 1 < a_size a"
    using i1 by (auto simp: word_less_nat_alt)
  ultimately show ?thesis using assms
    by (simp add: array_erase_def array_erase_range_def word_less_nat_alt)
qed

lemma array_remove_many_ok:
  assumes ok: "array_ok a" and n: "unat n \<le> unat (a_size a)"
  obtains b where "array_remove_many a n = Inr b" and "array_ok b"
    and "a_item_size b = a_item_size a"
    and "array_items b = take (unat (a_size a) - unat n) (array_items a)"
proof -
  have s: "unat (a_size a - n) = unat (a_size a) - unat n" "n \<le> a_size a"
    using n by (simp_all add: unat_sub word_le_nat_alt)
  with array_shorten_ok [OF ok, of "a_size a - n"] that [of "a\<lparr>a_size := a_size a - n\<rparr>"]
  show thesis by (simp add: array_remove_many_def)
qed

lemma array_remove_conv_many:
  "array_remove a = (if a_size a = 0 then Inl (Assert_Failed ''self->size > 0'')
     else array_remove_many a 1)"
  by (simp add: array_remove_def array_remove_many_def word_le_nat_alt word_gt_0 unat_gt_0
      Suc_le_eq)

lemma array_resize_down_ok:
  assumes "array_ok a" and "unat s \<le> unat (a_size a)"
  shows "array_ok (array_resize a s)"
    and "array_items (array_resize a s) = take (unat s) (array_items a)"
    and "a_item_size (array_resize a s) = a_item_size a"
proof -
  have "\<not> s > a_capacity a"
    using assms array_ok_size [OF assms(1)] by (simp add: word_less_nat_alt)
  then show "array_ok (array_resize a s)"
    "array_items (array_resize a s) = take (unat s) (array_items a)"
    "a_item_size (array_resize a s) = a_item_size a"
    using array_shorten_ok [OF assms] by (simp_all add: array_resize_def)
qed

lemma array_clear_ok:
  assumes "array_ok a"
  shows "array_ok (array_clear a)" and "array_items (array_clear a) = []"
  using array_shorten_ok [OF assms, of 0] by (simp_all add: array_clear_def)

lemma array_shrink_ok:
  assumes "array_ok a"
  shows "array_ok (array_shrink a)" and "array_items (array_shrink a) = array_items a"
    and "a_capacity (array_shrink a) = a_size a"
proof -
  have "unat (a_size a) * unat (a_item_size a) \<le> unat (a_capacity a) * unat (a_item_size a)"
    using array_ok_size [OF assms] by (rule mult_le_mono1)
  also have "\<dots> < 2 ^ 32" using assms by (simp add: array_ok_def)
  finally have "unat (a_size a) * unat (a_item_size a) < 2 ^ 32" .
  from array_reallocate_ok [OF assms order_refl this] assms
  show "array_ok (array_shrink a)" "array_items (array_shrink a) = array_items a"
    "a_capacity (array_shrink a) = a_size a"
    by (simp_all add: array_shrink_def array_reallocate_def)
qed

lemma array_reserve_ok:
  assumes ok: "array_ok a" and fit: "unat c * unat (a_item_size a) < 2 ^ 32"
  shows "array_ok (array_reserve a c)" and "array_items (array_reserve a c) = array_items a"
    and "c \<le> a_capacity (array_reserve a c)"
proof -
  have "a_size a \<le> c" if "\<not> c \<le> a_capacity a"
    using that ok by (auto simp: array_ok_def)
  with array_reallocate_ok [OF ok _ fit] ok
  show "array_ok (array_reserve a c)" "array_items (array_reserve a c) = array_items a"
    "c \<le> a_capacity (array_reserve a c)"
    by (simp_all add: array_reserve_def array_reallocate_def)
qed

lemma array_init_ok:
  assumes "0 < w"
  obtains a where "array_init w = Inr a" and "array_ok a" and "array_items a = []"
    and "a_item_size a = w"
  using assms by (auto simp: array_init_def array_ok_def array_items_def)


subsection \<open>The interface clients use\<close>

text \<open>
  What the parser and the semantic actions use an array for: a sequence that grows at the end,
  is read by index and is cut back. \<open>seq_room s n\<close> says that \<open>n\<close> more items fit.
\<close>

locale item_seq =
  fixes seq_inv :: "'s \<Rightarrow> bool"
    and seq_items :: "'s \<Rightarrow> 'i list"
    and seq_room :: "'s \<Rightarrow> nat \<Rightarrow> bool"
    and seq_fits :: "'s \<Rightarrow> 'i \<Rightarrow> bool"
    and seq_add :: "'s \<Rightarrow> 'i \<Rightarrow> 's res"
    and seq_get :: "'s \<Rightarrow> nat \<Rightarrow> 'i res"
    and seq_cut :: "'s \<Rightarrow> nat \<Rightarrow> 's"
  assumes seq_add: "seq_inv s \<Longrightarrow> seq_room s (Suc n) \<Longrightarrow> seq_fits s x \<Longrightarrow>
      \<exists>s'. seq_add s x = Inr s' \<and> seq_inv s' \<and> seq_items s' = seq_items s @ [x] \<and>
        seq_room s' n \<and> (\<forall>y. seq_fits s' y = seq_fits s y)"
    and seq_get: "seq_inv s \<Longrightarrow> i < length (seq_items s) \<Longrightarrow> seq_get s i = Inr (seq_items s ! i)"
    and seq_cut: "seq_inv s \<Longrightarrow> n \<le> length (seq_items s) \<Longrightarrow>
      seq_inv (seq_cut s n) \<and> seq_items (seq_cut s n) = take n (seq_items s) \<and>
      (\<forall>y. seq_fits (seq_cut s n) y = seq_fits s y)"
begin

primrec seq_add_all :: "'s \<Rightarrow> 'i list \<Rightarrow> 's res" where
  "seq_add_all s [] = Inr s"
| "seq_add_all s (x # xs) = rbind (seq_add s x) (\<lambda>s'. seq_add_all s' xs)"

lemma seq_add_all_items:
  "seq_inv s \<Longrightarrow> seq_room s (length xs) \<Longrightarrow> \<forall>x\<in>set xs. seq_fits s x \<Longrightarrow>
    \<exists>s'. seq_add_all s xs = Inr s' \<and> seq_inv s' \<and> seq_items s' = seq_items s @ xs"
proof (induction xs arbitrary: s)
  case (Cons x xs)
  then obtain s' where s': "seq_add s x = Inr s'" "seq_inv s'" "seq_items s' = seq_items s @ [x]"
    "seq_room s' (length xs)" "\<forall>y. seq_fits s' y = seq_fits s y"
    using seq_add [of s "length xs" x] by auto
  with Cons.prems(3) Cons.IH [of s'] show ?case by auto
qed simp

text \<open>Building a sequence by appending and reading it back gives the items in order.\<close>

lemma seq_build_read:
  assumes "seq_inv s" and "seq_items s = []" and "seq_room s (length xs)"
    and "\<forall>x\<in>set xs. seq_fits s x" and "i < length xs"
  shows "rbind (seq_add_all s xs) (\<lambda>s'. seq_get s' i) = Inr (xs ! i)"
  using seq_add_all_items [OF assms(1,3,4)] assms(2,5) seq_get by force

text \<open>A push on top is seen by the next read of the top, and cutting it off restores the rest.\<close>

lemma seq_push_top_pop:
  assumes "seq_inv s" and "seq_room s (Suc n)" and "seq_fits s x"
  obtains s' where "seq_add s x = Inr s'" and "seq_get s' (length (seq_items s)) = Inr x"
    and "seq_items (seq_cut s' (length (seq_items s))) = seq_items s"
proof -
  obtain s' where s': "seq_add s x = Inr s'" "seq_inv s'" "seq_items s' = seq_items s @ [x]"
    using seq_add [OF assms] by blast
  then have "seq_get s' (length (seq_items s)) = Inr x"
    using seq_get [of s' "length (seq_items s)"] by simp
  moreover have "seq_items (seq_cut s' (length (seq_items s))) = seq_items s"
    using seq_cut [of s' "length (seq_items s)"] s' by simp
  ultimately show thesis using that s' by blast
qed

end

definition array_push :: "array \<Rightarrow> block \<Rightarrow> array res" where
  "array_push a x = rbind (array_add a (Some x)) (\<lambda>(a', _). Inr a')"

definition array_read :: "array \<Rightarrow> nat \<Rightarrow> block res" where
  "array_read a i = rbind (array_get a (of_nat i)) (\<lambda>p. read_items a p (unat (a_item_size a)))"

lemma array_push_ok:
  assumes ok: "array_ok a" and room: "array_room a (Suc n)" and len: "length x = unat (a_item_size a)"
  obtains b where "array_push a x = Inr b" and "array_ok b" and "array_items b = array_items a @ [x]"
    and "array_room b n" and "a_item_size b = a_item_size a"
proof -
  have "2 * (unat (a_size a) + 1) * unat (a_item_size a)
      \<le> 2 * (unat (a_size a) + Suc n) * unat (a_item_size a)"
    by (intro mult_le_mono) simp_all
  then have room1: "array_room a 1" using room by (simp only: array_room_def)
  obtain b where b: "array_insert a (a_size a) (Some x) = Inr (b, a_size a * a_item_size a)"
    "array_ok b" "a_item_size b = a_item_size a"
    "array_items b = take (unat (a_size a)) (array_items a) @ x # drop (unat (a_size a)) (array_items a)"
    by (rule array_insert_ok [OF ok room1 order_refl len])
  have items: "array_items b = array_items a @ [x]" using b(4) by simp
  then have "unat (a_size b) = unat (a_size a) + 1"
    by (metis length_append_singleton length_array_items Suc_eq_plus1)
  with room b(3) have "array_room b n" by (simp add: array_room_def)
  with that b(1,2,3) items show thesis by (simp add: array_push_def array_add_def)
qed

lemma unat_of_nat_size: "i \<le> unat (s::u32) \<Longrightarrow> unat (of_nat i :: u32) = i"
  using unat_less_2_32 [of s] by (simp add: unat_of_nat)

interpretation arr: item_seq array_ok array_items array_room
  "\<lambda>a x. length x = unat (a_item_size a)" array_push array_read "\<lambda>a n. array_resize a (of_nat n)"
proof unfold_locales
  fix s n and x :: block
  assume "array_ok s" "array_room s (Suc n)" "length x = unat (a_item_size s)"
  then obtain b where "array_push s x = Inr b" "array_ok b" "array_items b = array_items s @ [x]"
    "array_room b n" "a_item_size b = a_item_size s" by (rule array_push_ok)
  then show "\<exists>s'. array_push s x = Inr s' \<and> array_ok s' \<and> array_items s' = array_items s @ [x] \<and>
      array_room s' n \<and>
      (\<forall>y::block. (length y = unat (a_item_size s')) = (length y = unat (a_item_size s)))"
    by simp
next
  fix s i
  assume "array_ok s" "i < length (array_items s)"
  moreover from this have "unat (of_nat i :: u32) = i"
    by (intro unat_of_nat_size [of i "a_size s"]) simp
  ultimately show "array_read s i = Inr (array_items s ! i)"
    using array_read_item [of s "of_nat i"] by (simp add: array_read_def)
next
  fix s n
  assume "array_ok s" "n \<le> length (array_items s)"
  then show "array_ok (array_resize s (of_nat n)) \<and>
      array_items (array_resize s (of_nat n)) = take n (array_items s) \<and>
      (\<forall>y. (length y = unat (a_item_size (array_resize s (of_nat n)))) =
        (length y = unat (a_item_size s)))"
    using array_resize_down_ok [of s "of_nat n"] by (simp add: unat_of_nat_size)
qed


subsection \<open>Where the 32-bit arithmetic gives out\<close>

lemma array_add_grown:
  assumes "array_grow a 1 = Inr b" and "a_size b = a_size a"
  shows "array_add a item = (let s = b\<lparr>a_size := a_size b + 1\<rparr> in
    rbind (case item of None \<Rightarrow> Inr s | Some it \<Rightarrow> array_set s (a_size a) it)
      (\<lambda>s'. Inr (s', a_size a * a_item_size s')))"
  using assms by (simp add: array_add_def array_insert_def)

lemma grow_cap_2_15: "grow_cap (2 ^ 15) (2 ^ 15 + 1) = Some (2 ^ 16)"
  by (subst grow_cap.simps, subst grow_cap.simps) simp


subsection \<open>Properties\<close>

text \<open>
  C18: \<open>array_insert_many\<close> refines list insertion. On a well-formed array with room, it returns
  the offset of the first new item, keeps the invariant and the item size, and the array then
  holds the old items with the new ones spliced in at the index, whatever reallocation and
  moving of bytes that took.
\<close>

theorem array_insert_many_refines:
  assumes "array_ok a" and "array_room a (unat n)" and "unat i \<le> unat (a_size a)"
    and "0 < unat n" and "length bs = unat n * unat (a_item_size a)"
  shows "\<exists>b. array_insert_many a i (Some bs) n = Inr (b, i * a_item_size a) \<and> array_ok b \<and>
    a_item_size b = a_item_size a \<and>
    array_items b = take (unat i) (array_items a)
      @ map (\<lambda>j. chunk (unat (a_item_size a)) j bs) [0..<unat n] @ drop (unat i) (array_items a)"
  by (rule array_insert_many_ok [OF assms]) blast

definition sample_array :: array where
  "sample_array = \<lparr>a_size = 2, a_capacity = 2, a_item_size = 1, a_items = Some [Some 1, Some 2]\<rparr>"

lemma sample_array:
  "array_ok sample_array" "array_items sample_array = [[Some 1], [Some 2]]"
  "a_size sample_array = 2" "a_item_size sample_array = 1"
  by (simp_all add: sample_array_def array_ok_def array_items_def item_at_def chunk_def upt_rec)

theorem array_insert_many_refines_witness:
  "\<exists>b. array_insert_many sample_array 1 (Some [Some 7, Some 8]) 2 = Inr (b, 1) \<and> array_ok b \<and>
    array_items b = [[Some 1], [Some 7], [Some 8], [Some 2]]"
proof -
  have "array_room sample_array (unat (2::u32))" by (simp add: array_room_def sample_array)
  from array_insert_many_refines [OF sample_array(1) this, of 1 "[Some 7, Some 8]"]
  show ?thesis by (auto simp: sample_array chunk_def upt_rec)
qed

text \<open>
  C21: \<open>array_erase_range\<close> refines deletion of a segment: on a well-formed array and a range
  inside it, the items before the range and those after it remain, in their order, and the
  invariant is kept.
\<close>

theorem array_erase_range_refines:
  assumes "array_ok a" and "unat i \<le> unat j" and "unat j \<le> unat (a_size a)"
  shows "\<exists>b. array_erase_range a i j = Inr b \<and> array_ok b \<and> a_item_size b = a_item_size a \<and>
    array_items b = take (unat i) (array_items a) @ drop (unat j) (array_items a)"
  by (rule array_erase_range_ok [OF assms]) blast

theorem array_erase_range_refines_witness:
  "\<exists>b. array_erase_range sample_array 0 1 = Inr b \<and> array_ok b \<and> array_items b = [[Some 2]]"
  using array_erase_range_refines [OF sample_array(1), of 0 1] by (auto simp: sample_array)

primrec array_push_all :: "array \<Rightarrow> block list \<Rightarrow> array res" where
  "array_push_all a [] = Inr a"
| "array_push_all a (x # xs) = rbind (array_push a x) (\<lambda>b. array_push_all b xs)"

lemma array_push_all_conv: "array_push_all a xs = arr.seq_add_all a xs"
  by (induction xs arbitrary: a) (simp_all cong: rbind_cong)

text \<open>
  C30: appending items one by one to a fresh array and reading any of them back gives that item,
  through all the reallocations in between.
\<close>

theorem array_build_read:
  assumes "0 < w" and "2 * length xs * unat w < 2 ^ 32" and "\<forall>x\<in>set xs. length x = unat w"
    and "i < length xs"
  shows "rbind (array_init w) (\<lambda>a. rbind (array_push_all a xs) (\<lambda>b. array_read b i)) = Inr (xs ! i)"
proof -
  obtain a where a: "array_init w = Inr a" "array_ok a" "array_items a = []" "a_item_size a = w"
    using assms(1) by (rule array_init_ok)
  have "a_size a = 0" using arg_cong [OF a(3), of length] by (simp add: unat_eq_0)
  with a(4) assms(2) have "array_room a (length xs)" by (simp add: array_room_def)
  with arr.seq_build_read [OF a(2,3) _ _ assms(4)] a(1,4) assms(3) show ?thesis
    by (simp add: array_push_all_conv)
qed

theorem array_build_read_witness:
  "rbind (array_init 2) (\<lambda>a. rbind (array_push_all a [[Some 1, Some 2], [Some 3, None], [Some 5, Some 6]])
    (\<lambda>b. array_read b 1)) = Inr [Some 3, None]"
  using array_build_read [of 2 "[[Some 1, Some 2], [Some 3, None], [Some 5, Some 6]]" 1] by simp

text \<open>
  C31: adding to a full array of \<open>2 ^ 31\<close> items never returns: the doubling of the capacity
  wraps to 0 and the growth loop runs forever.
\<close>

theorem array_add_full_diverges:
  assumes "a_size a = 2 ^ 31" and "a_capacity a = 2 ^ 31"
  shows "array_add a item = Inl Diverges"
proof -
  have "grow_cap (2 ^ 31) (2 ^ 31 + 1) = None"
    by (rule grow_cap_2_31) simp
  with assms show ?thesis
    by (simp add: array_add_def array_insert_def array_grow_def)
qed

theorem array_add_full_diverges_witness:
  "array_add \<lparr>a_size = 2 ^ 31, a_capacity = 2 ^ 31, a_item_size = 1, a_items = None\<rparr> None = Inl Diverges"
  by (rule array_add_full_diverges) simp_all

text \<open>
  The size of the block is computed in 32 bits. A full, well-formed array of \<open>2 ^ 15\<close>
  items of 64 KiB each asks for \<open>2 ^ 16 * 2 ^ 16 = 2 ^ 32\<close> bytes when it grows, which wraps to 0:
  the block is freed and the item is written through the null pointer.
\<close>

theorem array_add_size_wraps:
  assumes "a_size a = 2 ^ 15" and "a_capacity a = 2 ^ 15" and "a_item_size a = 2 ^ 16"
    and "a_items a = Some r"
  shows "array_add a (Some x) = Inl (Undefined ''access through a null items pointer'')"
proof -
  let ?b = "array_reallocate a (2 ^ 16)"
  have grow: "array_grow a 1 = Inr ?b"
    using assms(1,2) grow_cap_2_15 by (simp add: array_grow_def)
  have b: "a_size ?b = a_size a" "a_items ?b = None"
    using assms(3,4) by (simp_all add: array_reallocate_def realloc_block_def)
  show ?thesis
    unfolding array_add_grown [OF grow b(1)] using assms(1) b
    by (simp add: array_set_def with_items_def Let_def)
qed

theorem array_add_size_wraps_witness:
  "array_add \<lparr>a_size = 2 ^ 15, a_capacity = 2 ^ 15, a_item_size = 2 ^ 16,
      a_items = Some (replicate (2 ^ 31) None)\<rparr> (Some (replicate (2 ^ 16) (Some 0))) =
    Inl (Undefined ''access through a null items pointer'')"
  by (rule array_add_size_wraps [where r = "replicate (2 ^ 31) None"]) simp_all

end
