(* ===== verification/Options.thy ===== *)
theory Options
  imports Low_Prelude
begin

section \<open>Command line options (src/options.c)\<close>

text \<open>
  The argument vector is the list of its strings; \<open>argi\<close>, \<open>argo\<close> and \<open>arge\<close> are positions
  in it. The global \<open>options.output_name\<close> is passed and returned. \<open>parse_options\<close> removes
  the options in place; \<open>scan_args\<close> is the specification over lists, and the main lemma
  says that what \<open>parse_options\<close> leaves is what the specification selects.
\<close>

record options =
  output_name :: "string option"

text \<open>Reading an argument: only the \<open>argc\<close> strings of the vector can be dereferenced.\<close>

definition arg_at :: "string list \<Rightarrow> nat \<Rightarrow> string res" where
  "arg_at argv i = (if i < length argv then Inr (argv ! i)
     else Inl (Undefined ''argument read past the end of argv''))"

definition parse_short_option ::
    "options \<Rightarrow> char \<Rightarrow> string list \<Rightarrow> nat \<Rightarrow> nat \<Rightarrow> (options \<times> nat) res" where
  "parse_short_option opts opt argv argi arge =
     (if opt = CHR ''o'' then
        (let argi' = argi + 1 in
         if argi' = arge then Inl (Exited ''expected output file name after -o'')
         else rbind (arg_at argv argi') (\<lambda>name. Inr (opts\<lparr>output_name := Some name\<rparr>, argi')))
      else Inl (Exited (''unknown option -'' @ [opt])))"

definition parse_long_option :: "options \<Rightarrow> string \<Rightarrow> nat \<Rightarrow> nat \<Rightarrow> (options \<times> nat) res" where
  "parse_long_option opts opt argi arge = Inl (Exited (''unknown option --'' @ opt))"

text \<open>The loop over the characters of one argument, \<open>for (c = arg+1; *c; ++c)\<close>.\<close>

fun parse_short_options ::
    "options \<Rightarrow> string \<Rightarrow> string list \<Rightarrow> nat \<Rightarrow> nat \<Rightarrow> (options \<times> nat) res" where
  "parse_short_options opts [] argv argi arge = Inr (opts, argi)"
| "parse_short_options opts (c # cs) argv argi arge =
     rbind (parse_short_option opts c argv argi arge)
       (\<lambda>(opts', argi'). parse_short_options opts' cs argv argi' arge)"

lemma parse_short_option_argi:
  "parse_short_option opts c argv argi arge = Inr (opts', argi') \<Longrightarrow> argi \<le> argi'"
  by (auto simp: parse_short_option_def Let_def rbind_Inr_conv split: if_splits)

lemma parse_short_options_argi:
  "parse_short_options opts cs argv argi arge = Inr (opts', argi') \<Longrightarrow> argi \<le> argi'"
  by (induction opts cs argv argi arge rule: parse_short_options.induct)
    (force simp: rbind_Inr_conv dest: parse_short_option_argi)+

text \<open>
  The main loop; the result is \<open>(options, argv, argi, argo)\<close>. A double hyphen ends it after
  stepping over the argument.
\<close>

function parse_options_loop ::
    "options \<Rightarrow> string list \<Rightarrow> nat \<Rightarrow> nat \<Rightarrow> nat \<Rightarrow> (options \<times> string list \<times> nat \<times> nat) res" where
  "parse_options_loop opts argv argi argo arge =
     (if argi = arge then Inr (opts, argv, argi, argo)
      else rbind (arg_at argv argi) (\<lambda>arg.
        if take 1 arg = ''-'' then
          if take 1 (drop 1 arg) = ''-'' then
            if drop 2 arg = [] then Inr (opts, argv, argi + 1, argo)
            else rbind (parse_long_option opts (drop 2 arg) argi arge) (\<lambda>(opts', argi').
              if argi \<le> argi' then parse_options_loop opts' argv (argi' + 1) argo arge
              else Inl Diverges)
          else rbind (parse_short_options opts (drop 1 arg) argv argi arge) (\<lambda>(opts', argi').
            parse_options_loop opts' argv (argi' + 1) argo arge)
        else parse_options_loop opts (argv[argo := arg]) (argi + 1) (argo + 1) arge))"
  by pat_completeness auto
termination
  by (relation "measure (\<lambda>(opts, argv, argi, argo, arge). length argv - argi)")
    (auto simp: arg_at_def split: if_splits dest: parse_short_options_argi)

declare parse_options_loop.simps [simp del]

text \<open>The final loop, \<open>while (argi != arge) *argo++ = *argi++\<close>.\<close>

function copy_rest :: "string list \<Rightarrow> nat \<Rightarrow> nat \<Rightarrow> nat \<Rightarrow> (string list \<times> nat) res" where
  "copy_rest argv argi argo arge =
     (if argi = arge then Inr (argv, argo)
      else rbind (arg_at argv argi) (\<lambda>arg.
        copy_rest (argv[argo := arg]) (argi + 1) (argo + 1) arge))"
  by pat_completeness auto
termination
  by (relation "measure (\<lambda>(argv, argi, argo, arge). length argv - argi)")
    (auto simp: arg_at_def split: if_splits)

declare copy_rest.simps [simp del]

text \<open>The new \<open>argc\<close> and \<open>argv\<close>, and the options found.\<close>

definition parse_options :: "options \<Rightarrow> string list \<Rightarrow> (options \<times> nat \<times> string list) res" where
  "parse_options opts argv =
     (let arge = length argv in
      rbind (parse_options_loop opts argv 1 1 arge) (\<lambda>(opts', argv', argi, argo).
        rbind (copy_rest argv' argi argo arge) (\<lambda>(argv'', argo').
          Inr (opts', argo', argv''))))"

subsection \<open>Specification over lists\<close>

text \<open>
  \<open>scan_args opts args\<close> is the list of positional arguments of \<open>args\<close> with the options
  set on the way; an output option takes the argument that follows it.
\<close>

fun scan_shorts :: "options \<Rightarrow> string \<Rightarrow> string list \<Rightarrow> (options \<times> string list) res" where
  "scan_shorts opts [] rest = Inr (opts, rest)"
| "scan_shorts opts (c # cs) rest =
     (if c = CHR ''o'' then
        (case rest of [] \<Rightarrow> Inl (Exited ''expected output file name after -o'')
         | name # rest' \<Rightarrow> scan_shorts (opts\<lparr>output_name := Some name\<rparr>) cs rest')
      else Inl (Exited (''unknown option -'' @ [c])))"

lemma scan_shorts_length: "scan_shorts opts cs rest = Inr (opts', rest') \<Longrightarrow> length rest' \<le> length rest"
  by (induction opts cs rest rule: scan_shorts.induct) (auto split: if_splits list.splits)

function scan_args :: "options \<Rightarrow> string list \<Rightarrow> (options \<times> string list) res" where
  "scan_args opts [] = Inr (opts, [])"
| "scan_args opts (arg # rest) =
     (if take 1 arg \<noteq> ''-'' then rbind (scan_args opts rest) (\<lambda>(opts', ps). Inr (opts', arg # ps))
      else if arg = ''--'' then Inr (opts, rest)
      else if take 2 arg = ''--'' then Inl (Exited (''unknown option --'' @ drop 2 arg))
      else rbind (scan_shorts opts (drop 1 arg) rest) (\<lambda>(opts', rest'). scan_args opts' rest'))"
  by pat_completeness auto
termination
  by (relation "measure (\<lambda>(opts, args). length args)") (auto dest: scan_shorts_length)

subsection \<open>The loop implements the specification\<close>

lemma parse_short_options_scan:
  assumes "argi < length argv"
  shows "parse_short_options opts cs argv argi (length argv) =
    rbind (scan_shorts opts cs (drop (Suc argi) argv)) (\<lambda>(opts', rest).
      Inr (opts', length argv - Suc (length rest)))"
  using assms
proof (induction opts cs "drop (Suc argi) argv" arbitrary: argi rule: scan_shorts.induct)
  case (2 opts c cs)
  show ?case
  proof (cases "Suc argi = length argv")
    case True
    then show ?thesis by (simp add: parse_short_option_def)
  next
    case False
    with "2.prems" have lt: "Suc argi < length argv" by simp
    then have rest: "drop (Suc argi) argv = argv ! Suc argi # drop (Suc (Suc argi)) argv"
      by (rule Cons_nth_drop_Suc [symmetric])
    show ?thesis
      using "2.hyps" [OF _ rest] lt False by (simp add: parse_short_option_def arg_at_def rest)
  qed
qed simp

text \<open>Writing below the read position does not change what is still to be read.\<close>

lemma drop_update_below: "argo \<le> argi \<Longrightarrow> drop (Suc argi) (argv[argo := x]) = drop (Suc argi) argv"
  by (simp add: drop_update_cancel)

lemma take_update_top: "argo < length argv \<Longrightarrow> take (Suc argo) (argv[argo := x]) = take argo argv @ [x]"
  by (simp add: take_Suc_conv_app_nth)

lemma copy_rest_appends:
  assumes "argo \<le> argi" and "argi + n = length argv"
  shows "\<exists>argv'. copy_rest argv argi argo (length argv) = Inr (argv', argo + n) \<and>
    length argv' = length argv \<and> take (argo + n) argv' = take argo argv @ drop argi argv"
  using assms
proof (induction n arbitrary: argv argi argo)
  case 0
  then show ?case by (simp add: copy_rest.simps)
next
  case (Suc n)
  then have lt: "argi < length argv" and lto: "argo < length argv" by simp_all
  let ?argv = "argv[argo := argv ! argi]"
  have step: "copy_rest argv argi argo (length argv) =
      copy_rest ?argv (Suc argi) (Suc argo) (length ?argv)"
    using lt by (simp add: copy_rest.simps [of argv] arg_at_def)
  have rest: "take (Suc argo) ?argv @ drop (Suc argi) ?argv = take argo argv @ drop argi argv"
    using Suc.prems(1) by (simp add: take_update_top [OF lto] drop_update_below
        Cons_nth_drop_Suc [OF lt])
  from Suc.IH [of "Suc argo" "Suc argi" ?argv] Suc.prems
  show ?case unfolding step rest [symmetric] by simp
qed

lemma scan_shorts_suffix:
  "scan_shorts opts cs rest = Inr (opts', rest') \<Longrightarrow> rest' = drop (length rest - length rest') rest"
proof (induction opts cs rest rule: scan_shorts.induct)
  case (2 opts c cs rest)
  then show ?case
    by (auto split: if_splits list.splits dest: scan_shorts_length simp: Suc_diff_le)
qed simp

text \<open>
  The loop and the copy after it, from a position where \<open>argo\<close> positional arguments have
  been kept, leave those and the ones the specification selects of the rest.
\<close>

definition parse_tail :: "options \<Rightarrow> string list \<Rightarrow> nat \<Rightarrow> nat \<Rightarrow> (options \<times> string list \<times> nat) res" where
  "parse_tail opts argv argi argo =
     rbind (parse_options_loop opts argv argi argo (length argv)) (\<lambda>(opts', argv', argi', argo').
       rbind (copy_rest argv' argi' argo' (length argv)) (\<lambda>(argv'', argo'').
         Inr (opts', argv'', argo'')))"

definition tail_matches ::
    "(options \<times> string list \<times> nat) res \<Rightarrow> string list \<Rightarrow> (options \<times> string list) res \<Rightarrow> bool" where
  "tail_matches r kept spec = (case spec of Inl e \<Rightarrow> r = Inl e
     | Inr (opts, ps) \<Rightarrow> (case r of Inl e \<Rightarrow> False
         | Inr (opts', argv', argo) \<Rightarrow> opts' = opts \<and> argo \<le> length argv' \<and>
             take argo argv' = kept @ ps))"

lemma tail_matches_keep:
  "tail_matches r (kept @ [arg]) spec \<Longrightarrow>
   tail_matches r kept (rbind spec (\<lambda>(opts, ps). Inr (opts, arg # ps)))"
  by (auto simp: tail_matches_def split: sum.splits prod.splits)

lemma parse_tail_scan:
  assumes "argo \<le> argi" and "argi \<le> length argv"
  shows "tail_matches (parse_tail opts argv argi argo) (take argo argv)
    (scan_args opts (drop argi argv))"
  using assms
proof (induction "length argv - argi" arbitrary: opts argv argi argo rule: less_induct)
  case less
  show ?case
  proof (cases "argi = length argv")
    case True
    then show ?thesis using less.prems
      by (simp add: parse_tail_def parse_options_loop.simps copy_rest.simps tail_matches_def)
  next
    case False
    with less.prems have lt: "argi < length argv" and lto: "argo < length argv" by simp_all
    define arg where "arg = argv ! argi"
    have rest: "drop argi argv = arg # drop (Suc argi) argv"
      unfolding arg_def by (rule Cons_nth_drop_Suc [OF lt, symmetric])
    consider (pos) "take 1 arg \<noteq> ''-''" | (dashes) "arg = ''--''"
      | (long) "take 2 arg = ''--''" "arg \<noteq> ''--''" | (short) "take 1 arg = ''-''" "take 2 arg \<noteq> ''--''"
      by blast
    then show ?thesis
    proof cases
      case pos
      let ?argv = "argv[argo := arg]"
      have "parse_tail opts argv argi argo = parse_tail opts ?argv (Suc argi) (Suc argo)"
        using pos lt by (simp add: parse_tail_def parse_options_loop.simps [of opts argv]
            arg_at_def arg_def)
      moreover have "scan_args opts (drop argi argv) =
          rbind (scan_args opts (drop (Suc argi) ?argv)) (\<lambda>(opts', ps). Inr (opts', arg # ps))"
        using pos less.prems(1) by (simp add: rest drop_update_below)
      moreover have "tail_matches (parse_tail opts ?argv (Suc argi) (Suc argo))
          (take argo argv @ [arg]) (scan_args opts (drop (Suc argi) ?argv))"
        using less.hyps [of ?argv "Suc argi" "Suc argo" opts] less.prems lt
        unfolding take_update_top [OF lto] by simp
      ultimately show ?thesis by (simp only: tail_matches_keep)
    next
      case dashes
      then have "parse_tail opts argv argi argo = rbind (copy_rest argv (Suc argi) argo (length argv))
          (\<lambda>(argv', argo'). Inr (opts, argv', argo'))"
        using lt by (simp add: parse_tail_def parse_options_loop.simps arg_at_def arg_def)
      moreover have "argo \<le> Suc argi" "Suc argi + (length argv - Suc argi) = length argv"
        using less.prems lt by simp_all
      ultimately show ?thesis
        using copy_rest_appends [of argo "Suc argi" "length argv - Suc argi" argv] dashes less.prems lt
        by (auto simp: tail_matches_def rest)
    next
      case long
      then obtain c cs where "arg = CHR ''-'' # CHR ''-'' # c # cs"
        by (cases arg; cases "tl arg"; cases "tl (tl arg)") (auto split: if_splits)
      then show ?thesis
        using lt rest by (simp add: parse_tail_def parse_options_loop.simps arg_at_def arg_def
            parse_long_option_def tail_matches_def)
    next
      case short
      then obtain cs where arg: "arg = CHR ''-'' # cs" "take 1 cs \<noteq> ''-''"
        by (cases arg) (auto split: if_splits)
      have scan: "scan_args opts (drop argi argv) =
          rbind (scan_shorts opts cs (drop (Suc argi) argv)) (\<lambda>(opts', rest'). scan_args opts' rest')"
        using short arg by (auto simp: rest)
      show ?thesis
      proof (cases "scan_shorts opts cs (drop (Suc argi) argv)")
        case (Inl e)
        then show ?thesis unfolding scan
          using lt arg by (simp add: parse_tail_def parse_options_loop.simps arg_at_def
              arg_def [symmetric] parse_short_options_scan [OF lt] tail_matches_def)
      next
        case (Inr r)
        then obtain opts' rest' where r: "scan_shorts opts cs (drop (Suc argi) argv) = Inr (opts', rest')"
          by (cases r) simp
        let ?argi = "length argv - length rest'"
        have len: "length rest' \<le> length argv - Suc argi"
          using scan_shorts_length [OF r] by simp
        then have argi_next: "Suc (length argv - Suc (length rest')) = ?argi" using lt by simp
        have "rest' = drop (length argv - Suc argi - length rest' + Suc argi) argv"
          using scan_shorts_suffix [OF r] by simp
        also have "length argv - Suc argi - length rest' + Suc argi = ?argi"
          using len lt by simp
        finally have rest': "drop ?argi argv = rest'" by simp
        have "parse_tail opts argv argi argo = parse_tail opts' argv ?argi argo"
          using lt arg by (simp add: parse_tail_def parse_options_loop.simps [of opts argv argi]
              arg_at_def arg_def [symmetric] parse_short_options_scan [OF lt] r argi_next)
        moreover have "length argv - ?argi < length argv - argi" "argo \<le> ?argi" "?argi \<le> length argv"
          using len lt less.prems by simp_all
        ultimately show ?thesis
          using less.hyps [of argv ?argi argo opts'] unfolding scan r by (simp add: rest')
      qed
    qed
  qed
qed


subsection \<open>Properties\<close>

text \<open>
  C29: on every argument vector that holds the command name, \<open>parse_options\<close> implements the
  list specification: it exits with the message of the specification, or it stores the last
  \<open>-o\<close> argument, sets \<open>argc\<close> to one more than the number of positional arguments, and leaves
  the command name followed by exactly those arguments, in their order, at the front of
  \<open>argv\<close>. It never reads past the vector.
\<close>

theorem parse_options_keeps_positionals:
  assumes "argv \<noteq> []"
  shows "case scan_args opts (tl argv) of
      Inl e \<Rightarrow> parse_options opts argv = Inl e
    | Inr (opts', ps) \<Rightarrow> \<exists>argv'. parse_options opts argv = Inr (opts', Suc (length ps), argv') \<and>
        length ps < length argv' \<and> take (Suc (length ps)) argv' = hd argv # ps"
proof -
  have "parse_options opts argv =
      rbind (parse_tail opts argv 1 1) (\<lambda>(opts', argv', argo). Inr (opts', argo, argv'))"
    by (simp add: parse_options_def parse_tail_def split_def rbind_assoc Let_def)
  moreover have "take 1 argv = [hd argv]" "drop 1 argv = tl argv"
    using assms by (cases argv; simp)+
  ultimately have eq: "parse_options opts argv = rbind r (\<lambda>(opts', argv', argo). Inr (opts', argo, argv'))"
    and m: "tail_matches r [hd argv] (scan_args opts (tl argv))" if "r = parse_tail opts argv 1 1" for r
    using parse_tail_scan [of 1 1 argv opts] assms that by (simp_all add: Suc_le_eq)
  show ?thesis
  proof (cases "scan_args opts (tl argv)")
    case (Inl e)
    with eq m show ?thesis by (simp add: tail_matches_def)
  next
    case (Inr q)
    then obtain o' ps where q: "scan_args opts (tl argv) = Inr (o', ps)" by (cases q) simp
    with m obtain argv' argo where r: "parse_tail opts argv 1 1 = Inr (o', argv', argo)"
      and t: "argo \<le> length argv'" "take argo argv' = [hd argv] @ ps"
      by (auto simp: tail_matches_def split: sum.splits)
    have argo: "argo = Suc (length ps)" using arg_cong [OF t(2), of length] t(1) by simp
    with t have "length ps < length argv'" "take (Suc (length ps)) argv' = hd argv # ps" by simp_all
    with q eq r argo show ?thesis by simp
  qed
qed

theorem parse_options_keeps_positionals_witness:
  "\<exists>argv'. parse_options \<lparr>output_name = None\<rparr> [''lowc'', ''a.low'', ''-o'', ''x'', ''--'', ''-b''] =
     Inr (\<lparr>output_name = Some ''x''\<rparr>, 3, argv') \<and> take 3 argv' = [''lowc'', ''a.low'', ''-b'']"
  using parse_options_keeps_positionals
    [of "[''lowc'', ''a.low'', ''-o'', ''x'', ''--'', ''-b'']" "\<lparr>output_name = None\<rparr>"]
  by (auto simp: eval_nat_numeral)

end
