(* ===== verification/Tokens.thy ===== *)
theory Tokens
  imports Low_Prelude
begin

section \<open>Tokens (src/lexer.h, src/lexer_tokens.h and the tables of src/lexer.c)\<close>

text \<open>
  A token is the C \<open>int\<close> the enumeration of \<open>lexer.h\<close> gives it: three special tokens and
  then the list \<open>TOKENS\<close> of \<open>lexer_tokens.h\<close> in its order. The abbreviations name them;
  \<open>token_names\<close> is the table of names the diagnostics use. The lists \<open>operators3\<close>,
  \<open>operators2\<close> and \<open>operators1\<close> hold the \<open>CHECK_TOKEN\<close> lines of \<open>lexer_next\<close> in their
  order, \<open>keyword_table\<close> its \<open>CHECK_KEYWORD\<close> lines and \<open>terminators\<close> the table of the
  tokens after which a line break ends the statement.
\<close>

subsection \<open>The enumeration\<close>

abbreviation (input) TKN_INVALID :: nat where "TKN_INVALID \<equiv> 0"
abbreviation (input) TKN_SOF :: nat where "TKN_SOF \<equiv> 1"
abbreviation (input) TKN_EOF :: nat where "TKN_EOF \<equiv> 2"
abbreviation (input) TKN_IDENT :: nat where "TKN_IDENT \<equiv> 3"
abbreviation (input) TKN_NUMBER_LITERAL :: nat where "TKN_NUMBER_LITERAL \<equiv> 4"
abbreviation (input) TKN_STRING_LITERAL :: nat where "TKN_STRING_LITERAL \<equiv> 5"
abbreviation (input) TKN_ADD_OP :: nat where "TKN_ADD_OP \<equiv> 6"
abbreviation (input) TKN_AND_OP :: nat where "TKN_AND_OP \<equiv> 7"
abbreviation (input) TKN_BITWISE_AND :: nat where "TKN_BITWISE_AND \<equiv> 8"
abbreviation (input) TKN_BITWISE_NOT :: nat where "TKN_BITWISE_NOT \<equiv> 9"
abbreviation (input) TKN_BITWISE_OR :: nat where "TKN_BITWISE_OR \<equiv> 10"
abbreviation (input) TKN_BITWISE_XOR :: nat where "TKN_BITWISE_XOR \<equiv> 11"
abbreviation (input) TKN_DEC_OP :: nat where "TKN_DEC_OP \<equiv> 12"
abbreviation (input) TKN_DIV_OP :: nat where "TKN_DIV_OP \<equiv> 13"
abbreviation (input) TKN_EQ_OP :: nat where "TKN_EQ_OP \<equiv> 14"
abbreviation (input) TKN_GE_OP :: nat where "TKN_GE_OP \<equiv> 15"
abbreviation (input) TKN_GT_OP :: nat where "TKN_GT_OP \<equiv> 16"
abbreviation (input) TKN_INC_OP :: nat where "TKN_INC_OP \<equiv> 17"
abbreviation (input) TKN_LEFT_OP :: nat where "TKN_LEFT_OP \<equiv> 18"
abbreviation (input) TKN_LE_OP :: nat where "TKN_LE_OP \<equiv> 19"
abbreviation (input) TKN_LT_OP :: nat where "TKN_LT_OP \<equiv> 20"
abbreviation (input) TKN_MAPTO :: nat where "TKN_MAPTO \<equiv> 21"
abbreviation (input) TKN_MOD_OP :: nat where "TKN_MOD_OP \<equiv> 22"
abbreviation (input) TKN_MUL_OP :: nat where "TKN_MUL_OP \<equiv> 23"
abbreviation (input) TKN_NE_OP :: nat where "TKN_NE_OP \<equiv> 24"
abbreviation (input) TKN_NOT_OP :: nat where "TKN_NOT_OP \<equiv> 25"
abbreviation (input) TKN_OR_OP :: nat where "TKN_OR_OP \<equiv> 26"
abbreviation (input) TKN_RIGHT_OP :: nat where "TKN_RIGHT_OP \<equiv> 27"
abbreviation (input) TKN_SUB_OP :: nat where "TKN_SUB_OP \<equiv> 28"
abbreviation (input) TKN_ASSIGN :: nat where "TKN_ASSIGN \<equiv> 29"
abbreviation (input) TKN_ADD_ASSIGN :: nat where "TKN_ADD_ASSIGN \<equiv> 30"
abbreviation (input) TKN_AND_ASSIGN :: nat where "TKN_AND_ASSIGN \<equiv> 31"
abbreviation (input) TKN_DEF_ASSIGN :: nat where "TKN_DEF_ASSIGN \<equiv> 32"
abbreviation (input) TKN_DIV_ASSIGN :: nat where "TKN_DIV_ASSIGN \<equiv> 33"
abbreviation (input) TKN_LEFT_ASSIGN :: nat where "TKN_LEFT_ASSIGN \<equiv> 34"
abbreviation (input) TKN_MOD_ASSIGN :: nat where "TKN_MOD_ASSIGN \<equiv> 35"
abbreviation (input) TKN_MUL_ASSIGN :: nat where "TKN_MUL_ASSIGN \<equiv> 36"
abbreviation (input) TKN_OR_ASSIGN :: nat where "TKN_OR_ASSIGN \<equiv> 37"
abbreviation (input) TKN_RIGHT_ASSIGN :: nat where "TKN_RIGHT_ASSIGN \<equiv> 38"
abbreviation (input) TKN_SUB_ASSIGN :: nat where "TKN_SUB_ASSIGN \<equiv> 39"
abbreviation (input) TKN_XOR_ASSIGN :: nat where "TKN_XOR_ASSIGN \<equiv> 40"
abbreviation (input) TKN_COMMA :: nat where "TKN_COMMA \<equiv> 41"
abbreviation (input) TKN_COLON :: nat where "TKN_COLON \<equiv> 42"
abbreviation (input) TKN_ELLIPSIS :: nat where "TKN_ELLIPSIS \<equiv> 43"
abbreviation (input) TKN_HASH :: nat where "TKN_HASH \<equiv> 44"
abbreviation (input) TKN_LBRACE :: nat where "TKN_LBRACE \<equiv> 45"
abbreviation (input) TKN_LBRACK :: nat where "TKN_LBRACK \<equiv> 46"
abbreviation (input) TKN_LPAREN :: nat where "TKN_LPAREN \<equiv> 47"
abbreviation (input) TKN_PERIOD :: nat where "TKN_PERIOD \<equiv> 48"
abbreviation (input) TKN_QUESTION :: nat where "TKN_QUESTION \<equiv> 49"
abbreviation (input) TKN_RBRACE :: nat where "TKN_RBRACE \<equiv> 50"
abbreviation (input) TKN_RBRACK :: nat where "TKN_RBRACK \<equiv> 51"
abbreviation (input) TKN_RPAREN :: nat where "TKN_RPAREN \<equiv> 52"
abbreviation (input) TKN_SEMICOLON :: nat where "TKN_SEMICOLON \<equiv> 53"
abbreviation (input) TKN_ALIGNAS :: nat where "TKN_ALIGNAS \<equiv> 54"
abbreviation (input) TKN_ATOMIC :: nat where "TKN_ATOMIC \<equiv> 55"
abbreviation (input) TKN_BREAK :: nat where "TKN_BREAK \<equiv> 56"
abbreviation (input) TKN_CASE :: nat where "TKN_CASE \<equiv> 57"
abbreviation (input) TKN_CONST :: nat where "TKN_CONST \<equiv> 58"
abbreviation (input) TKN_CONTINUE :: nat where "TKN_CONTINUE \<equiv> 59"
abbreviation (input) TKN_DEFAULT :: nat where "TKN_DEFAULT \<equiv> 60"
abbreviation (input) TKN_DO :: nat where "TKN_DO \<equiv> 61"
abbreviation (input) TKN_ELSE :: nat where "TKN_ELSE \<equiv> 62"
abbreviation (input) TKN_ENUM :: nat where "TKN_ENUM \<equiv> 63"
abbreviation (input) TKN_EXTERN :: nat where "TKN_EXTERN \<equiv> 64"
abbreviation (input) TKN_FOR :: nat where "TKN_FOR \<equiv> 65"
abbreviation (input) TKN_FUNC :: nat where "TKN_FUNC \<equiv> 66"
abbreviation (input) TKN_GOTO :: nat where "TKN_GOTO \<equiv> 67"
abbreviation (input) TKN_IF :: nat where "TKN_IF \<equiv> 68"
abbreviation (input) TKN_IMPORT :: nat where "TKN_IMPORT \<equiv> 69"
abbreviation (input) TKN_INLINE :: nat where "TKN_INLINE \<equiv> 70"
abbreviation (input) TKN_INTERFACE :: nat where "TKN_INTERFACE \<equiv> 71"
abbreviation (input) TKN_NEW :: nat where "TKN_NEW \<equiv> 72"
abbreviation (input) TKN_FREE :: nat where "TKN_FREE \<equiv> 73"
abbreviation (input) TKN_MAKE :: nat where "TKN_MAKE \<equiv> 74"
abbreviation (input) TKN_LEN :: nat where "TKN_LEN \<equiv> 75"
abbreviation (input) TKN_CAP :: nat where "TKN_CAP \<equiv> 76"
abbreviation (input) TKN_PACKAGE :: nat where "TKN_PACKAGE \<equiv> 77"
abbreviation (input) TKN_DISPOSE :: nat where "TKN_DISPOSE \<equiv> 78"
abbreviation (input) TKN_RETURN :: nat where "TKN_RETURN \<equiv> 79"
abbreviation (input) TKN_SIZEOF :: nat where "TKN_SIZEOF \<equiv> 80"
abbreviation (input) TKN_STATIC :: nat where "TKN_STATIC \<equiv> 81"
abbreviation (input) TKN_STRUCT :: nat where "TKN_STRUCT \<equiv> 82"
abbreviation (input) TKN_SWITCH :: nat where "TKN_SWITCH \<equiv> 83"
abbreviation (input) TKN_TYPE :: nat where "TKN_TYPE \<equiv> 84"
abbreviation (input) TKN_TYPEDEF :: nat where "TKN_TYPEDEF \<equiv> 85"
abbreviation (input) TKN_UNION :: nat where "TKN_UNION \<equiv> 86"
abbreviation (input) TKN_VAR :: nat where "TKN_VAR \<equiv> 87"
abbreviation (input) TKN_VOID :: nat where "TKN_VOID \<equiv> 88"
abbreviation (input) TKN_VOLATILE :: nat where "TKN_VOLATILE \<equiv> 89"
abbreviation (input) TKN_WHILE :: nat where "TKN_WHILE \<equiv> 90"
abbreviation (input) TKN_YIELD :: nat where "TKN_YIELD \<equiv> 91"

definition MAX_TOKENS :: nat where
  "MAX_TOKENS = 92"

text \<open>The names; the first three entries are null pointers.\<close>

definition token_names :: "string option list" where
  "token_names = [None, None, None,
    Some ''identifier'', Some ''number literal'', Some ''string literal'', Some ''+'',
    Some ''&&'', Some ''&'', Some ''~'', Some ''|'', Some ''^'', Some ''--'', Some ''/'',
    Some ''='', Some ''>='', Some ''>'', Some ''++'', Some ''<<'', Some ''<='', Some ''<'',
    Some ''->'', Some ''%'', Some ''*'', Some ''!='', Some ''!'', Some ''||'', Some ''>>'',
    Some ''-'', Some ''='', Some ''+='', Some ''&='', Some '':='', Some ''/='',
    Some ''<<='', Some ''%='', Some ''*='', Some ''|='', Some ''>>='', Some ''-='',
    Some ''^='', Some '','', Some '':'', Some ''...'', Some ''#'', Some ''{'', Some ''['',
    Some ''('', Some ''.'', Some ''?'', Some ''}'', Some '']'', Some '')'', Some '';'',
    Some ''alignas'', Some ''atomic'', Some ''break'', Some ''case'', Some ''const'',
    Some ''continue'', Some ''default'', Some ''do'', Some ''else'', Some ''enum'',
    Some ''extern'', Some ''for'', Some ''func'', Some ''goto'', Some ''if'',
    Some ''import'', Some ''inline'', Some ''interface'', Some ''new'', Some ''free'',
    Some ''make'', Some ''len'', Some ''cap'', Some ''package'', Some ''dispose'',
    Some ''return'', Some ''sizeof'', Some ''static'', Some ''struct'', Some ''switch'',
    Some ''type'', Some ''typedef'', Some ''union'', Some ''var'', Some ''void'',
    Some ''volatile'', Some ''while'', Some ''yield'']"

subsection \<open>Spellings\<close>

definition operators3 :: "(string \<times> nat) list" where
  "operators3 = [
    (''...'', TKN_ELLIPSIS), (''>>='', TKN_RIGHT_ASSIGN), (''<<='', TKN_LEFT_ASSIGN)]"

definition operators2 :: "(string \<times> nat) list" where
  "operators2 = [
    ('':='', TKN_DEF_ASSIGN), (''+='', TKN_ADD_ASSIGN), (''-='', TKN_SUB_ASSIGN),
    (''*='', TKN_MUL_ASSIGN), (''/='', TKN_DIV_ASSIGN), (''%='', TKN_MOD_ASSIGN),
    (''&='', TKN_AND_ASSIGN), (''^='', TKN_XOR_ASSIGN), (''|='', TKN_OR_ASSIGN),
    (''>>'', TKN_RIGHT_OP), (''<<'', TKN_LEFT_OP), (''++'', TKN_INC_OP),
    (''--'', TKN_DEC_OP), (''&&'', TKN_AND_OP), (''||'', TKN_OR_OP), (''<='', TKN_LE_OP),
    (''>='', TKN_GE_OP), (''=='', TKN_EQ_OP), (''!='', TKN_NE_OP), (''->'', TKN_MAPTO)]"

definition operators1 :: "(string \<times> nat) list" where
  "operators1 = [
    ('';'', TKN_SEMICOLON), (''{'', TKN_LBRACE), (''}'', TKN_RBRACE), ('','', TKN_COMMA),
    ('':'', TKN_COLON), (''='', TKN_ASSIGN), (''('', TKN_LPAREN), ('')'', TKN_RPAREN),
    (''['', TKN_LBRACK), ('']'', TKN_RBRACK), (''.'', TKN_PERIOD),
    (''&'', TKN_BITWISE_AND), (''!'', TKN_NOT_OP), (''~'', TKN_BITWISE_NOT),
    (''-'', TKN_SUB_OP), (''+'', TKN_ADD_OP), (''*'', TKN_MUL_OP), (''/'', TKN_DIV_OP),
    (''%'', TKN_MOD_OP), (''<'', TKN_LT_OP), (''>'', TKN_GT_OP), (''^'', TKN_BITWISE_XOR),
    (''|'', TKN_BITWISE_OR), (''?'', TKN_QUESTION), (''#'', TKN_HASH)]"

definition keyword_table :: "(string \<times> nat) list" where
  "keyword_table = [
    (''alignas'', TKN_ALIGNAS), (''atomic'', TKN_ATOMIC), (''break'', TKN_BREAK),
    (''cap'', TKN_CAP), (''case'', TKN_CASE), (''const'', TKN_CONST),
    (''continue'', TKN_CONTINUE), (''default'', TKN_DEFAULT), (''dispose'', TKN_DISPOSE),
    (''do'', TKN_DO), (''else'', TKN_ELSE), (''enum'', TKN_ENUM), (''extern'', TKN_EXTERN),
    (''for'', TKN_FOR), (''free'', TKN_FREE), (''func'', TKN_FUNC), (''goto'', TKN_GOTO),
    (''if'', TKN_IF), (''import'', TKN_IMPORT), (''inline'', TKN_INLINE),
    (''interface'', TKN_INTERFACE), (''len'', TKN_LEN), (''make'', TKN_MAKE),
    (''new'', TKN_NEW), (''package'', TKN_PACKAGE), (''return'', TKN_RETURN),
    (''sizeof'', TKN_SIZEOF), (''static'', TKN_STATIC), (''struct'', TKN_STRUCT),
    (''switch'', TKN_SWITCH), (''type'', TKN_TYPE), (''typedef'', TKN_TYPEDEF),
    (''union'', TKN_UNION), (''var'', TKN_VAR), (''void'', TKN_VOID),
    (''volatile'', TKN_VOLATILE), (''while'', TKN_WHILE), (''yield'', TKN_YIELD)]"

text \<open>The table in the source ends with a 0.\<close>

definition terminators :: "nat list" where
  "terminators = [TKN_BREAK, TKN_CONTINUE, TKN_DEC_OP, TKN_IDENT,
    TKN_INC_OP, TKN_NUMBER_LITERAL, TKN_RBRACE, TKN_RETURN,
    TKN_RPAREN, TKN_STRING_LITERAL, TKN_VOID, TKN_RBRACK]"

end
