(* ===== verification/Lexer.thy ===== *)
theory Lexer
  imports Tokens
begin

section \<open>The lexer (src/lexer.c)\<close>

text \<open>
  The record \<open>lexer\<close> is the C struct. Its pointers are positions in \<open>l_mem\<close>, the bytes that
  can be read from the start of the buffer on: the text itself, up to \<open>l_end\<close>, and the bytes
  the mapping of the file has after it (zeros up to the end of the page). Reading past
  \<open>l_mem\<close> is undefined. Characters are signed, as on the targets of the compiler, so a byte
  above 127 is negative and counts as whitespace. The diagnostics on standard error are not
  modelled. One iteration of the main loop of \<open>lexer_next\<close> is \<open>lexer_scan\<close>, which says
  whether the function returns after it.
\<close>

record loc =
  loc_filename :: string
  loc_line :: u32
  loc_col :: u32

record lexer =
  l_mem :: string
  l_base :: "nat option"
  l_ptr :: nat
  l_end :: nat
  l_token :: nat
  l_loc :: loc
  l_line_base :: nat

subsection \<open>Characters\<close>

definition is_whitespace :: "char \<Rightarrow> bool" where
  "is_whitespace c \<longleftrightarrow> of_char c \<le> (32::nat) \<or> 128 \<le> (of_char c :: nat)"

definition char_between :: "char \<Rightarrow> char \<Rightarrow> char \<Rightarrow> bool" where
  "char_between lo c hi \<longleftrightarrow> (of_char lo :: nat) \<le> of_char c \<and> (of_char c :: nat) \<le> of_char hi"

definition is_ident_start :: "char \<Rightarrow> bool" where
  "is_ident_start c \<longleftrightarrow> char_between CHR ''a'' c CHR ''z'' \<or> char_between CHR ''A'' c CHR ''Z'' \<or>
     c = CHR ''_''"

definition is_ident :: "char \<Rightarrow> bool" where
  "is_ident c \<longleftrightarrow> is_ident_start c \<or> char_between CHR ''0'' c CHR ''9''"

definition is_number_dec :: "char \<Rightarrow> bool" where
  "is_number_dec c \<longleftrightarrow> char_between CHR ''0'' c CHR ''9''"

definition is_number_start :: "char \<Rightarrow> bool" where
  "is_number_start c \<longleftrightarrow> is_number_dec c \<or> c = CHR ''.''"

definition is_number :: "char \<Rightarrow> bool" where
  "is_number c \<longleftrightarrow> is_number_start c \<or> char_between CHR ''a'' c CHR ''z'' \<or>
     char_between CHR ''A'' c CHR ''Z''"

abbreviation newline :: char where "newline \<equiv> CHR 0x0A"

text \<open>The keyword and the text end at the end of their lists; identifiers hold no NUL.\<close>

fun match_keyword :: "string \<Rightarrow> string \<Rightarrow> bool" where
  "match_keyword [] [] = True"
| "match_keyword (k # ks) (c # cs) = (k = c \<and> match_keyword ks cs)"
| "match_keyword _ _ = False"

subsection \<open>Reading and stepping\<close>

definition lexer_init :: "string \<Rightarrow> nat \<Rightarrow> string \<Rightarrow> lexer" where
  "lexer_init mem len filename =
     \<lparr>l_mem = mem, l_base = None, l_ptr = 0, l_end = len, l_token = TKN_SOF,
      l_loc = \<lparr>loc_filename = filename, loc_line = 0, loc_col = 0\<rparr>, l_line_base = 0\<rparr>"

definition deref :: "lexer \<Rightarrow> char res" where
  "deref self = (if l_ptr self < length (l_mem self) then Inr (l_mem self ! l_ptr self)
     else Inl (Undefined ''read past the end of the buffer''))"

text \<open>The bytes from the current position on, for \<open>strncmp\<close>, and the text of the token.\<close>

definition rest_of :: "lexer \<Rightarrow> string" where
  "rest_of self = drop (l_ptr self) (l_mem self)"

definition token_text :: "lexer \<Rightarrow> string" where
  "token_text self = (case l_base self of None \<Rightarrow> []
     | Some b \<Rightarrow> take (l_ptr self - b) (drop b (l_mem self)))"

definition lexer_step :: "lexer \<Rightarrow> lexer res" where
  "lexer_step self =
     (if l_ptr self = l_end self then Inr (self\<lparr>l_ptr := l_ptr self + 1\<rparr>)
      else rbind (deref self) (\<lambda>c.
        if c = newline
        then Inr (self\<lparr>l_loc := (l_loc self)\<lparr>loc_line := loc_line (l_loc self) + 1, loc_col := 0\<rparr>,
               l_line_base := l_ptr self + 1, l_ptr := l_ptr self + 1\<rparr>)
        else Inr (self\<lparr>l_ptr := l_ptr self + 1\<rparr>)))"

primrec lexer_steps :: "lexer \<Rightarrow> nat \<Rightarrow> lexer res" where
  "lexer_steps self 0 = Inr self"
| "lexer_steps self (Suc n) = rbind (lexer_step self) (\<lambda>s. lexer_steps s n)"

definition set_token :: "nat \<Rightarrow> lexer \<Rightarrow> lexer" where
  "set_token t self = self\<lparr>l_token := t\<rparr>"

text \<open>\<open>self->base = self->ptr\<close> and the column it gives.\<close>

definition mark_base :: "lexer \<Rightarrow> lexer" where
  "mark_base self = self\<lparr>l_base := Some (l_ptr self),
     l_loc := (l_loc self)\<lparr>loc_col := of_nat (l_ptr self) - of_nat (l_line_base self)\<rparr>\<rparr>"

lemma deref_Inr: "deref s = Inr c \<longleftrightarrow> l_ptr s < length (l_mem s) \<and> c = l_mem s ! l_ptr s"
  by (auto simp: deref_def)

text \<open>A step keeps everything but the position and the line.\<close>

lemma lexer_step_frame:
  assumes "lexer_step s = Inr s'"
  shows "l_ptr s' = Suc (l_ptr s)" "l_mem s' = l_mem s" "l_end s' = l_end s" "l_base s' = l_base s"
    "l_token s' = l_token s"
  using assms by (auto simp: lexer_step_def rbind_Inr_conv split: if_splits)

subsection \<open>The loops\<close>

function consume_oneline_comment :: "lexer \<Rightarrow> lexer res" where
  "consume_oneline_comment self =
     (if l_ptr self = l_end self then Inr self
      else rbind (deref self) (\<lambda>c.
        if c = newline then lexer_step self
        else rbind (lexer_step self) consume_oneline_comment))"
  by pat_completeness auto
termination
  by (relation "measure (\<lambda>s. length (l_mem s) - l_ptr s)") (auto simp: deref_Inr lexer_step_frame)

function consume_multiline_comment :: "lexer \<Rightarrow> lexer res" where
  "consume_multiline_comment self =
     (if l_ptr self = l_end self then Inr self
      else rbind (deref self) (\<lambda>c.
        rbind (lexer_step self) (\<lambda>s.
          if c = CHR ''*'' then
            if l_ptr s \<noteq> l_end s
            then rbind (deref s) (\<lambda>c'.
              if c' = CHR ''/'' then lexer_step s else consume_multiline_comment s)
            else consume_multiline_comment s
          else consume_multiline_comment s)))"
  by pat_completeness auto
termination
  by (relation "measure (\<lambda>s. length (l_mem s) - l_ptr s)") (auto simp: deref_Inr lexer_step_frame)

text \<open>The rest of a string literal, after its opening quote.\<close>

function string_body :: "lexer \<Rightarrow> lexer res" where
  "string_body self =
     (if l_ptr self = l_end self then Inr (set_token TKN_INVALID self)
      else rbind (deref self) (\<lambda>c.
        rbind (lexer_step self) (\<lambda>s.
          if c = CHR 0x22 then Inr s
          else if c = CHR 0x5C then
            if l_ptr s = l_end s then Inr (set_token TKN_INVALID s)
            else rbind (lexer_step s) string_body
          else string_body s)))"
  by pat_completeness auto
termination
  by (relation "measure (\<lambda>s. length (l_mem s) - l_ptr s)") (auto simp: deref_Inr lexer_step_frame)

text \<open>
  \<open>while (p(*self->ptr)) lexer_step(self)\<close>: the loops over the characters of a number and of
  an identifier, which do not look at \<open>end\<close>.
\<close>

function step_while :: "(char \<Rightarrow> bool) \<Rightarrow> lexer \<Rightarrow> lexer res" where
  "step_while p self =
     rbind (deref self) (\<lambda>c. if p c then rbind (lexer_step self) (step_while p) else Inr self)"
  by pat_completeness auto
termination
  by (relation "measure (\<lambda>(p, s). length (l_mem s) - l_ptr s)") (auto simp: deref_Inr lexer_step_frame)

declare consume_oneline_comment.simps [simp del] consume_multiline_comment.simps [simp del]
  string_body.simps [simp del] step_while.simps [simp del]

subsection \<open>The next token\<close>

text \<open>The first entry of a table whose spelling the rest of the text starts with.\<close>

fun check_tokens :: "(string \<times> nat) list \<Rightarrow> string \<Rightarrow> (string \<times> nat) option" where
  "check_tokens [] rest = None"
| "check_tokens ((str, tkn) # tbl) rest =
     (if take (length str) rest = str then Some (str, tkn) else check_tokens tbl rest)"

definition check_keywords :: "string \<Rightarrow> nat \<Rightarrow> nat" where
  "check_keywords txt token =
     fold (\<lambda>(kw, tkn) t. if match_keyword kw txt then tkn else t) keyword_table token"

text \<open>Whitespace: a line break after a terminator is a semicolon.\<close>

definition scan_whitespace :: "lexer \<Rightarrow> char \<Rightarrow> (lexer \<times> bool) res" where
  "scan_whitespace self c =
     (if c = newline \<and> l_token self \<in> set terminators
      then rbind (lexer_step (mark_base (set_token TKN_SEMICOLON self))) (\<lambda>s. Inr (s, True))
      else rbind (lexer_step self) (\<lambda>s. Inr (s, False)))"

definition scan_operator :: "lexer \<Rightarrow> string \<times> nat \<Rightarrow> (lexer \<times> bool) res" where
  "scan_operator self entry =
     rbind (lexer_steps self (length (fst entry))) (\<lambda>s. Inr (set_token (snd entry) s, True))"

text \<open>Literals, identifiers and what is none of these.\<close>

definition scan_word :: "lexer \<Rightarrow> (lexer \<times> bool) res" where
  "scan_word self = rbind (deref self) (\<lambda>c.
     if c = CHR 0x22 then
       rbind (lexer_step (set_token TKN_STRING_LITERAL self)) (\<lambda>s.
         rbind (string_body s) (\<lambda>s'. Inr (s', True)))
     else if is_number_start c then
       rbind (lexer_step self) (\<lambda>s.
         rbind (step_while (\<lambda>c. is_number c \<or> c = CHR 0x27) s) (\<lambda>s'.
           Inr (set_token TKN_NUMBER_LITERAL s', True)))
     else
       rbind (if is_ident_start c
              then rbind (lexer_step self) (\<lambda>s. rbind (step_while is_ident s) (\<lambda>s'.
                Inr (set_token TKN_IDENT s')))
              else Inr self) (\<lambda>s.
         if l_token s = TKN_IDENT
         then Inr (set_token (check_keywords (token_text s) TKN_IDENT) s, True)
         else rbind (lexer_step s) (\<lambda>s'. Inr (s', False))))"

definition lexer_scan :: "lexer \<Rightarrow> (lexer \<times> bool) res" where
  "lexer_scan self = rbind (deref self) (\<lambda>c.
     if is_whitespace c then scan_whitespace self c
     else
       (let s = mark_base self; rem = (of_nat (l_end s - l_ptr s) :: u32); rest = rest_of s in
        case (if 3 \<le> rem then check_tokens operators3 rest else None) of
          Some e \<Rightarrow> scan_operator s e
        | None \<Rightarrow>
            if 2 \<le> rem \<and> take 2 rest = ''//''
            then rbind (consume_oneline_comment (s\<lparr>l_ptr := l_ptr s + 2\<rparr>)) (\<lambda>s'. Inr (s', False))
            else if 2 \<le> rem \<and> take 2 rest = ''/*''
            then rbind (consume_multiline_comment (s\<lparr>l_ptr := l_ptr s + 2\<rparr>)) (\<lambda>s'. Inr (s', False))
            else
              (case (if 2 \<le> rem then check_tokens operators2 rest else None) of
                 Some e \<Rightarrow> scan_operator s e
               | None \<Rightarrow>
                   (case (if 1 \<le> rem then check_tokens operators1 rest else None) of
                      Some e \<Rightarrow> scan_operator s e
                    | None \<Rightarrow> scan_word s))))"


text \<open>Every iteration that goes on has moved forward.\<close>

definition fwd :: "lexer \<Rightarrow> lexer \<Rightarrow> bool" where
  "fwd s s' \<longleftrightarrow> l_ptr s \<le> l_ptr s' \<and> l_mem s' = l_mem s \<and> l_end s' = l_end s"

lemma fwd_refl [intro]: "fwd s s"
  by (simp add: fwd_def)

lemma fwd_trans: "fwd s s' \<Longrightarrow> fwd s' s'' \<Longrightarrow> fwd s s''"
  by (simp add: fwd_def)

lemma fwd_step: "lexer_step s = Inr s' \<Longrightarrow> fwd s s'"
  by (simp add: fwd_def lexer_step_frame)

lemma fwd_set_token [simp]: "fwd s (set_token t s') \<longleftrightarrow> fwd s s'" "fwd (set_token t s) s' \<longleftrightarrow> fwd s s'"
  by (simp_all add: fwd_def set_token_def)

lemma fwd_mark_base [simp]: "fwd (mark_base s) s' \<longleftrightarrow> fwd s s'"
  by (simp add: fwd_def mark_base_def)

lemma step_while_fwd: "step_while p s = Inr s' \<Longrightarrow> fwd s s'"
proof (induction p s rule: step_while.induct)
  case (1 p s)
  from "1.prems" show ?case unfolding step_while.simps [of p s]
    by (auto simp: rbind_Inr_conv split: if_splits intro: fwd_trans fwd_step "1.IH")
qed

lemma consume_oneline_fwd: "consume_oneline_comment s = Inr s' \<Longrightarrow> fwd s s'"
proof (induction s rule: consume_oneline_comment.induct)
  case (1 s)
  from "1.prems" show ?case unfolding consume_oneline_comment.simps [of s]
    by (auto simp: rbind_Inr_conv split: if_splits intro: fwd_trans fwd_step "1.IH")
qed

lemma consume_multiline_fwd: "consume_multiline_comment s = Inr s' \<Longrightarrow> fwd s s'"
proof (induction "length (l_mem s) - l_ptr s" arbitrary: s rule: less_induct)
  case less
  have IH: "fwd s s'" if "lexer_step s = Inr t" "consume_multiline_comment t = Inr s'" "deref s = Inr c"
    for t c
    using less.hyps [of t] that fwd_trans [OF fwd_step] by (auto simp: lexer_step_frame deref_Inr)
  from less.prems show ?case unfolding consume_multiline_comment.simps [of s]
    by (auto simp: rbind_Inr_conv split: if_splits intro: fwd_trans [OF fwd_step] fwd_step IH)
qed

lemma step_strict: "lexer_step s = Inr s' \<Longrightarrow> l_ptr s < l_ptr s' \<and> l_mem s' = l_mem s"
  by (simp add: lexer_step_frame)

lemma comment_strict:
  "fwd (s\<lparr>l_ptr := l_ptr s + 2\<rparr>) s' \<Longrightarrow> l_ptr s < l_ptr s' \<and> l_mem s' = l_mem s"
  by (simp add: fwd_def)

lemma mark_set_simps [simp]:
  "l_ptr (mark_base s) = l_ptr s" "l_mem (mark_base s) = l_mem s" "l_end (mark_base s) = l_end s"
  "l_token (mark_base s) = l_token s" "l_base (mark_base s) = Some (l_ptr s)"
  "l_line_base (mark_base s) = l_line_base s"
  "l_ptr (set_token t s) = l_ptr s" "l_mem (set_token t s) = l_mem s"
  "l_end (set_token t s) = l_end s" "l_token (set_token t s) = t"
  "l_base (set_token t s) = l_base s" "l_line_base (set_token t s) = l_line_base s"
  "l_loc (set_token t s) = l_loc s" "loc_line (l_loc (mark_base s)) = loc_line (l_loc s)"
  by (simp_all add: mark_base_def set_token_def)

lemma scan_word_continues:
  assumes "scan_word s = Inr (s', False)"
  shows "l_ptr s < l_ptr s' \<and> l_mem s' = l_mem s"
  using assms
  by (auto simp: scan_word_def rbind_Inr_conv split: if_splits dest: step_strict)

lemma lexer_scan_continues:
  assumes "lexer_scan s = Inr (s', False)"
  shows "l_ptr s < l_ptr s' \<and> l_mem s' = l_mem s \<and> l_ptr s < length (l_mem s)"
proof -
  obtain c where c: "deref s = Inr c" using assms by (auto simp: lexer_scan_def rbind_Inr_conv)
  moreover have "l_ptr s < l_ptr s' \<and> l_mem s' = l_mem s"
  proof (cases "is_whitespace c")
    case True
    with assms c show ?thesis
      by (auto simp: lexer_scan_def scan_whitespace_def rbind_Inr_conv split: if_splits
          dest: step_strict)
  next
    case False
    let ?s = "mark_base s"
    from assms c False consider
        "consume_oneline_comment (?s\<lparr>l_ptr := l_ptr ?s + 2\<rparr>) = Inr s'"
      | "consume_multiline_comment (?s\<lparr>l_ptr := l_ptr ?s + 2\<rparr>) = Inr s'"
      | "scan_word ?s = Inr (s', False)"
      by (auto simp: lexer_scan_def scan_operator_def Let_def rbind_Inr_conv
          split: if_splits option.splits)
    then show ?thesis
    proof cases
      case 1
      then show ?thesis using comment_strict [OF consume_oneline_fwd] by fastforce
    next
      case 2
      then show ?thesis using comment_strict [OF consume_multiline_fwd] by fastforce
    next
      case 3
      then show ?thesis using scan_word_continues by fastforce
    qed
  qed
  ultimately show ?thesis by (simp add: deref_Inr)
qed

text \<open>The main loop, from the check \<open>while (self->ptr != self->end)\<close> on.\<close>

function lexer_loop :: "lexer \<Rightarrow> lexer res" where
  "lexer_loop self =
     (if l_ptr self = l_end self then Inr (set_token TKN_EOF self)
      else rbind (lexer_scan self) (\<lambda>(s, done). if done then Inr s else lexer_loop s))"
  by pat_completeness auto
termination
  by (relation "measure (\<lambda>s. length (l_mem s) - l_ptr s)")
    (auto dest!: lexer_scan_continues)

declare lexer_loop.simps [simp del]

definition lexer_next :: "lexer \<Rightarrow> lexer res" where
  "lexer_next self =
     (if \<not> l_ptr self \<le> l_end self then Inl (Assert_Failed ''self->ptr && self->ptr <= self->end'')
      else if l_token self = TKN_INVALID \<or> l_token self = TKN_EOF then Inr self
      else lexer_loop self)"

end
