(* ===== verification/Lexer_Spec.thy ===== *)
theory Lexer_Spec
  imports Lexer
begin

section \<open>What the lexer does: a specification over the remaining text\<close>

text \<open>
  \<open>next_token\<close> says on the list of remaining characters what \<open>lexer_next\<close> does with its
  pointers: how many characters are skipped, which token follows and how long it is. The
  refinement lemma \<open>lexer_next_refines\<close> holds on every buffer below 4 GiB with a NUL after its
  end, which is how a mapped file looks when its size is not a multiple of the page size.
\<close>

subsection \<open>Moving forward inside the text\<close>

definition step1 :: "lexer \<Rightarrow> lexer" where
  "step1 s = (if l_mem s ! l_ptr s = newline
     then s\<lparr>l_loc := (l_loc s)\<lparr>loc_line := loc_line (l_loc s) + 1, loc_col := 0\<rparr>,
            l_line_base := l_ptr s + 1, l_ptr := l_ptr s + 1\<rparr>
     else s\<lparr>l_ptr := l_ptr s + 1\<rparr>)"

primrec advance :: "nat \<Rightarrow> lexer \<Rightarrow> lexer" where
  "advance 0 s = s"
| "advance (Suc n) s = advance n (step1 s)"

lemma step1_simps [simp]:
  "l_ptr (step1 s) = Suc (l_ptr s)" "l_mem (step1 s) = l_mem s" "l_end (step1 s) = l_end s"
  "l_base (step1 s) = l_base s" "l_token (step1 s) = l_token s"
  by (simp_all add: step1_def)

lemma advance_simps [simp]:
  "l_ptr (advance n s) = l_ptr s + n" "l_mem (advance n s) = l_mem s" "l_end (advance n s) = l_end s"
  "l_base (advance n s) = l_base s" "l_token (advance n s) = l_token s"
  by (induction n arbitrary: s) simp_all

lemma advance_add: "advance m (advance n s) = advance (n + m) s"
  by (induction n arbitrary: s) simp_all

lemma advance_Suc: "advance (Suc n) s = step1 (advance n s)"
  using advance_add [of 1 n s] by simp

lemma step1_set_token: "step1 (set_token t s) = set_token t (step1 s)"
  by (simp add: step1_def set_token_def)

lemma advance_set_token: "advance n (set_token t s) = set_token t (advance n s)"
  by (induction n arbitrary: s) (simp_all add: step1_set_token)

lemma lexer_step_inside:
  "l_ptr s < l_end s \<Longrightarrow> l_end s \<le> length (l_mem s) \<Longrightarrow> lexer_step s = Inr (step1 s)"
  by (simp add: lexer_step_def deref_def step1_def)

text \<open>The text that is left, up to the end of the buffer.\<close>

definition todo :: "lexer \<Rightarrow> string" where
  "todo s = drop (l_ptr s) (take (l_end s) (l_mem s))"

definition in_text :: "lexer \<Rightarrow> bool" where
  "in_text s \<longleftrightarrow> l_ptr s \<le> l_end s \<and> l_end s < length (l_mem s) \<and> l_mem s ! l_end s = CHR 0x00"

lemma todo_empty: "in_text s \<Longrightarrow> todo s = [] \<longleftrightarrow> l_ptr s = l_end s"
  by (auto simp: todo_def in_text_def)

lemma length_todo: "in_text s \<Longrightarrow> length (todo s) = l_end s - l_ptr s"
  by (simp add: todo_def in_text_def)

lemma todo_Cons:
  assumes "in_text s" and "todo s = c # cs"
  shows "l_ptr s < l_end s" "l_ptr s \<noteq> l_end s" "deref s = Inr c" "l_mem s ! l_ptr s = c"
    "lexer_step s = Inr (step1 s)" "in_text (step1 s)" "todo (step1 s) = cs"
proof -
  have len: "l_ptr s < l_end s" "l_end s \<le> length (l_mem s)"
    using length_todo [OF assms(1)] assms by (simp_all add: in_text_def)
  have c: "c = l_mem s ! l_ptr s" "cs = drop (Suc (l_ptr s)) (take (l_end s) (l_mem s))"
    using assms(2) len Cons_nth_drop_Suc [of "l_ptr s" "take (l_end s) (l_mem s)"]
    by (simp_all add: todo_def)
  show "l_ptr s < l_end s" "l_ptr s \<noteq> l_end s" "deref s = Inr c" "l_mem s ! l_ptr s = c"
    using len c by (simp_all add: deref_def)
  show "lexer_step s = Inr (step1 s)" using len by (rule lexer_step_inside)
  show "in_text (step1 s)" "todo (step1 s) = cs"
    using assms(1) len c by (simp_all add: in_text_def todo_def)
qed

lemma todo_Nil:
  assumes "in_text s" and "todo s = []"
  shows "l_ptr s = l_end s" "deref s = Inr (CHR 0x00)"
  using assms by (simp_all add: todo_empty) (simp add: in_text_def deref_def)

lemma todo_set_token [simp]:
  "todo (set_token t s) = todo s" "in_text (set_token t s) = in_text s"
  "todo (mark_base s) = todo s" "in_text (mark_base s) = in_text s"
  by (simp_all add: todo_def in_text_def)

lemma advance_inside:
  "in_text s \<Longrightarrow> n \<le> length (todo s) \<Longrightarrow> in_text (advance n s) \<and> todo (advance n s) = drop n (todo s)"
proof (induction n arbitrary: s)
  case (Suc n)
  then obtain c cs where "todo s = c # cs" by (cases "todo s") auto
  with Suc todo_Cons(6,7) [OF Suc.prems(1) this] show ?case by simp
qed simp

lemma lexer_steps_inside:
  "in_text s \<Longrightarrow> n \<le> length (todo s) \<Longrightarrow> lexer_steps s n = Inr (advance n s)"
proof (induction n arbitrary: s)
  case (Suc n)
  then obtain c cs where "todo s = c # cs" by (cases "todo s") auto
  with Suc todo_Cons [OF Suc.prems(1) this] show ?case by simp
qed simp

subsection \<open>The loops, on the remaining text\<close>

fun oneline_length :: "string \<Rightarrow> nat" where
  "oneline_length [] = 0"
| "oneline_length (c # cs) = (if c = newline then 1 else Suc (oneline_length cs))"

fun multiline_length :: "string \<Rightarrow> nat" where
  "multiline_length [] = 0"
| "multiline_length (c # cs) =
     (if c = CHR ''*'' \<and> take 1 cs = ''/'' then 2 else Suc (multiline_length cs))"

text \<open>The length of a string literal after its opening quote, and whether it is closed.\<close>

fun string_length :: "string \<Rightarrow> nat \<times> bool" where
  "string_length [] = (0, False)"
| "string_length (c # cs) =
     (if c = CHR 0x22 then (1, True)
      else if c = CHR 0x5C then
        (case cs of [] \<Rightarrow> (1, False)
         | d # ds \<Rightarrow> (let (n, closed) = string_length ds in (n + 2, closed)))
      else (let (n, closed) = string_length cs in (Suc n, closed)))"

lemma consume_oneline_inside:
  "in_text s \<Longrightarrow> consume_oneline_comment s = Inr (advance (oneline_length (todo s)) s)"
proof (induction "todo s" arbitrary: s)
  case Nil
  then show ?case
    using todo_Nil [of s] by (simp add: consume_oneline_comment.simps [of s])
next
  case (Cons c cs)
  note t = todo_Cons [OF Cons.prems Cons.hyps(2) [symmetric]]
  show ?case
    using Cons.hyps(1) [of "step1 s"] t Cons.hyps(2) [symmetric]
    by (simp add: consume_oneline_comment.simps [of s])
qed

lemma consume_multiline_inside:
  "in_text s \<Longrightarrow> consume_multiline_comment s = Inr (advance (multiline_length (todo s)) s)"
proof (induction "todo s" arbitrary: s)
  case Nil
  then show ?case
    using todo_Nil [of s] by (simp add: consume_multiline_comment.simps [of s])
next
  case (Cons c cs)
  note t = todo_Cons [OF Cons.prems Cons.hyps(2) [symmetric]]
  note IH = Cons.hyps(1) [of "step1 s"]
  show ?case
  proof (cases cs)
    case Nil
    then have e: "l_ptr (step1 s) = l_end (step1 s)" using t(6,7) todo_empty by blast
    with IH t Cons.hyps(2) [symmetric] Nil show ?thesis
      by (simp add: consume_multiline_comment.simps [of s])
  next
    case (Cons d ds)
    with t have u: "todo (step1 s) = d # ds" by simp
    note u = todo_Cons [OF t(6) u]
    from IH t u Cons Cons.hyps(2) [symmetric] show ?thesis
      by (simp add: consume_multiline_comment.simps [of s] eval_nat_numeral)
  qed
qed

definition close_string :: "nat \<times> bool \<Rightarrow> lexer \<Rightarrow> lexer" where
  "close_string r s = (let (n, closed) = r in
     if closed then advance n s else set_token TKN_INVALID (advance n s))"

lemma close_string_simps [simp]:
  "close_string (0, False) s = set_token TKN_INVALID s"
  "close_string (Suc n, b) s = close_string (n, b) (step1 s)"
  "close_string (0, True) s = s"
  by (simp_all add: close_string_def)

lemma string_body_inside:
  "in_text s \<Longrightarrow> string_body s = Inr (close_string (string_length (todo s)) s)"
proof (induction "length (todo s)" arbitrary: s rule: less_induct)
  case less
  show ?case
  proof (cases "todo s")
    case Nil
    with less.prems show ?thesis
      using todo_Nil [of s] by (simp add: string_body.simps [of s] One_nat_def)
  next
    case (Cons c cs)
    note t = todo_Cons [OF less.prems Cons]
    have IH1: "string_body (step1 s) = Inr (close_string (string_length cs) (step1 s))"
      using less.hyps [of "step1 s"] t Cons by simp
    show ?thesis
    proof (cases cs)
      case Nil
      then have e: "l_ptr (step1 s) = l_end (step1 s)" using t(6,7) todo_empty by blast
      with IH1 t Cons Nil show ?thesis
        by (simp add: string_body.simps [of s] One_nat_def)
    next
      case (Cons d ds)
      with t have u: "todo (step1 s) = d # ds" by simp
      note u = todo_Cons [OF t(6) u]
      have IH2: "string_body (step1 (step1 s)) = Inr (close_string (string_length ds) (step1 (step1 s)))"
        using less.hyps [of "step1 (step1 s)"] u \<open>todo s = c # cs\<close> Cons by simp
      from IH1 IH2 t u Cons \<open>todo s = c # cs\<close> show ?thesis
        by (simp add: string_body.simps [of s] One_nat_def split: prod.splits)
    qed
  qed
qed

lemma step_while_inside:
  assumes "in_text s" and "\<not> p (CHR 0x00)"
  shows "step_while p s = Inr (advance (length (takeWhile p (todo s))) s)"
  using assms(1)
proof (induction "todo s" arbitrary: s)
  case Nil
  then show ?case
    using todo_Nil [of s] assms(2) by (simp add: step_while.simps [of p s])
next
  case (Cons c cs)
  note t = todo_Cons [OF Cons.prems Cons.hyps(2) [symmetric]]
  show ?case
    using Cons.hyps(1) [of "step1 s"] t Cons.hyps(2) [symmetric]
    by (simp add: step_while.simps [of p s])
qed


subsection \<open>One item of the text\<close>

definition number_char :: "char \<Rightarrow> bool" where
  "number_char c \<longleftrightarrow> is_number c \<or> c = CHR 0x27"

text \<open>
  What a nonempty text starts with after the token \<open>prev\<close>: a token and its length, or
  something to skip and its length. The case of length 0 is a character that starts no token
  right after an identifier (see \<open>lexer_stuck_on_garbage\<close>).
\<close>

definition word_item :: "nat \<Rightarrow> string \<Rightarrow> nat option \<times> nat" where
  "word_item prev r =
     (if hd r = CHR 0x22 then
        (let (n, closed) = string_length (tl r)
         in (Some (if closed then TKN_STRING_LITERAL else TKN_INVALID), Suc n))
      else if is_number_start (hd r)
      then (Some TKN_NUMBER_LITERAL, Suc (length (takeWhile number_char (tl r))))
      else if is_ident_start (hd r)
      then (Some (check_keywords (takeWhile is_ident r) TKN_IDENT), length (takeWhile is_ident r))
      else if prev = TKN_IDENT then (Some TKN_IDENT, 0)
      else (None, 1))"

definition lex_item :: "nat \<Rightarrow> string \<Rightarrow> nat option \<times> nat" where
  "lex_item prev r =
     (if is_whitespace (hd r) then
        (if hd r = newline \<and> prev \<in> set terminators then (Some TKN_SEMICOLON, 1) else (None, 1))
      else case check_tokens operators3 r of
        Some (w, t) \<Rightarrow> (Some t, length w)
      | None \<Rightarrow>
          if take 2 r = ''//'' then (None, 2 + oneline_length (drop 2 r))
          else if take 2 r = ''/*'' then (None, 2 + multiline_length (drop 2 r))
          else (case check_tokens (operators2 @ operators1) r of
              Some (w, t) \<Rightarrow> (Some t, length w)
            | None \<Rightarrow> word_item prev r))"

lemma check_tokens_Some:
  "check_tokens tbl r = Some (w, t) \<Longrightarrow> take (length w) r = w \<and> length w \<le> length r \<and> (w, t) \<in> set tbl"
proof (induction tbl r rule: check_tokens.induct)
  case (2 str tkn tbl r)
  then show ?case by (auto split: if_splits dest: arg_cong [where f = length])
qed simp

lemma check_tokens_append:
  "check_tokens (xs @ ys) r = (case check_tokens xs r of None \<Rightarrow> check_tokens ys r | Some e \<Rightarrow> Some e)"
  by (induction xs r rule: check_tokens.induct) simp_all

lemma check_tokens_prefix:
  assumes "\<forall>e\<in>set tbl. length (fst e) = k" and "take k r = take k r'"
  shows "check_tokens tbl r = check_tokens tbl r'"
  using assms by (induction tbl r rule: check_tokens.induct) auto

lemma check_tokens_short:
  "\<forall>e\<in>set tbl. length (fst e) = k \<Longrightarrow> length r < k \<Longrightarrow> check_tokens tbl r = None"
  by (induction tbl r rule: check_tokens.induct) auto

lemma operator_lengths:
  "\<forall>e\<in>set operators3. length (fst e) = 3" "\<forall>e\<in>set operators2. length (fst e) = 2"
  "\<forall>e\<in>set operators1. length (fst e) = 1"
  by (simp_all add: operators3_def operators2_def operators1_def)

lemma oneline_length_le: "oneline_length r \<le> length r"
  by (induction r rule: oneline_length.induct) auto

lemma multiline_length_le: "multiline_length r \<le> length r"
proof (induction r rule: multiline_length.induct)
  case (2 c cs)
  then show ?case by (cases cs) auto
qed simp

lemma string_length_le: "fst (string_length r) \<le> length r"
proof (induction r rule: string_length.induct)
  case (2 c cs)
  show ?case
  proof (cases cs)
    case (Cons d ds)
    with 2 show ?thesis by (cases "c = CHR 0x5C"; cases "c = CHR 0x22") (auto simp: Let_def split_def)
  qed simp
qed simp

lemma length_takeWhile_tl: "r \<noteq> [] \<Longrightarrow> Suc (length (takeWhile P (tl r))) \<le> length r"
  using length_takeWhile_le [of P "tl r"] by (cases r) auto

lemma word_item_length: "r \<noteq> [] \<Longrightarrow> word_item prev r = (t, n) \<Longrightarrow> n \<le> length r"
  using string_length_le [of "tl r"] length_takeWhile_tl [of r] length_takeWhile_le [of is_ident r]
  by (cases r) (auto simp: word_item_def less_Suc_eq_le split: if_splits prod.splits)

lemma take2_length: "take 2 r = [c, d] \<Longrightarrow> 2 \<le> length r"
  by (auto dest!: arg_cong [where f = length])

lemma comment_length:
  "take 2 r = ''//'' \<Longrightarrow> 2 + oneline_length (drop 2 r) \<le> length r"
  "take 2 r = ''/*'' \<Longrightarrow> 2 + multiline_length (drop 2 r) \<le> length r"
  using oneline_length_le [of "drop 2 r"] multiline_length_le [of "drop 2 r"]
  by (auto dest!: take2_length)

lemma lex_item_length:
  assumes "r \<noteq> []" and "lex_item prev r = (t, n)"
  shows "n \<le> length r"
  using assms(2)
proof (cases "is_whitespace (hd r)")
  case True
  with assms show ?thesis by (auto simp: lex_item_def Suc_le_eq split: if_splits)
next
  case False
  with assms(2) show ?thesis
    by (auto simp: lex_item_def split: if_splits option.splits
        dest!: check_tokens_Some word_item_length [OF assms(1)] comment_length)
qed

lemma lex_item_skip: "lex_item prev r = (None, n) \<Longrightarrow> 0 < n"
  by (auto simp: lex_item_def word_item_def split: if_splits option.splits prod.splits)

lemma lex_item_skip': "(None, n) = lex_item prev r \<Longrightarrow> 0 < n"
  by (rule lex_item_skip) (rule sym)

text \<open>How far the next token is, which it is, and how long it is.\<close>

function next_token :: "nat \<Rightarrow> string \<Rightarrow> nat \<times> nat \<times> nat" where
  "next_token prev r =
     (if r = [] then (0, TKN_EOF, 0)
      else case lex_item prev r of
        (Some t, n) \<Rightarrow> (0, t, n)
      | (None, n) \<Rightarrow> (let (k, t, m) = next_token prev (drop n r) in (n + k, t, m)))"
  by pat_completeness auto
termination
  by (relation "measure (\<lambda>(prev, r). length r)") (auto dest: lex_item_skip')

declare next_token.simps [simp del]


subsection \<open>Lines and columns\<close>

text \<open>The line breaks before a position, and the position after the last of them.\<close>

primrec newlines :: "string \<Rightarrow> nat \<Rightarrow> nat" where
  "newlines mem 0 = 0"
| "newlines mem (Suc n) = newlines mem n + (if mem ! n = newline then 1 else 0)"

primrec line_start :: "string \<Rightarrow> nat \<Rightarrow> nat" where
  "line_start mem 0 = 0"
| "line_start mem (Suc n) = (if mem ! n = newline then Suc n else line_start mem n)"

lemma line_start_le: "line_start mem n \<le> n"
  by (induction n) auto

text \<open>
  The line counter counts the line breaks passed (modulo \<open>2 ^ 32\<close>); as long as the current
  line holds the start of the last token, the column is that of this start.
\<close>

definition pos_ok :: "lexer \<Rightarrow> bool" where
  "pos_ok s \<longleftrightarrow> loc_line (l_loc s) = of_nat (newlines (l_mem s) (l_ptr s)) \<and>
     l_line_base s = line_start (l_mem s) (l_ptr s) \<and>
     (case l_base s of None \<Rightarrow> True
      | Some b \<Rightarrow> b \<le> l_ptr s \<and> loc_col (l_loc s) = of_nat (b - line_start (l_mem s) (l_ptr s)))"

lemma pos_ok_step1: "pos_ok s \<Longrightarrow> pos_ok (step1 s)"
  by (auto simp: pos_ok_def step1_def split: option.splits)

lemma pos_ok_advance: "pos_ok s \<Longrightarrow> pos_ok (advance n s)"
  by (induction n arbitrary: s) (simp_all add: pos_ok_step1)

lemma pos_ok_mark_base: "pos_ok s \<Longrightarrow> pos_ok (mark_base s)"
  using line_start_le [of "l_mem s" "l_ptr s"]
  by (simp add: pos_ok_def mark_base_def of_nat_diff)

lemma pos_ok_set_token [simp]: "pos_ok (set_token t s) = pos_ok s"
  by (simp add: pos_ok_def cong: option.case_cong)

subsection \<open>The lexer implements the specification\<close>

lemma take_rest_todo: "in_text s \<Longrightarrow> k \<le> length (todo s) \<Longrightarrow> take k (rest_of s) = take k (todo s)"
  by (simp add: rest_of_def todo_def in_text_def drop_take min_absorb1)

lemma check_tokens_todo:
  assumes "in_text s" and "l_end s < 2 ^ 32" and "\<forall>e\<in>set tbl. length (fst e) = k" and "k < 2 ^ 32"
  shows "(if of_nat k \<le> (of_nat (l_end s - l_ptr s) :: u32) then check_tokens tbl (rest_of s) else None) =
    check_tokens tbl (todo s)"
proof -
  have "of_nat k \<le> (of_nat (l_end s - l_ptr s) :: u32) \<longleftrightarrow> k \<le> length (todo s)"
    using assms(2,4) length_todo [OF assms(1)] by (simp add: word_le_nat_alt unat_of_nat)
  then show ?thesis
    using check_tokens_prefix [OF assms(3) take_rest_todo [OF assms(1)]]
      check_tokens_short [OF assms(3), of "todo s"] by (simp add: not_le)
qed

lemma take2_todo:
  assumes "in_text s" and "l_end s < 2 ^ 32" and "length w = 2"
  shows "2 \<le> (of_nat (l_end s - l_ptr s) :: u32) \<and> take 2 (rest_of s) = w \<longleftrightarrow> take 2 (todo s) = w"
proof -
  have "2 \<le> (of_nat (l_end s - l_ptr s) :: u32) \<longleftrightarrow> 2 \<le> length (todo s)"
    using assms(2) length_todo [OF assms(1)] by (simp add: word_le_nat_alt unat_of_nat)
  moreover have "2 \<le> length (todo s)" if "take 2 (todo s) = w"
    using arg_cong [OF that, of length] assms(3) by simp
  ultimately show ?thesis using take_rest_todo [OF assms(1), of 2] by auto
qed

text \<open>The comment opener, skipped without looking for line breaks.\<close>

lemma skip_two:
  assumes "in_text s" and "take 2 (todo s) = [c, d]" and "c \<noteq> newline" and "d \<noteq> newline"
  shows "s\<lparr>l_ptr := l_ptr s + 2\<rparr> = advance 2 s"
proof -
  obtain r where r: "todo s = c # d # r"
    using assms(2) by (cases "todo s"; cases "tl (todo s)") auto
  note t = todo_Cons [OF assms(1) r]
  note u = todo_Cons [OF t(6,7)]
  have "advance 2 s = step1 (step1 s)" by (simp add: eval_nat_numeral)
  also have "step1 s = s\<lparr>l_ptr := l_ptr s + 1\<rparr>" using t(4) assms(3) by (simp add: step1_def)
  finally have "advance 2 s = step1 (s\<lparr>l_ptr := l_ptr s + 1\<rparr>)" .
  moreover have "l_mem s ! Suc (l_ptr s) = d" using u(4) by simp
  ultimately show ?thesis using assms(4) by (simp add: step1_def)
qed

lemma comment_opened:
  assumes "in_text s" and "take 2 (todo s) = [CHR ''/'', d]" and "d \<noteq> newline"
  shows "s\<lparr>l_ptr := l_ptr s + 2\<rparr> = advance 2 s" "in_text (advance 2 s)"
    "todo (advance 2 s) = drop 2 (todo s)"
proof -
  have "CHR ''/'' \<noteq> newline" by simp
  then show "s\<lparr>l_ptr := l_ptr s + 2\<rparr> = advance 2 s" by (rule skip_two [OF assms(1,2) _ assms(3)])
  show "in_text (advance 2 s)" "todo (advance 2 s) = drop 2 (todo s)"
    using advance_inside [OF assms(1) take2_length [OF assms(2)]] by simp_all
qed

lemma token_text_set_token [simp]: "token_text (set_token t s) = token_text s"
  by (simp add: token_text_def cong: option.case_cong)

definition word_result :: "lexer \<Rightarrow> nat option \<times> nat \<Rightarrow> lexer \<times> bool" where
  "word_result s it = (case it of (None, n) \<Rightarrow> (advance n s, False)
     | (Some t, n) \<Rightarrow> (set_token t (advance n s), True))"

lemma token_text_advance:
  assumes "in_text s" and "l_base s = Some (l_ptr s)" and "n \<le> length (todo s)"
  shows "token_text (advance n s) = take n (todo s)"
  using assms take_rest_todo [OF assms(1,3)] by (simp add: token_text_def rest_of_def)

lemma check_keywords_Nil: "check_keywords [] t = t"
  by (simp add: check_keywords_def keyword_table_def)

lemma set_token_same: "l_token s = t \<Longrightarrow> set_token t s = s"
  by (auto simp: set_token_def)

lemma set_token_twice [simp]: "set_token t (set_token u s) = set_token t s"
  by (simp add: set_token_def)

lemma ident_chars: "is_ident_start c \<Longrightarrow> is_ident c" "\<not> is_ident (CHR 0x00)" "\<not> number_char (CHR 0x00)"
  by (auto simp: is_ident_def is_ident_start_def number_char_def is_number_def is_number_start_def
      is_number_dec_def char_between_def)

lemma scan_word_inside:
  assumes s: "in_text s" and ne: "todo s \<noteq> []" and base: "l_base s = Some (l_ptr s)"
  shows "scan_word s = Inr (word_result s (word_item (l_token s) (todo s)))"
proof -
  obtain c cs where r: "todo s = c # cs" using ne by (cases "todo s") auto
  note t = todo_Cons [OF s r]
  consider (str) "c = CHR 0x22" | (num) "c \<noteq> CHR 0x22" "is_number_start c"
    | (ident) "c \<noteq> CHR 0x22" "\<not> is_number_start c" "is_ident_start c"
    | (other) "c \<noteq> CHR 0x22" "\<not> is_number_start c" "\<not> is_ident_start c" by blast
  then show ?thesis
  proof cases
    case str
    have st: "in_text (set_token TKN_STRING_LITERAL s)" "todo (set_token TKN_STRING_LITERAL s) = c # cs"
      using s r by simp_all
    note v = todo_Cons [OF st]
    show ?thesis using str t v r
      by (simp add: scan_word_def string_body_inside word_result_def word_item_def close_string_def
          split_def Let_def advance_set_token step1_set_token)
  next
    case num
    have "step_while (\<lambda>c. is_number c \<or> c = CHR 0x27) (step1 s) =
        Inr (advance (length (takeWhile number_char cs)) (step1 s))"
      using step_while_inside [OF t(6), of number_char] t(7) ident_chars(3)
      by (simp add: number_char_def [abs_def])
    then show ?thesis using num t r
      by (simp add: scan_word_def word_result_def word_item_def)
  next
    case ident
    let ?n = "length (takeWhile is_ident cs)"
    have "step_while is_ident (step1 s) = Inr (advance ?n (step1 s))"
      using step_while_inside [OF t(6), of is_ident] t(7) ident_chars(2) by simp
    moreover have "token_text (set_token TKN_IDENT (advance (Suc ?n) s)) = takeWhile is_ident (todo s)"
    proof -
      have "token_text (advance (Suc ?n) s) = take (Suc ?n) (todo s)"
        using length_takeWhile_le [of is_ident cs] r by (intro token_text_advance [OF s base]) simp
      then show ?thesis
        using r ident_chars(1) [OF ident(3)] takeWhile_eq_take [of is_ident cs] by simp
    qed
    ultimately show ?thesis using ident t r ident_chars(1) [OF ident(3)]
      by (simp add: scan_word_def word_result_def word_item_def)
  next
    case other
    have "token_text s = []" using base by (simp add: token_text_def)
    with other t r show ?thesis
      by (auto simp: scan_word_def word_result_def word_item_def check_keywords_Nil set_token_same)
  qed
qed


lemma mark_set_token: "mark_base (set_token t s) = set_token t (mark_base s)"
  by (simp add: mark_base_def set_token_def)

lemma scan_operator_inside:
  assumes "in_text s" and "check_tokens tbl (todo s) = Some e"
  shows "scan_operator s e = Inr (word_result s (Some (snd e), length (fst e)))"
proof -
  have "length (fst e) \<le> length (todo s)"
    using assms(2) check_tokens_Some [of tbl "todo s" "fst e" "snd e"] by simp
  with assms(1) show ?thesis by (simp add: scan_operator_def lexer_steps_inside word_result_def)
qed

lemma scan_whitespace_inside:
  assumes "in_text s" and "todo s \<noteq> []"
  shows "\<exists>u it. it = (if hd (todo s) = newline \<and> l_token s \<in> set terminators
      then (Some TKN_SEMICOLON, 1) else (None, 1)) \<and> (u = mark_base s \<or> u = s \<and> fst it = None) \<and>
    scan_whitespace s (hd (todo s)) = Inr (word_result u it)"
proof -
  obtain c cs where r: "todo s = c # cs" using assms(2) by (cases "todo s") auto
  let ?u = "mark_base (set_token TKN_SEMICOLON s)"
  have "in_text ?u" "todo ?u = c # cs" using assms(1) r by simp_all
  note t = todo_Cons [OF assms(1) r] and v = todo_Cons [OF this]
  show ?thesis
  proof (cases "c = newline \<and> l_token s \<in> set terminators")
    case True
    then have "scan_whitespace s c = Inr (word_result (mark_base s) (Some TKN_SEMICOLON, 1))"
      using v(5) by (simp add: scan_whitespace_def word_result_def mark_set_token step1_set_token)
    with True r show ?thesis by auto
  next
    case False
    then have "scan_whitespace s c = Inr (word_result s (None, 1))"
      using t(5) by (auto simp: scan_whitespace_def word_result_def)
    with False r show ?thesis by auto
  qed
qed

lemma lexer_scan_inside:
  assumes s: "in_text s" and small: "l_end s < 2 ^ 32" and ne: "todo s \<noteq> []"
  shows "\<exists>u. (u = mark_base s \<or> u = s \<and> fst (lex_item (l_token s) (todo s)) = None) \<and>
    lexer_scan s = Inr (word_result u (lex_item (l_token s) (todo s)))"
proof -
  let ?r = "todo s" and ?s = "mark_base s"
  obtain c cs where r: "?r = c # cs" using ne by (cases ?r) auto
  note t = todo_Cons [OF s r]
  have ms: "in_text ?s" "todo ?s = ?r" "l_end ?s < 2 ^ 32" using s small by simp_all
  show ?thesis
  proof (cases "is_whitespace c")
    case True
    with scan_whitespace_inside [OF s ne] t(3) r show ?thesis
      by (auto simp: lexer_scan_def lex_item_def)
  next
    case False
    let ?rem = "of_nat (l_end ?s - l_ptr ?s) :: u32"
    have c3: "(if 3 \<le> ?rem then check_tokens operators3 (rest_of ?s) else None) = check_tokens operators3 ?r"
      and c2: "(if 2 \<le> ?rem then check_tokens operators2 (rest_of ?s) else None) = check_tokens operators2 ?r"
      and c1: "(if 1 \<le> ?rem then check_tokens operators1 (rest_of ?s) else None) = check_tokens operators1 ?r"
      using check_tokens_todo [OF ms(1,3) operator_lengths(1)]
        check_tokens_todo [OF ms(1,3) operator_lengths(2)]
        check_tokens_todo [OF ms(1,3) operator_lengths(3)] by simp_all
    have d1: "2 \<le> ?rem \<and> take 2 (rest_of ?s) = ''//'' \<longleftrightarrow> take 2 ?r = ''//''"
      and d2: "2 \<le> ?rem \<and> take 2 (rest_of ?s) = ''/*'' \<longleftrightarrow> take 2 ?r = ''/*''"
      using take2_todo [OF ms(1,3)] by simp_all
    have scan: "lexer_scan s = (case check_tokens operators3 ?r of
          Some e \<Rightarrow> scan_operator ?s e
        | None \<Rightarrow>
            if take 2 ?r = ''//''
            then rbind (consume_oneline_comment (?s\<lparr>l_ptr := l_ptr ?s + 2\<rparr>)) (\<lambda>s'. Inr (s', False))
            else if take 2 ?r = ''/*''
            then rbind (consume_multiline_comment (?s\<lparr>l_ptr := l_ptr ?s + 2\<rparr>)) (\<lambda>s'. Inr (s', False))
            else (case check_tokens operators2 ?r of Some e \<Rightarrow> scan_operator ?s e
               | None \<Rightarrow> (case check_tokens operators1 ?r of Some e \<Rightarrow> scan_operator ?s e
                    | None \<Rightarrow> scan_word ?s)))"
      by (simp only: lexer_scan_def t(3) rbind_simps False if_False Let_def c3 c2 c1 d1 d2)
    have one: "rbind (consume_oneline_comment (?s\<lparr>l_ptr := l_ptr ?s + 2\<rparr>)) (\<lambda>s'. Inr (s', False)) =
        Inr (word_result ?s (None, 2 + oneline_length (drop 2 ?r)))" if "take 2 ?r = ''//''"
      using comment_opened [OF ms(1), of "CHR ''/''"] that ms(2)
      by (simp add: consume_oneline_inside word_result_def advance_add)
    have multi: "rbind (consume_multiline_comment (?s\<lparr>l_ptr := l_ptr ?s + 2\<rparr>)) (\<lambda>s'. Inr (s', False)) =
        Inr (word_result ?s (None, 2 + multiline_length (drop 2 ?r)))" if "take 2 ?r = ''/*''"
      using comment_opened [OF ms(1), of "CHR ''*''"] that ms(2)
      by (simp add: consume_multiline_inside word_result_def advance_add)
    have op: "scan_operator ?s e = Inr (word_result ?s (Some (snd e), length (fst e)))"
      if "check_tokens tbl ?r = Some e" for tbl e
      by (rule scan_operator_inside [OF ms(1)]) (use that ms(2) in simp)
    have word: "scan_word ?s = Inr (word_result ?s (word_item (l_token s) ?r))"
      using scan_word_inside [OF ms(1)] ms(2) ne by simp
    have nw: "is_whitespace (hd ?r) = False" using False r by simp
    have "lexer_scan s = Inr (word_result ?s (lex_item (l_token s) ?r))"
      unfolding scan lex_item_def nw if_False check_tokens_append
      by (auto simp: one [simplified] multi [simplified] op word split: option.splits)
    then show ?thesis by blast
  qed
qed


lemma lexer_loop_refines:
  assumes "in_text s" and "l_end s < 2 ^ 32" and "pos_ok s"
    and "next_token (l_token s) (todo s) = (k, t, n)"
  shows "\<exists>u. lexer_loop s = Inr (set_token t (advance n u)) \<and> fwd s u \<and> l_ptr u = l_ptr s + k \<and>
    in_text u \<and> todo u = drop k (todo s) \<and> n \<le> length (todo u) \<and> pos_ok u \<and>
    (l_base u = Some (l_ptr u) \<or> t = TKN_EOF)"
  using assms
proof (induction "length (todo s)" arbitrary: s k rule: less_induct)
  case less
  show ?case
  proof (cases "todo s = []")
    case True
    with less.prems have "k = 0" "t = TKN_EOF" "n = 0" "lexer_loop s = Inr (set_token TKN_EOF s)"
      using todo_Nil(1) [of s] by (simp_all add: next_token.simps lexer_loop.simps)
    with less.prems show ?thesis by (intro exI [of _ s]) (simp add: fwd_refl)
  next
    case False
    obtain it m where item: "lex_item (l_token s) (todo s) = (it, m)" by fastforce
    note m = lex_item_length [OF False item]
    obtain u where u: "u = mark_base s \<or> u = s \<and> it = None"
      and scan: "lexer_scan s = Inr (word_result u (it, m))"
      using lexer_scan_inside [OF less.prems(1,2) False] item by auto
    have su: "in_text u" "todo u = todo s" "l_ptr u = l_ptr s" "l_token u = l_token s" "pos_ok u"
      "fwd s u" "l_end u = l_end s"
      using u less.prems(1,3) by (auto simp: pos_ok_mark_base fwd_def)
    have loop: "lexer_loop s = (let (s', done) = word_result u (it, m) in
        if done then Inr s' else lexer_loop s')"
      using todo_empty [OF less.prems(1)] False scan by (simp add: lexer_loop.simps [of s])
    show ?thesis
    proof (cases it)
      case (Some t')
      with less.prems(4) False item have "k = 0" "t = t'" "n = m"
        by (simp_all add: next_token.simps [of _ "todo s"])
      with loop Some su u m show ?thesis by (intro exI [of _ u]) (auto simp: word_result_def)
    next
      case None
      let ?s = "advance m u"
      have s': "in_text ?s" "todo ?s = drop m (todo s)" "l_token ?s = l_token s" "pos_ok ?s"
        "l_end ?s < 2 ^ 32" "length (todo ?s) < length (todo s)"
        using advance_inside [of u m] su m less.prems(2) lex_item_skip [of "l_token s" "todo s" m]
          item None False by (simp_all add: pos_ok_advance)
      obtain k' where k: "next_token (l_token s) (drop m (todo s)) = (k', t, n)" "k = m + k'"
        using less.prems(4) False item None
        by (auto simp: next_token.simps [of _ "todo s"] split: prod.splits)
      obtain v where v: "lexer_loop ?s = Inr (set_token t (advance n v))" "fwd ?s v"
        "l_ptr v = l_ptr ?s + k'" "in_text v" "todo v = drop k' (todo ?s)" "n \<le> length (todo v)"
        "pos_ok v" "l_base v = Some (l_ptr v) \<or> t = TKN_EOF"
        using less.hyps [OF s'(6,1,5,4), of k'] k(1) s'(2,3) by auto
      have "fwd s v" using fwd_trans [OF su(6) fwd_trans [OF _ v(2)]] su by (simp add: fwd_def)
      with v loop None su k(2) s'(2) show ?thesis
        by (intro exI [of _ v]) (simp add: word_result_def add.commute)
    qed
  qed
qed

text \<open>
  The invariant of the lexer between two calls: the text is mapped below 4 GiB with a NUL after
  it, the position is inside it and the line information is right.
\<close>

definition lexer_ok :: "lexer \<Rightarrow> bool" where
  "lexer_ok s \<longleftrightarrow> in_text s \<and> l_end s < 2 ^ 32 \<and> pos_ok s"

lemma lexer_init_ok:
  "len < length mem \<Longrightarrow> mem ! len = CHR 0x00 \<Longrightarrow> len < 2 ^ 32 \<Longrightarrow> lexer_ok (lexer_init mem len f)"
  by (simp add: lexer_ok_def lexer_init_def in_text_def pos_ok_def)

lemma lexer_next_refines:
  assumes ok: "lexer_ok s" and live: "l_token s \<noteq> TKN_INVALID" "l_token s \<noteq> TKN_EOF"
    and next_is: "next_token (l_token s) (todo s) = (k, t, n)"
  obtains s' where "lexer_next s = Inr s'" and "lexer_ok s'" and "l_token s' = t"
    and "l_ptr s' = l_ptr s + k + n" and "l_mem s' = l_mem s" and "l_end s' = l_end s"
    and "t \<noteq> TKN_EOF \<longrightarrow> l_base s' = Some (l_ptr s + k) \<and> token_text s' = take n (drop k (todo s))"
    and "todo s' = drop (k + n) (todo s)"
proof -
  obtain u where u: "lexer_loop s = Inr (set_token t (advance n u))" "fwd s u" "l_ptr u = l_ptr s + k"
    "in_text u" "todo u = drop k (todo s)" "n \<le> length (todo u)" "pos_ok u"
    "l_base u = Some (l_ptr u) \<or> t = TKN_EOF"
    using lexer_loop_refines [OF _ _ _ next_is] ok unfolding lexer_ok_def by blast
  let ?s = "set_token t (advance n u)"
  have "l_ptr s \<le> l_end s" using ok by (simp add: lexer_ok_def in_text_def)
  with live u(1) have "lexer_next s = Inr ?s" by (simp add: lexer_next_def)
  moreover have "lexer_ok ?s" "todo ?s = drop (k + n) (todo s)"
    using advance_inside [OF u(4,6)] u ok
    by (simp_all add: lexer_ok_def pos_ok_advance fwd_def add.commute)
  moreover have "token_text ?s = take n (drop k (todo s))" if "t \<noteq> TKN_EOF"
    using token_text_advance [OF u(4) _ u(6)] that u(5,8) by simp
  ultimately show thesis
    using that [of ?s] u(2,3,8) by (auto simp: fwd_def)
qed

end
