(* ===== verification/Lexer_Props.thy ===== *)
theory Lexer_Props
  imports Lexer_Spec
begin

section \<open>Properties of the lexer\<close>

text \<open>
  The properties of \<open>lexer_next\<close> (src/lexer.c): it is total and keeps its invariant, it
  implements \<open>next_token\<close>, it reads back any printed list of tokens, classifies the keywords,
  inserts semicolons and tracks positions; and where it does not do what it should: characters
  that start no token after an identifier, line comments that swallow the line break, and the
  read past an unpadded buffer.
\<close>

subsection \<open>Tables\<close>

lemma match_keyword_eq: "match_keyword kw w \<longleftrightarrow> kw = w"
  by (induction kw w rule: match_keyword.induct) auto

lemma fold_override_absent:
  "w \<notin> fst ` set tbl \<Longrightarrow> fold (\<lambda>(kw, tkn) t. if kw = w then tkn else t) tbl t0 = t0"
  by (induction tbl arbitrary: t0) auto

lemma fold_override:
  "distinct (map fst tbl) \<Longrightarrow> fold (\<lambda>(kw, tkn) t. if kw = w then tkn else t) tbl t0 =
    (case map_of tbl w of None \<Rightarrow> t0 | Some t \<Rightarrow> t)"
proof (induction tbl arbitrary: t0)
  case (Cons e tbl)
  then show ?case by (cases e) (auto simp: fold_override_absent)
qed simp

lemma keyword_table_distinct: "distinct (map fst keyword_table)"
  by (simp add: keyword_table_def)

lemma check_keywords_map_of:
  "check_keywords w t0 = (case map_of keyword_table w of None \<Rightarrow> t0 | Some t \<Rightarrow> t)"
  by (simp add: check_keywords_def match_keyword_eq fold_override [OF keyword_table_distinct])

definition operator_chars :: string where
  "operator_chars = ''.><:+-*/%&^|=!;{},()[]~?#''"

lemma operator_heads:
  "\<forall>e\<in>set operators3. fst e \<noteq> [] \<and> hd (fst e) \<in> set operator_chars"
  "\<forall>e\<in>set operators2. fst e \<noteq> [] \<and> hd (fst e) \<in> set operator_chars"
  "\<forall>e\<in>set operators1. fst e \<noteq> [] \<and> hd (fst e) \<in> set operator_chars"
  by (simp_all add: operators3_def operators2_def operators1_def operator_chars_def)

lemma check_tokens_head:
  "\<forall>e\<in>set tbl. fst e \<noteq> [] \<and> hd (fst e) \<in> set operator_chars \<Longrightarrow> c \<notin> set operator_chars \<Longrightarrow>
    check_tokens tbl (c # r) = None"
proof (induction tbl)
  case (Cons e tbl)
  then show ?case by (cases e; cases "fst e") auto
qed simp

lemma lex_item_word:
  assumes "c \<notin> set operator_chars" and "\<not> is_whitespace c"
  shows "lex_item prev (c # r) = word_item prev (c # r)"
proof -
  have "check_tokens operators3 (c # r) = None" "check_tokens (operators2 @ operators1) (c # r) = None"
    using check_tokens_head [OF operator_heads(1) assms(1)] check_tokens_head [OF operator_heads(2) assms(1)]
      check_tokens_head [OF operator_heads(3) assms(1)] by (simp_all add: check_tokens_append)
  moreover have "c \<noteq> CHR ''/''" using assms(1) by (auto simp: operator_chars_def)
  ultimately show ?thesis using assms(2) by (simp add: lex_item_def)
qed

lemma not_whitespace_range: "\<lbrakk>(32::nat) < of_char c; of_char c < (128::nat)\<rbrakk> \<Longrightarrow> \<not> is_whitespace c"
  by (simp add: is_whitespace_def)

lemma ident_start_char:
  assumes "is_ident_start c"
  shows "c \<notin> set operator_chars" "\<not> is_whitespace c" "c \<noteq> CHR 0x22" "\<not> is_number_start c"
  using assms by (auto simp: operator_chars_def is_whitespace_def is_ident_start_def char_between_def
      is_number_start_def is_number_dec_def)

lemma number_dec_char:
  assumes "is_number_dec c"
  shows "c \<notin> set operator_chars" "\<not> is_whitespace c" "c \<noteq> CHR 0x22"
  using assms by (auto simp: operator_chars_def is_whitespace_def is_number_dec_def char_between_def)


subsection \<open>Lexemes\<close>

definition lexeme :: "nat \<times> string \<Rightarrow> bool" where
  "lexeme = (\<lambda>(t, w).
     (w, t) \<in> set (operators3 @ operators2 @ operators1) \<or> (w, t) \<in> set keyword_table \<or>
     t = TKN_IDENT \<and> w \<noteq> [] \<and> is_ident_start (hd w) \<and> list_all is_ident w \<and>
       map_of keyword_table w = None \<or>
     t = TKN_NUMBER_LITERAL \<and> w \<noteq> [] \<and> is_number_dec (hd w) \<and> list_all number_char (tl w) \<or>
     t = TKN_STRING_LITERAL \<and> take 1 w = [CHR 0x22] \<and> string_length (tl w) = (length (tl w), True))"

lemma string_length_append: "string_length x = (n, True) \<Longrightarrow> string_length (x @ r) = (n, True)"
proof (induction x arbitrary: n rule: string_length.induct)
  case (2 c cs)
  show ?case
  proof (cases cs)
    case (Cons d ds)
    with 2 show ?thesis
      by (cases "c = CHR 0x22"; cases "c = CHR 0x5C") (auto simp: Let_def split: prod.splits)
  qed (use "2.prems" in \<open>auto split: if_splits\<close>)
qed simp

lemma keyword_idents:
  "(w, t) \<in> set keyword_table \<Longrightarrow> w \<noteq> [] \<and> is_ident_start (hd w) \<and> list_all is_ident w"
  by (auto simp: keyword_table_def is_ident_def is_ident_start_def char_between_def)

lemma lex_item_ident:
  assumes "w \<noteq> []" and "is_ident_start (hd w)" and "list_all is_ident w" and "\<not> is_ident c"
  shows "lex_item prev (w @ c # r) = (Some (check_keywords w TKN_IDENT), length w)"
proof -
  obtain d ds where w: "w = d # ds" using assms(1) by (cases w) auto
  have "takeWhile is_ident (w @ c # r) = w"
    using assms(3,4) by (simp add: list_all_iff takeWhile_append2)
  with w assms(2) ident_start_char [of d] show ?thesis
    by (simp add: lex_item_word word_item_def)
qed

lemma lex_item_number:
  assumes "is_number_dec d" and "list_all number_char ds" and "\<not> number_char c"
  shows "lex_item prev (d # ds @ c # r) = (Some TKN_NUMBER_LITERAL, Suc (length ds))"
proof -
  have "takeWhile number_char (ds @ c # r) = ds"
    using assms(2,3) by (simp add: list_all_iff takeWhile_append2)
  with assms(1) number_dec_char [of d] show ?thesis
    by (simp add: lex_item_word word_item_def is_number_start_def)
qed

lemma lex_item_string:
  assumes "string_length ds = (length ds, True)"
  shows "lex_item prev (CHR 0x22 # ds @ r) = (Some TKN_STRING_LITERAL, Suc (length ds))"
  using string_length_append [OF assms, of r]
  by (simp add: lex_item_word word_item_def operator_chars_def is_whitespace_def)

text \<open>No spelling holds a blank, so a match ends before the first blank.\<close>

lemma take_before_blank:
  assumes "c \<notin> set v"
  shows "take (length v) (w @ c # r) = v \<longleftrightarrow> take (length v) w = v"
proof (cases "length v \<le> length w")
  case False
  then have "c \<in> set (take (length v) (w @ c # r))"
    by (cases "length v - length w") simp_all
  moreover have "length (take (length v) w) \<noteq> length v" using False by simp
  ultimately show ?thesis using assms by metis
qed simp

lemma check_tokens_before_blank:
  "\<forall>e\<in>set tbl. c \<notin> set (fst e) \<Longrightarrow> check_tokens tbl (w @ c # r) = check_tokens tbl w"
  by (induction tbl w rule: check_tokens.induct) (auto simp: take_before_blank simp del: take_append)

definition operator_entry :: "string \<times> nat \<Rightarrow> bool" where
  "operator_entry e \<longleftrightarrow> (case e of (w, t) \<Rightarrow> w \<noteq> [] \<and> \<not> is_whitespace (hd w) \<and>
     take 2 w \<noteq> ''//'' \<and> take 2 w \<noteq> ''/*'' \<and> CHR '' '' \<notin> set w \<and>
     (case check_tokens operators3 w of Some e' \<Rightarrow> e' = e
      | None \<Rightarrow> check_tokens (operators2 @ operators1) w = Some e))"

lemma operator_entries: "list_all operator_entry (operators3 @ operators2 @ operators1)"
  by code_simp

lemma lex_item_operator:
  assumes "(w, t) \<in> set (operators3 @ operators2 @ operators1)"
  shows "lex_item prev (w @ CHR '' '' # r) = (Some t, length w)"
proof -
  have e: "operator_entry (w, t)" using operator_entries assms unfolding list_all_iff by blast
  have blank: "\<forall>e\<in>set (operators3 @ operators2 @ operators1). CHR '' '' \<notin> set (fst e)"
    using operator_entries by (auto simp: list_all_iff operator_entry_def)
  have two: "take 2 (w @ CHR '' '' # r) = [c, d] \<longleftrightarrow> take 2 w = [c, d]"
    if "c \<noteq> CHR '' ''" "d \<noteq> CHR '' ''" for c d
    using take_before_blank [of "CHR '' ''" "[c, d]" w r] that by (simp add: numeral_2_eq_2 del: take_append)
  have "check_tokens operators3 (w @ CHR '' '' # r) = check_tokens operators3 w"
    "check_tokens (operators2 @ operators1) (w @ CHR '' '' # r) = check_tokens (operators2 @ operators1) w"
    using blank by (intro check_tokens_before_blank; simp)+
  then show ?thesis using e two
    by (auto simp: lex_item_def operator_entry_def split: option.splits)
qed

lemma blank_chars: "\<not> is_ident (CHR '' '')" "\<not> number_char (CHR '' '')" "is_whitespace (CHR '' '')"
  by (simp_all add: is_ident_def is_ident_start_def char_between_def number_char_def is_number_def
      is_number_start_def is_number_dec_def is_whitespace_def)

lemma lex_item_lexeme:
  assumes "lexeme (t, w)"
  shows "lex_item prev (w @ CHR '' '' # r) = (Some t, length w)"
proof -
  from assms consider (op) "(w, t) \<in> set (operators3 @ operators2 @ operators1)"
    | (kw) "(w, t) \<in> set keyword_table"
    | (id) "t = TKN_IDENT \<and> w \<noteq> [] \<and> is_ident_start (hd w) \<and> list_all is_ident w \<and> map_of keyword_table w = None"
    | (num) "t = TKN_NUMBER_LITERAL \<and> w \<noteq> [] \<and> is_number_dec (hd w) \<and> list_all number_char (tl w)"
    | (str) "t = TKN_STRING_LITERAL \<and> take 1 w = [CHR 0x22] \<and> string_length (tl w) = (length (tl w), True)"
    unfolding lexeme_def prod.case by (elim disjE)
  then show ?thesis
  proof cases
    case op
    then show ?thesis by (rule lex_item_operator)
  next
    case kw
    then have "map_of keyword_table w = Some t" using keyword_table_distinct by simp
    with kw keyword_idents [OF kw] blank_chars(1) show ?thesis
      by (simp add: lex_item_ident check_keywords_map_of)
  next
    case id
    with blank_chars(1) show ?thesis by (simp add: lex_item_ident check_keywords_map_of)
  next
    case num
    with lex_item_number [of "hd w" "tl w", OF _ _ blank_chars(2)] show ?thesis by (cases w) simp_all
  next
    case str
    with lex_item_string [of "tl w" prev "CHR '' '' # r"] show ?thesis by (cases w) simp_all
  qed
qed


lemma table_tokens: "list_all (\<lambda>e. 2 < snd e) (operators3 @ operators2 @ operators1 @ keyword_table)"
  by code_simp

lemma lexeme_live: "lexeme (t, w) \<Longrightarrow> 2 < t"
  using bspec [OF table_tokens [unfolded list_all_iff], of "(w, t)"] by (auto simp: lexeme_def)

subsection \<open>Skipping blanks\<close>

lemma next_token_skip:
  assumes "is_whitespace c" and "c = newline \<longrightarrow> prev \<notin> set terminators"
  shows "next_token prev (c # r) = (let (k, t, m) = next_token prev r in (Suc k, t, m))"
  using assms by (auto simp: next_token.simps [of prev "c # r"] lex_item_def split: prod.splits)

lemma next_token_blanks:
  assumes "\<forall>c\<in>set bs. is_whitespace c \<and> (c = newline \<longrightarrow> prev \<notin> set terminators)"
  shows "next_token prev (bs @ r) = (let (k, t, m) = next_token prev r in (length bs + k, t, m))"
  using assms by (induction bs) (auto simp: next_token_skip split: prod.splits)

lemma next_token_item:
  "r \<noteq> [] \<Longrightarrow> lex_item prev r = (Some t, n) \<Longrightarrow> next_token prev r = (0, t, n)"
  by (simp add: next_token.simps)

lemma next_token_skipped:
  "r \<noteq> [] \<Longrightarrow> lex_item prev r = (None, n) \<Longrightarrow>
    next_token prev r = (let (k, t, m) = next_token prev (drop n r) in (n + k, t, m))"
  by (simp add: next_token.simps)

subsection \<open>The invariant and the specification\<close>

lemma lexer_total:
  assumes "lexer_ok s"
  shows "\<exists>s'. lexer_next s = Inr s' \<and> lexer_ok s' \<and> l_mem s' = l_mem s \<and> l_end s' = l_end s \<and>
    l_ptr s \<le> l_ptr s' \<and> l_ptr s' \<le> l_end s"
proof (cases "l_token s = TKN_INVALID \<or> l_token s = TKN_EOF")
  case True
  with assms show ?thesis by (auto simp: lexer_next_def lexer_ok_def in_text_def)
next
  case False
  obtain k t n where nt: "next_token (l_token s) (todo s) = (k, t, n)" by (metis prod_cases3)
  obtain s' where s': "lexer_next s = Inr s'" "lexer_ok s'" "l_ptr s' = l_ptr s + k + n"
    "l_mem s' = l_mem s" "l_end s' = l_end s"
    by (rule lexer_next_refines [OF assms _ _ nt]) (use False in simp_all)
  then have "l_ptr s' \<le> l_end s" by (simp add: lexer_ok_def in_text_def)
  with s' show ?thesis by simp
qed

text \<open>
  C22: the lexer is total and memory safe: on every text below 4 GiB that is followed by a NUL,
  in whatever state, \<open>lexer_next\<close> returns, fails no assertion, reads no byte outside the
  mapping, never moves back, and keeps the invariant, with the position inside the text.
\<close>

theorem lexer_next_total:
  assumes "lexer_ok s"
  shows "\<exists>s'. lexer_next s = Inr s' \<and> lexer_ok s' \<and> l_mem s' = l_mem s \<and> l_end s' = l_end s \<and>
    l_ptr s \<le> l_ptr s' \<and> l_ptr s' \<le> l_end s"
  using assms by (rule lexer_total)

definition sample_lexer :: lexer where
  "sample_lexer = lexer_init (''x // y'' @ [CHR 0x00]) 6 ''a.low''"

lemma sample_lexer_ok: "lexer_ok sample_lexer"
  unfolding sample_lexer_def by (rule lexer_init_ok) simp_all

theorem lexer_next_total_witness: "\<exists>s'. lexer_next sample_lexer = Inr s' \<and> lexer_ok s'"
  using lexer_next_total [OF sample_lexer_ok] by blast

text \<open>
  C8: \<open>lexer_next\<close> implements the specification \<open>next_token\<close> over the remaining text: it
  skips \<open>k\<close> characters, returns the token \<open>t\<close>, and leaves \<open>base\<close> and \<open>ptr\<close> around the \<open>n\<close>
  characters of its text.
\<close>

theorem lexer_next_implements:
  assumes "lexer_ok s" and "l_token s \<noteq> TKN_INVALID" and "l_token s \<noteq> TKN_EOF"
    and "next_token (l_token s) (todo s) = (k, t, n)"
  shows "\<exists>s'. lexer_next s = Inr s' \<and> l_token s' = t \<and> l_ptr s' = l_ptr s + k + n \<and>
    todo s' = drop (k + n) (todo s) \<and>
    (t \<noteq> TKN_EOF \<longrightarrow> l_base s' = Some (l_ptr s + k) \<and> token_text s' = take n (drop k (todo s)))"
  by (rule lexer_next_refines [OF assms]) blast

lemma sample_todo: "todo sample_lexer = ''x // y''" "l_token sample_lexer = TKN_SOF"
  by (simp_all add: sample_lexer_def todo_def lexer_init_def)

lemma sample_next: "next_token TKN_SOF ''x // y'' = (0, TKN_IDENT, 1)"
  by (rule next_token_item) code_simp+

theorem lexer_next_implements_witness:
  "\<exists>s'. lexer_next sample_lexer = Inr s' \<and> l_token s' = TKN_IDENT \<and> token_text s' = ''x''"
proof -
  have "next_token (l_token sample_lexer) (todo sample_lexer) = (0, TKN_IDENT, 1)"
    by (simp only: sample_todo sample_next)
  from lexer_next_implements [OF sample_lexer_ok _ _ this] show ?thesis
    by (auto simp: sample_todo)
qed

subsection \<open>Printing and reading back\<close>

definition render :: "(nat \<times> string) list \<Rightarrow> string" where
  "render ls = concat (map (\<lambda>(t, w). w @ '' '') ls)"

text \<open>The next \<open>n\<close> tokens with their texts, by \<open>n\<close> calls of \<open>lexer_next\<close>.\<close>

primrec lex_many :: "nat \<Rightarrow> lexer \<Rightarrow> ((nat \<times> string) list \<times> lexer) res" where
  "lex_many 0 s = Inr ([], s)"
| "lex_many (Suc n) s = rbind (lexer_next s) (\<lambda>s'.
     rbind (lex_many n s') (\<lambda>(ts, u). Inr ((l_token s', token_text s') # ts, u)))"

lemma next_token_lexeme:
  assumes "lexeme (t, w)"
  shows "next_token prev (replicate b CHR '' '' @ w @ CHR '' '' # r) = (b, t, length w)"
  using next_token_blanks [of "replicate b CHR '' ''" prev "w @ CHR '' '' # r"]
    next_token_item [OF _ lex_item_lexeme [OF assms]] blank_chars(3) by simp

lemma lex_many_render:
  assumes "lexer_ok s" and "l_token s \<noteq> TKN_INVALID" and "l_token s \<noteq> TKN_EOF"
    and "list_all lexeme ls" and "todo s = replicate b CHR '' '' @ render ls"
  shows "\<exists>u b. lex_many (length ls) s = Inr (ls, u) \<and> lexer_ok u \<and> l_token u \<noteq> TKN_INVALID \<and>
    l_token u \<noteq> TKN_EOF \<and> todo u = replicate b CHR '' ''"
  using assms
proof (induction ls arbitrary: s b)
  case Nil
  then show ?case by (auto simp: render_def)
next
  case (Cons e ls)
  obtain t w where e: "e = (t, w)" by fastforce
  with Cons.prems have lx: "lexeme (t, w)" "list_all lexeme ls"
    and r: "todo s = replicate b CHR '' '' @ w @ CHR '' '' # render ls"
    by (simp_all add: render_def)
  have t: "t \<noteq> TKN_INVALID" "t \<noteq> TKN_EOF" using lexeme_live [OF lx(1)] by simp_all
  have "next_token (l_token s) (todo s) = (b, t, length w)"
    unfolding r by (rule next_token_lexeme [OF lx(1)])
  then obtain s' where s': "lexer_next s = Inr s'" "lexer_ok s'" "l_token s' = t"
    "token_text s' = take (length w) (drop b (todo s))" "todo s' = drop (b + length w) (todo s)"
    using t by (elim lexer_next_refines [OF Cons.prems(1-3)]) simp_all
  then have "token_text s' = w" "todo s' = replicate 1 CHR '' '' @ render ls" by (simp_all add: r)
  with Cons.IH [OF s'(2) _ _ lx(2), of 1] s' t e show ?case by auto
qed

text \<open>
  C7: printing and reading back. Any list of operators, keywords, identifiers, numbers and
  string literals, printed with blanks in between, is lexed to exactly these tokens with exactly
  these texts, and then the end of the file: no spelling is split, merged with its neighbour or
  classified as something else.
\<close>

theorem lexer_reads_back:
  assumes "list_all lexeme ls" and "length (render ls) < 2 ^ 32"
  shows "\<exists>s s'. lex_many (length ls)
      (lexer_init (render ls @ [CHR 0x00]) (length (render ls)) file) = Inr (ls, s) \<and>
    lexer_next s = Inr s' \<and> l_token s' = TKN_EOF"
proof -
  let ?s = "lexer_init (render ls @ [CHR 0x00]) (length (render ls)) file"
  have s: "lexer_ok ?s" using assms(2) by (intro lexer_init_ok) simp_all
  have t: "todo ?s = replicate 0 CHR '' '' @ render ls" by (simp add: lexer_init_def todo_def)
  obtain u b where u: "lex_many (length ls) ?s = Inr (ls, u)" "lexer_ok u" "l_token u \<noteq> TKN_INVALID"
    "l_token u \<noteq> TKN_EOF" "todo u = replicate b CHR '' ''"
    using lex_many_render [OF s _ _ assms(1) t] by (auto simp: lexer_init_def)
  have "next_token (l_token u) (todo u) = (b, TKN_EOF, 0)"
    using next_token_blanks [of "todo u" "l_token u" "[]"] u(5) blank_chars(3)
    by (simp add: next_token.simps [of _ "[]"])
  then obtain s' where "lexer_next u = Inr s'" "l_token s' = TKN_EOF"
    by (elim lexer_next_refines [OF u(2-4)]) simp
  with u(1) show ?thesis by blast
qed

theorem lexer_reads_back_witness:
  "\<exists>s s'. lex_many 4 (lexer_init (''x1 >>= func 0xF '' @ [CHR 0x00]) 16 ''f'') =
      Inr ([(TKN_IDENT, ''x1''), (TKN_RIGHT_ASSIGN, ''>>=''), (TKN_FUNC, ''func''),
        (TKN_NUMBER_LITERAL, ''0xF'')], s) \<and>
    lexer_next s = Inr s' \<and> l_token s' = TKN_EOF"
proof -
  let ?ls = "[(TKN_IDENT, ''x1''), (TKN_RIGHT_ASSIGN, ''>>=''), (TKN_FUNC, ''func''),
        (TKN_NUMBER_LITERAL, ''0xF'')]"
  have "list_all lexeme ?ls" by code_simp
  moreover have r: "render ?ls = ''x1 >>= func 0xF ''" by (simp add: render_def)
  moreover have l: "length ?ls = 4" "length ''x1 >>= func 0xF '' = 16" by simp_all
  ultimately show ?thesis using lexer_reads_back [of ?ls "''f''"] by (simp only: r l) simp
qed


subsection \<open>Keywords and identifiers\<close>

text \<open>
  C27: classification of words. A maximal run of identifier characters is lexed as the keyword it
  spells, if the table of keywords has it, and as an identifier otherwise; its text is the whole
  run. No prefix or extension of a keyword is taken for it.
\<close>

theorem lexer_classifies_words:
  assumes "lexer_ok s" and "l_token s \<noteq> TKN_INVALID" and "l_token s \<noteq> TKN_EOF"
    and "todo s = w @ c # r" and "w \<noteq> []" and "is_ident_start (hd w)" and "list_all is_ident w"
    and "\<not> is_ident c"
  shows "\<exists>s'. lexer_next s = Inr s' \<and> token_text s' = w \<and> todo s' = c # r \<and>
    l_token s' = (case map_of keyword_table w of None \<Rightarrow> TKN_IDENT | Some t \<Rightarrow> t)"
proof -
  let ?t = "case map_of keyword_table w of None \<Rightarrow> TKN_IDENT | Some t \<Rightarrow> t"
  have nt: "next_token (l_token s) (todo s) = (0, ?t, length w)"
    unfolding assms(4) check_keywords_map_of [symmetric]
    by (rule next_token_item [OF _ lex_item_ident [OF assms(5-8)]]) simp
  have "2 < ?t"
    using bspec [OF table_tokens [unfolded list_all_iff], of "(w, the (map_of keyword_table w))"]
      map_of_SomeD [of keyword_table w] by (auto split: option.split)
  with lexer_next_implements [OF assms(1-3) nt] show ?thesis by (auto simp: assms(4))
qed

definition word_lexer :: "string \<Rightarrow> lexer" where
  "word_lexer txt = lexer_init (txt @ [CHR 0x00]) (length txt) ''a.low''"

lemma word_lexer_ok: "length txt < 2 ^ 32 \<Longrightarrow> lexer_ok (word_lexer txt)"
  unfolding word_lexer_def by (rule lexer_init_ok) simp_all

lemma word_lexer_simps [simp]: "todo (word_lexer txt) = txt" "l_token (word_lexer txt) = TKN_SOF"
  by (simp_all add: word_lexer_def todo_def lexer_init_def)

theorem lexer_classifies_words_witness:
  "\<exists>s. lexer_next (word_lexer ''while('') = Inr s \<and> token_text s = ''while'' \<and> l_token s = TKN_WHILE"
proof -
  have "is_ident_start (hd ''while'')" "list_all is_ident ''while''" "\<not> is_ident (CHR ''('')"
    "map_of keyword_table ''while'' = Some TKN_WHILE" by code_simp+
  then show ?thesis
    using lexer_classifies_words [of "word_lexer ''while(''" "''while''" "CHR ''(''" "[]"]
    by (auto simp: word_lexer_ok)
qed

subsection \<open>Statement ends\<close>

text \<open>
  C28: semicolon insertion. After a token of the table of terminators, and any blanks, a line
  break is returned as a semicolon token whose text is the line break; after any other token the
  line break is skipped like a blank.
\<close>

theorem lexer_inserts_semicolon:
  assumes "lexer_ok s" and "l_token s \<noteq> TKN_INVALID" and "l_token s \<noteq> TKN_EOF"
    and "todo s = bs @ newline # r" and "\<forall>c\<in>set bs. is_whitespace c \<and> c \<noteq> newline"
  shows "\<exists>s'. lexer_next s = Inr s' \<and>
    (if l_token s \<in> set terminators
     then l_token s' = TKN_SEMICOLON \<and> token_text s' = [newline] \<and> todo s' = r
     else \<exists>k n. next_token (l_token s) r = (k, l_token s', n) \<and> todo s' = drop (k + n) r)"
proof -
  have nl: "is_whitespace newline" by (simp add: is_whitespace_def)
  obtain k t n where r: "next_token (l_token s) r = (k, t, n)" by (metis prod_cases3)
  have "next_token (l_token s) (newline # r) =
      (if l_token s \<in> set terminators then (0, TKN_SEMICOLON, 1) else (Suc k, t, n))"
    using nl r next_token_skip [of newline "l_token s" r]
    by (simp add: next_token.simps [of _ "newline # r"] lex_item_def)
  then have nt: "next_token (l_token s) (todo s) = (if l_token s \<in> set terminators
      then (length bs, TKN_SEMICOLON, 1) else (length bs + Suc k, t, n))"
    using next_token_blanks [of bs "l_token s" "newline # r"] assms(4,5) by auto
  show ?thesis
  proof (cases "l_token s \<in> set terminators")
    case True
    with nt have nt': "next_token (l_token s) (todo s) = (length bs, TKN_SEMICOLON, 1)" by simp
    from lexer_next_implements [OF assms(1-3) nt'] True show ?thesis by (auto simp: assms(4))
  next
    case False
    with nt have nt': "next_token (l_token s) (todo s) = (length bs + Suc k, t, n)" by simp
    from lexer_next_implements [OF assms(1-3) nt'] False r show ?thesis by (auto simp: assms(4))
  qed
qed

theorem lexer_inserts_semicolon_witness:
  "\<exists>s. lexer_next (set_token TKN_RETURN (word_lexer ('' '' @ newline # ''}''))) = Inr s \<and>
    l_token s = TKN_SEMICOLON \<and> todo s = ''}''"
proof -
  have "lexer_ok (set_token TKN_RETURN (word_lexer ('' '' @ newline # ''}'')))"
    using word_lexer_ok [of "'' '' @ newline # ''}''"] by (simp add: lexer_ok_def)
  with lexer_inserts_semicolon [of "set_token TKN_RETURN (word_lexer ('' '' @ newline # ''}''))" "'' ''" "''}''"]
    blank_chars(3)
  show ?thesis by (auto simp: terminators_def)
qed

lemma oneline_length_comment: "newline \<notin> set c \<Longrightarrow> oneline_length (c @ newline # r) = Suc (length c)"
  by (induction c) auto

text \<open>
  A line comment swallows the line break that ends it, so no semicolon is inserted there:
  the token after \<open>// ...\<close> is the one the next line starts with, also after a terminator.
\<close>

theorem line_comment_swallows_break:
  assumes "lexer_ok s" and "l_token s \<noteq> TKN_INVALID" and "l_token s \<noteq> TKN_EOF"
    and "todo s = ''//'' @ c @ newline # r" and "newline \<notin> set c"
    and "next_token (l_token s) r = (k, t, n)"
  shows "\<exists>s'. lexer_next s = Inr s' \<and> l_token s' = t \<and> todo s' = drop (k + n) r"
proof -
  have three: "check_tokens operators3 (''//'' @ c @ newline # r) = None"
    by (simp add: operators3_def)
  have "lex_item (l_token s) (todo s) = (None, 2 + Suc (length c))"
    using three assms(4) oneline_length_comment [OF assms(5), of r]
    by (simp add: lex_item_def is_whitespace_def)
  then have nt: "next_token (l_token s) (todo s) = (2 + Suc (length c) + k, t, n)"
    using next_token_skipped [of "todo s"] assms(4,6) by simp
  from lexer_next_implements [OF assms(1-3) nt] show ?thesis by (auto simp: assms(4))
qed

theorem line_comment_swallows_break_witness:
  "\<exists>s. lexer_next (set_token TKN_RETURN (word_lexer (''//'' @ ''c'' @ newline # ''}''))) = Inr s \<and>
    l_token s = TKN_RBRACE"
proof -
  have ok: "lexer_ok (set_token TKN_RETURN (word_lexer (''//'' @ ''c'' @ newline # ''}'')))"
    using word_lexer_ok [of "''//'' @ ''c'' @ newline # ''}''"] by (simp add: lexer_ok_def)
  have "next_token TKN_RETURN ''}'' = (0, TKN_RBRACE, 1)" by (rule next_token_item) code_simp+
  with line_comment_swallows_break [OF ok, of "''c''" "''}''" 0 TKN_RBRACE 1] show ?thesis by auto
qed


subsection \<open>Positions\<close>

definition breaks :: "string \<Rightarrow> nat" where
  "breaks txt = length (filter (\<lambda>c. c = newline) txt)"

lemma breaks_between:
  "b \<le> p \<Longrightarrow> p \<le> length mem \<Longrightarrow>
    newlines mem p = newlines mem b + breaks (take (p - b) (drop b mem)) \<and>
    (if newline \<in> set (take (p - b) (drop b mem)) then b < line_start mem p else line_start mem p = line_start mem b)"
proof (induction p)
  case (Suc p)
  show ?case
  proof (cases "b = Suc p")
    case False
    with Suc.prems have b: "b \<le> p" by simp
    then have "take (Suc p - b) (drop b mem) = take (p - b) (drop b mem) @ [mem ! p]"
      using Suc.prems(2) by (simp add: Suc_diff_le take_Suc_conv_app_nth)
    with Suc b show ?thesis by (auto simp: breaks_def)
  qed (simp add: breaks_def)
qed (simp add: breaks_def)

text \<open>
  C23: source positions. The location of a token other than the end of the file, whatever
  comments, strings and blank lines came before: its line is the number of the line breaks before its
  first character and of those in its text (modulo \<open>2 ^ 32\<close>), and its column is counted from
  the start of the line of its first character, but is 0 when its text has a line break. So the
  location is that of the first character for the tokens of one line; a semicolon that is inserted
  for a line break, and a string of several lines, are reported on the line they end on, at column 0.
\<close>

theorem lexer_positions:
  assumes "lexer_ok s" and "l_token s \<noteq> TKN_INVALID" and "l_token s \<noteq> TKN_EOF"
    and "lexer_next s = Inr s'" and "l_token s' \<noteq> TKN_EOF"
  shows "\<exists>b. l_base s' = Some b \<and> loc_line (l_loc s') = of_nat (newlines (l_mem s) b + breaks (token_text s')) \<and>
    loc_col (l_loc s') = (if newline \<in> set (token_text s') then 0 else of_nat (b - line_start (l_mem s) b))"
proof -
  obtain k t n where nt: "next_token (l_token s) (todo s) = (k, t, n)" by (metis prod_cases3)
  obtain s2 where s2: "lexer_next s = Inr s2" "lexer_ok s2" "l_token s2 = t" "l_mem s2 = l_mem s"
    "t \<noteq> TKN_EOF \<longrightarrow> l_base s2 = Some (l_ptr s + k) \<and> token_text s2 = take n (drop k (todo s))"
    by (rule lexer_next_refines [OF assms(1-3) nt]) simp
  let ?b = "l_ptr s + k" and ?mem = "l_mem s"
  have eq: "s2 = s'" using s2(1) assms(4) by simp
  then have base: "l_base s' = Some ?b" using s2(3,5) assms(5) by simp
  have pos: "loc_line (l_loc s') = of_nat (newlines ?mem (l_ptr s'))" "?b \<le> l_ptr s'"
    "loc_col (l_loc s') = of_nat (?b - line_start ?mem (l_ptr s'))"
    using s2(2,4) base eq by (simp_all add: lexer_ok_def pos_ok_def)
  have tx: "token_text s' = take (l_ptr s' - ?b) (drop ?b ?mem)" and len: "l_ptr s' \<le> length ?mem"
    using base s2(2,4) eq by (simp_all add: token_text_def lexer_ok_def in_text_def)
  from breaks_between [OF pos(2) len] pos base show ?thesis unfolding tx by auto
qed

text \<open>A word on the second line, after a blank, and a string of two lines.\<close>

definition sample_lines :: lexer where
  "sample_lines = lexer_init (newline # '' xy'' @ [CHR 0x00]) 4 ''a.low''"

lemma sample_lines_ok: "lexer_ok sample_lines"
  unfolding sample_lines_def by (rule lexer_init_ok) simp_all

lemma sample_lines_next:
  "case lexer_next sample_lines of Inr s \<Rightarrow> l_token s = TKN_IDENT \<and> l_base s = Some 2 \<and> token_text s = ''xy'' | Inl e \<Rightarrow> False"
  by code_simp

theorem lexer_positions_witness:
  "\<exists>s. lexer_next sample_lines = Inr s \<and> token_text s = ''xy'' \<and> loc_line (l_loc s) = 1 \<and> loc_col (l_loc s) = 1"
proof -
  obtain s where s: "lexer_next sample_lines = Inr s" "l_token s = TKN_IDENT" "l_base s = Some 2" "token_text s = ''xy''"
    using sample_lines_next by (auto split: sum.splits)
  have "l_token sample_lines = TKN_SOF" by (simp add: sample_lines_def lexer_init_def)
  with lexer_positions [OF sample_lines_ok _ _ s(1)] s(2-4)
  have "loc_line (l_loc s) = of_nat (newlines (l_mem sample_lines) 2 + breaks ''xy'')"
    "loc_col (l_loc s) = (if newline \<in> set ''xy'' then 0 else of_nat (2 - line_start (l_mem sample_lines) 2))" by auto
  moreover have "newlines (l_mem sample_lines) 2 = 1" "line_start (l_mem sample_lines) 2 = 1" "breaks ''xy'' = 0"
    by code_simp+
  ultimately show ?thesis using s by auto
qed

lemma sample_stuck: "lexer_next sample_lexer = Inr (sample_lexer
    \<lparr>l_base := Some 0, l_ptr := 1, l_token := TKN_IDENT\<rparr>)"
  by code_simp

subsection \<open>Where the lexer goes wrong\<close>

text \<open>A character no token starts with, which the lexer should report and skip.\<close>

definition garbage :: "char \<Rightarrow> bool" where
  "garbage c \<longleftrightarrow> c \<notin> set operator_chars \<and> \<not> is_whitespace c \<and> c \<noteq> CHR 0x22 \<and>
     \<not> is_number_start c \<and> \<not> is_ident_start c"

text \<open>
  A character that starts no token, right after an identifier, is never skipped: the
  token field still holds the identifier, so \<open>lexer_next\<close> takes the branch for keywords and
  returns an empty identifier without moving, however often it is called.
\<close>

theorem lexer_stuck_on_garbage:
  assumes "lexer_ok s" and "l_token s = TKN_IDENT" and "todo s = c # r" and "garbage c"
  shows "\<exists>u. lex_many n s = Inr (replicate n (TKN_IDENT, []), u) \<and> l_ptr u = l_ptr s \<and> l_token u = TKN_IDENT"
  using assms(1-3)
proof (induction n arbitrary: s)
  case (Suc n)
  have "lex_item (l_token s) (todo s) = (Some TKN_IDENT, 0)"
    using assms(4) Suc.prems by (simp add: garbage_def lex_item_word word_item_def)
  then have nt: "next_token (l_token s) (todo s) = (0, TKN_IDENT, 0)"
    using Suc.prems(3) by (simp add: next_token_item)
  obtain s' where "lexer_next s = Inr s'" "lexer_ok s'" "l_token s' = TKN_IDENT" "l_ptr s' = l_ptr s"
    "token_text s' = []" "todo s' = c # r"
    by (rule lexer_next_refines [OF Suc.prems(1) _ _ nt]) (use Suc.prems in simp_all)
  with Suc.IH [of s'] show ?case by auto
qed simp

theorem lexer_stuck_on_garbage_witness:
  "\<exists>u. lex_many 1000 (set_token TKN_IDENT (word_lexer ''@ x'')) = Inr (replicate 1000 (TKN_IDENT, []), u)"
proof -
  have "lexer_ok (set_token TKN_IDENT (word_lexer ''@ x''))"
    using word_lexer_ok [of "''@ x''"] by (simp add: lexer_ok_def)
  moreover have "garbage (CHR ''@'')" by code_simp
  ultimately show ?thesis
    using lexer_stuck_on_garbage [of "set_token TKN_IDENT (word_lexer ''@ x'')" "CHR ''@''" "'' x''" 1000]
    by (simp del: lex_many.simps) blast
qed

lemma check_tokens_None:
  "check_tokens tbl r = None \<longleftrightarrow> (\<forall>e\<in>set tbl. take (length (fst e)) r \<noteq> fst e)"
  by (induction tbl r rule: check_tokens.induct) auto

lemma operator_chars_single: "list_all (\<lambda>c. [c] \<in> fst ` set operators1) operator_chars"
  by code_simp

lemma garbage_item:
  assumes "lex_item prev (c # r) = (Some t, 0)"
  shows "prev = TKN_IDENT \<and> garbage c"
proof -
  have no_empty: "w \<noteq> []" if "check_tokens operators3 (c # r) = Some (w, u) \<or>
      check_tokens (operators2 @ operators1) (c # r) = Some (w, u)" for w u
  proof -
    have "([], u) \<notin> set operators3" "([], u) \<notin> set operators2" "([], u) \<notin> set operators1"
      using operator_heads by fastforce+
    with that show ?thesis by (auto dest!: check_tokens_Some)
  qed
  have none: "check_tokens operators3 (c # r) = None" "check_tokens (operators2 @ operators1) (c # r) = None"
    and word: "word_item prev (c # r) = (Some t, 0)" and nw: "\<not> is_whitespace c"
    using assms no_empty by (auto simp: lex_item_def split: if_splits option.splits)
  have "c \<notin> set operator_chars"
  proof
    assume "c \<in> set operator_chars"
    then obtain e where "e \<in> set operators1" "fst e = [c]"
      using operator_chars_single by (force simp: list_all_iff)
    then have "e \<in> set (operators2 @ operators1)" "take (length (fst e)) (c # r) = fst e" by simp_all
    with none(2) show False unfolding check_tokens_None by blast
  qed
  with word nw ident_chars(1) show ?thesis
    by (auto simp: word_item_def garbage_def split: if_splits prod.splits)
qed

lemma lexer_moves:
  assumes "lexer_ok s" and "l_token s \<noteq> TKN_INVALID" and "l_token s \<noteq> TKN_EOF"
    and "lexer_next s = Inr s'" and "l_token s' \<noteq> TKN_EOF"
    and "l_token s = TKN_IDENT \<longrightarrow> \<not> garbage (hd (todo s))"
  shows "l_ptr s < l_ptr s'"
proof -
  obtain k t n where nt: "next_token (l_token s) (todo s) = (k, t, n)" by (metis prod_cases3)
  obtain s2 where s2: "lexer_next s = Inr s2" "l_token s2 = t" "l_ptr s2 = l_ptr s + k + n"
    by (rule lexer_next_refines [OF assms(1-3) nt]) simp
  with assms(4,5) have "t \<noteq> TKN_EOF" by simp
  then obtain c r where r: "todo s = c # r" using nt by (cases "todo s") (simp_all add: next_token.simps)
  obtain it m where item: "lex_item (l_token s) (c # r) = (it, m)" by fastforce
  have "0 < k + n"
  proof (cases it)
    case None
    with item nt r lex_item_skip [of "l_token s" "c # r" m] next_token_skipped [of "c # r"]
    show ?thesis by (auto split: prod.splits)
  next
    case (Some t')
    with item nt r have "k = 0" "n = m" by (simp_all add: next_token_item)
    moreover have "m \<noteq> 0" using garbage_item [of "l_token s" c r t'] item Some assms(6) r by auto
    ultimately show ?thesis by simp
  qed
  with s2 assms(4) show ?thesis by simp
qed

text \<open>
  C26: progress everywhere else. A call that returns a token moves forward, unless it starts
  right after an identifier at a character that starts no token. So the token stream of every
  other text is finite.
\<close>

theorem lexer_progress:
  assumes "lexer_ok s" and "l_token s \<noteq> TKN_INVALID" and "l_token s \<noteq> TKN_EOF"
    and "lexer_next s = Inr s'" and "l_token s' \<noteq> TKN_EOF"
    and "l_token s = TKN_IDENT \<longrightarrow> \<not> garbage (hd (todo s))"
  shows "l_ptr s < l_ptr s'"
  by (rule lexer_moves [OF assms])

theorem lexer_progress_witness: "l_ptr sample_lexer < 1"
  using lexer_progress [OF sample_lexer_ok _ _ sample_stuck] by (simp add: sample_todo)

lemma step_while_past:
  assumes "l_end s = length (l_mem s)" and "list_all p (rest_of s)"
  shows "step_while p s = Inl (Undefined ''read past the end of the buffer'')"
  using assms
proof (induction "length (l_mem s) - l_ptr s" arbitrary: s)
  case 0
  then show ?case by (simp add: step_while.simps [of p s] deref_def)
next
  case (Suc n)
  then have lt: "l_ptr s < length (l_mem s)" by simp
  then have rest: "rest_of s = l_mem s ! l_ptr s # rest_of (step1 s)"
    by (simp add: rest_of_def Cons_nth_drop_Suc)
  have "lexer_step s = Inr (step1 s)" using lt Suc.prems(1) by (simp add: lexer_step_inside)
  with Suc.hyps(1) [of "step1 s"] Suc.hyps(2) Suc.prems lt rest show ?case
    by (simp add: step_while.simps [of p s] deref_def)
qed

lemma word_past:
  assumes "l_end s = length (l_mem s)" and "rest_of s = w" and "w \<noteq> []" and "is_ident_start (hd w)" and "list_all is_ident w"
  shows "lexer_scan s = Inl (Undefined ''read past the end of the buffer'')"
proof -
  obtain c cs where w: "w = c # cs" using assms(3) by (cases w) auto
  note c = ident_start_char [OF assms(4) [unfolded w list.sel]]
  have lt: "l_ptr s < length (l_mem s)" using assms(2) w by (auto simp: rest_of_def intro: ccontr)
  then have at: "l_mem s ! l_ptr s = c" "rest_of (step1 s) = cs"
    using assms(2) w by (simp_all add: rest_of_def Cons_nth_drop_Suc [symmetric])
  let ?m = "mark_base s"
  have d: "deref s = Inr c" "deref ?m = Inr c" "rest_of ?m = c # cs"
    using lt at(1) assms(2) w by (simp_all add: deref_def rest_of_def)
  have step: "lexer_step ?m = Inr (step1 ?m)" using lt assms(1) by (simp add: lexer_step_inside)
  have "rest_of (step1 ?m) = cs" using at(2) by (simp add: rest_of_def)
  then have past: "step_while is_ident (step1 ?m) = Inl (Undefined ''read past the end of the buffer'')"
    using assms(1,5) w by (intro step_while_past) simp_all
  have ops: "check_tokens operators3 (c # cs) = None" "check_tokens operators2 (c # cs) = None"
    "check_tokens operators1 (c # cs) = None"
    using check_tokens_head c(1) operator_heads by blast+
  have slash: "c \<noteq> CHR ''/''" using c(1) by (auto simp: operator_chars_def)
  have word: "scan_word ?m = Inl (Undefined ''read past the end of the buffer'')"
    using assms(4) by (simp add: scan_word_def d c step past w)
  show ?thesis by (simp add: lexer_scan_def d c ops slash word Let_def)
qed

lemma blanks_past:
  assumes "l_end s = length (l_mem s)" and "rest_of s = ws @ w" and "list_all (\<lambda>c. is_whitespace c \<and> c \<noteq> newline) ws"
    and "w \<noteq> []" and "is_ident_start (hd w)" and "list_all is_ident w"
  shows "lexer_loop s = Inl (Undefined ''read past the end of the buffer'')"
  using assms(1-3)
proof (induction ws arbitrary: s)
  case Nil
  have "l_ptr s \<noteq> l_end s" using Nil(1,2) assms(4) by (auto simp: rest_of_def)
  with Nil show ?case using word_past [OF Nil(1) _ assms(4-6)] by (simp add: lexer_loop.simps [of s])
next
  case (Cons c ws)
  have lt: "l_ptr s < length (l_mem s)" using Cons.prems(2) by (auto simp: rest_of_def intro: ccontr)
  then have at: "l_mem s ! l_ptr s = c" "rest_of (step1 s) = ws @ w"
    using Cons.prems(2) by (simp_all add: rest_of_def Cons_nth_drop_Suc [symmetric])
  have "lexer_step s = Inr (step1 s)" using lt Cons.prems(1) by (simp add: lexer_step_inside)
  then have "lexer_scan s = Inr (step1 s, False)"
    using lt at(1) Cons.prems(3) by (simp add: lexer_scan_def deref_def scan_whitespace_def)
  moreover have "lexer_loop (step1 s) = Inl (Undefined ''read past the end of the buffer'')"
    by (rule Cons.IH) (use at(2) Cons.prems(1,3) in simp_all)
  ultimately show ?case using lt Cons.prems(1) by (simp add: lexer_loop.simps [of s])
qed

text \<open>
  C38: the loops over identifiers (and numbers) do not look at \<open>end\<close>. On a text that fills its
  mapping exactly, as a file does whose size is a multiple of the page size, the lexer reads past
  the mapping when it comes to an identifier at the end of the text: wherever it stands, with any
  token before, when only blanks and the identifier are left.
\<close>

theorem lexer_reads_past_unpadded:
  assumes "l_end s = length (l_mem s)" and "drop (l_ptr s) (l_mem s) = ws @ w"
    and "list_all (\<lambda>c. is_whitespace c \<and> c \<noteq> newline) ws" and "w \<noteq> []" and "is_ident_start (hd w)" and "list_all is_ident w"
    and "l_token s \<noteq> TKN_INVALID" and "l_token s \<noteq> TKN_EOF"
  shows "lexer_next s = Inl (Undefined ''read past the end of the buffer'')"
proof -
  have "l_ptr s \<le> l_end s" using assms(1,2,4) by (intro less_imp_le) (auto intro: ccontr)
  moreover have "lexer_loop s = Inl (Undefined ''read past the end of the buffer'')"
    using assms(1-6) by (intro blanks_past) (simp_all add: rest_of_def)
  ultimately show ?thesis using assms(7,8) by (simp add: lexer_next_def)
qed

theorem lexer_reads_past_unpadded_witness:
  "lexer_next ((lexer_init ''return abc'' 10 ''a.low'')\<lparr>l_ptr := 6, l_token := TKN_RETURN\<rparr>) =
     Inl (Undefined ''read past the end of the buffer'')"
  by (rule lexer_reads_past_unpadded [of _ "'' ''" "''abc''"]) (simp_all add: lexer_init_def, code_simp+)

text \<open>
  The table of token names agrees with the spellings the lexer accepts for every operator
  and keyword but one: the equality operator \<open>==\<close> is named \<open>=\<close>, like the assignment, so a
  diagnostic cannot tell them apart.
\<close>

theorem token_names_spell:
  "list_all (\<lambda>(w, t). if t = TKN_EQ_OP then w = ''=='' \<and> token_names ! t = Some ''=''
      else token_names ! t = Some w)
    (operators3 @ operators2 @ operators1 @ keyword_table) \<and> length token_names = MAX_TOKENS"
  by code_simp

end
