(* ===== verification/Ast.thy ===== *)
theory Ast
  imports Lexer
begin

section \<open>The syntax tree (src/ast.h)\<close>

text \<open>
  The structs of \<open>ast.h\<close>, a tagged union being a datatype with one constructor for each value
  of its \<open>kind\<close>. A pointer that owns its target is the target itself, an array with its count
  is a list, and a pointer that may be null is an \<open>option\<close>: statements may be null because the
  empty statement and the empty block reduce to a null pointer. The enumerations are
  datatypes. \<open>strct.name\<close>, which the sources never set or read, is left out.
  \<open>Member_Uninit\<close> is an interface member in fresh memory whose \<open>kind\<close> has not been written.
\<close>

subsection \<open>Types\<close>

datatype type_t = Type (type_pointer: u32) (type_kind: type_kind)
and type_kind =
    No_Type
  | Void_Type
  | Boolean_Type
  | Integer_Type u32
  | Float_Type u32
  | Func_Type type_t "type_t list"
  | Named_Type string
  | Struct_Type "struct_member list"
  | Array_Type type_t u32
  | Slice_Type type_t
  | Interface_Type "interface_member list"
  | Placeholder_Type
and struct_member = Struct_Member type_t string
and interface_member =
    Member_Field string type_t
  | Member_Func string type_t "type_t list"
  | Member_Uninit

subsection \<open>Expressions\<close>

datatype index_slice_kind = Slice_Range | Slice_Prefix | Slice_Postfix | Slice_Copy

datatype incdec_order = Order_Pre | Order_Post

datatype incdec_direction = Dir_Inc | Dir_Dec

datatype unary_op = Op_Address | Op_Deref | Op_Positive | Op_Negative | Op_Bitwise_Not | Op_Not

datatype lencap_kind = Lencap_Len | Lencap_Cap

datatype binary_op =
    Op_Add | Op_Sub | Op_Mul | Op_Div | Op_Mod | Op_Left | Op_Right | Op_Lt | Op_Gt | Op_Le | Op_Ge
  | Op_Eq | Op_Ne | Op_Bitwise_And | Op_Bitwise_Xor | Op_Bitwise_Or | Op_And | Op_Or

datatype assignment_op =
    Assign | Add_Assign | And_Assign | Div_Assign | Left_Assign | Mod_Assign | Mul_Assign
  | Or_Assign | Right_Assign | Sub_Assign | Xor_Assign

text \<open>
  The number literal keeps the bytes of its buffer, which need not hold a terminating NUL.
\<close>

datatype expr = Expr (expr_loc: loc) (expr_type: type_t) (expr_kind: expr_kind)
and expr_kind =
    Ident_Expr string
  | String_Literal_Expr string
  | Number_Literal_Expr string int
  | Index_Access_Expr expr expr
  | Index_Slice_Expr expr "expr option" "expr option" index_slice_kind
  | Call_Expr expr "expr list"
  | Member_Access_Expr expr string
  | Incdec_Expr expr incdec_order incdec_direction
  | Unary_Expr expr unary_op
  | Sizeof_Expr expr
  | Sizeof_Type type_t
  | Cast_Expr expr type_t
  | Binary_Expr expr expr binary_op
  | Conditional_Expr expr expr expr
  | Assignment_Expr expr expr assignment_op
  | Comma_Expr "expr list"
  | New_Builtin type_t "expr option"
  | Free_Builtin expr
  | Make_Builtin type_t expr
  | Lencap_Builtin lencap_kind expr
  | Dispose_Builtin expr

subsection \<open>Statements and declarations\<close>

record implementation_mapping =
  map_intf :: string
  map_func :: string

datatype decl = Decl (decl_loc: loc) (decl_kind: decl_kind)
and decl_kind =
    Variable_Decl type_t string "expr option"
  | Const_Decl string "type_t option" expr
  | Implementation_Decl type_t type_t "implementation_mapping list"

datatype stmt = Stmt (stmt_loc: loc) (stmt_kind: stmt_kind)
and stmt_kind =
    Expr_Stmt expr
  | Compound_Stmt "block_item list"
  | If_Stmt expr "stmt option" "stmt option"
  | Switch_Stmt expr "stmt option"
  | Do_Stmt "stmt option" expr
  | For_Stmt "expr option" "expr option" "expr option" "stmt option"
  | Goto_Stmt string
  | Continue_Stmt
  | Break_Stmt
  | Return_Stmt "expr option"
  | Label_Stmt string "stmt option"
  | Case_Stmt expr "stmt option"
  | Default_Stmt "stmt option"
and block_item =
    Stmt_Item "stmt option"
  | Decl_Item decl

subsection \<open>Units\<close>

record func_param =
  param_type :: type_t
  param_name :: "string option"

record func_unit =
  fu_return_type :: type_t
  fu_name :: string
  fu_body :: "stmt option"
  fu_params :: "func_param list"
  fu_variadic :: bool
  fu_type :: type_t

datatype unit_t = Unit (unit_loc: loc) (unit_kind: unit_kind)
and unit_kind =
    Import_Unit string
  | Decl_Unit decl
  | Func_Unit func_unit
  | Type_Unit type_t string
  | Package_Unit string

end
