(* ===== verification/Ast_Types.thy ===== *)
theory Ast_Types
  imports Ast
begin

section \<open>Comparing, copying and describing types (src/ast.c)\<close>

text \<open>
  \<open>type_equal\<close>, \<open>type_copy\<close> and \<open>type_describe\<close> as functions on the type trees, with every
  \<open>abort\<close> as a fault. A member of an interface whose kind has never been written is
  \<open>Member_Uninit\<close>; looking at it is undefined. The count fields are the lengths of the lists.
\<close>

subsection \<open>Equality\<close>

text \<open>
  The comparison of kinds comes first and makes types of different kinds differ; so the case
  of every kind looks only at a second type of the same kind.
\<close>

definition res_and :: "bool res \<Rightarrow> bool res \<Rightarrow> bool res" where
  "res_and a b = rbind a (\<lambda>x. if x then b else Inr False)"

lemma res_and_cong [fundef_cong]:
  "a = a' \<Longrightarrow> (a' = Inr True \<Longrightarrow> b = b') \<Longrightarrow> res_and a b = res_and a' b'"
  by (cases a') (auto simp: res_and_def)

lemma res_and_simps [simp]:
  "res_and (Inr True) b = b" "res_and (Inr False) b = Inr False" "res_and (Inl e) b = Inl e"
  by (simp_all add: res_and_def)

primrec type_equal :: "type_t \<Rightarrow> type_t \<Rightarrow> bool res"
and kind_equal :: "type_kind \<Rightarrow> type_kind \<Rightarrow> bool res"
and struct_member_equal :: "struct_member \<Rightarrow> struct_member \<Rightarrow> bool res"
and interface_member_equal :: "interface_member \<Rightarrow> interface_member \<Rightarrow> bool res"
and types_equal :: "type_t list \<Rightarrow> type_t list \<Rightarrow> bool res"
and struct_members_equal :: "struct_member list \<Rightarrow> struct_member list \<Rightarrow> bool res"
and interface_members_equal :: "interface_member list \<Rightarrow> interface_member list \<Rightarrow> bool res" where
  "type_equal (Type p k) = (\<lambda>b. if p \<noteq> type_pointer b then Inr False else kind_equal k (type_kind b))"
| "kind_equal No_Type = (\<lambda>b. Inr (b = No_Type))"
| "kind_equal Void_Type = (\<lambda>b. Inr (b = Void_Type))"
| "kind_equal Boolean_Type = (\<lambda>b. Inr (b = Boolean_Type))"
| "kind_equal Placeholder_Type = (\<lambda>b. Inr (b = Placeholder_Type))"
| "kind_equal (Integer_Type w) = (\<lambda>b. Inr (b = Integer_Type w))"
| "kind_equal (Float_Type w) = (\<lambda>b. Inr (b = Float_Type w))"
| "kind_equal (Named_Type n) = (\<lambda>b. Inr (b = Named_Type n))"
| "kind_equal (Func_Type r as) = (\<lambda>b. case b of
     Func_Type r' bs \<Rightarrow> if length as \<noteq> length bs then Inr False
       else res_and (type_equal r r') (types_equal as bs)
   | _ \<Rightarrow> Inr False)"
| "kind_equal (Struct_Type ms) = (\<lambda>b. case b of
     Struct_Type ns \<Rightarrow> if length ms \<noteq> length ns then Inr False else struct_members_equal ms ns
   | _ \<Rightarrow> Inr False)"
| "kind_equal (Slice_Type t) = (\<lambda>b. case b of Slice_Type u \<Rightarrow> type_equal t u | _ \<Rightarrow> Inr False)"
| "kind_equal (Array_Type t n) = (\<lambda>b. case b of
     Array_Type u m \<Rightarrow> if n = m then Inr True else type_equal t u
   | _ \<Rightarrow> Inr False)"
| "kind_equal (Interface_Type ms) = (\<lambda>b. case b of
     Interface_Type ns \<Rightarrow> if length ms \<noteq> length ns then Inr False else interface_members_equal ms ns
   | _ \<Rightarrow> Inr False)"
| "struct_member_equal (Struct_Member t n) = (\<lambda>b. case b of
     Struct_Member u m \<Rightarrow> if n \<noteq> m then Inr False else type_equal t u)"
| "interface_member_equal (Member_Field n t) = (\<lambda>b. case b of
     Member_Field m u \<Rightarrow> if n \<noteq> m then Inr False else type_equal t u
   | Member_Func _ _ _ \<Rightarrow> Inr False
   | Member_Uninit \<Rightarrow> Inl (Undefined ''read of an uninitialised member kind''))"
| "interface_member_equal (Member_Func n r as) = (\<lambda>b. case b of
     Member_Func m r' bs \<Rightarrow> if length as \<noteq> length bs then Inr False
       else if n \<noteq> m then Inr False
       else res_and (type_equal r r') (types_equal as bs)
   | Member_Field _ _ \<Rightarrow> Inr False
   | Member_Uninit \<Rightarrow> Inl (Undefined ''read of an uninitialised member kind''))"
| "interface_member_equal Member_Uninit =
     (\<lambda>b. Inl (Undefined ''read of an uninitialised member kind''))"
| "types_equal [] = (\<lambda>bs. Inr True)"
| "types_equal (a # as) = (\<lambda>bs. case bs of [] \<Rightarrow> Inr True
     | b # bs' \<Rightarrow> res_and (type_equal a b) (types_equal as bs'))"
| "struct_members_equal [] = (\<lambda>bs. Inr True)"
| "struct_members_equal (a # as) = (\<lambda>bs. case bs of [] \<Rightarrow> Inr True
     | b # bs' \<Rightarrow> res_and (struct_member_equal a b) (struct_members_equal as bs'))"
| "interface_members_equal [] = (\<lambda>bs. Inr True)"
| "interface_members_equal (a # as) = (\<lambda>bs. case bs of [] \<Rightarrow> Inr True
     | b # bs' \<Rightarrow> res_and (interface_member_equal a b) (interface_members_equal as bs'))"


subsection \<open>Classes of types\<close>

text \<open>
  \<open>type_init\<close>: every member of every interface in the type has been initialised.
  \<open>type_arrayless\<close>: no array type occurs in it. \<open>type_memberless\<close>: its interfaces are empty.
\<close>

primrec type_init :: "type_t \<Rightarrow> bool" and kind_init :: "type_kind \<Rightarrow> bool"
and struct_member_init :: "struct_member \<Rightarrow> bool" and interface_member_init :: "interface_member \<Rightarrow> bool" where
  "type_init (Type p k) = kind_init k"
| "kind_init No_Type = True"
| "kind_init Void_Type = True"
| "kind_init Boolean_Type = True"
| "kind_init Placeholder_Type = True"
| "kind_init (Integer_Type w) = True"
| "kind_init (Float_Type w) = True"
| "kind_init (Named_Type n) = True"
| "kind_init (Func_Type r as) = (type_init r \<and> list_all id (map type_init as))"
| "kind_init (Struct_Type ms) = list_all id (map struct_member_init ms)"
| "kind_init (Slice_Type t) = type_init t"
| "kind_init (Array_Type t n) = type_init t"
| "kind_init (Interface_Type ms) = list_all id (map interface_member_init ms)"
| "struct_member_init (Struct_Member t n) = type_init t"
| "interface_member_init (Member_Field n t) = type_init t"
| "interface_member_init (Member_Func n r as) = (type_init r \<and> list_all id (map type_init as))"
| "interface_member_init Member_Uninit = False"

primrec type_arrayless :: "type_t \<Rightarrow> bool" and kind_arrayless :: "type_kind \<Rightarrow> bool"
and struct_member_arrayless :: "struct_member \<Rightarrow> bool"
and interface_member_arrayless :: "interface_member \<Rightarrow> bool" where
  "type_arrayless (Type p k) = kind_arrayless k"
| "kind_arrayless No_Type = True"
| "kind_arrayless Void_Type = True"
| "kind_arrayless Boolean_Type = True"
| "kind_arrayless Placeholder_Type = True"
| "kind_arrayless (Integer_Type w) = True"
| "kind_arrayless (Float_Type w) = True"
| "kind_arrayless (Named_Type n) = True"
| "kind_arrayless (Func_Type r as) = (type_arrayless r \<and> list_all id (map type_arrayless as))"
| "kind_arrayless (Struct_Type ms) = list_all id (map struct_member_arrayless ms)"
| "kind_arrayless (Slice_Type t) = type_arrayless t"
| "kind_arrayless (Array_Type t n) = False"
| "kind_arrayless (Interface_Type ms) = list_all id (map interface_member_arrayless ms)"
| "struct_member_arrayless (Struct_Member t n) = type_arrayless t"
| "interface_member_arrayless (Member_Field n t) = type_arrayless t"
| "interface_member_arrayless (Member_Func n r as) = (type_arrayless r \<and> list_all id (map type_arrayless as))"
| "interface_member_arrayless Member_Uninit = True"

primrec type_memberless :: "type_t \<Rightarrow> bool" and kind_memberless :: "type_kind \<Rightarrow> bool"
and struct_member_memberless :: "struct_member \<Rightarrow> bool" where
  "type_memberless (Type p k) = kind_memberless k"
| "kind_memberless No_Type = True"
| "kind_memberless Void_Type = True"
| "kind_memberless Boolean_Type = True"
| "kind_memberless Placeholder_Type = True"
| "kind_memberless (Integer_Type w) = True"
| "kind_memberless (Float_Type w) = True"
| "kind_memberless (Named_Type n) = True"
| "kind_memberless (Func_Type r as) = (type_memberless r \<and> list_all id (map type_memberless as))"
| "kind_memberless (Struct_Type ms) = list_all id (map struct_member_memberless ms)"
| "kind_memberless (Slice_Type t) = type_memberless t"
| "kind_memberless (Array_Type t n) = type_memberless t"
| "kind_memberless (Interface_Type ms) = (ms = [])"
| "struct_member_memberless (Struct_Member t n) = type_memberless t"

lemma list_all_id_map [simp]: "list_all id (map f xs) = list_all f xs"
  by (simp add: list.pred_map comp_def)

subsection \<open>Copying\<close>

text \<open>
  \<open>*dst = *src\<close> copies the node itself; what it owns is copied for each kind. For the members
  of an interface the code allocates fresh memory and sets \<open>name\<close>, \<open>type\<close>, \<open>return_type\<close> and
  \<open>args\<close>, but never \<open>kind\<close> and \<open>num_args\<close>.
\<close>

primrec type_copy :: "type_t \<Rightarrow> type_t res" and kind_copy :: "type_kind \<Rightarrow> type_kind res"
and struct_member_copy :: "struct_member \<Rightarrow> struct_member res"
and interface_member_copy :: "interface_member \<Rightarrow> interface_member res"
and types_copy :: "type_t list \<Rightarrow> type_t list res"
and struct_members_copy :: "struct_member list \<Rightarrow> struct_member list res"
and interface_members_copy :: "interface_member list \<Rightarrow> interface_member list res" where
  "type_copy (Type p k) = rbind (kind_copy k) (\<lambda>k'. Inr (Type p k'))"
| "kind_copy No_Type = Inr No_Type"
| "kind_copy Void_Type = Inr Void_Type"
| "kind_copy Boolean_Type = Inr Boolean_Type"
| "kind_copy Placeholder_Type = Inr Placeholder_Type"
| "kind_copy (Integer_Type w) = Inr (Integer_Type w)"
| "kind_copy (Float_Type w) = Inr (Float_Type w)"
| "kind_copy (Named_Type n) = Inr (Named_Type n)"
| "kind_copy (Func_Type r as) =
     rbind (type_copy r) (\<lambda>r'. rbind (types_copy as) (\<lambda>as'. Inr (Func_Type r' as')))"
| "kind_copy (Struct_Type ms) = rbind (struct_members_copy ms) (\<lambda>ms'. Inr (Struct_Type ms'))"
| "kind_copy (Array_Type t n) = rbind (type_copy t) (\<lambda>t'. Inr (Array_Type t' n))"
| "kind_copy (Slice_Type t) = rbind (type_copy t) (\<lambda>t'. Inr (Slice_Type t'))"
| "kind_copy (Interface_Type ms) = rbind (interface_members_copy ms) (\<lambda>ms'. Inr (Interface_Type ms'))"
| "struct_member_copy (Struct_Member t n) = rbind (type_copy t) (\<lambda>t'. Inr (Struct_Member t' n))"
| "interface_member_copy (Member_Field n t) = rbind (type_copy t) (\<lambda>_. Inr Member_Uninit)"
| "interface_member_copy (Member_Func n r as) =
     rbind (type_copy r) (\<lambda>_. rbind (types_copy as) (\<lambda>_. Inr Member_Uninit))"
| "interface_member_copy Member_Uninit = Inl (Undefined ''read of an uninitialised member kind'')"
| "types_copy [] = Inr []"
| "types_copy (a # as) = rbind (type_copy a) (\<lambda>b. rbind (types_copy as) (\<lambda>bs. Inr (b # bs)))"
| "struct_members_copy [] = Inr []"
| "struct_members_copy (a # as) =
     rbind (struct_member_copy a) (\<lambda>b. rbind (struct_members_copy as) (\<lambda>bs. Inr (b # bs)))"
| "interface_members_copy [] = Inr []"
| "interface_members_copy (a # as) =
     rbind (interface_member_copy a) (\<lambda>b. rbind (interface_members_copy as) (\<lambda>bs. Inr (b # bs)))"


subsection \<open>Lemmas\<close>

lemmas types_induct =
  type_t.induct type_kind.induct struct_member.induct interface_member.induct

lemma types_equal_refl: "\<forall>x\<in>set as. type_equal x x = Inr True \<Longrightarrow> types_equal as as = Inr True"
  by (induction as) auto

lemma struct_members_equal_refl:
  "\<forall>x\<in>set ms. struct_member_equal x x = Inr True \<Longrightarrow> struct_members_equal ms ms = Inr True"
  by (induction ms) auto

lemma interface_members_equal_refl:
  "\<forall>x\<in>set ms. interface_member_equal x x = Inr True \<Longrightarrow> interface_members_equal ms ms = Inr True"
  by (induction ms) auto

lemmas all_equal_refl = types_equal_refl struct_members_equal_refl interface_members_equal_refl

lemma type_equal_refl_all:
  "type_init t \<longrightarrow> type_equal t t = Inr True"
  "kind_init k \<longrightarrow> kind_equal k k = Inr True"
  "struct_member_init m \<longrightarrow> struct_member_equal m m = Inr True"
  "interface_member_init i \<longrightarrow> interface_member_equal i i = Inr True"
  by (induction t and k and m and i rule: types_induct)
    (auto simp: list_all_iff intro!: all_equal_refl)

text \<open>Without arrays, comparing decides equality of the trees.\<close>

lemma types_equal_decides:
  "\<forall>x\<in>set as. \<forall>y\<in>set bs. type_equal x y = Inr (x = y) \<Longrightarrow> length as = length bs \<Longrightarrow>
    types_equal as bs = Inr (as = bs)"
proof (induction as arbitrary: bs)
  case (Cons a as)
  then show ?case by (cases bs) (auto simp: res_and_def)
qed simp

lemma struct_members_equal_decides:
  "\<forall>x\<in>set as. \<forall>y\<in>set bs. struct_member_equal x y = Inr (x = y) \<Longrightarrow> length as = length bs \<Longrightarrow>
    struct_members_equal as bs = Inr (as = bs)"
proof (induction as arbitrary: bs)
  case (Cons a as)
  then show ?case by (cases bs) (auto simp: res_and_def)
qed simp

lemma interface_members_equal_decides:
  "\<forall>x\<in>set as. \<forall>y\<in>set bs. interface_member_equal x y = Inr (x = y) \<Longrightarrow> length as = length bs \<Longrightarrow>
    interface_members_equal as bs = Inr (as = bs)"
proof (induction as arbitrary: bs)
  case (Cons a as)
  then show ?case by (cases bs) (auto simp: res_and_def)
qed simp

lemma type_equal_decides_all:
  "type_init t \<and> type_arrayless t \<longrightarrow>
    (\<forall>u. type_init u \<and> type_arrayless u \<longrightarrow> type_equal t u = Inr (t = u))"
  "kind_init k \<and> kind_arrayless k \<longrightarrow>
    (\<forall>l. kind_init l \<and> kind_arrayless l \<longrightarrow> kind_equal k l = Inr (k = l))"
  "struct_member_init m \<and> struct_member_arrayless m \<longrightarrow>
    (\<forall>n. struct_member_init n \<and> struct_member_arrayless n \<longrightarrow> struct_member_equal m n = Inr (m = n))"
  "interface_member_init i \<and> interface_member_arrayless i \<longrightarrow>
    (\<forall>j. interface_member_init j \<and> interface_member_arrayless j \<longrightarrow>
      interface_member_equal i j = Inr (i = j))"
proof (induction t and k and m and i rule: types_induct)
  case (Type p k)
  show ?case
  proof (intro impI allI)
    fix u assume "type_init (Type p k) \<and> type_arrayless (Type p k)" "type_init u \<and> type_arrayless u"
    with Type show "type_equal (Type p k) u = Inr (Type p k = u)" by (cases u) auto
  qed
next
  case (Func_Type r as)
  then show ?case
    by (auto simp: list_all_iff res_and_def types_equal_decides split: type_kind.splits)
next
  case (Struct_Type ms)
  then show ?case
    by (auto simp: list_all_iff struct_members_equal_decides split: type_kind.splits)
next
  case (Interface_Type ms)
  then show ?case
    by (auto simp: list_all_iff interface_members_equal_decides split: type_kind.splits)
next
  case (Struct_Member t n)
  then show ?case by (auto split: struct_member.splits)
next
  case (Member_Field n t)
  then show ?case by (auto split: interface_member.splits)
next
  case (Member_Func n r as)
  then show ?case
    by (auto simp: list_all_iff res_and_def types_equal_decides split: interface_member.splits)
qed (auto split: type_kind.splits)

lemma types_copy_same: "\<forall>x\<in>set as. type_copy x = Inr x \<Longrightarrow> types_copy as = Inr as"
  by (induction as) auto

lemma struct_members_copy_same:
  "\<forall>x\<in>set ms. struct_member_copy x = Inr x \<Longrightarrow> struct_members_copy ms = Inr ms"
  by (induction ms) auto

lemma type_copy_same_all:
  "type_memberless t \<longrightarrow> type_copy t = Inr t"
  "kind_memberless k \<longrightarrow> kind_copy k = Inr k"
  "struct_member_memberless m \<longrightarrow> struct_member_copy m = Inr m"
  "i = (i :: interface_member)"
  by (induction t and k and m and i rule: types_induct)
    (auto simp: list_all_iff types_copy_same struct_members_copy_same)

lemma interface_members_copy_uninit:
  "interface_members_copy ms = Inr ms' \<Longrightarrow> ms' = replicate (length ms) Member_Uninit"
proof (induction ms arbitrary: ms')
  case (Cons m ms)
  then show ?case by (cases m) (auto simp: rbind_Inr_conv)
qed simp


subsection \<open>Describing\<close>

fun dec_nat :: "nat \<Rightarrow> string" where
  "dec_nat n = (if n < 10 then [char_of (48 + n)] else dec_nat (n div 10) @ [char_of (48 + n mod 10)])"

declare dec_nat.simps [simp del]

text \<open>The conversion \<open>%d\<close> applied to an unsigned argument.\<close>

definition format_d :: "u32 \<Rightarrow> string" where
  "format_d w = (if sint w < 0 then CHR ''-'' # dec_nat (nat (- sint w)) else dec_nat (nat (sint w)))"

definition add_pointers :: "u32 \<Rightarrow> string \<Rightarrow> string" where
  "add_pointers p s = replicate (unat p) CHR ''*'' @ s"

text \<open>The arguments of a function, each after the first with a comma before it.\<close>

primrec type_describe :: "type_t \<Rightarrow> string res" and kind_describe :: "type_kind \<Rightarrow> u32 \<Rightarrow> string res"
and args_describe :: "type_t list \<Rightarrow> bool \<Rightarrow> string res" where
  "type_describe (Type p k) = rbind (kind_describe k p) (\<lambda>s. Inr (add_pointers p s))"
| "kind_describe No_Type = (\<lambda>p. Inl (Aborted ''type_describe for type kind not implemented''))"
| "kind_describe Void_Type = (\<lambda>p. Inr ''void'')"
| "kind_describe Boolean_Type = (\<lambda>p. Inr ''bool'')"
| "kind_describe (Integer_Type w) = (\<lambda>p. Inr (''int'' @ format_d w))"
| "kind_describe (Float_Type w) = (\<lambda>p. Inr (''float'' @ format_d w))"
| "kind_describe (Func_Type r as) = (\<lambda>p.
     rbind (args_describe as True) (\<lambda>args. rbind (type_describe r) (\<lambda>ret.
       let s = ''func('' @ args @ '') '' @ ret in
       Inr (if 0 < p then ''('' @ s @ '')'' else s))))"
| "kind_describe (Named_Type n) = (\<lambda>p. Inr n)"
| "kind_describe (Struct_Type ms) = (\<lambda>p. Inr ''struct{...}'')"
| "kind_describe (Array_Type t n) = (\<lambda>p. rbind (type_describe t) (\<lambda>s. Inr (''['' @ format_d n @ '']'' @ s)))"
| "kind_describe (Slice_Type t) = (\<lambda>p. rbind (type_describe t) (\<lambda>s. Inr (''[]'' @ s)))"
| "kind_describe (Interface_Type ms) = (\<lambda>p.
     Inr (if length ms = 0 then ''interface{}'' else ''interface{...}''))"
| "kind_describe Placeholder_Type = (\<lambda>p. Inr ''#'')"
| "args_describe [] = (\<lambda>first_arg. Inr [])"
| "args_describe (t # ts) = (\<lambda>first_arg. rbind (type_describe t) (\<lambda>s.
     rbind (args_describe ts False) (\<lambda>rest. Inr ((if first_arg then s else '', '' @ s) @ rest))))"

text \<open>The types \<open>type_describe\<close> can print: what it visits has a kind.\<close>

primrec describable :: "type_t \<Rightarrow> bool" and kind_describable :: "type_kind \<Rightarrow> bool" where
  "describable (Type p k) = kind_describable k"
| "kind_describable No_Type = False"
| "kind_describable Void_Type = True"
| "kind_describable Boolean_Type = True"
| "kind_describable (Integer_Type w) = True"
| "kind_describable (Float_Type w) = True"
| "kind_describable (Func_Type r as) = (describable r \<and> list_all id (map describable as))"
| "kind_describable (Named_Type n) = True"
| "kind_describable (Struct_Type ms) = True"
| "kind_describable (Array_Type t n) = describable t"
| "kind_describable (Slice_Type t) = describable t"
| "kind_describable (Interface_Type ms) = True"
| "kind_describable Placeholder_Type = True"

lemma returns_rbind [simp]:
  "returns (rbind m (\<lambda>x. Inr (g x))) \<longleftrightarrow> returns m"
  "returns (rbind m (\<lambda>x. rbind m' (\<lambda>y. Inr (h x y)))) \<longleftrightarrow> returns m \<and> returns m'"
  by (cases m; cases m'; simp)+

lemma args_describe_returns:
  "\<forall>x\<in>set as. returns (type_describe x) = describable x \<Longrightarrow>
    returns (args_describe as b) \<longleftrightarrow> list_all describable as"
  by (induction as arbitrary: b) auto

lemma describe_returns_all:
  "returns (type_describe t) = describable t"
  "\<forall>p. returns (kind_describe k p) = kind_describable k"
  "m = (m :: struct_member)"
  "i = (i :: interface_member)"
proof (induction t and k and m and i rule: types_induct)
  case (Func_Type r as)
  then have "returns (args_describe as True) = list_all describable as"
    by (simp add: args_describe_returns)
  with Func_Type show ?case by (auto simp: Let_def)
qed auto

subsection \<open>Properties\<close>

text \<open>
  C25: on initialised types without arrays \<open>type_equal\<close> decides structural equality: it answers
  true exactly on equal trees and never fails, for functions, structs, slices and interfaces of
  any depth.
\<close>

theorem type_equal_decides:
  assumes "type_init t" and "type_arrayless t" and "type_init u" and "type_arrayless u"
  shows "type_equal t u = Inr (t = u)"
  using type_equal_decides_all(1) [of t] assms by blast

theorem type_equal_decides_witness:
  "type_equal (Type 1 (Func_Type (Type 0 Void_Type) [Type 0 (Integer_Type 8)]))
    (Type 1 (Func_Type (Type 0 Void_Type) [Type 0 (Integer_Type 16)])) = Inr False"
  by (subst type_equal_decides) simp_all

text \<open>
  On array types \<open>type_equal\<close> is not an equivalence: it asks for equal lengths or equal
  element types, so arrays of the same length are equal whatever their elements are, arrays of
  the same element type are equal whatever their lengths are, and transitivity fails.
\<close>

theorem type_equal_confuses_arrays:
  "type_equal (Type p (Array_Type t n)) (Type p (Array_Type u n)) = Inr True \<and>
   type_equal (Type p (Array_Type (Type q (Integer_Type w)) n)) (Type p (Array_Type (Type q (Integer_Type w)) m)) = Inr True \<and>
   (\<exists>a b c. type_equal a b = Inr True \<and> type_equal b c = Inr True \<and> type_equal a c = Inr False)"
proof -
  let ?a = "Type 0 (Array_Type (Type 0 (Integer_Type 8)) 2)"
  let ?b = "Type 0 (Array_Type (Type 0 (Integer_Type 16)) 2)"
  let ?c = "Type 0 (Array_Type (Type 0 (Integer_Type 16)) 3)"
  have "type_equal ?a ?b = Inr True" "type_equal ?b ?c = Inr True" "type_equal ?a ?c = Inr False"
    by simp_all
  then have "\<exists>a b c. type_equal a b = Inr True \<and> type_equal b c = Inr True \<and> type_equal a c = Inr False"
    by blast
  then show ?thesis by simp
qed

text \<open>The value of the copy: the type itself, as long as no interface has members.\<close>

lemma type_copy_value: "type_memberless t \<Longrightarrow> type_copy t = Inr t"
  using type_copy_same_all(1) [of t] by blast

text \<open>
  The copy of an interface with members is unusable: the kinds of its members are never
  written, so comparing the copy with anything of as many members is undefined.
\<close>

theorem type_copy_interface_uninit:
  assumes "type_copy (Type p (Interface_Type (m # ms))) = Inr t" and "length ns = length ms"
  shows "type_equal t (Type p (Interface_Type (n # ns))) =
    Inl (Undefined ''read of an uninitialised member kind'')"
proof -
  from assms(1) obtain ms' where ms': "interface_members_copy (m # ms) = Inr ms'"
    "t = Type p (Interface_Type ms')" by (auto simp: rbind_Inr_conv)
  have "ms' = Member_Uninit # replicate (length ms) Member_Uninit"
    using interface_members_copy_uninit [OF ms'(1)] by simp
  with ms'(2) assms(2) show ?thesis by simp
qed

theorem type_copy_interface_uninit_witness:
  "type_equal (Type 0 (Interface_Type [Member_Uninit]))
    (Type 0 (Interface_Type [Member_Field ''x'' (Type 0 Void_Type)])) =
    Inl (Undefined ''read of an uninitialised member kind'')"
  by (rule type_copy_interface_uninit [of 0 "Member_Field ''x'' (Type 0 Void_Type)" "[]"]) simp_all

text \<open>
  \<open>type_describe\<close> returns a description exactly for the types in which everything it visits
  has a kind, and aborts on all others.
\<close>

theorem type_describe_returns: "returns (type_describe t) \<longleftrightarrow> describable t"
  by (rule describe_returns_all(1))

end
