(* ===== verification/Ast_Dispose.thy ===== *)
theory Ast_Dispose
  imports Ast_Types "HOL-Library.Sublist"
begin

section \<open>Disposing of the syntax tree (src/ast.c)\<close>

text \<open>
  The \<open>_dispose\<close> functions as the sequence of the blocks they free. A block is named by the path
  of fields and elements that leads to it from the struct that is disposed of. Against them stands
  the layout of \<open>ast.h\<close>: the blocks a tree owns. Everything that is freed is freed once, the
  contents of a block before the block, and what is left over is known.
\<close>

subsection \<open>Paths and frees\<close>

datatype step = Fld string | Elt nat

type_synonym path = "step list"

text \<open>
  The statements of a dispose function: the disposal of what a field holds or points to, and
  \<open>free\<close> of a pointer, with whether it is not null.
\<close>

datatype dispose_op = Sub string "path list res" | Free string bool

fun dispose_run :: "dispose_op list \<Rightarrow> path list res" where
  "dispose_run [] = Inr []"
| "dispose_run (Sub f m # ops) =
     rbind m (\<lambda>ps. rbind (dispose_run ops) (\<lambda>qs. Inr (map ((#) (Fld f)) ps @ qs)))"
| "dispose_run (Free f b # ops) = rbind (dispose_run ops) (\<lambda>qs. Inr (if b then [Fld f] # qs else qs))"

text \<open>The loop over an array of structs.\<close>

fun dispose_vec :: "nat \<Rightarrow> path list res list \<Rightarrow> path list res" where
  "dispose_vec i [] = Inr []"
| "dispose_vec i (m # ms) =
     rbind m (\<lambda>ps. rbind (dispose_vec (Suc i) ms) (\<lambda>qs. Inr (map ((#) (Elt i)) ps @ qs)))"

definition dispose_ptr :: "path list res option \<Rightarrow> path list res" where
  "dispose_ptr p = (case p of None \<Rightarrow> Inr [] | Some m \<Rightarrow> m)"

subsection \<open>The functions\<close>

primrec type_dispose :: "type_t \<Rightarrow> path list res" and kind_dispose :: "type_kind \<Rightarrow> path list res"
and struct_member_dispose :: "struct_member \<Rightarrow> path list res"
and interface_member_dispose :: "interface_member \<Rightarrow> path list res" where
  "type_dispose (Type p k) = kind_dispose k"
| "kind_dispose No_Type = Inl (Aborted ''type_dispose for type kind not implemented'')"
| "kind_dispose Void_Type = Inr []"
| "kind_dispose Boolean_Type = Inr []"
| "kind_dispose (Integer_Type w) = Inr []"
| "kind_dispose (Float_Type w) = Inr []"
| "kind_dispose Placeholder_Type = Inr []"
| "kind_dispose (Func_Type r as) = dispose_run [Sub ''return_type'' (type_dispose r),
     Sub ''args'' (dispose_vec 0 (map type_dispose as)), Free ''return_type'' True, Free ''args'' True]"
| "kind_dispose (Named_Type n) = dispose_run [Free ''name'' True]"
| "kind_dispose (Struct_Type ms) = dispose_run [Sub ''members'' (dispose_vec 0 (map struct_member_dispose ms)),
     Free ''members'' True]"
| "kind_dispose (Array_Type t n) = dispose_run [Sub ''type'' (type_dispose t), Free ''type'' True]"
| "kind_dispose (Slice_Type t) = dispose_run [Sub ''type'' (type_dispose t), Free ''type'' True]"
| "kind_dispose (Interface_Type ms) = dispose_run [Sub ''members'' (dispose_vec 0 (map interface_member_dispose ms)),
     Free ''members'' True]"
| "struct_member_dispose (Struct_Member t n) =
     dispose_run [Sub ''type'' (type_dispose t), Free ''type'' True, Free ''name'' True]"
| "interface_member_dispose (Member_Field n t) =
     dispose_run [Sub ''type'' (type_dispose t), Free ''name'' True, Free ''type'' True]"
| "interface_member_dispose (Member_Func n r as) = dispose_run [Sub ''return_type'' (type_dispose r),
     Sub ''args'' (dispose_vec 0 (map type_dispose as)),
     Free ''name'' True, Free ''return_type'' True, Free ''args'' True]"
| "interface_member_dispose Member_Uninit = Inl (Undefined ''read of an uninitialised member kind'')"

primrec expr_dispose :: "expr \<Rightarrow> path list res" and expr_kind_dispose :: "expr_kind \<Rightarrow> path list res" where
  "expr_dispose (Expr l t k) = expr_kind_dispose k"
| "expr_kind_dispose (Ident_Expr n) = dispose_run [Free ''ident'' True]"
| "expr_kind_dispose (String_Literal_Expr s) = dispose_run [Free ''string_literal'' True]"
| "expr_kind_dispose (Number_Literal_Expr s r) = dispose_run [Free ''literal'' True]"
| "expr_kind_dispose (Index_Access_Expr t i) = dispose_run [Sub ''target'' (expr_dispose t),
     Sub ''index'' (expr_dispose i), Free ''target'' True, Free ''index'' True]"
| "expr_kind_dispose (Index_Slice_Expr t s e k) = dispose_run [Sub ''target'' (expr_dispose t),
     Sub ''start'' (dispose_ptr (map_option expr_dispose s)), Sub ''end'' (dispose_ptr (map_option expr_dispose e)),
     Free ''target'' True, Free ''start'' (s \<noteq> None), Free ''end'' (e \<noteq> None)]"
| "expr_kind_dispose (Call_Expr t as) = dispose_run [Sub ''target'' (expr_dispose t),
     Sub ''args'' (dispose_vec 0 (map expr_dispose as)), Free ''target'' True, Free ''args'' True]"
| "expr_kind_dispose (Member_Access_Expr t n) = dispose_run [Sub ''target'' (expr_dispose t),
     Free ''target'' True, Free ''name'' True]"
| "expr_kind_dispose (Incdec_Expr t ord d) = dispose_run [Sub ''target'' (expr_dispose t), Free ''target'' True]"
| "expr_kind_dispose (Unary_Expr t op) = dispose_run [Sub ''target'' (expr_dispose t), Free ''target'' True]"
| "expr_kind_dispose (Sizeof_Expr e) = dispose_run [Sub ''expr'' (expr_dispose e), Free ''expr'' True]"
| "expr_kind_dispose (Sizeof_Type t) = dispose_run [Sub ''type'' (type_dispose t)]"
| "expr_kind_dispose (Cast_Expr e t) = dispose_run [Sub ''target'' (expr_dispose e), Sub ''type'' (type_dispose t),
     Free ''target'' True]"
| "expr_kind_dispose (Binary_Expr a b op) = dispose_run [Sub ''lhs'' (expr_dispose a), Sub ''rhs'' (expr_dispose b),
     Free ''lhs'' True, Free ''rhs'' True]"
| "expr_kind_dispose (Conditional_Expr c a b) = dispose_run [Sub ''condition'' (expr_dispose c),
     Sub ''true_expr'' (expr_dispose a), Sub ''false_expr'' (expr_dispose b),
     Free ''condition'' True, Free ''true_expr'' True, Free ''false_expr'' True]"
| "expr_kind_dispose (Assignment_Expr t e op) = dispose_run [Sub ''target'' (expr_dispose t),
     Sub ''expr'' (expr_dispose e), Free ''target'' True, Free ''expr'' True]"
| "expr_kind_dispose (Comma_Expr es) = dispose_run [Sub ''exprs'' (dispose_vec 0 (map expr_dispose es)),
     Free ''exprs'' True]"
| "expr_kind_dispose (New_Builtin t e) = dispose_run [Sub ''type'' (type_dispose t)]"
| "expr_kind_dispose (Free_Builtin e) = dispose_run [Sub ''expr'' (expr_dispose e), Free ''expr'' True]"
| "expr_kind_dispose (Make_Builtin t e) = dispose_run [Sub ''type'' (type_dispose t), Sub ''expr'' (expr_dispose e),
     Free ''expr'' True]"
| "expr_kind_dispose (Lencap_Builtin k e) = dispose_run [Sub ''expr'' (expr_dispose e), Free ''expr'' True]"
| "expr_kind_dispose (Dispose_Builtin e) = dispose_run [Sub ''expr'' (expr_dispose e), Free ''expr'' True]"

definition mapping_dispose :: "implementation_mapping \<Rightarrow> path list res" where
  "mapping_dispose m = dispose_run [Free ''intf'' True, Free ''func'' True]"

fun decl_dispose :: "decl \<Rightarrow> path list res" where
  "decl_dispose (Decl l (Variable_Decl t n e)) = dispose_run [Sub ''type'' (type_dispose t),
     Sub ''initial'' (dispose_ptr (map_option expr_dispose e)), Free ''name'' True, Free ''initial'' (e \<noteq> None)]"
| "decl_dispose (Decl l (Const_Decl n t e)) = dispose_run [Sub ''type'' (dispose_ptr (map_option type_dispose t)),
     Sub ''value'' (expr_dispose e), Free ''name'' True, Free ''type'' (t \<noteq> None)]"
| "decl_dispose (Decl l (Implementation_Decl i t ms)) = dispose_run [Sub ''interface'' (type_dispose i),
     Sub ''target'' (type_dispose t), Free ''interface'' True, Free ''target'' True,
     Sub ''mappings'' (dispose_vec 0 (map mapping_dispose ms)), Free ''mappings'' True]"

primrec stmt_dispose :: "stmt \<Rightarrow> path list res" and stmt_kind_dispose :: "stmt_kind \<Rightarrow> path list res"
and block_item_dispose :: "block_item \<Rightarrow> path list res" where
  "stmt_dispose (Stmt l k) = stmt_kind_dispose k"
| "stmt_kind_dispose (Expr_Stmt e) = dispose_run [Sub ''stmt.expr'' (expr_dispose e)]"
| "stmt_kind_dispose (Compound_Stmt is) = dispose_run [Sub ''items'' (dispose_vec 0 (map block_item_dispose is)),
     Free ''items'' True]"
| "stmt_kind_dispose (If_Stmt c s e) = dispose_run [Sub ''condition'' (expr_dispose c),
     Sub ''stmt'' (dispose_ptr (map_option stmt_dispose s)), Sub ''else_stmt'' (dispose_ptr (map_option stmt_dispose e)),
     Free ''condition'' True, Free ''stmt'' (s \<noteq> None), Free ''else_stmt'' (e \<noteq> None)]"
| "stmt_kind_dispose (Switch_Stmt c s) = dispose_run [Sub ''condition'' (expr_dispose c),
     Sub ''stmt'' (dispose_ptr (map_option stmt_dispose s)), Sub ''else_stmt'' (dispose_ptr None),
     Free ''condition'' True, Free ''stmt'' (s \<noteq> None), Free ''else_stmt'' False]"
| "stmt_kind_dispose (Do_Stmt s c) = dispose_run [Sub ''initial'' (dispose_ptr None),
     Sub ''condition'' (expr_dispose c), Sub ''step'' (dispose_ptr None),
     Sub ''stmt'' (dispose_ptr (map_option stmt_dispose s)),
     Free ''initial'' False, Free ''condition'' True, Free ''step'' False, Free ''stmt'' (s \<noteq> None)]"
| "stmt_kind_dispose (For_Stmt i c u s) = dispose_run [Sub ''initial'' (dispose_ptr (map_option expr_dispose i)),
     Sub ''condition'' (dispose_ptr (map_option expr_dispose c)), Sub ''step'' (dispose_ptr (map_option expr_dispose u)),
     Sub ''stmt'' (dispose_ptr (map_option stmt_dispose s)),
     Free ''initial'' (i \<noteq> None), Free ''condition'' (c \<noteq> None), Free ''step'' (u \<noteq> None), Free ''stmt'' (s \<noteq> None)]"
| "stmt_kind_dispose (Goto_Stmt n) = dispose_run [Free ''name'' True]"
| "stmt_kind_dispose Continue_Stmt = dispose_run []"
| "stmt_kind_dispose Break_Stmt = dispose_run []"
| "stmt_kind_dispose (Return_Stmt e) = dispose_run [Sub ''expr'' (dispose_ptr (map_option expr_dispose e)),
     Free ''expr'' (e \<noteq> None)]"
| "stmt_kind_dispose (Label_Stmt n s) = dispose_run [Sub ''stmt'' (dispose_ptr (map_option stmt_dispose s)),
     Free ''name'' True, Free ''stmt'' (s \<noteq> None)]"
| "stmt_kind_dispose (Case_Stmt e s) = dispose_run [Sub ''expr'' (expr_dispose e),
     Sub ''stmt'' (dispose_ptr (map_option stmt_dispose s)), Free ''expr'' True, Free ''stmt'' (s \<noteq> None)]"
| "stmt_kind_dispose (Default_Stmt s) = dispose_run [Sub ''stmt'' (dispose_ptr (map_option stmt_dispose s)),
     Free ''stmt'' (s \<noteq> None)]"
| "block_item_dispose (Stmt_Item s) = dispose_run [Sub ''stmt'' (dispose_ptr (map_option stmt_dispose s)),
     Free ''stmt'' (s \<noteq> None)]"
| "block_item_dispose (Decl_Item d) = dispose_run [Sub ''decl'' (decl_dispose d), Free ''decl'' True]"

definition param_dispose :: "func_param \<Rightarrow> path list res" where
  "param_dispose p = dispose_run [Sub ''type'' (type_dispose (param_type p)), Free ''name'' (param_name p \<noteq> None)]"

fun unit_dispose :: "unit_t \<Rightarrow> path list res" where
  "unit_dispose (Unit l (Import_Unit n)) = dispose_run [Free ''import_name'' True]"
| "unit_dispose (Unit l (Package_Unit n)) = dispose_run [Free ''name'' True]"
| "unit_dispose (Unit l (Decl_Unit d)) = dispose_run [Sub ''decl'' (decl_dispose d), Free ''decl'' True]"
| "unit_dispose (Unit l (Func_Unit f)) = dispose_run [Sub ''return_type'' (type_dispose (fu_return_type f)),
     Free ''name'' True, Sub ''body'' (dispose_ptr (map_option stmt_dispose (fu_body f))),
     Free ''body'' (fu_body f \<noteq> None), Sub ''params'' (dispose_vec 0 (map param_dispose (fu_params f))),
     Free ''params'' True]"
| "unit_dispose (Unit l (Type_Unit t n)) = dispose_run [Sub ''type'' (type_dispose t), Free ''name'' True]"

text \<open>The end of \<open>compile\<close> in \<open>main.c\<close>.\<close>

definition units_dispose :: "unit_t list \<Rightarrow> path list res" where
  "units_dispose us = dispose_run [Sub ''units'' (dispose_run [Sub ''items'' (dispose_vec 0 (map unit_dispose us)),
     Free ''items'' True]), Free ''units'' True]"

subsection \<open>The blocks of a tree\<close>

text \<open>
  The layout of the structs: a field holds a null pointer, a pointer to a struct (or a string,
  which holds no pointers), a struct, or a pointer to an array of structs.
\<close>

datatype layout = Layout "link list"
and link = Null string | Points string layout | Holds string layout | Vec string "layout list"

fun blocks_vec :: "nat \<Rightarrow> path list list \<Rightarrow> path list" where
  "blocks_vec i [] = []"
| "blocks_vec i (ps # pss) = map ((#) (Elt i)) ps @ blocks_vec (Suc i) pss"

primrec blocks :: "layout \<Rightarrow> path list" and link_blocks :: "link \<Rightarrow> path list" where
  "blocks (Layout ls) = concat (map link_blocks ls)"
| "link_blocks (Null f) = []"
| "link_blocks (Points f n) = [Fld f] # map ((#) (Fld f)) (blocks n)"
| "link_blocks (Holds f n) = map ((#) (Fld f)) (blocks n)"
| "link_blocks (Vec f ns) = [Fld f] # map ((#) (Fld f)) (blocks_vec 0 (map blocks ns))"

definition text_link :: "string \<Rightarrow> link" where
  "text_link f = Points f (Layout [])"

definition ptr_link :: "string \<Rightarrow> layout option \<Rightarrow> link" where
  "ptr_link f p = (case p of None \<Rightarrow> Null f | Some n \<Rightarrow> Points f n)"

primrec type_layout :: "type_t \<Rightarrow> layout" and kind_layout :: "type_kind \<Rightarrow> layout"
and struct_member_layout :: "struct_member \<Rightarrow> layout" and interface_member_layout :: "interface_member \<Rightarrow> layout" where
  "type_layout (Type p k) = kind_layout k"
| "kind_layout No_Type = Layout []"
| "kind_layout Void_Type = Layout []"
| "kind_layout Boolean_Type = Layout []"
| "kind_layout (Integer_Type w) = Layout []"
| "kind_layout (Float_Type w) = Layout []"
| "kind_layout Placeholder_Type = Layout []"
| "kind_layout (Func_Type r as) = Layout [Points ''return_type'' (type_layout r), Vec ''args'' (map type_layout as)]"
| "kind_layout (Named_Type n) = Layout [text_link ''name'']"
| "kind_layout (Struct_Type ms) = Layout [Vec ''members'' (map struct_member_layout ms)]"
| "kind_layout (Array_Type t n) = Layout [Points ''type'' (type_layout t)]"
| "kind_layout (Slice_Type t) = Layout [Points ''type'' (type_layout t)]"
| "kind_layout (Interface_Type ms) = Layout [Vec ''members'' (map interface_member_layout ms)]"
| "struct_member_layout (Struct_Member t n) = Layout [Points ''type'' (type_layout t), text_link ''name'']"
| "interface_member_layout (Member_Field n t) = Layout [text_link ''name'', Points ''type'' (type_layout t)]"
| "interface_member_layout (Member_Func n r as) = Layout [text_link ''name'', Points ''return_type'' (type_layout r),
     Vec ''args'' (map type_layout as)]"
| "interface_member_layout Member_Uninit = Layout []"

primrec expr_layout :: "expr \<Rightarrow> layout" and expr_kind_links :: "expr_kind \<Rightarrow> link list" where
  "expr_layout (Expr l t k) = Layout (Holds ''expr.type'' (type_layout t) # expr_kind_links k)"
| "expr_kind_links (Ident_Expr n) = [text_link ''ident'']"
| "expr_kind_links (String_Literal_Expr s) = [text_link ''string_literal'']"
| "expr_kind_links (Number_Literal_Expr s r) = [text_link ''literal'']"
| "expr_kind_links (Index_Access_Expr t i) = [Points ''target'' (expr_layout t), Points ''index'' (expr_layout i)]"
| "expr_kind_links (Index_Slice_Expr t s e k) = [Points ''target'' (expr_layout t),
     ptr_link ''start'' (map_option expr_layout s), ptr_link ''end'' (map_option expr_layout e)]"
| "expr_kind_links (Call_Expr t as) = [Points ''target'' (expr_layout t), Vec ''args'' (map expr_layout as)]"
| "expr_kind_links (Member_Access_Expr t n) = [Points ''target'' (expr_layout t), text_link ''name'']"
| "expr_kind_links (Incdec_Expr t ord d) = [Points ''target'' (expr_layout t)]"
| "expr_kind_links (Unary_Expr t op) = [Points ''target'' (expr_layout t)]"
| "expr_kind_links (Sizeof_Expr e) = [Points ''expr'' (expr_layout e)]"
| "expr_kind_links (Sizeof_Type t) = [Holds ''type'' (type_layout t)]"
| "expr_kind_links (Cast_Expr e t) = [Points ''target'' (expr_layout e), Holds ''type'' (type_layout t)]"
| "expr_kind_links (Binary_Expr a b op) = [Points ''lhs'' (expr_layout a), Points ''rhs'' (expr_layout b)]"
| "expr_kind_links (Conditional_Expr c a b) = [Points ''condition'' (expr_layout c),
     Points ''true_expr'' (expr_layout a), Points ''false_expr'' (expr_layout b)]"
| "expr_kind_links (Assignment_Expr t e op) = [Points ''target'' (expr_layout t), Points ''expr'' (expr_layout e)]"
| "expr_kind_links (Comma_Expr es) = [Vec ''exprs'' (map expr_layout es)]"
| "expr_kind_links (New_Builtin t e) = [Holds ''type'' (type_layout t), ptr_link ''newe.expr'' (map_option expr_layout e)]"
| "expr_kind_links (Free_Builtin e) = [Points ''expr'' (expr_layout e)]"
| "expr_kind_links (Make_Builtin t e) = [Holds ''type'' (type_layout t), Points ''expr'' (expr_layout e)]"
| "expr_kind_links (Lencap_Builtin k e) = [Points ''expr'' (expr_layout e)]"
| "expr_kind_links (Dispose_Builtin e) = [Points ''expr'' (expr_layout e)]"

definition mapping_layout :: "implementation_mapping \<Rightarrow> layout" where
  "mapping_layout m = Layout [text_link ''intf'', text_link ''func'']"

fun decl_layout :: "decl \<Rightarrow> layout" where
  "decl_layout (Decl l (Variable_Decl t n e)) = Layout [Holds ''type'' (type_layout t), text_link ''name'',
     ptr_link ''initial'' (map_option expr_layout e)]"
| "decl_layout (Decl l (Const_Decl n t e)) = Layout [text_link ''name'', ptr_link ''type'' (map_option type_layout t),
     Holds ''value'' (expr_layout e)]"
| "decl_layout (Decl l (Implementation_Decl i t ms)) = Layout [Points ''interface'' (type_layout i),
     Points ''target'' (type_layout t), Vec ''mappings'' (map mapping_layout ms)]"

primrec stmt_layout :: "stmt \<Rightarrow> layout" and stmt_kind_layout :: "stmt_kind \<Rightarrow> layout"
and block_item_layout :: "block_item \<Rightarrow> layout" where
  "stmt_layout (Stmt l k) = stmt_kind_layout k"
| "stmt_kind_layout (Expr_Stmt e) = Layout [Points ''stmt.expr'' (expr_layout e)]"
| "stmt_kind_layout (Compound_Stmt is) = Layout [Vec ''items'' (map block_item_layout is)]"
| "stmt_kind_layout (If_Stmt c s e) = Layout [Points ''condition'' (expr_layout c),
     ptr_link ''stmt'' (map_option stmt_layout s), ptr_link ''else_stmt'' (map_option stmt_layout e)]"
| "stmt_kind_layout (Switch_Stmt c s) = Layout [Points ''condition'' (expr_layout c),
     ptr_link ''stmt'' (map_option stmt_layout s)]"
| "stmt_kind_layout (Do_Stmt s c) = Layout [Points ''condition'' (expr_layout c), ptr_link ''stmt'' (map_option stmt_layout s)]"
| "stmt_kind_layout (For_Stmt i c u s) = Layout [ptr_link ''initial'' (map_option expr_layout i),
     ptr_link ''condition'' (map_option expr_layout c), ptr_link ''step'' (map_option expr_layout u),
     ptr_link ''stmt'' (map_option stmt_layout s)]"
| "stmt_kind_layout (Goto_Stmt n) = Layout [text_link ''name'']"
| "stmt_kind_layout Continue_Stmt = Layout []"
| "stmt_kind_layout Break_Stmt = Layout []"
| "stmt_kind_layout (Return_Stmt e) = Layout [ptr_link ''expr'' (map_option expr_layout e)]"
| "stmt_kind_layout (Label_Stmt n s) = Layout [ptr_link ''stmt'' (map_option stmt_layout s), text_link ''name'']"
| "stmt_kind_layout (Case_Stmt e s) = Layout [ptr_link ''stmt'' (map_option stmt_layout s), Points ''expr'' (expr_layout e)]"
| "stmt_kind_layout (Default_Stmt s) = Layout [ptr_link ''stmt'' (map_option stmt_layout s)]"
| "block_item_layout (Stmt_Item s) = Layout [ptr_link ''stmt'' (map_option stmt_layout s)]"
| "block_item_layout (Decl_Item d) = Layout [Points ''decl'' (decl_layout d)]"

definition param_layout :: "func_param \<Rightarrow> layout" where
  "param_layout p = Layout [Holds ''type'' (type_layout (param_type p)),
     ptr_link ''name'' (map_option (\<lambda>n. Layout []) (param_name p))]"

fun unit_layout :: "unit_t \<Rightarrow> layout" where
  "unit_layout (Unit l (Import_Unit n)) = Layout [text_link ''import_name'']"
| "unit_layout (Unit l (Package_Unit n)) = Layout [text_link ''name'']"
| "unit_layout (Unit l (Decl_Unit d)) = Layout [Points ''decl'' (decl_layout d)]"
| "unit_layout (Unit l (Func_Unit f)) = Layout [Holds ''return_type'' (type_layout (fu_return_type f)), text_link ''name'',
     ptr_link ''body'' (map_option stmt_layout (fu_body f)), Vec ''params'' (map param_layout (fu_params f)),
     Holds ''func.type'' (type_layout (fu_type f))]"
| "unit_layout (Unit l (Type_Unit t n)) = Layout [Holds ''type'' (type_layout t), text_link ''name'']"

definition units_layout :: "unit_t list \<Rightarrow> layout" where
  "units_layout us = Layout [Points ''units'' (Layout [Vec ''items'' (map unit_layout us)])]"

text \<open>
  What is never freed: the type inferred for an expression, the size of a \<open>new\<close>, the type of a
  function with all they hold, and the struct of the expression of an expression statement.
\<close>

fun leaked :: "path \<Rightarrow> bool" where
  "leaked [] = False"
| "leaked (Elt i # p) = leaked p"
| "leaked (Fld f # p) = (f = ''expr.type'' \<or> f = ''newe.expr'' \<or> f = ''func.type'' \<or>
     f = ''stmt.expr'' \<and> p = [] \<or> leaked p)"


subsection \<open>Trees that can be disposed of\<close>

text \<open>The types inside have a kind that \<open>type_dispose\<close> knows.\<close>

primrec type_disposable :: "type_t \<Rightarrow> bool" and kind_disposable :: "type_kind \<Rightarrow> bool"
and struct_member_disposable :: "struct_member \<Rightarrow> bool" and interface_member_disposable :: "interface_member \<Rightarrow> bool" where
  "type_disposable (Type p k) = kind_disposable k"
| "kind_disposable No_Type = False"
| "kind_disposable Void_Type = True"
| "kind_disposable Boolean_Type = True"
| "kind_disposable (Integer_Type w) = True"
| "kind_disposable (Float_Type w) = True"
| "kind_disposable Placeholder_Type = True"
| "kind_disposable (Func_Type r as) = (type_disposable r \<and> list_all id (map type_disposable as))"
| "kind_disposable (Named_Type n) = True"
| "kind_disposable (Struct_Type ms) = list_all id (map struct_member_disposable ms)"
| "kind_disposable (Array_Type t n) = type_disposable t"
| "kind_disposable (Slice_Type t) = type_disposable t"
| "kind_disposable (Interface_Type ms) = list_all id (map interface_member_disposable ms)"
| "struct_member_disposable (Struct_Member t n) = type_disposable t"
| "interface_member_disposable (Member_Field n t) = type_disposable t"
| "interface_member_disposable (Member_Func n r as) = (type_disposable r \<and> list_all id (map type_disposable as))"
| "interface_member_disposable Member_Uninit = False"

definition opt_ok :: "bool option \<Rightarrow> bool" where
  "opt_ok b = (b \<noteq> Some False)"

lemma opt_ok_simps [simp]: "opt_ok None" "opt_ok (Some b) = b"
  by (simp_all add: opt_ok_def)

primrec expr_disposable :: "expr \<Rightarrow> bool" and expr_kind_disposable :: "expr_kind \<Rightarrow> bool" where
  "expr_disposable (Expr l t k) = expr_kind_disposable k"
| "expr_kind_disposable (Ident_Expr n) = True"
| "expr_kind_disposable (String_Literal_Expr s) = True"
| "expr_kind_disposable (Number_Literal_Expr s r) = True"
| "expr_kind_disposable (Index_Access_Expr t i) = (expr_disposable t \<and> expr_disposable i)"
| "expr_kind_disposable (Index_Slice_Expr t s e k) = (expr_disposable t \<and>
     opt_ok (map_option expr_disposable s) \<and> opt_ok (map_option expr_disposable e))"
| "expr_kind_disposable (Call_Expr t as) = (expr_disposable t \<and> list_all id (map expr_disposable as))"
| "expr_kind_disposable (Member_Access_Expr t n) = expr_disposable t"
| "expr_kind_disposable (Incdec_Expr t ord d) = expr_disposable t"
| "expr_kind_disposable (Unary_Expr t op) = expr_disposable t"
| "expr_kind_disposable (Sizeof_Expr e) = expr_disposable e"
| "expr_kind_disposable (Sizeof_Type t) = type_disposable t"
| "expr_kind_disposable (Cast_Expr e t) = (expr_disposable e \<and> type_disposable t)"
| "expr_kind_disposable (Binary_Expr a b op) = (expr_disposable a \<and> expr_disposable b)"
| "expr_kind_disposable (Conditional_Expr c a b) = (expr_disposable c \<and> expr_disposable a \<and> expr_disposable b)"
| "expr_kind_disposable (Assignment_Expr t e op) = (expr_disposable t \<and> expr_disposable e)"
| "expr_kind_disposable (Comma_Expr es) = list_all id (map expr_disposable es)"
| "expr_kind_disposable (New_Builtin t e) = type_disposable t"
| "expr_kind_disposable (Free_Builtin e) = expr_disposable e"
| "expr_kind_disposable (Make_Builtin t e) = (type_disposable t \<and> expr_disposable e)"
| "expr_kind_disposable (Lencap_Builtin k e) = expr_disposable e"
| "expr_kind_disposable (Dispose_Builtin e) = expr_disposable e"

fun decl_disposable :: "decl \<Rightarrow> bool" where
  "decl_disposable (Decl l (Variable_Decl t n e)) = (type_disposable t \<and> opt_ok (map_option expr_disposable e))"
| "decl_disposable (Decl l (Const_Decl n t e)) = (opt_ok (map_option type_disposable t) \<and> expr_disposable e)"
| "decl_disposable (Decl l (Implementation_Decl i t ms)) = (type_disposable i \<and> type_disposable t)"

primrec stmt_disposable :: "stmt \<Rightarrow> bool" and stmt_kind_disposable :: "stmt_kind \<Rightarrow> bool"
and block_item_disposable :: "block_item \<Rightarrow> bool" where
  "stmt_disposable (Stmt l k) = stmt_kind_disposable k"
| "stmt_kind_disposable (Expr_Stmt e) = expr_disposable e"
| "stmt_kind_disposable (Compound_Stmt is) = list_all id (map block_item_disposable is)"
| "stmt_kind_disposable (If_Stmt c s e) = (expr_disposable c \<and> opt_ok (map_option stmt_disposable s) \<and>
     opt_ok (map_option stmt_disposable e))"
| "stmt_kind_disposable (Switch_Stmt c s) = (expr_disposable c \<and> opt_ok (map_option stmt_disposable s))"
| "stmt_kind_disposable (Do_Stmt s c) = (expr_disposable c \<and> opt_ok (map_option stmt_disposable s))"
| "stmt_kind_disposable (For_Stmt i c u s) = (opt_ok (map_option expr_disposable i) \<and>
     opt_ok (map_option expr_disposable c) \<and> opt_ok (map_option expr_disposable u) \<and>
     opt_ok (map_option stmt_disposable s))"
| "stmt_kind_disposable (Goto_Stmt n) = True"
| "stmt_kind_disposable Continue_Stmt = True"
| "stmt_kind_disposable Break_Stmt = True"
| "stmt_kind_disposable (Return_Stmt e) = opt_ok (map_option expr_disposable e)"
| "stmt_kind_disposable (Label_Stmt n s) = opt_ok (map_option stmt_disposable s)"
| "stmt_kind_disposable (Case_Stmt e s) = (expr_disposable e \<and> opt_ok (map_option stmt_disposable s))"
| "stmt_kind_disposable (Default_Stmt s) = opt_ok (map_option stmt_disposable s)"
| "block_item_disposable (Stmt_Item s) = opt_ok (map_option stmt_disposable s)"
| "block_item_disposable (Decl_Item d) = decl_disposable d"

fun unit_disposable :: "unit_t \<Rightarrow> bool" where
  "unit_disposable (Unit l (Import_Unit n)) = True"
| "unit_disposable (Unit l (Package_Unit n)) = True"
| "unit_disposable (Unit l (Decl_Unit d)) = decl_disposable d"
| "unit_disposable (Unit l (Func_Unit f)) = (type_disposable (fu_return_type f) \<and>
     opt_ok (map_option stmt_disposable (fu_body f)) \<and> list_all (\<lambda>p. type_disposable (param_type p)) (fu_params f))"
| "unit_disposable (Unit l (Type_Unit t n)) = type_disposable t"

subsection \<open>The order of the frees\<close>

text \<open>Nothing is freed twice, or after a block it lies in.\<close>

definition free_order :: "path list \<Rightarrow> bool" where
  "free_order ps = sorted_wrt (\<lambda>p q. \<not> prefix p q) ps"

definition sound_res :: "path list res \<Rightarrow> bool" where
  "sound_res m \<longleftrightarrow> (\<exists>ps. m = Inr ps \<and> free_order ps \<and> [] \<notin> set ps)"

definition freed :: "path list res \<Rightarrow> path set" where
  "freed m = (case m of Inl e \<Rightarrow> {} | Inr ps \<Rightarrow> set ps)"

definition keep :: "path set \<Rightarrow> path set" where
  "keep B = {p \<in> B. \<not> leaked p}"

definition disposes :: "path list res \<Rightarrow> path set \<Rightarrow> bool" where
  "disposes m B \<longleftrightarrow> sound_res m \<and> freed m = keep B"

lemma keep_simps:
  "keep {} = {}" "keep (A \<union> B) = keep A \<union> keep B" "keep (insert p A) = (if leaked p then keep A else insert p (keep A))"
  "keep ((#) (Fld f) ` B) = (if f = ''expr.type'' \<or> f = ''newe.expr'' \<or> f = ''func.type'' then {}
     else if f = ''stmt.expr'' then (#) (Fld f) ` (keep B - {[]}) else (#) (Fld f) ` keep B)"
  "keep ((#) (Elt i) ` B) = (#) (Elt i) ` keep B"
  by (auto simp: keep_def)

fun op_field :: "dispose_op \<Rightarrow> string" where
  "op_field (Sub f m) = f"
| "op_field (Free f b) = f"

fun op_sound :: "dispose_op \<Rightarrow> bool" where
  "op_sound (Sub f m) = sound_res m"
| "op_sound (Free f b) = True"

fun op_paths :: "dispose_op \<Rightarrow> path set" where
  "op_paths (Sub f m) = (#) (Fld f) ` freed m"
| "op_paths (Free f b) = (if b then {[Fld f]} else {})"

text \<open>A field is disposed of before it is freed, and neither is done twice.\<close>

fun op_before :: "dispose_op \<Rightarrow> dispose_op \<Rightarrow> bool" where
  "op_before (Sub f m) (Free g b) = True"
| "op_before x y = (op_field x \<noteq> op_field y)"

lemma freed_Inr [simp]: "freed (Inr ps) = set ps"
  by (simp add: freed_def)

lemma sound_res_Nil [simp]: "sound_res (Inr [])"
  by (simp add: sound_res_def free_order_def)

lemma free_order_append:
  "free_order (ps @ qs) \<longleftrightarrow> free_order ps \<and> free_order qs \<and> (\<forall>p\<in>set ps. \<forall>q\<in>set qs. \<not> prefix p q)"
  by (simp add: free_order_def sorted_wrt_append)

lemma free_order_map: "free_order (map ((#) x) ps) = free_order ps"
  by (simp add: free_order_def sorted_wrt_map)

lemma op_before_apart:
  "op_before x y \<Longrightarrow> op_sound x \<Longrightarrow> p \<in> op_paths x \<Longrightarrow> q \<in> op_paths y \<Longrightarrow> \<not> prefix p q"
  by (cases x; cases y) (auto simp: sound_res_def split: if_splits)

lemma dispose_run_sound:
  assumes "sorted_wrt op_before ops" and "\<forall>x\<in>set ops. op_sound x"
  shows "sound_res (dispose_run ops) \<and> freed (dispose_run ops) = (\<Union>x\<in>set ops. op_paths x)"
  using assms
proof (induction ops)
  case Nil
  then show ?case by (simp add: sound_res_def free_order_def)
next
  case (Cons x ops)
  then obtain qs where qs: "dispose_run ops = Inr qs" "free_order qs" "[] \<notin> set qs" "set qs = (\<Union>x\<in>set ops. op_paths x)"
    by (auto simp: sound_res_def)
  have apart: "\<not> prefix p q" if "p \<in> op_paths x" "q \<in> set qs" for p q
    using that qs(4) Cons.prems op_before_apart [of x] by auto
  show ?case
  proof (cases x)
    case (Sub f m)
    then obtain ps where ps: "m = Inr ps" "free_order ps" using Cons.prems(2) by (auto simp: sound_res_def)
    then have "free_order (map ((#) (Fld f)) ps @ qs)"
      using qs(2) apart Sub by (auto simp: free_order_append free_order_map)
    then show ?thesis using Sub ps qs by (auto simp: sound_res_def)
  next
    case (Free f b)
    then have "free_order (if b then [Fld f] # qs else qs)" using qs(2) apart by (simp add: free_order_def)
    then show ?thesis using Free qs by (auto simp: sound_res_def)
  qed
qed

lemma disposes_run:
  assumes "sorted_wrt op_before ops" and "\<forall>x\<in>set ops. op_sound x"
    and "(\<Union>x\<in>set ops. op_paths x) = keep B"
  shows "disposes (dispose_run ops) B"
  using dispose_run_sound [OF assms(1,2)] assms(3) by (simp add: disposes_def)

lemma disposes_vec:
  assumes "\<forall>x\<in>set xs. disposes (d x) (set (b x))"
  shows "disposes (dispose_vec i (map d xs)) (set (blocks_vec i (map b xs)))"
proof -
  have "disposes (dispose_vec i (map d xs)) (set (blocks_vec i (map b xs))) \<and>
    (\<forall>p\<in>freed (dispose_vec i (map d xs)). \<exists>j q. i \<le> j \<and> p = Elt j # q)"
    using assms
  proof (induction xs arbitrary: i)
    case Nil
    then show ?case by (simp add: disposes_def sound_res_def free_order_def keep_simps)
  next
    case (Cons x xs)
    have IH: "disposes (dispose_vec (Suc i) (map d xs)) (set (blocks_vec (Suc i) (map b xs)))"
      "\<forall>p\<in>freed (dispose_vec (Suc i) (map d xs)). \<exists>j q. Suc i \<le> j \<and> p = Elt j # q"
      using Cons.IH [of "Suc i"] Cons.prems by simp_all
    then obtain qs where qs: "dispose_vec (Suc i) (map d xs) = Inr qs" "free_order qs" "[] \<notin> set qs"
      "set qs = keep (set (blocks_vec (Suc i) (map b xs)))" "\<forall>p\<in>set qs. \<exists>j q. Suc i \<le> j \<and> p = Elt j # q"
      by (auto simp: disposes_def sound_res_def)
    obtain ps where ps: "d x = Inr ps" "free_order ps" "set ps = keep (set (b x))"
      using Cons.prems by (auto simp: disposes_def sound_res_def)
    have "free_order (map ((#) (Elt i)) ps @ qs)"
      using ps(2) qs(2,5) by (fastforce simp: free_order_append free_order_map)
    moreover have "\<forall>p\<in>set (map ((#) (Elt i)) ps @ qs). \<exists>j q. i \<le> j \<and> p = Elt j # q"
      using qs(5) by (auto intro: Suc_leD)
    ultimately show ?case using ps(1,3) qs(1,3,4) by (auto simp: disposes_def sound_res_def keep_simps)
  qed
  then show ?thesis by blast
qed

definition ptr_blocks :: "path list option \<Rightarrow> path list" where
  "ptr_blocks p = (case p of None \<Rightarrow> [] | Some ps \<Rightarrow> ps)"

lemma disposes_ptr:
  assumes "\<forall>x\<in>set_option p. disposes (d x) (set (b x))"
  shows "disposes (dispose_ptr (map_option d p)) (set (ptr_blocks (map_option b p)))"
  using assms by (cases p) (simp_all add: dispose_ptr_def ptr_blocks_def disposes_def sound_res_def free_order_def keep_simps)

lemma blocks_ptr_link: "link_blocks (ptr_link f p) =
    (if p = None then [] else [[Fld f]]) @ map ((#) (Fld f)) (ptr_blocks (map_option blocks p))"
  by (cases p) (simp_all add: ptr_link_def ptr_blocks_def)

lemma blocks_text_link: "link_blocks (text_link f) = [[Fld f]]"
  by (simp add: text_link_def)

lemma dispose_ptr_None: "dispose_ptr None = Inr []" "ptr_blocks None = []"
  by (simp_all add: dispose_ptr_def ptr_blocks_def)

lemmas layout_simps = disposes_def keep_simps blocks_ptr_link blocks_text_link dispose_ptr_None option.map_comp comp_def

lemma disposes_vec_list:
  assumes "\<And>x. x \<in> set xs \<Longrightarrow> ok x \<Longrightarrow> disposes (d x) (set (b x))" and "list_all id (map ok xs)"
  shows "disposes (dispose_vec i (map d xs)) (set (blocks_vec i (map b xs)))"
  using assms by (intro disposes_vec) (simp add: list_all_iff)

lemma disposes_ptr_opt:
  assumes "\<And>x. x \<in> set_option p \<Longrightarrow> ok x \<Longrightarrow> disposes (d x) (set (b x))" and "opt_ok (map_option ok p)"
  shows "disposes (dispose_ptr (map_option d p)) (set (ptr_blocks (map_option b p)))"
  using assms by (intro disposes_ptr) (cases p; simp)

lemma type_disposes:
  "type_disposable t \<Longrightarrow> disposes (type_dispose t) (set (blocks (type_layout t)))"
  "kind_disposable k \<Longrightarrow> disposes (kind_dispose k) (set (blocks (kind_layout k)))"
  "struct_member_disposable m \<Longrightarrow> disposes (struct_member_dispose m) (set (blocks (struct_member_layout m)))"
  "interface_member_disposable i \<Longrightarrow> disposes (interface_member_dispose i) (set (blocks (interface_member_layout i)))"
proof (induction t and k and m and i rule: types_induct)
  case (Func_Type r as)
  have "disposes (dispose_vec 0 (map type_dispose as)) (set (blocks_vec 0 (map (\<lambda>t. blocks (type_layout t)) as)))"
    by (rule disposes_vec_list [where ok = type_disposable], use Func_Type(2) in blast, use Func_Type(3) in simp)
  moreover have "disposes (type_dispose r) (set (blocks (type_layout r)))" using Func_Type(1,3) by simp
  ultimately show ?case
    unfolding kind_dispose.simps by (intro disposes_run; simp add: layout_simps; blast?)
next
  case (Struct_Type ms)
  have "disposes (dispose_vec 0 (map struct_member_dispose ms)) (set (blocks_vec 0 (map (\<lambda>t. blocks (struct_member_layout t)) ms)))"
    by (rule disposes_vec_list [where ok = struct_member_disposable], use Struct_Type(1) in blast, use Struct_Type(2) in simp)
  then show ?case unfolding kind_dispose.simps by (intro disposes_run; simp add: layout_simps; blast?)
next
  case (Interface_Type ms)
  have "disposes (dispose_vec 0 (map interface_member_dispose ms)) (set (blocks_vec 0 (map (\<lambda>t. blocks (interface_member_layout t)) ms)))"
    by (rule disposes_vec_list [where ok = interface_member_disposable], use Interface_Type(1) in blast, use Interface_Type(2) in simp)
  then show ?case unfolding kind_dispose.simps by (intro disposes_run; simp add: layout_simps; blast?)
next
  case (Member_Func n r as)
  have "disposes (dispose_vec 0 (map type_dispose as)) (set (blocks_vec 0 (map (\<lambda>t. blocks (type_layout t)) as)))"
    by (rule disposes_vec_list [where ok = type_disposable], use Member_Func(2) in blast, use Member_Func(3) in simp)
  moreover have "disposes (type_dispose r) (set (blocks (type_layout r)))" using Member_Func(1,3) by simp
  ultimately show ?case
    unfolding interface_member_dispose.simps by (intro disposes_run; simp add: layout_simps; blast?)
next
  case (Named_Type n)
  then show ?case unfolding kind_dispose.simps by (intro disposes_run; simp add: layout_simps; blast?)
next
  case (Array_Type t n)
  then show ?case unfolding kind_dispose.simps by (intro disposes_run; simp add: layout_simps; blast?)
next
  case (Slice_Type t)
  then show ?case unfolding kind_dispose.simps by (intro disposes_run; simp add: layout_simps; blast?)
next
  case (Struct_Member t n)
  then show ?case unfolding struct_member_dispose.simps by (intro disposes_run; simp add: layout_simps; blast?)
next
  case (Member_Field n t)
  then show ?case unfolding interface_member_dispose.simps by (intro disposes_run; simp add: layout_simps; blast?)
qed (simp_all add: disposes_def sound_res_def free_order_def keep_simps)


lemma expr_disposes:
  "expr_disposable e \<Longrightarrow> disposes (expr_dispose e) (set (blocks (expr_layout e)))"
  "expr_kind_disposable k \<Longrightarrow> disposes (expr_kind_dispose k) (set (concat (map link_blocks (expr_kind_links k))))"
proof (induction e and k rule: expr.induct expr_kind.induct)
  case (Expr l t k)
  then show ?case by (simp add: layout_simps)
next
  case (Ident_Expr n)
  then show ?case unfolding expr_kind_dispose.simps
    by (intro disposes_run; simp add: layout_simps; blast?)
next
  case (String_Literal_Expr s)
  then show ?case unfolding expr_kind_dispose.simps
    by (intro disposes_run; simp add: layout_simps; blast?)
next
  case (Number_Literal_Expr s r)
  then show ?case unfolding expr_kind_dispose.simps
    by (intro disposes_run; simp add: layout_simps; blast?)
next
  case (Index_Access_Expr t i)
  then show ?case unfolding expr_kind_dispose.simps
    by (intro disposes_run; simp add: layout_simps; blast?)
next
  case (Member_Access_Expr t n)
  then show ?case unfolding expr_kind_dispose.simps
    by (intro disposes_run; simp add: layout_simps; blast?)
next
  case (Incdec_Expr t ord d)
  then show ?case unfolding expr_kind_dispose.simps
    by (intro disposes_run; simp add: layout_simps; blast?)
next
  case (Unary_Expr t op)
  then show ?case unfolding expr_kind_dispose.simps
    by (intro disposes_run; simp add: layout_simps; blast?)
next
  case (Sizeof_Expr e)
  then show ?case unfolding expr_kind_dispose.simps
    by (intro disposes_run; simp add: layout_simps; blast?)
next
  case (Binary_Expr a b op)
  then show ?case unfolding expr_kind_dispose.simps
    by (intro disposes_run; simp add: layout_simps; blast?)
next
  case (Conditional_Expr c a b)
  then show ?case unfolding expr_kind_dispose.simps
    by (intro disposes_run; simp add: layout_simps; blast?)
next
  case (Assignment_Expr t e op)
  then show ?case unfolding expr_kind_dispose.simps
    by (intro disposes_run; simp add: layout_simps; blast?)
next
  case (Free_Builtin e)
  then show ?case unfolding expr_kind_dispose.simps
    by (intro disposes_run; simp add: layout_simps; blast?)
next
  case (Lencap_Builtin k e)
  then show ?case unfolding expr_kind_dispose.simps
    by (intro disposes_run; simp add: layout_simps; blast?)
next
  case (Dispose_Builtin e)
  then show ?case unfolding expr_kind_dispose.simps
    by (intro disposes_run; simp add: layout_simps; blast?)
next
  case (Sizeof_Type t)
  with Sizeof_Type type_disposes(1) [of t] show ?case unfolding expr_kind_dispose.simps
    by (intro disposes_run; simp add: layout_simps; blast?)
next
  case (Cast_Expr e t)
  with Cast_Expr type_disposes(1) [of t] show ?case unfolding expr_kind_dispose.simps
    by (intro disposes_run; simp add: layout_simps; blast?)
next
  case (New_Builtin t e)
  with New_Builtin type_disposes(1) [of t] show ?case unfolding expr_kind_dispose.simps
    by (intro disposes_run; simp add: layout_simps; blast?)
next
  case (Make_Builtin t e)
  with Make_Builtin type_disposes(1) [of t] show ?case unfolding expr_kind_dispose.simps
    by (intro disposes_run; simp add: layout_simps; blast?)
next
  case (Index_Slice_Expr t s e k)
  have "disposes (dispose_ptr (map_option expr_dispose s)) (set (ptr_blocks (map_option (\<lambda>e. blocks (expr_layout e)) s)))"
    "disposes (dispose_ptr (map_option expr_dispose e)) (set (ptr_blocks (map_option (\<lambda>e. blocks (expr_layout e)) e)))"
    using Index_Slice_Expr by (auto intro!: disposes_ptr_opt [where ok = expr_disposable])
  with Index_Slice_Expr show ?case unfolding expr_kind_dispose.simps
    by (intro disposes_run; simp add: layout_simps; blast?)
next
  case (Call_Expr t as)
  have "disposes (dispose_vec 0 (map expr_dispose as)) (set (blocks_vec 0 (map (\<lambda>e. blocks (expr_layout e)) as)))"
    by (rule disposes_vec_list [where ok = expr_disposable], use Call_Expr(2) in blast, use Call_Expr(3) in simp)
  with Call_Expr show ?case unfolding expr_kind_dispose.simps
    by (intro disposes_run; simp add: layout_simps; blast?)
next
  case (Comma_Expr es)
  have "disposes (dispose_vec 0 (map expr_dispose es)) (set (blocks_vec 0 (map (\<lambda>e. blocks (expr_layout e)) es)))"
    by (rule disposes_vec_list [where ok = expr_disposable], use Comma_Expr(1) in blast, use Comma_Expr(2) in simp)
  with Comma_Expr show ?case unfolding expr_kind_dispose.simps
    by (intro disposes_run; simp add: layout_simps; blast?)
qed


lemma mapping_disposes: "disposes (mapping_dispose m) (set (blocks (mapping_layout m)))"
  unfolding mapping_dispose_def mapping_layout_def
  by (intro disposes_run; simp add: layout_simps; blast?)

lemma expr_ptr_disposes:
  assumes "opt_ok (map_option expr_disposable e)"
  shows "disposes (dispose_ptr (map_option expr_dispose e)) (set (ptr_blocks (map_option (\<lambda>x. blocks (expr_layout x)) e)))"
  by (rule disposes_ptr_opt [OF expr_disposes(1) assms])

lemma decl_disposes:
  assumes "decl_disposable d"
  shows "disposes (decl_dispose d) (set (blocks (decl_layout d)))"
proof (cases d)
  case (Decl l k)
  show ?thesis
  proof (cases k)
    case (Variable_Decl t n e)
    with assms Decl have "disposes (type_dispose t) (set (blocks (type_layout t)))" "disposes (dispose_ptr (map_option expr_dispose e)) (set (ptr_blocks (map_option (\<lambda>x. blocks (expr_layout x)) e)))"
      using type_disposes(1) expr_ptr_disposes by simp_all
    then show ?thesis unfolding Decl Variable_Decl decl_dispose.simps
      by (intro disposes_run; simp add: layout_simps; blast?)
  next
    case (Const_Decl n t e)
    with assms Decl have "disposes (expr_dispose e) (set (blocks (expr_layout e)))"
      "disposes (dispose_ptr (map_option type_dispose t)) (set (ptr_blocks (map_option (\<lambda>x. blocks (type_layout x)) t)))"
      using expr_disposes(1) disposes_ptr_opt [OF type_disposes(1), of t] by simp_all
    then show ?thesis unfolding Decl Const_Decl decl_dispose.simps
      by (intro disposes_run; simp add: layout_simps; blast?)
  next
    case (Implementation_Decl i t ms)
    have "disposes (dispose_vec 0 (map mapping_dispose ms)) (set (blocks_vec 0 (map (\<lambda>m. blocks (mapping_layout m)) ms)))"
      by (intro disposes_vec ballI mapping_disposes)
    moreover have "disposes (type_dispose i) (set (blocks (type_layout i)))" "disposes (type_dispose t) (set (blocks (type_layout t)))"
      using assms Decl Implementation_Decl type_disposes(1) by simp_all
    ultimately show ?thesis unfolding Decl Implementation_Decl decl_dispose.simps
      by (intro disposes_run; simp add: layout_simps; blast?)
  qed
qed

lemma stmt_disposes:
  "stmt_disposable s \<Longrightarrow> disposes (stmt_dispose s) (set (blocks (stmt_layout s)))"
  "stmt_kind_disposable k \<Longrightarrow> disposes (stmt_kind_dispose k) (set (blocks (stmt_kind_layout k)))"
  "block_item_disposable b \<Longrightarrow> disposes (block_item_dispose b) (set (blocks (block_item_layout b)))"
proof (induction s and k and b rule: stmt.induct stmt_kind.induct block_item.induct)
  case (Stmt l k)
  then show ?case by simp
next
  case (Expr_Stmt e)
  then have e: "disposes (expr_dispose e) (set (blocks (expr_layout e)))" using expr_disposes(1) by simp
  then have "[] \<notin> keep (set (blocks (expr_layout e)))" by (auto simp: disposes_def sound_res_def)
  with e show ?case unfolding stmt_kind_dispose.simps
    by (intro disposes_run; simp add: layout_simps)
next
  case (If_Stmt c s e)
  have "disposes (dispose_ptr (map_option stmt_dispose s)) (set (ptr_blocks (map_option (\<lambda>x. blocks (stmt_layout x)) s)))"
    "disposes (dispose_ptr (map_option stmt_dispose e)) (set (ptr_blocks (map_option (\<lambda>x. blocks (stmt_layout x)) e)))"
    using If_Stmt by (auto intro!: disposes_ptr_opt [where ok = stmt_disposable])
  with If_Stmt expr_disposes(1) [of c] show ?case unfolding stmt_kind_dispose.simps
    by (intro disposes_run; simp add: layout_simps; blast?)
next
  case (Switch_Stmt c s)
  have "disposes (dispose_ptr (map_option stmt_dispose s)) (set (ptr_blocks (map_option (\<lambda>x. blocks (stmt_layout x)) s)))"
    using Switch_Stmt by (auto intro!: disposes_ptr_opt [where ok = stmt_disposable])
  with Switch_Stmt expr_disposes(1) [of c] show ?case unfolding stmt_kind_dispose.simps
    by (intro disposes_run; simp add: layout_simps; blast?)
next
  case (Do_Stmt s c)
  have "disposes (dispose_ptr (map_option stmt_dispose s)) (set (ptr_blocks (map_option (\<lambda>x. blocks (stmt_layout x)) s)))"
    using Do_Stmt by (auto intro!: disposes_ptr_opt [where ok = stmt_disposable])
  with Do_Stmt expr_disposes(1) [of c] show ?case unfolding stmt_kind_dispose.simps
    by (intro disposes_run; simp add: layout_simps; blast?)
next
  case (Label_Stmt n s)
  have "disposes (dispose_ptr (map_option stmt_dispose s)) (set (ptr_blocks (map_option (\<lambda>x. blocks (stmt_layout x)) s)))"
    using Label_Stmt by (auto intro!: disposes_ptr_opt [where ok = stmt_disposable])
  with Label_Stmt  show ?case unfolding stmt_kind_dispose.simps
    by (intro disposes_run; simp add: layout_simps; blast?)
next
  case (Case_Stmt e s)
  have "disposes (dispose_ptr (map_option stmt_dispose s)) (set (ptr_blocks (map_option (\<lambda>x. blocks (stmt_layout x)) s)))"
    using Case_Stmt by (auto intro!: disposes_ptr_opt [where ok = stmt_disposable])
  with Case_Stmt expr_disposes(1) [of e] show ?case unfolding stmt_kind_dispose.simps
    by (intro disposes_run; simp add: layout_simps; blast?)
next
  case (Default_Stmt s)
  have "disposes (dispose_ptr (map_option stmt_dispose s)) (set (ptr_blocks (map_option (\<lambda>x. blocks (stmt_layout x)) s)))"
    using Default_Stmt by (auto intro!: disposes_ptr_opt [where ok = stmt_disposable])
  with Default_Stmt  show ?case unfolding stmt_kind_dispose.simps
    by (intro disposes_run; simp add: layout_simps; blast?)
next
  case (Goto_Stmt n)
  then show ?case unfolding stmt_kind_dispose.simps
    by (intro disposes_run; simp add: layout_simps; blast?)
next
  case Continue_Stmt
  then show ?case unfolding stmt_kind_dispose.simps
    by (intro disposes_run; simp add: layout_simps; blast?)
next
  case Break_Stmt
  then show ?case unfolding stmt_kind_dispose.simps
    by (intro disposes_run; simp add: layout_simps; blast?)
next
  case (Compound_Stmt bs)
  have "disposes (dispose_vec 0 (map block_item_dispose bs)) (set (blocks_vec 0 (map (\<lambda>b. blocks (block_item_layout b)) bs)))"
    by (rule disposes_vec_list [where ok = block_item_disposable], use Compound_Stmt(1) in blast, use Compound_Stmt(2) in simp)
  then show ?case unfolding stmt_kind_dispose.simps
    by (intro disposes_run; simp add: layout_simps; blast?)
next
  case (For_Stmt i c u s)
  have "disposes (dispose_ptr (map_option stmt_dispose s)) (set (ptr_blocks (map_option (\<lambda>x. blocks (stmt_layout x)) s)))"
    using For_Stmt by (auto intro!: disposes_ptr_opt [where ok = stmt_disposable])
  with For_Stmt expr_ptr_disposes [of i] expr_ptr_disposes [of c] expr_ptr_disposes [of u] show ?case
    unfolding stmt_kind_dispose.simps
    by (intro disposes_run; simp add: layout_simps; blast?)
next
  case (Return_Stmt e)
  with expr_ptr_disposes [of e] show ?case unfolding stmt_kind_dispose.simps
    by (intro disposes_run; simp add: layout_simps; blast?)
next
  case (Stmt_Item s)
  have "disposes (dispose_ptr (map_option stmt_dispose s)) (set (ptr_blocks (map_option (\<lambda>x. blocks (stmt_layout x)) s)))"
    using Stmt_Item by (auto intro!: disposes_ptr_opt [where ok = stmt_disposable])
  with Stmt_Item show ?case unfolding block_item_dispose.simps
    by (intro disposes_run; simp add: layout_simps; blast?)
next
  case (Decl_Item d)
  with decl_disposes [of d] show ?case unfolding block_item_dispose.simps
    by (intro disposes_run; simp add: layout_simps; blast?)
qed

lemma param_disposes:
  assumes "type_disposable (param_type p)"
  shows "disposes (param_dispose p) (set (blocks (param_layout p)))"
  using type_disposes(1) [OF assms] unfolding param_dispose_def param_layout_def
  by (cases "param_name p"; intro disposes_run; simp add: layout_simps ptr_blocks_def; blast?)

lemma unit_disposes:
  assumes "unit_disposable u"
  shows "disposes (unit_dispose u) (set (blocks (unit_layout u)))"
proof (cases u)
  case (Unit l k)
  show ?thesis
  proof (cases k)
    case (Func_Unit f)
    have ok: "type_disposable (fu_return_type f)" "opt_ok (map_option stmt_disposable (fu_body f))"
      "list_all id (map (\<lambda>p. type_disposable (param_type p)) (fu_params f))"
      using assms Unit Func_Unit by (simp_all add: list_all_iff)
    have "disposes (dispose_vec 0 (map param_dispose (fu_params f))) (set (blocks_vec 0 (map (\<lambda>p. blocks (param_layout p)) (fu_params f))))"
      by (rule disposes_vec_list [OF param_disposes ok(3)])
    with type_disposes(1) [OF ok(1)] disposes_ptr_opt [OF stmt_disposes(1) ok(2)] show ?thesis
      unfolding Unit Func_Unit unit_dispose.simps
      by (intro disposes_run; simp add: layout_simps; blast?)
  next
    case (Decl_Unit d)
    with assms Unit decl_disposes [of d] show ?thesis unfolding Unit Decl_Unit unit_dispose.simps
      by (intro disposes_run; simp add: layout_simps; blast?)
  next
    case (Type_Unit t n)
    with assms Unit type_disposes(1) [of t] show ?thesis unfolding Unit Type_Unit unit_dispose.simps
      by (intro disposes_run; simp add: layout_simps; blast?)
  next
    case (Import_Unit n)
    show ?thesis unfolding Unit Import_Unit unit_dispose.simps
      by (intro disposes_run; simp add: layout_simps; blast?)
  next
    case (Package_Unit n)
    show ?thesis unfolding Unit Package_Unit unit_dispose.simps
      by (intro disposes_run; simp add: layout_simps; blast?)
  qed
qed

lemma units_disposes:
  assumes "list_all unit_disposable us"
  shows "disposes (units_dispose us) (set (blocks (units_layout us)))"
proof -
  have "disposes (dispose_vec 0 (map unit_dispose us)) (set (blocks_vec 0 (map (\<lambda>u. blocks (unit_layout u)) us)))"
    using assms unit_disposes by (intro disposes_vec) (simp add: list_all_iff)
  then have "disposes (dispose_run [Sub ''items'' (dispose_vec 0 (map unit_dispose us)), Free ''items'' True])
    (set (blocks (Layout [Vec ''items'' (map unit_layout us)])))"
    by (intro disposes_run; simp add: layout_simps; blast?)
  moreover have "disposes (dispose_run [Sub ''units'' m, Free ''units'' True]) (set (blocks (Layout [Points ''units'' n])))"
    if "disposes m (set (blocks n))" for m n
    using that by (intro disposes_run; simp add: layout_simps)
  ultimately show ?thesis unfolding units_dispose_def units_layout_def by blast
qed


subsection \<open>The properties\<close>

text \<open>
  C14: the clean-up of \<open>compile\<close> is safe, and what it leaks is known. For units whose types all
  have a kind (\<open>unit_disposable\<close>), \<open>unit_dispose\<close> on every unit returns; no block is freed twice or
  after the block that holds the pointer to it; only blocks of the tree are freed; and all of them
  but the inferred types of expressions, the size expression of \<open>new\<close>, the type of a function, and
  the struct of the expression of an expression statement.
\<close>

theorem units_dispose_sound:
  assumes "list_all unit_disposable us"
  shows "\<exists>ps. units_dispose us = Inr ps \<and> free_order ps \<and>
    set ps = {p \<in> set (blocks (units_layout us)). \<not> leaked p}"
  using units_disposes [OF assms] by (auto simp: disposes_def sound_res_def keep_def)

definition sample_loc :: loc where
  "sample_loc = \<lparr>loc_filename = ''f'', loc_line = 1, loc_col = 1\<rparr>"

definition sample_units :: "unit_t list" where
  "sample_units = [Unit sample_loc (Import_Unit ''a''), Unit sample_loc (Func_Unit
     \<lparr>fu_return_type = Type 1 (Named_Type ''T''), fu_name = ''f'',
       fu_body = Some (Stmt sample_loc (Compound_Stmt [Stmt_Item (Some (Stmt sample_loc (Expr_Stmt
         (Expr sample_loc (Type 0 No_Type) (New_Builtin (Type 0 Boolean_Type) None)))))])),
       fu_params = [\<lparr>param_type = Type 0 (Integer_Type 8), param_name = None\<rparr>], fu_variadic = False,
       fu_type = Type 0 No_Type\<rparr>)]"

theorem units_dispose_sound_witness:
  "\<exists>ps. units_dispose sample_units = Inr ps \<and> free_order ps \<and>
    [Fld ''units'', Fld ''items'', Elt 1, Fld ''body'', Fld ''items'', Elt 0, Fld ''stmt'', Fld ''stmt.expr''] \<notin> set ps"
proof -
  have "list_all unit_disposable sample_units" by (simp add: sample_units_def)
  from units_dispose_sound [OF this] show ?thesis by auto
qed

lemma returns_run: "returns (dispose_run ops) \<longleftrightarrow> (\<forall>f m. Sub f m \<in> set ops \<longrightarrow> returns m)"
proof (induction ops)
  case (Cons x ops)
  then show ?case by (cases x) (auto simp: returns_conv rbind_Inr_conv)
qed simp

lemma returns_vec: "returns (dispose_vec i ms) \<longleftrightarrow> (\<forall>m\<in>set ms. returns m)"
proof (induction ms arbitrary: i)
  case (Cons m ms)
  then show ?case by (auto simp: returns_conv rbind_Inr_conv)
qed simp

lemma type_dispose_returns_all:
  "returns (type_dispose t) = type_disposable t"
  "returns (kind_dispose k) = kind_disposable k"
  "returns (struct_member_dispose m) = struct_member_disposable m"
  "returns (interface_member_dispose i) = interface_member_disposable i"
  by (induction t and k and m and i rule: types_induct)
    (auto simp: returns_run returns_vec list_all_iff simp del: dispose_run.simps)

text \<open>
  C32: disposing of a type fails exactly on a type without a kind and on an interface member that
  was never written, wherever they are in it; so the result of \<open>type_copy\<close> on an interface with
  members can be copied but not disposed of.
\<close>

theorem type_dispose_returns:
  "(returns (type_dispose t) \<longleftrightarrow> type_disposable t) \<and>
   (m \<noteq> [] \<longrightarrow> type_copy (Type p (Interface_Type m)) = Inr u \<longrightarrow> \<not> returns (type_dispose u))"
proof -
  have "\<not> type_disposable u" if m: "m \<noteq> []" "type_copy (Type p (Interface_Type m)) = Inr u"
  proof -
    obtain ms where ms: "interface_members_copy m = Inr ms" "u = Type p (Interface_Type ms)"
      using m(2) by (auto simp: rbind_Inr_conv)
    have "ms = replicate (length m) Member_Uninit" by (rule interface_members_copy_uninit [OF ms(1)])
    with m(1) ms(2) show ?thesis by (cases m) auto
  qed
  then show ?thesis using type_dispose_returns_all(1) by blast
qed

theorem type_dispose_returns_witness:
  "\<not> returns (type_dispose (Type 0 (Interface_Type [Member_Uninit])))"
proof -
  have "type_copy (Type 0 (Interface_Type [Member_Field ''f'' (Type 0 Void_Type)])) =
    Inr (Type 0 (Interface_Type [Member_Uninit]))" by simp
  with type_dispose_returns [of "Type 0 (Interface_Type [Member_Uninit])" "[Member_Field ''f'' (Type 0 Void_Type)]" 0]
  show ?thesis by blast
qed

end
