(* ===== verification/Reducers.thy ===== *)
theory Reducers
  imports Ast
begin

section \<open>The semantic actions (src/grammar_rules.c)\<close>

text \<open>
  One definition for every \<open>REDUCER\<close>, over the bytes \<open>mem\<close> of the source text. It takes the
  tokens of the right-hand side and the tag of the production and gives the value for the
  reduced token. A token's positions \<open>first\<close> and \<open>last\<close> are positions in \<open>mem\<close>; its union of
  \<open>ptr\<close> and \<open>tag\<close> is an \<open>sval\<close>, whose constructor says what the pointer points to. Using a
  pointer as something else, or a null pointer, is undefined, and so is reading an element past
  the end of the right-hand side. The nodes are values: a reducer that changes a node in place
  returns the changed node, which the reduced token points to as well, and the temporary arrays
  of list rules are lists (\<open>src/array.c\<close> is modelled in \<open>Dyn_Array\<close>).
\<close>

subsection \<open>Values and tokens\<close>

datatype sval =
    V_Null
  | V_Unary_Op unary_op
  | V_Assign_Op assignment_op
  | V_Expr expr
  | V_Exprs "expr list"
  | V_Stmt stmt
  | V_Item block_item
  | V_Items "block_item list"
  | V_Decl decl
  | V_Mapping implementation_mapping
  | V_Mappings "implementation_mapping list"
  | V_Type type_t
  | V_Types "type_t list"
  | V_Struct_Member struct_member
  | V_Struct_Members "struct_member list"
  | V_Interface_Member interface_member
  | V_Interface_Members "interface_member list"
  | V_Param func_param
  | V_Params "func_param list"
  | V_Unit unit_t
  | V_Units "unit_t list"

record token =
  t_id :: nat
  t_first :: nat
  t_last :: nat
  t_loc :: loc
  t_val :: sval

definition bad_pointer :: "'a res" where
  "bad_pointer = Inl (Undefined ''access through a null pointer or to an object of another type'')"

definition arg :: "token list \<Rightarrow> nat \<Rightarrow> token res" where
  "arg ts i = (if i < length ts then Inr (ts ! i)
     else Inl (Undefined ''read past the end of the reduced tokens''))"

definition arg_loc :: "token list \<Rightarrow> nat \<Rightarrow> loc res" where
  "arg_loc ts i = rbind (arg ts i) (\<lambda>t. Inr (t_loc t))"

definition arg_expr :: "token list \<Rightarrow> nat \<Rightarrow> expr res" where
  "arg_expr ts i = rbind (arg ts i) (\<lambda>t. case t_val t of V_Expr x \<Rightarrow> Inr x | _ \<Rightarrow> bad_pointer)"

definition arg_exprs :: "token list \<Rightarrow> nat \<Rightarrow> expr list res" where
  "arg_exprs ts i = rbind (arg ts i) (\<lambda>t. case t_val t of V_Exprs x \<Rightarrow> Inr x | _ \<Rightarrow> bad_pointer)"

definition arg_item :: "token list \<Rightarrow> nat \<Rightarrow> block_item res" where
  "arg_item ts i = rbind (arg ts i) (\<lambda>t. case t_val t of V_Item x \<Rightarrow> Inr x | _ \<Rightarrow> bad_pointer)"

definition arg_items :: "token list \<Rightarrow> nat \<Rightarrow> block_item list res" where
  "arg_items ts i = rbind (arg ts i) (\<lambda>t. case t_val t of V_Items x \<Rightarrow> Inr x | _ \<Rightarrow> bad_pointer)"

definition arg_decl :: "token list \<Rightarrow> nat \<Rightarrow> decl res" where
  "arg_decl ts i = rbind (arg ts i) (\<lambda>t. case t_val t of V_Decl x \<Rightarrow> Inr x | _ \<Rightarrow> bad_pointer)"

definition arg_mapping :: "token list \<Rightarrow> nat \<Rightarrow> implementation_mapping res" where
  "arg_mapping ts i = rbind (arg ts i) (\<lambda>t. case t_val t of V_Mapping x \<Rightarrow> Inr x | _ \<Rightarrow> bad_pointer)"

definition arg_mappings :: "token list \<Rightarrow> nat \<Rightarrow> implementation_mapping list res" where
  "arg_mappings ts i = rbind (arg ts i) (\<lambda>t. case t_val t of V_Mappings x \<Rightarrow> Inr x | _ \<Rightarrow> bad_pointer)"

definition arg_type :: "token list \<Rightarrow> nat \<Rightarrow> type_t res" where
  "arg_type ts i = rbind (arg ts i) (\<lambda>t. case t_val t of V_Type x \<Rightarrow> Inr x | _ \<Rightarrow> bad_pointer)"

definition arg_types :: "token list \<Rightarrow> nat \<Rightarrow> type_t list res" where
  "arg_types ts i = rbind (arg ts i) (\<lambda>t. case t_val t of V_Types x \<Rightarrow> Inr x | _ \<Rightarrow> bad_pointer)"

definition arg_struct_member :: "token list \<Rightarrow> nat \<Rightarrow> struct_member res" where
  "arg_struct_member ts i = rbind (arg ts i) (\<lambda>t. case t_val t of V_Struct_Member x \<Rightarrow> Inr x | _ \<Rightarrow> bad_pointer)"

definition arg_struct_members :: "token list \<Rightarrow> nat \<Rightarrow> struct_member list res" where
  "arg_struct_members ts i = rbind (arg ts i) (\<lambda>t. case t_val t of V_Struct_Members x \<Rightarrow> Inr x | _ \<Rightarrow> bad_pointer)"

definition arg_interface_member :: "token list \<Rightarrow> nat \<Rightarrow> interface_member res" where
  "arg_interface_member ts i = rbind (arg ts i) (\<lambda>t. case t_val t of V_Interface_Member x \<Rightarrow> Inr x | _ \<Rightarrow> bad_pointer)"

definition arg_interface_members :: "token list \<Rightarrow> nat \<Rightarrow> interface_member list res" where
  "arg_interface_members ts i = rbind (arg ts i) (\<lambda>t. case t_val t of V_Interface_Members x \<Rightarrow> Inr x | _ \<Rightarrow> bad_pointer)"

definition arg_param :: "token list \<Rightarrow> nat \<Rightarrow> func_param res" where
  "arg_param ts i = rbind (arg ts i) (\<lambda>t. case t_val t of V_Param x \<Rightarrow> Inr x | _ \<Rightarrow> bad_pointer)"

definition arg_params :: "token list \<Rightarrow> nat \<Rightarrow> func_param list res" where
  "arg_params ts i = rbind (arg ts i) (\<lambda>t. case t_val t of V_Params x \<Rightarrow> Inr x | _ \<Rightarrow> bad_pointer)"

definition arg_units :: "token list \<Rightarrow> nat \<Rightarrow> unit_t list res" where
  "arg_units ts i = rbind (arg ts i) (\<lambda>t. case t_val t of V_Units x \<Rightarrow> Inr x | _ \<Rightarrow> bad_pointer)"

definition arg_unary_op :: "token list \<Rightarrow> nat \<Rightarrow> unary_op res" where
  "arg_unary_op ts i = rbind (arg ts i) (\<lambda>t. case t_val t of V_Unary_Op x \<Rightarrow> Inr x | _ \<Rightarrow> bad_pointer)"

definition arg_assign_op :: "token list \<Rightarrow> nat \<Rightarrow> assignment_op res" where
  "arg_assign_op ts i = rbind (arg ts i) (\<lambda>t. case t_val t of V_Assign_Op x \<Rightarrow> Inr x | _ \<Rightarrow> bad_pointer)"

definition arg_stmt :: "token list \<Rightarrow> nat \<Rightarrow> stmt res" where
  "arg_stmt ts i = rbind (arg ts i) (\<lambda>t. case t_val t of V_Stmt x \<Rightarrow> Inr x | _ \<Rightarrow> bad_pointer)"

definition arg_unit :: "token list \<Rightarrow> nat \<Rightarrow> unit_t res" where
  "arg_unit ts i = rbind (arg ts i) (\<lambda>t. case t_val t of V_Unit x \<Rightarrow> Inr x | _ \<Rightarrow> bad_pointer)"

text \<open>Statement and unit pointers may be null.\<close>

definition arg_stmt_ptr :: "token list \<Rightarrow> nat \<Rightarrow> stmt option res" where
  "arg_stmt_ptr ts i = rbind (arg ts i) (\<lambda>t. case t_val t of
     V_Null \<Rightarrow> Inr None | V_Stmt s \<Rightarrow> Inr (Some s) | _ \<Rightarrow> bad_pointer)"

definition arg_unit_ptr :: "token list \<Rightarrow> nat \<Rightarrow> unit_t option res" where
  "arg_unit_ptr ts i = rbind (arg ts i) (\<lambda>t. case t_val t of
     V_Null \<Rightarrow> Inr None | V_Unit u \<Rightarrow> Inr (Some u) | _ \<Rightarrow> bad_pointer)"

subsection \<open>Strings of the C library\<close>

abbreviation NUL :: char where "NUL \<equiv> CHR 0x00"

text \<open>\<open>strndup (p, n)\<close> reads up to \<open>n\<close> bytes and stops at a NUL.\<close>

definition strndup :: "string \<Rightarrow> nat \<Rightarrow> nat \<Rightarrow> string res" where
  "strndup mem p n = (let s = takeWhile (\<lambda>c. c \<noteq> NUL) (take n (drop p mem)) in
     if p + n \<le> length mem \<or> length s < length (drop p mem) then Inr s
     else Inl (Undefined ''strndup reads past the end of the buffer''))"

definition arg_text :: "string \<Rightarrow> token list \<Rightarrow> nat \<Rightarrow> string res" where
  "arg_text mem ts i = rbind (arg ts i) (\<lambda>t. strndup mem (t_first t) (t_last t - t_first t))"

definition digit_value :: "char \<Rightarrow> nat" where
  "digit_value c = of_char c - 48"

definition decimal_value :: "string \<Rightarrow> nat" where
  "decimal_value ds = foldl (\<lambda>v c. 10 * v + digit_value c) 0 ds"

definition is_space :: "char \<Rightarrow> bool" where
  "is_space c \<longleftrightarrow> c = CHR '' '' \<or> (9 \<le> (of_char c :: nat) \<and> of_char c \<le> (13::nat))"

text \<open>
  \<open>atoi\<close> on the bytes from a pointer on: it must meet a byte that is no digit before the end
  of the buffer, and the value must fit an \<open>int\<close>.
\<close>

definition atoi :: "string \<Rightarrow> int res" where
  "atoi bs =
     (let s = dropWhile is_space bs;
          neg = (take 1 s = ''-'');
          s' = (if take 1 s = ''-'' \<or> take 1 s = ''+'' then drop 1 s else s);
          ds = takeWhile is_number_dec s';
          v = (if neg then - int (decimal_value ds) else int (decimal_value ds))
      in if ds = s' then Inl (Undefined ''atoi reads past the end of the buffer'')
         else if v < - (2 ^ 31) \<or> 2 ^ 31 \<le> v then Inl (Undefined ''atoi: value out of range'')
         else Inr v)"

text \<open>A new node: \<open>bzero\<close> leaves the type annotation without a kind.\<close>

definition no_type :: type_t where
  "no_type = Type 0 No_Type"

definition new_expr :: "loc \<Rightarrow> expr_kind \<Rightarrow> sval res" where
  "new_expr l k = Inr (V_Expr (Expr l no_type k))"

definition new_stmt :: "loc \<Rightarrow> stmt_kind \<Rightarrow> sval res" where
  "new_stmt l k = Inr (V_Stmt (Stmt l k))"

definition null_loc :: loc where
  "null_loc = \<lparr>loc_filename = [], loc_line = 0, loc_col = 0\<rparr>"

definition new_type :: "u32 \<Rightarrow> type_kind \<Rightarrow> sval res" where
  "new_type p k = Inr (V_Type (Type p k))"

type_synonym reducer = "string \<Rightarrow> token list \<Rightarrow> nat \<Rightarrow> sval res"

subsection \<open>Primary expressions\<close>

definition reduce_primary_expr_ident :: reducer where
  "reduce_primary_expr_ident mem ts tag =
     rbind (arg_loc ts 0) (\<lambda>l.
     rbind (arg_text mem ts 0) (\<lambda>n.
       new_expr l (Ident_Expr n)))"

definition escape :: "char \<Rightarrow> char res" where
  "escape c = (if c = CHR 0x22 then Inr (CHR 0x22)
     else if c = CHR ''t'' then Inr (CHR 0x09)
     else if c = CHR ''n'' then Inr (CHR 0x0A)
     else if c = CHR ''r'' then Inr (CHR 0x0D)
     else Inl (Aborted ''unknown escape sequence''))"

text \<open>The loop over \<open>data[0..length)\<close>; an escape looks at the byte after the backslash.\<close>

fun unescape :: "nat \<Rightarrow> string \<Rightarrow> string res" where
  "unescape 0 cs = Inr []"
| "unescape (Suc n) [] = Inl (Undefined ''read past the end of the buffer'')"
| "unescape (Suc n) (c # cs) =
     (if c = CHR 0x5C then
        (case cs of [] \<Rightarrow> Inl (Undefined ''read past the end of the buffer'')
         | d # ds \<Rightarrow> rbind (escape d) (\<lambda>e. rbind (unescape (n - 1) ds) (\<lambda>r. Inr (e # r))))
      else rbind (unescape n cs) (\<lambda>r. Inr (c # r)))"

definition reduce_primary_expr_string :: reducer where
  "reduce_primary_expr_string mem ts tag =
     rbind (arg ts 0) (\<lambda>t.
     rbind (unescape (unat (of_nat (t_last t - t_first t) - 2 :: u32)) (drop (t_first t + 1) mem)) (\<lambda>s.
       new_expr (t_loc t) (String_Literal_Expr s)))"

text \<open>Reading one byte of the source.\<close>

definition byte_at :: "string \<Rightarrow> nat \<Rightarrow> char res" where
  "byte_at mem p = (if p < length mem then Inr (mem ! p)
     else Inl (Undefined ''read past the end of the buffer''))"

text \<open>The radix and the length of the prefix that gives it.\<close>

definition radix_prefix :: "string \<Rightarrow> nat \<Rightarrow> nat \<Rightarrow> (int \<times> nat) res" where
  "radix_prefix mem start p = rbind (byte_at mem p) (\<lambda>c.
     if c = CHR ''x'' then
       rbind (strndup mem start (p - start)) (\<lambda>aradix.
       rbind (atoi (aradix @ [NUL])) (\<lambda>radix.
         Inr (if radix = 0 then 16 else radix, p - start + 1)))
     else Inr (10, 0))"

definition determine_radix :: "string \<Rightarrow> nat \<Rightarrow> nat \<Rightarrow> (int \<times> nat) res" where
  "determine_radix mem start end_ptr = rbind (byte_at mem start) (\<lambda>c.
     if \<not> is_number_dec c then Inr (10, 0)
     else if start + 1 = end_ptr then Inr (10, 0)
     else rbind (byte_at mem (start + 1)) (\<lambda>c1.
       if is_number_dec c1 then
         if start + 2 = end_ptr then Inr (10, 0) else radix_prefix mem start (start + 2)
       else radix_prefix mem start (start + 1)))"

text \<open>
  The copy into the \<open>calloc\<close>ed buffer of \<open>n\<close> bytes, quotes left out: \<open>literal\<close> is the buffer,
  \<open>j\<close> the next position in it.
\<close>

fun extract_loop :: "nat \<Rightarrow> string \<Rightarrow> string \<Rightarrow> nat \<Rightarrow> string res" where
  "extract_loop 0 str literal j = Inr literal"
| "extract_loop (Suc n) [] literal j = Inl (Undefined ''read past the end of the buffer'')"
| "extract_loop (Suc n) (c # str) literal j =
     (if c \<noteq> CHR 0x27 then extract_loop n str (literal[j := c]) (j + 1)
      else extract_loop n str literal j)"

definition extract_literal :: "string \<Rightarrow> nat \<Rightarrow> nat \<Rightarrow> string res" where
  "extract_literal mem str n = extract_loop n (drop str mem) (replicate n NUL) 0"

definition reduce_primary_expr_number :: reducer where
  "reduce_primary_expr_number mem ts tag =
     rbind (arg ts 0) (\<lambda>t.
     rbind (determine_radix mem (t_first t) (t_last t)) (\<lambda>(radix, prefix).
     rbind (extract_literal mem (t_first t + prefix) (t_last t - (t_first t + prefix))) (\<lambda>lit.
       new_expr (t_loc t) (Number_Literal_Expr lit radix))))"

definition reduce_primary_expr_paren :: reducer where
  "reduce_primary_expr_paren mem ts tag =
     rbind (arg ts 1) (\<lambda>t.
       Inr (t_val t))"

subsection \<open>Postfix expressions\<close>

definition reduce_postfix_expr_index :: reducer where
  "reduce_postfix_expr_index mem ts tag =
     rbind (arg_loc ts 1) (\<lambda>l.
     rbind (arg_expr ts 0) (\<lambda>target.
     rbind (arg_expr ts 2) (\<lambda>index.
       new_expr l (Index_Access_Expr target index))))"

definition reduce_postfix_expr_slice :: reducer where
  "reduce_postfix_expr_slice mem ts tag =
     rbind (arg_loc ts 1) (\<lambda>l.
     rbind (arg_expr ts 0) (\<lambda>target.
       if tag = 0 then
         rbind (arg_expr ts 2) (\<lambda>s. rbind (arg_expr ts 4) (\<lambda>e.
           new_expr l (Index_Slice_Expr target (Some s) (Some e) Slice_Range)))
       else if tag = 1 then
         rbind (arg_expr ts 3) (\<lambda>e. new_expr l (Index_Slice_Expr target None (Some e) Slice_Prefix))
       else if tag = 2 then
         rbind (arg_expr ts 2) (\<lambda>s. new_expr l (Index_Slice_Expr target (Some s) None Slice_Postfix))
       else if tag = 3 then new_expr l (Index_Slice_Expr target None None Slice_Copy)
       else Inl (Undefined ''start and end not initialised'')))"

definition reduce_postfix_expr_call :: reducer where
  "reduce_postfix_expr_call mem ts tag =
     rbind (arg_loc ts 1) (\<lambda>l.
     rbind (arg_expr ts 0) (\<lambda>target.
     rbind (if tag = 1 then arg_exprs ts 2 else Inr []) (\<lambda>args.
       new_expr l (Call_Expr target args))))"

definition reduce_postfix_expr_member :: reducer where
  "reduce_postfix_expr_member mem ts tag =
     rbind (arg_loc ts 1) (\<lambda>l.
     rbind (arg_expr ts 0) (\<lambda>target.
     rbind (arg_text mem ts 2) (\<lambda>n.
       new_expr l (Member_Access_Expr target n))))"

definition reduce_postfix_expr_incdec :: reducer where
  "reduce_postfix_expr_incdec mem ts tag =
     rbind (arg_loc ts 1) (\<lambda>l.
     rbind (arg_expr ts 0) (\<lambda>target.
       new_expr l (Incdec_Expr target Order_Post (if tag = 0 then Dir_Inc else Dir_Dec))))"

definition reduce_argument_expr_list :: reducer where
  "reduce_argument_expr_list mem ts tag =
     (if tag = 0 then rbind (arg_expr ts 0) (\<lambda>x. Inr (V_Exprs [x]))
      else rbind (arg_exprs ts 0) (\<lambda>xs. rbind (arg_expr ts 2) (\<lambda>x. Inr (V_Exprs (xs @ [x])))))"

definition reduce_postfix_expr_initializer :: reducer where
  "reduce_postfix_expr_initializer mem ts tag = Inl (Assert_Failed ''not implemented'')"

subsection \<open>Unary expressions and builtin functions\<close>

definition reduce_unary_expr_incdec :: reducer where
  "reduce_unary_expr_incdec mem ts tag =
     rbind (arg_loc ts 0) (\<lambda>l.
     rbind (arg_expr ts 1) (\<lambda>target.
       new_expr l (Incdec_Expr target Order_Pre (if tag = 0 then Dir_Inc else Dir_Dec))))"

definition reduce_unary_expr_op :: reducer where
  "reduce_unary_expr_op mem ts tag =
     rbind (arg_loc ts 0) (\<lambda>l.
     rbind (arg_expr ts 1) (\<lambda>target.
     rbind (arg_unary_op ts 0) (\<lambda>op.
       new_expr l (Unary_Expr target op))))"

definition reduce_unary_op :: reducer where
  "reduce_unary_op mem ts tag = rbind (arg ts 0) (\<lambda>t.
     if t_id t = TKN_BITWISE_AND then Inr (V_Unary_Op Op_Address)
     else if t_id t = TKN_MUL_OP then Inr (V_Unary_Op Op_Deref)
     else if t_id t = TKN_ADD_OP then Inr (V_Unary_Op Op_Positive)
     else if t_id t = TKN_SUB_OP then Inr (V_Unary_Op Op_Negative)
     else if t_id t = TKN_BITWISE_NOT then Inr (V_Unary_Op Op_Bitwise_Not)
     else if t_id t = TKN_NOT_OP then Inr (V_Unary_Op Op_Not)
     else Inl (Aborted ''unary operator not handled''))"

definition reduce_unary_expr_sizeof :: reducer where
  "reduce_unary_expr_sizeof mem ts tag =
     rbind (arg_loc ts 0) (\<lambda>l.
       if tag = 0 then rbind (arg_expr ts 1) (\<lambda>e. new_expr l (Sizeof_Expr e))
       else rbind (arg_type ts 2) (\<lambda>t. new_expr l (Sizeof_Type t)))"

definition reduce_builtin_func_new :: reducer where
  "reduce_builtin_func_new mem ts tag =
     rbind (arg_loc ts 0) (\<lambda>l.
     rbind (arg_type ts 2) (\<lambda>t.
       if tag = 1 then rbind (arg_expr ts 4) (\<lambda>e. new_expr l (New_Builtin t (Some e)))
       else new_expr l (New_Builtin t None)))"

definition reduce_builtin_func_dispose :: reducer where
  "reduce_builtin_func_dispose mem ts tag =
     rbind (arg_loc ts 0) (\<lambda>l.
     rbind (arg_expr ts 2) (\<lambda>e.
       new_expr l (Dispose_Builtin e)))"

definition reduce_builtin_func_free :: reducer where
  "reduce_builtin_func_free mem ts tag =
     rbind (arg_loc ts 0) (\<lambda>l.
     rbind (arg_expr ts 2) (\<lambda>e.
       new_expr l (Free_Builtin e)))"

definition reduce_builtin_func_make :: reducer where
  "reduce_builtin_func_make mem ts tag =
     rbind (arg_loc ts 0) (\<lambda>l.
     rbind (arg_type ts 2) (\<lambda>t.
     rbind (arg_expr ts 4) (\<lambda>e.
       new_expr l (Make_Builtin t e))))"

text \<open>The tag is stored as the kind: 0 for \<open>AST_LEN\<close>, 1 for \<open>AST_CAP\<close>.\<close>

definition reduce_builtin_func_lencap :: reducer where
  "reduce_builtin_func_lencap mem ts tag =
     rbind (arg_loc ts 0) (\<lambda>l.
     rbind (arg_expr ts 2) (\<lambda>e.
       if tag = 0 then new_expr l (Lencap_Builtin Lencap_Len e)
       else if tag = 1 then new_expr l (Lencap_Builtin Lencap_Cap e)
       else Inl (Undefined ''no such kind'')))"

definition reduce_cast_expr :: reducer where
  "reduce_cast_expr mem ts tag =
     rbind (arg_loc ts 0) (\<lambda>l.
     rbind (arg_expr ts 4) (\<lambda>e.
     rbind (arg_type ts 2) (\<lambda>t.
       new_expr l (Cast_Expr e t))))"

definition reduce_cast_expr2 :: reducer where
  "reduce_cast_expr2 mem ts tag =
     rbind (arg_loc ts 0) (\<lambda>l.
     rbind (arg_expr ts 3) (\<lambda>e.
     rbind (arg_type ts 1) (\<lambda>t.
       new_expr l (Cast_Expr e t))))"

subsection \<open>Binary expressions, assignments and lists of expressions\<close>

definition binary_op_of :: "nat \<Rightarrow> binary_op option" where
  "binary_op_of tkn = map_of [
     (TKN_MUL_OP, Op_Mul), (TKN_DIV_OP, Op_Div), (TKN_MOD_OP, Op_Mod),
     (TKN_ADD_OP, Op_Add), (TKN_SUB_OP, Op_Sub), (TKN_LEFT_OP, Op_Left),
     (TKN_RIGHT_OP, Op_Right), (TKN_LT_OP, Op_Lt), (TKN_GT_OP, Op_Gt),
     (TKN_LE_OP, Op_Le), (TKN_GE_OP, Op_Ge), (TKN_EQ_OP, Op_Eq),
     (TKN_NE_OP, Op_Ne), (TKN_BITWISE_AND, Op_Bitwise_And), (TKN_BITWISE_XOR, Op_Bitwise_Xor),
     (TKN_BITWISE_OR, Op_Bitwise_Or), (TKN_AND_OP, Op_And), (TKN_OR_OP, Op_Or)] tkn"

definition reduce_binary_expr :: reducer where
  "reduce_binary_expr mem ts tag =
     rbind (arg ts 1) (\<lambda>t.
     rbind (arg_expr ts 0) (\<lambda>l.
     rbind (arg_expr ts 2) (\<lambda>r.
       case binary_op_of (t_id t) of
         Some op \<Rightarrow> new_expr (t_loc t) (Binary_Expr l r op)
       | None \<Rightarrow> Inl (Aborted ''binary operator not handled''))))"

definition reduce_conditional_expr :: reducer where
  "reduce_conditional_expr mem ts tag =
     rbind (arg_loc ts 1) (\<lambda>l.
     rbind (arg_expr ts 0) (\<lambda>c.
     rbind (arg_expr ts 2) (\<lambda>t.
     rbind (arg_expr ts 4) (\<lambda>f.
       new_expr l (Conditional_Expr c t f)))))"

definition reduce_assignment_expr :: reducer where
  "reduce_assignment_expr mem ts tag =
     rbind (arg_loc ts 1) (\<lambda>l.
     rbind (arg_expr ts 0) (\<lambda>t.
     rbind (arg_expr ts 2) (\<lambda>e.
     rbind (arg_assign_op ts 1) (\<lambda>op.
       new_expr l (Assignment_Expr t e op)))))"

definition assignment_op_of :: "nat \<Rightarrow> assignment_op option" where
  "assignment_op_of tkn = map_of [
     (TKN_ASSIGN, Assign), (TKN_ADD_ASSIGN, Add_Assign), (TKN_AND_ASSIGN, And_Assign),
     (TKN_DIV_ASSIGN, Div_Assign), (TKN_LEFT_ASSIGN, Left_Assign), (TKN_MOD_ASSIGN, Mod_Assign),
     (TKN_MUL_ASSIGN, Mul_Assign), (TKN_OR_ASSIGN, Or_Assign), (TKN_RIGHT_ASSIGN, Right_Assign),
     (TKN_SUB_ASSIGN, Sub_Assign), (TKN_XOR_ASSIGN, Xor_Assign)] tkn"

definition reduce_assignment_op :: reducer where
  "reduce_assignment_op mem ts tag =
     rbind (arg ts 0) (\<lambda>t.
       case assignment_op_of (t_id t) of
         Some op \<Rightarrow> Inr (V_Assign_Op op)
       | None \<Rightarrow> Inl (Aborted ''assignment operator not handled''))"

definition reduce_expr_comma :: reducer where
  "reduce_expr_comma mem ts tag =
     rbind (arg_expr ts 0) (\<lambda>e.
     rbind (arg_expr ts 2) (\<lambda>x.
       case expr_kind e of
         Comma_Expr es \<Rightarrow> Inr (V_Expr (Expr (expr_loc e) (expr_type e) (Comma_Expr (es @ [x]))))
       | _ \<Rightarrow> new_expr (expr_loc e) (Comma_Expr [e, x])))"

subsection \<open>Statements\<close>

definition reduce_expr_stmt :: reducer where
  "reduce_expr_stmt mem ts tag =
     rbind (arg_expr ts 0) (\<lambda>e. new_stmt (expr_loc e) (Expr_Stmt e))"

definition reduce_compound_stmt :: reducer where
  "reduce_compound_stmt mem ts tag =
     rbind (arg_loc ts 0) (\<lambda>l.
     rbind (arg_items ts 1) (\<lambda>items.
       new_stmt l (Compound_Stmt items)))"

text \<open>A null pointer for the item adds nothing.\<close>

definition arg_item_ptr :: "token list \<Rightarrow> nat \<Rightarrow> block_item list res" where
  "arg_item_ptr ts i = rbind (arg ts i) (\<lambda>t. case t_val t of
     V_Null \<Rightarrow> Inr [] | V_Item b \<Rightarrow> Inr [b] | _ \<Rightarrow> bad_pointer)"

definition reduce_block_item_list :: reducer where
  "reduce_block_item_list mem ts tag =
     (if tag = 0 then rbind (arg_item_ptr ts 0) (\<lambda>bs. Inr (V_Items bs))
      else rbind (arg_item_ptr ts 1) (\<lambda>bs. rbind (arg_items ts 0) (\<lambda>xs. Inr (V_Items (xs @ bs)))))"

definition reduce_block_item_decl :: reducer where
  "reduce_block_item_decl mem ts tag =
     rbind (arg_decl ts 0) (\<lambda>d.
       Inr (V_Item (Decl_Item d)))"

definition reduce_block_item_stmt :: reducer where
  "reduce_block_item_stmt mem ts tag =
     rbind (arg_stmt_ptr ts 0) (\<lambda>s.
       Inr (V_Item (Stmt_Item s)))"

definition reduce_selection_stmt_if :: reducer where
  "reduce_selection_stmt_if mem ts tag =
     rbind (arg_loc ts 0) (\<lambda>l.
     rbind (arg_expr ts 1) (\<lambda>c.
     rbind (arg_stmt_ptr ts 2) (\<lambda>s.
     rbind (if tag = 1 then arg_stmt_ptr ts 4 else Inr None) (\<lambda>e.
       new_stmt l (If_Stmt c s e)))))"

definition reduce_selection_stmt_switch :: reducer where
  "reduce_selection_stmt_switch mem ts tag =
     rbind (arg_loc ts 0) (\<lambda>l.
     rbind (arg_expr ts 2) (\<lambda>c.
     rbind (arg_stmt_ptr ts 4) (\<lambda>s.
       new_stmt l (Switch_Stmt c s))))"

definition reduce_iteration_stmt_do :: reducer where
  "reduce_iteration_stmt_do mem ts tag =
     rbind (arg_loc ts 0) (\<lambda>l.
     rbind (arg_stmt_ptr ts 1) (\<lambda>s.
     rbind (arg_expr ts 4) (\<lambda>c.
       new_stmt l (Do_Stmt s c))))"

definition opt_expr :: "token list \<Rightarrow> nat \<Rightarrow> nat \<Rightarrow> expr option res" where
  "opt_expr ts tag i = (if tag = 1 then rbind (arg_expr ts i) (\<lambda>e. Inr (Some e)) else Inr None)"

definition reduce_iteration_stmt_for_init :: reducer where
  "reduce_iteration_stmt_for_init mem ts tag =
     rbind (arg_loc ts 0) (\<lambda>l.
     rbind (opt_expr ts tag 1) (\<lambda>e.
       new_stmt l (For_Stmt e None None None)))"

text \<open>The following change the statement of the first token, a loop under construction.\<close>

definition arg_for :: "token list \<Rightarrow> (expr option \<times> expr option \<times> expr option \<times> stmt option \<times> loc) res" where
  "arg_for ts = rbind (arg_stmt ts 0) (\<lambda>s. case stmt_kind s of
     For_Stmt i c st b \<Rightarrow> Inr (i, c, st, b, stmt_loc s) | _ \<Rightarrow> bad_pointer)"

definition reduce_iteration_stmt_for_cond :: reducer where
  "reduce_iteration_stmt_for_cond mem ts tag =
     rbind (arg_for ts) (\<lambda>(i, c, st, b, l). rbind (opt_expr ts tag 1) (\<lambda>e.
       new_stmt l (For_Stmt i (if tag = 1 then e else c) st b)))"

definition reduce_iteration_stmt_for_step :: reducer where
  "reduce_iteration_stmt_for_step mem ts tag =
     rbind (arg_for ts) (\<lambda>(i, c, st, b, l). rbind (opt_expr ts tag 1) (\<lambda>e.
       new_stmt l (For_Stmt i c (if tag = 1 then e else st) b)))"

definition reduce_iteration_stmt_for_while :: reducer where
  "reduce_iteration_stmt_for_while mem ts tag =
     rbind (arg_loc ts 0) (\<lambda>l.
     rbind (opt_expr ts tag 1) (\<lambda>e.
       new_stmt l (For_Stmt None e None None)))"

definition reduce_iteration_stmt_for :: reducer where
  "reduce_iteration_stmt_for mem ts tag =
     rbind (arg_for ts) (\<lambda>(i, c, st, b, l). rbind (arg_stmt_ptr ts 1) (\<lambda>s.
       new_stmt l (For_Stmt i c st s)))"

text \<open>These leave the location of the statement zero.\<close>

definition reduce_jump_stmt_goto :: reducer where
  "reduce_jump_stmt_goto mem ts tag =
     rbind (arg_text mem ts 1) (\<lambda>n.
       new_stmt null_loc (Goto_Stmt n))"

definition reduce_jump_stmt_continue :: reducer where
  "reduce_jump_stmt_continue mem ts tag =
     rbind (arg_loc ts 0) (\<lambda>l.
       new_stmt l Continue_Stmt)"

definition reduce_jump_stmt_break :: reducer where
  "reduce_jump_stmt_break mem ts tag =
     rbind (arg_loc ts 0) (\<lambda>l.
       new_stmt l Break_Stmt)"

definition reduce_jump_stmt_return :: reducer where
  "reduce_jump_stmt_return mem ts tag =
     rbind (arg_loc ts 0) (\<lambda>l.
     rbind (opt_expr ts tag 1) (\<lambda>e.
       new_stmt l (Return_Stmt e)))"

definition reduce_labeled_stmt_name :: reducer where
  "reduce_labeled_stmt_name mem ts tag =
     rbind (arg_text mem ts 0) (\<lambda>n.
     rbind (arg_stmt_ptr ts 2) (\<lambda>s.
       new_stmt null_loc (Label_Stmt n s)))"

definition reduce_labeled_stmt_case :: reducer where
  "reduce_labeled_stmt_case mem ts tag =
     rbind (arg_expr ts 1) (\<lambda>e.
     rbind (arg_stmt_ptr ts 3) (\<lambda>s.
       new_stmt null_loc (Case_Stmt e s)))"

definition reduce_labeled_stmt_default :: reducer where
  "reduce_labeled_stmt_default mem ts tag =
     rbind (arg_stmt_ptr ts 2) (\<lambda>s.
       new_stmt null_loc (Default_Stmt s))"

subsection \<open>Declarations\<close>

definition reduce_variable_decl :: reducer where
  "reduce_variable_decl mem ts tag =
     (let p = (if tag = 0 \<or> tag = 1 then 2 else 1) in
      rbind (if tag = 0 \<or> tag = 1 then arg_type ts 1 else Inr no_type) (\<lambda>ty.
      rbind (arg_loc ts p) (\<lambda>l.
      rbind (arg_text mem ts p) (\<lambda>n.
      rbind (if tag = 1 \<or> tag = 2 then rbind (arg_expr ts (p + 2)) (\<lambda>e. Inr (Some e)) else Inr None) (\<lambda>e.
        Inr (V_Decl (Decl l (Variable_Decl ty n e))))))))"

definition reduce_variable_decl2 :: reducer where
  "reduce_variable_decl2 mem ts tag =
     (let p = (if tag = 0 \<or> tag = 1 then 4 else 2) in
      rbind (arg_loc ts 0) (\<lambda>l.
      rbind (arg_text mem ts 0) (\<lambda>n.
      rbind (if tag = 0 \<or> tag = 1 then arg_type ts 2 else Inr no_type) (\<lambda>ty.
      rbind (if tag = 1 \<or> tag = 2 then rbind (arg_expr ts p) (\<lambda>e. Inr (Some e)) else Inr None) (\<lambda>e.
        Inr (V_Decl (Decl l (Variable_Decl ty n e))))))))"

definition reduce_const_decl :: reducer where
  "reduce_const_decl mem ts tag =
     (let i = (if tag = 1 then 4 else 3) in
      rbind (arg_loc ts 1) (\<lambda>l.
      rbind (arg_text mem ts 1) (\<lambda>n.
      rbind (if tag = 1 then rbind (arg_type ts 2) (\<lambda>t. Inr (Some t)) else Inr None) (\<lambda>ty.
      rbind (arg_expr ts i) (\<lambda>v.
        Inr (V_Decl (Decl l (Const_Decl n ty v))))))))"

definition reduce_implementation_decl :: reducer where
  "reduce_implementation_decl mem ts tag =
     rbind (arg_loc ts 0) (\<lambda>l.
     rbind (arg_type ts 1) (\<lambda>i.
     rbind (arg_type ts 3) (\<lambda>t.
     rbind (arg_mappings ts 6) (\<lambda>ms.
       Inr (V_Decl (Decl l (Implementation_Decl i t ms)))))))"

definition reduce_implementation_mapping_list :: reducer where
  "reduce_implementation_mapping_list mem ts tag =
     (if tag = 0 then rbind (arg_mapping ts 0) (\<lambda>x. Inr (V_Mappings [x]))
      else rbind (arg_mappings ts 0) (\<lambda>xs. rbind (arg_mapping ts 2) (\<lambda>x. Inr (V_Mappings (xs @ [x])))))"

definition reduce_implementation_mapping :: reducer where
  "reduce_implementation_mapping mem ts tag =
     rbind (arg_text mem ts 0) (\<lambda>i.
     rbind (arg_text mem ts 2) (\<lambda>f.
       Inr (V_Mapping \<lparr>map_intf = i, map_func = f\<rparr>)))"

subsection \<open>Types\<close>

definition reduce_type_void :: reducer where
  "reduce_type_void mem ts tag = new_type 0 Void_Type"

text \<open>
  \<open>int\<close> and \<open>float\<close> with whatever follows them in the name are numeric types whose width is what
  \<open>atoi\<close> makes of the rest.
\<close>

definition type_of_name :: "string \<Rightarrow> type_kind res" where
  "type_of_name name =
     (if 3 \<le> length name \<and> take 3 name = ''int'' then
        if 3 < length name
        then rbind (atoi (drop 3 name @ [NUL])) (\<lambda>w. Inr (Integer_Type (of_int w)))
        else Inr (Integer_Type 32)
      else if 5 \<le> length name \<and> take 5 name = ''float'' then
        if 5 < length name
        then rbind (atoi (drop 5 name @ [NUL])) (\<lambda>w. Inr (Float_Type (of_int w)))
        else Inr (Float_Type 32)
      else if length name = 4 \<and> take 4 name = ''bool'' then Inr Boolean_Type
      else Inr (Named_Type name))"

definition reduce_type_name :: reducer where
  "reduce_type_name mem ts tag =
     rbind (arg_text mem ts 0) (\<lambda>n.
     rbind (type_of_name n) (\<lambda>k.
       new_type 0 k))"

definition reduce_type_pointer :: reducer where
  "reduce_type_pointer mem ts tag =
     rbind (arg_type ts 1) (\<lambda>t.
       Inr (V_Type (Type (type_pointer t + 1) (type_kind t))))"

definition reduce_type_struct :: reducer where
  "reduce_type_struct mem ts tag =
     rbind (arg_struct_members ts 2) (\<lambda>ms.
       new_type 0 (Struct_Type ms))"

definition reduce_struct_member_list :: reducer where
  "reduce_struct_member_list mem ts tag =
     (if tag = 0 then rbind (arg_struct_member ts 0) (\<lambda>x. Inr (V_Struct_Members [x]))
      else rbind (arg_struct_members ts 0) (\<lambda>xs. rbind (arg_struct_member ts 1) (\<lambda>x. Inr (V_Struct_Members (xs @ [x])))))"

definition reduce_struct_member :: reducer where
  "reduce_struct_member mem ts tag =
     rbind (arg_type ts 0) (\<lambda>t.
     rbind (arg_text mem ts 1) (\<lambda>n.
       Inr (V_Struct_Member (Struct_Member t n))))"

definition reduce_struct_member2 :: reducer where
  "reduce_struct_member2 mem ts tag =
     rbind (arg_text mem ts 0) (\<lambda>n.
     rbind (arg_type ts 2) (\<lambda>t.
       Inr (V_Struct_Member (Struct_Member t n))))"

definition reduce_type_array :: reducer where
  "reduce_type_array mem ts tag =
     rbind (arg_type ts 3) (\<lambda>t.
     rbind (arg ts 1) (\<lambda>i.
     rbind (atoi (drop (t_first i) mem)) (\<lambda>n.
       new_type 0 (Array_Type t (of_int n)))))"

definition reduce_type_slice :: reducer where
  "reduce_type_slice mem ts tag =
     rbind (arg_type ts 2) (\<lambda>t.
       new_type 0 (Slice_Type t))"

definition reduce_type_func :: reducer where
  "reduce_type_func mem ts tag =
     rbind (if tag = 0 then Inr [] else arg_types ts 2) (\<lambda>as.
     rbind (arg_type ts (if tag = 0 then 3 else 4)) (\<lambda>r.
       new_type 1 (Func_Type r as)))"

definition reduce_func_type_args :: reducer where
  "reduce_func_type_args mem ts tag =
     (if tag = 0 then rbind (arg_type ts 0) (\<lambda>x. Inr (V_Types [x]))
      else rbind (arg_types ts 0) (\<lambda>xs. rbind (arg_type ts 2) (\<lambda>x. Inr (V_Types (xs @ [x])))))"

definition reduce_type_interface :: reducer where
  "reduce_type_interface mem ts tag =
     rbind (if tag = 1 then arg_interface_members ts 2 else Inr []) (\<lambda>ms.
       new_type 0 (Interface_Type ms))"

definition reduce_interface_member_list :: reducer where
  "reduce_interface_member_list mem ts tag =
     (if tag = 0 then rbind (arg_interface_member ts 0) (\<lambda>x. Inr (V_Interface_Members [x]))
      else rbind (arg_interface_members ts 0) (\<lambda>xs. rbind (arg_interface_member ts 1) (\<lambda>x. Inr (V_Interface_Members (xs @ [x])))))"

definition reduce_interface_member_field :: reducer where
  "reduce_interface_member_field mem ts tag =
     rbind (arg_text mem ts 0) (\<lambda>n.
     rbind (arg_type ts 2) (\<lambda>t.
       Inr (V_Interface_Member (Member_Field n t))))"

definition reduce_interface_member_func :: reducer where
  "reduce_interface_member_func mem ts tag =
     rbind (arg_text mem ts 1) (\<lambda>n.
     rbind (arg_type ts 5) (\<lambda>r.
     rbind (arg_types ts 3) (\<lambda>as.
       Inr (V_Interface_Member (Member_Func n r as)))))"

definition reduce_interface_member_func_parameter_list :: reducer where
  "reduce_interface_member_func_parameter_list mem ts tag =
     (if tag = 0 then rbind (arg_type ts 0) (\<lambda>x. Inr (V_Types [x]))
      else rbind (arg_types ts 0) (\<lambda>xs. rbind (arg_type ts 2) (\<lambda>x. Inr (V_Types (xs @ [x])))))"

definition reduce_interface_member_func_parameter :: reducer where
  "reduce_interface_member_func_parameter mem ts tag = new_type 0 Placeholder_Type"

subsection \<open>Units\<close>

text \<open>The text of a string token without its quotes.\<close>

definition arg_unquoted :: "string \<Rightarrow> token list \<Rightarrow> nat \<Rightarrow> string res" where
  "arg_unquoted mem ts i =
     rbind (arg ts i) (\<lambda>t. strndup mem (t_first t + 1) (t_last t - t_first t - 2))"

definition reduce_package_unit :: reducer where
  "reduce_package_unit mem ts tag =
     rbind (arg_loc ts 1) (\<lambda>l.
     rbind (arg_unquoted mem ts 1) (\<lambda>n.
       Inr (V_Unit (Unit l (Package_Unit n)))))"

definition reduce_import_unit :: reducer where
  "reduce_import_unit mem ts tag =
     rbind (arg_loc ts 1) (\<lambda>l.
     rbind (arg_unquoted mem ts 1) (\<lambda>n.
       Inr (V_Unit (Unit l (Import_Unit n)))))"

definition reduce_decl_unit :: reducer where
  "reduce_decl_unit mem ts tag =
     rbind (arg_decl ts 0) (\<lambda>d.
       Inr (V_Unit (Unit (decl_loc d) (Decl_Unit d))))"

definition reduce_func_unit :: reducer where
  "reduce_func_unit mem ts tag =
     rbind (arg_unit ts 0) (\<lambda>u.
       if tag = 1 then
         rbind (arg_stmt_ptr ts 1) (\<lambda>b. case unit_kind u of
           Func_Unit f \<Rightarrow> Inr (V_Unit (Unit (unit_loc u) (Func_Unit (f\<lparr>fu_body := b\<rparr>))))
         | _ \<Rightarrow> bad_pointer)
       else Inr (V_Unit u))"

definition reduce_func_unit_decl :: reducer where
  "reduce_func_unit_decl mem ts tag =
     rbind (arg_loc ts 1) (\<lambda>l.
     rbind (arg_type ts 0) (\<lambda>r.
     rbind (arg_text mem ts 1) (\<lambda>n.
     rbind (if tag = 2 \<or> tag = 3 then arg_params ts 3 else Inr []) (\<lambda>ps.
       Inr (V_Unit (Unit l (Func_Unit \<lparr>fu_return_type = r, fu_name = n, fu_body = None,
         fu_params = ps, fu_variadic = (tag = 1 \<or> tag = 3), fu_type = no_type\<rparr>)))))))"

definition reduce_func_unit_decl2 :: reducer where
  "reduce_func_unit_decl2 mem ts tag =
     rbind (arg_loc ts 1) (\<lambda>l.
     rbind (arg_text mem ts 1) (\<lambda>n.
     rbind (if tag = 2 \<or> tag = 3 then arg_params ts 3 else Inr []) (\<lambda>ps.
     rbind (arg_type ts (if tag = 3 then 7 else if tag = 1 \<or> tag = 2 then 5 else 4)) (\<lambda>r.
       Inr (V_Unit (Unit l (Func_Unit \<lparr>fu_return_type = r, fu_name = n, fu_body = None,
         fu_params = ps, fu_variadic = (tag = 1 \<or> tag = 3), fu_type = no_type\<rparr>)))))))"

definition reduce_parameter_list :: reducer where
  "reduce_parameter_list mem ts tag =
     (if tag = 0 then rbind (arg_param ts 0) (\<lambda>x. Inr (V_Params [x]))
      else rbind (arg_params ts 0) (\<lambda>xs. rbind (arg_param ts 2) (\<lambda>x. Inr (V_Params (xs @ [x])))))"

definition reduce_parameter :: reducer where
  "reduce_parameter mem ts tag =
     rbind (if tag = 1 then rbind (arg_text mem ts 0) (\<lambda>n. Inr (Some n)) else Inr None) (\<lambda>n.
     rbind (arg_type ts (if tag = 1 then 1 else 0)) (\<lambda>t.
       Inr (V_Param \<lparr>param_type = t, param_name = n\<rparr>)))"

definition reduce_type_unit :: reducer where
  "reduce_type_unit mem ts tag =
     rbind (arg_loc ts 1) (\<lambda>l.
     rbind (arg_type ts 3) (\<lambda>t.
     rbind (arg_text mem ts 1) (\<lambda>n.
       Inr (V_Unit (Unit l (Type_Unit t n))))))"

definition reduce_unit_list :: reducer where
  "reduce_unit_list mem ts tag =
     (let opt_list = (\<lambda>u. case u of None \<Rightarrow> [] | Some x \<Rightarrow> [x]) in
      if tag = 0 then rbind (arg_unit_ptr ts 0) (\<lambda>u. Inr (V_Units (opt_list u)))
      else rbind (arg_unit_ptr ts 1) (\<lambda>u. rbind (arg_units ts 0) (\<lambda>us.
        Inr (V_Units (us @ opt_list u)))))"

definition reduce_notimp :: reducer where
  "reduce_notimp mem ts tag = Inl (Aborted ''reduction not implemented'')"

end
