(* ===== verification/Grammar.thy ===== *)
theory Grammar
  imports Reducers
begin

section \<open>The grammar (src/grammar_rules.h, src/grammar.c)\<close>

text \<open>
  The rules of \<open>grammar_rules.h\<close> as data, as \<open>grammar.c\<close> expands them: a rule has variants, a
  variant the symbols of its right-hand side, the name of its reducer (\<open>None\<close> for
  \<open>REDUCE_DEFAULT\<close>) and the tag passed to it. \<open>run_reducer\<close> finds the reducer of a name, as the
  linker does for the generated tables.
\<close>

subsection \<open>Rules\<close>

datatype symbol = T nat | N string

record variant =
  v_elements :: "symbol list"
  v_reducer :: "string option"
  v_tag :: nat

definition reduce :: "symbol list \<Rightarrow> string \<Rightarrow> nat \<Rightarrow> variant" where
  "reduce es r tag = \<lparr>v_elements = es, v_reducer = Some r, v_tag = tag\<rparr>"

definition reduce_default :: "symbol list \<Rightarrow> variant" where
  "reduce_default es = \<lparr>v_elements = es, v_reducer = None, v_tag = 0\<rparr>"

definition rule_primary_expr :: "variant list" where
  "rule_primary_expr = [
    reduce [T TKN_IDENT] ''primary_expr_ident'' 0,
    reduce [T TKN_STRING_LITERAL] ''primary_expr_string'' 0,
    reduce [T TKN_NUMBER_LITERAL] ''primary_expr_number'' 0,
    reduce [T TKN_LPAREN, N ''expr'', T TKN_RPAREN] ''primary_expr_paren'' 0]"

definition rule_postfix_expr :: "variant list" where
  "rule_postfix_expr = [
    reduce_default [N ''primary_expr''],
    reduce [N ''postfix_expr'', T TKN_LBRACK, N ''expr'', T TKN_RBRACK] ''postfix_expr_index'' 0,
    reduce [N ''postfix_expr'', T TKN_LBRACK, N ''expr'', T TKN_COLON, N ''expr'', T TKN_RBRACK] ''postfix_expr_slice'' 0,
    reduce [N ''postfix_expr'', T TKN_LBRACK, T TKN_COLON, N ''expr'', T TKN_RBRACK] ''postfix_expr_slice'' 1,
    reduce [N ''postfix_expr'', T TKN_LBRACK, N ''expr'', T TKN_COLON, T TKN_RBRACK] ''postfix_expr_slice'' 2,
    reduce [N ''postfix_expr'', T TKN_LBRACK, T TKN_COLON, T TKN_RBRACK] ''postfix_expr_slice'' 3,
    reduce [N ''postfix_expr'', T TKN_LPAREN, T TKN_RPAREN] ''postfix_expr_call'' 0,
    reduce [N ''postfix_expr'', T TKN_LPAREN, N ''argument_expr_list'', T TKN_RPAREN] ''postfix_expr_call'' 1,
    reduce [N ''postfix_expr'', T TKN_PERIOD, T TKN_IDENT] ''postfix_expr_member'' 0,
    reduce [N ''postfix_expr'', T TKN_INC_OP] ''postfix_expr_incdec'' 0,
    reduce [N ''postfix_expr'', T TKN_DEC_OP] ''postfix_expr_incdec'' 1]"

definition rule_argument_expr_list :: "variant list" where
  "rule_argument_expr_list = [
    reduce [N ''assignment_expr''] ''argument_expr_list'' 0,
    reduce [N ''argument_expr_list'', T TKN_COMMA, N ''assignment_expr''] ''argument_expr_list'' 1]"

definition rule_unary_expr :: "variant list" where
  "rule_unary_expr = [
    reduce_default [N ''postfix_expr''],
    reduce [T TKN_INC_OP, N ''unary_expr''] ''unary_expr_incdec'' 0,
    reduce [T TKN_DEC_OP, N ''unary_expr''] ''unary_expr_incdec'' 1,
    reduce [N ''unary_op'', N ''cast_expr''] ''unary_expr_op'' 0,
    reduce [T TKN_SIZEOF, N ''unary_expr''] ''unary_expr_sizeof'' 0,
    reduce [T TKN_SIZEOF, T TKN_HASH, N ''type''] ''unary_expr_sizeof'' 1,
    reduce_default [N ''builtin_func'']]"

definition rule_builtin_func :: "variant list" where
  "rule_builtin_func = [
    reduce [T TKN_NEW, T TKN_LPAREN, N ''type'', T TKN_RPAREN] ''builtin_func_new'' 0,
    reduce [T TKN_NEW, T TKN_LPAREN, N ''type'', T TKN_COMMA, N ''expr'', T TKN_RPAREN] ''builtin_func_new'' 1,
    reduce [T TKN_FREE, T TKN_LPAREN, N ''expr'', T TKN_RPAREN] ''builtin_func_free'' 0,
    reduce [T TKN_MAKE, T TKN_LPAREN, N ''type'', T TKN_COMMA, N ''expr'', T TKN_RPAREN] ''builtin_func_make'' 0,
    reduce [T TKN_LEN, T TKN_LPAREN, N ''expr'', T TKN_RPAREN] ''builtin_func_lencap'' 0,
    reduce [T TKN_CAP, T TKN_LPAREN, N ''expr'', T TKN_RPAREN] ''builtin_func_lencap'' 1,
    reduce [T TKN_DISPOSE, T TKN_LPAREN, N ''expr'', T TKN_RPAREN] ''builtin_func_dispose'' 0]"

definition rule_unary_op :: "variant list" where
  "rule_unary_op = [
    reduce [T TKN_BITWISE_AND] ''unary_op'' 0,
    reduce [T TKN_MUL_OP] ''unary_op'' 0,
    reduce [T TKN_ADD_OP] ''unary_op'' 0,
    reduce [T TKN_SUB_OP] ''unary_op'' 0,
    reduce [T TKN_BITWISE_NOT] ''unary_op'' 0,
    reduce [T TKN_NOT_OP] ''unary_op'' 0]"

definition rule_cast_expr :: "variant list" where
  "rule_cast_expr = [
    reduce_default [N ''unary_expr''],
    reduce [T TKN_HASH, T TKN_LPAREN, N ''type'', T TKN_RPAREN, N ''cast_expr''] ''cast_expr'' 0,
    reduce [T TKN_HASH, N ''type'', T TKN_LPAREN, N ''expr'', T TKN_RPAREN] ''cast_expr2'' 0]"

definition rule_multiplicative_expr :: "variant list" where
  "rule_multiplicative_expr = [
    reduce_default [N ''cast_expr''],
    reduce [N ''multiplicative_expr'', T TKN_MUL_OP, N ''cast_expr''] ''binary_expr'' 0,
    reduce [N ''multiplicative_expr'', T TKN_DIV_OP, N ''cast_expr''] ''binary_expr'' 0,
    reduce [N ''multiplicative_expr'', T TKN_MOD_OP, N ''cast_expr''] ''binary_expr'' 0]"

definition rule_additive_expr :: "variant list" where
  "rule_additive_expr = [
    reduce_default [N ''multiplicative_expr''],
    reduce [N ''additive_expr'', T TKN_ADD_OP, N ''multiplicative_expr''] ''binary_expr'' 1,
    reduce [N ''additive_expr'', T TKN_SUB_OP, N ''multiplicative_expr''] ''binary_expr'' 1]"

definition rule_shift_expr :: "variant list" where
  "rule_shift_expr = [
    reduce_default [N ''additive_expr''],
    reduce [N ''shift_expr'', T TKN_LEFT_OP, N ''additive_expr''] ''binary_expr'' 2,
    reduce [N ''shift_expr'', T TKN_RIGHT_OP, N ''additive_expr''] ''binary_expr'' 2]"

definition rule_relational_expr :: "variant list" where
  "rule_relational_expr = [
    reduce_default [N ''shift_expr''],
    reduce [N ''relational_expr'', T TKN_LT_OP, N ''shift_expr''] ''binary_expr'' 3,
    reduce [N ''relational_expr'', T TKN_GT_OP, N ''shift_expr''] ''binary_expr'' 3,
    reduce [N ''relational_expr'', T TKN_LE_OP, N ''shift_expr''] ''binary_expr'' 3,
    reduce [N ''relational_expr'', T TKN_GE_OP, N ''shift_expr''] ''binary_expr'' 3]"

definition rule_equality_expr :: "variant list" where
  "rule_equality_expr = [
    reduce_default [N ''relational_expr''],
    reduce [N ''equality_expr'', T TKN_EQ_OP, N ''relational_expr''] ''binary_expr'' 4,
    reduce [N ''equality_expr'', T TKN_NE_OP, N ''relational_expr''] ''binary_expr'' 4]"

definition rule_bitwise_and_expr :: "variant list" where
  "rule_bitwise_and_expr = [
    reduce_default [N ''equality_expr''],
    reduce [N ''bitwise_and_expr'', T TKN_BITWISE_AND, N ''equality_expr''] ''binary_expr'' 5]"

definition rule_bitwise_xor_expr :: "variant list" where
  "rule_bitwise_xor_expr = [
    reduce_default [N ''bitwise_and_expr''],
    reduce [N ''bitwise_xor_expr'', T TKN_BITWISE_XOR, N ''bitwise_and_expr''] ''binary_expr'' 6]"

definition rule_bitwise_or_expr :: "variant list" where
  "rule_bitwise_or_expr = [
    reduce_default [N ''bitwise_xor_expr''],
    reduce [N ''bitwise_or_expr'', T TKN_BITWISE_OR, N ''bitwise_xor_expr''] ''binary_expr'' 7]"

definition rule_and_expr :: "variant list" where
  "rule_and_expr = [
    reduce_default [N ''bitwise_or_expr''],
    reduce [N ''and_expr'', T TKN_AND_OP, N ''bitwise_or_expr''] ''binary_expr'' 8]"

definition rule_or_expr :: "variant list" where
  "rule_or_expr = [
    reduce_default [N ''and_expr''],
    reduce [N ''or_expr'', T TKN_OR_OP, N ''and_expr''] ''binary_expr'' 9]"

definition rule_conditional_expr :: "variant list" where
  "rule_conditional_expr = [
    reduce_default [N ''or_expr''],
    reduce [N ''or_expr'', T TKN_QUESTION, N ''expr'', T TKN_COLON, N ''conditional_expr''] ''conditional_expr'' 0]"

definition rule_assignment_expr :: "variant list" where
  "rule_assignment_expr = [
    reduce_default [N ''conditional_expr''],
    reduce [N ''unary_expr'', N ''assignment_op'', N ''assignment_expr''] ''assignment_expr'' 0]"

definition rule_assignment_op :: "variant list" where
  "rule_assignment_op = [
    reduce [T TKN_ASSIGN] ''assignment_op'' 0,
    reduce [T TKN_ADD_ASSIGN] ''assignment_op'' 0,
    reduce [T TKN_AND_ASSIGN] ''assignment_op'' 0,
    reduce [T TKN_DIV_ASSIGN] ''assignment_op'' 0,
    reduce [T TKN_LEFT_ASSIGN] ''assignment_op'' 0,
    reduce [T TKN_MOD_ASSIGN] ''assignment_op'' 0,
    reduce [T TKN_MUL_ASSIGN] ''assignment_op'' 0,
    reduce [T TKN_OR_ASSIGN] ''assignment_op'' 0,
    reduce [T TKN_RIGHT_ASSIGN] ''assignment_op'' 0,
    reduce [T TKN_SUB_ASSIGN] ''assignment_op'' 0,
    reduce [T TKN_XOR_ASSIGN] ''assignment_op'' 0]"

definition rule_expr :: "variant list" where
  "rule_expr = [
    reduce_default [N ''assignment_expr''],
    reduce [N ''expr'', T TKN_COMMA, N ''assignment_expr''] ''expr_comma'' 0]"

definition rule_expr_stmt :: "variant list" where
  "rule_expr_stmt = [
    reduce_default [T TKN_SEMICOLON],
    reduce [N ''expr'', T TKN_SEMICOLON] ''expr_stmt'' 0]"

definition rule_compound_stmt :: "variant list" where
  "rule_compound_stmt = [
    reduce_default [T TKN_LBRACE, T TKN_RBRACE],
    reduce [T TKN_LBRACE, N ''block_item_list'', T TKN_RBRACE] ''compound_stmt'' 0]"

definition rule_block_item_list :: "variant list" where
  "rule_block_item_list = [
    reduce [N ''block_item''] ''block_item_list'' 0,
    reduce [N ''block_item_list'', N ''block_item''] ''block_item_list'' 1]"

definition rule_block_item :: "variant list" where
  "rule_block_item = [
    reduce [N ''decl''] ''block_item_decl'' 0,
    reduce [N ''stmt''] ''block_item_stmt'' 0]"

definition rule_selection_stmt :: "variant list" where
  "rule_selection_stmt = [
    reduce [T TKN_IF, N ''expr'', N ''compound_stmt''] ''selection_stmt_if'' 0,
    reduce [T TKN_IF, N ''expr'', N ''compound_stmt'', T TKN_ELSE, N ''stmt''] ''selection_stmt_if'' 1,
    reduce [T TKN_SWITCH, T TKN_LPAREN, N ''expr'', T TKN_RPAREN, N ''stmt''] ''selection_stmt_switch'' 0]"

definition rule_iteration_stmt :: "variant list" where
  "rule_iteration_stmt = [
    reduce [T TKN_DO, N ''stmt'', T TKN_WHILE, T TKN_LPAREN, N ''expr'', T TKN_RPAREN, T TKN_SEMICOLON] ''iteration_stmt_do'' 0,
    reduce [N ''iteration_stmt_for_step'', N ''compound_stmt''] ''iteration_stmt_for'' 0,
    reduce [N ''iteration_stmt_for_while'', N ''compound_stmt''] ''iteration_stmt_for'' 0]"

definition rule_iteration_stmt_for_init :: "variant list" where
  "rule_iteration_stmt_for_init = [
    reduce [T TKN_FOR, T TKN_SEMICOLON] ''iteration_stmt_for_init'' 0,
    reduce [T TKN_FOR, N ''expr'', T TKN_SEMICOLON] ''iteration_stmt_for_init'' 1]"

definition rule_iteration_stmt_for_cond :: "variant list" where
  "rule_iteration_stmt_for_cond = [
    reduce [N ''iteration_stmt_for_init'', T TKN_SEMICOLON] ''iteration_stmt_for_cond'' 0,
    reduce [N ''iteration_stmt_for_init'', N ''expr'', T TKN_SEMICOLON] ''iteration_stmt_for_cond'' 1]"

definition rule_iteration_stmt_for_step :: "variant list" where
  "rule_iteration_stmt_for_step = [
    reduce [N ''iteration_stmt_for_cond''] ''iteration_stmt_for_step'' 0,
    reduce [N ''iteration_stmt_for_cond'', N ''expr''] ''iteration_stmt_for_step'' 1]"

definition rule_iteration_stmt_for_while :: "variant list" where
  "rule_iteration_stmt_for_while = [
    reduce [T TKN_FOR] ''iteration_stmt_for_while'' 0,
    reduce [T TKN_FOR, N ''expr''] ''iteration_stmt_for_while'' 1]"

definition rule_jump_stmt :: "variant list" where
  "rule_jump_stmt = [
    reduce [T TKN_GOTO, T TKN_IDENT, T TKN_SEMICOLON] ''jump_stmt_goto'' 0,
    reduce [T TKN_CONTINUE, T TKN_SEMICOLON] ''jump_stmt_continue'' 0,
    reduce [T TKN_BREAK, T TKN_SEMICOLON] ''jump_stmt_break'' 0,
    reduce [T TKN_RETURN, T TKN_SEMICOLON] ''jump_stmt_return'' 0,
    reduce [T TKN_RETURN, N ''expr'', T TKN_SEMICOLON] ''jump_stmt_return'' 1]"

definition rule_labeled_stmt :: "variant list" where
  "rule_labeled_stmt = [
    reduce [T TKN_CASE, N ''expr'', T TKN_COLON, N ''stmt''] ''labeled_stmt_case'' 0,
    reduce [T TKN_DEFAULT, T TKN_COLON, N ''stmt''] ''labeled_stmt_default'' 0]"

definition rule_stmt :: "variant list" where
  "rule_stmt = [
    reduce_default [N ''expr_stmt''],
    reduce_default [N ''compound_stmt''],
    reduce_default [N ''selection_stmt''],
    reduce_default [N ''iteration_stmt''],
    reduce_default [N ''jump_stmt''],
    reduce_default [N ''labeled_stmt'']]"

definition rule_variable_decl :: "variant list" where
  "rule_variable_decl = [
    reduce [T TKN_VAR, N ''type'', T TKN_IDENT, T TKN_SEMICOLON] ''variable_decl'' 0,
    reduce [T TKN_VAR, N ''type'', T TKN_IDENT, T TKN_ASSIGN, N ''assignment_expr'', T TKN_SEMICOLON] ''variable_decl'' 1,
    reduce [T TKN_VAR, T TKN_IDENT, T TKN_ASSIGN, N ''assignment_expr'', T TKN_SEMICOLON] ''variable_decl'' 2,
    reduce [T TKN_IDENT, T TKN_COLON, N ''type'', T TKN_SEMICOLON] ''variable_decl2'' 0,
    reduce [T TKN_IDENT, T TKN_COLON, N ''type'', T TKN_ASSIGN, N ''assignment_expr'', T TKN_SEMICOLON] ''variable_decl2'' 1,
    reduce [T TKN_IDENT, T TKN_DEF_ASSIGN, N ''assignment_expr'', T TKN_SEMICOLON] ''variable_decl2'' 2]"

definition rule_const_decl :: "variant list" where
  "rule_const_decl = [
    reduce [T TKN_CONST, T TKN_IDENT, T TKN_ASSIGN, N ''assignment_expr'', T TKN_SEMICOLON] ''const_decl'' 0,
    reduce [T TKN_CONST, T TKN_IDENT, N ''type'', T TKN_ASSIGN, N ''assignment_expr'', T TKN_SEMICOLON] ''const_decl'' 1]"

definition rule_implementation_decl :: "variant list" where
  "rule_implementation_decl = [
    reduce [T TKN_INTERFACE, N ''type'', T TKN_LPAREN, N ''type'', T TKN_RPAREN, T TKN_LBRACE, N ''implementation_mapping_list'', T TKN_RBRACE] ''implementation_decl'' 0]"

definition rule_implementation_mapping_list :: "variant list" where
  "rule_implementation_mapping_list = [
    reduce [N ''implementation_mapping''] ''implementation_mapping_list'' 0,
    reduce [N ''implementation_mapping_list'', N ''implementation_mapping''] ''implementation_mapping_list'' 1]"

definition rule_implementation_mapping :: "variant list" where
  "rule_implementation_mapping = [
    reduce [T TKN_IDENT, T TKN_ASSIGN, T TKN_IDENT, T TKN_SEMICOLON] ''implementation_mapping'' 0]"

definition rule_decl :: "variant list" where
  "rule_decl = [
    reduce_default [N ''variable_decl''],
    reduce_default [N ''const_decl''],
    reduce_default [N ''implementation_decl'']]"

definition rule_type :: "variant list" where
  "rule_type = [
    reduce [T TKN_VOID] ''type_void'' 0,
    reduce [T TKN_IDENT] ''type_name'' 0,
    reduce [T TKN_MUL_OP, N ''type''] ''type_pointer'' 0,
    reduce [T TKN_STRUCT, T TKN_LBRACE, N ''struct_member_list'', T TKN_RBRACE] ''type_struct'' 0,
    reduce [T TKN_LBRACK, T TKN_NUMBER_LITERAL, T TKN_RBRACK, N ''type''] ''type_array'' 0,
    reduce [T TKN_LBRACK, T TKN_RBRACK, N ''type''] ''type_slice'' 0,
    reduce [T TKN_FUNC, T TKN_LPAREN, T TKN_RPAREN, N ''type''] ''type_func'' 0,
    reduce [T TKN_FUNC, T TKN_LPAREN, N ''func_type_args'', T TKN_RPAREN, N ''type''] ''type_func'' 1,
    reduce [T TKN_INTERFACE, T TKN_LBRACE, T TKN_RBRACE] ''type_interface'' 0,
    reduce [T TKN_INTERFACE, T TKN_LBRACE, N ''interface_member_list'', T TKN_RBRACE] ''type_interface'' 1]"

definition rule_struct_member_list :: "variant list" where
  "rule_struct_member_list = [
    reduce [N ''struct_member''] ''struct_member_list'' 0,
    reduce [N ''struct_member_list'', N ''struct_member''] ''struct_member_list'' 1]"

definition rule_struct_member :: "variant list" where
  "rule_struct_member = [
    reduce [N ''type'', T TKN_IDENT, T TKN_SEMICOLON] ''struct_member'' 0,
    reduce [T TKN_IDENT, T TKN_COLON, N ''type'', T TKN_SEMICOLON] ''struct_member2'' 0]"

definition rule_func_type_args :: "variant list" where
  "rule_func_type_args = [
    reduce [N ''type''] ''func_type_args'' 0,
    reduce [N ''func_type_args'', T TKN_COMMA, N ''type''] ''func_type_args'' 1]"

definition rule_interface_member_list :: "variant list" where
  "rule_interface_member_list = [
    reduce [N ''interface_member''] ''interface_member_list'' 0,
    reduce [N ''interface_member_list'', N ''interface_member''] ''interface_member_list'' 1]"

definition rule_interface_member :: "variant list" where
  "rule_interface_member = [
    reduce [T TKN_IDENT, T TKN_COLON, N ''type'', T TKN_SEMICOLON] ''interface_member_field'' 0,
    reduce [T TKN_FUNC, T TKN_IDENT, T TKN_LPAREN, N ''interface_member_func_parameter_list'', T TKN_RPAREN, N ''type'', T TKN_SEMICOLON] ''interface_member_func'' 0]"

definition rule_interface_member_func_parameter_list :: "variant list" where
  "rule_interface_member_func_parameter_list = [
    reduce [N ''interface_member_func_parameter''] ''interface_member_func_parameter_list'' 0,
    reduce [N ''interface_member_func_parameter_list'', T TKN_COMMA, N ''interface_member_func_parameter''] ''interface_member_func_parameter_list'' 1]"

definition rule_interface_member_func_parameter :: "variant list" where
  "rule_interface_member_func_parameter = [
    reduce [T TKN_HASH] ''interface_member_func_parameter'' 0,
    reduce_default [N ''type'']]"

definition rule_import_unit :: "variant list" where
  "rule_import_unit = [
    reduce [T TKN_IMPORT, T TKN_STRING_LITERAL, T TKN_SEMICOLON] ''import_unit'' 0]"

definition rule_package_unit :: "variant list" where
  "rule_package_unit = [
    reduce [T TKN_PACKAGE, T TKN_STRING_LITERAL, T TKN_SEMICOLON] ''package_unit'' 0]"

definition rule_decl_unit :: "variant list" where
  "rule_decl_unit = [
    reduce [N ''decl''] ''decl_unit'' 0]"

definition rule_func_unit :: "variant list" where
  "rule_func_unit = [
    reduce [N ''func_unit_decl'', T TKN_SEMICOLON] ''func_unit'' 0,
    reduce [N ''func_unit_decl'', N ''compound_stmt''] ''func_unit'' 1]"

definition rule_func_unit_decl :: "variant list" where
  "rule_func_unit_decl = [
    reduce [N ''type'', T TKN_IDENT, T TKN_LPAREN, T TKN_RPAREN] ''func_unit_decl'' 0,
    reduce [N ''type'', T TKN_IDENT, T TKN_LPAREN, T TKN_ELLIPSIS, T TKN_RPAREN] ''func_unit_decl'' 1,
    reduce [N ''type'', T TKN_IDENT, T TKN_LPAREN, N ''parameter_list'', T TKN_RPAREN] ''func_unit_decl'' 2,
    reduce [N ''type'', T TKN_IDENT, T TKN_LPAREN, N ''parameter_list'', T TKN_COMMA, T TKN_ELLIPSIS, T TKN_RPAREN] ''func_unit_decl'' 3,
    reduce [T TKN_FUNC, T TKN_IDENT, T TKN_LPAREN, T TKN_RPAREN, N ''type''] ''func_unit_decl2'' 0,
    reduce [T TKN_FUNC, T TKN_IDENT, T TKN_LPAREN, T TKN_ELLIPSIS, T TKN_RPAREN, N ''type''] ''func_unit_decl2'' 1,
    reduce [T TKN_FUNC, T TKN_IDENT, T TKN_LPAREN, N ''parameter_list'', T TKN_RPAREN, N ''type''] ''func_unit_decl2'' 2,
    reduce [T TKN_FUNC, T TKN_IDENT, T TKN_LPAREN, N ''parameter_list'', T TKN_COMMA, T TKN_ELLIPSIS, T TKN_RPAREN, N ''type''] ''func_unit_decl2'' 3]"

definition rule_parameter_list :: "variant list" where
  "rule_parameter_list = [
    reduce [N ''parameter''] ''parameter_list'' 0,
    reduce [N ''parameter_list'', T TKN_COMMA, N ''parameter''] ''parameter_list'' 1]"

definition rule_parameter :: "variant list" where
  "rule_parameter = [
    reduce [N ''type''] ''parameter'' 0,
    reduce [T TKN_IDENT, N ''type''] ''parameter'' 1]"

definition rule_type_unit :: "variant list" where
  "rule_type_unit = [
    reduce [T TKN_TYPE, T TKN_IDENT, T TKN_COLON, N ''type'', T TKN_SEMICOLON] ''type_unit'' 0]"

definition rule_unit_list :: "variant list" where
  "rule_unit_list = [
    reduce [N ''unit''] ''unit_list'' 0,
    reduce [N ''unit_list'', N ''unit''] ''unit_list'' 1]"

definition rule_unit :: "variant list" where
  "rule_unit = [
    reduce_default [N ''import_unit''],
    reduce_default [N ''package_unit''],
    reduce_default [N ''decl_unit''],
    reduce_default [N ''func_unit''],
    reduce_default [N ''type_unit''],
    reduce_default [T TKN_SEMICOLON]]"

definition grammar :: "(string \<times> variant list) list" where
  "grammar = [
    (''primary_expr'', rule_primary_expr),
    (''postfix_expr'', rule_postfix_expr),
    (''argument_expr_list'', rule_argument_expr_list),
    (''unary_expr'', rule_unary_expr),
    (''builtin_func'', rule_builtin_func),
    (''unary_op'', rule_unary_op),
    (''cast_expr'', rule_cast_expr),
    (''multiplicative_expr'', rule_multiplicative_expr),
    (''additive_expr'', rule_additive_expr),
    (''shift_expr'', rule_shift_expr),
    (''relational_expr'', rule_relational_expr),
    (''equality_expr'', rule_equality_expr),
    (''bitwise_and_expr'', rule_bitwise_and_expr),
    (''bitwise_xor_expr'', rule_bitwise_xor_expr),
    (''bitwise_or_expr'', rule_bitwise_or_expr),
    (''and_expr'', rule_and_expr),
    (''or_expr'', rule_or_expr),
    (''conditional_expr'', rule_conditional_expr),
    (''assignment_expr'', rule_assignment_expr),
    (''assignment_op'', rule_assignment_op),
    (''expr'', rule_expr),
    (''expr_stmt'', rule_expr_stmt),
    (''compound_stmt'', rule_compound_stmt),
    (''block_item_list'', rule_block_item_list),
    (''block_item'', rule_block_item),
    (''selection_stmt'', rule_selection_stmt),
    (''iteration_stmt'', rule_iteration_stmt),
    (''iteration_stmt_for_init'', rule_iteration_stmt_for_init),
    (''iteration_stmt_for_cond'', rule_iteration_stmt_for_cond),
    (''iteration_stmt_for_step'', rule_iteration_stmt_for_step),
    (''iteration_stmt_for_while'', rule_iteration_stmt_for_while),
    (''jump_stmt'', rule_jump_stmt),
    (''labeled_stmt'', rule_labeled_stmt),
    (''stmt'', rule_stmt),
    (''variable_decl'', rule_variable_decl),
    (''const_decl'', rule_const_decl),
    (''implementation_decl'', rule_implementation_decl),
    (''implementation_mapping_list'', rule_implementation_mapping_list),
    (''implementation_mapping'', rule_implementation_mapping),
    (''decl'', rule_decl),
    (''type'', rule_type),
    (''struct_member_list'', rule_struct_member_list),
    (''struct_member'', rule_struct_member),
    (''func_type_args'', rule_func_type_args),
    (''interface_member_list'', rule_interface_member_list),
    (''interface_member'', rule_interface_member),
    (''interface_member_func_parameter_list'', rule_interface_member_func_parameter_list),
    (''interface_member_func_parameter'', rule_interface_member_func_parameter),
    (''import_unit'', rule_import_unit),
    (''package_unit'', rule_package_unit),
    (''decl_unit'', rule_decl_unit),
    (''func_unit'', rule_func_unit),
    (''func_unit_decl'', rule_func_unit_decl),
    (''parameter_list'', rule_parameter_list),
    (''parameter'', rule_parameter),
    (''type_unit'', rule_type_unit),
    (''unit_list'', rule_unit_list),
    (''unit'', rule_unit)]"

definition grammar_root :: "string \<times> variant list" where
  "grammar_root = (''root'', [\<lparr>v_elements = [N ''unit_list''], v_reducer = Some ''0 /* accept */'', v_tag = 0\<rparr>])"

subsection \<open>Reducers by name\<close>

definition reducers :: "(string \<times> reducer) list" where
  "reducers = [
    (''argument_expr_list'', reduce_argument_expr_list),
    (''assignment_expr'', reduce_assignment_expr),
    (''assignment_op'', reduce_assignment_op),
    (''binary_expr'', reduce_binary_expr),
    (''block_item_decl'', reduce_block_item_decl),
    (''block_item_list'', reduce_block_item_list),
    (''block_item_stmt'', reduce_block_item_stmt),
    (''builtin_func_dispose'', reduce_builtin_func_dispose),
    (''builtin_func_free'', reduce_builtin_func_free),
    (''builtin_func_lencap'', reduce_builtin_func_lencap),
    (''builtin_func_make'', reduce_builtin_func_make),
    (''builtin_func_new'', reduce_builtin_func_new),
    (''cast_expr'', reduce_cast_expr),
    (''cast_expr2'', reduce_cast_expr2),
    (''compound_stmt'', reduce_compound_stmt),
    (''conditional_expr'', reduce_conditional_expr),
    (''const_decl'', reduce_const_decl),
    (''decl_unit'', reduce_decl_unit),
    (''expr_comma'', reduce_expr_comma),
    (''expr_stmt'', reduce_expr_stmt),
    (''func_type_args'', reduce_func_type_args),
    (''func_unit'', reduce_func_unit),
    (''func_unit_decl'', reduce_func_unit_decl),
    (''func_unit_decl2'', reduce_func_unit_decl2),
    (''implementation_decl'', reduce_implementation_decl),
    (''implementation_mapping'', reduce_implementation_mapping),
    (''implementation_mapping_list'', reduce_implementation_mapping_list),
    (''import_unit'', reduce_import_unit),
    (''interface_member_field'', reduce_interface_member_field),
    (''interface_member_func'', reduce_interface_member_func),
    (''interface_member_func_parameter'', reduce_interface_member_func_parameter),
    (''interface_member_func_parameter_list'', reduce_interface_member_func_parameter_list),
    (''interface_member_list'', reduce_interface_member_list),
    (''iteration_stmt_do'', reduce_iteration_stmt_do),
    (''iteration_stmt_for'', reduce_iteration_stmt_for),
    (''iteration_stmt_for_cond'', reduce_iteration_stmt_for_cond),
    (''iteration_stmt_for_init'', reduce_iteration_stmt_for_init),
    (''iteration_stmt_for_step'', reduce_iteration_stmt_for_step),
    (''iteration_stmt_for_while'', reduce_iteration_stmt_for_while),
    (''jump_stmt_break'', reduce_jump_stmt_break),
    (''jump_stmt_continue'', reduce_jump_stmt_continue),
    (''jump_stmt_goto'', reduce_jump_stmt_goto),
    (''jump_stmt_return'', reduce_jump_stmt_return),
    (''labeled_stmt_case'', reduce_labeled_stmt_case),
    (''labeled_stmt_default'', reduce_labeled_stmt_default),
    (''package_unit'', reduce_package_unit),
    (''parameter'', reduce_parameter),
    (''parameter_list'', reduce_parameter_list),
    (''postfix_expr_call'', reduce_postfix_expr_call),
    (''postfix_expr_incdec'', reduce_postfix_expr_incdec),
    (''postfix_expr_index'', reduce_postfix_expr_index),
    (''postfix_expr_member'', reduce_postfix_expr_member),
    (''postfix_expr_slice'', reduce_postfix_expr_slice),
    (''primary_expr_ident'', reduce_primary_expr_ident),
    (''primary_expr_number'', reduce_primary_expr_number),
    (''primary_expr_paren'', reduce_primary_expr_paren),
    (''primary_expr_string'', reduce_primary_expr_string),
    (''selection_stmt_if'', reduce_selection_stmt_if),
    (''selection_stmt_switch'', reduce_selection_stmt_switch),
    (''struct_member'', reduce_struct_member),
    (''struct_member2'', reduce_struct_member2),
    (''struct_member_list'', reduce_struct_member_list),
    (''type_array'', reduce_type_array),
    (''type_func'', reduce_type_func),
    (''type_interface'', reduce_type_interface),
    (''type_name'', reduce_type_name),
    (''type_pointer'', reduce_type_pointer),
    (''type_slice'', reduce_type_slice),
    (''type_struct'', reduce_type_struct),
    (''type_unit'', reduce_type_unit),
    (''type_void'', reduce_type_void),
    (''unary_expr_incdec'', reduce_unary_expr_incdec),
    (''unary_expr_op'', reduce_unary_expr_op),
    (''unary_expr_sizeof'', reduce_unary_expr_sizeof),
    (''unary_op'', reduce_unary_op),
    (''unit_list'', reduce_unit_list),
    (''variable_decl'', reduce_variable_decl),
    (''variable_decl2'', reduce_variable_decl2)]"

definition run_reducer :: "string \<Rightarrow> reducer option" where
  "run_reducer = map_of reducers"

end
