(* ===== verification/Grammar_Typing.thy ===== *)
theory Grammar_Typing
  imports Grammar
begin

section \<open>The semantic actions fit the grammar\<close>

text \<open>
  \<open>value_ok r v\<close> says which values a token of rule \<open>r\<close> carries. The main property goes through
  all productions: a reducer that is run on tokens with the values of the symbols of its
  right-hand side never uses a pointer as something it is not and never reads past the
  right-hand side, and gives a value of its rule; what can fail is the text of a literal. The one
  exception is the list of the mappings of an implementation.
\<close>

subsection \<open>The values of a rule\<close>

definition expr_rules :: "string list" where
  "expr_rules = [''primary_expr'', ''postfix_expr'', ''unary_expr'', ''builtin_func'', ''cast_expr'',
     ''multiplicative_expr'', ''additive_expr'', ''shift_expr'', ''relational_expr'',
     ''equality_expr'', ''bitwise_and_expr'', ''bitwise_xor_expr'', ''bitwise_or_expr'',
     ''and_expr'', ''or_expr'', ''conditional_expr'', ''assignment_expr'', ''expr'']"

text \<open>The empty statement and the empty block are null pointers, and so is a lone semicolon.\<close>

definition null_rules :: "string list" where
  "null_rules = [''expr_stmt'', ''compound_stmt'', ''stmt'', ''unit'']"

definition stmt_rules :: "string list" where
  "stmt_rules = [''expr_stmt'', ''compound_stmt'', ''stmt'', ''selection_stmt'', ''iteration_stmt'',
     ''jump_stmt'', ''labeled_stmt'']"

definition loop_rules :: "string list" where
  "loop_rules = [''iteration_stmt_for_init'', ''iteration_stmt_for_cond'',
     ''iteration_stmt_for_step'', ''iteration_stmt_for_while'']"

definition decl_rules :: "string list" where
  "decl_rules = [''variable_decl'', ''const_decl'', ''implementation_decl'', ''decl'']"

definition type_rules :: "string list" where
  "type_rules = [''type'', ''interface_member_func_parameter'']"

definition types_rules :: "string list" where
  "types_rules = [''func_type_args'', ''interface_member_func_parameter_list'']"

definition unit_rules :: "string list" where
  "unit_rules = [''import_unit'', ''package_unit'', ''decl_unit'', ''func_unit'', ''type_unit'', ''unit'']"

definition is_for :: "stmt \<Rightarrow> bool" where
  "is_for s = (case stmt_kind s of For_Stmt _ _ _ _ \<Rightarrow> True | _ \<Rightarrow> False)"

definition is_func :: "unit_t \<Rightarrow> bool" where
  "is_func u = (case unit_kind u of Func_Unit _ \<Rightarrow> True | _ \<Rightarrow> False)"

definition value_ok :: "string \<Rightarrow> sval \<Rightarrow> bool" where
  "value_ok r v = (case v of
     V_Null \<Rightarrow> r \<in> set null_rules
   | V_Unary_Op _ \<Rightarrow> r = ''unary_op''
   | V_Assign_Op _ \<Rightarrow> r = ''assignment_op''
   | V_Expr _ \<Rightarrow> r \<in> set expr_rules
   | V_Exprs _ \<Rightarrow> r = ''argument_expr_list''
   | V_Stmt s \<Rightarrow> r \<in> set stmt_rules \<or> r \<in> set loop_rules \<and> is_for s
   | V_Item _ \<Rightarrow> r = ''block_item''
   | V_Items _ \<Rightarrow> r = ''block_item_list''
   | V_Decl _ \<Rightarrow> r \<in> set decl_rules
   | V_Mapping _ \<Rightarrow> r = ''implementation_mapping''
   | V_Mappings _ \<Rightarrow> r = ''implementation_mapping_list''
   | V_Type _ \<Rightarrow> r \<in> set type_rules
   | V_Types _ \<Rightarrow> r \<in> set types_rules
   | V_Struct_Member _ \<Rightarrow> r = ''struct_member''
   | V_Struct_Members _ \<Rightarrow> r = ''struct_member_list''
   | V_Interface_Member _ \<Rightarrow> r = ''interface_member''
   | V_Interface_Members _ \<Rightarrow> r = ''interface_member_list''
   | V_Param _ \<Rightarrow> r = ''parameter''
   | V_Params _ \<Rightarrow> r = ''parameter_list''
   | V_Unit u \<Rightarrow> r \<in> set unit_rules \<or> r = ''func_unit_decl'' \<and> is_func u
   | V_Units _ \<Rightarrow> r = ''unit_list'')"

text \<open>A token of a symbol: a shifted token carries no value.\<close>

definition token_ok :: "symbol \<Rightarrow> token \<Rightarrow> bool" where
  "token_ok x t = (case x of T k \<Rightarrow> t_id t = k \<and> t_val t = V_Null
     | N r \<Rightarrow> value_ok r (t_val t))"

text \<open>What the texts of tokens can be at fault for.\<close>

definition text_faults :: "fault set" where
  "text_faults = {Aborted ''unknown escape sequence'',
     Undefined ''read past the end of the buffer'',
     Undefined ''strndup reads past the end of the buffer'',
     Undefined ''atoi reads past the end of the buffer'',
     Undefined ''atoi: value out of range''}"

definition ends_ok :: "('a \<Rightarrow> bool) \<Rightarrow> 'a res \<Rightarrow> bool" where
  "ends_ok P m = (case m of Inl e \<Rightarrow> e \<in> text_faults | Inr x \<Rightarrow> P x)"

definition production_ok :: "string \<Rightarrow> variant \<Rightarrow> bool" where
  "production_ok r v \<longleftrightarrow> (\<forall>mem ts. list_all2 token_ok (v_elements v) ts \<longrightarrow>
     (case v_reducer v of
        None \<Rightarrow> value_ok r (t_val (hd ts))
      | Some f \<Rightarrow> (case run_reducer f of None \<Rightarrow> False
          | Some red \<Rightarrow> ends_ok (value_ok r) (red mem ts (v_tag v)))))"

lemma ends_ok_simps [simp]: "ends_ok P (Inr x) = P x" "ends_ok P (Inl e) \<longleftrightarrow> e \<in> text_faults"
  by (simp_all add: ends_ok_def)

named_theorems ends_ok_intros \<open>what a step that only reads text can end in\<close>

lemma ends_ok_bind: "ends_ok Q m \<Longrightarrow> (\<And>x. Q x \<Longrightarrow> ends_ok P (f x)) \<Longrightarrow> ends_ok P (rbind m f)"
  by (cases m) simp_all

lemma ends_ok_strndup [ends_ok_intros]: "(\<And>x. ends_ok P (f x)) \<Longrightarrow> ends_ok P (rbind (strndup mem p n) f)"
  by (auto simp: strndup_def Let_def text_faults_def)

lemma ends_ok_atoi [ends_ok_intros]: "(\<And>x. ends_ok P (f x)) \<Longrightarrow> ends_ok P (rbind (atoi bs) f)"
  by (auto simp: atoi_def Let_def text_faults_def)

lemma ends_ok_byte_at [ends_ok_intros]: "(\<And>x. ends_ok P (f x)) \<Longrightarrow> ends_ok P (rbind (byte_at mem p) f)"
  by (auto simp: byte_at_def text_faults_def)

lemma ends_ok_unescape [ends_ok_intros]: "(\<And>x. ends_ok P (f x)) \<Longrightarrow> ends_ok P (rbind (unescape n cs) f)"
proof (induction n cs arbitrary: f rule: unescape.induct)
  case (3 n c cs)
  then show ?case
    by (cases cs) (auto simp: rbind_assoc escape_def text_faults_def)
qed (simp_all add: text_faults_def)

lemma ends_ok_extract_loop [ends_ok_intros]:
  "(\<And>x. ends_ok P (f x)) \<Longrightarrow> ends_ok P (rbind (extract_loop n str lit j) f)"
  by (induction n str lit j rule: extract_loop.induct) (simp_all add: text_faults_def)

lemma ends_ok_type_of_name [ends_ok_intros]:
  "(\<And>x. ends_ok P (f x)) \<Longrightarrow> ends_ok P (rbind (type_of_name n) f)"
  by (auto simp: type_of_name_def rbind_assoc intro: ends_ok_atoi)

lemma ends_ok_radix [ends_ok_intros]:
  "(\<And>x. ends_ok P (f x)) \<Longrightarrow> ends_ok P (rbind (determine_radix mem a b) f)"
  by (auto simp: determine_radix_def radix_prefix_def rbind_assoc intro!: ends_ok_byte_at ends_ok_strndup ends_ok_atoi)

text \<open>The values of each rule, as rewrite rules for the symbols of a right-hand side.\<close>

lemmas rule_sets = expr_rules_def null_rules_def stmt_rules_def loop_rules_def decl_rules_def
  type_rules_def types_rules_def unit_rules_def

lemma is_for_conv: "is_for s \<longleftrightarrow> (\<exists>l i c st b. s = Stmt l (For_Stmt i c st b))"
  by (cases s) (auto simp: is_for_def split: stmt_kind.split)

lemma is_func_conv: "is_func u \<longleftrightarrow> (\<exists>l f. u = Unit l (Func_Unit f))"
  by (cases u) (auto simp: is_func_def split: unit_kind.split)

lemma value_ok_rules:
  "value_ok ''primary_expr'' v \<longleftrightarrow> (\<exists>x. v = V_Expr x)"
  "value_ok ''postfix_expr'' v \<longleftrightarrow> (\<exists>x. v = V_Expr x)"
  "value_ok ''argument_expr_list'' v \<longleftrightarrow> (\<exists>x. v = V_Exprs x)"
  "value_ok ''unary_expr'' v \<longleftrightarrow> (\<exists>x. v = V_Expr x)"
  "value_ok ''builtin_func'' v \<longleftrightarrow> (\<exists>x. v = V_Expr x)"
  "value_ok ''unary_op'' v \<longleftrightarrow> (\<exists>x. v = V_Unary_Op x)"
  "value_ok ''cast_expr'' v \<longleftrightarrow> (\<exists>x. v = V_Expr x)"
  "value_ok ''multiplicative_expr'' v \<longleftrightarrow> (\<exists>x. v = V_Expr x)"
  "value_ok ''additive_expr'' v \<longleftrightarrow> (\<exists>x. v = V_Expr x)"
  "value_ok ''shift_expr'' v \<longleftrightarrow> (\<exists>x. v = V_Expr x)"
  "value_ok ''relational_expr'' v \<longleftrightarrow> (\<exists>x. v = V_Expr x)"
  "value_ok ''equality_expr'' v \<longleftrightarrow> (\<exists>x. v = V_Expr x)"
  "value_ok ''bitwise_and_expr'' v \<longleftrightarrow> (\<exists>x. v = V_Expr x)"
  "value_ok ''bitwise_xor_expr'' v \<longleftrightarrow> (\<exists>x. v = V_Expr x)"
  "value_ok ''bitwise_or_expr'' v \<longleftrightarrow> (\<exists>x. v = V_Expr x)"
  "value_ok ''and_expr'' v \<longleftrightarrow> (\<exists>x. v = V_Expr x)"
  "value_ok ''or_expr'' v \<longleftrightarrow> (\<exists>x. v = V_Expr x)"
  "value_ok ''conditional_expr'' v \<longleftrightarrow> (\<exists>x. v = V_Expr x)"
  "value_ok ''assignment_expr'' v \<longleftrightarrow> (\<exists>x. v = V_Expr x)"
  "value_ok ''assignment_op'' v \<longleftrightarrow> (\<exists>x. v = V_Assign_Op x)"
  "value_ok ''expr'' v \<longleftrightarrow> (\<exists>x. v = V_Expr x)"
  "value_ok ''expr_stmt'' v \<longleftrightarrow> (v = V_Null \<or> (\<exists>s. v = V_Stmt s))"
  "value_ok ''compound_stmt'' v \<longleftrightarrow> (v = V_Null \<or> (\<exists>s. v = V_Stmt s))"
  "value_ok ''block_item_list'' v \<longleftrightarrow> (\<exists>x. v = V_Items x)"
  "value_ok ''block_item'' v \<longleftrightarrow> (\<exists>x. v = V_Item x)"
  "value_ok ''selection_stmt'' v \<longleftrightarrow> (\<exists>x. v = V_Stmt x)"
  "value_ok ''iteration_stmt'' v \<longleftrightarrow> (\<exists>x. v = V_Stmt x)"
  "value_ok ''iteration_stmt_for_init'' v \<longleftrightarrow> (\<exists>l i c st b. v = V_Stmt (Stmt l (For_Stmt i c st b)))"
  "value_ok ''iteration_stmt_for_cond'' v \<longleftrightarrow> (\<exists>l i c st b. v = V_Stmt (Stmt l (For_Stmt i c st b)))"
  "value_ok ''iteration_stmt_for_step'' v \<longleftrightarrow> (\<exists>l i c st b. v = V_Stmt (Stmt l (For_Stmt i c st b)))"
  "value_ok ''iteration_stmt_for_while'' v \<longleftrightarrow> (\<exists>l i c st b. v = V_Stmt (Stmt l (For_Stmt i c st b)))"
  "value_ok ''jump_stmt'' v \<longleftrightarrow> (\<exists>x. v = V_Stmt x)"
  "value_ok ''labeled_stmt'' v \<longleftrightarrow> (\<exists>x. v = V_Stmt x)"
  "value_ok ''stmt'' v \<longleftrightarrow> (v = V_Null \<or> (\<exists>s. v = V_Stmt s))"
  "value_ok ''variable_decl'' v \<longleftrightarrow> (\<exists>x. v = V_Decl x)"
  "value_ok ''const_decl'' v \<longleftrightarrow> (\<exists>x. v = V_Decl x)"
  "value_ok ''implementation_decl'' v \<longleftrightarrow> (\<exists>x. v = V_Decl x)"
  "value_ok ''implementation_mapping_list'' v \<longleftrightarrow> (\<exists>x. v = V_Mappings x)"
  "value_ok ''implementation_mapping'' v \<longleftrightarrow> (\<exists>x. v = V_Mapping x)"
  "value_ok ''decl'' v \<longleftrightarrow> (\<exists>x. v = V_Decl x)"
  "value_ok ''type'' v \<longleftrightarrow> (\<exists>x. v = V_Type x)"
  "value_ok ''struct_member_list'' v \<longleftrightarrow> (\<exists>x. v = V_Struct_Members x)"
  "value_ok ''struct_member'' v \<longleftrightarrow> (\<exists>x. v = V_Struct_Member x)"
  "value_ok ''func_type_args'' v \<longleftrightarrow> (\<exists>x. v = V_Types x)"
  "value_ok ''interface_member_list'' v \<longleftrightarrow> (\<exists>x. v = V_Interface_Members x)"
  "value_ok ''interface_member'' v \<longleftrightarrow> (\<exists>x. v = V_Interface_Member x)"
  "value_ok ''interface_member_func_parameter_list'' v \<longleftrightarrow> (\<exists>x. v = V_Types x)"
  "value_ok ''interface_member_func_parameter'' v \<longleftrightarrow> (\<exists>x. v = V_Type x)"
  "value_ok ''import_unit'' v \<longleftrightarrow> (\<exists>x. v = V_Unit x)"
  "value_ok ''package_unit'' v \<longleftrightarrow> (\<exists>x. v = V_Unit x)"
  "value_ok ''decl_unit'' v \<longleftrightarrow> (\<exists>x. v = V_Unit x)"
  "value_ok ''func_unit'' v \<longleftrightarrow> (\<exists>x. v = V_Unit x)"
  "value_ok ''func_unit_decl'' v \<longleftrightarrow> (\<exists>l f. v = V_Unit (Unit l (Func_Unit f)))"
  "value_ok ''parameter_list'' v \<longleftrightarrow> (\<exists>x. v = V_Params x)"
  "value_ok ''parameter'' v \<longleftrightarrow> (\<exists>x. v = V_Param x)"
  "value_ok ''type_unit'' v \<longleftrightarrow> (\<exists>x. v = V_Unit x)"
  "value_ok ''unit_list'' v \<longleftrightarrow> (\<exists>x. v = V_Units x)"
  "value_ok ''unit'' v \<longleftrightarrow> (v = V_Null \<or> (\<exists>u. v = V_Unit u))"
  by (cases v; simp add: value_ok_def rule_sets is_for_conv is_func_conv; fail)+
lemma list_all2_tokens:
  "list_all2 token_ok [] ts \<longleftrightarrow> ts = []"
  "list_all2 token_ok (x # xs) ts \<longleftrightarrow> (\<exists>t us. ts = t # us \<and> token_ok x t \<and> list_all2 token_ok xs us)"
  by (auto simp: list_all2_Cons1)

lemma token_ok_simps:
  "token_ok (T k) t \<longleftrightarrow> t_id t = k \<and> t_val t = V_Null" "token_ok (N r) t \<longleftrightarrow> value_ok r (t_val t)"
  by (simp_all add: token_ok_def)

lemma reducers_distinct: "distinct (map fst reducers)"
  by code_simp

lemma run_reducer_nth: "reducers ! i = (n, r) \<Longrightarrow> i < length reducers \<Longrightarrow> run_reducer n = Some r"
  using nth_mem [of i reducers] reducers_distinct by (simp add: run_reducer_def)

lemma length_reducers: "length reducers = 78"
  by (simp add: reducers_def)

lemma run_reducer_simps:
  "run_reducer ''argument_expr_list'' = Some reduce_argument_expr_list"
  "run_reducer ''assignment_expr'' = Some reduce_assignment_expr"
  "run_reducer ''assignment_op'' = Some reduce_assignment_op"
  "run_reducer ''binary_expr'' = Some reduce_binary_expr"
  "run_reducer ''block_item_decl'' = Some reduce_block_item_decl"
  "run_reducer ''block_item_list'' = Some reduce_block_item_list"
  "run_reducer ''block_item_stmt'' = Some reduce_block_item_stmt"
  "run_reducer ''builtin_func_dispose'' = Some reduce_builtin_func_dispose"
  "run_reducer ''builtin_func_free'' = Some reduce_builtin_func_free"
  "run_reducer ''builtin_func_lencap'' = Some reduce_builtin_func_lencap"
  "run_reducer ''builtin_func_make'' = Some reduce_builtin_func_make"
  "run_reducer ''builtin_func_new'' = Some reduce_builtin_func_new"
  "run_reducer ''cast_expr'' = Some reduce_cast_expr"
  "run_reducer ''cast_expr2'' = Some reduce_cast_expr2"
  "run_reducer ''compound_stmt'' = Some reduce_compound_stmt"
  "run_reducer ''conditional_expr'' = Some reduce_conditional_expr"
  "run_reducer ''const_decl'' = Some reduce_const_decl"
  "run_reducer ''decl_unit'' = Some reduce_decl_unit"
  "run_reducer ''expr_comma'' = Some reduce_expr_comma"
  "run_reducer ''expr_stmt'' = Some reduce_expr_stmt"
  "run_reducer ''func_type_args'' = Some reduce_func_type_args"
  "run_reducer ''func_unit'' = Some reduce_func_unit"
  "run_reducer ''func_unit_decl'' = Some reduce_func_unit_decl"
  "run_reducer ''func_unit_decl2'' = Some reduce_func_unit_decl2"
  "run_reducer ''implementation_decl'' = Some reduce_implementation_decl"
  "run_reducer ''implementation_mapping'' = Some reduce_implementation_mapping"
  "run_reducer ''implementation_mapping_list'' = Some reduce_implementation_mapping_list"
  "run_reducer ''import_unit'' = Some reduce_import_unit"
  "run_reducer ''interface_member_field'' = Some reduce_interface_member_field"
  "run_reducer ''interface_member_func'' = Some reduce_interface_member_func"
  "run_reducer ''interface_member_func_parameter'' = Some reduce_interface_member_func_parameter"
  "run_reducer ''interface_member_func_parameter_list'' = Some reduce_interface_member_func_parameter_list"
  "run_reducer ''interface_member_list'' = Some reduce_interface_member_list"
  "run_reducer ''iteration_stmt_do'' = Some reduce_iteration_stmt_do"
  "run_reducer ''iteration_stmt_for'' = Some reduce_iteration_stmt_for"
  "run_reducer ''iteration_stmt_for_cond'' = Some reduce_iteration_stmt_for_cond"
  "run_reducer ''iteration_stmt_for_init'' = Some reduce_iteration_stmt_for_init"
  "run_reducer ''iteration_stmt_for_step'' = Some reduce_iteration_stmt_for_step"
  "run_reducer ''iteration_stmt_for_while'' = Some reduce_iteration_stmt_for_while"
  "run_reducer ''jump_stmt_break'' = Some reduce_jump_stmt_break"
  "run_reducer ''jump_stmt_continue'' = Some reduce_jump_stmt_continue"
  "run_reducer ''jump_stmt_goto'' = Some reduce_jump_stmt_goto"
  "run_reducer ''jump_stmt_return'' = Some reduce_jump_stmt_return"
  "run_reducer ''labeled_stmt_case'' = Some reduce_labeled_stmt_case"
  "run_reducer ''labeled_stmt_default'' = Some reduce_labeled_stmt_default"
  "run_reducer ''package_unit'' = Some reduce_package_unit"
  "run_reducer ''parameter'' = Some reduce_parameter"
  "run_reducer ''parameter_list'' = Some reduce_parameter_list"
  "run_reducer ''postfix_expr_call'' = Some reduce_postfix_expr_call"
  "run_reducer ''postfix_expr_incdec'' = Some reduce_postfix_expr_incdec"
  "run_reducer ''postfix_expr_index'' = Some reduce_postfix_expr_index"
  "run_reducer ''postfix_expr_member'' = Some reduce_postfix_expr_member"
  "run_reducer ''postfix_expr_slice'' = Some reduce_postfix_expr_slice"
  "run_reducer ''primary_expr_ident'' = Some reduce_primary_expr_ident"
  "run_reducer ''primary_expr_number'' = Some reduce_primary_expr_number"
  "run_reducer ''primary_expr_paren'' = Some reduce_primary_expr_paren"
  "run_reducer ''primary_expr_string'' = Some reduce_primary_expr_string"
  "run_reducer ''selection_stmt_if'' = Some reduce_selection_stmt_if"
  "run_reducer ''selection_stmt_switch'' = Some reduce_selection_stmt_switch"
  "run_reducer ''struct_member'' = Some reduce_struct_member"
  "run_reducer ''struct_member2'' = Some reduce_struct_member2"
  "run_reducer ''struct_member_list'' = Some reduce_struct_member_list"
  "run_reducer ''type_array'' = Some reduce_type_array"
  "run_reducer ''type_func'' = Some reduce_type_func"
  "run_reducer ''type_interface'' = Some reduce_type_interface"
  "run_reducer ''type_name'' = Some reduce_type_name"
  "run_reducer ''type_pointer'' = Some reduce_type_pointer"
  "run_reducer ''type_slice'' = Some reduce_type_slice"
  "run_reducer ''type_struct'' = Some reduce_type_struct"
  "run_reducer ''type_unit'' = Some reduce_type_unit"
  "run_reducer ''type_void'' = Some reduce_type_void"
  "run_reducer ''unary_expr_incdec'' = Some reduce_unary_expr_incdec"
  "run_reducer ''unary_expr_op'' = Some reduce_unary_expr_op"
  "run_reducer ''unary_expr_sizeof'' = Some reduce_unary_expr_sizeof"
  "run_reducer ''unary_op'' = Some reduce_unary_op"
  "run_reducer ''unit_list'' = Some reduce_unit_list"
  "run_reducer ''variable_decl'' = Some reduce_variable_decl"
  "run_reducer ''variable_decl2'' = Some reduce_variable_decl2"
proof -
  show "run_reducer ''argument_expr_list'' = Some reduce_argument_expr_list"
    by (rule run_reducer_nth [of 0]) (simp_all add: reducers_def length_reducers)
  show "run_reducer ''assignment_expr'' = Some reduce_assignment_expr"
    by (rule run_reducer_nth [of 1]) (simp_all add: reducers_def length_reducers)
  show "run_reducer ''assignment_op'' = Some reduce_assignment_op"
    by (rule run_reducer_nth [of 2]) (simp_all add: reducers_def length_reducers)
  show "run_reducer ''binary_expr'' = Some reduce_binary_expr"
    by (rule run_reducer_nth [of 3]) (simp_all add: reducers_def length_reducers)
  show "run_reducer ''block_item_decl'' = Some reduce_block_item_decl"
    by (rule run_reducer_nth [of 4]) (simp_all add: reducers_def length_reducers)
  show "run_reducer ''block_item_list'' = Some reduce_block_item_list"
    by (rule run_reducer_nth [of 5]) (simp_all add: reducers_def length_reducers)
  show "run_reducer ''block_item_stmt'' = Some reduce_block_item_stmt"
    by (rule run_reducer_nth [of 6]) (simp_all add: reducers_def length_reducers)
  show "run_reducer ''builtin_func_dispose'' = Some reduce_builtin_func_dispose"
    by (rule run_reducer_nth [of 7]) (simp_all add: reducers_def length_reducers)
  show "run_reducer ''builtin_func_free'' = Some reduce_builtin_func_free"
    by (rule run_reducer_nth [of 8]) (simp_all add: reducers_def length_reducers)
  show "run_reducer ''builtin_func_lencap'' = Some reduce_builtin_func_lencap"
    by (rule run_reducer_nth [of 9]) (simp_all add: reducers_def length_reducers)
  show "run_reducer ''builtin_func_make'' = Some reduce_builtin_func_make"
    by (rule run_reducer_nth [of 10]) (simp_all add: reducers_def length_reducers)
  show "run_reducer ''builtin_func_new'' = Some reduce_builtin_func_new"
    by (rule run_reducer_nth [of 11]) (simp_all add: reducers_def length_reducers)
  show "run_reducer ''cast_expr'' = Some reduce_cast_expr"
    by (rule run_reducer_nth [of 12]) (simp_all add: reducers_def length_reducers)
  show "run_reducer ''cast_expr2'' = Some reduce_cast_expr2"
    by (rule run_reducer_nth [of 13]) (simp_all add: reducers_def length_reducers)
  show "run_reducer ''compound_stmt'' = Some reduce_compound_stmt"
    by (rule run_reducer_nth [of 14]) (simp_all add: reducers_def length_reducers)
  show "run_reducer ''conditional_expr'' = Some reduce_conditional_expr"
    by (rule run_reducer_nth [of 15]) (simp_all add: reducers_def length_reducers)
  show "run_reducer ''const_decl'' = Some reduce_const_decl"
    by (rule run_reducer_nth [of 16]) (simp_all add: reducers_def length_reducers)
  show "run_reducer ''decl_unit'' = Some reduce_decl_unit"
    by (rule run_reducer_nth [of 17]) (simp_all add: reducers_def length_reducers)
  show "run_reducer ''expr_comma'' = Some reduce_expr_comma"
    by (rule run_reducer_nth [of 18]) (simp_all add: reducers_def length_reducers)
  show "run_reducer ''expr_stmt'' = Some reduce_expr_stmt"
    by (rule run_reducer_nth [of 19]) (simp_all add: reducers_def length_reducers)
  show "run_reducer ''func_type_args'' = Some reduce_func_type_args"
    by (rule run_reducer_nth [of 20]) (simp_all add: reducers_def length_reducers)
  show "run_reducer ''func_unit'' = Some reduce_func_unit"
    by (rule run_reducer_nth [of 21]) (simp_all add: reducers_def length_reducers)
  show "run_reducer ''func_unit_decl'' = Some reduce_func_unit_decl"
    by (rule run_reducer_nth [of 22]) (simp_all add: reducers_def length_reducers)
  show "run_reducer ''func_unit_decl2'' = Some reduce_func_unit_decl2"
    by (rule run_reducer_nth [of 23]) (simp_all add: reducers_def length_reducers)
  show "run_reducer ''implementation_decl'' = Some reduce_implementation_decl"
    by (rule run_reducer_nth [of 24]) (simp_all add: reducers_def length_reducers)
  show "run_reducer ''implementation_mapping'' = Some reduce_implementation_mapping"
    by (rule run_reducer_nth [of 25]) (simp_all add: reducers_def length_reducers)
  show "run_reducer ''implementation_mapping_list'' = Some reduce_implementation_mapping_list"
    by (rule run_reducer_nth [of 26]) (simp_all add: reducers_def length_reducers)
  show "run_reducer ''import_unit'' = Some reduce_import_unit"
    by (rule run_reducer_nth [of 27]) (simp_all add: reducers_def length_reducers)
  show "run_reducer ''interface_member_field'' = Some reduce_interface_member_field"
    by (rule run_reducer_nth [of 28]) (simp_all add: reducers_def length_reducers)
  show "run_reducer ''interface_member_func'' = Some reduce_interface_member_func"
    by (rule run_reducer_nth [of 29]) (simp_all add: reducers_def length_reducers)
  show "run_reducer ''interface_member_func_parameter'' = Some reduce_interface_member_func_parameter"
    by (rule run_reducer_nth [of 30]) (simp_all add: reducers_def length_reducers)
  show "run_reducer ''interface_member_func_parameter_list'' = Some reduce_interface_member_func_parameter_list"
    by (rule run_reducer_nth [of 31]) (simp_all add: reducers_def length_reducers)
  show "run_reducer ''interface_member_list'' = Some reduce_interface_member_list"
    by (rule run_reducer_nth [of 32]) (simp_all add: reducers_def length_reducers)
  show "run_reducer ''iteration_stmt_do'' = Some reduce_iteration_stmt_do"
    by (rule run_reducer_nth [of 33]) (simp_all add: reducers_def length_reducers)
  show "run_reducer ''iteration_stmt_for'' = Some reduce_iteration_stmt_for"
    by (rule run_reducer_nth [of 34]) (simp_all add: reducers_def length_reducers)
  show "run_reducer ''iteration_stmt_for_cond'' = Some reduce_iteration_stmt_for_cond"
    by (rule run_reducer_nth [of 35]) (simp_all add: reducers_def length_reducers)
  show "run_reducer ''iteration_stmt_for_init'' = Some reduce_iteration_stmt_for_init"
    by (rule run_reducer_nth [of 36]) (simp_all add: reducers_def length_reducers)
  show "run_reducer ''iteration_stmt_for_step'' = Some reduce_iteration_stmt_for_step"
    by (rule run_reducer_nth [of 37]) (simp_all add: reducers_def length_reducers)
  show "run_reducer ''iteration_stmt_for_while'' = Some reduce_iteration_stmt_for_while"
    by (rule run_reducer_nth [of 38]) (simp_all add: reducers_def length_reducers)
  show "run_reducer ''jump_stmt_break'' = Some reduce_jump_stmt_break"
    by (rule run_reducer_nth [of 39]) (simp_all add: reducers_def length_reducers)
  show "run_reducer ''jump_stmt_continue'' = Some reduce_jump_stmt_continue"
    by (rule run_reducer_nth [of 40]) (simp_all add: reducers_def length_reducers)
  show "run_reducer ''jump_stmt_goto'' = Some reduce_jump_stmt_goto"
    by (rule run_reducer_nth [of 41]) (simp_all add: reducers_def length_reducers)
  show "run_reducer ''jump_stmt_return'' = Some reduce_jump_stmt_return"
    by (rule run_reducer_nth [of 42]) (simp_all add: reducers_def length_reducers)
  show "run_reducer ''labeled_stmt_case'' = Some reduce_labeled_stmt_case"
    by (rule run_reducer_nth [of 43]) (simp_all add: reducers_def length_reducers)
  show "run_reducer ''labeled_stmt_default'' = Some reduce_labeled_stmt_default"
    by (rule run_reducer_nth [of 44]) (simp_all add: reducers_def length_reducers)
  show "run_reducer ''package_unit'' = Some reduce_package_unit"
    by (rule run_reducer_nth [of 45]) (simp_all add: reducers_def length_reducers)
  show "run_reducer ''parameter'' = Some reduce_parameter"
    by (rule run_reducer_nth [of 46]) (simp_all add: reducers_def length_reducers)
  show "run_reducer ''parameter_list'' = Some reduce_parameter_list"
    by (rule run_reducer_nth [of 47]) (simp_all add: reducers_def length_reducers)
  show "run_reducer ''postfix_expr_call'' = Some reduce_postfix_expr_call"
    by (rule run_reducer_nth [of 48]) (simp_all add: reducers_def length_reducers)
  show "run_reducer ''postfix_expr_incdec'' = Some reduce_postfix_expr_incdec"
    by (rule run_reducer_nth [of 49]) (simp_all add: reducers_def length_reducers)
  show "run_reducer ''postfix_expr_index'' = Some reduce_postfix_expr_index"
    by (rule run_reducer_nth [of 50]) (simp_all add: reducers_def length_reducers)
  show "run_reducer ''postfix_expr_member'' = Some reduce_postfix_expr_member"
    by (rule run_reducer_nth [of 51]) (simp_all add: reducers_def length_reducers)
  show "run_reducer ''postfix_expr_slice'' = Some reduce_postfix_expr_slice"
    by (rule run_reducer_nth [of 52]) (simp_all add: reducers_def length_reducers)
  show "run_reducer ''primary_expr_ident'' = Some reduce_primary_expr_ident"
    by (rule run_reducer_nth [of 53]) (simp_all add: reducers_def length_reducers)
  show "run_reducer ''primary_expr_number'' = Some reduce_primary_expr_number"
    by (rule run_reducer_nth [of 54]) (simp_all add: reducers_def length_reducers)
  show "run_reducer ''primary_expr_paren'' = Some reduce_primary_expr_paren"
    by (rule run_reducer_nth [of 55]) (simp_all add: reducers_def length_reducers)
  show "run_reducer ''primary_expr_string'' = Some reduce_primary_expr_string"
    by (rule run_reducer_nth [of 56]) (simp_all add: reducers_def length_reducers)
  show "run_reducer ''selection_stmt_if'' = Some reduce_selection_stmt_if"
    by (rule run_reducer_nth [of 57]) (simp_all add: reducers_def length_reducers)
  show "run_reducer ''selection_stmt_switch'' = Some reduce_selection_stmt_switch"
    by (rule run_reducer_nth [of 58]) (simp_all add: reducers_def length_reducers)
  show "run_reducer ''struct_member'' = Some reduce_struct_member"
    by (rule run_reducer_nth [of 59]) (simp_all add: reducers_def length_reducers)
  show "run_reducer ''struct_member2'' = Some reduce_struct_member2"
    by (rule run_reducer_nth [of 60]) (simp_all add: reducers_def length_reducers)
  show "run_reducer ''struct_member_list'' = Some reduce_struct_member_list"
    by (rule run_reducer_nth [of 61]) (simp_all add: reducers_def length_reducers)
  show "run_reducer ''type_array'' = Some reduce_type_array"
    by (rule run_reducer_nth [of 62]) (simp_all add: reducers_def length_reducers)
  show "run_reducer ''type_func'' = Some reduce_type_func"
    by (rule run_reducer_nth [of 63]) (simp_all add: reducers_def length_reducers)
  show "run_reducer ''type_interface'' = Some reduce_type_interface"
    by (rule run_reducer_nth [of 64]) (simp_all add: reducers_def length_reducers)
  show "run_reducer ''type_name'' = Some reduce_type_name"
    by (rule run_reducer_nth [of 65]) (simp_all add: reducers_def length_reducers)
  show "run_reducer ''type_pointer'' = Some reduce_type_pointer"
    by (rule run_reducer_nth [of 66]) (simp_all add: reducers_def length_reducers)
  show "run_reducer ''type_slice'' = Some reduce_type_slice"
    by (rule run_reducer_nth [of 67]) (simp_all add: reducers_def length_reducers)
  show "run_reducer ''type_struct'' = Some reduce_type_struct"
    by (rule run_reducer_nth [of 68]) (simp_all add: reducers_def length_reducers)
  show "run_reducer ''type_unit'' = Some reduce_type_unit"
    by (rule run_reducer_nth [of 69]) (simp_all add: reducers_def length_reducers)
  show "run_reducer ''type_void'' = Some reduce_type_void"
    by (rule run_reducer_nth [of 70]) (simp_all add: reducers_def length_reducers)
  show "run_reducer ''unary_expr_incdec'' = Some reduce_unary_expr_incdec"
    by (rule run_reducer_nth [of 71]) (simp_all add: reducers_def length_reducers)
  show "run_reducer ''unary_expr_op'' = Some reduce_unary_expr_op"
    by (rule run_reducer_nth [of 72]) (simp_all add: reducers_def length_reducers)
  show "run_reducer ''unary_expr_sizeof'' = Some reduce_unary_expr_sizeof"
    by (rule run_reducer_nth [of 73]) (simp_all add: reducers_def length_reducers)
  show "run_reducer ''unary_op'' = Some reduce_unary_op"
    by (rule run_reducer_nth [of 74]) (simp_all add: reducers_def length_reducers)
  show "run_reducer ''unit_list'' = Some reduce_unit_list"
    by (rule run_reducer_nth [of 75]) (simp_all add: reducers_def length_reducers)
  show "run_reducer ''variable_decl'' = Some reduce_variable_decl"
    by (rule run_reducer_nth [of 76]) (simp_all add: reducers_def length_reducers)
  show "run_reducer ''variable_decl2'' = Some reduce_variable_decl2"
    by (rule run_reducer_nth [of 77]) (simp_all add: reducers_def length_reducers)
qed

lemma operator_of_simps:
  "binary_op_of TKN_MUL_OP = Some Op_Mul"
  "binary_op_of TKN_DIV_OP = Some Op_Div"
  "binary_op_of TKN_MOD_OP = Some Op_Mod"
  "binary_op_of TKN_ADD_OP = Some Op_Add"
  "binary_op_of TKN_SUB_OP = Some Op_Sub"
  "binary_op_of TKN_LEFT_OP = Some Op_Left"
  "binary_op_of TKN_RIGHT_OP = Some Op_Right"
  "binary_op_of TKN_LT_OP = Some Op_Lt"
  "binary_op_of TKN_GT_OP = Some Op_Gt"
  "binary_op_of TKN_LE_OP = Some Op_Le"
  "binary_op_of TKN_GE_OP = Some Op_Ge"
  "binary_op_of TKN_EQ_OP = Some Op_Eq"
  "binary_op_of TKN_NE_OP = Some Op_Ne"
  "binary_op_of TKN_BITWISE_AND = Some Op_Bitwise_And"
  "binary_op_of TKN_BITWISE_XOR = Some Op_Bitwise_Xor"
  "binary_op_of TKN_BITWISE_OR = Some Op_Bitwise_Or"
  "binary_op_of TKN_AND_OP = Some Op_And"
  "binary_op_of TKN_OR_OP = Some Op_Or"
  "assignment_op_of TKN_ASSIGN = Some Assign"
  "assignment_op_of TKN_ADD_ASSIGN = Some Add_Assign"
  "assignment_op_of TKN_AND_ASSIGN = Some And_Assign"
  "assignment_op_of TKN_DIV_ASSIGN = Some Div_Assign"
  "assignment_op_of TKN_LEFT_ASSIGN = Some Left_Assign"
  "assignment_op_of TKN_MOD_ASSIGN = Some Mod_Assign"
  "assignment_op_of TKN_MUL_ASSIGN = Some Mul_Assign"
  "assignment_op_of TKN_OR_ASSIGN = Some Or_Assign"
  "assignment_op_of TKN_RIGHT_ASSIGN = Some Right_Assign"
  "assignment_op_of TKN_SUB_ASSIGN = Some Sub_Assign"
  "assignment_op_of TKN_XOR_ASSIGN = Some Xor_Assign"
  by code_simp+

lemma production_ok_reduce:
  "production_ok r (reduce es f tag) \<longleftrightarrow> (\<forall>mem ts. list_all2 token_ok es ts \<longrightarrow>
     (case run_reducer f of None \<Rightarrow> False | Some red \<Rightarrow> ends_ok (value_ok r) (red mem ts tag)))"
  "production_ok r (reduce_default es) \<longleftrightarrow> (\<forall>ts. list_all2 token_ok es ts \<longrightarrow> value_ok r (t_val (hd ts)))"
  by (simp_all add: production_ok_def reduce_def reduce_default_def cong: option.case_cong)

lemmas arg_defs = arg_def arg_loc_def arg_text_def arg_unquoted_def arg_stmt_ptr_def arg_unit_ptr_def
  arg_item_ptr_def opt_expr_def arg_for_def new_expr_def new_stmt_def new_type_def
  arg_expr_def arg_exprs_def arg_item_def arg_items_def arg_decl_def arg_mapping_def arg_mappings_def
  arg_type_def arg_types_def arg_struct_member_def arg_struct_members_def arg_interface_member_def
  arg_interface_members_def arg_param_def arg_params_def arg_units_def arg_unary_op_def
  arg_assign_op_def arg_stmt_def arg_unit_def

lemmas production_simps = production_ok_reduce list_all2_tokens token_ok_simps run_reducer_simps
  arg_defs value_ok_rules rbind_assoc

subsection \<open>The productions of each rule\<close>

lemma productions_primary_expr: "list_all (production_ok ''primary_expr'') rule_primary_expr"
  by (auto simp: rule_primary_expr_def production_simps reduce_primary_expr_ident_def
    reduce_primary_expr_number_def reduce_primary_expr_paren_def reduce_primary_expr_string_def
    extract_literal_def split_def intro!: ends_ok_intros)

lemma productions_postfix_expr: "list_all (production_ok ''postfix_expr'') rule_postfix_expr"
  by (auto simp: rule_postfix_expr_def production_simps reduce_postfix_expr_call_def
    reduce_postfix_expr_incdec_def reduce_postfix_expr_index_def reduce_postfix_expr_member_def
    reduce_postfix_expr_slice_def  intro!: ends_ok_intros)

lemma productions_argument_expr_list: "list_all (production_ok ''argument_expr_list'') rule_argument_expr_list"
  by (auto simp: rule_argument_expr_list_def production_simps reduce_argument_expr_list_def
    intro!: ends_ok_intros)

lemma productions_unary_expr: "list_all (production_ok ''unary_expr'') rule_unary_expr"
  by (auto simp: rule_unary_expr_def production_simps reduce_unary_expr_incdec_def
    reduce_unary_expr_op_def reduce_unary_expr_sizeof_def  intro!: ends_ok_intros)

lemma productions_builtin_func: "list_all (production_ok ''builtin_func'') rule_builtin_func"
  by (auto simp: rule_builtin_func_def production_simps reduce_builtin_func_dispose_def
    reduce_builtin_func_free_def reduce_builtin_func_lencap_def reduce_builtin_func_make_def
    reduce_builtin_func_new_def  intro!: ends_ok_intros)

lemma productions_unary_op: "list_all (production_ok ''unary_op'') rule_unary_op"
  by (auto simp: rule_unary_op_def production_simps reduce_unary_op_def  intro!: ends_ok_intros)

lemma productions_cast_expr: "list_all (production_ok ''cast_expr'') rule_cast_expr"
  by (auto simp: rule_cast_expr_def production_simps reduce_cast_expr2_def reduce_cast_expr_def
    intro!: ends_ok_intros)

lemma productions_multiplicative_expr: "list_all (production_ok ''multiplicative_expr'') rule_multiplicative_expr"
  by (auto simp: rule_multiplicative_expr_def production_simps reduce_binary_expr_def
    operator_of_simps intro!: ends_ok_intros)

lemma productions_additive_expr: "list_all (production_ok ''additive_expr'') rule_additive_expr"
  by (auto simp: rule_additive_expr_def production_simps reduce_binary_expr_def operator_of_simps
    intro!: ends_ok_intros)

lemma productions_shift_expr: "list_all (production_ok ''shift_expr'') rule_shift_expr"
  by (auto simp: rule_shift_expr_def production_simps reduce_binary_expr_def operator_of_simps
    intro!: ends_ok_intros)

lemma productions_relational_expr: "list_all (production_ok ''relational_expr'') rule_relational_expr"
  by (auto simp: rule_relational_expr_def production_simps reduce_binary_expr_def
    operator_of_simps intro!: ends_ok_intros)

lemma productions_equality_expr: "list_all (production_ok ''equality_expr'') rule_equality_expr"
  by (auto simp: rule_equality_expr_def production_simps reduce_binary_expr_def operator_of_simps
    intro!: ends_ok_intros)

lemma productions_bitwise_and_expr: "list_all (production_ok ''bitwise_and_expr'') rule_bitwise_and_expr"
  by (auto simp: rule_bitwise_and_expr_def production_simps reduce_binary_expr_def
    operator_of_simps intro!: ends_ok_intros)

lemma productions_bitwise_xor_expr: "list_all (production_ok ''bitwise_xor_expr'') rule_bitwise_xor_expr"
  by (auto simp: rule_bitwise_xor_expr_def production_simps reduce_binary_expr_def
    operator_of_simps intro!: ends_ok_intros)

lemma productions_bitwise_or_expr: "list_all (production_ok ''bitwise_or_expr'') rule_bitwise_or_expr"
  by (auto simp: rule_bitwise_or_expr_def production_simps reduce_binary_expr_def
    operator_of_simps intro!: ends_ok_intros)

lemma productions_and_expr: "list_all (production_ok ''and_expr'') rule_and_expr"
  by (auto simp: rule_and_expr_def production_simps reduce_binary_expr_def operator_of_simps
    intro!: ends_ok_intros)

lemma productions_or_expr: "list_all (production_ok ''or_expr'') rule_or_expr"
  by (auto simp: rule_or_expr_def production_simps reduce_binary_expr_def operator_of_simps
    intro!: ends_ok_intros)

lemma productions_conditional_expr: "list_all (production_ok ''conditional_expr'') rule_conditional_expr"
  by (auto simp: rule_conditional_expr_def production_simps reduce_conditional_expr_def  intro!:
    ends_ok_intros)

lemma productions_assignment_expr: "list_all (production_ok ''assignment_expr'') rule_assignment_expr"
  by (auto simp: rule_assignment_expr_def production_simps reduce_assignment_expr_def  intro!:
    ends_ok_intros)

lemma productions_assignment_op: "list_all (production_ok ''assignment_op'') rule_assignment_op"
  by (auto simp: rule_assignment_op_def production_simps reduce_assignment_op_def
    operator_of_simps intro!: ends_ok_intros)

lemma productions_expr: "list_all (production_ok ''expr'') rule_expr"
  by (auto simp: rule_expr_def production_simps reduce_expr_comma_def  split: expr_kind.splits
    intro!: ends_ok_intros)

lemma productions_expr_stmt: "list_all (production_ok ''expr_stmt'') rule_expr_stmt"
  by (auto simp: rule_expr_stmt_def production_simps reduce_expr_stmt_def  intro!: ends_ok_intros)

lemma productions_compound_stmt: "list_all (production_ok ''compound_stmt'') rule_compound_stmt"
  by (auto simp: rule_compound_stmt_def production_simps reduce_compound_stmt_def  intro!:
    ends_ok_intros)

lemma productions_block_item_list: "list_all (production_ok ''block_item_list'') rule_block_item_list"
  by (auto simp: rule_block_item_list_def production_simps reduce_block_item_list_def  intro!:
    ends_ok_intros)

lemma productions_block_item: "list_all (production_ok ''block_item'') rule_block_item"
  by (auto simp: rule_block_item_def production_simps reduce_block_item_decl_def
    reduce_block_item_stmt_def  intro!: ends_ok_intros)

lemma productions_selection_stmt: "list_all (production_ok ''selection_stmt'') rule_selection_stmt"
  by (auto simp: rule_selection_stmt_def production_simps reduce_selection_stmt_if_def
    reduce_selection_stmt_switch_def  intro!: ends_ok_intros)

lemma productions_iteration_stmt: "list_all (production_ok ''iteration_stmt'') rule_iteration_stmt"
  by (auto simp: rule_iteration_stmt_def production_simps reduce_iteration_stmt_do_def
    reduce_iteration_stmt_for_def  intro!: ends_ok_intros)

lemma productions_iteration_stmt_for_init: "list_all (production_ok ''iteration_stmt_for_init'') rule_iteration_stmt_for_init"
  by (auto simp: rule_iteration_stmt_for_init_def production_simps
    reduce_iteration_stmt_for_init_def  intro!: ends_ok_intros)

lemma productions_iteration_stmt_for_cond: "list_all (production_ok ''iteration_stmt_for_cond'') rule_iteration_stmt_for_cond"
  by (auto simp: rule_iteration_stmt_for_cond_def production_simps
    reduce_iteration_stmt_for_cond_def  intro!: ends_ok_intros)

lemma productions_iteration_stmt_for_step: "list_all (production_ok ''iteration_stmt_for_step'') rule_iteration_stmt_for_step"
  by (auto simp: rule_iteration_stmt_for_step_def production_simps
    reduce_iteration_stmt_for_step_def  intro!: ends_ok_intros)

lemma productions_iteration_stmt_for_while: "list_all (production_ok ''iteration_stmt_for_while'') rule_iteration_stmt_for_while"
  by (auto simp: rule_iteration_stmt_for_while_def production_simps
    reduce_iteration_stmt_for_while_def  intro!: ends_ok_intros)

lemma productions_jump_stmt: "list_all (production_ok ''jump_stmt'') rule_jump_stmt"
  by (auto simp: rule_jump_stmt_def production_simps reduce_jump_stmt_break_def
    reduce_jump_stmt_continue_def reduce_jump_stmt_goto_def reduce_jump_stmt_return_def  intro!:
    ends_ok_intros)

lemma productions_labeled_stmt: "list_all (production_ok ''labeled_stmt'') rule_labeled_stmt"
  by (auto simp: rule_labeled_stmt_def production_simps reduce_labeled_stmt_case_def
    reduce_labeled_stmt_default_def  intro!: ends_ok_intros)

lemma productions_stmt: "list_all (production_ok ''stmt'') rule_stmt"
  by (auto simp: rule_stmt_def production_simps   intro!: ends_ok_intros)

lemma productions_variable_decl: "list_all (production_ok ''variable_decl'') rule_variable_decl"
  by (auto simp: rule_variable_decl_def production_simps reduce_variable_decl2_def
    reduce_variable_decl_def  intro!: ends_ok_intros)

lemma productions_const_decl: "list_all (production_ok ''const_decl'') rule_const_decl"
  by (auto simp: rule_const_decl_def production_simps reduce_const_decl_def  intro!:
    ends_ok_intros)

lemma productions_implementation_decl: "list_all (production_ok ''implementation_decl'') rule_implementation_decl"
  by (auto simp: rule_implementation_decl_def production_simps reduce_implementation_decl_def
    intro!: ends_ok_intros)

lemma productions_implementation_mapping: "list_all (production_ok ''implementation_mapping'') rule_implementation_mapping"
  by (auto simp: rule_implementation_mapping_def production_simps
    reduce_implementation_mapping_def  intro!: ends_ok_intros)

lemma productions_decl: "list_all (production_ok ''decl'') rule_decl"
  by (auto simp: rule_decl_def production_simps   intro!: ends_ok_intros)

lemma productions_type: "list_all (production_ok ''type'') rule_type"
  by (auto simp: rule_type_def production_simps reduce_type_array_def reduce_type_func_def
    reduce_type_interface_def reduce_type_name_def reduce_type_pointer_def reduce_type_slice_def
    reduce_type_struct_def reduce_type_void_def  intro!: ends_ok_intros)

lemma productions_struct_member_list: "list_all (production_ok ''struct_member_list'') rule_struct_member_list"
  by (auto simp: rule_struct_member_list_def production_simps reduce_struct_member_list_def
    intro!: ends_ok_intros)

lemma productions_struct_member: "list_all (production_ok ''struct_member'') rule_struct_member"
  by (auto simp: rule_struct_member_def production_simps reduce_struct_member2_def
    reduce_struct_member_def  intro!: ends_ok_intros)

lemma productions_func_type_args: "list_all (production_ok ''func_type_args'') rule_func_type_args"
  by (auto simp: rule_func_type_args_def production_simps reduce_func_type_args_def  intro!:
    ends_ok_intros)

lemma productions_interface_member_list: "list_all (production_ok ''interface_member_list'') rule_interface_member_list"
  by (auto simp: rule_interface_member_list_def production_simps reduce_interface_member_list_def
    intro!: ends_ok_intros)

lemma productions_interface_member: "list_all (production_ok ''interface_member'') rule_interface_member"
  by (auto simp: rule_interface_member_def production_simps reduce_interface_member_field_def
    reduce_interface_member_func_def  intro!: ends_ok_intros)

lemma productions_interface_member_func_parameter_list: "list_all (production_ok ''interface_member_func_parameter_list'') rule_interface_member_func_parameter_list"
  by (auto simp: rule_interface_member_func_parameter_list_def production_simps
    reduce_interface_member_func_parameter_list_def  intro!: ends_ok_intros)

lemma productions_interface_member_func_parameter: "list_all (production_ok ''interface_member_func_parameter'') rule_interface_member_func_parameter"
  by (auto simp: rule_interface_member_func_parameter_def production_simps
    reduce_interface_member_func_parameter_def  intro!: ends_ok_intros)

lemma productions_import_unit: "list_all (production_ok ''import_unit'') rule_import_unit"
  by (auto simp: rule_import_unit_def production_simps reduce_import_unit_def  intro!:
    ends_ok_intros)

lemma productions_package_unit: "list_all (production_ok ''package_unit'') rule_package_unit"
  by (auto simp: rule_package_unit_def production_simps reduce_package_unit_def  intro!:
    ends_ok_intros)

lemma productions_decl_unit: "list_all (production_ok ''decl_unit'') rule_decl_unit"
  by (auto simp: rule_decl_unit_def production_simps reduce_decl_unit_def  intro!: ends_ok_intros)

lemma productions_func_unit: "list_all (production_ok ''func_unit'') rule_func_unit"
  by (auto simp: rule_func_unit_def production_simps reduce_func_unit_def  intro!: ends_ok_intros)

lemma productions_func_unit_decl: "list_all (production_ok ''func_unit_decl'') rule_func_unit_decl"
  by (auto simp: rule_func_unit_decl_def production_simps reduce_func_unit_decl2_def
    reduce_func_unit_decl_def  intro!: ends_ok_intros)

lemma productions_parameter_list: "list_all (production_ok ''parameter_list'') rule_parameter_list"
  by (auto simp: rule_parameter_list_def production_simps reduce_parameter_list_def  intro!:
    ends_ok_intros)

lemma productions_parameter: "list_all (production_ok ''parameter'') rule_parameter"
  by (auto simp: rule_parameter_def production_simps reduce_parameter_def  intro!: ends_ok_intros)

lemma productions_type_unit: "list_all (production_ok ''type_unit'') rule_type_unit"
  by (auto simp: rule_type_unit_def production_simps reduce_type_unit_def  intro!: ends_ok_intros)

lemma productions_unit_list: "list_all (production_ok ''unit_list'') rule_unit_list"
  by (auto simp: rule_unit_list_def production_simps reduce_unit_list_def  intro!: ends_ok_intros)

lemma productions_unit: "list_all (production_ok ''unit'') rule_unit"
  by (auto simp: rule_unit_def production_simps   intro!: ends_ok_intros)
subsection \<open>Properties\<close>

lemma productions_implementation_mapping_list:
  "production_ok ''implementation_mapping_list''
    (reduce [N ''implementation_mapping''] ''implementation_mapping_list'' 0)"
  by (auto simp: production_simps reduce_implementation_mapping_list_def)

definition broken_production :: "string \<Rightarrow> variant \<Rightarrow> bool" where
  "broken_production r v \<longleftrightarrow> r = ''implementation_mapping_list'' \<and> v_tag v = 1"

lemma not_broken: "r \<noteq> ''implementation_mapping_list'' \<Longrightarrow> list_all (production_ok r) vs \<Longrightarrow>
    list_all (\<lambda>v. broken_production r v \<or> production_ok r v) vs"
  by (simp add: list_all_iff)

lemma mapping_list_productions:
  "list_all (\<lambda>v. broken_production ''implementation_mapping_list'' v \<or>
    production_ok ''implementation_mapping_list'' v) rule_implementation_mapping_list"
  using productions_implementation_mapping_list
  by (simp add: rule_implementation_mapping_list_def broken_production_def reduce_def)

lemmas rule_productions =
  productions_primary_expr productions_postfix_expr productions_argument_expr_list
  productions_unary_expr productions_builtin_func productions_unary_op productions_cast_expr
  productions_multiplicative_expr productions_additive_expr productions_shift_expr
  productions_relational_expr productions_equality_expr productions_bitwise_and_expr
  productions_bitwise_xor_expr productions_bitwise_or_expr productions_and_expr
  productions_or_expr productions_conditional_expr productions_assignment_expr
  productions_assignment_op productions_expr productions_expr_stmt productions_compound_stmt
  productions_block_item_list productions_block_item productions_selection_stmt
  productions_iteration_stmt productions_iteration_stmt_for_init
  productions_iteration_stmt_for_cond productions_iteration_stmt_for_step
  productions_iteration_stmt_for_while productions_jump_stmt productions_labeled_stmt
  productions_stmt productions_variable_decl productions_const_decl
  productions_implementation_decl productions_implementation_mapping productions_decl
  productions_type productions_struct_member_list productions_struct_member
  productions_func_type_args productions_interface_member_list productions_interface_member
  productions_interface_member_func_parameter_list productions_interface_member_func_parameter
  productions_import_unit productions_package_unit productions_decl_unit productions_func_unit
  productions_func_unit_decl productions_parameter_list productions_parameter
  productions_type_unit productions_unit_list productions_unit

lemma all_productions:
  "list_all (\<lambda>(r, vs). list_all (\<lambda>v. broken_production r v \<or> production_ok r v) vs) grammar"
  unfolding grammar_def list.pred_inject prod.case
  by (intro conjI mapping_list_productions list.pred_inject(1))
    (rule not_broken, simp, rule rule_productions)+

text \<open>
  The exception. The list of the mappings of an implementation is reduced from two tokens
  (the mappings are not separated by commas), but its reducer takes the new mapping from the
  third.
\<close>

lemma broken_reads_past:
  assumes "(r, vs) \<in> set grammar" and "v \<in> set vs" and "broken_production r v"
    and "v_reducer v = Some f" and "list_all2 token_ok (v_elements v) ts"
  shows "\<exists>red. run_reducer f = Some red \<and>
    red mem ts (v_tag v) = Inl (Undefined ''read past the end of the reduced tokens'')"
proof -
  have r: "r = ''implementation_mapping_list''" "v_tag v = 1" using assms(3) by (simp_all add: broken_production_def)
  have "vs = rule_implementation_mapping_list" using assms(1) by (simp add: grammar_def r(1))
  then have "v = reduce [N ''implementation_mapping_list'', N ''implementation_mapping''] ''implementation_mapping_list'' 1"
    using assms(2) r(2) by (auto simp: rule_implementation_mapping_list_def reduce_def)
  with assms(4,5) show ?thesis
    by (auto simp: reduce_def list_all2_tokens token_ok_simps value_ok_rules run_reducer_simps
        reduce_implementation_mapping_list_def arg_defs)
qed

text \<open>
  C9: the semantic actions fit the grammar, with one exception. For every production the reducer
  exists. Run on tokens that carry the values of the symbols of its right-hand side, it only touches
  elements that are there, follows every pointer to an object of the type it expects, aborts on
  no operator, and gives a value of the rule; all that can go wrong is the text of a literal or
  a numeric type (an unknown escape, a number out of range, text that runs off the buffer). The
  exception is the production that adds a mapping to the mappings of an implementation
  (\<open>broken_production\<close>): there the reducer always reads past the array of tokens.
\<close>

theorem reducers_fit_grammar:
  assumes "(r, vs) \<in> set grammar" and "v \<in> set vs"
    and "v_reducer v = Some f" and "list_all2 token_ok (v_elements v) ts"
  shows "\<exists>red. run_reducer f = Some red \<and>
    (if broken_production r v then red mem ts (v_tag v) = Inl (Undefined ''read past the end of the reduced tokens'')
     else case red mem ts (v_tag v) of Inl e \<Rightarrow> e \<in> text_faults | Inr x \<Rightarrow> value_ok r x)"
proof (cases "broken_production r v")
  case True
  with broken_reads_past [OF assms(1,2) True assms(3,4)] show ?thesis by simp
next
  case False
  then have "production_ok r v" using all_productions assms(1,2) by (auto simp: list_all_iff)
  with assms(3,4) have "case run_reducer f of None \<Rightarrow> False
      | Some red \<Rightarrow> ends_ok (value_ok r) (red mem ts (v_tag v))"
    unfolding production_ok_def by fastforce
  with False show ?thesis by (auto simp: ends_ok_def split: option.splits)
qed

definition sample_token :: "nat \<Rightarrow> sval \<Rightarrow> token" where
  "sample_token k v = \<lparr>t_id = k, t_first = 0, t_last = 1, t_loc = null_loc, t_val = v\<rparr>"

definition sample_expr :: expr where
  "sample_expr = Expr null_loc no_type (Ident_Expr ''a'')"

theorem reducers_fit_grammar_witness:
  "\<exists>red. run_reducer ''conditional_expr'' = Some red \<and>
    (case red ''a'' [sample_token 0 (V_Expr sample_expr), sample_token TKN_QUESTION V_Null, sample_token 0 (V_Expr sample_expr),
        sample_token TKN_COLON V_Null, sample_token 0 (V_Expr sample_expr)] 0 of
      Inl x \<Rightarrow> x \<in> text_faults | Inr x \<Rightarrow> value_ok ''conditional_expr'' x)"
proof -
  let ?v = "reduce [N ''or_expr'', T TKN_QUESTION, N ''expr'', T TKN_COLON, N ''conditional_expr'']
    ''conditional_expr'' 0"
  have "(''conditional_expr'', rule_conditional_expr) \<in> set grammar" by (simp add: grammar_def)
  moreover have "?v \<in> set rule_conditional_expr" by (simp add: rule_conditional_expr_def)
  moreover have "\<not> broken_production ''conditional_expr'' ?v" by (simp add: broken_production_def)
  ultimately show ?thesis
    using reducers_fit_grammar [of "''conditional_expr''" rule_conditional_expr ?v "''conditional_expr''"
        "[sample_token 0 (V_Expr sample_expr), sample_token TKN_QUESTION V_Null, sample_token 0 (V_Expr sample_expr),
          sample_token TKN_COLON V_Null, sample_token 0 (V_Expr sample_expr)]" "''a''"]
    by (simp add: reduce_def list_all2_tokens token_ok_simps value_ok_rules sample_token_def)
qed

text \<open>
  A function with an empty body is not a definition. The empty block reduces to a null
  pointer, so the unit that \<open>func_unit\<close> builds from a header and \<open>{}\<close> is the one it builds from
  a header and a semicolon, a declaration without a body.
\<close>

theorem empty_body_is_declaration:
  "reduce_default [T TKN_LBRACE, T TKN_RBRACE] \<in> set rule_compound_stmt \<and>
   (\<forall>f semi. fu_body f = None \<longrightarrow>
     reduce_func_unit mem [h\<lparr>t_val := V_Unit (Unit l (Func_Unit f))\<rparr>, b\<lparr>t_val := V_Null\<rparr>] 1 =
     reduce_func_unit mem [h\<lparr>t_val := V_Unit (Unit l (Func_Unit f))\<rparr>, semi] 0)"
  by (auto simp: rule_compound_stmt_def reduce_func_unit_def arg_unit_def arg_stmt_ptr_def arg_def)

theorem empty_body_is_declaration_witness:
  "reduce_func_unit [] [sample_token 0 (V_Unit (Unit null_loc (Func_Unit \<lparr>fu_return_type = no_type,
      fu_name = ''f'', fu_body = None, fu_params = [], fu_variadic = False, fu_type = no_type\<rparr>))),
      sample_token 0 V_Null] 1 =
   reduce_func_unit [] [sample_token 0 (V_Unit (Unit null_loc (Func_Unit \<lparr>fu_return_type = no_type,
      fu_name = ''f'', fu_body = None, fu_params = [], fu_variadic = False, fu_type = no_type\<rparr>))),
      sample_token 0 V_Null] 0"
  using empty_body_is_declaration
    [where mem = "[]" and h = "sample_token 0 V_Null" and l = null_loc and b = "sample_token 0 V_Null"]
  by (simp add: sample_token_def)


end
