(* ===== verification/Literals.thy ===== *)
theory Literals
  imports Reducers
begin

section \<open>Literals and type names (src/grammar_rules.c)\<close>

text \<open>
  What the reducers make of the texts of literals: string escapes, the radix prefix and the
  digits of numbers, and the names of the numeric types.
\<close>

subsection \<open>Strings\<close>

text \<open>The source text of a string, with the four escapes the compiler knows.\<close>

definition print_char :: "char \<Rightarrow> string" where
  "print_char c = (if c = CHR 0x22 then [CHR 0x5C, CHR 0x22]
     else if c = CHR 0x09 then [CHR 0x5C, CHR ''t'']
     else if c = CHR 0x0A then [CHR 0x5C, CHR ''n'']
     else if c = CHR 0x0D then [CHR 0x5C, CHR ''r'']
     else [c])"

definition print_string :: "string \<Rightarrow> string" where
  "print_string s = concat (map print_char s)"

lemma unescape_print:
  "CHR 0x5C \<notin> set s \<Longrightarrow> unescape (length (print_string s)) (print_string s @ r) = Inr s"
  by (induction s) (auto simp: print_string_def print_char_def escape_def)

text \<open>
  C24: the reducer of string literals inverts printing: on the source text of any string without
  backslashes, written with the escapes for quotes, tabs, line feeds and carriage returns, it
  gives back the string.
\<close>

theorem string_literal_roundtrip:
  assumes "CHR 0x5C \<notin> set s" and "length (print_string s) < 2 ^ 32 - 2"
    and "mem = pre @ [CHR 0x22] @ print_string s @ [CHR 0x22] @ post"
    and "t_first t = length pre" and "t_last t = length pre + length (print_string s) + 2"
  shows "reduce_primary_expr_string mem [t] 0 =
    Inr (V_Expr (Expr (t_loc t) no_type (String_Literal_Expr s)))"
proof -
  have len: "unat (of_nat (t_last t - t_first t) - 2 :: u32) = length (print_string s)"
    using assms(2,4,5) by (simp add: unat_of_nat)
  have "drop (t_first t + 1) mem = print_string s @ [CHR 0x22] @ post"
    using assms(3,4) by simp
  then show ?thesis
    using unescape_print [OF assms(1)] by (simp add: reduce_primary_expr_string_def arg_def len new_expr_def)
qed

definition text_token :: "nat \<Rightarrow> nat \<Rightarrow> token" where
  "text_token a b = \<lparr>t_id = 0, t_first = a, t_last = b, t_loc = null_loc, t_val = V_Null\<rparr>"

theorem string_literal_roundtrip_witness:
  "reduce_primary_expr_string [CHR ''x'', CHR 0x22, CHR ''a'', CHR 0x5C, CHR ''n'', CHR 0x22] [text_token 1 6] 0 =
    Inr (V_Expr (Expr null_loc no_type (String_Literal_Expr [CHR ''a'', CHR 0x0A])))"
  using string_literal_roundtrip [of "[CHR ''a'', CHR 0x0A]"
      "[CHR ''x'', CHR 0x22, CHR ''a'', CHR 0x5C, CHR ''n'', CHR 0x22]" "''x''" "[]" "text_token 1 6"]
  by (simp add: print_string_def print_char_def text_token_def)

text \<open>
  No string literal can hold a backslash: the escaped backslash, like every escape but
  \<open>t\<close>, \<open>n\<close>, \<open>r\<close> and the quote, makes the compiler abort, wherever it stands in the literal.
\<close>

theorem backslash_escape_aborts:
  assumes "CHR 0x5C \<notin> set s" and "d \<notin> {CHR 0x22, CHR ''t'', CHR ''n'', CHR ''r''}"
    and "length s + 1 < n"
  shows "unescape n (s @ [CHR 0x5C, d] @ r) = Inl (Aborted ''unknown escape sequence'')"
  using assms(1,3)
proof (induction s arbitrary: n)
  case Nil
  then obtain m where "n = Suc m" by (cases n) auto
  with assms(2) show ?case by (simp add: escape_def)
next
  case (Cons c s)
  then obtain m where "n = Suc m" by (cases n) auto
  with Cons show ?case by auto
qed

theorem backslash_escape_aborts_witness:
  "unescape 4 [CHR ''a'', CHR 0x5C, CHR 0x5C, CHR ''b''] = Inl (Aborted ''unknown escape sequence'')"
  using backslash_escape_aborts [of "''a''" "CHR 0x5C" 4 "''b''"] by simp

subsection \<open>Numbers\<close>

lemma extract_loop_filter:
  assumes "n \<le> length str" and "j + n \<le> length lit"
  shows "extract_loop n str lit j = Inr (take j lit @ filter (\<lambda>c. c \<noteq> CHR 0x27) (take n str)
      @ drop (j + length (filter (\<lambda>c. c \<noteq> CHR 0x27) (take n str))) lit)"
  using assms
proof (induction n str lit j rule: extract_loop.induct)
  case (3 n c str lit j)
  show ?case
  proof (cases "c = CHR 0x27")
    case False
    with 3 have "extract_loop n str (lit[j := c]) (j + 1) = Inr (take (j + 1) (lit[j := c])
        @ filter (\<lambda>c. c \<noteq> CHR 0x27) (take n str)
        @ drop (j + 1 + length (filter (\<lambda>c. c \<noteq> CHR 0x27) (take n str))) (lit[j := c]))"
      by simp
    moreover have "take (j + 1) (lit[j := c]) = take j lit @ [c]"
      using "3.prems" by (simp add: take_Suc_conv_app_nth)
    ultimately show ?thesis using False by simp
  qed (use 3 in simp)
qed simp_all

text \<open>
  The buffer \<open>extract_literal\<close> returns holds the characters of the number without its digit
  separators, and one NUL for each separator left out. So it is terminated only if the number
  was written with a separator: the literal of every number without one is a C string that runs
  off its buffer.
\<close>

theorem extract_literal_unterminated:
  assumes "p + n \<le> length mem"
  shows "extract_literal mem p n = Inr (filter (\<lambda>c. c \<noteq> CHR 0x27) (take n (drop p mem))
      @ replicate (length (filter (\<lambda>c. c = CHR 0x27) (take n (drop p mem)))) NUL)"
proof -
  let ?t = "take n (drop p mem)"
  have "length (filter (\<lambda>c. c \<noteq> CHR 0x27) ?t) + length (filter (\<lambda>c. c = CHR 0x27) ?t) = n"
    using assms sum_length_filter_compl [of "\<lambda>c. c \<noteq> CHR 0x27" ?t] by simp
  then have "n - length (filter (\<lambda>c. c \<noteq> CHR 0x27) ?t) = length (filter (\<lambda>c. c = CHR 0x27) ?t)"
    by linarith
  with assms show ?thesis
    by (simp add: extract_literal_def extract_loop_filter)
qed

theorem extract_literal_unterminated_witness:
  "extract_literal ''x=1'' 2 1 = Inr ''1'' \<and>
   extract_literal [CHR ''1'', CHR 0x27, CHR ''0''] 0 3 = Inr [CHR ''1'', CHR ''0'', NUL]"
  using extract_literal_unterminated [of 2 1 "''x=1''"]
    extract_literal_unterminated [of 0 3 "[CHR ''1'', CHR 0x27, CHR ''0'']"]
  by simp


lemma digit_char: "is_number_dec c \<Longrightarrow> \<not> is_space c \<and> c \<noteq> CHR ''-'' \<and> c \<noteq> CHR ''+''"
  by (auto simp: is_number_dec_def char_between_def is_space_def)

text \<open>\<open>atoi\<close> reads the digits the text starts with.\<close>

lemma atoi_digits:
  assumes "list_all is_number_dec ds" and "\<not> is_number_dec c" and "decimal_value ds < 2 ^ 31"
    and "ds = [] \<longrightarrow> \<not> is_space c \<and> c \<noteq> CHR ''-'' \<and> c \<noteq> CHR ''+''"
  shows "atoi (ds @ c # r) = Inr (int (decimal_value ds))"
proof -
  define s where "s = ds @ c # r"
  have "takeWhile is_number_dec s = ds"
    using assms(1,2) by (simp add: s_def list_all_iff takeWhile_append2)
  moreover have "dropWhile is_space s = s" "take 1 s \<noteq> ''-''" "take 1 s \<noteq> ''+''" "ds \<noteq> s"
    using assms(1,4) by (cases ds; auto simp: digit_char s_def)+
  moreover have "\<exists>x\<in>set s. \<not> is_number_dec x" using assms(2) by (auto simp: s_def)
  moreover have "int (decimal_value ds) < 2 ^ 31" using assms(3) by simp
  moreover have "- (2 ^ 31) \<le> int (decimal_value ds)" by simp
  ultimately show ?thesis unfolding s_def [symmetric] by (simp add: atoi_def Let_def)
qed

lemma atoi_Nil_digits: "\<not> is_number_dec c \<Longrightarrow> \<not> is_space c \<Longrightarrow> c \<noteq> CHR ''-'' \<Longrightarrow> c \<noteq> CHR ''+'' \<Longrightarrow>
    atoi (c # r) = Inr 0"
  using atoi_digits [of "[]" c r] by (simp add: decimal_value_def)

lemma digit_value_le: "is_number_dec c \<Longrightarrow> digit_value c \<le> 9"
  by (simp add: digit_value_def is_number_dec_def char_between_def le_diff_conv)

lemma digits_no_nul: "list_all is_number_dec ds \<Longrightarrow> NUL \<notin> set ds"
  by (auto simp: list_all_iff is_number_dec_def char_between_def)

lemma nul_no_digit: "\<not> is_number_dec NUL" "\<not> is_space NUL" "\<not> is_number_dec (CHR ''x'')"
  by (simp_all add: is_number_dec_def char_between_def is_space_def)

text \<open>
  The radix prefix. One or two digits and an \<open>x\<close> at the start of a number give its radix, 0
  standing for 16, and the length of the prefix is that of the digits and the \<open>x\<close>.
\<close>

theorem determine_radix_prefix:
  assumes "list_all is_number_dec ds" and "length ds = 1 \<or> length ds = 2"
    and "mem = pre @ ds @ ''x'' @ post" and "length pre + length ds < end_ptr"
  shows "determine_radix mem (length pre) end_ptr =
    Inr (if decimal_value ds = 0 then 16 else int (decimal_value ds), length ds + 1)"
proof -
  let ?s = "length pre"
  have "decimal_value ds \<le> 99"
    using assms(1,2) digit_value_le
    by (cases ds; cases "tl ds") (fastforce simp: decimal_value_def)+
  then have v: "decimal_value ds < 2 ^ 31" by simp
  have dup: "strndup mem ?s (length ds) = Inr ds"
    using digits_no_nul [OF assms(1)] assms(3) takeWhile_eq_all_conv [of "\<lambda>c. c \<noteq> NUL" ds]
    by (auto simp: strndup_def Let_def)
  have at: "byte_at mem (?s + length ds) = Inr (CHR ''x'')" using assms(3) by (simp add: byte_at_def nth_append)
  have pfx: "radix_prefix mem ?s (?s + length ds) =
      Inr (if decimal_value ds = 0 then 16 else int (decimal_value ds), length ds + 1)"
    using atoi_digits [OF assms(1) nul_no_digit(1) v, of "[]"] assms(2) nul_no_digit(2)
    by (auto simp: radix_prefix_def at dup)
  from assms(2) show ?thesis
  proof
    assume "length ds = 1"
    then obtain d where d: "ds = [d]" by (cases ds) auto
    then have "byte_at mem ?s = Inr d" "is_number_dec d"
      using assms(1,3) by (simp_all add: byte_at_def nth_append)
    with d at pfx assms(4) nul_no_digit(3) show ?thesis by (simp add: determine_radix_def)
  next
    assume "length ds = 2"
    then obtain d e where d: "ds = [d, e]" by (cases ds; cases "tl ds") auto
    then have "byte_at mem ?s = Inr d" "is_number_dec d" "byte_at mem (Suc ?s) = Inr e" "is_number_dec e"
      using assms(1,3) by (simp_all add: byte_at_def nth_append)
    with d pfx assms(4) show ?thesis by (simp add: determine_radix_def)
  qed
qed

theorem determine_radix_prefix_witness:
  "determine_radix ''0xff '' 0 4 = Inr (16, 2) \<and> determine_radix '' 12x9 '' 1 5 = Inr (12, 3)"
proof -
  have "list_all is_number_dec ''0''" "list_all is_number_dec ''12''" "decimal_value ''0'' = 0"
    "decimal_value ''12'' = 12" by code_simp+
  then show ?thesis
    using determine_radix_prefix [of "''0''" "''0xff ''" "[]" "''ff ''" 4]
      determine_radix_prefix [of "''12''" "'' 12x9 ''" "'' ''" "''9 ''" 5] by simp
qed

subsection \<open>Names of types and lengths of arrays\<close>

text \<open>
  Every name that starts with \<open>int\<close> is an integer type, whatever follows: its width is the
  number the rest starts with, and 0 when it starts with none. So a type the program calls
  \<open>interval\<close> is an integer of width 0, and \<open>int8x\<close> is \<open>int8\<close>.
\<close>

theorem int_prefix_is_integer:
  assumes "list_all is_number_dec ds" and "decimal_value ds < 2 ^ 31" and "ds @ r \<noteq> []"
    and "list_all is_ident r" and "r \<noteq> [] \<longrightarrow> \<not> is_number_dec (hd r)"
  shows "type_of_name (''int'' @ ds @ r) = Inr (Integer_Type (of_nat (decimal_value ds)))"
proof -
  have sep: "\<not> is_number_dec c \<and> \<not> is_space c \<and> c \<noteq> CHR ''-'' \<and> c \<noteq> CHR ''+''"
    if "c = NUL \<or> is_ident c \<and> \<not> is_number_dec c" for c
    using that by (auto simp: is_ident_def is_ident_start_def char_between_def is_number_dec_def is_space_def)
  obtain c q where c: "r @ [NUL] = c # q" by (cases r) auto
  then have "c = NUL \<or> is_ident c \<and> \<not> is_number_dec c"
    using assms(4,5) by (cases r) auto
  with sep have "atoi (ds @ c # q) = Inr (int (decimal_value ds))"
    by (intro atoi_digits [OF assms(1) _ assms(2)]) blast+
  with c have "atoi ((ds @ r) @ [NUL]) = Inr (int (decimal_value ds))" by simp
  moreover have "0 < length (ds @ r)" using assms(3) by blast
  ultimately show ?thesis by (simp add: type_of_name_def)
qed

theorem int_prefix_is_integer_witness:
  "type_of_name ''interval'' = Inr (Integer_Type 0) \<and> type_of_name ''int8x'' = Inr (Integer_Type 8)"
proof -
  have "list_all is_number_dec ''8''" "decimal_value ''8'' = 8" "decimal_value [] = 0"
    "list_all is_ident ''erval''" "list_all is_ident ''x''" "\<not> is_number_dec (hd ''erval'')"
    "\<not> is_number_dec (hd ''x'')" by code_simp+
  then show ?thesis
    using int_prefix_is_integer [of "[]" "''erval''"] int_prefix_is_integer [of "''8''" "''x''"] by simp
qed

text \<open>
  The length of an array type is the number its literal starts with: radix prefixes and
  digit separators, which number literals allow everywhere else, cut it short. In particular
  \<open>[0x10]T\<close> has length 0.
\<close>

theorem array_length_cut_short:
  assumes "mem = pre @ ds @ c # post" and "list_all is_number_dec ds" and "ds \<noteq> []"
    and "\<not> is_number_dec c" and "decimal_value ds < 2 ^ 31"
    and "t_first n = length pre" and "t_val ty = V_Type e"
  shows "reduce_type_array mem [lb, n, rb, ty] 0 =
    Inr (V_Type (Type 0 (Array_Type e (of_nat (decimal_value ds)))))"
  using atoi_digits [OF assms(2,4,5), of post] assms(1,3,6,7)
  by (simp add: reduce_type_array_def arg_type_def arg_def new_type_def numeral_3_eq_3)

theorem array_length_cut_short_witness:
  "reduce_type_array ''[0x10]int'' [text_token 0 1, text_token 1 5, text_token 5 6,
      (text_token 6 9)\<lparr>t_val := V_Type (Type 0 (Integer_Type 32))\<rparr>] 0 =
    Inr (V_Type (Type 0 (Array_Type (Type 0 (Integer_Type 32)) 0)))"
proof -
  have "list_all is_number_dec ''0''" "decimal_value ''0'' = 0" "\<not> is_number_dec (CHR ''x'')"
    by code_simp+
  then show ?thesis
    using array_length_cut_short [of "''[0x10]int''" "''[''" "''0''" "CHR ''x''" "''10]int''" "text_token 1 5"
        "(text_token 6 9)\<lparr>t_val := V_Type (Type 0 (Integer_Type 32))\<rparr>" "Type 0 (Integer_Type 32)"]
    by (simp add: text_token_def)
qed

end
