(* ===== verification/Parser.thy ===== *)
theory Parser
  imports Grammar
begin

section \<open>The LR parser (src/parser.c, src/parser_states.h)\<close>

text \<open>
  The driver \<open>parse\<close>, with the table the build generates (\<open>parser_states\<close>) as a parameter. The
  stack is a list in the order of the array, its top last; its operations are those of the
  interface \<open>item_seq\<close> of \<open>Dyn_Array\<close>. One iteration of the loop is \<open>parse_step\<close>; the loop
  itself is a partial function, since nothing makes it end on every table and text: \<open>None\<close>
  stands for a run that goes on forever.
\<close>

record parser_action =
  pa_token :: nat
  pa_state_or_length :: int
  pa_reducer :: "reducer option"
  pa_tag :: nat
  pa_rule :: nat

record parser_goto =
  pg_rule :: nat
  pg_state :: nat

record parser_state =
  st_actions :: "parser_action list"
  st_gotos :: "parser_goto list"

record parser_stack =
  ps_state :: nat
  ps_token :: token

definition state_at :: "parser_state list \<Rightarrow> nat \<Rightarrow> parser_state res" where
  "state_at tbl s = (if s < length tbl then Inr (tbl ! s)
     else Inl (Undefined ''state outside of parser_states''))"

subsection \<open>Syntax errors\<close>

text \<open>\<open>printf\<close> prints a null string as \<open>(null)\<close> (glibc); the special tokens have no name.\<close>

definition name_of_token :: "nat \<Rightarrow> string" where
  "name_of_token t = (if t < length token_names
     then (case token_names ! t of None \<Rightarrow> ''(null)'' | Some s \<Rightarrow> s) else ''(null)'')"

text \<open>The expected tokens, separated by commas, the last one after an \<open>or\<close>.\<close>

fun expected_list :: "nat \<Rightarrow> nat \<Rightarrow> parser_action list \<Rightarrow> string" where
  "expected_list i n [] = []"
| "expected_list i n (a # as) =
     (if i = 0 then '' '' else if i = n - 1 then '', or '' else '', '')
       @ [CHR 0x22] @ name_of_token (pa_token a) @ [CHR 0x22] @ expected_list (i + 1) n as"

definition syntax_error :: "parser_action list \<Rightarrow> string" where
  "syntax_error as = ''syntax error, expected'' @ expected_list 0 (length as) as"

subsection \<open>One iteration\<close>

datatype parse_outcome =
    Accepted sval
  | Shifted lexer "parser_stack list"
  | Reduced "parser_stack list"

definition find_action :: "parser_action list \<Rightarrow> nat \<Rightarrow> parser_action option" where
  "find_action as t = find (\<lambda>a. pa_token a = t) as"

definition find_goto :: "parser_goto list \<Rightarrow> nat \<Rightarrow> nat option" where
  "find_goto gs r = map_option pg_state (find (\<lambda>g. pg_rule g = r) gs)"

text \<open>The token being shifted; \<open>lex->base\<close> is set whenever there is one.\<close>

definition shifted_token :: "lexer \<Rightarrow> token" where
  "shifted_token lx = \<lparr>t_id = l_token lx, t_first = (case l_base lx of None \<Rightarrow> 0 | Some b \<Rightarrow> b),
     t_last = l_ptr lx, t_loc = l_loc lx, t_val = V_Null\<rparr>"

definition parse_shift :: "lexer \<Rightarrow> parser_stack list \<Rightarrow> nat \<Rightarrow> parse_outcome res" where
  "parse_shift lx stack s =
     rbind (lexer_next lx) (\<lambda>lx'.
       Inr (Shifted lx' (stack @ [\<lparr>ps_state = s, ps_token = shifted_token lx\<rparr>])))"

definition parse_reduce ::
    "parser_state list \<Rightarrow> string \<Rightarrow> parser_stack list \<Rightarrow> parser_action \<Rightarrow> parse_outcome res" where
  "parse_reduce tbl mem stack a =
     (let size = length stack; num_tokens = nat (- pa_state_or_length a) in
      if \<not> num_tokens + 1 \<le> size then Inl (Assert_Failed ''index < self->size'')
      else
        (let target = stack ! (size - num_tokens); base = stack ! (size - num_tokens - 1);
             reduced = (ps_token target)\<lparr>t_id := pa_rule a, t_last := t_last (ps_token (last stack))\<rparr>
         in rbind (state_at tbl (ps_state base)) (\<lambda>base_state.
            rbind (case pa_reducer a of
                None \<Rightarrow> Inr reduced
              | Some red \<Rightarrow>
                  rbind (red mem (map ps_token (drop (size - num_tokens) stack)) (pa_tag a))
                    (\<lambda>v. Inr (reduced\<lparr>t_val := v\<rparr>))) (\<lambda>tok.
              Inr (Reduced (take (size - num_tokens) stack @
                [\<lparr>ps_state = (case find_goto (st_gotos base_state) (pa_rule a) of
                      Some s \<Rightarrow> s | None \<Rightarrow> ps_state target),
                  ps_token = tok\<rparr>]))))))"

definition parse_step ::
    "parser_state list \<Rightarrow> lexer \<Rightarrow> parser_stack list \<Rightarrow> parse_outcome res" where
  "parse_step tbl lx stack =
     rbind (state_at tbl (ps_state (last stack))) (\<lambda>state.
       case find_action (st_actions state) (l_token lx) of
         None \<Rightarrow> Inl (Exited (syntax_error (st_actions state)))
       | Some a \<Rightarrow>
           if pa_state_or_length a < 0 then
             if pa_rule a = 0 then Inr (Accepted (t_val (ps_token (last stack))))
             else parse_reduce tbl (l_mem lx) stack a
           else parse_shift lx stack (nat (pa_state_or_length a)))"

subsection \<open>The loop\<close>

text \<open>The entry at the bottom of the stack is zero.\<close>

definition initial_entry :: parser_stack where
  "initial_entry = \<lparr>ps_state = 0,
     ps_token = \<lparr>t_id = 0, t_first = 0, t_last = 0, t_loc = null_loc, t_val = V_Null\<rparr>\<rparr>"

text \<open>\<open>while (stack.size > 0)\<close>; the result is what \<open>parse\<close> returns, with the lexer.\<close>

partial_function (option) parse_loop ::
    "parser_state list \<Rightarrow> lexer \<Rightarrow> parser_stack list \<Rightarrow> (lexer \<times> sval) res option" where
  [code]: "parse_loop tbl lx stack =
     (if stack = [] then Some (Inr (lx, V_Null))
      else (case parse_step tbl lx stack of
          Inl e \<Rightarrow> Some (Inl e)
        | Inr (Accepted v) \<Rightarrow> Some (Inr (lx, v))
        | Inr (Shifted lx' stack') \<Rightarrow> parse_loop tbl lx' stack'
        | Inr (Reduced stack') \<Rightarrow> parse_loop tbl lx stack'))"

definition parse :: "parser_state list \<Rightarrow> lexer \<Rightarrow> (lexer \<times> sval) res option" where
  "parse tbl lx = parse_loop tbl lx [initial_entry]"

end
