(* ===== verification/Parser_Props.thy ===== *)
theory Parser_Props
  imports Parser Grammar_Typing Lexer_Props "HOL-Library.Sublist"
begin

section \<open>Soundness of the parser\<close>

text \<open>
  \<open>table_ok\<close> says what the parser relies on of a generated table: every state knows the last
  symbols on any stack that leads to it (\<open>hist\<close>, the most recent first), a shift or goto extends
  them, a reduction finds its right-hand side on them and a goto under it, and the accepting
  state follows the initial one. With such a table the parser is sound: what it accepts is a
  sentence of the grammar, its tokens are those of the lexer up to the end of the file, the
  semantic actions only meet values of the symbols they expect, and the result is a list of
  units.
\<close>

subsection \<open>Sentences\<close>

inductive yields :: "symbol \<Rightarrow> nat list \<Rightarrow> bool" and yields_all :: "symbol list \<Rightarrow> nat list \<Rightarrow> bool" where
  yields_T: "yields (T k) [k]"
| yields_N: "(r, vs) \<in> set grammar \<Longrightarrow> v \<in> set vs \<Longrightarrow> yields_all (v_elements v) w \<Longrightarrow> yields (N r) w"
| yields_Nil: "yields_all [] []"
| yields_Cons: "yields x u \<Longrightarrow> yields_all xs w \<Longrightarrow> yields_all (x # xs) (u @ w)"

inductive_cases yields_all_ConsE: "yields_all (x # xs) w"
inductive_cases yields_all_NilE: "yields_all [] w"

lemma yields_all_append: "yields_all xs u \<Longrightarrow> yields_all ys w \<Longrightarrow> yields_all (xs @ ys) (u @ w)"
proof (induction xs arbitrary: u)
  case (Cons x xs)
  from Cons.prems(1) obtain a b where "u = a @ b" "yields x a" "yields_all xs b"
    by (rule yields_all_ConsE) blast
  with Cons show ?case using yields_Cons [of x a "xs @ ys" "b @ w"] by simp
qed (auto elim: yields_all_NilE)

lemma yields_all_split:
  assumes "yields_all (xs @ ys) w"
  obtains u v where "w = u @ v" and "yields_all xs u" and "yields_all ys v"
  using assms
proof (induction xs arbitrary: w thesis)
  case Nil
  then show ?case using yields_Nil by (metis append_Nil)
next
  case (Cons x xs)
  from Cons.prems(2) obtain a b where ab: "w = a @ b" "yields x a" "yields_all (xs @ ys) b"
    by (auto elim: yields_all_ConsE)
  obtain u v where "b = u @ v" "yields_all xs u" "yields_all ys v" by (rule Cons.IH [OF _ ab(3)])
  with ab show ?case by (intro Cons.prems(1) [of "a @ u" v] yields_Cons) simp_all
qed

lemma yields_all_single: "yields_all [x] w \<longleftrightarrow> yields x w"
  using yields_Cons [OF _ yields_Nil, of x w] by (auto elim!: yields_all_ConsE yields_all_NilE)

subsection \<open>Tables\<close>

definition shift_to :: "parser_action \<Rightarrow> nat option" where
  "shift_to a = (if pa_state_or_length a < 0 then None else Some (nat (pa_state_or_length a)))"

text \<open>The transitions of a table: the shifts and the gotos.\<close>

definition lr_edge :: "parser_state list \<Rightarrow> (nat \<Rightarrow> string) \<Rightarrow> nat \<Rightarrow> symbol \<Rightarrow> nat \<Rightarrow> bool" where
  "lr_edge tbl rid p x s \<longleftrightarrow> p < length tbl \<and>
     ((\<exists>a\<in>set (st_actions (tbl ! p)). shift_to a = Some s \<and> x = T (pa_token a)) \<or>
      (\<exists>g\<in>set (st_gotos (tbl ! p)). pg_state g = s \<and> x = N (rid (pg_rule g))))"

definition targets :: "parser_state \<Rightarrow> nat list" where
  "targets st = List.map_filter shift_to (st_actions st) @ map pg_state (st_gotos st)"

text \<open>The states \<open>n\<close> transitions before a state.\<close>

primrec states_back :: "parser_state list \<Rightarrow> nat \<Rightarrow> nat \<Rightarrow> nat list" where
  "states_back tbl 0 s = [s]"
| "states_back tbl (Suc n) s =
     concat (map (states_back tbl n) (filter (\<lambda>p. s \<in> set (targets (tbl ! p))) [0..<length tbl]))"

definition reduction_ok ::
    "parser_state list \<Rightarrow> (nat \<Rightarrow> string) \<Rightarrow> (nat \<Rightarrow> symbol list) \<Rightarrow> nat \<Rightarrow> parser_action \<Rightarrow> bool" where
  "reduction_ok tbl rid hist s a \<longleftrightarrow>
     (\<exists>(r, vs)\<in>set grammar. r = rid (pa_rule a) \<and> (\<exists>v\<in>set vs.
        length (v_elements v) = nat (- pa_state_or_length a) \<and> prefix (rev (v_elements v)) (hist s) \<and>
        pa_tag a = v_tag v \<and>
        (case v_reducer v of None \<Rightarrow> pa_reducer a = None
         | Some f \<Rightarrow> pa_reducer a = run_reducer f \<and> run_reducer f \<noteq> None))) \<and>
     (\<forall>p\<in>set (states_back tbl (nat (- pa_state_or_length a)) s).
        p < length tbl \<and> find_goto (st_gotos (tbl ! p)) (pa_rule a) \<noteq> None)"

definition accept_ok :: "parser_state list \<Rightarrow> (nat \<Rightarrow> symbol list) \<Rightarrow> nat \<Rightarrow> parser_action \<Rightarrow> bool" where
  "accept_ok tbl hist s a \<longleftrightarrow> pa_token a = TKN_EOF \<and> hist s = [N ''unit_list''] \<and>
     set (states_back tbl 1 s) \<subseteq> {0}"

definition table_ok :: "parser_state list \<Rightarrow> (nat \<Rightarrow> string) \<Rightarrow> (nat \<Rightarrow> symbol list) \<Rightarrow> bool" where
  "table_ok tbl rid hist \<longleftrightarrow> tbl \<noteq> [] \<and> hist 0 = [] \<and>
     (\<forall>s<length tbl.
        0 \<notin> set (targets (tbl ! s)) \<and>
        (\<forall>a\<in>set (st_actions (tbl ! s)).
          if pa_state_or_length a < 0 then
            if pa_rule a = 0 then accept_ok tbl hist s a else reduction_ok tbl rid hist s a
          else TKN_EOF < pa_token a \<and> nat (pa_state_or_length a) < length tbl \<and>
            prefix (hist (nat (pa_state_or_length a))) (T (pa_token a) # hist s)) \<and>
        (\<forall>g\<in>set (st_gotos (tbl ! s)).
          pg_state g < length tbl \<and> prefix (hist (pg_state g)) (N (rid (pg_rule g)) # hist s)))"

subsection \<open>Stacks\<close>

text \<open>A stack, its top first: states linked by transitions on the symbols, down to state 0.\<close>

fun linked :: "parser_state list \<Rightarrow> (nat \<Rightarrow> string) \<Rightarrow> nat list \<Rightarrow> symbol list \<Rightarrow> bool" where
  "linked tbl rid [s] [] = (s = 0)"
| "linked tbl rid (s # p # ss) (x # xs) = (lr_edge tbl rid p x s \<and> linked tbl rid (p # ss) xs)"
| "linked tbl rid _ _ = False"

lemma linked_length: "linked tbl rid ss xs \<Longrightarrow> length ss = Suc (length xs)"
  by (induction tbl rid ss xs rule: linked.induct) auto

lemma linked_drop: "linked tbl rid ss xs \<Longrightarrow> n \<le> length xs \<Longrightarrow> linked tbl rid (drop n ss) (drop n xs)"
proof (induction n arbitrary: ss xs)
  case (Suc n)
  then obtain s p ss' x xs' where "ss = s # p # ss'" "xs = x # xs'"
    by (cases xs; cases ss; cases "tl ss") auto
  with Suc show ?case by auto
qed simp

lemma lr_edge_target: "lr_edge tbl rid p x s \<Longrightarrow> p < length tbl \<and> s \<in> set (targets (tbl ! p))"
  by (force simp: lr_edge_def targets_def List.map_filter_def)

lemma linked_back:
  "linked tbl rid ss xs \<Longrightarrow> n \<le> length xs \<Longrightarrow> ss ! n \<in> set (states_back tbl n (hd ss))"
proof (induction n arbitrary: ss xs)
  case 0
  then show ?case by (cases ss) auto
next
  case (Suc n)
  then obtain s p ss' x xs' where e: "ss = s # p # ss'" "xs = x # xs'"
    by (cases xs; cases ss; cases "tl ss") auto
  with Suc.prems have "(p # ss') ! n \<in> set (states_back tbl n p)" "p < length tbl \<and> s \<in> set (targets (tbl ! p))"
    using Suc.IH [of "p # ss'" xs'] lr_edge_target [of tbl rid p x s] by auto
  with e show ?case by auto
qed

lemma table_ok_edge:
  assumes "table_ok tbl rid hist" and "lr_edge tbl rid p x s"
  shows "s < length tbl" and "s \<noteq> 0" and "prefix (hist s) (x # hist p)"
proof -
  have p: "p < length tbl" "s \<in> set (targets (tbl ! p))" using lr_edge_target [OF assms(2)] by auto
  have "0 \<notin> set (targets (tbl ! p))" using assms(1) p(1) by (simp add: table_ok_def)
  with p(2) show "s \<noteq> 0" by metis
  have "s < length tbl \<and> prefix (hist s) (x # hist p)"
    using assms p(1) by (fastforce simp: table_ok_def lr_edge_def shift_to_def split: if_splits)
  then show "s < length tbl" "prefix (hist s) (x # hist p)" by simp_all
qed

lemma linked_hist:
  assumes ok: "table_ok tbl rid hist"
  shows "linked tbl rid ss xs \<Longrightarrow> prefix (hist (hd ss)) xs \<and> hd ss < length tbl"
proof (induction xs arbitrary: ss)
  case Nil
  then have "ss = [0]" by (cases ss; cases "tl ss") auto
  with ok show ?case by (auto simp: table_ok_def)
next
  case (Cons x xs)
  then obtain s p ss' where e: "ss = s # p # ss'" "lr_edge tbl rid p x s" "linked tbl rid (p # ss') xs"
    by (cases ss; cases "tl ss") auto
  with Cons.IH [of "p # ss'"] have "prefix (hist p) xs" by simp
  then have "prefix (x # hist p) (x # xs)" by simp
  with table_ok_edge [OF ok e(2)] e(1) show ?case using prefix_order.trans by force
qed

text \<open>State 0 is only at the bottom.\<close>

lemma linked_zero:
  assumes ok: "table_ok tbl rid hist" and "linked tbl rid (0 # ss) xs"
  shows "xs = []"
  using assms(2) table_ok_edge(2) [OF ok] by (cases xs; cases ss) auto

text \<open>Every state on the stack is one of the table.\<close>

lemma linked_states:
  assumes ok: "table_ok tbl rid hist"
  shows "linked tbl rid ss xs \<Longrightarrow> \<forall>s\<in>set ss. s < length tbl"
proof (induction xs arbitrary: ss)
  case Nil
  then have "ss = [0]" by (cases ss; cases "tl ss") auto
  with ok show ?case by (auto simp: table_ok_def)
next
  case (Cons x xs)
  then obtain s p ss' where e: "ss = s # p # ss'" "lr_edge tbl rid p x s" "linked tbl rid (p # ss') xs"
    by (cases ss; cases "tl ss") auto
  with Cons.IH [of "p # ss'"] table_ok_edge(1) [OF ok e(2)] show ?case by simp
qed

subsection \<open>The invariant of the driver\<close>

text \<open>
  The stack is linked on some symbols, its tokens carry the values of these symbols, and the
  symbols derive the tokens shifted so far.
\<close>

definition stack_ok ::
    "parser_state list \<Rightarrow> (nat \<Rightarrow> string) \<Rightarrow> parser_stack list \<Rightarrow> symbol list \<Rightarrow> nat list \<Rightarrow> bool" where
  "stack_ok tbl rid stack xs toks \<longleftrightarrow> stack \<noteq> [] \<and>
     linked tbl rid (rev (map ps_state stack)) (rev xs) \<and>
     list_all2 token_ok xs (map ps_token (tl stack)) \<and> yields_all xs toks"

lemma stack_ok_initial: "stack_ok tbl rid [initial_entry] [] []"
  by (simp add: stack_ok_def initial_entry_def yields_Nil)

lemma stack_ok_push:
  assumes "stack_ok tbl rid stack xs toks" and "lr_edge tbl rid (ps_state (last stack)) x s"
    and "token_ok x t" and "yields x w"
  shows "stack_ok tbl rid (stack @ [\<lparr>ps_state = s, ps_token = t\<rparr>]) (xs @ [x]) (toks @ w)"
proof -
  obtain p ss where ss: "rev (map ps_state stack) = p # ss" "p = ps_state (last stack)"
    using assms(1) by (cases stack rule: rev_cases) (auto simp: stack_ok_def)
  have "yields_all (xs @ [x]) (toks @ w)"
    using assms(1,4) by (intro yields_all_append) (auto simp: stack_ok_def yields_all_single)
  with assms ss show ?thesis
    by (auto simp: stack_ok_def intro: list_all2_appendI)
qed

text \<open>Popping the symbols of the last \<open>n\<close> entries.\<close>

lemma stack_ok_pop:
  assumes "stack_ok tbl rid stack xs toks" and "n \<le> length xs"
  obtains u w where "toks = u @ w" and "yields_all (drop (length xs - n) xs) w"
    and "stack_ok tbl rid (take (length stack - n) stack) (take (length xs - n) xs) u"
    and "list_all2 token_ok (drop (length xs - n) xs) (map ps_token (drop (length stack - n) stack))"
proof -
  let ?m = "length xs - n"
  have len: "length stack = Suc (length xs)"
    using assms(1) linked_length [of tbl rid "rev (map ps_state stack)" "rev xs"] by (simp add: stack_ok_def)
  obtain u w where uw: "toks = u @ w" "yields_all (take ?m xs) u" "yields_all (drop ?m xs) w"
    using assms(1) yields_all_split [of "take ?m xs" "drop ?m xs" toks] by (auto simp: stack_ok_def)
  have "linked tbl rid (drop n (rev (map ps_state stack))) (drop n (rev xs))"
    using assms by (intro linked_drop) (simp_all add: stack_ok_def)
  then have "linked tbl rid (rev (map ps_state (take (length stack - n) stack))) (rev (take ?m xs))"
    by (simp add: drop_rev take_map)
  moreover have "map ps_token (tl (take (length stack - n) stack)) = take ?m (map ps_token (tl stack))"
    using len assms(2) by (cases stack) (simp_all add: Suc_diff_le take_map)
  moreover have "map ps_token (drop (length stack - n) stack) = drop ?m (map ps_token (tl stack))"
    using len assms(2) by (cases stack) (simp_all add: Suc_diff_le drop_map)
  moreover have "take (length stack - n) stack \<noteq> []" using len assms(2) by (cases stack) auto
  ultimately show thesis
    using that [OF uw(1,3)] uw(2) assms(1) list_all2_takeI list_all2_dropI
    by (fastforce simp: stack_ok_def)
qed


subsection \<open>Chains of unit productions\<close>

text \<open>
  No production is empty and the productions with one symbol on the right do not form a cycle: a
  rank grows along them.
\<close>

definition rank_table :: "(string \<times> nat) list" where
  "rank_table = [
    (''decl'', 2), (''func_type_args'', 2), (''implementation_mapping_list'', 2),
    (''interface_member_func_parameter'', 2), (''interface_member_list'', 2),
    (''iteration_stmt_for_step'', 2), (''parameter'', 2), (''postfix_expr'', 2), (''stmt'', 2),
    (''struct_member_list'', 2), (''block_item'', 3), (''decl_unit'', 3),
    (''interface_member_func_parameter_list'', 3), (''parameter_list'', 3), (''unary_expr'', 3),
    (''block_item_list'', 4), (''cast_expr'', 4), (''unit'', 4), (''multiplicative_expr'', 5),
    (''unit_list'', 5), (''additive_expr'', 6), (''shift_expr'', 7), (''relational_expr'', 8),
    (''equality_expr'', 9), (''bitwise_and_expr'', 10), (''bitwise_xor_expr'', 11),
    (''bitwise_or_expr'', 12), (''and_expr'', 13), (''or_expr'', 14), (''conditional_expr'', 15),
    (''assignment_expr'', 16), (''argument_expr_list'', 17), (''expr'', 17)]"

fun rank :: "symbol \<Rightarrow> nat" where
  "rank (T k) = 0"
| "rank (N r) = (case map_of rank_table r of None \<Rightarrow> 1 | Some n \<Rightarrow> n)"

lemma rank_bound: "rank x \<le> 17"
proof (cases x)
  case (N r)
  have "list_all (\<lambda>e. snd e \<le> 17) rank_table" by code_simp
  then have "n \<le> 17" if "map_of rank_table r = Some n" for n
    using map_of_SomeD [OF that] by (auto simp: list_all_iff)
  then show ?thesis using N by (auto split: option.splits)
qed simp

lemma unit_productions_ranked:
  "list_all (\<lambda>(r, vs). list_all (\<lambda>v. v_elements v \<noteq> [] \<and>
     (length (v_elements v) = 1 \<longrightarrow> rank (hd (v_elements v)) < rank (N r))) vs) grammar"
  by code_simp

text \<open>A reduction shortens the stack or climbs the chain of unit productions.\<close>

definition climbs :: "symbol list \<Rightarrow> symbol list \<Rightarrow> bool" where
  "climbs xs xs' \<longleftrightarrow> length xs' < length xs \<or>
     length xs' = length xs \<and> xs \<noteq> [] \<and> rank (last xs) < rank (last xs')"

lemma climbs_reduce:
  assumes "(r, vs) \<in> set grammar" and "v \<in> set vs"
  shows "climbs (pre @ v_elements v) (pre @ [N r])"
proof -
  have "v_elements v \<noteq> [] \<and> (length (v_elements v) = 1 \<longrightarrow> rank (hd (v_elements v)) < rank (N r))"
    using unit_productions_ranked assms unfolding list_all_iff by blast
  then show ?thesis by (cases "v_elements v"; cases "tl (v_elements v)") (auto simp: climbs_def simp del: rank.simps)
qed

subsection \<open>One step\<close>

definition reduce_faults :: "fault set" where
  "reduce_faults = insert (Undefined ''read past the end of the reduced tokens'') text_faults"

lemma reducer_outcome:
  assumes "(r, vs) \<in> set grammar" and "v \<in> set vs" and "list_all2 token_ok (v_elements v) ts"
  shows "case v_reducer v of None \<Rightarrow> value_ok r (t_val (hd ts))
    | Some f \<Rightarrow> \<exists>red. run_reducer f = Some red \<and>
        (case red mem ts (v_tag v) of Inl e \<Rightarrow> e \<in> reduce_faults | Inr x \<Rightarrow> value_ok r x)"
proof (cases "broken_production r v")
  case False
  then have "production_ok r v" using all_productions assms(1,2) by (auto simp: list_all_iff)
  with assms(3) have "case v_reducer v of None \<Rightarrow> value_ok r (t_val (hd ts))
      | Some f \<Rightarrow> (case run_reducer f of None \<Rightarrow> False
          | Some red \<Rightarrow> ends_ok (value_ok r) (red mem ts (v_tag v)))"
    unfolding production_ok_def by blast
  then show ?thesis by (auto simp: ends_ok_def reduce_faults_def split: option.splits sum.splits)
next
  case True
  then have r: "r = ''implementation_mapping_list''" by (simp add: broken_production_def)
  have "map_of grammar r = Some rule_implementation_mapping_list"
    unfolding r by (simp add: grammar_def)
  moreover have "distinct (map fst grammar)" by code_simp
  ultimately have "vs = rule_implementation_mapping_list" using assms(1) by (metis map_of_is_SomeI option.inject)
  with assms(2) True have v: "v = reduce [N ''implementation_mapping_list'', N ''implementation_mapping'']
      ''implementation_mapping_list'' 1"
    by (auto simp: rule_implementation_mapping_list_def broken_production_def reduce_def)
  with assms(3) show ?thesis
    by (auto simp: reduce_def list_all2_tokens token_ok_simps value_ok_rules run_reducer_simps arg_defs
        reduce_implementation_mapping_list_def reduce_faults_def)
qed

lemma find_SomeD: "find P xs = Some x \<Longrightarrow> x \<in> set xs \<and> P x"
  by (induction xs) (auto split: if_splits)

lemma find_goto_edge:
  "p < length tbl \<Longrightarrow> find_goto (st_gotos (tbl ! p)) k = Some s \<Longrightarrow> lr_edge tbl rid p (N (rid k)) s"
  by (auto simp: find_goto_def lr_edge_def dest!: find_SomeD)

lemma parse_reduce_sound:
  assumes ok: "table_ok tbl rid hist" and st: "stack_ok tbl rid stack xs toks"
    and red: "reduction_ok tbl rid hist (ps_state (last stack)) a" and neg: "pa_state_or_length a < 0"
  shows "case parse_reduce tbl mem stack a of
      Inl e \<Rightarrow> e \<in> reduce_faults
    | Inr out \<Rightarrow> \<exists>stack' xs'. out = Reduced stack' \<and> stack_ok tbl rid stack' xs' toks \<and> climbs xs xs'"
proof -
  let ?s = "ps_state (last stack)" and ?n = "nat (- pa_state_or_length a)" and ?ss = "rev (map ps_state stack)"
  obtain r vs v where v: "(r, vs) \<in> set grammar" "r = rid (pa_rule a)" "v \<in> set vs"
    "length (v_elements v) = ?n" "prefix (rev (v_elements v)) (hist ?s)" "pa_tag a = v_tag v"
    "case v_reducer v of None \<Rightarrow> pa_reducer a = None
       | Some f \<Rightarrow> pa_reducer a = run_reducer f \<and> run_reducer f \<noteq> None"
    and gotos: "\<forall>p\<in>set (states_back tbl ?n ?s). p < length tbl \<and> find_goto (st_gotos (tbl ! p)) (pa_rule a) \<noteq> None"
    using red by (auto simp: reduction_ok_def)
  have lk: "linked tbl rid ?ss (rev xs)" and ne: "stack \<noteq> []" using st by (auto simp: stack_ok_def)
  have hd_ss: "hd ?ss = ?s" using ne by (simp add: hd_rev last_map)
  have len: "length stack = Suc (length xs)" using linked_length [OF lk] by simp
  have "prefix (rev (v_elements v)) (rev xs)"
    using v(5) linked_hist [OF ok lk] hd_ss prefix_order.trans by metis
  then obtain pre where xs: "xs = pre @ v_elements v" by (metis prefixE rev_append rev_rev_ident)
  then have n: "?n \<le> length xs" "length xs - ?n = length pre" using v(4) by simp_all
  obtain u w where uw: "toks = u @ w" "yields_all (v_elements v) w"
    "stack_ok tbl rid (take (length stack - ?n) stack) pre u"
    "list_all2 token_ok (v_elements v) (map ps_token (drop (length stack - ?n) stack))"
    using stack_ok_pop [OF st n(1)] n(2) xs by auto
  let ?low = "take (length stack - ?n) stack" and ?ts = "map ps_token (drop (length stack - ?n) stack)"
  have low_len: "length ?low = length stack - ?n" by simp
  have n0: "0 < ?n" "?n + 1 \<le> length stack" using neg n(1) len by simp_all
  then have low_ne: "?low \<noteq> []" by auto
  have base: "stack ! (length stack - ?n - 1) = last ?low"
    using n0 by (simp add: last_conv_nth [OF low_ne])
  have target: "stack ! (length stack - ?n) = hd (drop (length stack - ?n) stack)"
    using n0 by (simp add: hd_drop_conv_nth)
  have "?ss ! ?n = ps_state (last ?low)"
    using n0 base by (simp add: rev_nth)
  then have p: "ps_state (last ?low) < length tbl"
    "find_goto (st_gotos (tbl ! ps_state (last ?low))) (pa_rule a) \<noteq> None"
    using gotos linked_back [OF lk, of ?n] n(1) hd_ss by simp_all
  then obtain s' where s': "find_goto (st_gotos (tbl ! ps_state (last ?low))) (pa_rule a) = Some s'" by blast
  have push: "stack_ok tbl rid (?low @ [\<lparr>ps_state = s', ps_token = t\<rparr>]) (pre @ [N r]) toks"
    if "value_ok r (t_val t)" for t
    unfolding uw(1) v(2)
    by (rule stack_ok_push [OF uw(3) find_goto_edge [OF p(1) s']])
      (use that v(1,2,3) uw(2) yields_N in \<open>auto simp: token_ok_def\<close>)
  have hd_ts: "t_val (hd ?ts) = t_val (ps_token (stack ! (length stack - ?n)))"
    using target n0 by (simp add: hd_map)
  define t where "t = (ps_token (stack ! (length stack - ?n)))
      \<lparr>t_id := pa_rule a, t_last := t_last (ps_token (last stack))\<rparr>"
  have eq: "parse_reduce tbl mem stack a = rbind (case pa_reducer a of None \<Rightarrow> Inr t
        | Some red \<Rightarrow> rbind (red mem ?ts (pa_tag a)) (\<lambda>v. Inr (t\<lparr>t_val := v\<rparr>)))
      (\<lambda>tok. Inr (Reduced (?low @ [\<lparr>ps_state = s', ps_token = tok\<rparr>])))"
    unfolding t_def using n0(2) p(1) s' by (simp add: parse_reduce_def Let_def base [simplified] state_at_def)
  note out = reducer_outcome [OF v(1,3) uw(4), of mem] and climb = climbs_reduce [OF v(1,3), of pre]
  show ?thesis
  proof (cases "v_reducer v")
    case None
    then have "value_ok r (t_val t)" using out hd_ts by (simp add: t_def)
    with None v(7) push [of t] climb xs show ?thesis by (auto simp: eq)
  next
    case (Some f)
    with out obtain red where red: "run_reducer f = Some red"
      "case red mem ?ts (v_tag v) of Inl e \<Rightarrow> e \<in> reduce_faults | Inr x \<Rightarrow> value_ok r x" by auto
    show ?thesis
    proof (cases "red mem ?ts (v_tag v)")
      case (Inl e)
      with Some red v(6,7) show ?thesis by (simp add: eq)
    next
      case (Inr x)
      with Some red v(6,7) push [of "t\<lparr>t_val := x\<rparr>"] climb xs show ?thesis by (auto simp: eq)
    qed
  qed
qed


text \<open>The faults a parse can end in: a reducer's, or the report of a syntax error.\<close>

definition parse_faults :: "fault set" where
  "parse_faults = reduce_faults \<union> range Exited"

lemma find_action_SomeD: "find_action as t = Some a \<Longrightarrow> a \<in> set as \<and> pa_token a = t"
  unfolding find_action_def by (rule find_SomeD)

lemma table_ok_action:
  assumes "table_ok tbl rid hist" and "s < length tbl" and "a \<in> set (st_actions (tbl ! s))"
  shows "if pa_state_or_length a < 0 then
      if pa_rule a = 0 then accept_ok tbl hist s a else reduction_ok tbl rid hist s a
    else TKN_EOF < pa_token a \<and> nat (pa_state_or_length a) < length tbl \<and>
      prefix (hist (nat (pa_state_or_length a))) (T (pa_token a) # hist s)"
  using assms unfolding table_ok_def by blast

lemma accept_sound:
  assumes ok: "table_ok tbl rid hist" and st: "stack_ok tbl rid stack xs toks"
    and acc: "accept_ok tbl hist (ps_state (last stack)) a"
  shows "xs = [N ''unit_list'']"
proof -
  let ?s = "ps_state (last stack)" and ?ss = "rev (map ps_state stack)"
  have lk: "linked tbl rid ?ss (rev xs)" and ne: "stack \<noteq> []" using st by (auto simp: stack_ok_def)
  have hd_ss: "hd ?ss = ?s" using ne by (simp add: hd_rev last_map)
  have "prefix [N ''unit_list''] (rev xs)"
    using linked_hist [OF ok lk] acc hd_ss by (auto simp: accept_ok_def)
  then obtain ys where ys: "rev xs = N ''unit_list'' # ys" by (auto simp: prefix_def)
  then have "?ss ! 1 \<in> set (states_back tbl 1 ?s)" using linked_back [OF lk, of 1] hd_ss by simp
  with acc have "?ss ! 1 = 0" by (auto simp: accept_ok_def)
  moreover have "linked tbl rid (drop 1 ?ss) ys" using linked_drop [OF lk, of 1] ys by simp
  moreover have "drop 1 ?ss = ?ss ! 1 # drop 2 ?ss"
    using linked_length [OF lk] ys Cons_nth_drop_Suc [of 1 ?ss] by (simp add: numeral_2_eq_2)
  ultimately have "ys = []" using linked_zero [OF ok] by metis
  with ys show ?thesis by simp
qed

lemma parse_step_sound:
  assumes ok: "table_ok tbl rid hist" and lexer: "lexer_ok lx"
    and st: "stack_ok tbl rid stack xs toks"
  shows "case parse_step tbl lx stack of
      Inl e \<Rightarrow> e \<in> parse_faults
    | Inr (Accepted v) \<Rightarrow> l_token lx = TKN_EOF \<and> value_ok ''unit_list'' v \<and> yields (N ''unit_list'') toks
    | Inr (Shifted lx' stack') \<Rightarrow> lexer_next lx = Inr lx' \<and> TKN_EOF < l_token lx \<and>
        (\<exists>xs'. stack_ok tbl rid stack' xs' (toks @ [l_token lx]))
    | Inr (Reduced stack') \<Rightarrow> \<exists>xs'. stack_ok tbl rid stack' xs' toks \<and> climbs xs xs'"
proof -
  let ?s = "ps_state (last stack)"
  have lk: "linked tbl rid (rev (map ps_state stack)) (rev xs)" and ne: "stack \<noteq> []"
    using st by (auto simp: stack_ok_def)
  have s: "?s < length tbl" using linked_hist [OF ok lk] ne by (simp add: hd_rev last_map)
  show ?thesis
  proof (cases "find_action (st_actions (tbl ! ?s)) (l_token lx)")
    case None
    then show ?thesis using s by (simp add: parse_step_def state_at_def parse_faults_def)
  next
    case (Some a)
    then have a: "a \<in> set (st_actions (tbl ! ?s))" "pa_token a = l_token lx"
      by (auto dest: find_action_SomeD)
    note act = table_ok_action [OF ok s a(1)]
    have step: "parse_step tbl lx stack = (if pa_state_or_length a < 0 then
        if pa_rule a = 0 then Inr (Accepted (t_val (ps_token (last stack))))
        else parse_reduce tbl (l_mem lx) stack a
      else parse_shift lx stack (nat (pa_state_or_length a)))"
      using s Some by (simp add: parse_step_def state_at_def)
    consider (acc) "pa_state_or_length a < 0" "pa_rule a = 0" | (red) "pa_state_or_length a < 0" "pa_rule a \<noteq> 0"
      | (shift) "\<not> pa_state_or_length a < 0" by blast
    then show ?thesis
    proof cases
      case acc
      with act have ac: "accept_ok tbl hist ?s a" by simp
      note xs = accept_sound [OF ok st ac]
      have "length stack = 2" using linked_length [OF lk] xs by simp
      then obtain b c where "stack = [b, c]" by (cases stack; cases "tl stack") auto
      with st xs have "value_ok ''unit_list'' (t_val (ps_token (last stack)))" "yields (N ''unit_list'') toks"
        by (auto simp: stack_ok_def token_ok_def yields_all_single)
      with acc ac a(2) show ?thesis by (simp add: step accept_ok_def)
    next
      case red
      with act have "reduction_ok tbl rid hist ?s a" by simp
      from parse_reduce_sound [OF ok st this red(1), of "l_mem lx"] red show ?thesis
        by (auto simp: step parse_faults_def split: sum.splits)
    next
      case shift
      have edge: "lr_edge tbl rid ?s (T (l_token lx)) (nat (pa_state_or_length a))"
        using s a shift by (auto simp: lr_edge_def shift_to_def)
      have "stack_ok tbl rid (stack @ [\<lparr>ps_state = nat (pa_state_or_length a), ps_token = shifted_token lx\<rparr>])
          (xs @ [T (l_token lx)]) (toks @ [l_token lx])"
        by (rule stack_ok_push [OF st edge _ yields_T]) (simp add: token_ok_def shifted_token_def)
      moreover obtain lx' where "lexer_next lx = Inr lx'"
        using lexer_total [OF lexer] by blast
      ultimately show ?thesis using shift act a(2) by (auto simp: step parse_shift_def)
    qed
  qed
qed

subsection \<open>The whole parse\<close>

lemma lex_many_snoc:
  "lex_many n s = Inr (ts, u) \<Longrightarrow> lexer_next u = Inr u' \<Longrightarrow>
    lex_many (Suc n) s = Inr (ts @ [(l_token u', token_text u')], u')"
  by (induction n arbitrary: s ts) (auto simp: rbind_Inr_conv simp del: lex_many.simps(2) simp: lex_many.simps(2))

text \<open>The tokens fetched since \<open>s\<close>, whose own token is the first.\<close>

definition fetched :: "lexer \<Rightarrow> lexer \<Rightarrow> nat list \<Rightarrow> bool" where
  "fetched s u toks \<longleftrightarrow> (\<exists>n ts. lex_many n s = Inr (ts, u) \<and> l_token s # map fst ts = toks @ [l_token u])"

definition parsed :: "lexer \<Rightarrow> (lexer \<times> sval) res \<Rightarrow> bool" where
  "parsed s r = (case r of Inl e \<Rightarrow> e \<in> parse_faults
     | Inr (u, v) \<Rightarrow> value_ok ''unit_list'' v \<and>
         (\<exists>toks. fetched s u toks \<and> l_token u = TKN_EOF \<and> yields (N ''unit_list'') toks))"

lemma fetched_next: "fetched s u toks \<Longrightarrow> lexer_next u = Inr u' \<Longrightarrow> fetched s u' (toks @ [l_token u])"
  unfolding fetched_def using lex_many_snoc by fastforce

lemma parse_loop_sound:
  assumes ok: "table_ok tbl rid hist" and run: "parse_loop tbl lx stack = Some r"
    and "lexer_ok lx" and "stack_ok tbl rid stack xs toks" and "fetched s lx toks"
  shows "parsed s r"
proof -
  have "t = tbl \<longrightarrow> lexer_ok lx \<longrightarrow> (\<forall>xs toks. stack_ok tbl rid stack xs toks \<longrightarrow> fetched s lx toks \<longrightarrow> parsed s r)"
    if "parse_loop t lx stack = Some r" for t lx stack
  proof (rule parse_loop.raw_induct [OF _ that, of "\<lambda>t lx stack r. t = tbl \<longrightarrow> lexer_ok lx \<longrightarrow>
      (\<forall>xs toks. stack_ok tbl rid stack xs toks \<longrightarrow> fetched s lx toks \<longrightarrow> parsed s r)"],
      intro impI allI)
    fix f t lx stack r xs toks
    assume IH: "\<And>t lx stack r. f t lx stack = Some r \<Longrightarrow> t = tbl \<longrightarrow> lexer_ok lx \<longrightarrow>
        (\<forall>xs toks. stack_ok tbl rid stack xs toks \<longrightarrow> fetched s lx toks \<longrightarrow> parsed s r)"
      and body: "(if stack = [] then Some (Inr (lx, V_Null))
        else case parse_step t lx stack of Inl e \<Rightarrow> Some (Inl e)
          | Inr (Accepted v) \<Rightarrow> Some (Inr (lx, v))
          | Inr (Shifted lx' stack') \<Rightarrow> f t lx' stack'
          | Inr (Reduced stack') \<Rightarrow> f t lx stack') = Some r"
      and t: "t = tbl" and lx: "lexer_ok lx" and st: "stack_ok tbl rid stack xs toks" and fe: "fetched s lx toks"
    note step = parse_step_sound [OF ok lx st]
    have ne: "stack \<noteq> []" using st by (simp add: stack_ok_def)
    show "parsed s r"
    proof (cases "parse_step tbl lx stack")
      case (Inl e)
      with body ne t step show ?thesis by (auto simp: parsed_def)
    next
      case (Inr out)
      show ?thesis
      proof (cases out)
        case (Accepted v)
        with Inr body ne t step fe show ?thesis by (auto simp: parsed_def)
      next
        case (Shifted lx' stack')
        with Inr step obtain xs' where n: "lexer_next lx = Inr lx'" "stack_ok tbl rid stack' xs' (toks @ [l_token lx])"
          by auto
        moreover have "lexer_ok lx'" using lexer_total [OF lx] n(1) by auto
        moreover have "f tbl lx' stack' = Some r" using body ne t Inr Shifted by simp
        ultimately show ?thesis using IH fetched_next [OF fe] by blast
      next
        case (Reduced stack')
        with Inr step obtain xs' where "stack_ok tbl rid stack' xs' toks" by auto
        moreover have "f tbl lx stack' = Some r" using body ne t Inr Reduced by simp
        ultimately show ?thesis using IH lx fe by blast
      qed
    qed
  qed
  with assms show ?thesis by blast
qed

subsection \<open>Termination\<close>

lemma parse_loop_terminates:
  assumes ok: "table_ok tbl rid hist" and "lexer_ok lx" and "stack_ok tbl rid stack xs toks"
    and "lex_many n lx = Inr (ts, u)" and "l_token u = TKN_EOF \<or> l_token u = TKN_INVALID"
  shows "\<exists>r. parse_loop tbl lx stack = Some r"
  using assms(2-)
proof (induction "(n, length xs, 17 - rank (last xs))" arbitrary: n lx stack xs toks ts
    rule: wf_induct_rule [OF wf_lex_prod [OF wf_less_than wf_lex_prod [OF wf_less_than wf_less_than]]])
  case 1
  note lx = "1.prems"(1) and st = "1.prems"(2) and many = "1.prems"(3,4)
  note step = parse_step_sound [OF ok lx st]
  have ne: "stack \<noteq> []" using st by (simp add: stack_ok_def)
  show ?case
  proof (cases "parse_step tbl lx stack")
    case (Inl e)
    with ne show ?thesis by (simp add: parse_loop.simps [of tbl lx stack])
  next
    case (Inr out)
    show ?thesis
    proof (cases out)
      case (Accepted v)
      with Inr ne show ?thesis by (simp add: parse_loop.simps [of tbl lx stack])
    next
      case (Shifted lx' stack')
      with Inr step obtain xs' where n: "lexer_next lx = Inr lx'" "TKN_EOF < l_token lx"
        "stack_ok tbl rid stack' xs' (toks @ [l_token lx])" by auto
      with many obtain m ts' where m: "n = Suc m" "lex_many m lx' = Inr (ts', u)"
        by (cases n) (auto simp: rbind_Inr_conv)
      have "lexer_ok lx'" using lexer_total [OF lx] n(1) by auto
      then have "\<exists>r. parse_loop tbl lx' stack' = Some r"
        using "1.hyps" [OF _ _ n(3) m(2) many(2)] m(1) by simp
      with Inr ne Shifted show ?thesis by (simp add: parse_loop.simps [of tbl lx stack])
    next
      case (Reduced stack')
      with Inr step obtain xs' where r: "stack_ok tbl rid stack' xs' toks" "climbs xs xs'" by auto
      have "((n, length xs', 17 - rank (last xs')), n, length xs, 17 - rank (last xs))
          \<in> less_than <*lex*> less_than <*lex*> less_than"
        using r(2) rank_bound [of "last xs'"] by (auto simp: climbs_def)
      then have "\<exists>r. parse_loop tbl lx stack' = Some r"
        by (rule "1.hyps" [OF _ lx r(1) many])
      with Inr ne Reduced show ?thesis by (simp add: parse_loop.simps [of tbl lx stack])
    qed
  qed
qed

text \<open>On a text without stray characters the tokens come to an end.\<close>

lemma lexer_ends:
  assumes "lexer_ok s" and "list_all (\<lambda>c. \<not> garbage c) (todo s)"
  shows "\<exists>n ts u. lex_many n s = Inr (ts, u) \<and> (l_token u = TKN_EOF \<or> l_token u = TKN_INVALID)"
  using assms
proof (induction "length (todo s)" arbitrary: s rule: less_induct)
  case less
  show ?case
  proof (cases "l_token s = TKN_EOF \<or> l_token s = TKN_INVALID")
    case True
    then have "lex_many 0 s = Inr ([], s)" by simp
    with True show ?thesis by blast
  next
    case False
    obtain k t m where nt: "next_token (l_token s) (todo s) = (k, t, m)" by (metis prod_cases3)
    obtain s' where s': "lexer_next s = Inr s'" "lexer_ok s'" "l_token s' = t"
      "l_ptr s' = l_ptr s + k + m" "todo s' = drop (k + m) (todo s)"
      by (rule lexer_next_refines [OF less.prems(1) _ _ nt]) (use False in simp_all)
    have one: "lex_many 1 s = Inr ([(l_token s', token_text s')], s')" using s'(1) by simp
    show ?thesis
    proof (cases "t = TKN_EOF")
      case True
      with one s'(3) show ?thesis by blast
    next
      case live: False
      then have ne: "todo s \<noteq> []" using nt by (auto simp: next_token.simps)
      then have "\<not> garbage (hd (todo s))" using less.prems(2) by (cases "todo s") simp_all
      then have "l_ptr s < l_ptr s'"
        using lexer_moves [OF less.prems(1) _ _ s'(1)] False live s'(3) by simp
      then have "length (todo s') < length (todo s)" using s'(4,5) ne by simp
      moreover have "list_all (\<lambda>c. \<not> garbage c) (todo s')"
        using less.prems(2) s'(5) by (auto simp: list_all_iff dest: in_set_dropD)
      ultimately obtain n ts u where "lex_many n s' = Inr (ts, u)" "l_token u = TKN_EOF \<or> l_token u = TKN_INVALID"
        using less.hyps s'(2) by blast
      then have "lex_many (Suc n) s = Inr ((l_token s', token_text s') # ts, u)" using s'(1) by simp
      with \<open>l_token u = TKN_EOF \<or> _\<close> show ?thesis by blast
    qed
  qed
qed

subsection \<open>A table\<close>

text \<open>
  The tables are generated when the program is built. This one is for the units
  \<open>import "..." ;\<close> and \<open>;\<close> of the grammar, with rules numbered from 1.
\<close>

definition on_tokens :: "nat list \<Rightarrow> int \<Rightarrow> reducer option \<Rightarrow> nat \<Rightarrow> nat \<Rightarrow> parser_action list" where
  "on_tokens ks l red tag rule = map (\<lambda>k. \<lparr>pa_token = k, pa_state_or_length = l, pa_reducer = red,
     pa_tag = tag, pa_rule = rule\<rparr>) ks"

definition sample_follow :: "nat list" where
  "sample_follow = [TKN_EOF, TKN_SEMICOLON, TKN_IMPORT]"

definition sample_table :: "parser_state list" where
  "sample_table = [
     \<lparr>st_actions = on_tokens [TKN_SEMICOLON] 1 None 0 0 @ on_tokens [TKN_IMPORT] 5 None 0 0,
       st_gotos = [\<lparr>pg_rule = 2, pg_state = 2\<rparr>, \<lparr>pg_rule = 1, pg_state = 3\<rparr>, \<lparr>pg_rule = 3, pg_state = 8\<rparr>]\<rparr>,
     \<lparr>st_actions = on_tokens sample_follow (-1) None 0 2, st_gotos = []\<rparr>,
     \<lparr>st_actions = on_tokens sample_follow (-1) (run_reducer ''unit_list'') 0 1, st_gotos = []\<rparr>,
     \<lparr>st_actions = on_tokens [TKN_EOF] (-1) None 0 0 @ on_tokens [TKN_SEMICOLON] 1 None 0 0 @
         on_tokens [TKN_IMPORT] 5 None 0 0,
       st_gotos = [\<lparr>pg_rule = 2, pg_state = 4\<rparr>, \<lparr>pg_rule = 3, pg_state = 8\<rparr>]\<rparr>,
     \<lparr>st_actions = on_tokens sample_follow (-2) (run_reducer ''unit_list'') 1 1, st_gotos = []\<rparr>,
     \<lparr>st_actions = on_tokens [TKN_STRING_LITERAL] 6 None 0 0, st_gotos = []\<rparr>,
     \<lparr>st_actions = on_tokens [TKN_SEMICOLON] 7 None 0 0, st_gotos = []\<rparr>,
     \<lparr>st_actions = on_tokens sample_follow (-3) (run_reducer ''import_unit'') 0 3, st_gotos = []\<rparr>,
     \<lparr>st_actions = on_tokens sample_follow (-1) None 0 2, st_gotos = []\<rparr>]"

definition sample_rid :: "nat \<Rightarrow> string" where
  "sample_rid k = (if k = 1 then ''unit_list'' else if k = 2 then ''unit'' else ''import_unit'')"

definition sample_hist :: "nat \<Rightarrow> symbol list" where
  "sample_hist s = [[], [T TKN_SEMICOLON], [N ''unit''], [N ''unit_list''], [N ''unit'', N ''unit_list''],
     [T TKN_IMPORT], [T TKN_STRING_LITERAL, T TKN_IMPORT],
     [T TKN_SEMICOLON, T TKN_STRING_LITERAL, T TKN_IMPORT], [N ''import_unit'']] ! s"

lemma reduction_okI:
  assumes "(rid (pa_rule a), vs) \<in> set grammar" and "v \<in> set vs"
    and "length (v_elements v) = nat (- pa_state_or_length a)" and "prefix (rev (v_elements v)) (hist s)"
    and "pa_tag a = v_tag v"
    and "pa_reducer a = (case v_reducer v of None \<Rightarrow> None | Some f \<Rightarrow> run_reducer f)"
    and "\<forall>f. v_reducer v = Some f \<longrightarrow> run_reducer f \<noteq> None"
    and "list_all (\<lambda>p. p < length tbl \<and> find_goto (st_gotos (tbl ! p)) (pa_rule a) \<noteq> None)
      (states_back tbl (nat (- pa_state_or_length a)) s)"
  shows "reduction_ok tbl rid hist s a"
  unfolding reduction_ok_def using assms by (fastforce simp: list_all_iff split: option.splits)

lemma sample_goto:
  "list_all (\<lambda>p. p < length sample_table \<and> find_goto (st_gotos (sample_table ! p)) 2 \<noteq> None)
    (states_back sample_table 1 1)"
  "list_all (\<lambda>p. p < length sample_table \<and> find_goto (st_gotos (sample_table ! p)) 2 \<noteq> None)
    (states_back sample_table 1 8)"
  "list_all (\<lambda>p. p < length sample_table \<and> find_goto (st_gotos (sample_table ! p)) 1 \<noteq> None)
    (states_back sample_table 1 2)"
  "list_all (\<lambda>p. p < length sample_table \<and> find_goto (st_gotos (sample_table ! p)) 1 \<noteq> None)
    (states_back sample_table 2 4)"
  "list_all (\<lambda>p. p < length sample_table \<and> find_goto (st_gotos (sample_table ! p)) 3 \<noteq> None)
    (states_back sample_table 3 7)"
  "set (states_back sample_table 1 3) \<subseteq> {0}"
  by code_simp+

lemma sample_reduction_1: "reduction_ok sample_table sample_rid sample_hist 1
    \<lparr>pa_token = t, pa_state_or_length = - 1, pa_reducer = None, pa_tag = 0, pa_rule = 2\<rparr>"
  by (rule reduction_okI [where vs = rule_unit and v = "reduce_default [T TKN_SEMICOLON]"],
      simp add: sample_rid_def grammar_def, simp add: rule_unit_def,
      simp_all add: sample_hist_def reduce_def reduce_default_def run_reducer_simps del: states_back.simps)
    (use sample_goto(1) in \<open>simp del: states_back.simps\<close>)

lemma sample_reduction_8: "reduction_ok sample_table sample_rid sample_hist 8
    \<lparr>pa_token = t, pa_state_or_length = - 1, pa_reducer = None, pa_tag = 0, pa_rule = 2\<rparr>"
  by (rule reduction_okI [where vs = rule_unit and v = "reduce_default [N ''import_unit'']"],
      simp add: sample_rid_def grammar_def, simp add: rule_unit_def,
      simp_all add: sample_hist_def reduce_def reduce_default_def run_reducer_simps del: states_back.simps)
    (use sample_goto(2) in \<open>simp del: states_back.simps\<close>)

lemma sample_reduction_2: "reduction_ok sample_table sample_rid sample_hist 2
    \<lparr>pa_token = t, pa_state_or_length = - 1, pa_reducer = run_reducer ''unit_list'', pa_tag = 0, pa_rule = 1\<rparr>"
  by (rule reduction_okI [where vs = rule_unit_list and v = "reduce [N ''unit''] ''unit_list'' 0"],
      simp add: sample_rid_def grammar_def, simp add: rule_unit_list_def,
      simp_all add: sample_hist_def reduce_def reduce_default_def run_reducer_simps del: states_back.simps)
    (use sample_goto(3) in \<open>simp del: states_back.simps\<close>)

lemma sample_reduction_4: "reduction_ok sample_table sample_rid sample_hist 4
    \<lparr>pa_token = t, pa_state_or_length = - 2, pa_reducer = run_reducer ''unit_list'', pa_tag = 1, pa_rule = 1\<rparr>"
  by (rule reduction_okI [where vs = rule_unit_list and v = "reduce [N ''unit_list'', N ''unit''] ''unit_list'' 1"],
      simp add: sample_rid_def grammar_def, simp add: rule_unit_list_def,
      simp_all add: sample_hist_def reduce_def reduce_default_def run_reducer_simps del: states_back.simps)
    (use sample_goto(4) in \<open>simp del: states_back.simps\<close>)

lemma sample_reduction_7: "reduction_ok sample_table sample_rid sample_hist 7
    \<lparr>pa_token = t, pa_state_or_length = - 3, pa_reducer = run_reducer ''import_unit'', pa_tag = 0, pa_rule = 3\<rparr>"
  by (rule reduction_okI [where vs = rule_import_unit and v = "reduce [T TKN_IMPORT, T TKN_STRING_LITERAL, T TKN_SEMICOLON] ''import_unit'' 0"],
      simp add: sample_rid_def grammar_def, simp add: rule_import_unit_def,
      simp_all add: sample_hist_def reduce_def reduce_default_def run_reducer_simps del: states_back.simps)
    (use sample_goto(5) in \<open>simp del: states_back.simps\<close>)

lemma sample_accept: "accept_ok sample_table sample_hist 3 \<lparr>pa_token = TKN_EOF, pa_state_or_length = - 1,
    pa_reducer = None, pa_tag = 0, pa_rule = 0\<rparr>"
  using sample_goto(6) by (simp add: accept_ok_def sample_hist_def del: states_back.simps)

lemma sample_states:
  "length sample_table = 9"
  "sample_table ! 0 = \<lparr>st_actions = on_tokens [TKN_SEMICOLON] 1 None 0 0 @ on_tokens [TKN_IMPORT] 5 None 0 0,
       st_gotos = [\<lparr>pg_rule = 2, pg_state = 2\<rparr>, \<lparr>pg_rule = 1, pg_state = 3\<rparr>, \<lparr>pg_rule = 3, pg_state = 8\<rparr>]\<rparr>"
  "sample_table ! 1 = \<lparr>st_actions = on_tokens sample_follow (- 1) None 0 2, st_gotos = []\<rparr>"
  "sample_table ! 2 = \<lparr>st_actions = on_tokens sample_follow (- 1) (run_reducer ''unit_list'') 0 1, st_gotos = []\<rparr>"
  "sample_table ! 3 = \<lparr>st_actions = on_tokens [TKN_EOF] (- 1) None 0 0 @ on_tokens [TKN_SEMICOLON] 1 None 0 0 @
         on_tokens [TKN_IMPORT] 5 None 0 0,
       st_gotos = [\<lparr>pg_rule = 2, pg_state = 4\<rparr>, \<lparr>pg_rule = 3, pg_state = 8\<rparr>]\<rparr>"
  "sample_table ! 4 = \<lparr>st_actions = on_tokens sample_follow (- 2) (run_reducer ''unit_list'') 1 1, st_gotos = []\<rparr>"
  "sample_table ! 5 = \<lparr>st_actions = on_tokens [TKN_STRING_LITERAL] 6 None 0 0, st_gotos = []\<rparr>"
  "sample_table ! 6 = \<lparr>st_actions = on_tokens [TKN_SEMICOLON] 7 None 0 0, st_gotos = []\<rparr>"
  "sample_table ! 7 = \<lparr>st_actions = on_tokens sample_follow (- 3) (run_reducer ''import_unit'') 0 3, st_gotos = []\<rparr>"
  "sample_table ! 8 = \<lparr>st_actions = on_tokens sample_follow (- 1) None 0 2, st_gotos = []\<rparr>"
  by (simp_all add: sample_table_def)

lemma sample_hists:
  "sample_hist 0 = []" "sample_hist 1 = [T TKN_SEMICOLON]" "sample_hist (Suc 0) = [T TKN_SEMICOLON]"
  "sample_hist 2 = [N ''unit'']"
  "sample_hist 3 = [N ''unit_list'']" "sample_hist 4 = [N ''unit'', N ''unit_list'']"
  "sample_hist 5 = [T TKN_IMPORT]" "sample_hist 6 = [T TKN_STRING_LITERAL, T TKN_IMPORT]"
  "sample_hist 7 = [T TKN_SEMICOLON, T TKN_STRING_LITERAL, T TKN_IMPORT]" "sample_hist 8 = [N ''import_unit'']"
  by (simp_all add: sample_hist_def)

lemma less_9: "s < 9 \<longleftrightarrow> s = 0 \<or> s = 1 \<or> s = 2 \<or> s = 3 \<or> s = 4 \<or> s = 5 \<or> s = 6 \<or> s = 7 \<or> s = (8::nat)"
  by linarith

lemma sample_table_ok: "table_ok sample_table sample_rid sample_hist"
  unfolding table_ok_def
proof (intro conjI allI impI)
  fix s assume "s < length sample_table"
  then have s: "s = 0 \<or> s = 1 \<or> s = 2 \<or> s = 3 \<or> s = 4 \<or> s = 5 \<or> s = 6 \<or> s = 7 \<or> s = 8"
    using less_9 sample_states(1) by simp
  show "0 \<notin> set (targets (sample_table ! s))"
    using s by (elim disjE) (simp_all add: sample_states sample_states(3) [unfolded One_nat_def] targets_def on_tokens_def sample_follow_def
      List.map_filter_def shift_to_def)
  show "\<forall>a\<in>set (st_actions (sample_table ! s)). if pa_state_or_length a < 0 then
        if pa_rule a = 0 then accept_ok sample_table sample_hist s a
        else reduction_ok sample_table sample_rid sample_hist s a
      else TKN_EOF < pa_token a \<and> nat (pa_state_or_length a) < length sample_table \<and>
        prefix (sample_hist (nat (pa_state_or_length a))) (T (pa_token a) # sample_hist s)"
    using s sample_accept sample_reduction_1 sample_reduction_2 sample_reduction_4 sample_reduction_7
      sample_reduction_8
    by (elim disjE) (simp_all add: sample_states sample_states(3) [unfolded One_nat_def] on_tokens_def sample_follow_def sample_hists)
  show "\<forall>g\<in>set (st_gotos (sample_table ! s)). pg_state g < length sample_table \<and>
      prefix (sample_hist (pg_state g)) (N (sample_rid (pg_rule g)) # sample_hist s)"
    using s by (elim disjE) (simp_all add: sample_states sample_states(3) [unfolded One_nat_def] sample_rid_def sample_hists)
qed (simp_all add: sample_table_def sample_hists)

text \<open>A file, as \<open>main\<close> hands it to the parser: with the first token fetched.\<close>

definition sample_file :: lexer where
  "sample_file = (case lexer_next (word_lexer (''import '' @ [CHR 0x22, CHR ''a'', CHR 0x22] @ '';;'')) of
     Inl e \<Rightarrow> word_lexer [] | Inr s \<Rightarrow> s)"

lemma sample_file_ok: "lexer_ok sample_file"
proof -
  have "lexer_ok (word_lexer (''import '' @ [CHR 0x22, CHR ''a'', CHR 0x22] @ '';;''))"
    by (rule word_lexer_ok) simp
  with lexer_total show ?thesis by (fastforce simp: sample_file_def)
qed

definition sample_result :: "lexer \<times> sval" where
  "sample_result = (case parse sample_table sample_file of Some (Inr r) \<Rightarrow> r | _ \<Rightarrow> (sample_file, V_Null))"

lemma sample_parse: "parse sample_table sample_file = Some (Inr sample_result)"
  by code_simp

lemma sample_lex: "case lex_many 4 sample_file of Inl e \<Rightarrow> False | Inr (ts, u) \<Rightarrow> l_token u = TKN_EOF"
  by code_simp

subsection \<open>The properties\<close>

text \<open>
  C1: the parser is sound. With a generated table that is well formed (\<open>table_ok\<close>), when
  \<open>parse\<close> returns a result, the lexer is at the end of the file, the tokens it delivered form a
  sentence of the grammar's \<open>unit_list\<close>, and the result is a list of units: \<open>main\<close>'s assertion
  that the whole file is consumed cannot fail.
\<close>

theorem parse_sound:
  assumes "table_ok tbl rid hist" and "lexer_ok lx" and "parse tbl lx = Some (Inr (u, v))"
  shows "\<exists>us n ts. v = V_Units us \<and> lex_many n lx = Inr (ts, u) \<and> l_token u = TKN_EOF \<and>
    yields (N ''unit_list'') (butlast (l_token lx # map fst ts))"
proof -
  have "fetched lx lx []" by (auto simp: fetched_def intro: exI [of _ 0])
  then have "parsed lx (Inr (u, v))"
    using parse_loop_sound [OF assms(1) _ assms(2) stack_ok_initial] assms(3) by (simp add: parse_def)
  then obtain toks n ts where r: "value_ok ''unit_list'' v" "lex_many n lx = Inr (ts, u)"
    "l_token lx # map fst ts = toks @ [l_token u]" "l_token u = TKN_EOF" "yields (N ''unit_list'') toks"
    by (auto simp: parsed_def fetched_def)
  from r(1) obtain us where "v = V_Units us" by (auto simp: value_ok_rules)
  with r show ?thesis by (intro exI [of _ us] exI [of _ n] exI [of _ ts]) simp
qed

theorem parse_sound_witness:
  "l_token (fst sample_result) = TKN_EOF \<and> (\<exists>ts. yields (N ''unit_list'') ts)"
  using parse_sound [OF sample_table_ok sample_file_ok, of "fst sample_result" "snd sample_result"] sample_parse
  by auto

text \<open>
  C20: how a parse fails. With a well-formed table \<open>parse\<close> never pops an empty stack, misses a
  goto, leaves the table or calls a semantic action on a value of another kind: when it fails, it
  has reported a syntax error, or a semantic action has failed on the text of a literal, or on the
  list of mappings of an implementation.
\<close>

theorem parse_failures:
  assumes "table_ok tbl rid hist" and "lexer_ok lx" and "parse tbl lx = Some (Inl e)"
  shows "(\<exists>msg. e = Exited msg) \<or> e \<in> text_faults \<or> e = Undefined ''read past the end of the reduced tokens''"
proof -
  have "fetched lx lx []" by (auto simp: fetched_def intro: exI [of _ 0])
  then have "parsed lx (Inl e)"
    using parse_loop_sound [OF assms(1) _ assms(2) stack_ok_initial] assms(3) by (simp add: parse_def)
  then show ?thesis by (auto simp: parsed_def parse_faults_def reduce_faults_def)
qed

definition broken_file :: lexer where
  "broken_file = (case lexer_next (word_lexer ''import ;'') of Inl e \<Rightarrow> word_lexer [] | Inr s \<Rightarrow> s)"

lemma broken_file_ok: "lexer_ok broken_file"
proof -
  have "lexer_ok (word_lexer ''import ;'')" by (rule word_lexer_ok) simp
  with lexer_total show ?thesis by (fastforce simp: broken_file_def)
qed

lemma broken_parse: "parse sample_table broken_file =
    Some (Inl (Exited (''syntax error, expected '' @ [CHR 0x22] @ ''string literal'' @ [CHR 0x22])))"
  by code_simp

theorem parse_failures_witness: "\<exists>e. parse sample_table broken_file = Some (Inl e) \<and> (\<exists>msg. e = Exited msg)"
  using parse_failures [OF sample_table_ok broken_file_ok broken_parse] broken_parse by auto

text \<open>
  C19: the parser terminates. With a well-formed table it returns, a result or an error, on every
  text without characters that start no token (\<open>garbage\<close>): no production is empty and the unit
  productions do not form a cycle, so the reductions between two shifts come to an end.
\<close>

theorem parse_terminates:
  assumes "table_ok tbl rid hist" and "lexer_ok lx" and "list_all (\<lambda>c. \<not> garbage c) (todo lx)"
  shows "\<exists>r. parse tbl lx = Some r"
  using lexer_ends [OF assms(2,3)] parse_loop_terminates [OF assms(1,2) stack_ok_initial]
  unfolding parse_def by blast

lemma sample_clean: "list_all (\<lambda>c. \<not> garbage c) (todo sample_file)"
  by code_simp

theorem parse_terminates_witness: "\<exists>r. parse sample_table sample_file = Some r"
  by (rule parse_terminates [OF sample_table_ok sample_file_ok sample_clean])

end
