(* ===== verification/Generator.thy ===== *)
theory Generator
  imports Parser "HOL-Library.Product_Lexorder" "HOL-Library.List_Lexorder"
begin

unbundle bit_operations_syntax

section \<open>The parser generator (src/parser_generator.c)\<close>

text \<open>
  The program that builds the LR(1) states of the grammar and prints the table of the parser. The
  rules are a parameter \<open>g\<close>, the root rule among them; the program runs on \<open>grammar_root # grammar\<close>.
  A rule is its name and a variant its index in the rule, for the pointers of the C structs.
  The states are ordered by the addresses of the rules, which the linker chooses: \<open>addr\<close>. The
  lists \<open>leads\<close>, \<open>states\<close> and the actions are arrays, by the interface \<open>item_seq\<close> of \<open>Dyn_Array\<close>.
\<close>

type_synonym rules = "(string \<times> variant list) list"

definition rule_variants :: "rules \<Rightarrow> string \<Rightarrow> variant list" where
  "rule_variants g r = (case map_of g r of None \<Rightarrow> [] | Some vs \<Rightarrow> vs)"

subsection \<open>Sets of tokens\<close>

text \<open>The bits of three words; a token is below \<open>MAX_TOKENS\<close>, so its word is one of them.\<close>

type_synonym token_set = "u32 list"

definition TOKEN_WORDS :: nat where
  "TOKEN_WORDS = (MAX_TOKENS + 31) div 32"

definition token_set_init :: token_set where
  "token_set_init = replicate TOKEN_WORDS 0"

definition token_set_insert :: "token_set \<Rightarrow> nat \<Rightarrow> token_set" where
  "token_set_insert s token = s[token div 32 := s ! (token div 32) OR push_bit (token mod 32) 1]"

definition token_set_merge :: "token_set \<Rightarrow> token_set \<Rightarrow> token_set" where
  "token_set_merge s other = map2 (OR) s other"

definition equal_token_sets :: "token_set \<Rightarrow> token_set \<Rightarrow> bool" where
  "equal_token_sets s1 s2 = list_all (\<lambda>i. s1 ! i = s2 ! i) [0..<TOKEN_WORDS]"

fun compare_token_sets :: "token_set \<Rightarrow> token_set \<Rightarrow> int" where
  "compare_token_sets (b1 # s1) (b2 # s2) =
     (if b1 < b2 then - 1 else if b1 > b2 then 1 else compare_token_sets s1 s2)"
| "compare_token_sets _ _ = 0"

subsection \<open>Leads\<close>

text \<open>An item of a state: a variant of a rule with a position, and the tokens that may follow.\<close>

record lead =
  ld_rule :: string
  ld_variant :: nat
  ld_position :: nat
  ld_terminals :: token_set

definition lead_variant :: "rules \<Rightarrow> lead \<Rightarrow> variant" where
  "lead_variant g l = rule_variants g (ld_rule l) ! ld_variant l"

text \<open>The elements of a variant end in a null pointer, the symbol \<open>{0, 0}\<close>, here \<open>None\<close>.\<close>

definition variant_get_symbol :: "variant \<Rightarrow> nat \<Rightarrow> symbol option res" where
  "variant_get_symbol self index =
     (if index < length (v_elements self) then Inr (Some (v_elements self ! index))
      else if index = length (v_elements self) then Inr None
      else Inl (Undefined ''read past the elements of a variant''))"

definition equal_leads :: "lead \<Rightarrow> lead \<Rightarrow> bool" where
  "equal_leads l1 l2 \<longleftrightarrow> ld_rule l1 = ld_rule l2 \<and> ld_variant l1 = ld_variant l2 \<and>
     ld_position l1 = ld_position l2 \<and> equal_token_sets (ld_terminals l1) (ld_terminals l2)"

definition compare_leads :: "(string \<Rightarrow> nat) \<Rightarrow> lead \<Rightarrow> lead \<Rightarrow> int" where
  "compare_leads addr l1 l2 =
     (if addr (ld_rule l1) < addr (ld_rule l2) then - 1
      else if addr (ld_rule l1) > addr (ld_rule l2) then 1
      else if ld_variant l1 < ld_variant l2 then - 1
      else if ld_variant l1 > ld_variant l2 then 1
      else if ld_position l1 < ld_position l2 then - 1
      else if ld_position l1 > ld_position l2 then 1
      else compare_token_sets (ld_terminals l1) (ld_terminals l2))"

definition equal_set_of_leads :: "lead list \<Rightarrow> lead list \<Rightarrow> bool" where
  "equal_set_of_leads a1 a2 = list_all2 equal_leads a1 a2"

subsection \<open>First tokens\<close>

lemma chain_decreases:
  assumes "r \<notin> set chain"
  shows "card (fst ` set g - insert r (set chain)) < card (fst ` set g - set chain) \<or>
    card (fst ` set g - insert r (set chain)) = card (fst ` set g - set chain) \<and> rule_variants g r = []"
proof (cases "r \<in> fst ` set g")
  case True
  then show ?thesis using assms by (intro disjI1 psubset_card_mono) auto
next
  case False
  then have "map_of g r = None" "fst ` set g - insert r (set chain) = fst ` set g - set chain"
    by (auto simp: map_of_eq_None_iff)
  then show ?thesis by (simp add: rule_variants_def)
qed

text \<open>The chain is the list of the rules being expanded, the innermost first.\<close>

function gather_first :: "rules \<Rightarrow> token_set \<Rightarrow> symbol option \<Rightarrow> string list \<Rightarrow> token_set res"
and gather_first_variants :: "rules \<Rightarrow> token_set \<Rightarrow> variant list \<Rightarrow> string list \<Rightarrow> token_set res" where
  "gather_first g fst_set symb chain = (case symb of
     Some (N r) \<Rightarrow> if r \<in> set chain then Inr fst_set
       else gather_first_variants g fst_set (rule_variants g r) (r # chain)
   | Some (T token) \<Rightarrow> Inr (token_set_insert fst_set token)
   | None \<Rightarrow> Inl (Assert_Failed ''no empty rules allowed''))"
| "gather_first_variants g fst_set [] chain = Inr fst_set"
| "gather_first_variants g fst_set (v # vs) chain =
     rbind (variant_get_symbol v 0) (\<lambda>t.
     rbind (gather_first g fst_set t chain) (\<lambda>f. gather_first_variants g f vs chain))"
  by pat_completeness auto
termination
  by (relation "measures [\<lambda>x. case x of Inl (g, f, symb, chain) \<Rightarrow> card (fst ` set g - set chain)
      | Inr (g, f, vs, chain) \<Rightarrow> card (fst ` set g - set chain),
    \<lambda>x. case x of Inl _ \<Rightarrow> 1 | Inr (g, f, vs, chain) \<Rightarrow> 2 * length vs]")
    (auto dest: chain_decreases)

declare gather_first.simps [simp del]

subsection \<open>The closure of a set of leads\<close>

definition add_lead :: "lead list \<Rightarrow> lead \<Rightarrow> lead list" where
  "add_lead leads nl = (if list_ex (\<lambda>l. equal_leads l nl) leads then leads else leads @ [nl])"

text \<open>One iteration of the loop over the leads.\<close>

definition expand_lead :: "rules \<Rightarrow> lead list \<Rightarrow> lead \<Rightarrow> lead list res" where
  "expand_lead g leads l =
     rbind (variant_get_symbol (lead_variant g l) (ld_position l)) (\<lambda>tc. case tc of
       Some (N r) \<Rightarrow>
         rbind (variant_get_symbol (lead_variant g l) (ld_position l + 1)) (\<lambda>tn.
         rbind (case tn of
             None \<Rightarrow> Inr (token_set_merge token_set_init (ld_terminals l))
           | Some _ \<Rightarrow> gather_first g token_set_init tn []) (\<lambda>follow.
           Inr (fold (\<lambda>v leads. add_lead leads \<lparr>ld_rule = r, ld_variant = v, ld_position = 0,
                 ld_terminals = follow\<rparr>) [0..<length (rule_variants g r)] leads)))
     | _ \<Rightarrow> Inr leads)"

fun expand_leads :: "rules \<Rightarrow> lead list \<Rightarrow> nat list \<Rightarrow> lead list res" where
  "expand_leads g leads [] = Inr leads"
| "expand_leads g leads (i # is) =
     rbind (expand_lead g leads (leads ! i)) (\<lambda>leads'. expand_leads g leads' is)"

text \<open>The recursion on the leads the loop has added.\<close>

partial_function (option) gather_leads :: "rules \<Rightarrow> lead list \<Rightarrow> nat \<Rightarrow> nat \<Rightarrow> lead list res option" where
  [code]: "gather_leads g leads index len =
     (if \<not> index < length leads then Some (Inl (Assert_Failed ''index < leads->size''))
      else if \<not> index + len \<le> length leads then Some (Inl (Assert_Failed ''index+length <= leads->size''))
      else (case expand_leads g leads [index..<index + len] of
          Inl e \<Rightarrow> Some (Inl e)
        | Inr leads' \<Rightarrow>
            if length leads < length leads'
            then gather_leads g leads' (length leads) (length leads' - length leads)
            else Some (Inr leads')))"

text \<open>
  \<open>qsort\<close> by \<open>compare_leads\<close>: leads that compare equal are equal, so the result does not depend
  on the algorithm.
\<close>

fun insert_lead :: "(string \<Rightarrow> nat) \<Rightarrow> lead \<Rightarrow> lead list \<Rightarrow> lead list" where
  "insert_lead addr l [] = [l]"
| "insert_lead addr l (k # ks) =
     (if compare_leads addr l k \<le> 0 then l # k # ks else k # insert_lead addr l ks)"

definition qsort_leads :: "(string \<Rightarrow> nat) \<Rightarrow> lead list \<Rightarrow> lead list" where
  "qsort_leads addr leads = foldr (insert_lead addr) leads []"

definition same_core :: "lead \<Rightarrow> lead \<Rightarrow> bool" where
  "same_core li lo \<longleftrightarrow> ld_rule li = ld_rule lo \<and> ld_variant li = ld_variant lo \<and> ld_position li = ld_position lo"

text \<open>The loop that merges each lead \<open>li\<close> into the last one kept, \<open>lo\<close>.\<close>

fun merge_leads :: "lead \<Rightarrow> lead list \<Rightarrow> lead list" where
  "merge_leads lo [] = [lo]"
| "merge_leads lo (li # leads) =
     (if same_core li lo
      then merge_leads (lo\<lparr>ld_terminals := token_set_merge (ld_terminals lo) (ld_terminals li)\<rparr>) leads
      else lo # merge_leads li leads)"

definition consolidate_leads :: "(string \<Rightarrow> nat) \<Rightarrow> lead list \<Rightarrow> lead list" where
  "consolidate_leads addr leads =
     (case qsort_leads addr leads of [] \<Rightarrow> [] | lo # ls \<Rightarrow> merge_leads lo ls)"

subsection \<open>States\<close>

text \<open>An action on tokens reduces a variant of a rule, or shifts to a state.\<close>

record token_action =
  ta_tokens :: token_set
  ta_reduce :: "(string \<times> nat) option"
  ta_state :: nat

record rule_action =
  ra_rule :: string
  ra_state :: nat

record gen_state =
  gs_leads :: "lead list"
  gs_token_actions :: "token_action list"
  gs_rule_actions :: "rule_action list"

definition add_token_action :: "nat \<Rightarrow> token_action \<Rightarrow> gen_state list \<Rightarrow> gen_state list" where
  "add_token_action i a states =
     states[i := (states ! i)\<lparr>gs_token_actions := gs_token_actions (states ! i) @ [a]\<rparr>]"

definition add_rule_action :: "nat \<Rightarrow> rule_action \<Rightarrow> gen_state list \<Rightarrow> gen_state list" where
  "add_rule_action i a states =
     states[i := (states ! i)\<lparr>gs_rule_actions := gs_rule_actions (states ! i) @ [a]\<rparr>]"

definition reduce_action :: "lead \<Rightarrow> token_action" where
  "reduce_action l = \<lparr>ta_tokens = ld_terminals l, ta_reduce = Some (ld_rule l, ld_variant l), ta_state = 0\<rparr>"

text \<open>The first state with the given leads, or a new one at the end.\<close>

fun find_state :: "lead list \<Rightarrow> nat \<Rightarrow> gen_state list \<Rightarrow> nat option" where
  "find_state leads k [] = None"
| "find_state leads k (s # ss) =
     (if equal_set_of_leads leads (gs_leads s) then Some k else find_state leads (Suc k) ss)"

definition enter_state :: "lead list \<Rightarrow> gen_state list \<Rightarrow> nat \<times> gen_state list" where
  "enter_state leads states = (case find_state leads 0 states of
     Some k \<Rightarrow> (k, states)
   | None \<Rightarrow> (length states,
       states @ [\<lparr>gs_leads = leads, gs_token_actions = [], gs_rule_actions = []\<rparr>]))"

text \<open>What is done for the leads \<open>same\<close> of state \<open>i\<close> that share their next symbol.\<close>

definition gather_symbol ::
    "(string \<Rightarrow> nat) \<Rightarrow> rules \<Rightarrow> nat \<Rightarrow> symbol option \<Rightarrow> lead list \<Rightarrow> gen_state list \<Rightarrow> gen_state list res option" where
  "gather_symbol addr g i base same states =
     (let shift_leads = (case base of None \<Rightarrow> []
            | Some _ \<Rightarrow> map (\<lambda>l. l\<lparr>ld_position := ld_position l + 1\<rparr>) same);
          reduce_leads = (case base of None \<Rightarrow> same | Some _ \<Rightarrow> []);
          states1 = fold (\<lambda>l. add_token_action i (reduce_action l)) reduce_leads states
      in if \<not> (0 < length shift_leads \<or> 0 < length reduce_leads)
         then Some (Inl (Assert_Failed ''syntax error''))
         else if \<not> ((0 < length shift_leads) \<noteq> (0 < length reduce_leads))
         then Some (Inl (Assert_Failed ''shift-reduce conflict''))
         else if \<not> length reduce_leads \<le> 1 then Some (Inl (Assert_Failed ''reduce-reduce conflict''))
         else (case base of
             None \<Rightarrow> Some (Inr states1)
           | Some symb \<Rightarrow> (case gather_leads g shift_leads 0 (length shift_leads) of
                 None \<Rightarrow> None
               | Some (Inl e) \<Rightarrow> Some (Inl e)
               | Some (Inr closed) \<Rightarrow>
                   (let (k, states2) = enter_state (consolidate_leads addr closed) states1
                    in Some (Inr (case symb of
                        N r \<Rightarrow> add_rule_action i \<lparr>ra_rule = r, ra_state = k\<rparr> states2
                      | T t \<Rightarrow> add_token_action i \<lparr>ta_tokens = token_set_insert token_set_init t,
                          ta_reduce = None, ta_state = k\<rparr> states2))))))"

text \<open>
  The loop over the leads of a state. \<open>handled\<close> marks the leads that an earlier one with the same
  symbol has taken along: here they are dropped from the list.
\<close>

definition next_symbol :: "rules \<Rightarrow> lead \<Rightarrow> symbol option res" where
  "next_symbol g l = variant_get_symbol (lead_variant g l) (ld_position l)"

function gather_symbols ::
    "(string \<Rightarrow> nat) \<Rightarrow> rules \<Rightarrow> nat \<Rightarrow> lead list \<Rightarrow> gen_state list \<Rightarrow> gen_state list res option" where
  "gather_symbols addr g i [] states = Some (Inr states)"
| "gather_symbols addr g i (base # leads) states =
     (case next_symbol g base of Inl e \<Rightarrow> Some (Inl e) | Inr symb \<Rightarrow>
      if list_ex (\<lambda>l. \<not> returns (next_symbol g l)) leads
      then Some (Inl (Undefined ''read past the elements of a variant''))
      else (case gather_symbol addr g i symb (base # filter (\<lambda>l. next_symbol g l = Inr symb) leads) states of
          None \<Rightarrow> None
        | Some (Inl e) \<Rightarrow> Some (Inl e)
        | Some (Inr states') \<Rightarrow>
            gather_symbols addr g i (filter (\<lambda>l. next_symbol g l \<noteq> Inr symb) leads) states'))"
  by pat_completeness auto
termination
  by (relation "measure (\<lambda>(addr, g, i, leads, states). length leads)") (auto simp: less_Suc_eq_le)

fun gather_range ::
    "(string \<Rightarrow> nat) \<Rightarrow> rules \<Rightarrow> nat list \<Rightarrow> gen_state list \<Rightarrow> gen_state list res option" where
  "gather_range addr g [] states = Some (Inr states)"
| "gather_range addr g (i # is) states =
     (case gather_symbols addr g i (gs_leads (states ! i)) states of
        None \<Rightarrow> None
      | Some (Inl e) \<Rightarrow> Some (Inl e)
      | Some (Inr states') \<Rightarrow> gather_range addr g is states')"

partial_function (option) gather_states ::
    "(string \<Rightarrow> nat) \<Rightarrow> rules \<Rightarrow> gen_state list \<Rightarrow> nat \<Rightarrow> nat \<Rightarrow> gen_state list res option" where
  [code]: "gather_states addr g states index len =
     (if \<not> index < length states then Some (Inl (Assert_Failed ''index < states->size''))
      else if \<not> index + len \<le> length states
      then Some (Inl (Assert_Failed ''index+length <= states->size''))
      else (case gather_range addr g [index..<index + len] states of
          None \<Rightarrow> None
        | Some (Inl e) \<Rightarrow> Some (Inl e)
        | Some (Inr states') \<Rightarrow>
            if length states < length states'
            then gather_states addr g states' (length states) (length states' - length states)
            else Some (Inr states')))"

definition root_lead :: lead where
  "root_lead = \<lparr>ld_rule = fst grammar_root, ld_variant = 0, ld_position = 0,
     ld_terminals = token_set_insert token_set_init TKN_EOF\<rparr>"

definition build_states :: "(string \<Rightarrow> nat) \<Rightarrow> rules \<Rightarrow> gen_state list res option" where
  "build_states addr g = (case gather_leads g [root_lead] 0 1 of
     None \<Rightarrow> None
   | Some (Inl e) \<Rightarrow> Some (Inl e)
   | Some (Inr leads) \<Rightarrow> gather_states addr g
       [\<lparr>gs_leads = consolidate_leads addr leads, gs_token_actions = [], gs_rule_actions = []\<rparr>] 0 1)"

subsection \<open>The table\<close>

text \<open>
  What is printed: the initialiser of \<open>parser_states\<close>, here the table it stands for once it is
  compiled and linked. Rules are numbered from \<open>MAX_TOKENS\<close> on as they are met.
\<close>

fun rule_index :: "string list \<Rightarrow> string \<Rightarrow> nat option" where
  "rule_index [] r = None"
| "rule_index (w # ws) r = (if w = r then Some 0 else map_option Suc (rule_index ws r))"

definition assign_rule_id :: "string list \<Rightarrow> string \<Rightarrow> nat \<times> string list" where
  "assign_rule_id ids r = (case rule_index ids r of
     Some w \<Rightarrow> (w + MAX_TOKENS, ids)
   | None \<Rightarrow> (length (ids @ [r]) + MAX_TOKENS - 1, ids @ [r]))"

definition token_bits :: "token_set \<Rightarrow> nat list" where
  "token_bits s = filter (\<lambda>t. s ! (t div 32) AND push_bit (t mod 32) 1 \<noteq> 0) [0..<TOKEN_WORDS * 32]"

definition emit_token :: "rules \<Rightarrow> token_action \<Rightarrow> string list \<Rightarrow> nat \<Rightarrow> parser_action \<times> string list" where
  "emit_token g a ids t = (case ta_reduce a of
     Some (r, v) \<Rightarrow>
       (let var = rule_variants g r ! v; len = length (v_elements var) in
        if r = fst grammar_root
        then (\<lparr>pa_token = t, pa_state_or_length = - int len, pa_reducer = None, pa_tag = 0, pa_rule = 0\<rparr>, ids)
        else (let (id, ids') = assign_rule_id ids r in
          (\<lparr>pa_token = t, pa_state_or_length = - int len,
            pa_reducer = (case v_reducer var of None \<Rightarrow> None | Some f \<Rightarrow> run_reducer f),
            pa_tag = v_tag var, pa_rule = id\<rparr>, ids')))
   | None \<Rightarrow> (\<lparr>pa_token = t, pa_state_or_length = int (ta_state a), pa_reducer = None, pa_tag = 0,
       pa_rule = 0\<rparr>, ids))"

fun emit_tokens :: "rules \<Rightarrow> token_action \<Rightarrow> string list \<Rightarrow> nat list \<Rightarrow> parser_action list \<times> string list" where
  "emit_tokens g a ids [] = ([], ids)"
| "emit_tokens g a ids (t # ts) =
     (let (x, ids1) = emit_token g a ids t; (xs, ids2) = emit_tokens g a ids1 ts in (x # xs, ids2))"

fun emit_actions :: "rules \<Rightarrow> string list \<Rightarrow> token_action list \<Rightarrow> parser_action list \<times> string list" where
  "emit_actions g ids [] = ([], ids)"
| "emit_actions g ids (a # as) =
     (let (xs, ids1) = emit_tokens g a ids (token_bits (ta_tokens a)); (ys, ids2) = emit_actions g ids1 as
      in (xs @ ys, ids2))"

fun emit_gotos :: "string list \<Rightarrow> rule_action list \<Rightarrow> parser_goto list \<times> string list" where
  "emit_gotos ids [] = ([], ids)"
| "emit_gotos ids (a # as) =
     (let (id, ids1) = assign_rule_id ids (ra_rule a); (ys, ids2) = emit_gotos ids1 as
      in (\<lparr>pg_rule = id, pg_state = ra_state a\<rparr> # ys, ids2))"

fun emit_states :: "rules \<Rightarrow> string list \<Rightarrow> gen_state list \<Rightarrow> parser_state list \<times> string list" where
  "emit_states g ids [] = ([], ids)"
| "emit_states g ids (s # ss) =
     (let (as, ids1) = emit_actions g ids (gs_token_actions s);
          (gs, ids2) = emit_gotos ids1 (gs_rule_actions s);
          (tbl, ids3) = emit_states g ids2 ss
      in (\<lparr>st_actions = as, st_gotos = gs\<rparr> # tbl, ids3))"

text \<open>The table, and the names of the rules in the order of their numbers.\<close>

definition generate :: "(string \<Rightarrow> nat) \<Rightarrow> rules \<Rightarrow> (parser_state list \<times> string list) res option" where
  "generate addr g = (case build_states addr g of
     None \<Rightarrow> None
   | Some (Inl e) \<Rightarrow> Some (Inl e)
   | Some (Inr states) \<Rightarrow> Some (Inr (emit_states g [] states)))"

end
