(* ===== verification/Generator_Props.thy ===== *)
theory Generator_Props
  imports Generator
begin

section \<open>First tokens, closures and consolidation\<close>

text \<open>
  What the parts of the generator compute: the operations on bit sets are those of sets of
  tokens, \<open>gather_first\<close> computes the first tokens of a symbol, \<open>gather_leads\<close> the least set of
  leads closed under expansion, and \<open>consolidate_leads\<close> merges the leads of a core, for every
  grammar whose productions are not empty (\<open>rules_ok\<close>).
\<close>

subsection \<open>Sets of tokens\<close>

definition tokens_of :: "token_set \<Rightarrow> nat set" where
  "tokens_of s = {t. t < TOKEN_WORDS * 32 \<and> bit (s ! (t div 32)) (t mod 32)}"

lemma TOKEN_WORDS: "TOKEN_WORDS = 3"
  by (simp add: TOKEN_WORDS_def MAX_TOKENS_def)

lemma token_set_lengths [simp]:
  "length token_set_init = TOKEN_WORDS"
  "length (token_set_insert s t) = length s"
  "length (token_set_merge s s') = min (length s) (length s')"
  by (simp_all add: token_set_init_def token_set_insert_def token_set_merge_def)

lemma tokens_of_init [simp]: "tokens_of token_set_init = {}"
  by (simp add: tokens_of_def token_set_init_def less_mult_imp_div_less)

lemma bit_two_pow: "b < 32 \<Longrightarrow> bit (2 ^ b :: u32) k \<longleftrightarrow> k = b"
  by (auto simp: bit_exp_iff possible_bit_def)

lemma tokens_of_insert [simp]:
  assumes "length s = TOKEN_WORDS" and "t < TOKEN_WORDS * 32"
  shows "tokens_of (token_set_insert s t) = insert t (tokens_of s)"
proof -
  have "bit (token_set_insert s t ! (u div 32)) (u mod 32) \<longleftrightarrow> u = t \<or> bit (s ! (u div 32)) (u mod 32)"
    if "u < TOKEN_WORDS * 32" for u
  proof (cases "u div 32 = t div 32")
    case True
    have "u = t \<longleftrightarrow> u mod 32 = t mod 32" using True by (metis div_mod_decomp)
    then show ?thesis using True assms that
      by (auto simp: token_set_insert_def bit_or_iff bit_two_pow less_mult_imp_div_less)
  next
    case False
    then show ?thesis by (auto simp: token_set_insert_def)
  qed
  with assms(2) show ?thesis by (auto simp: tokens_of_def)
qed

lemma tokens_of_merge [simp]:
  assumes "length s = TOKEN_WORDS" and "length s' = TOKEN_WORDS"
  shows "tokens_of (token_set_merge s s') = tokens_of s \<union> tokens_of s'"
  using assms by (auto simp: tokens_of_def token_set_merge_def less_mult_imp_div_less bit_or_iff)

lemma token_bits_set: "set (token_bits s) = tokens_of s"
  by (auto simp: token_bits_def tokens_of_def and_exp_eq_0_iff_not_bit push_bit_eq_mult)

lemma tokens_of_eq:
  assumes "length s = TOKEN_WORDS" and "length s' = TOKEN_WORDS" and "tokens_of s = tokens_of s'"
  shows "s = s'"
proof (rule nth_equalityI)
  fix i assume i: "i < length s"
  show "s ! i = s' ! i"
  proof (rule bit_eqI)
    fix n assume "possible_bit TYPE(u32) n"
    then have n: "n < 32" by (simp add: possible_bit_def)
    then have "32 * i + n < TOKEN_WORDS * 32" using i assms(1) by simp
    then have "32 * i + n \<in> tokens_of s \<longleftrightarrow> bit (s ! i) n" "32 * i + n \<in> tokens_of s' \<longleftrightarrow> bit (s' ! i) n"
      using n by (simp_all add: tokens_of_def)
    with assms(3) show "bit (s ! i) n \<longleftrightarrow> bit (s' ! i) n" by simp
  qed
qed (use assms in simp)

lemma equal_token_sets_iff:
  "length s = TOKEN_WORDS \<Longrightarrow> length s' = TOKEN_WORDS \<Longrightarrow> equal_token_sets s s' \<longleftrightarrow> s = s'"
  by (auto simp: equal_token_sets_def list_all_iff intro: nth_equalityI)

subsection \<open>Grammars\<close>

text \<open>No production is empty, and the tokens are proper ones.\<close>

definition symbol_ok :: "symbol \<Rightarrow> bool" where
  "symbol_ok x = (case x of T t \<Rightarrow> TKN_EOF < t \<and> t < MAX_TOKENS | N r \<Rightarrow> r \<noteq> fst grammar_root)"

definition rules_ok :: "rules \<Rightarrow> bool" where
  "rules_ok g \<longleftrightarrow> list_all (\<lambda>(r, vs). list_all (\<lambda>v. v_elements v \<noteq> [] \<and> list_all symbol_ok (v_elements v)) vs) g \<and>
     map_of g (fst grammar_root) = Some (snd grammar_root)"

lemma rules_ok_variant:
  assumes "rules_ok g" and "v \<in> set (rule_variants g r)"
  shows "v_elements v \<noteq> []" and "x \<in> set (v_elements v) \<Longrightarrow> symbol_ok x"
proof -
  obtain vs where vs: "map_of g r = Some vs" "v \<in> set vs"
    using assms(2) by (cases "map_of g r") (simp_all add: rule_variants_def)
  have "(r, vs) \<in> set g" by (rule map_of_SomeD [OF vs(1)])
  with vs(2) assms(1) have "v_elements v \<noteq> [] \<and> list_all symbol_ok (v_elements v)"
    by (auto simp: rules_ok_def list_all_iff)
  then show "v_elements v \<noteq> []" "x \<in> set (v_elements v) \<Longrightarrow> symbol_ok x"
    by (auto simp: list_all_iff)
qed

lemma symbol_ok_token: "symbol_ok (T t) \<Longrightarrow> t < TOKEN_WORDS * 32"
  by (simp add: symbol_ok_def MAX_TOKENS_def TOKEN_WORDS)

subsection \<open>First tokens\<close>

text \<open>The tokens a sentence of a symbol may start with.\<close>

inductive firsts :: "rules \<Rightarrow> symbol \<Rightarrow> nat \<Rightarrow> bool" for g where
  firsts_T: "firsts g (T t) t"
| firsts_N: "v \<in> set (rule_variants g r) \<Longrightarrow> v_elements v = x # xs \<Longrightarrow> firsts g x t \<Longrightarrow> firsts g (N r) t"

text \<open>The same, in derivations of \<open>n\<close> steps, and in ones that expand no rule twice.\<close>

inductive firsts_in :: "rules \<Rightarrow> nat \<Rightarrow> symbol \<Rightarrow> nat \<Rightarrow> bool" for g where
  firsts_in_T: "firsts_in g 0 (T t) t"
| firsts_in_N: "v \<in> set (rule_variants g r) \<Longrightarrow> v_elements v = x # xs \<Longrightarrow> firsts_in g n x t \<Longrightarrow>
    firsts_in g (Suc n) (N r) t"

inductive firsts_chain :: "rules \<Rightarrow> string list \<Rightarrow> symbol \<Rightarrow> nat \<Rightarrow> bool" for g where
  firsts_chain_T: "firsts_chain g chain (T t) t"
| firsts_chain_N: "r \<notin> set chain \<Longrightarrow> v \<in> set (rule_variants g r) \<Longrightarrow> v_elements v = x # xs \<Longrightarrow>
    firsts_chain g (r # chain) x t \<Longrightarrow> firsts_chain g chain (N r) t"

inductive_simps firsts_in_simps: "firsts_in g 0 x t" "firsts_in g (Suc n) x t"
inductive_simps firsts_chain_simps: "firsts_chain g chain (T u) t" "firsts_chain g chain (N r) t"

lemma firsts_iff_in: "firsts g x t \<longleftrightarrow> (\<exists>n. firsts_in g n x t)"
proof
  show "firsts g x t \<Longrightarrow> \<exists>n. firsts_in g n x t"
    by (induction rule: firsts.induct) (blast intro: firsts_in.intros)+
  have "firsts_in g n x t \<Longrightarrow> firsts g x t" for n
    by (induction rule: firsts_in.induct) (blast intro: firsts.intros)+
  then show "\<exists>n. firsts_in g n x t \<Longrightarrow> firsts g x t" by blast
qed

lemma firsts_chain_sound: "firsts_chain g chain x t \<Longrightarrow> firsts g x t"
  by (induction rule: firsts_chain.induct) (blast intro: firsts.intros)+

text \<open>A shortest derivation expands no rule twice.\<close>

lemma firsts_chain_shortest:
  assumes "firsts_in g n x t" and "\<forall>k<n. \<not> firsts_in g k x t"
    and "\<forall>r\<in>set chain. \<forall>k\<le>n. \<not> firsts_in g k (N r) t"
  shows "firsts_chain g chain x t"
  using assms
proof (induction n arbitrary: x chain)
  case 0
  then show ?case by (auto simp: firsts_in_simps intro: firsts_chain_T)
next
  case (Suc n)
  then obtain r v y ys where x: "x = N r" and v: "v \<in> set (rule_variants g r)" "v_elements v = y # ys"
    "firsts_in g n y t" by (auto simp: firsts_in_simps)
  have far: "\<not> firsts_in g k (N r) t" if "k \<le> n" for k using Suc.prems(2) x that by simp
  have "\<forall>k<n. \<not> firsts_in g k y t" using far firsts_in_N [OF v(1,2)] by (metis Suc_leI)
  moreover have "\<forall>r'\<in>set (r # chain). \<forall>k\<le>n. \<not> firsts_in g k (N r') t"
    using far Suc.prems(3) by auto
  ultimately have "firsts_chain g (r # chain) y t" by (rule Suc.IH [OF v(3)])
  moreover have "r \<notin> set chain" using Suc.prems(1,3) x by auto
  ultimately show ?case unfolding x by (intro firsts_chain_N [OF _ v(1,2)])
qed

lemma firsts_chain_iff: "firsts_chain g [] x t \<longleftrightarrow> firsts g x t"
proof
  assume "firsts g x t"
  then have "\<exists>n. firsts_in g n x t" by (simp add: firsts_iff_in)
  then obtain n where "firsts_in g n x t" "\<forall>k<n. \<not> firsts_in g k x t"
    using exists_least_iff [of "\<lambda>n. firsts_in g n x t"] by blast
  then show "firsts_chain g [] x t" by (intro firsts_chain_shortest) simp_all
qed (rule firsts_chain_sound)

lemma gather_first_chain:
  assumes "rules_ok g"
  shows "length s = TOKEN_WORDS \<Longrightarrow> symb = Some x \<Longrightarrow> symbol_ok x \<Longrightarrow>
      \<exists>s'. gather_first g s symb chain = Inr s' \<and> length s' = TOKEN_WORDS \<and>
        tokens_of s' = tokens_of s \<union> {t. firsts_chain g chain x t}"
    and "length s = TOKEN_WORDS \<Longrightarrow> (\<forall>v\<in>set vs. v_elements v \<noteq> [] \<and> symbol_ok (hd (v_elements v))) \<Longrightarrow>
      \<exists>s'. gather_first_variants g s vs chain = Inr s' \<and> length s' = TOKEN_WORDS \<and>
        tokens_of s' = tokens_of s \<union> {t. \<exists>v\<in>set vs. firsts_chain g chain (hd (v_elements v)) t}"
  using assms
proof (induction g s symb chain and g s vs chain arbitrary: x and
    rule: gather_first_gather_first_variants.induct)
  case (1 g s symb chain)
  show ?case
  proof (cases x)
    case (T t)
    with 1(2-4) show ?thesis
      by (simp add: gather_first.simps symbol_ok_token firsts_chain_simps)
  next
    case (N r)
    show ?thesis
    proof (cases "r \<in> set chain")
      case True
      with 1(2-4) N show ?thesis by (simp add: gather_first.simps firsts_chain_simps)
    next
      case False
      have vs: "\<forall>v\<in>set (rule_variants g r). v_elements v \<noteq> [] \<and> symbol_ok (hd (v_elements v))"
        using rules_ok_variant [OF 1(5)] by (metis list.set_sel(1))
      with 1(1) [of "N r" r] False N 1(2,3,5) obtain s' where s':
        "gather_first_variants g s (rule_variants g r) (r # chain) = Inr s'" "length s' = TOKEN_WORDS"
        "tokens_of s' = tokens_of s \<union> {t. \<exists>v\<in>set (rule_variants g r). firsts_chain g (r # chain) (hd (v_elements v)) t}"
        by auto
      have "(\<exists>v\<in>set (rule_variants g r). firsts_chain g (r # chain) (hd (v_elements v)) t) \<longleftrightarrow>
          firsts_chain g chain (N r) t" for t
        unfolding firsts_chain_simps(2) using False vs by (metis list.collapse list.sel(1))
      with s' show ?thesis using 1(3) N False by (simp add: gather_first.simps)
    qed
  qed
next
  case (2 g s chain)
  then show ?case by simp
next
  case (3 g s v vs chain)
  let ?x = "hd (v_elements v)"
  have v: "v_elements v \<noteq> []" "symbol_ok ?x" using 3(4) by simp_all
  then have sym: "variant_get_symbol v 0 = Inr (Some ?x)"
    by (simp add: variant_get_symbol_def hd_conv_nth)
  from 3(1) [OF sym 3(3) refl v(2) 3(5)] obtain s1 where s1: "gather_first g s (Some ?x) chain = Inr s1"
    "length s1 = TOKEN_WORDS" "tokens_of s1 = tokens_of s \<union> {t. firsts_chain g chain ?x t}" by blast
  from 3(2) [OF sym s1(1) s1(2) _ 3(5)] 3(4) obtain s2 where "gather_first_variants g s1 vs chain = Inr s2"
    "length s2 = TOKEN_WORDS"
    "tokens_of s2 = tokens_of s1 \<union> {t. \<exists>v\<in>set vs. firsts_chain g chain (hd (v_elements v)) t}" by auto
  with sym s1 show ?case by auto
qed

lemma gather_first_firsts:
  assumes "rules_ok g" and "length s = TOKEN_WORDS" and "symbol_ok x"
  obtains s' where "gather_first g s (Some x) [] = Inr s'" and "length s' = TOKEN_WORDS"
    and "tokens_of s' = tokens_of s \<union> {t. firsts g x t}"
  using gather_first_chain(1) [OF assms(1,2) refl assms(3), of "[]"] by (auto simp: firsts_chain_iff)

subsection \<open>The closure\<close>

definition lead_ok :: "rules \<Rightarrow> lead \<Rightarrow> bool" where
  "lead_ok g l \<longleftrightarrow> ld_variant l < length (rule_variants g (ld_rule l)) \<and>
     ld_position l \<le> length (v_elements (lead_variant g l)) \<and> length (ld_terminals l) = TOKEN_WORDS"

text \<open>The symbol after the position, if there is one.\<close>

definition dot :: "rules \<Rightarrow> lead \<Rightarrow> symbol option" where
  "dot g l = (if ld_position l < length (v_elements (lead_variant g l))
     then Some (v_elements (lead_variant g l) ! ld_position l) else None)"

definition follow_tokens :: "rules \<Rightarrow> lead \<Rightarrow> nat set" where
  "follow_tokens g l = (if Suc (ld_position l) < length (v_elements (lead_variant g l))
     then {t. firsts g (v_elements (lead_variant g l) ! Suc (ld_position l)) t} else tokens_of (ld_terminals l))"

text \<open>The leads a lead expands to: the variants of the rule after its position.\<close>

definition expands :: "rules \<Rightarrow> lead \<Rightarrow> lead \<Rightarrow> bool" where
  "expands g l nl \<longleftrightarrow> dot g l = Some (N (ld_rule nl)) \<and> lead_ok g nl \<and> ld_position nl = 0 \<and>
     tokens_of (ld_terminals nl) = follow_tokens g l"

inductive_set closure :: "rules \<Rightarrow> lead set \<Rightarrow> lead set" for g L where
  closure_base: "l \<in> L \<Longrightarrow> l \<in> closure g L"
| closure_step: "l \<in> closure g L \<Longrightarrow> expands g l nl \<Longrightarrow> nl \<in> closure g L"

lemma lead_variant_in: "lead_ok g l \<Longrightarrow> lead_variant g l \<in> set (rule_variants g (ld_rule l))"
  by (simp add: lead_ok_def lead_variant_def)

lemma next_symbol_dot: "lead_ok g l \<Longrightarrow> next_symbol g l = Inr (dot g l)"
  by (simp add: lead_ok_def next_symbol_def variant_get_symbol_def dot_def)

lemma dot_symbol_ok: "rules_ok g \<Longrightarrow> lead_ok g l \<Longrightarrow> dot g l = Some x \<Longrightarrow> symbol_ok x"
  using rules_ok_variant(2) [OF _ lead_variant_in] by (force simp: dot_def split: if_splits)

lemma equal_leads_iff: "lead_ok g l \<Longrightarrow> lead_ok g l' \<Longrightarrow> equal_leads l l' \<longleftrightarrow> l = l'"
  by (auto simp: equal_leads_def equal_token_sets_iff lead_ok_def)

lemma closure_lead_ok: "l \<in> closure g L \<Longrightarrow> \<forall>l\<in>L. lead_ok g l \<Longrightarrow> lead_ok g l"
  by (induction rule: closure.induct) (auto simp: expands_def)

lemma add_lead_eq:
  assumes "\<forall>l\<in>set leads. lead_ok g l" and "lead_ok g nl"
  shows "add_lead leads nl = (if nl \<in> set leads then leads else leads @ [nl])"
proof -
  have "equal_leads l nl \<longleftrightarrow> l = nl" if "l \<in> set leads" for l
    using equal_leads_iff [of g l nl] assms that by blast
  then have "list_ex (\<lambda>l. equal_leads l nl) leads \<longleftrightarrow> nl \<in> set leads" by (auto simp: list_ex_iff)
  then show ?thesis by (simp add: add_lead_def)
qed

lemma fold_add_lead:
  assumes "\<forall>l\<in>set leads. lead_ok g l" and "\<forall>v\<in>set vs. lead_ok g (mk v)"
  shows "\<exists>new. fold (\<lambda>v ls. add_lead ls (mk v)) vs leads = leads @ new \<and>
    set (leads @ new) = set leads \<union> mk ` set vs \<and> (distinct leads \<longrightarrow> distinct (leads @ new))"
  using assms
proof (induction vs arbitrary: leads)
  case Nil
  then show ?case by (intro exI [of _ "[]"]) simp
next
  case (Cons v vs)
  let ?one = "if mk v \<in> set leads then leads else leads @ [mk v]"
  have one: "add_lead leads (mk v) = ?one" using Cons.prems by (intro add_lead_eq [where g = g]) simp_all
  have "\<forall>l\<in>set ?one. lead_ok g l" using Cons.prems by simp
  from Cons.IH [OF this] Cons.prems(2) obtain new where new:
    "fold (\<lambda>v ls. add_lead ls (mk v)) vs ?one = ?one @ new" "set (?one @ new) = set ?one \<union> mk ` set vs"
    "distinct ?one \<longrightarrow> distinct (?one @ new)" by auto
  let ?new = "(if mk v \<in> set leads then [] else [mk v]) @ new"
  have "?one @ new = leads @ ?new" by simp
  moreover have "set (?one @ new) = set leads \<union> mk ` set (v # vs)" using new(2) by auto
  moreover have "distinct leads \<longrightarrow> distinct (?one @ new)" using new(3) by simp
  moreover have "fold (\<lambda>v ls. add_lead ls (mk v)) (v # vs) leads = ?one @ new" using new(1) one by simp
  ultimately show ?case by (intro exI [of _ ?new]) metis
qed

lemma expand_lead_spec:
  assumes g: "rules_ok g" and leads: "\<forall>l\<in>set leads. lead_ok g l" and l: "lead_ok g l"
  obtains new where "expand_lead g leads l = Inr (leads @ new)"
    and "set (leads @ new) = set leads \<union> {nl. expands g l nl}" and "distinct leads \<longrightarrow> distinct (leads @ new)"
proof (cases "\<exists>r. dot g l = Some (N r)")
  case False
  have "expand_lead g leads l = Inr leads"
    using False next_symbol_dot [OF l] by (auto simp: expand_lead_def next_symbol_def split: option.splits symbol.splits)
  moreover have "{nl. expands g l nl} = {}" using False by (auto simp: expands_def)
  ultimately show ?thesis using that [of "[]"] by simp
next
  case True
  then obtain r where r: "dot g l = Some (N r)" by blast
  let ?es = "v_elements (lead_variant g l)" and ?n = "Suc (ld_position l)"
  have pos: "?n \<le> length ?es" using r by (auto simp: dot_def split: if_splits)
  obtain follow where follow: "length follow = TOKEN_WORDS" "tokens_of follow = follow_tokens g l"
    "expand_lead g leads l = Inr (fold (\<lambda>v leads. add_lead leads \<lparr>ld_rule = r, ld_variant = v, ld_position = 0,
       ld_terminals = follow\<rparr>) [0..<length (rule_variants g r)] leads)"
  proof (cases "?n < length ?es")
    case True
    have "symbol_ok (?es ! ?n)" using rules_ok_variant(2) [OF g lead_variant_in [OF l]] True by simp
    then obtain s where "gather_first g token_set_init (Some (?es ! ?n)) [] = Inr s" "length s = TOKEN_WORDS"
      "tokens_of s = {t. firsts g (?es ! ?n) t}"
      using gather_first_firsts [OF g, of token_set_init "?es ! ?n"] by auto
    with that [of s] True r next_symbol_dot [OF l] show ?thesis
      by (simp add: expand_lead_def next_symbol_def follow_tokens_def variant_get_symbol_def)
  next
    case False
    with that [of "token_set_merge token_set_init (ld_terminals l)"] pos r l next_symbol_dot [OF l] show ?thesis
      by (simp add: expand_lead_def next_symbol_def follow_tokens_def variant_get_symbol_def lead_ok_def)
  qed
  let ?mk = "\<lambda>v. \<lparr>ld_rule = r, ld_variant = v, ld_position = 0, ld_terminals = follow\<rparr>"
  have mk: "expands g l (?mk v)" if "v < length (rule_variants g r)" for v
    using that r follow(1,2) by (simp add: expands_def lead_ok_def)
  have "?mk ` set [0..<length (rule_variants g r)] = {nl. expands g l nl}"
  proof (intro set_eqI iffI)
    fix nl assume "nl \<in> {nl. expands g l nl}"
    then have nl: "ld_rule nl = r" "lead_ok g nl" "ld_position nl = 0" "tokens_of (ld_terminals nl) = tokens_of follow"
      using r follow(2) by (auto simp: expands_def)
    then have "ld_terminals nl = follow" using follow(1) tokens_of_eq by (simp add: lead_ok_def)
    with nl have "nl = ?mk (ld_variant nl)" by (cases nl) simp
    with nl(1,2) show "nl \<in> ?mk ` set [0..<length (rule_variants g r)]" by (auto simp: lead_ok_def)
  next
    fix nl assume "nl \<in> ?mk ` set [0..<length (rule_variants g r)]"
    with mk show "nl \<in> {nl. expands g l nl}" by auto
  qed
  moreover have "\<forall>v\<in>set [0..<length (rule_variants g r)]. lead_ok g (?mk v)"
    using follow(1) by (simp add: lead_ok_def)
  ultimately show ?thesis
    using fold_add_lead [OF leads, of "[0..<length (rule_variants g r)]" ?mk] follow(3) that by auto
qed

lemma expand_leads_spec:
  assumes "rules_ok g" and "\<forall>l\<in>set leads. lead_ok g l" and "distinct leads"
    and "\<forall>i\<in>set is. i < length leads"
  shows "\<exists>new. expand_leads g leads is = Inr (leads @ new) \<and> distinct (leads @ new) \<and>
    set (leads @ new) = set leads \<union> {nl. \<exists>i\<in>set is. expands g (leads ! i) nl}"
  using assms(2-)
proof (induction "is" arbitrary: leads)
  case Nil
  then show ?case by (intro exI [of _ "[]"]) simp
next
  case (Cons i "is")
  have "lead_ok g (leads ! i)" using Cons.prems by simp
  then obtain new where new: "expand_lead g leads (leads ! i) = Inr (leads @ new)"
    "set (leads @ new) = set leads \<union> {nl. expands g (leads ! i) nl}" "distinct (leads @ new)"
    using expand_lead_spec [OF assms(1) Cons.prems(1)] Cons.prems(2) by metis
  have ok: "\<forall>l\<in>set (leads @ new). lead_ok g l" using new(2) Cons.prems(1) by (auto simp: expands_def)
  have "\<forall>i\<in>set is. i < length (leads @ new)" using Cons.prems(3) by auto
  from Cons.IH [OF ok new(3) this] obtain new' where new':
    "expand_leads g (leads @ new) is = Inr ((leads @ new) @ new')" "distinct ((leads @ new) @ new')"
    "set ((leads @ new) @ new') = set (leads @ new) \<union> {nl. \<exists>i\<in>set is. expands g ((leads @ new) ! i) nl}"
    by blast
  have "(leads @ new) ! k = leads ! k" if "k \<in> set is" for k using Cons.prems(3) that by (simp add: nth_append)
  then have "set (leads @ new @ new') = set leads \<union> {nl. \<exists>i\<in>set (i # is). expands g (leads ! i) nl}"
    using new' new(2) by auto
  with new' new(1) show ?case by (intro exI [of _ "new @ new'"]) simp
qed

lemma finite_leads: "finite {l. lead_ok g l}"
proof -
  let ?f = "\<lambda>l. (ld_rule l, ld_variant l, ld_position l, ld_terminals l)"
  let ?names = "fst ` set g"
  let ?V = "\<Union>r\<in>?names. {r} \<times> (\<Union>v<length (rule_variants g r). {v} \<times> {..length (v_elements (rule_variants g r ! v))} \<times>
    {s :: token_set. set s \<subseteq> UNIV \<and> length s = TOKEN_WORDS})"
  have "finite {s :: token_set. set s \<subseteq> UNIV \<and> length s = TOKEN_WORDS}"
    by (rule finite_lists_length_eq) simp
  then have fin: "finite ?V" by blast
  have "?f ` {l. lead_ok g l} \<subseteq> ?V"
  proof
    fix x assume "x \<in> ?f ` {l. lead_ok g l}"
    then obtain l where l: "x = ?f l" "lead_ok g l" by blast
    then have "map_of g (ld_rule l) \<noteq> None" by (cases "map_of g (ld_rule l)") (simp_all add: lead_ok_def rule_variants_def)
    then have "ld_rule l \<in> ?names" by (simp add: map_of_eq_None_iff)
    with l show "x \<in> ?V" by (auto simp: lead_ok_def lead_variant_def)
  qed
  then have "finite (?f ` {l. lead_ok g l})" by (rule finite_subset [OF _ fin])
  moreover have "inj_on ?f {l. lead_ok g l}" by (rule inj_onI) (simp add: lead.equality)
  ultimately show ?thesis by (rule finite_imageD)
qed

lemma closure_mono_id:
  assumes "L \<subseteq> M" and "M \<subseteq> closure g L"
  shows "closure g M = closure g L"
proof (intro set_eqI iffI)
  fix l show "l \<in> closure g M \<Longrightarrow> l \<in> closure g L"
    by (induction rule: closure.induct) (use assms(2) closure_step in blast)+
  show "l \<in> closure g L \<Longrightarrow> l \<in> closure g M"
    by (induction rule: closure.induct) (use assms(1) in \<open>blast intro: closure.intros\<close>)+
qed

lemma closure_closed:
  assumes "\<forall>l\<in>L. \<forall>nl. expands g l nl \<longrightarrow> nl \<in> L"
  shows "closure g L = L"
proof (intro set_eqI iffI)
  fix l show "l \<in> closure g L \<Longrightarrow> l \<in> L"
    by (induction rule: closure.induct) (use assms in blast)+
qed (rule closure_base)

text \<open>The recursion on the new leads ends, since there are finitely many leads.\<close>

lemma gather_leads_spec:
  assumes "rules_ok g" and "\<forall>l\<in>set leads. lead_ok g l" and "distinct leads"
    and "index < length leads" and "index + len = length leads"
    and "\<forall>i<index. \<forall>nl. expands g (leads ! i) nl \<longrightarrow> nl \<in> set leads"
  shows "\<exists>new. gather_leads g leads index len = Some (Inr (leads @ new)) \<and> distinct (leads @ new) \<and>
    set (leads @ new) = closure g (set leads)"
  using assms(2-)
proof (induction "card ({l. lead_ok g l} - set leads)" arbitrary: leads index len rule: less_induct)
  case less
  let ?is = "[index..<index + len]"
  obtain new where new: "expand_leads g leads ?is = Inr (leads @ new)" "distinct (leads @ new)"
    "set (leads @ new) = set leads \<union> {nl. \<exists>i\<in>set ?is. expands g (leads ! i) nl}"
    using expand_leads_spec [OF assms(1) less.prems(1,2), of ?is] less.prems(4) by auto
  have closed: "nl \<in> set (leads @ new)" if l: "l \<in> set leads" and e: "expands g l nl" for l nl
  proof -
    obtain i where i: "i < length leads" "l = leads ! i" using l by (auto simp: in_set_conv_nth)
    show ?thesis
    proof (cases "i < index")
      case True
      with less.prems(5) e i show ?thesis by auto
    next
      case False
      with i less.prems(4) have "i \<in> set ?is" by simp
      with new(3) e i show ?thesis by blast
    qed
  qed
  have step: "gather_leads g leads index len = (if new = [] then Some (Inr leads)
      else gather_leads g (leads @ new) (length leads) (length new))"
    using less.prems(3,4) new(1) by (simp add: gather_leads.simps [of g leads index])
  show ?case
  proof (cases "new = []")
    case True
    then have "closure g (set leads) = set leads" using closed by (intro closure_closed) auto
    with True step less.prems(2) show ?thesis by (intro exI [of _ "[]"]) simp
  next
    case False
    have ok: "\<forall>l\<in>set (leads @ new). lead_ok g l" using new(3) less.prems(1) by (auto simp: expands_def)
    obtain n where "n \<in> set new" using False by (cases new) auto
    with new(2) ok have "n \<in> {l. lead_ok g l} - set leads" "n \<notin> {l. lead_ok g l} - set (leads @ new)" by auto
    then have "{l. lead_ok g l} - set (leads @ new) \<subset> {l. lead_ok g l} - set leads" by auto
    then have lt: "card ({l. lead_ok g l} - set (leads @ new)) < card ({l. lead_ok g l} - set leads)"
      by (rule psubset_card_mono [OF finite_Diff [OF finite_leads]])
    have "\<forall>i<length leads. \<forall>nl. expands g ((leads @ new) ! i) nl \<longrightarrow> nl \<in> set (leads @ new)"
      using closed by (metis nth_append nth_mem)
    then have "\<exists>new'. gather_leads g (leads @ new) (length leads) (length new) =
        Some (Inr ((leads @ new) @ new')) \<and> distinct ((leads @ new) @ new') \<and>
      set ((leads @ new) @ new') = closure g (set (leads @ new))"
      using False by (intro less.hyps [OF lt ok new(2)]) simp_all
    then obtain new' where new': "gather_leads g (leads @ new) (length leads) (length new) =
        Some (Inr ((leads @ new) @ new'))" "distinct ((leads @ new) @ new')"
      "set ((leads @ new) @ new') = closure g (set (leads @ new))" by blast
    have "closure g (set (leads @ new)) = closure g (set leads)"
    proof (rule closure_mono_id)
      show "set (leads @ new) \<subseteq> closure g (set leads)"
        unfolding new(3) using less.prems(4) by (auto intro: closure_base closure_step [OF closure_base [OF nth_mem]])
    qed auto
    with new' step False show ?thesis by (intro exI [of _ "new @ new'"]) simp
  qed
qed

subsection \<open>Consolidation\<close>

definition core :: "lead \<Rightarrow> string \<times> nat \<times> nat" where
  "core l = (ld_rule l, ld_variant l, ld_position l)"

definition core_key :: "(string \<Rightarrow> nat) \<Rightarrow> lead \<Rightarrow> nat \<times> nat \<times> nat" where
  "core_key addr l = (addr (ld_rule l), ld_variant l, ld_position l)"

definition core_tokens :: "lead set \<Rightarrow> string \<times> nat \<times> nat \<Rightarrow> nat set" where
  "core_tokens L c = (\<Union>l\<in>{l \<in> L. core l = c}. tokens_of (ld_terminals l))"

lemma same_core_iff: "same_core l l' \<longleftrightarrow> core l = core l'"
  by (auto simp: same_core_def core_def)

lemma compare_leads_key:
  "compare_leads addr l k \<le> 0 \<Longrightarrow> core_key addr l \<le> core_key addr k"
  "\<not> compare_leads addr l k \<le> 0 \<Longrightarrow> core_key addr k \<le> core_key addr l"
  by (auto simp: compare_leads_def core_key_def less_eq_prod_def split: if_splits)

lemma insert_lead_spec:
  "set (insert_lead addr l ls) = insert l (set ls) \<and>
    (sorted (map (core_key addr) ls) \<longrightarrow> sorted (map (core_key addr) (insert_lead addr l ls)))"
proof (induction ls)
  case (Cons k ks)
  show ?case
  proof (cases "compare_leads addr l k \<le> 0")
    case True
    with compare_leads_key(1) [OF True] show ?thesis by (auto intro: order_trans [of _ "core_key addr k"])
  next
    case False
    with compare_leads_key(2) [OF False] Cons show ?thesis by auto
  qed
qed simp

lemma qsort_leads_spec:
  "set (qsort_leads addr ls) = set ls \<and> sorted (map (core_key addr) (qsort_leads addr ls))"
  unfolding qsort_leads_def by (induction ls) (simp_all add: insert_lead_spec)

lemma merge_leads_spec:
  assumes "sorted (map (core_key addr) (lo # ls))" and "\<forall>l\<in>set (lo # ls). length (ld_terminals l) = TOKEN_WORDS"
    and "\<forall>l\<in>set (lo # ls). \<forall>k\<in>set (lo # ls). core_key addr l = core_key addr k \<longrightarrow> core l = core k"
  shows "sorted_wrt (<) (map (core_key addr) (merge_leads lo ls)) \<and>
    core ` set (merge_leads lo ls) = core ` set (lo # ls) \<and>
    (\<forall>l\<in>set (merge_leads lo ls). core_key addr lo \<le> core_key addr l \<and> length (ld_terminals l) = TOKEN_WORDS \<and>
      tokens_of (ld_terminals l) = core_tokens (set (lo # ls)) (core l))"
  using assms
proof (induction ls arbitrary: lo)
  case Nil
  then show ?case by (auto simp: core_tokens_def)
next
  case (Cons li ls)
  show ?case
  proof (cases "same_core li lo")
    case True
    let ?lo = "lo\<lparr>ld_terminals := token_set_merge (ld_terminals lo) (ld_terminals li)\<rparr>"
    have same: "core li = core lo" "core ?lo = core lo" "core_key addr ?lo = core_key addr lo"
      using True by (simp_all add: same_core_iff core_def core_key_def)
    have toks: "core_tokens (set (?lo # ls)) c = core_tokens (set (lo # li # ls)) c" for c
      using same Cons.prems(2) by (auto simp: core_tokens_def)
    have "sorted (map (core_key addr) (?lo # ls))" using Cons.prems(1) same(3) by simp
    moreover have "\<forall>l\<in>set (?lo # ls). length (ld_terminals l) = TOKEN_WORDS" using Cons.prems(2) by simp
    moreover have "\<forall>l\<in>set (?lo # ls). \<forall>k\<in>set (?lo # ls). core_key addr l = core_key addr k \<longrightarrow> core l = core k"
      using Cons.prems(3) same(2,3) by (metis insert_iff list.simps(15))
    ultimately have "sorted_wrt (<) (map (core_key addr) (merge_leads ?lo ls)) \<and>
      core ` set (merge_leads ?lo ls) = core ` set (?lo # ls) \<and>
      (\<forall>l\<in>set (merge_leads ?lo ls). core_key addr ?lo \<le> core_key addr l \<and> length (ld_terminals l) = TOKEN_WORDS \<and>
        tokens_of (ld_terminals l) = core_tokens (set (?lo # ls)) (core l))" by (rule Cons.IH)
    then show ?thesis unfolding toks same(3) using True same(1,2) by simp
  next
    case False
    have "sorted (map (core_key addr) (li # ls))" using Cons.prems(1) by simp
    moreover have "\<forall>l\<in>set (li # ls). length (ld_terminals l) = TOKEN_WORDS" using Cons.prems(2) by simp
    moreover have "\<forall>l\<in>set (li # ls). \<forall>k\<in>set (li # ls). core_key addr l = core_key addr k \<longrightarrow> core l = core k"
      using Cons.prems(3) by (meson list.set_intros(2))
    ultimately have all: "sorted_wrt (<) (map (core_key addr) (merge_leads li ls)) \<and>
      core ` set (merge_leads li ls) = core ` set (li # ls) \<and>
      (\<forall>l\<in>set (merge_leads li ls). core_key addr li \<le> core_key addr l \<and> length (ld_terminals l) = TOKEN_WORDS \<and>
        tokens_of (ld_terminals l) = core_tokens (set (li # ls)) (core l))" by (rule Cons.IH)
    note IH = conjunct1 [OF all] conjunct1 [OF conjunct2 [OF all]] conjunct2 [OF conjunct2 [OF all]]
    have lt: "core_key addr lo < core_key addr li"
      using False Cons.prems(1,3) by (auto simp: same_core_iff order_less_le)
    then have later: "core_key addr lo < core_key addr l" if "l \<in> set (li # ls)" for l
      using Cons.prems(1) that by auto
    have "core_key addr l = core_key addr k" if "core l = core k" for l k
      using that by (simp add: core_def core_key_def)
    then have apart: "core l \<noteq> core lo" if "l \<in> set (li # ls)" for l
      using later [OF that] by (metis order_less_irrefl)
    then have "core_tokens (set (lo # li # ls)) (core lo) = tokens_of (ld_terminals lo)"
      by (auto simp: core_tokens_def)
    moreover have "core_tokens (set (lo # li # ls)) (core l) = core_tokens (set (li # ls)) (core l)"
      if "l \<in> set (merge_leads li ls)" for l
    proof -
      have "core l \<in> core ` set (li # ls)" using IH(2) that by blast
      with apart have "core l \<noteq> core lo" by auto
      then show ?thesis by (auto simp: core_tokens_def)
    qed
    moreover have "core_key addr lo < core_key addr l" if "l \<in> set (merge_leads li ls)" for l
      using IH(3) lt that by (blast intro: order_less_le_trans)
    moreover have "length (ld_terminals lo) = TOKEN_WORDS" using Cons.prems(2) by simp
    moreover have "merge_leads lo (li # ls) = lo # merge_leads li ls" using False by simp
    ultimately show ?thesis using IH by (simp add: order_less_imp_le)
  qed
qed

definition addresses_ok :: "(string \<Rightarrow> nat) \<Rightarrow> rules \<Rightarrow> bool" where
  "addresses_ok addr g \<longleftrightarrow> inj_on addr (fst ` set g)"

lemma lead_ok_rule: "lead_ok g l \<Longrightarrow> ld_rule l \<in> fst ` set g"
proof -
  assume "lead_ok g l"
  then have "map_of g (ld_rule l) \<noteq> None"
    by (cases "map_of g (ld_rule l)") (simp_all add: lead_ok_def rule_variants_def)
  then show ?thesis by (simp add: map_of_eq_None_iff)
qed

lemma consolidate_leads_spec:
  assumes "addresses_ok addr g" and "\<forall>l\<in>set leads. lead_ok g l"
  shows "distinct (map core (consolidate_leads addr leads))"
    and "core ` set (consolidate_leads addr leads) = core ` set leads"
    and "\<forall>l\<in>set (consolidate_leads addr leads). lead_ok g l \<and>
      tokens_of (ld_terminals l) = core_tokens (set leads) (core l)"
proof -
  let ?s = "qsort_leads addr leads" and ?c = "consolidate_leads addr leads"
  have s: "set ?s = set leads" "sorted (map (core_key addr) ?s)" by (simp_all add: qsort_leads_spec)
  have "core l = core k" if "l \<in> set leads" "k \<in> set leads" "core_key addr l = core_key addr k" for l k
  proof -
    have "ld_rule l \<in> fst ` set g" "ld_rule k \<in> fst ` set g" using that assms(2) lead_ok_rule by blast+
    moreover have "addr (ld_rule l) = addr (ld_rule k)" "ld_variant l = ld_variant k" "ld_position l = ld_position k"
      using that(3) by (simp_all add: core_key_def)
    ultimately show ?thesis using assms(1) inj_onD [of addr "fst ` set g"] by (simp add: addresses_ok_def core_def)
  qed
  then have inj: "\<forall>l\<in>set ?s. \<forall>k\<in>set ?s. core_key addr l = core_key addr k \<longrightarrow> core l = core k"
    unfolding s(1) by blast
  have len: "\<forall>l\<in>set ?s. length (ld_terminals l) = TOKEN_WORDS"
    unfolding s(1) using assms(2) by (simp add: lead_ok_def)
  have c: "sorted_wrt (<) (map (core_key addr) ?c)" "core ` set ?c = core ` set leads"
    "\<forall>l\<in>set ?c. length (ld_terminals l) = TOKEN_WORDS \<and> tokens_of (ld_terminals l) = core_tokens (set leads) (core l)"
  proof -
    have "sorted_wrt (<) (map (core_key addr) ?c) \<and> core ` set ?c = core ` set ?s \<and>
      (\<forall>l\<in>set ?c. length (ld_terminals l) = TOKEN_WORDS \<and> tokens_of (ld_terminals l) = core_tokens (set ?s) (core l))"
    proof (cases ?s)
      case Nil
      then show ?thesis by (simp add: consolidate_leads_def)
    next
      case (Cons lo ls)
      from merge_leads_spec [OF s(2) [unfolded Cons] len [unfolded Cons] inj [unfolded Cons]] Cons
      show ?thesis by (simp add: consolidate_leads_def)
    qed
    then show "sorted_wrt (<) (map (core_key addr) ?c)" "core ` set ?c = core ` set leads"
      "\<forall>l\<in>set ?c. length (ld_terminals l) = TOKEN_WORDS \<and> tokens_of (ld_terminals l) = core_tokens (set leads) (core l)"
      unfolding s(1) by blast+
  qed
  show "core ` set ?c = core ` set leads" by (rule c(2))
  have "core_key addr = (\<lambda>(r, v, p). (addr r, v, p)) \<circ> core" by (auto simp: core_key_def core_def)
  then have "distinct (map (\<lambda>(r, v, p). (addr r, v, p)) (map core ?c))"
    using c(1) by (simp add: strict_sorted_iff)
  then show "distinct (map core ?c)" by (rule conjunct1 [OF iffD1 [OF distinct_map]])
  show "\<forall>l\<in>set ?c. lead_ok g l \<and> tokens_of (ld_terminals l) = core_tokens (set leads) (core l)"
  proof
    fix l assume l: "l \<in> set ?c"
    then have "core l \<in> core ` set leads" using c(2) by blast
    then obtain l' where "l' \<in> set leads" "core l = core l'" by blast
    with assms(2) c(3) l show "lead_ok g l \<and> tokens_of (ld_terminals l) = core_tokens (set leads) (core l)"
      by (auto simp: lead_ok_def core_def lead_variant_def)
  qed
qed

end
