(* ===== verification/Generator_States.thy ===== *)
theory Generator_States
  imports Generator_Props "HOL-Library.Sublist"
begin

section \<open>The states of the generator\<close>

text \<open>
  The invariant of \<open>gather_states\<close>: the leads of every state are closed and agree on the symbols
  that lead to it, the positive positions in a state come from every state that has a transition
  to it, and no two states have the same leads. From it the generation ends, and the only
  assertion that can fail is the one on reduce-reduce conflicts.
\<close>

subsection \<open>The invariant\<close>

text \<open>The symbols before the position, the last one first.\<close>

definition past :: "rules \<Rightarrow> lead \<Rightarrow> symbol list" where
  "past g l = rev (take (ld_position l) (v_elements (lead_variant g l)))"

definition shifted :: "lead \<Rightarrow> lead \<Rightarrow> bool" where
  "shifted l0 l \<longleftrightarrow> ld_rule l = ld_rule l0 \<and> ld_variant l = ld_variant l0 \<and> ld_position l = Suc (ld_position l0)"

definition leads_ok :: "rules \<Rightarrow> nat \<Rightarrow> lead list \<Rightarrow> bool" where
  "leads_ok g i ls \<longleftrightarrow> (\<forall>l\<in>set ls. lead_ok g l) \<and> distinct (map core ls) \<and>
     (\<forall>l\<in>set ls. ld_position l = 0 \<longrightarrow>
        ld_rule l = fst grammar_root \<and> i = 0 \<or> (\<exists>l'\<in>set ls. dot g l' = Some (N (ld_rule l)))) \<and>
     (\<forall>l\<in>set ls. ld_rule l = fst grammar_root \<longrightarrow> tokens_of (ld_terminals l) = {TKN_EOF}) \<and>
     (if i = 0 then \<forall>l\<in>set ls. ld_position l = 0 else \<exists>l\<in>set ls. 0 < ld_position l) \<and>
     (\<exists>h. \<forall>l\<in>set ls. prefix (past g l) h)"

definition edge_ok :: "rules \<Rightarrow> gen_state list \<Rightarrow> nat \<Rightarrow> symbol \<Rightarrow> nat \<Rightarrow> bool" where
  "edge_ok g S i x k \<longleftrightarrow> 0 < k \<and> k < length S \<and> (\<forall>l\<in>set (gs_leads (S ! k)). 0 < ld_position l \<longrightarrow>
     (\<exists>l0\<in>set (gs_leads (S ! i)). dot g l0 = Some x \<and> shifted l0 l))"

definition token_action_ok :: "rules \<Rightarrow> gen_state list \<Rightarrow> nat \<Rightarrow> token_action \<Rightarrow> bool" where
  "token_action_ok g S i a \<longleftrightarrow> (case ta_reduce a of
     None \<Rightarrow> \<exists>t. symbol_ok (T t) \<and> ta_tokens a = token_set_insert token_set_init t \<and> edge_ok g S i (T t) (ta_state a)
   | Some (r, v) \<Rightarrow> \<exists>l\<in>set (gs_leads (S ! i)). ld_rule l = r \<and> ld_variant l = v \<and> dot g l = None \<and>
       ta_tokens a = ld_terminals l)"

definition actions_ok :: "rules \<Rightarrow> gen_state list \<Rightarrow> nat \<Rightarrow> bool" where
  "actions_ok g S i \<longleftrightarrow> (\<forall>a\<in>set (gs_token_actions (S ! i)). token_action_ok g S i a) \<and>
     (\<forall>a\<in>set (gs_rule_actions (S ! i)). edge_ok g S i (N (ra_rule a)) (ra_state a))"

definition states_ok :: "rules \<Rightarrow> gen_state list \<Rightarrow> bool" where
  "states_ok g S \<longleftrightarrow> S \<noteq> [] \<and> distinct (map gs_leads S) \<and>
     (\<forall>i<length S. leads_ok g i (gs_leads (S ! i)) \<and> actions_ok g S i \<and>
        (i = 0 \<or> (\<exists>p<length S. \<exists>x. edge_ok g S p x i)))"

text \<open>The lead has its action: a goto, a shift or a reduction.\<close>

definition handled :: "rules \<Rightarrow> gen_state \<Rightarrow> lead \<Rightarrow> bool" where
  "handled g s l \<longleftrightarrow> (case dot g l of
     Some (N r) \<Rightarrow> \<exists>a\<in>set (gs_rule_actions s). ra_rule a = r
   | Some (T t) \<Rightarrow> \<exists>a\<in>set (gs_token_actions s). ta_reduce a = None \<and> t \<in> tokens_of (ta_tokens a)
   | None \<Rightarrow> \<exists>a\<in>set (gs_token_actions s). ta_reduce a = Some (ld_rule l, ld_variant l) \<and> ta_tokens a = ld_terminals l)"

text \<open>States are only added, and to the old ones only actions.\<close>

definition extends :: "gen_state list \<Rightarrow> gen_state list \<Rightarrow> bool" where
  "extends S S' \<longleftrightarrow> length S \<le> length S' \<and> (\<forall>i<length S. gs_leads (S' ! i) = gs_leads (S ! i) \<and>
     set (gs_token_actions (S ! i)) \<subseteq> set (gs_token_actions (S' ! i)) \<and>
     set (gs_rule_actions (S ! i)) \<subseteq> set (gs_rule_actions (S' ! i)))"

lemma extends_refl: "extends S S"
  by (simp add: extends_def)

lemma extendsD:
  assumes "extends S S'" and "i < length S"
  shows "i < length S'" and "gs_leads (S' ! i) = gs_leads (S ! i)"
    and "set (gs_token_actions (S ! i)) \<subseteq> set (gs_token_actions (S' ! i))"
    and "set (gs_rule_actions (S ! i)) \<subseteq> set (gs_rule_actions (S' ! i))"
  using assms by (auto simp: extends_def)

lemma extends_trans:
  assumes 1: "extends S S'" and 2: "extends S' S''"
  shows "extends S S''"
proof -
  have "length S \<le> length S''" using assms by (simp add: extends_def)
  moreover have "gs_leads (S'' ! i) = gs_leads (S ! i) \<and>
      set (gs_token_actions (S ! i)) \<subseteq> set (gs_token_actions (S'' ! i)) \<and>
      set (gs_rule_actions (S ! i)) \<subseteq> set (gs_rule_actions (S'' ! i))" if "i < length S" for i
    using extendsD [OF 1 that] extendsD [OF 2, of i] by (simp add: subset_trans)
  ultimately show ?thesis by (simp add: extends_def)
qed

lemma extends_handled:
  assumes "extends S S'" and "i < length S" and "handled g (S ! i) l"
  shows "handled g (S' ! i) l"
  using assms(3) extendsD(3,4) [OF assms(1,2)]
  by (cases "dot g l"; cases "the (dot g l)") (auto simp: handled_def)

lemma extends_edge: "extends S S' \<Longrightarrow> i < length S \<Longrightarrow> edge_ok g S i x k \<Longrightarrow> edge_ok g S' i x k"
  unfolding extends_def edge_ok_def by auto

lemma extends_token_action:
  "extends S S' \<Longrightarrow> i < length S \<Longrightarrow> token_action_ok g S i a \<Longrightarrow> token_action_ok g S' i a"
proof (cases "ta_reduce a")
  case (Some rv)
  then show "extends S S' \<Longrightarrow> i < length S \<Longrightarrow> token_action_ok g S i a \<Longrightarrow> token_action_ok g S' i a"
    by (cases rv) (simp add: token_action_ok_def extends_def)
next
  case None
  then show "extends S S' \<Longrightarrow> i < length S \<Longrightarrow> token_action_ok g S i a \<Longrightarrow> token_action_ok g S' i a"
    unfolding token_action_ok_def using extends_edge by fastforce
qed

text \<open>Leads with the same core agree on everything but the tokens.\<close>

lemma core_dot: "core l = core l' \<Longrightarrow> dot g l = dot g l'"
  by (simp add: core_def dot_def lead_variant_def)

lemma core_past: "core l = core l' \<Longrightarrow> past g l = past g l'"
  by (simp add: core_def past_def lead_variant_def)

lemma shifted_past: "shifted l0 l \<Longrightarrow> dot g l0 = Some x \<Longrightarrow> past g l = x # past g l0"
  by (auto simp: shifted_def past_def dot_def lead_variant_def take_Suc_conv_app_nth split: if_splits)

subsection \<open>A new state\<close>

definition shift_lead :: "lead \<Rightarrow> lead" where
  "shift_lead l = l\<lparr>ld_position := ld_position l + 1\<rparr>"

lemma shift_lead_simps:
  "shifted l (shift_lead l)" "0 < ld_position (shift_lead l)" "ld_terminals (shift_lead l) = ld_terminals l"
  "ld_rule (shift_lead l) = ld_rule l"
  by (simp_all add: shift_lead_def shifted_def)

lemma shift_lead_ok: "lead_ok g l \<Longrightarrow> dot g l = Some x \<Longrightarrow> lead_ok g (shift_lead l)"
  by (auto simp: shift_lead_def lead_ok_def dot_def lead_variant_def split: if_splits)

lemma inj_shift_lead: "inj shift_lead"
proof (rule injI)
  fix l k assume "shift_lead l = shift_lead k"
  then show "l = k" by (cases l; cases k) (simp add: shift_lead_def)
qed

text \<open>The closure of shifted leads: its leads at position 0 come from an expansion.\<close>

lemma closure_cases_shift:
  assumes "l \<in> closure g (shift_lead ` L)"
  shows "l \<in> shift_lead ` L \<or> ld_position l = 0 \<and> (\<exists>l'\<in>closure g (shift_lead ` L). expands g l' l)"
  using assms by (cases rule: closure.cases) (auto simp: expands_def)

lemma new_leads_ok:
  assumes g: "rules_ok g" and addr: "addresses_ok addr g" and old: "leads_ok g i ls" and same: "same \<noteq> []"
    "set same \<subseteq> set ls" "\<forall>l\<in>set same. dot g l = Some x"
    and closed: "set closed = closure g (shift_lead ` set same)" and k: "k \<noteq> 0"
  shows "leads_ok g k (consolidate_leads addr closed)"
    and "\<forall>l\<in>set (consolidate_leads addr closed). 0 < ld_position l \<longrightarrow>
      (\<exists>l0\<in>set ls. dot g l0 = Some x \<and> shifted l0 l)"
proof -
  let ?L = "shift_lead ` set same" and ?c = "consolidate_leads addr closed"
  have L_ok: "\<forall>l\<in>?L. lead_ok g l"
    using old same(2,3) shift_lead_ok by (auto simp: leads_ok_def)
  then have closed_ok: "\<forall>l\<in>set closed. lead_ok g l" unfolding closed using closure_lead_ok by blast
  note c = consolidate_leads_spec [OF addr closed_ok]
  have from_c: "\<exists>l'\<in>closure g ?L. core l = core l'" if "l \<in> set ?c" for l
    using c(2) that unfolding closed by (metis imageE imageI)
  have to_c: "\<exists>l'\<in>set ?c. core l' = core l" if "l \<in> closure g ?L" for l
    using c(2) that unfolding closed by (metis imageE imageI)
  have kernel: "\<exists>l0\<in>set same. shifted l0 l \<and> core l = core (shift_lead l0)" if l: "l \<in> set ?c" "0 < ld_position l" for l
  proof -
    obtain l' where l': "l' \<in> closure g ?L" "core l = core l'" using from_c [OF l(1)] by blast
    with l(2) have "l' \<in> ?L" using closure_cases_shift [OF l'(1)] by (auto simp: core_def)
    with l'(2) show ?thesis using shift_lead_simps(1) by (fastforce simp: core_def shifted_def)
  qed
  show kern: "\<forall>l\<in>set ?c. 0 < ld_position l \<longrightarrow> (\<exists>l0\<in>set ls. dot g l0 = Some x \<and> shifted l0 l)"
    using kernel same(2,3) by blast
  obtain h where h: "\<forall>l\<in>set ls. prefix (past g l) h" using old by (auto simp: leads_ok_def)
  have root: "tokens_of (ld_terminals l) = {TKN_EOF}" if l: "l \<in> set ?c" "ld_rule l = fst grammar_root" for l
  proof -
    have "tokens_of (ld_terminals l') = {TKN_EOF}" if l': "l' \<in> closure g ?L" "core l' = core l" for l'
    proof -
      have r: "ld_rule l' = fst grammar_root" using l'(2) l(2) by (simp add: core_def)
      have "\<not> expands g l'' l'" if "l'' \<in> closure g ?L" for l''
        using dot_symbol_ok [OF g closure_lead_ok [OF that L_ok]] r by (auto simp: expands_def symbol_ok_def)
      then have "l' \<in> ?L" using closure_cases_shift [OF l'(1)] by blast
      with r old same(2) show ?thesis by (auto simp: leads_ok_def shift_lead_simps)
    qed
    moreover have "\<exists>l'\<in>closure g ?L. core l' = core l" using from_c [OF l(1)] by force
    moreover have "tokens_of (ld_terminals l) = core_tokens (closure g ?L) (core l)" using c(3) l(1) closed by simp
    ultimately show ?thesis by (auto simp: core_tokens_def)
  qed
  show "leads_ok g k ?c"
    unfolding leads_ok_def
  proof (intro conjI ballI impI)
    show "lead_ok g l" if "l \<in> set ?c" for l using c(3) that by blast
    show "distinct (map core ?c)" by (rule c(1))
    show "ld_rule l = fst grammar_root \<and> k = 0 \<or> (\<exists>l'\<in>set ?c. dot g l' = Some (N (ld_rule l)))"
      if l: "l \<in> set ?c" "ld_position l = 0" for l
    proof -
      obtain l' where l': "l' \<in> closure g ?L" "core l = core l'" using from_c [OF l(1)] by blast
      have "ld_position l' = 0" using l(2) l'(2) by (simp add: core_def)
      then have "l' \<notin> ?L" using shift_lead_simps(2) by (metis imageE less_irrefl)
      then obtain l'' where l'': "l'' \<in> closure g ?L" "expands g l'' l'"
        using closure_cases_shift [OF l'(1)] by blast
      then obtain m where "m \<in> set ?c" "core m = core l''" using to_c by blast
      moreover have "dot g l'' = Some (N (ld_rule l))" using l''(2) l'(2) by (simp add: expands_def core_def)
      ultimately show ?thesis using core_dot by metis
    qed
    show "tokens_of (ld_terminals l) = {TKN_EOF}" if "l \<in> set ?c" "ld_rule l = fst grammar_root" for l
      using root that by blast
    show "if k = 0 then \<forall>l\<in>set ?c. ld_position l = 0 else \<exists>l\<in>set ?c. 0 < ld_position l"
    proof -
      obtain l0 where "l0 \<in> set same" using same(1) by (cases same) auto
      then have "shift_lead l0 \<in> closure g ?L" by (intro closure_base) simp
      then obtain l where "l \<in> set ?c" "core l = core (shift_lead l0)" using to_c by blast
      moreover from this have "0 < ld_position l" using shift_lead_simps(2) [of l0] by (simp add: core_def)
      ultimately show ?thesis using k by auto
    qed
    show "\<exists>h. \<forall>l\<in>set ?c. prefix (past g l) h"
    proof (intro exI ballI)
      fix l assume l: "l \<in> set ?c"
      show "prefix (past g l) (x # h)"
      proof (cases "ld_position l = 0")
        case False
        with kern l obtain l0 where "l0 \<in> set ls" "dot g l0 = Some x" "shifted l0 l" by blast
        with h shifted_past show ?thesis by fastforce
      qed (simp add: past_def)
    qed
  qed
qed

subsection \<open>Adding actions and states\<close>

lemma add_token_action_simps:
  assumes "i < length S"
  shows "length (add_token_action i a S) = length S"
    and "map gs_leads (add_token_action i a S) = map gs_leads S"
    and "extends S (add_token_action i a S)"
    and "set (gs_token_actions (add_token_action i a S ! k)) =
      (if k = i then insert a (set (gs_token_actions (S ! k))) else set (gs_token_actions (S ! k)))"
    and "gs_rule_actions (add_token_action i a S ! k) = gs_rule_actions (S ! k)"
    and "gs_leads (add_token_action i a S ! k) = gs_leads (S ! k)"
  using assms by (auto simp: add_token_action_def extends_def nth_list_update map_update list_update_same_conv)

lemma add_rule_action_simps:
  assumes "i < length S"
  shows "length (add_rule_action i a S) = length S"
    and "map gs_leads (add_rule_action i a S) = map gs_leads S"
    and "extends S (add_rule_action i a S)"
    and "set (gs_rule_actions (add_rule_action i a S ! k)) =
      (if k = i then insert a (set (gs_rule_actions (S ! k))) else set (gs_rule_actions (S ! k)))"
    and "gs_token_actions (add_rule_action i a S ! k) = gs_token_actions (S ! k)"
    and "gs_leads (add_rule_action i a S ! k) = gs_leads (S ! k)"
  using assms by (auto simp: add_rule_action_def extends_def nth_list_update map_update list_update_same_conv)

text \<open>Lists of states with the same leads and more actions, all of them right.\<close>

lemma states_ok_actions:
  assumes ok: "states_ok g S" and leads: "map gs_leads S' = map gs_leads S"
    and acts: "\<forall>i<length S. actions_ok g S' i"
  shows "states_ok g S'"
proof -
  have len: "length S' = length S" using arg_cong [OF leads, of length] by simp
  have same: "gs_leads (S' ! i) = gs_leads (S ! i)" if "i < length S" for i
    using arg_cong [OF leads, of "\<lambda>xs. xs ! i"] that len by simp
  have "edge_ok g S' p x i" if "p < length S" "edge_ok g S p x i" for p x i
    using that same len by (simp add: edge_ok_def)
  with ok acts same leads len show ?thesis unfolding states_ok_def by (metis length_0_conv)
qed

lemma states_ok_add_token_action:
  assumes "states_ok g S" and "i < length S" and "token_action_ok g S i a"
  shows "states_ok g (add_token_action i a S)"
proof -
  let ?S = "add_token_action i a S"
  note add = add_token_action_simps [OF assms(2), of a]
  have "token_action_ok g ?S k b" if "k < length S" "b \<in> set (gs_token_actions (?S ! k))" for k b
    using that assms add extends_token_action [OF add(3)] by (auto simp: states_ok_def actions_ok_def split: if_splits)
  moreover have "edge_ok g ?S k (N (ra_rule b)) (ra_state b)" if "k < length S" "b \<in> set (gs_rule_actions (?S ! k))" for k b
    using that assms(1) add(5) extends_edge [OF add(3)] by (auto simp: states_ok_def actions_ok_def)
  ultimately show ?thesis by (intro states_ok_actions [OF assms(1) add(2)]) (simp add: actions_ok_def)
qed

lemma states_ok_add_rule_action:
  assumes "states_ok g S" and "i < length S" and "edge_ok g S i (N (ra_rule a)) (ra_state a)"
  shows "states_ok g (add_rule_action i a S)"
proof -
  let ?S = "add_rule_action i a S"
  note add = add_rule_action_simps [OF assms(2), of a]
  have "token_action_ok g ?S k b" if "k < length S" "b \<in> set (gs_token_actions (?S ! k))" for k b
    using that assms(1) add(5) extends_token_action [OF add(3)] by (auto simp: states_ok_def actions_ok_def)
  moreover have "edge_ok g ?S k (N (ra_rule b)) (ra_state b)" if "k < length S" "b \<in> set (gs_rule_actions (?S ! k))" for k b
    using that assms add extends_edge [OF add(3)] by (auto simp: states_ok_def actions_ok_def split: if_splits)
  ultimately show ?thesis by (intro states_ok_actions [OF assms(1) add(2)]) (simp add: actions_ok_def)
qed

lemma equal_set_of_leads_iff:
  "\<forall>l\<in>set ls. lead_ok g l \<Longrightarrow> \<forall>l\<in>set ks. lead_ok g l \<Longrightarrow> equal_set_of_leads ls ks \<longleftrightarrow> ls = ks"
proof (induction ls arbitrary: ks)
  case (Cons l ls)
  then show ?case by (cases ks) (auto simp: equal_set_of_leads_def equal_leads_iff)
qed (auto simp: equal_set_of_leads_def)

lemma find_state_Some:
  "find_state ls k S = Some n \<Longrightarrow> k \<le> n \<and> n - k < length S \<and> equal_set_of_leads ls (gs_leads (S ! (n - k)))"
proof (induction ls k S rule: find_state.induct)
  case (2 ls k s S)
  show ?case
  proof (cases "equal_set_of_leads ls (gs_leads s)")
    case False
    with 2 have "Suc k \<le> n \<and> n - Suc k < length S \<and> equal_set_of_leads ls (gs_leads (S ! (n - Suc k)))" by simp
    moreover then have "n - k = Suc (n - Suc k)" by linarith
    ultimately show ?thesis by auto
  qed (use 2 in simp)
qed simp

lemma find_state_None: "find_state ls k S = None \<Longrightarrow> \<forall>s\<in>set S. \<not> equal_set_of_leads ls (gs_leads s)"
  by (induction ls k S rule: find_state.induct) (auto split: if_splits)

lemma enter_state_ok:
  assumes ok: "states_ok g S" and i: "i < length S"
    and ls: "\<And>k. k \<noteq> 0 \<Longrightarrow> leads_ok g k ls"
    and edge: "\<forall>l\<in>set ls. 0 < ld_position l \<longrightarrow> (\<exists>l0\<in>set (gs_leads (S ! i)). dot g l0 = Some x \<and> shifted l0 l)"
    and enter: "enter_state ls S = (k, S')"
  shows "states_ok g S'" and "extends S S'" and "edge_ok g S' i x k"
proof -
  have ls1: "leads_ok g 1 ls" by (rule ls) simp
  then have lead: "\<forall>l\<in>set ls. lead_ok g l" by (simp add: leads_ok_def)
  have lead_S: "\<forall>l\<in>set (gs_leads s). lead_ok g l" if "s \<in> set S" for s
    using that ok by (auto simp: in_set_conv_nth states_ok_def leads_ok_def)
  have "states_ok g S' \<and> extends S S' \<and> edge_ok g S' i x k"
  proof (cases "find_state ls 0 S")
    case (Some n)
    then have n: "n = k" "S' = S" using enter by (simp_all add: enter_state_def)
    have k: "k < length S" "equal_set_of_leads ls (gs_leads (S ! k))"
      using find_state_Some [OF Some] n by simp_all
    then have eq: "gs_leads (S ! k) = ls"
      using equal_set_of_leads_iff [OF lead lead_S [OF nth_mem [OF k(1)]]] by simp
    have "k \<noteq> 0"
    proof
      assume "k = 0"
      then have "\<forall>l\<in>set ls. ld_position l = 0" using ok k(1) eq by (auto simp: states_ok_def leads_ok_def)
      with ls1 show False by (auto simp: leads_ok_def)
    qed
    with ok k(1) eq edge n(2) show ?thesis by (simp add: edge_ok_def extends_refl)
  next
    case None
    let ?s = "\<lparr>gs_leads = ls, gs_token_actions = [], gs_rule_actions = []\<rparr>"
    have S': "k = length S" "S' = S @ [?s]" using enter None by (simp_all add: enter_state_def)
    have ext: "extends S S'" by (simp add: S'(2) extends_def nth_append)
    have edge': "edge_ok g S' i x k" using edge i ok by (auto simp: edge_ok_def S' nth_append states_ok_def)
    have "ls \<notin> set (map gs_leads S)"
    proof
      assume "ls \<in> set (map gs_leads S)"
      then obtain s where s: "s \<in> set S" "gs_leads s = ls" by auto
      then have "equal_set_of_leads ls (gs_leads s)"
        using equal_set_of_leads_iff [OF lead lead_S [OF s(1)]] by simp
      with find_state_None [OF None] s(1) show False by blast
    qed
    then have "distinct (map gs_leads S')" using ok by (simp add: S'(2) states_ok_def)
    moreover have "leads_ok g j (gs_leads (S' ! j)) \<and> actions_ok g S' j \<and>
        (j = 0 \<or> (\<exists>p<length S'. \<exists>x. edge_ok g S' p x j))" if j: "j < length S'" for j
    proof (cases "j = length S")
      case True
      have "j \<noteq> 0" using True ok by (simp add: states_ok_def)
      moreover have "edge_ok g S' i x j" using edge' True S'(1) by simp
      moreover have "i < length S'" using i S'(2) by simp
      ultimately show ?thesis using ls True S'(2) by (auto simp: actions_ok_def)
    next
      case False
      with j have j': "j < length S" by (simp add: S'(2))
      have same: "S' ! j = S ! j" using j' by (simp add: S'(2) nth_append)
      have "actions_ok g S' j"
        using ok j' same extends_token_action [OF ext j'] extends_edge [OF ext j']
        by (simp add: states_ok_def actions_ok_def)
      moreover have "j = 0 \<or> (\<exists>p<length S'. \<exists>x. edge_ok g S' p x j)"
        using ok j' extends_edge [OF ext] by (metis S'(2) length_append_singleton less_Suc_eq states_ok_def)
      ultimately show ?thesis using ok j' same by (simp add: states_ok_def)
    qed
    ultimately show ?thesis using ext edge' by (simp add: states_ok_def S'(2))
  qed
  then show "states_ok g S'" "extends S S'" "edge_ok g S' i x k" by simp_all
qed

subsection \<open>The loops\<close>

abbreviation (input) conflict :: "gen_state list res option" where
  "conflict \<equiv> Some (Inl (Assert_Failed ''reduce-reduce conflict''))"

text \<open>There is at most one lead to reduce.\<close>

definition one_reduction :: "rules \<Rightarrow> lead list \<Rightarrow> bool" where
  "one_reduction g ls \<longleftrightarrow> (\<forall>l\<in>set ls. \<forall>l'\<in>set ls. dot g l = None \<longrightarrow> dot g l' = None \<longrightarrow> l = l')"

lemma one_reduction_split:
  assumes "set ls = set same \<union> set rest" and "\<forall>l\<in>set same. dot g l = x" and "\<forall>l\<in>set rest. dot g l \<noteq> x"
    and "one_reduction g same" and "one_reduction g rest"
  shows "one_reduction g ls"
  using assms unfolding one_reduction_def by (metis Un_iff)

lemma gather_symbol_ok:
  assumes g: "rules_ok g" and addr: "addresses_ok addr g" and ok: "states_ok g S" and i: "i < length S"
    and same: "same \<noteq> []" "set same \<subseteq> set (gs_leads (S ! i))" "distinct same" "\<forall>l\<in>set same. dot g l = symb"
  shows "gather_symbol addr g i symb same S = conflict \<or> (\<exists>S'. gather_symbol addr g i symb same S = Some (Inr S') \<and>
    states_ok g S' \<and> extends S S' \<and> (\<forall>l\<in>set same. handled g (S' ! i) l) \<and> one_reduction g same)"
proof (cases symb)
  case None
  show ?thesis
  proof (cases "length same \<le> 1")
    case True
    with same(1) obtain l where l: "same = [l]" by (cases same) auto
    let ?S = "add_token_action i (reduce_action l) S"
    have r: "token_action_ok g S i (reduce_action l)"
      using l None same(2,4) by (auto simp: token_action_ok_def reduce_action_def)
    have "handled g (?S ! i) l"
      using l None same(4) add_token_action_simps(4) [OF i] by (auto simp: handled_def reduce_action_def)
    then show ?thesis
      using l None states_ok_add_token_action [OF ok i r] add_token_action_simps(3) [OF i]
      by (simp add: gather_symbol_def Let_def one_reduction_def)
  qed (use None same(1) in \<open>simp add: gather_symbol_def Let_def\<close>)
next
  case (Some x)
  let ?shift = "map shift_lead same"
  have one: "one_reduction g same" using same(4) Some by (simp add: one_reduction_def)
  have old: "leads_ok g i (gs_leads (S ! i))" using ok i by (simp add: states_ok_def)
  have x: "symbol_ok x"
    using dot_symbol_ok [OF g] old same Some by (cases same) (auto simp: leads_ok_def)
  have shift_ok: "\<forall>l\<in>set ?shift. lead_ok g l"
    using old same(2,4) Some shift_lead_ok by (auto simp: leads_ok_def)
  have "distinct ?shift" using same(3) inj_shift_lead by (simp add: distinct_map inj_on_def inj_def)
  then obtain closed where closed: "gather_leads g ?shift 0 (length ?shift) = Some (Inr closed)"
    "set closed = closure g (shift_lead ` set same)"
    using gather_leads_spec [OF g shift_ok, of 0 "length ?shift"] same(1) by auto
  have same_x: "\<forall>l\<in>set same. dot g l = Some x" using same(4) Some by simp
  note new = new_leads_ok(1) [OF g addr old same(1,2) same_x closed(2)]
    new_leads_ok(2) [OF g addr old same(1,2) same_x closed(2) zero_neq_one [symmetric]]
  obtain k S2 where enter: "enter_state (consolidate_leads addr closed) S = (k, S2)" by fastforce
  have e: "states_ok g S2" "extends S S2" "edge_ok g S2 i x k"
    using enter_state_ok [OF ok i new enter] by blast+
  have i2: "i < length S2" using extendsD(1) [OF e(2) i] .
  have lam: "map (\<lambda>l. l\<lparr>ld_position := Suc (ld_position l)\<rparr>) same = ?shift" by (simp add: shift_lead_def)
  show ?thesis
  proof (cases x)
    case (N r)
    let ?S = "add_rule_action i \<lparr>ra_rule = r, ra_state = k\<rparr> S2"
    have "gather_symbol addr g i symb same S = Some (Inr ?S)"
      using Some N closed(1) enter same(1) by (simp add: gather_symbol_def Let_def lam)
    moreover have "states_ok g ?S" using e(3) N by (intro states_ok_add_rule_action [OF e(1) i2]) simp
    moreover have "extends S ?S" using extends_trans [OF e(2) add_rule_action_simps(3) [OF i2]] .
    moreover have "\<forall>l\<in>set same. handled g (?S ! i) l"
      using same(4) Some N add_rule_action_simps(4) [OF i2] by (simp add: handled_def)
    ultimately show ?thesis using one by blast
  next
    case (T t)
    let ?a = "\<lparr>ta_tokens = token_set_insert token_set_init t, ta_reduce = None, ta_state = k\<rparr>"
    let ?S = "add_token_action i ?a S2"
    have "gather_symbol addr g i symb same S = Some (Inr ?S)"
      using Some T closed(1) enter same(1) by (simp add: gather_symbol_def Let_def lam)
    moreover have "states_ok g ?S"
      using e(3) T x by (intro states_ok_add_token_action [OF e(1) i2]) (auto simp: token_action_ok_def)
    moreover have "extends S ?S" using extends_trans [OF e(2) add_token_action_simps(3) [OF i2]] .
    moreover have "\<forall>l\<in>set same. handled g (?S ! i) l"
      using same(4) Some T add_token_action_simps(4) [OF i2] symbol_ok_token [OF x [unfolded T]]
      by (simp add: handled_def)
    ultimately show ?thesis using one by blast
  qed
qed

lemma gather_symbols_ok:
  assumes g: "rules_ok g" and addr: "addresses_ok addr g"
  shows "states_ok g S \<Longrightarrow> i < length S \<Longrightarrow> set leads \<subseteq> set (gs_leads (S ! i)) \<Longrightarrow> distinct leads \<Longrightarrow>
    gather_symbols addr g i leads S = conflict \<or> (\<exists>S'. gather_symbols addr g i leads S = Some (Inr S') \<and>
    states_ok g S' \<and> extends S S' \<and> (\<forall>l\<in>set leads. handled g (S' ! i) l) \<and> one_reduction g leads)"
proof (induction "length leads" arbitrary: leads S rule: less_induct)
  case less
  show ?case
  proof (cases leads)
    case Nil
    with less.prems(1) show ?thesis by (simp add: extends_refl one_reduction_def)
  next
    case (Cons base rest)
    have "leads_ok g i (gs_leads (S ! i))" using less.prems(1,2) by (simp add: states_ok_def)
    then have lead: "lead_ok g l" if "l \<in> set leads" for l using less.prems(3) that by (auto simp: leads_ok_def)
    then have next_is: "next_symbol g l = Inr (dot g l)" if "l \<in> set leads" for l using that next_symbol_dot by blast
    let ?same = "base # filter (\<lambda>l. next_symbol g l = Inr (dot g base)) rest"
    let ?rest = "filter (\<lambda>l. next_symbol g l \<noteq> Inr (dot g base)) rest"
    have no_ex: "\<not> list_ex (\<lambda>l. \<not> returns (next_symbol g l)) rest" using next_is Cons by (auto simp: list_ex_iff)
    have same_in: "set ?same \<subseteq> set (gs_leads (S ! i))" using less.prems(3) Cons by auto
    have same_d: "distinct ?same" using less.prems(4) Cons by auto
    have same_dot: "\<forall>l\<in>set ?same. dot g l = dot g base" using next_is Cons by auto
    from gather_symbol_ok [OF g addr less.prems(1,2) _ same_in same_d same_dot]
    consider (conf) "gather_symbol addr g i (dot g base) ?same S = conflict"
      | (ok) S1 where "gather_symbol addr g i (dot g base) ?same S = Some (Inr S1)" "states_ok g S1" "extends S S1"
        "\<forall>l\<in>set ?same. handled g (S1 ! i) l" "one_reduction g ?same" by blast
    then show ?thesis
    proof cases
      case conf
      then show ?thesis using next_is [of base] no_ex Cons by simp
    next
      case ok
      have step: "gather_symbols addr g i leads S = gather_symbols addr g i ?rest S1"
        using next_is [of base] no_ex ok(1) Cons by simp
      have i1: "i < length S1" using extendsD(1) [OF ok(3) less.prems(2)] .
      have "length ?rest < length leads" using Cons by (simp add: less_Suc_eq_le)
      moreover have "set ?rest \<subseteq> set (gs_leads (S1 ! i))"
        using less.prems(3) extendsD(2) [OF ok(3) less.prems(2)] Cons by auto
      moreover have "distinct ?rest" using less.prems(4) Cons by simp
      ultimately have "gather_symbols addr g i ?rest S1 = conflict \<or> (\<exists>S'. gather_symbols addr g i ?rest S1 = Some (Inr S') \<and>
          states_ok g S' \<and> extends S1 S' \<and> (\<forall>l\<in>set ?rest. handled g (S' ! i) l) \<and> one_reduction g ?rest)"
        using less.hyps ok(2) i1 by blast
      moreover have all: "set leads = set ?same \<union> set ?rest" using Cons by auto
      moreover have "\<forall>l\<in>set ?rest. dot g l \<noteq> dot g base" using next_is Cons by auto
      note one = one_reduction_split [OF all same_dot this ok(5)]
      ultimately show ?thesis using step extends_trans [OF ok(3)] extends_handled [OF _ i1] ok(4) one by (metis Un_iff)
    qed
  qed
qed

definition complete :: "rules \<Rightarrow> gen_state list \<Rightarrow> nat \<Rightarrow> bool" where
  "complete g S i \<longleftrightarrow> (\<forall>l\<in>set (gs_leads (S ! i)). handled g (S ! i) l) \<and> one_reduction g (gs_leads (S ! i))"

lemma extends_complete: "extends S S' \<Longrightarrow> i < length S \<Longrightarrow> complete g S i \<Longrightarrow> complete g S' i"
  unfolding complete_def using extends_handled extendsD(2) by metis

lemma gather_range_ok:
  assumes g: "rules_ok g" and addr: "addresses_ok addr g"
  shows "states_ok g S \<Longrightarrow> \<forall>i\<in>set is. i < length S \<Longrightarrow>
    gather_range addr g is S = conflict \<or> (\<exists>S'. gather_range addr g is S = Some (Inr S') \<and>
    states_ok g S' \<and> extends S S' \<and> (\<forall>i\<in>set is. complete g S' i))"
proof (induction "is" arbitrary: S)
  case (Cons i "is")
  have "distinct (map core (gs_leads (S ! i)))" using Cons.prems by (simp add: states_ok_def leads_ok_def)
  then have d: "distinct (gs_leads (S ! i))" by (rule conjunct1 [OF iffD1 [OF distinct_map]])
  have i: "i < length S" using Cons.prems(2) by simp
  from gather_symbols_ok [OF g addr Cons.prems(1) i subset_refl d]
  consider (conf) "gather_symbols addr g i (gs_leads (S ! i)) S = conflict"
    | (ok) S1 where "gather_symbols addr g i (gs_leads (S ! i)) S = Some (Inr S1)" "states_ok g S1" "extends S S1"
      "\<forall>l\<in>set (gs_leads (S ! i)). handled g (S1 ! i) l" "one_reduction g (gs_leads (S ! i))" by blast
  then show ?case
  proof cases
    case ok
    have "\<forall>j\<in>set is. j < length S1" using Cons.prems(2) extendsD(1) [OF ok(3)] by simp
    from Cons.IH [OF ok(2) this]
    consider (conf) "gather_range addr g is S1 = conflict"
      | (more) S2 where "gather_range addr g is S1 = Some (Inr S2)" "states_ok g S2" "extends S1 S2"
        "\<forall>i\<in>set is. complete g S2 i" by blast
    then show ?thesis
    proof cases
      case more
      have "complete g S1 i" using ok(4,5) extendsD(2) [OF ok(3)] Cons.prems(2) by (simp add: complete_def)
      then have "complete g S2 i" using extends_complete [OF more(3)] extendsD(1) [OF ok(3)] Cons.prems(2) by simp
      with more ok extends_trans [OF ok(3) more(3)] show ?thesis by simp
    qed (use ok in simp)
  qed simp
qed (simp add: extends_refl)

lemma finite_lead_lists: "finite {ls. set ls \<subseteq> {l. lead_ok g l} \<and> distinct ls}"
proof (rule finite_subset)
  show "finite {ls. set ls \<subseteq> {l. lead_ok g l} \<and> length ls \<le> card {l. lead_ok g l}}"
    by (rule finite_lists_length_le [OF finite_leads])
  show "{ls. set ls \<subseteq> {l. lead_ok g l} \<and> distinct ls} \<subseteq>
      {ls. set ls \<subseteq> {l. lead_ok g l} \<and> length ls \<le> card {l. lead_ok g l}}"
  proof (intro subsetI, unfold mem_Collect_eq, intro conjI)
    fix ls assume "set ls \<subseteq> {l. lead_ok g l} \<and> distinct ls"
    then have ls: "set ls \<subseteq> {l. lead_ok g l}" "distinct ls" by simp_all
    show "set ls \<subseteq> {l. lead_ok g l}" by (rule ls(1))
    show "length ls \<le> card {l. lead_ok g l}"
      using card_mono [OF finite_leads ls(1)] distinct_card [OF ls(2)] by simp
  qed
qed

text \<open>The recursion on the new states ends, since there are finitely many sets of leads.\<close>

lemma gather_states_ok:
  assumes g: "rules_ok g" and addr: "addresses_ok addr g"
  shows "states_ok g S \<Longrightarrow> index < length S \<Longrightarrow> index + len = length S \<Longrightarrow> \<forall>i<index. complete g S i \<Longrightarrow>
    gather_states addr g S index len = conflict \<or> (\<exists>S'. gather_states addr g S index len = Some (Inr S') \<and>
    states_ok g S' \<and> extends S S' \<and> (\<forall>i<length S'. complete g S' i))"
proof (induction "card ({ls. set ls \<subseteq> {l. lead_ok g l} \<and> distinct ls} - set (map gs_leads S))"
    arbitrary: S index len rule: less_induct)
  case less
  let ?U = "{ls. set ls \<subseteq> {l. lead_ok g l} \<and> distinct ls}"
  have unfold: "gather_states addr g S index len = (case gather_range addr g [index..<index + len] S of
      None \<Rightarrow> None
    | Some (Inl e) \<Rightarrow> Some (Inl e)
    | Some (Inr S') \<Rightarrow> if length S < length S' then gather_states addr g S' (length S) (length S' - length S)
        else Some (Inr S'))"
    using less.prems(2,3) by (simp add: gather_states.simps [of addr g S index])
  from gather_range_ok [OF g addr less.prems(1), of "[index..<index + len]"] less.prems(3)
  consider (conf) "gather_range addr g [index..<index + len] S = conflict"
    | (ok) S1 where "gather_range addr g [index..<index + len] S = Some (Inr S1)" "states_ok g S1" "extends S S1"
      "\<forall>i\<in>{index..<index + len}. complete g S1 i" by auto
  then show ?case
  proof cases
    case conf
    with unfold show ?thesis by simp
  next
    case ok
    have done_S: "complete g S1 i" if "i < length S" for i
      using ok(4) less.prems(3,4) extends_complete [OF ok(3) that] that by (cases "i < index") auto
    show ?thesis
    proof (cases "length S < length S1")
      case False
      then have "length S1 = length S" using ok(3) by (simp add: extends_def)
      with unfold ok done_S False show ?thesis by simp
    next
      case True
      let ?new = "gs_leads (S1 ! length S)"
      have maps: "take (length S) (map gs_leads S1) = map gs_leads S"
        using ok(3) True by (intro nth_equalityI) (simp_all add: extends_def)
      have "distinct (map gs_leads S1)" using ok(2) by (simp add: states_ok_def)
      then have "?new \<notin> set (take (length S) (map gs_leads S1))"
        using True by (auto simp: in_set_conv_nth distinct_conv_nth)
      then have "?new \<notin> set (map gs_leads S)" unfolding maps .
      moreover have "?new \<in> ?U"
        using ok(2) True by (auto simp: states_ok_def leads_ok_def dest: distinct_map [THEN iffD1])
      moreover have "?new \<in> set (map gs_leads S1)" using True by simp
      moreover have "set (map gs_leads S) \<subseteq> set (map gs_leads S1)" using set_take_subset maps by metis
      ultimately have "?U - set (map gs_leads S1) \<subset> ?U - set (map gs_leads S)" by blast
      then have lt: "card (?U - set (map gs_leads S1)) < card (?U - set (map gs_leads S))"
        by (rule psubset_card_mono [OF finite_Diff [OF finite_lead_lists]])
      have "gather_states addr g S1 (length S) (length S1 - length S) = conflict \<or>
          (\<exists>S'. gather_states addr g S1 (length S) (length S1 - length S) = Some (Inr S') \<and>
          states_ok g S' \<and> extends S1 S' \<and> (\<forall>i<length S'. complete g S' i))"
        using True done_S by (intro less.hyps [OF lt ok(2)]) simp_all
      with unfold ok(1) True extends_trans [OF ok(3)] show ?thesis by auto
    qed
  qed
qed

end
