(* ===== verification/Generator_Tables.thy ===== *)
theory Generator_Tables
  imports Generator_States Parser_Props
begin

section \<open>The table of the generator\<close>

text \<open>
  The generator builds the states of a grammar from its root, numbers the rules as it prints
  them, and the table it prints is one the parser is sound with: \<open>table_ok\<close> of \<open>Parser_Props\<close>.
\<close>

subsection \<open>All states\<close>

lemma root_lead_ok: "rules_ok g \<Longrightarrow> lead_ok g root_lead"
  by (simp add: lead_ok_def root_lead_def rules_ok_def rule_variants_def lead_variant_def grammar_root_def)

lemma root_variant: "rules_ok g \<Longrightarrow> rule_variants g (fst grammar_root) = snd grammar_root"
  by (simp add: rules_ok_def rule_variants_def)

lemma root_lead_simps:
  "ld_rule root_lead = fst grammar_root" "ld_position root_lead = 0"
  "tokens_of (ld_terminals root_lead) = {TKN_EOF}"
  by (simp_all add: root_lead_def TOKEN_WORDS)

lemma closure_root_cases:
  assumes "l \<in> closure g {root_lead}"
  shows "ld_position l = 0" and "l = root_lead \<or> (\<exists>l'\<in>closure g {root_lead}. expands g l' l)"
  using assms by (cases rule: closure.cases; auto simp: expands_def root_lead_simps)+

lemma initial_leads_ok:
  assumes g: "rules_ok g" and addr: "addresses_ok addr g" and closed: "set closed = closure g {root_lead}"
  shows "leads_ok g 0 (consolidate_leads addr closed)"
proof -
  let ?L = "closure g {root_lead}" and ?c = "consolidate_leads addr closed"
  have "\<forall>l\<in>set closed. lead_ok g l" using closure_lead_ok [of _ g "{root_lead}"] root_lead_ok [OF g] closed by simp
  note c = consolidate_leads_spec [OF addr this]
  have cores: "core ` set ?c = core ` ?L" using c(2) closed by simp
  have from_c: "\<exists>l'\<in>?L. core l = core l'" if "l \<in> set ?c" for l
    using imageI [OF that, of core] unfolding cores by (simp add: image_iff)
  have to_c: "\<exists>l'\<in>set ?c. core l' = core l" if "l \<in> ?L" for l
    using imageI [OF that, of core] unfolding cores [symmetric] by (auto simp: image_iff)
  have no_root: "ld_rule l \<noteq> fst grammar_root" if "l' \<in> ?L" "expands g l' l" for l l'
    using dot_symbol_ok [OF g closure_lead_ok [OF that(1)]] root_lead_ok [OF g] that(2)
    by (auto simp: expands_def symbol_ok_def)
  have pos: "ld_position l = 0" if "l \<in> set ?c" for l
    using from_c [OF that] closure_root_cases(1) by (auto simp: core_def)
  show ?thesis
    unfolding leads_ok_def
  proof (intro conjI ballI impI)
    show "lead_ok g l" if "l \<in> set ?c" for l using c(3) that by blast
    show "distinct (map core ?c)" by (rule c(1))
    show "ld_rule l = fst grammar_root \<and> (0::nat) = 0 \<or> (\<exists>l'\<in>set ?c. dot g l' = Some (N (ld_rule l)))"
      if l: "l \<in> set ?c" for l
    proof -
      obtain l' where l': "l' \<in> ?L" "core l = core l'" using from_c [OF l] by blast
      consider "l' = root_lead" | l'' where "l'' \<in> ?L" "expands g l'' l'"
        using closure_root_cases(2) [OF l'(1)] by blast
      then show ?thesis
      proof cases
        case 1
        with l'(2) show ?thesis by (simp add: core_def root_lead_simps)
      next
        case 2
        then obtain m where "m \<in> set ?c" "core m = core l''" using to_c by blast
        moreover have "dot g l'' = Some (N (ld_rule l))" using 2(2) l'(2) by (simp add: expands_def core_def)
        ultimately show ?thesis using core_dot by metis
      qed
    qed
    show "tokens_of (ld_terminals l) = {TKN_EOF}" if l: "l \<in> set ?c" "ld_rule l = fst grammar_root" for l
    proof -
      have "l' = root_lead" if "l' \<in> ?L" "core l' = core l" for l'
        using closure_root_cases(2) [OF that(1)] no_root that(2) l(2) by (auto simp: core_def)
      moreover have "\<exists>l'\<in>?L. core l' = core l" using from_c [OF l(1)] by force
      moreover have "tokens_of (ld_terminals l) = core_tokens ?L (core l)" using c(3) l(1) closed by simp
      ultimately have "core_tokens ?L (core l) = tokens_of (ld_terminals root_lead)"
        unfolding core_tokens_def by (intro equalityI subsetI) (blast+)
      with \<open>tokens_of (ld_terminals l) = core_tokens ?L (core l)\<close> show ?thesis by (simp add: root_lead_simps)
    qed
    show "if (0::nat) = 0 then \<forall>l\<in>set ?c. ld_position l = 0 else \<exists>l\<in>set ?c. 0 < ld_position l" using pos by simp
    show "\<exists>h. \<forall>l\<in>set ?c. prefix (past g l) h" using pos by (simp add: past_def)
  qed
qed

lemma build_states_ok:
  assumes g: "rules_ok g" and addr: "addresses_ok addr g"
  shows "build_states addr g = conflict \<or> (\<exists>S. build_states addr g = Some (Inr S) \<and> states_ok g S \<and>
    (\<forall>i<length S. complete g S i))"
proof -
  obtain closed where closed: "gather_leads g [root_lead] 0 1 = Some (Inr closed)" "set closed = closure g {root_lead}"
    using gather_leads_spec [OF g, of "[root_lead]" 0 1] root_lead_ok [OF g] by auto
  let ?S = "[\<lparr>gs_leads = consolidate_leads addr closed, gs_token_actions = [], gs_rule_actions = []\<rparr>]"
  have ok: "states_ok g ?S"
    using initial_leads_ok [OF g addr closed(2)] by (simp add: states_ok_def actions_ok_def)
  have "build_states addr g = gather_states addr g ?S 0 1"
    unfolding build_states_def by (simp only: closed(1) option.case sum.case)
  with gather_states_ok [OF g addr ok, of 0 1] show ?thesis by auto
qed

subsection \<open>The numbers of the rules\<close>

lemma rule_index_Some: "rule_index ids r = Some w \<Longrightarrow> w < length ids \<and> ids ! w = r"
  by (induction ids arbitrary: w) (auto split: if_splits)

lemma rule_index_append: "rule_index ids r = Some w \<Longrightarrow> rule_index (ids @ rs) r = Some w"
  by (induction ids arbitrary: w) (auto split: if_splits)

lemma rule_index_prefix: "prefix ids ids' \<Longrightarrow> rule_index ids r = Some w \<Longrightarrow> rule_index ids' r = Some w"
  by (auto simp: prefix_def rule_index_append)

lemma rule_index_new: "rule_index ids r = None \<Longrightarrow> rule_index (ids @ [r]) r = Some (length ids)"
  by (induction ids) (auto split: if_splits)

lemma rule_index_None: "rule_index ids r = None \<longleftrightarrow> r \<notin> set ids"
  by (induction ids) (auto split: if_splits)

lemma assign_rule_id_spec:
  assumes "assign_rule_id ids r = (n, ids')"
  shows "prefix ids ids'" and "\<exists>w. rule_index ids' r = Some w \<and> n = w + MAX_TOKENS"
    and "distinct ids \<Longrightarrow> distinct ids'"
  using assms rule_index_new [of ids r] rule_index_None [of ids r]
  by (auto simp: assign_rule_id_def split: option.splits)

definition rule_name :: "string list \<Rightarrow> nat \<Rightarrow> string" where
  "rule_name ids k = ids ! (k - MAX_TOKENS)"

text \<open>What is printed for an action and a goto, with the final numbers.\<close>

definition prints_action :: "rules \<Rightarrow> string list \<Rightarrow> token_action \<Rightarrow> parser_action \<Rightarrow> bool" where
  "prints_action g ids a x \<longleftrightarrow> pa_token x \<in> tokens_of (ta_tokens a) \<and> (case ta_reduce a of
     None \<Rightarrow> pa_state_or_length x = int (ta_state a)
   | Some (r, v) \<Rightarrow>
       pa_state_or_length x = - int (length (v_elements (rule_variants g r ! v))) \<and>
       (if r = fst grammar_root then pa_rule x = 0
        else \<exists>w. rule_index ids r = Some w \<and> pa_rule x = w + MAX_TOKENS \<and>
          pa_tag x = v_tag (rule_variants g r ! v) \<and>
          pa_reducer x = (case v_reducer (rule_variants g r ! v) of None \<Rightarrow> None | Some f \<Rightarrow> run_reducer f)))"

definition prints_goto :: "string list \<Rightarrow> rule_action \<Rightarrow> parser_goto \<Rightarrow> bool" where
  "prints_goto ids a x \<longleftrightarrow> pg_state x = ra_state a \<and>
     (\<exists>w. rule_index ids (ra_rule a) = Some w \<and> pg_rule x = w + MAX_TOKENS)"

lemma prints_action_prefix: "prefix ids ids' \<Longrightarrow> prints_action g ids a x \<Longrightarrow> prints_action g ids' a x"
  using rule_index_prefix [of ids ids'] unfolding prints_action_def by (auto split: option.splits if_splits)

lemma prints_goto_prefix: "prefix ids ids' \<Longrightarrow> prints_goto ids a x \<Longrightarrow> prints_goto ids' a x"
  unfolding prints_goto_def by (auto dest: rule_index_prefix)

lemma emit_token_spec:
  assumes "emit_token g a ids t = (x, ids')" and "t \<in> tokens_of (ta_tokens a)"
  shows "prefix ids ids'" and "prints_action g ids' a x"
proof -
  have "prefix ids ids' \<and> prints_action g ids' a x"
  proof (cases "ta_reduce a")
    case None
    with assms show ?thesis by (auto simp: emit_token_def prints_action_def)
  next
    case (Some rv)
    obtain r v where rv: "rv = (r, v)" by (cases rv)
    obtain n ids1 where n: "assign_rule_id ids r = (n, ids1)" by fastforce
    from assms Some rv n assign_rule_id_spec(1,2) [OF n] show ?thesis
      by (auto simp: emit_token_def prints_action_def Let_def split: if_splits)
  qed
  then show "prefix ids ids'" "prints_action g ids' a x" by simp_all
qed

lemma emit_tokens_spec:
  "emit_tokens g a ids ts = (xs, ids') \<Longrightarrow> set ts \<subseteq> tokens_of (ta_tokens a) \<Longrightarrow>
    prefix ids ids' \<and> (\<forall>x\<in>set xs. prints_action g ids' a x)"
proof (induction ts arbitrary: ids xs)
  case (Cons t ts)
  obtain x ids1 ys where e: "emit_token g a ids t = (x, ids1)" "emit_tokens g a ids1 ts = (ys, ids')" "xs = x # ys"
    using Cons.prems(1) by (auto split: prod.splits)
  have t: "t \<in> tokens_of (ta_tokens a)" using Cons.prems(2) by simp
  have IH: "prefix ids1 ids' \<and> (\<forall>x\<in>set ys. prints_action g ids' a x)"
    using Cons.IH [OF e(2)] Cons.prems(2) by simp
  with emit_token_spec [OF e(1) t] e(3) show ?case
    using prints_action_prefix prefix_order.trans by (metis set_ConsD)
qed simp

lemma emit_tokens_all:
  "emit_tokens g a ids ts = (xs, ids') \<Longrightarrow> t \<in> set ts \<Longrightarrow> \<exists>x\<in>set xs. pa_token x = t"
proof (induction ts arbitrary: ids xs)
  case (Cons u ts)
  obtain x ids1 ys where e: "emit_token g a ids u = (x, ids1)" "emit_tokens g a ids1 ts = (ys, ids')" "xs = x # ys"
    using Cons.prems(1) by (auto split: prod.splits)
  have "pa_token x = u" using e(1) by (auto simp: emit_token_def Let_def split: option.splits prod.splits if_splits)
  with Cons.IH [OF e(2)] Cons.prems(2) e(3) show ?case by auto
qed simp

lemma emit_actions_spec:
  "emit_actions g ids as = (xs, ids') \<Longrightarrow>
    prefix ids ids' \<and> (\<forall>x\<in>set xs. \<exists>a\<in>set as. prints_action g ids' a x) \<and>
    (\<forall>a\<in>set as. \<forall>t\<in>tokens_of (ta_tokens a). \<exists>x\<in>set xs. pa_token x = t \<and> prints_action g ids' a x)"
proof (induction as arbitrary: ids xs)
  case (Cons a as)
  obtain ys ids1 zs where e: "emit_tokens g a ids (token_bits (ta_tokens a)) = (ys, ids1)"
    "emit_actions g ids1 as = (zs, ids')" "xs = ys @ zs"
    using Cons.prems by (auto split: prod.splits)
  have 1: "prefix ids ids1" "\<forall>x\<in>set ys. prints_action g ids1 a x"
    using emit_tokens_spec [OF e(1)] by (simp_all add: token_bits_set)
  have 2: "prefix ids1 ids'" "\<forall>x\<in>set zs. \<exists>a\<in>set as. prints_action g ids' a x"
    "\<forall>a\<in>set as. \<forall>t\<in>tokens_of (ta_tokens a). \<exists>x\<in>set zs. pa_token x = t \<and> prints_action g ids' a x"
    using Cons.IH [OF e(2)] by simp_all
  have "\<exists>a\<in>set (a # as). prints_action g ids' a x" if "x \<in> set xs" for x
  proof (cases "x \<in> set ys")
    case True
    with 1(2) prints_action_prefix [OF 2(1)] show ?thesis by auto
  next
    case False
    with that e(3) 2(2) show ?thesis by auto
  qed
  moreover have "\<exists>x\<in>set xs. pa_token x = t \<and> prints_action g ids' a x" if "t \<in> tokens_of (ta_tokens a)" for t
    using emit_tokens_all [OF e(1), of t] that 1(2) prints_action_prefix [OF 2(1)] e(3) by (auto simp: token_bits_set)
  moreover have "prefix ids ids'" using 1(1) 2(1) prefix_order.trans by blast
  moreover have "\<exists>x\<in>set xs. pa_token x = t \<and> prints_action g ids' b x"
    if "b \<in> set as" "t \<in> tokens_of (ta_tokens b)" for b t
    using 2(3) that e(3) by fastforce
  ultimately show ?case by simp
qed simp

lemma emit_gotos_spec:
  "emit_gotos ids as = (xs, ids') \<Longrightarrow>
    prefix ids ids' \<and> list_all2 (prints_goto ids') as xs"
proof (induction as arbitrary: ids xs)
  case (Cons a as)
  obtain n ids1 zs where e: "assign_rule_id ids (ra_rule a) = (n, ids1)" "emit_gotos ids1 as = (zs, ids')"
    "xs = \<lparr>pg_rule = n, pg_state = ra_state a\<rparr> # zs"
    using Cons.prems by (auto split: prod.splits)
  have IH: "prefix ids1 ids'" "list_all2 (prints_goto ids') as zs" using Cons.IH [OF e(2)] by simp_all
  have "prints_goto ids1 a \<lparr>pg_rule = n, pg_state = ra_state a\<rparr>"
    using assign_rule_id_spec(2) [OF e(1)] by (auto simp: prints_goto_def)
  then have "prints_goto ids' a \<lparr>pg_rule = n, pg_state = ra_state a\<rparr>" by (rule prints_goto_prefix [OF IH(1)])
  with IH e(3) assign_rule_id_spec(1) [OF e(1)] show ?case using prefix_order.trans by auto
qed simp

definition prints_state :: "rules \<Rightarrow> string list \<Rightarrow> gen_state \<Rightarrow> parser_state \<Rightarrow> bool" where
  "prints_state g ids s st \<longleftrightarrow>
     (\<forall>x\<in>set (st_actions st). \<exists>a\<in>set (gs_token_actions s). prints_action g ids a x) \<and>
     (\<forall>a\<in>set (gs_token_actions s). \<forall>t\<in>tokens_of (ta_tokens a).
        \<exists>x\<in>set (st_actions st). pa_token x = t \<and> prints_action g ids a x) \<and>
     list_all2 (prints_goto ids) (gs_rule_actions s) (st_gotos st)"

lemma emit_states_spec:
  "emit_states g ids S = (tbl, ids') \<Longrightarrow> prefix ids ids' \<and> list_all2 (prints_state g ids') S tbl"
proof (induction S arbitrary: ids tbl)
  case (Cons s S)
  obtain xs ids1 gs ids2 tbl1 where e: "emit_actions g ids (gs_token_actions s) = (xs, ids1)"
    "emit_gotos ids1 (gs_rule_actions s) = (gs, ids2)" "emit_states g ids2 S = (tbl1, ids')"
    "tbl = \<lparr>st_actions = xs, st_gotos = gs\<rparr> # tbl1"
    using Cons.prems by (auto split: prod.splits)
  note 1 = emit_actions_spec [OF e(1)] and 2 = emit_gotos_spec [OF e(2)]
  have IH: "prefix ids2 ids'" "list_all2 (prints_state g ids') S tbl1" using Cons.IH [OF e(3)] by simp_all
  have p: "prefix ids1 ids'" using 2 IH(1) prefix_order.trans by blast
  have "\<forall>x\<in>set xs. \<exists>a\<in>set (gs_token_actions s). prints_action g ids' a x"
    using 1 prints_action_prefix [OF p] by blast
  moreover have "\<forall>a\<in>set (gs_token_actions s). \<forall>t\<in>tokens_of (ta_tokens a).
      \<exists>x\<in>set xs. pa_token x = t \<and> prints_action g ids' a x"
    using 1 prints_action_prefix [OF p] by blast
  moreover have "list_all2 (prints_goto ids') (gs_rule_actions s) gs"
    using 2 prints_goto_prefix [OF IH(1)] list_all2_mono by blast
  ultimately have "prints_state g ids' s \<lparr>st_actions = xs, st_gotos = gs\<rparr>" by (simp add: prints_state_def)
  with IH e(4) 1 p show ?case using prefix_order.trans by auto
qed simp


subsection \<open>The table and the states\<close>

text \<open>The table was printed for right and complete states.\<close>

definition printed :: "rules \<Rightarrow> gen_state list \<Rightarrow> parser_state list \<Rightarrow> string list \<Rightarrow> bool" where
  "printed g S tbl ids \<longleftrightarrow> rules_ok g \<and> states_ok g S \<and> (\<forall>i<length S. complete g S i) \<and>
     list_all2 (prints_state g ids) S tbl"

lemma printedD:
  assumes "printed g S tbl ids"
  shows "rules_ok g" "states_ok g S" "length tbl = length S"
    and "i < length S \<Longrightarrow> leads_ok g i (gs_leads (S ! i))" and "i < length S \<Longrightarrow> actions_ok g S i"
    and "i < length S \<Longrightarrow> prints_state g ids (S ! i) (tbl ! i)"
    and "i < length S \<Longrightarrow> l \<in> set (gs_leads (S ! i)) \<Longrightarrow> handled g (S ! i) l"
    and "i < length S \<Longrightarrow> one_reduction g (gs_leads (S ! i))"
  using assms by (auto simp: printed_def states_ok_def complete_def list_all2_conv_all_nth)

lemma generate_printed:
  assumes "rules_ok g" and "addresses_ok addr g" and "generate addr g = Some (Inr (tbl, ids))"
  obtains S where "build_states addr g = Some (Inr S)" "printed g S tbl ids"
proof -
  obtain S where S: "build_states addr g = Some (Inr S)" "states_ok g S" "\<forall>i<length S. complete g S i"
    using build_states_ok [OF assms(1,2)] assms(3) by (auto simp: generate_def)
  have "emit_states g [] S = (tbl, ids)" using assms(3) S(1) by (simp add: generate_def)
  from emit_states_spec [OF this] S assms(1) show ?thesis by (intro that [OF S(1)]) (simp add: printed_def)
qed

text \<open>The longest past of the leads: what is known of the symbols below a state.\<close>

definition longest_past :: "rules \<Rightarrow> lead list \<Rightarrow> symbol list" where
  "longest_past g ls = foldr (\<lambda>l h. if length h < length (past g l) then past g l else h) ls []"

lemma longest_past_in: "longest_past g ls = [] \<or> longest_past g ls \<in> past g ` set ls"
  unfolding longest_past_def by (induction ls) auto

lemma longest_past_length: "\<forall>l\<in>set ls. length (past g l) \<le> length (longest_past g ls)"
  unfolding longest_past_def by (induction ls) auto

lemma longest_past_prefix:
  assumes "leads_ok g i ls" and "l \<in> set ls"
  shows "prefix (past g l) (longest_past g ls)"
proof -
  obtain h where h: "\<forall>l\<in>set ls. prefix (past g l) h" using assms(1) by (auto simp: leads_ok_def)
  with longest_past_in [of g ls] have "prefix (longest_past g ls) h" by auto
  moreover have "length (past g l) \<le> length (longest_past g ls)" using longest_past_length assms(2) by blast
  ultimately show ?thesis using h assms(2) prefix_length_prefix by blast
qed

lemma edge_ok_past:
  assumes "states_ok g S" and "edge_ok g S i x k" and "i < length S"
  shows "prefix (longest_past g (gs_leads (S ! k))) (x # longest_past g (gs_leads (S ! i)))"
proof -
  consider "longest_past g (gs_leads (S ! k)) = []" | l where "l \<in> set (gs_leads (S ! k))"
    "longest_past g (gs_leads (S ! k)) = past g l" using longest_past_in by blast
  then show ?thesis
  proof cases
    case 2
    show ?thesis
    proof (cases "ld_position l = 0")
      case False
      with assms(2) 2(1) obtain l0 where l0: "l0 \<in> set (gs_leads (S ! i))" "dot g l0 = Some x" "shifted l0 l"
        unfolding edge_ok_def by blast
      have "leads_ok g i (gs_leads (S ! i))" using assms(1,3) by (simp add: states_ok_def)
      then have "prefix (past g l0) (longest_past g (gs_leads (S ! i)))" by (rule longest_past_prefix [OF _ l0(1)])
      with shifted_past [OF l0(3,2)] 2(2) show ?thesis by simp
    qed (use 2 in \<open>simp add: past_def\<close>)
  qed simp
qed

definition hist_of :: "rules \<Rightarrow> gen_state list \<Rightarrow> nat \<Rightarrow> symbol list" where
  "hist_of g S i = longest_past g (gs_leads (S ! i))"

subsection \<open>Shifts and gotos\<close>

lemma printed_shift:
  assumes p: "printed g S tbl ids" and i: "i < length S" and x: "x \<in> set (st_actions (tbl ! i))"
    "0 \<le> pa_state_or_length x"
  shows "symbol_ok (T (pa_token x))" and "edge_ok g S i (T (pa_token x)) (nat (pa_state_or_length x))"
proof -
  obtain a where a: "a \<in> set (gs_token_actions (S ! i))" "prints_action g ids a x"
    using printedD(6) [OF p i] x(1) by (auto simp: prints_state_def)
  have ok: "token_action_ok g S i a" using printedD(5) [OF p i] a(1) by (simp add: actions_ok_def)
  have None: "ta_reduce a = None"
  proof (rule ccontr)
    assume "ta_reduce a \<noteq> None"
    then obtain r v where rv: "ta_reduce a = Some (r, v)" by auto
    then obtain l where l: "l \<in> set (gs_leads (S ! i))" "ld_rule l = r" "ld_variant l = v"
      using ok by (auto simp: token_action_ok_def)
    have "lead_ok g l" using printedD(4) [OF p i] l(1) by (simp add: leads_ok_def)
    from rules_ok_variant(1) [OF printedD(1) [OF p] lead_variant_in [OF this]] l(2,3)
    have "v_elements (rule_variants g r ! v) \<noteq> []" by (simp add: lead_variant_def)
    with a(2) rv x(2) show False by (auto simp: prints_action_def)
  qed
  then obtain t where t: "symbol_ok (T t)" "ta_tokens a = token_set_insert token_set_init t"
    "edge_ok g S i (T t) (ta_state a)" using ok by (auto simp: token_action_ok_def)
  have "pa_token x = t" "pa_state_or_length x = int (ta_state a)"
    using a(2) None t(2) symbol_ok_token [OF t(1)] by (simp_all add: prints_action_def)
  with t show "symbol_ok (T (pa_token x))" "edge_ok g S i (T (pa_token x)) (nat (pa_state_or_length x))" by simp_all
qed

lemma prints_goto_edge:
  assumes p: "printed g S tbl ids" and i: "i < length S" and x: "x \<in> set (st_gotos (tbl ! i))"
  shows "edge_ok g S i (N (rule_name ids (pg_rule x))) (pg_state x)"
proof -
  have "list_all2 (prints_goto ids) (gs_rule_actions (S ! i)) (st_gotos (tbl ! i))"
    using printedD(6) [OF p i] by (simp add: prints_state_def)
  then obtain a where a: "a \<in> set (gs_rule_actions (S ! i))" "prints_goto ids a x"
    using x by (metis in_set_conv_nth list_all2_conv_all_nth)
  then have "rule_name ids (pg_rule x) = ra_rule a" "pg_state x = ra_state a"
    using rule_index_Some by (auto simp: prints_goto_def rule_name_def)
  with printedD(5) [OF p i] a(1) show ?thesis by (simp add: actions_ok_def)
qed

lemma targets_edge:
  assumes p: "printed g S tbl ids" and i: "i < length S" and k: "k \<in> set (targets (tbl ! i))"
  shows "\<exists>x. edge_ok g S i x k"
proof -
  consider a where "a \<in> set (st_actions (tbl ! i))" "shift_to a = Some k"
    | x where "x \<in> set (st_gotos (tbl ! i))" "pg_state x = k"
    using k by (auto simp: targets_def List.map_filter_def)
  then show ?thesis
  proof cases
    case 1
    with printed_shift(2) [OF p i 1(1)] show ?thesis by (auto simp: shift_to_def split: if_splits)
  next
    case 2
    with prints_goto_edge [OF p i 2(1)] show ?thesis by auto
  qed
qed

subsection \<open>Reductions\<close>

text \<open>The lead of a reduction is in the states below with its position moved back.\<close>

lemma lead_back:
  assumes p: "printed g S tbl ids"
  shows "q \<in> set (states_back tbl n s) \<Longrightarrow> s < length S \<Longrightarrow> l \<in> set (gs_leads (S ! s)) \<Longrightarrow> n \<le> ld_position l \<Longrightarrow>
    q < length S \<and> (\<exists>l0\<in>set (gs_leads (S ! q)). ld_rule l0 = ld_rule l \<and> ld_variant l0 = ld_variant l \<and>
      ld_position l0 = ld_position l - n)"
proof (induction n arbitrary: s l)
  case 0
  then show ?case by auto
next
  case (Suc n)
  obtain m where m: "m < length S" "s \<in> set (targets (tbl ! m))" "q \<in> set (states_back tbl n m)"
    using Suc.prems(1) printedD(3) [OF p] by auto
  obtain x where "edge_ok g S m x s" using targets_edge [OF p m(1,2)] by blast
  moreover have "0 < ld_position l" using Suc.prems(4) by simp
  ultimately obtain l1 where l1: "l1 \<in> set (gs_leads (S ! m))" "shifted l1 l"
    using Suc.prems(3) unfolding edge_ok_def by blast
  have "n \<le> ld_position l1" using l1(2) Suc.prems(4) by (simp add: shifted_def)
  from Suc.IH [OF m(3,1) l1(1) this] l1(2) show ?case by (auto simp: shifted_def)
qed

lemma printed_goto:
  assumes p: "printed g S tbl ids" and q: "q < length S" and l: "l \<in> set (gs_leads (S ! q))" "dot g l = Some (N r)"
    and w: "rule_index ids r = Some w"
  shows "find_goto (st_gotos (tbl ! q)) (w + MAX_TOKENS) \<noteq> None"
proof -
  obtain a where a: "a \<in> set (gs_rule_actions (S ! q))" "ra_rule a = r"
    using printedD(7) [OF p q l(1)] l(2) by (auto simp: handled_def)
  have "list_all2 (prints_goto ids) (gs_rule_actions (S ! q)) (st_gotos (tbl ! q))"
    using printedD(6) [OF p q] by (simp add: prints_state_def)
  then obtain x where x: "x \<in> set (st_gotos (tbl ! q))" "prints_goto ids a x"
    using a(1) by (metis in_set_conv_nth list_all2_conv_all_nth)
  with a(2) w have "pg_rule x = w + MAX_TOKENS" by (auto simp: prints_goto_def)
  with x(1) show ?thesis by (auto simp: find_goto_def find_None_iff)
qed

text \<open>The rules are those of the grammar, with some of their variants.\<close>

definition fragment :: "rules \<Rightarrow> bool" where
  "fragment g \<longleftrightarrow> (\<forall>p\<in>set g. fst p = fst grammar_root \<or>
     (\<exists>vs. (fst p, vs) \<in> set grammar \<and> set (snd p) \<subseteq> set vs))"

text \<open>Every reducer named in the grammar exists.\<close>

lemma grammar_reducers:
  "list_all (\<lambda>(r, vs). list_all (\<lambda>v. case v_reducer v of None \<Rightarrow> True | Some f \<Rightarrow> run_reducer f \<noteq> None) vs) grammar"
  by (simp add: grammar_def reduce_def reduce_default_def run_reducer_simps
    rule_primary_expr_def rule_postfix_expr_def rule_argument_expr_list_def rule_unary_expr_def
    rule_builtin_func_def rule_unary_op_def rule_cast_expr_def rule_multiplicative_expr_def
    rule_additive_expr_def rule_shift_expr_def rule_relational_expr_def rule_equality_expr_def
    rule_bitwise_and_expr_def rule_bitwise_xor_expr_def rule_bitwise_or_expr_def rule_and_expr_def
    rule_or_expr_def rule_conditional_expr_def rule_assignment_expr_def rule_assignment_op_def
    rule_expr_def rule_expr_stmt_def rule_compound_stmt_def rule_block_item_list_def
    rule_block_item_def rule_selection_stmt_def rule_iteration_stmt_def
    rule_iteration_stmt_for_init_def rule_iteration_stmt_for_cond_def
    rule_iteration_stmt_for_step_def rule_iteration_stmt_for_while_def rule_jump_stmt_def
    rule_labeled_stmt_def rule_stmt_def rule_variable_decl_def rule_const_decl_def
    rule_implementation_decl_def rule_implementation_mapping_list_def
    rule_implementation_mapping_def rule_decl_def rule_type_def rule_struct_member_list_def
    rule_struct_member_def rule_func_type_args_def rule_interface_member_list_def
    rule_interface_member_def rule_interface_member_func_parameter_list_def
    rule_interface_member_func_parameter_def rule_import_unit_def rule_package_unit_def
    rule_decl_unit_def rule_func_unit_def rule_func_unit_decl_def rule_parameter_list_def
    rule_parameter_def rule_type_unit_def rule_unit_list_def rule_unit_def)

lemma fragment_variant:
  assumes "fragment g" and "v \<in> set (rule_variants g r)" and "r \<noteq> fst grammar_root"
  obtains vs where "(r, vs) \<in> set grammar" "v \<in> set vs" "\<forall>f. v_reducer v = Some f \<longrightarrow> run_reducer f \<noteq> None"
proof -
  obtain vs where vs: "map_of g r = Some vs" "v \<in> set vs"
    using assms(2) by (cases "map_of g r") (simp_all add: rule_variants_def)
  have "(r, vs) \<in> set g" by (rule map_of_SomeD [OF vs(1)])
  then obtain vs' where vs': "(r, vs') \<in> set grammar" "set vs \<subseteq> set vs'"
    using assms(1,3) by (force simp: fragment_def)
  then have v: "v \<in> set vs'" using vs(2) by blast
  have "list_all (\<lambda>v. case v_reducer v of None \<Rightarrow> True | Some f \<Rightarrow> run_reducer f \<noteq> None) vs'"
    using grammar_reducers vs'(1) unfolding list_all_iff by fast
  then have "\<forall>f. v_reducer v = Some f \<longrightarrow> run_reducer f \<noteq> None" using v by (auto simp: list_all_iff)
  with vs'(1) v show ?thesis by (rule that)
qed

text \<open>Every lead before a token is printed as a shift, every finished one as a reduction on each of its terminals.\<close>

lemma printed_shift_lead:
  assumes p: "printed g S tbl ids" and i: "i < length S" and l: "l \<in> set (gs_leads (S ! i))" "dot g l = Some (T t)"
  obtains x where "x \<in> set (st_actions (tbl ! i))" "pa_token x = t" "0 \<le> pa_state_or_length x"
proof -
  obtain a where a: "a \<in> set (gs_token_actions (S ! i))" "ta_reduce a = None" "t \<in> tokens_of (ta_tokens a)"
    using printedD(7) [OF p i l(1)] l(2) by (auto simp: handled_def)
  then obtain x where "x \<in> set (st_actions (tbl ! i))" "pa_token x = t" "prints_action g ids a x"
    using printedD(6) [OF p i] unfolding prints_state_def by blast
  with a(2) show ?thesis by (intro that [of x]) (auto simp: prints_action_def)
qed

lemma printed_finished_lead:
  assumes p: "printed g S tbl ids" and i: "i < length S" and l: "l \<in> set (gs_leads (S ! i))" "dot g l = None"
    and t: "t \<in> tokens_of (ld_terminals l)"
  obtains x where "x \<in> set (st_actions (tbl ! i))" "pa_token x = t" "pa_state_or_length x < 0"
proof -
  obtain a where a: "a \<in> set (gs_token_actions (S ! i))" "ta_reduce a = Some (ld_rule l, ld_variant l)"
    "ta_tokens a = ld_terminals l"
    using printedD(7) [OF p i l(1)] l(2) by (auto simp: handled_def)
  then obtain x where x: "x \<in> set (st_actions (tbl ! i))" "pa_token x = t" "prints_action g ids a x"
    using printedD(6) [OF p i] t unfolding prints_state_def by metis
  have "lead_ok g l" using printedD(4) [OF p i] l(1) by (simp add: leads_ok_def)
  then have "v_elements (lead_variant g l) \<noteq> []"
    using rules_ok_variant(1) [OF printedD(1) [OF p] lead_variant_in] by auto
  with x a(2) show ?thesis by (intro that [of x]) (auto simp: prints_action_def lead_variant_def)
qed

lemma printed_reduce:
  assumes p: "printed g S tbl ids" and i: "i < length S" and x: "x \<in> set (st_actions (tbl ! i))"
    "pa_state_or_length x < 0"
  obtains a l where "prints_action g ids a x" "l \<in> set (gs_leads (S ! i))" "lead_ok g l"
    "ta_reduce a = Some (ld_rule l, ld_variant l)" "ta_tokens a = ld_terminals l"
    "ld_position l = length (v_elements (lead_variant g l))"
    "nat (- pa_state_or_length x) = ld_position l" "0 < ld_position l"
proof -
  obtain a where a: "a \<in> set (gs_token_actions (S ! i))" "prints_action g ids a x"
    using printedD(6) [OF p i] x(1) by (auto simp: prints_state_def)
  have "ta_reduce a \<noteq> None" using a(2) x(2) by (cases "ta_reduce a") (auto simp: prints_action_def)
  then obtain r v where rv: "ta_reduce a = Some (r, v)" by auto
  have "token_action_ok g S i a" using printedD(5) [OF p i] a(1) by (simp add: actions_ok_def)
  then obtain l where l: "l \<in> set (gs_leads (S ! i))" "ld_rule l = r" "ld_variant l = v" "dot g l = None"
    "ta_tokens a = ld_terminals l" using rv by (auto simp: token_action_ok_def)
  have ok: "lead_ok g l" using printedD(4) [OF p i] l(1) by (simp add: leads_ok_def)
  have pos: "ld_position l = length (v_elements (lead_variant g l))"
    using l(4) ok by (simp add: dot_def lead_ok_def split: if_splits)
  have "nat (- pa_state_or_length x) = ld_position l"
    using a(2) rv l(2,3) pos by (simp add: prints_action_def lead_variant_def)
  moreover have "0 < ld_position l" using rules_ok_variant(1) [OF printedD(1) [OF p] lead_variant_in [OF ok]] pos by simp
  ultimately show ?thesis using a(2) l ok pos rv by (intro that [of a l]) simp_all
qed

lemma printed_reduction_ok:
  assumes p: "printed g S tbl ids" and frag: "fragment g" and i: "i < length S"
    and x: "x \<in> set (st_actions (tbl ! i))" "pa_state_or_length x < 0" "pa_rule x \<noteq> 0"
  shows "reduction_ok tbl (rule_name ids) (hist_of g S) i x"
proof -
  obtain a l where a: "prints_action g ids a x" and l: "l \<in> set (gs_leads (S ! i))" "lead_ok g l"
    and r: "ta_reduce a = Some (ld_rule l, ld_variant l)"
    and pos: "ld_position l = length (v_elements (lead_variant g l))" "nat (- pa_state_or_length x) = ld_position l"
    by (rule printed_reduce [OF p i x(1,2)])
  let ?v = "lead_variant g l"
  have root: "ld_rule l \<noteq> fst grammar_root" using a r x(3) by (auto simp: prints_action_def)
  with a r obtain w where w: "rule_index ids (ld_rule l) = Some w" "pa_rule x = w + MAX_TOKENS" "pa_tag x = v_tag ?v"
    "pa_reducer x = (case v_reducer ?v of None \<Rightarrow> None | Some f \<Rightarrow> run_reducer f)"
    by (auto simp: prints_action_def lead_variant_def)
  have name: "rule_name ids (pa_rule x) = ld_rule l" using rule_index_Some [OF w(1)] w(2) by (simp add: rule_name_def)
  obtain vs where vs: "(ld_rule l, vs) \<in> set grammar" "?v \<in> set vs"
    "\<forall>f. v_reducer ?v = Some f \<longrightarrow> run_reducer f \<noteq> None"
    by (rule fragment_variant [OF frag lead_variant_in [OF l(2)] root])
  have "past g l = rev (v_elements ?v)" using pos(1) by (simp add: past_def)
  with longest_past_prefix [OF printedD(4) [OF p i] l(1)]
  have hist: "prefix (rev (v_elements ?v)) (hist_of g S i)" by (simp add: hist_of_def)
  have "q < length tbl \<and> find_goto (st_gotos (tbl ! q)) (pa_rule x) \<noteq> None"
    if q: "q \<in> set (states_back tbl (nat (- pa_state_or_length x)) i)" for q
  proof -
    obtain l0 where l0: "q < length S" "l0 \<in> set (gs_leads (S ! q))" "ld_rule l0 = ld_rule l" "ld_position l0 = 0"
      using lead_back [OF p q i l(1)] pos(2) by auto
    with printedD(4) [OF p l0(1)] root obtain l' where "l' \<in> set (gs_leads (S ! q))" "dot g l' = Some (N (ld_rule l))"
      unfolding leads_ok_def by metis
    with printed_goto [OF p l0(1) _ _ w(1)] w(2) l0(1) printedD(3) [OF p] show ?thesis by simp
  qed
  then show ?thesis
    using name vs w(3,4) hist pos by (intro reduction_okI [where vs = vs and v = ?v]) (simp_all add: list_all_iff)
qed

lemma printed_accept_ok:
  assumes p: "printed g S tbl ids" and i: "i < length S"
    and x: "x \<in> set (st_actions (tbl ! i))" "pa_state_or_length x < 0" "pa_rule x = 0"
  shows "accept_ok tbl (hist_of g S) i x"
proof -
  obtain a l where a: "prints_action g ids a x" and l: "l \<in> set (gs_leads (S ! i))" "lead_ok g l"
    and r: "ta_reduce a = Some (ld_rule l, ld_variant l)" "ta_tokens a = ld_terminals l"
    and pos: "ld_position l = length (v_elements (lead_variant g l))" "0 < ld_position l"
    by (rule printed_reduce [OF p i x(1,2)])
  have root: "ld_rule l = fst grammar_root"
    using a r(1) x(3) by (auto simp: prints_action_def MAX_TOKENS_def split: if_splits)
  have "lead_variant g l = hd (snd grammar_root)"
    using lead_variant_in [OF l(2)] unfolding root root_variant [OF printedD(1) [OF p]] by (simp add: grammar_root_def)
  then have elems: "v_elements (lead_variant g l) = [N ''unit_list'']" by (simp add: grammar_root_def)
  then have past: "past g l = [N ''unit_list'']" and one: "ld_position l = 1" using pos(1) by (simp_all add: past_def)
  have "tokens_of (ld_terminals l) = {TKN_EOF}" using printedD(4) [OF p i] l(1) root by (simp add: leads_ok_def)
  then have eof: "pa_token x = TKN_EOF" using a r(2) by (simp add: prints_action_def)
  have from_0: "q = 0" if q: "q < length S" "edge_ok g S q y i" for q y
  proof -
    obtain l0 where l0: "l0 \<in> set (gs_leads (S ! q))" "shifted l0 l" using q(2) l(1) pos(2) unfolding edge_ok_def by blast
    then have "ld_position l0 = 0" "ld_rule l0 = fst grammar_root" using one root by (simp_all add: shifted_def)
    with printedD(4) [OF p q(1)] l0(1) have "q = 0 \<or> (\<exists>l'\<in>set (gs_leads (S ! q)). dot g l' = Some (N (fst grammar_root)))"
      unfolding leads_ok_def by metis
    moreover have "lead_ok g l'" if "l' \<in> set (gs_leads (S ! q))" for l'
      using printedD(4) [OF p q(1)] that by (simp add: leads_ok_def)
    ultimately show ?thesis using dot_symbol_ok [OF printedD(1) [OF p]] by (force simp: symbol_ok_def)
  qed
  have below: "set (states_back tbl 1 i) \<subseteq> {0}"
    using from_0 targets_edge [OF p] printedD(3) [OF p] by fastforce
  have "i \<noteq> 0" using printedD(4) [OF p i] l(1) pos(2) by (cases "i = 0") (auto simp: leads_ok_def)
  then obtain q y where q: "q < length S" "edge_ok g S q y i" using printedD(2) [OF p] i by (auto simp: states_ok_def)
  have "length (past g l') \<le> 1" if l': "l' \<in> set (gs_leads (S ! i))" for l'
  proof (cases "ld_position l' = 0")
    case False
    then obtain l0 where "l0 \<in> set (gs_leads (S ! 0))" "shifted l0 l'"
      using q l' from_0 [OF q] unfolding edge_ok_def by blast
    moreover have "\<forall>l\<in>set (gs_leads (S ! 0)). ld_position l = 0"
      using printedD(4) [OF p, of 0] i by (cases S) (simp_all add: leads_ok_def)
    ultimately show ?thesis by (simp add: shifted_def past_def)
  qed (simp add: past_def)
  then have "length (hist_of g S i) \<le> 1" using longest_past_in [of g "gs_leads (S ! i)"] by (auto simp: hist_of_def)
  moreover have "prefix [N ''unit_list''] (hist_of g S i)"
    using longest_past_prefix [OF printedD(4) [OF p i] l(1)] past by (simp add: hist_of_def)
  ultimately have "hist_of g S i = [N ''unit_list'']" by (auto simp: prefix_def)
  with eof below show ?thesis by (simp add: accept_ok_def del: states_back.simps)
qed

lemma printed_table_ok:
  assumes p: "printed g S tbl ids" and frag: "fragment g"
  shows "table_ok tbl (rule_name ids) (hist_of g S)"
  unfolding table_ok_def
proof (intro conjI allI impI)
  have S: "0 < length S" using printedD(2) [OF p] by (simp add: states_ok_def)
  then show "tbl \<noteq> []" using printedD(3) [OF p] by auto
  have "\<forall>l\<in>set (gs_leads (S ! 0)). ld_position l = 0" using printedD(4) [OF p S] by (simp add: leads_ok_def)
  then show "hist_of g S 0 = []"
    using longest_past_in [of g "gs_leads (S ! 0)"] by (auto simp: hist_of_def past_def)
next
  fix i assume "i < length tbl"
  then have i: "i < length S" by (simp add: printedD(3) [OF p])
  show "0 \<notin> set (targets (tbl ! i))" using targets_edge [OF p i] by (auto simp: edge_ok_def)
  note past = edge_ok_past [OF printedD(2) [OF p] _ i]
  show "\<forall>x\<in>set (st_actions (tbl ! i)). if pa_state_or_length x < 0 then
        if pa_rule x = 0 then accept_ok tbl (hist_of g S) i x
        else reduction_ok tbl (rule_name ids) (hist_of g S) i x
      else TKN_EOF < pa_token x \<and> nat (pa_state_or_length x) < length tbl \<and>
        prefix (hist_of g S (nat (pa_state_or_length x))) (T (pa_token x) # hist_of g S i)"
  proof
    fix x assume x: "x \<in> set (st_actions (tbl ! i))"
    show "if pa_state_or_length x < 0 then
        if pa_rule x = 0 then accept_ok tbl (hist_of g S) i x
        else reduction_ok tbl (rule_name ids) (hist_of g S) i x
      else TKN_EOF < pa_token x \<and> nat (pa_state_or_length x) < length tbl \<and>
        prefix (hist_of g S (nat (pa_state_or_length x))) (T (pa_token x) # hist_of g S i)"
    proof (cases "pa_state_or_length x < 0")
      case True
      with printed_accept_ok [OF p i x] printed_reduction_ok [OF p frag i x] show ?thesis by simp
    next
      case False
      then have "0 \<le> pa_state_or_length x" by simp
      note shift = printed_shift [OF p i x this]
      with False past [OF shift(2)] printedD(3) [OF p] show ?thesis
        by (auto simp: symbol_ok_def hist_of_def edge_ok_def)
    qed
  qed
  show "\<forall>x\<in>set (st_gotos (tbl ! i)). pg_state x < length tbl \<and>
      prefix (hist_of g S (pg_state x)) (N (rule_name ids (pg_rule x)) # hist_of g S i)"
  proof
    fix x assume x: "x \<in> set (st_gotos (tbl ! i))"
    note e = prints_goto_edge [OF p i x]
    with past [OF e] printedD(3) [OF p]
    show "pg_state x < length tbl \<and> prefix (hist_of g S (pg_state x)) (N (rule_name ids (pg_rule x)) # hist_of g S i)"
      by (simp add: hist_of_def edge_ok_def)
  qed
qed

end
