(* ===== verification/Generator_Correct.thy ===== *)
theory Generator_Correct
  imports Generator_Tables
begin

section \<open>The generator is right\<close>

text \<open>
  The properties of the parser generator, for every grammar without empty productions and in
  particular for the one of the compiler, with the rules at any addresses; the parser that runs on
  a generated table; and two grammars that show what the assertions on conflicts miss.
\<close>

subsection \<open>Grammars\<close>

text \<open>The rules the generator is compiled with, and a few of them for evaluation.\<close>

definition program_rules :: rules where
  "program_rules = grammar_root # grammar"

definition small_rules :: rules where
  "small_rules = [grammar_root, (''unit_list'', rule_unit_list),
     (''unit'', [reduce_default [N ''import_unit''], reduce_default [T TKN_SEMICOLON]]),
     (''import_unit'', rule_import_unit)]"

definition small_addr :: "string \<Rightarrow> nat" where
  "small_addr r = (if r = fst grammar_root then 0 else if r = ''unit_list'' then 1 else if r = ''unit'' then 2 else 3)"

lemma program_rules_ok: "rules_ok program_rules"
  by code_simp

lemma program_fragment: "fragment program_rules"
  unfolding fragment_def program_rules_def by auto

lemma small_rules_ok: "rules_ok small_rules"
  by code_simp

lemma small_fragment: "fragment small_rules"
proof -
  have "(''unit_list'', rule_unit_list) \<in> set grammar" "(''unit'', rule_unit) \<in> set grammar"
    "(''import_unit'', rule_import_unit) \<in> set grammar" by (simp_all add: grammar_def)
  moreover have "set [reduce_default [N ''import_unit''], reduce_default [T TKN_SEMICOLON]] \<subseteq> set rule_unit"
    by (simp add: rule_unit_def)
  ultimately show ?thesis unfolding fragment_def small_rules_def by simp blast
qed

lemma small_addresses_ok: "addresses_ok small_addr small_rules"
  by (simp add: addresses_ok_def small_rules_def small_addr_def grammar_root_def)

definition small_states :: "gen_state list" where
  "small_states = (case build_states small_addr small_rules of Some (Inr S) \<Rightarrow> S | _ \<Rightarrow> [])"

lemma small_builds: "case build_states small_addr small_rules of Some (Inr S) \<Rightarrow> length S = 9 | _ \<Rightarrow> False"
  by code_simp

lemma small_built: "build_states small_addr small_rules = Some (Inr small_states)" "length small_states = 9"
  using small_builds unfolding small_states_def by (auto split: option.splits sum.splits)

definition small_table :: "parser_state list \<times> string list" where
  "small_table = emit_states small_rules [] small_states"

lemma small_generate: "generate small_addr small_rules = Some (Inr (fst small_table, snd small_table))"
  using small_built(1) unfolding small_table_def generate_def by simp


subsection \<open>Sets of tokens and of leads\<close>

text \<open>
  C17: \<open>gather_first\<close> computes first sets. Called without a chain on a symbol of a grammar without
  empty productions it returns, and the set holds exactly the tokens that a sentence derived from
  the symbol can start with, also where rules are left recursive.
\<close>

theorem gather_first_correct:
  assumes "rules_ok g" and "symbol_ok x"
  shows "\<exists>s. gather_first g token_set_init (Some x) [] = Inr s \<and> set (token_bits s) = {t. firsts g x t}"
proof -
  obtain s where "gather_first g token_set_init (Some x) [] = Inr s" "tokens_of s = tokens_of token_set_init \<union> {t. firsts g x t}"
    by (rule gather_first_firsts [OF assms(1) _ assms(2), of token_set_init]) simp_all
  then show ?thesis by (intro exI [of _ s]) (simp add: token_bits_set)
qed

theorem gather_first_correct_witness:
  "\<exists>s. gather_first program_rules token_set_init (Some (N ''expr'')) [] = Inr s \<and>
    set (token_bits s) = {t. firsts program_rules (N ''expr'') t}"
  by (rule gather_first_correct [OF program_rules_ok]) (simp add: symbol_ok_def grammar_root_def)

text \<open>
  C13: \<open>gather_leads\<close> computes the LR(1) closure. Started on leads of the grammar it ends, keeps
  them at the front, adds no lead twice, and its result is the least set of leads that contains
  them and, for each lead before a rule, all variants of the rule with the tokens that can follow
  it there: the first tokens of the next symbol, or the terminals of the lead itself.
\<close>

theorem gather_leads_correct:
  assumes "rules_ok g" and "\<forall>l\<in>set leads. lead_ok g l" and "distinct leads" and "leads \<noteq> []"
  shows "\<exists>new. gather_leads g leads 0 (length leads) = Some (Inr (leads @ new)) \<and> distinct (leads @ new) \<and>
    set (leads @ new) = closure g (set leads)"
  using gather_leads_spec [OF assms(1-3), of 0 "length leads"] assms(4) by simp

theorem gather_leads_correct_witness:
  "\<exists>new. gather_leads program_rules [root_lead] 0 1 = Some (Inr ([root_lead] @ new)) \<and>
    set ([root_lead] @ new) = closure program_rules {root_lead}"
  using gather_leads_correct [OF program_rules_ok, of "[root_lead]"] root_lead_ok [OF program_rules_ok] by auto

subsection \<open>The states and the table\<close>

text \<open>
  C16: the generator terminates. On the grammar of the compiler, wherever the linker puts the
  rules, it either returns the table or stops at the assertion on reduce-reduce conflicts; it never
  runs on, never reads past the elements of a variant and fails no other assertion. In particular
  the assertion on shift-reduce conflicts can never fail, whatever the grammar.
\<close>

theorem generator_terminates:
  assumes "addresses_ok addr program_rules"
  shows "generate addr program_rules = Some (Inl (Assert_Failed ''reduce-reduce conflict'')) \<or>
    (\<exists>tbl ids. generate addr program_rules = Some (Inr (tbl, ids)))"
  using build_states_ok [OF program_rules_ok assms] by (auto simp: generate_def)

lemma program_names: "distinct (map fst program_rules)"
  by code_simp

fun position_of :: "string list \<Rightarrow> string \<Rightarrow> nat" where
  "position_of [] r = 0"
| "position_of (x # xs) r = (if x = r then 0 else Suc (position_of xs r))"

lemma position_of_nth: "r \<in> set xs \<Longrightarrow> xs ! position_of xs r = r"
  by (induction xs) auto

text \<open>The rules one after another in memory.\<close>

lemma program_addresses_ok: "addresses_ok (position_of (map fst program_rules)) program_rules"
  unfolding addresses_ok_def using position_of_nth [of _ "map fst program_rules"]
  by (intro inj_onI) (metis list.set_map)

theorem generator_terminates_witness:
  "\<exists>r. generate (position_of (map fst program_rules)) program_rules = Some r"
  using generator_terminates [OF program_addresses_ok] by auto

text \<open>
  C15: the states are complete and right. When \<open>gather_states\<close> has come to its end, no two states
  have the same leads; every lead of a state has its action (a goto or a shift on the symbol after
  its position, a reduction on its terminals at the end of its variant); and every action comes
  from a lead: the positive leads of its target are the leads before its symbol, moved one on.
\<close>

theorem states_complete:
  assumes "rules_ok g" and "addresses_ok addr g" and "build_states addr g = Some (Inr S)" and "i < length S"
  shows "distinct (map gs_leads S) \<and> (\<forall>l\<in>set (gs_leads (S ! i)). handled g (S ! i) l) \<and> actions_ok g S i"
  using build_states_ok [OF assms(1,2)] assms(3,4) by (auto simp: states_ok_def complete_def)

theorem states_complete_witness: "distinct (map gs_leads small_states) \<and> actions_ok small_rules small_states 8"
  using states_complete [OF small_rules_ok small_addresses_ok small_built(1), of 8] small_built(2) by simp

text \<open>
  C6: the generator produces tables that fit the parser. Whenever it returns a table for rules of
  the grammar, the table is well formed in the sense the parser relies on (\<open>table_ok\<close>): each state
  knows the last symbols below it, each reduction pops a right-hand side that is on the stack, with
  the tag and the action of its variant, and finds a goto in every state it can uncover; the
  accepting action is on the end of the file, over exactly one \<open>unit_list\<close>.
\<close>

theorem generate_table_ok:
  assumes "rules_ok g" and "fragment g" and "addresses_ok addr g" and "generate addr g = Some (Inr (tbl, ids))"
  shows "\<exists>hist. table_ok tbl (rule_name ids) hist"
proof -
  obtain S where "printed g S tbl ids" using generate_printed [OF assms(1,3,4)] by blast
  then show ?thesis using printed_table_ok [OF _ assms(2)] by blast
qed

theorem generate_table_ok_witness: "\<exists>hist. table_ok (fst small_table) (rule_name (snd small_table)) hist"
  by (rule generate_table_ok [OF small_rules_ok small_fragment small_addresses_ok small_generate])

text \<open>
  C5: generator, parser and lexer together. On any file without characters that start no token,
  the parser with a table the generator has printed returns. A result is a list of units, all
  tokens up to the end of the file have been read, and they form a sentence of the grammar; a failure
  is a reported syntax error or one of the failures of the semantic actions on literals and on the
  mapping list.
\<close>

theorem generated_parser_correct:
  assumes "rules_ok g" and "fragment g" and "addresses_ok addr g" and "generate addr g = Some (Inr (tbl, ids))"
    and "lexer_ok lx" and "list_all (\<lambda>c. \<not> garbage c) (todo lx)"
  shows "\<exists>r. parse tbl lx = Some r \<and> (case r of
      Inl e \<Rightarrow> e \<in> parse_faults
    | Inr (u, v) \<Rightarrow> \<exists>us n ts. v = V_Units us \<and> lex_many n lx = Inr (ts, u) \<and> l_token u = TKN_EOF \<and>
        yields (N ''unit_list'') (butlast (l_token lx # map fst ts)))"
proof -
  obtain S where "printed g S tbl ids" using generate_printed [OF assms(1,3,4)] by blast
  then have ok: "table_ok tbl (rule_name ids) (hist_of g S)" using printed_table_ok [OF _ assms(2)] by blast
  obtain r where r: "parse_loop tbl lx [initial_entry] = Some r"
    using lexer_ends [OF assms(5,6)] parse_loop_terminates [OF ok assms(5) stack_ok_initial] by blast
  have "fetched lx lx []" by (auto simp: fetched_def intro: exI [of _ 0])
  then have p: "parsed lx r" by (rule parse_loop_sound [OF ok r assms(5) stack_ok_initial])
  have "case r of Inl e \<Rightarrow> e \<in> parse_faults
    | Inr (u, v) \<Rightarrow> \<exists>us n ts. v = V_Units us \<and> lex_many n lx = Inr (ts, u) \<and> l_token u = TKN_EOF \<and>
        yields (N ''unit_list'') (butlast (l_token lx # map fst ts))"
  proof (cases r)
    case (Inl e)
    with p show ?thesis by (simp add: parsed_def)
  next
    case (Inr uv)
    obtain u v where uv: "uv = (u, v)" by (cases uv)
    from p Inr uv obtain toks n ts where t: "value_ok ''unit_list'' v" "lex_many n lx = Inr (ts, u)"
      "l_token lx # map fst ts = toks @ [l_token u]" "l_token u = TKN_EOF" "yields (N ''unit_list'') toks"
      by (auto simp: parsed_def fetched_def)
    from t(1) obtain us where "v = V_Units us" by (auto simp: value_ok_rules)
    moreover have "butlast (l_token lx # map fst ts) = toks" using t(3) by simp
    ultimately show ?thesis unfolding Inr uv using t(2,4,5) by (simp del: butlast.simps) blast
  qed
  with r show ?thesis by (auto simp: parse_def)
qed

theorem generated_parser_correct_witness: "\<exists>r. parse (fst small_table) sample_file = Some r"
  using generated_parser_correct [OF small_rules_ok small_fragment small_addresses_ok small_generate
    sample_file_ok sample_clean] by blast

subsection \<open>Conflicts\<close>

definition plain_variant :: "symbol list \<Rightarrow> variant" where
  "plain_variant xs = \<lparr>v_elements = xs, v_reducer = None, v_tag = 0\<rparr>"

text \<open>The list \<open>x ; x ; x\<close> can be read in two ways.\<close>

definition ambiguous_rules :: rules where
  "ambiguous_rules = [grammar_root,
     (''unit_list'', [plain_variant [N ''unit_list'', T TKN_SEMICOLON, N ''unit_list''], plain_variant [T TKN_IDENT]])]"

text \<open>A state in which token \<open>t\<close> can be shifted and can follow a finished lead.\<close>

definition shift_reduce :: "rules \<Rightarrow> lead list \<Rightarrow> nat \<Rightarrow> bool" where
  "shift_reduce g leads t \<longleftrightarrow> (\<exists>l\<in>set leads. dot g l = None \<and> t \<in> tokens_of (ld_terminals l)) \<and>
     (\<exists>l\<in>set leads. dot g l = Some (T t))"

text \<open>
  C34: shift-reduce conflicts go unnoticed. Whatever the grammar, the assertion that should reject
  them never fails, since it looks at the leads of one next symbol only, where both cannot occur;
  and when the generator returns a table, every state with such a conflict on a token is printed
  with a shift and with a reduction on that token.
\<close>

theorem shift_reduce_unnoticed:
  assumes "rules_ok g" and "addresses_ok addr g"
  shows "generate addr g \<noteq> Some (Inl (Assert_Failed ''shift-reduce conflict'')) \<and>
    (\<forall>tbl ids S i t. generate addr g = Some (Inr (tbl, ids)) \<longrightarrow> build_states addr g = Some (Inr S) \<longrightarrow>
      i < length S \<longrightarrow> shift_reduce g (gs_leads (S ! i)) t \<longrightarrow>
      (\<exists>x\<in>set (st_actions (tbl ! i)). \<exists>y\<in>set (st_actions (tbl ! i)). pa_token x = t \<and> pa_token y = t \<and>
        pa_state_or_length x < 0 \<and> 0 \<le> pa_state_or_length y))"
proof (intro conjI allI impI)
  show "generate addr g \<noteq> Some (Inl (Assert_Failed ''shift-reduce conflict''))"
    using build_states_ok [OF assms] by (auto simp: generate_def)
next
  fix tbl ids S i t
  assume gen: "generate addr g = Some (Inr (tbl, ids))" and S: "build_states addr g = Some (Inr S)"
    and i: "i < length S" and sr: "shift_reduce g (gs_leads (S ! i)) t"
  have p: "printed g S tbl ids" using generate_printed [OF assms gen] S by auto
  obtain l l' where l: "l \<in> set (gs_leads (S ! i))" "dot g l = None" "t \<in> tokens_of (ld_terminals l)"
    and l': "l' \<in> set (gs_leads (S ! i))" "dot g l' = Some (T t)"
    using sr by (auto simp: shift_reduce_def)
  from printed_finished_lead [OF p i l] printed_shift_lead [OF p i l']
  show "\<exists>x\<in>set (st_actions (tbl ! i)). \<exists>y\<in>set (st_actions (tbl ! i)). pa_token x = t \<and> pa_token y = t \<and>
      pa_state_or_length x < 0 \<and> 0 \<le> pa_state_or_length y" by metis
qed

lemma ambiguous_rules_ok: "rules_ok ambiguous_rules"
  by code_simp

lemma ambiguous_addresses_ok: "addresses_ok small_addr ambiguous_rules"
  by (simp add: addresses_ok_def ambiguous_rules_def small_addr_def grammar_root_def)

definition conflicting :: "rules \<Rightarrow> lead list \<Rightarrow> nat \<Rightarrow> bool" where
  "conflicting g leads t \<longleftrightarrow> list_ex (\<lambda>l. dot g l = None \<and> list_ex ((=) t) (token_bits (ld_terminals l))) leads \<and>
     list_ex (\<lambda>l. dot g l = Some (T t)) leads"

lemma ambiguous_built:
  "case build_states small_addr ambiguous_rules of
     Some (Inr S) \<Rightarrow> list_ex (\<lambda>s. conflicting ambiguous_rules (gs_leads s) TKN_SEMICOLON) S
   | _ \<Rightarrow> False"
  by code_simp

theorem shift_reduce_unnoticed_witness:
  "\<exists>tbl ids i. generate small_addr ambiguous_rules = Some (Inr (tbl, ids)) \<and>
    (\<exists>x\<in>set (st_actions (tbl ! i)). \<exists>y\<in>set (st_actions (tbl ! i)).
      pa_token x = TKN_SEMICOLON \<and> pa_token y = TKN_SEMICOLON \<and>
      pa_state_or_length x < 0 \<and> 0 \<le> pa_state_or_length y)"
proof -
  obtain S where S: "build_states small_addr ambiguous_rules = Some (Inr S)"
    "list_ex (\<lambda>s. conflicting ambiguous_rules (gs_leads s) TKN_SEMICOLON) S"
    using ambiguous_built by (auto split: option.splits sum.splits)
  then obtain i where i: "i < length S" "conflicting ambiguous_rules (gs_leads (S ! i)) TKN_SEMICOLON"
    by (auto simp: list_ex_iff in_set_conv_nth)
  have "shift_reduce ambiguous_rules (gs_leads (S ! i)) TKN_SEMICOLON"
    using i(2) by (auto simp: conflicting_def shift_reduce_def list_ex_iff token_bits_set)
  moreover obtain tbl ids where gen: "generate small_addr ambiguous_rules = Some (Inr (tbl, ids))"
    using S(1) by (cases "emit_states ambiguous_rules [] S") (simp add: generate_def)
  moreover note shift_reduce_unnoticed [OF ambiguous_rules_ok ambiguous_addresses_ok]
  ultimately show ?thesis using S(1) i(1) by blast
qed

text \<open>
  C35: the table never chooses between reductions. In a table the generator returns, all reductions
  of a state are by the same variant, whatever their tokens; so a grammar that needs the next token
  to tell two reductions apart gets no table, also where it is LR(1).
\<close>

theorem reductions_agree:
  assumes "rules_ok g" and "addresses_ok addr g" and "generate addr g = Some (Inr (tbl, ids))" and "i < length tbl"
    and "x \<in> set (st_actions (tbl ! i))" and "y \<in> set (st_actions (tbl ! i))"
    and "pa_state_or_length x < 0" and "pa_state_or_length y < 0"
  shows "pa_state_or_length x = pa_state_or_length y \<and> pa_rule x = pa_rule y \<and>
    (pa_rule x \<noteq> 0 \<longrightarrow> pa_tag x = pa_tag y \<and> pa_reducer x = pa_reducer y)"
proof -
  obtain S where p: "printed g S tbl ids" using generate_printed [OF assms(1-3)] by blast
  have i: "i < length S" using assms(4) printedD(3) [OF p] by simp
  obtain a l where a: "prints_action g ids a x" "ta_reduce a = Some (ld_rule l, ld_variant l)"
    and l: "l \<in> set (gs_leads (S ! i))" "lead_ok g l" "ld_position l = length (v_elements (lead_variant g l))"
    by (rule printed_reduce [OF p i assms(5,7)])
  obtain b k where b: "prints_action g ids b y" "ta_reduce b = Some (ld_rule k, ld_variant k)"
    and k: "k \<in> set (gs_leads (S ! i))" "lead_ok g k" "ld_position k = length (v_elements (lead_variant g k))"
    by (rule printed_reduce [OF p i assms(6,8)])
  have "dot g l = None" "dot g k = None" using l(3) k(3) by (simp_all add: dot_def)
  then have "l = k" using printedD(8) [OF p i] l(1) k(1) by (simp add: one_reduction_def)
  with a b show ?thesis by (cases "ld_rule k = fst grammar_root") (auto simp: prints_action_def)
qed

lemma ambiguous_reductions:
  "case generate small_addr ambiguous_rules of
     Some (Inr (tbl, ids)) \<Rightarrow> list_ex (\<lambda>st. list_ex (\<lambda>x. list_ex (\<lambda>y. pa_state_or_length x < 0 \<and>
       pa_state_or_length y < 0 \<and> pa_token x \<noteq> pa_token y) (st_actions st)) (st_actions st)) tbl
   | _ \<Rightarrow> False"
  by code_simp

theorem reductions_agree_witness:
  "\<exists>tbl ids i. generate small_addr ambiguous_rules = Some (Inr (tbl, ids)) \<and>
    (\<exists>x\<in>set (st_actions (tbl ! i)). \<exists>y\<in>set (st_actions (tbl ! i)).
      pa_state_or_length x < 0 \<and> pa_state_or_length y < 0 \<and> pa_token x \<noteq> pa_token y \<and> pa_rule x = pa_rule y)"
proof -
  obtain tbl ids where gen: "generate small_addr ambiguous_rules = Some (Inr (tbl, ids))"
    and two: "\<exists>st\<in>set tbl. \<exists>x\<in>set (st_actions st). \<exists>y\<in>set (st_actions st).
      pa_state_or_length x < 0 \<and> pa_state_or_length y < 0 \<and> pa_token x \<noteq> pa_token y"
    using ambiguous_reductions by (auto simp: list_ex_iff split: option.splits sum.splits prod.splits)
  then obtain i where i: "i < length tbl"
    and "\<exists>x\<in>set (st_actions (tbl ! i)). \<exists>y\<in>set (st_actions (tbl ! i)).
      pa_state_or_length x < 0 \<and> pa_state_or_length y < 0 \<and> pa_token x \<noteq> pa_token y"
    by (metis in_set_conv_nth)
  with reductions_agree [OF ambiguous_rules_ok ambiguous_addresses_ok gen i] gen show ?thesis by blast
qed

text \<open>After one identifier the next token tells the rule.\<close>

definition lookahead_rules :: rules where
  "lookahead_rules = [grammar_root,
     (''unit_list'', [plain_variant [N ''unit'', T TKN_SEMICOLON], plain_variant [N ''import_unit'', T TKN_COMMA]]),
     (''unit'', [plain_variant [T TKN_IDENT]]), (''import_unit'', [plain_variant [T TKN_IDENT]])]"

text \<open>An example: the terminals of the two finished leads are disjoint, and the generator aborts.\<close>

lemma disjoint_reductions_rejected:
  "generate small_addr lookahead_rules = Some (Inl (Assert_Failed ''reduce-reduce conflict'')) \<and>
   (case gather_leads lookahead_rules [root_lead] 0 1 of Some (Inr leads) \<Rightarrow>
      list_all (\<lambda>l. list_all (\<lambda>k. list_all2 (\<lambda>u w. u AND w = 0) (ld_terminals l) (ld_terminals k))
        (filter (\<lambda>k. ld_rule k = ''import_unit'') leads)) (filter (\<lambda>l. ld_rule l = ''unit'') leads)
    | _ \<Rightarrow> False)"
proof
  have "case generate small_addr lookahead_rules of Some (Inl e) \<Rightarrow> e = Assert_Failed ''reduce-reduce conflict'' | _ \<Rightarrow> False"
    by code_simp
  then show "generate small_addr lookahead_rules = Some (Inl (Assert_Failed ''reduce-reduce conflict''))"
    by (auto split: option.splits sum.splits)
qed code_simp

end
