(* ===== verification/Codegen.thy ===== *)
theory Codegen
  imports Ast_Types
begin

section \<open>The code generator: state, scopes and types (src/codegen.c, src/codegen_type.c)\<close>

text \<open>
  LLVM is a library outside the sources. What the code generator does with it is to call it: the
  model keeps the list of the calls made, and a value, block or function is the term it was
  obtained by: \<open>Val n\<close> is the result of the call number \<open>n\<close>; types and constants, which are
  determined by what they are made of, are terms. Nothing is assumed of what the calls do.
\<close>

subsection \<open>The calls\<close>

datatype ltype =
    Ty_Void
  | Ty_Int u32
  | Ty_Half
  | Ty_Float
  | Ty_Double
  | Ty_FP128
  | Ty_Pointer ltype
  | Ty_Array ltype u32
  | Ty_Struct "ltype list"
  | Ty_Function ltype "ltype list" bool
  | Ty_Of lval
and lval =
    Val nat
  | Const_Null ltype
  | Const_All_Ones ltype
  | Const_Int ltype nat
  | Const_Int_Of_String ltype string int
  | Const_Real_Of_String ltype string
  | Const_Struct "lval list"
  | Size_Of ltype

datatype binary_inst =
    I_Add | I_Sub | I_Mul | I_UDiv | I_SDiv | I_SRem | I_Shl | I_AShr | I_And | I_Or | I_Xor
  | I_FAdd | I_FSub | I_FMul | I_FDiv | I_FRem

datatype predicate =
    Int_EQ | Int_NE | Int_SLT | Int_SGT | Int_SLE | Int_SGE | Int_ULT
  | Real_OEQ | Real_ONE | Real_OLT | Real_OGT | Real_OLE | Real_OGE

datatype unary_inst = I_Neg | I_FNeg | I_Not

datatype cast_inst = Int_Cast | Pointer_Cast | Ptr_To_Int | Int_To_Ptr | Z_Ext

datatype call =
    Build_Alloca ltype string
  | Build_Load lval string
  | Build_Store lval lval
  | Build_Binary binary_inst lval lval string
  | Build_Cmp predicate lval lval string
  | Build_Unary unary_inst lval string
  | Build_Cast cast_inst lval ltype string
  | Build_In_Bounds_GEP lval "lval list" string
  | Build_Struct_GEP lval nat string
  | Build_Extract_Value lval nat string
  | Build_Insert_Value lval lval nat string
  | Build_Call lval "lval list" string
  | Build_Phi ltype string
  | Build_Malloc ltype string
  | Build_Array_Malloc ltype lval string
  | Build_Free lval
  | Build_Global_String_Ptr string string
  | Build_Br lval
  | Build_Cond_Br lval lval lval
  | Build_Ret lval
  | Build_Ret_Void
  | Build_Unreachable
  | Get_Insert_Block
  | Position_At_End lval
  | Append_Basic_Block lval string
  | Get_Basic_Block_Parent lval
  | Add_Incoming lval "(lval \<times> lval) list"
  | Add_Global ltype string
  | Set_Initializer lval lval
  | Set_Linkage_Once_ODR lval
  | Add_Function string ltype
  | Get_Param lval nat
  | Set_Value_Name lval string
  | Get_Intrinsic_Trap
  | Create_Builder
  | Dispose_Builder
  | Verify_Function lval

subsection \<open>State\<close>

datatype symbol_kind = Invalid_Symbol | Func_Symbol | Implementation_Symbol | Interface_Function_Symbol

text \<open>
  The pointer of a symbol to its interface. \<open>Dangling\<close> is one into the frame of a call of
  \<open>codegen_type\<close> that has returned.
\<close>

datatype interface_ptr = No_Interface | Interface type_t | Dangling

record codegen_symbol =
  cs_kind :: symbol_kind
  cs_name :: "string option"
  cs_type :: "type_t option"
  cs_value :: "lval option"
  cs_decl :: "decl option"
  cs_interface :: interface_ptr
  cs_member :: nat

definition no_symbol :: codegen_symbol where
  "no_symbol = \<lparr>cs_kind = Invalid_Symbol, cs_name = None, cs_type = None, cs_value = None, cs_decl = None,
     cs_interface = No_Interface, cs_member = 0\<rparr>"

record codegen_context =
  cc_symbols :: "codegen_symbol list"
  cc_is_terminated :: bool

text \<open>
  The struct \<open>codegen\<close> (\<open>codegen_t\<close>): whether there is a builder, the targets of break and continue, the return
  type of the function in \<open>unit\<close>, the name of the package. \<open>cg_after\<close> are the bytes that happen to
  follow the buffer of a number literal, which is not terminated.
\<close>

record codegen_t =
  cg_builder :: bool
  cg_break_block :: "lval option"
  cg_continue_block :: "lval option"
  cg_unit :: "type_t option"
  cg_package :: "string option"
  cg_after :: string

text \<open>
  The state: the calls made so far and the chain of contexts, the innermost first (\<open>prev\<close> is the
  next one). A context is pushed where the code initialises one on its stack. The value of a
  constant is in the declaration its symbol points to, and is changed there.
\<close>

record cg_state =
  cg_calls :: "call list"
  cg_contexts :: "codegen_context list"

type_synonym 'a cg = "cg_state \<Rightarrow> ('a \<times> cg_state) res"

definition cret :: "'a \<Rightarrow> 'a cg" where
  "cret x = (\<lambda>s. Inr (x, s))"

definition cbind :: "'a cg \<Rightarrow> ('a \<Rightarrow> 'b cg) \<Rightarrow> 'b cg" where
  "cbind m f = (\<lambda>s. rbind (m s) (\<lambda>(x, s'). f x s'))"

definition cseq :: "'a cg \<Rightarrow> 'b cg \<Rightarrow> 'b cg" where
  "cseq m k = cbind m (\<lambda>_. k)"

definition cfail :: "fault \<Rightarrow> 'a cg" where
  "cfail e = (\<lambda>s. Inl e)"

definition clift :: "'a res \<Rightarrow> 'a cg" where
  "clift m = (\<lambda>s. rbind m (\<lambda>x. Inr (x, s)))"

definition cget :: "codegen_context list cg" where
  "cget = (\<lambda>s. Inr (cg_contexts s, s))"

definition cwhen :: "bool \<Rightarrow> unit cg \<Rightarrow> unit cg" where
  "cwhen b m = (if b then m else cret ())"

fun cmap :: "('a \<Rightarrow> 'b cg) \<Rightarrow> 'a list \<Rightarrow> 'b list cg" where
  "cmap f [] = cret []"
| "cmap f (x # xs) = cbind (f x) (\<lambda>y. cbind (cmap f xs) (\<lambda>ys. cret (y # ys)))"

definition derror :: "string \<Rightarrow> 'a cg" where
  "derror msg = cfail (Exited msg)"

definition die :: "string \<Rightarrow> 'a cg" where
  "die msg = cfail (Aborted msg)"

definition cassert :: "bool \<Rightarrow> string \<Rightarrow> unit cg" where
  "cassert b msg = cwhen (\<not> b) (cfail (Assert_Failed msg))"

text \<open>A call without a builder, and one through the builder, which must not be null.\<close>

definition llvm :: "call \<Rightarrow> lval cg" where
  "llvm c = (\<lambda>s. Inr (Val (length (cg_calls s)), s\<lparr>cg_calls := cg_calls s @ [c]\<rparr>))"

definition build :: "codegen_t \<Rightarrow> call \<Rightarrow> lval cg" where
  "build self c = (if cg_builder self then llvm c else cfail (Undefined ''call through a null builder''))"

text \<open>The pattern \<open>LLVMAppendBasicBlock(LLVMGetBasicBlockParent(LLVMGetInsertBlock(builder)), name)\<close>.\<close>

definition current_func :: "codegen_t \<Rightarrow> lval cg" where
  "current_func self = cbind (build self Get_Insert_Block) (\<lambda>b. llvm (Get_Basic_Block_Parent b))"

subsection \<open>Contexts\<close>

definition codegen_context_init :: codegen_context where
  "codegen_context_init = \<lparr>cc_symbols = [], cc_is_terminated = False\<rparr>"

definition push_context :: "unit cg" where
  "push_context = (\<lambda>s. Inr ((), s\<lparr>cg_contexts := codegen_context_init # cg_contexts s\<rparr>))"

text \<open>The context that is disposed of, with its \<open>is_terminated\<close>.\<close>

definition codegen_context_dispose :: "bool cg" where
  "codegen_context_dispose = (\<lambda>s. case cg_contexts s of
     [] \<Rightarrow> Inl (Undefined ''no context'')
   | c # cs \<Rightarrow> Inr (cc_is_terminated c, s\<lparr>cg_contexts := cs\<rparr>))"

definition with_context :: "(codegen_context \<Rightarrow> codegen_context) \<Rightarrow> unit cg" where
  "with_context f = (\<lambda>s. case cg_contexts s of
     [] \<Rightarrow> Inl (Undefined ''no context'')
   | c # cs \<Rightarrow> Inr ((), s\<lparr>cg_contexts := f c # cs\<rparr>))"

definition set_terminated :: "unit cg" where
  "set_terminated = with_context (\<lambda>c. c\<lparr>cc_is_terminated := True\<rparr>)"

definition codegen_context_add_symbol :: "codegen_symbol \<Rightarrow> unit cg" where
  "codegen_context_add_symbol sy = with_context (\<lambda>c. c\<lparr>cc_symbols := cc_symbols c @ [sy]\<rparr>)"

text \<open>The pointer to a symbol is the number of its context and its index there.\<close>

fun symbol_index :: "codegen_symbol list \<Rightarrow> string \<Rightarrow> nat option" where
  "symbol_index [] name = None"
| "symbol_index (sy # sys) name =
     (if cs_name sy = Some name then Some 0 else map_option Suc (symbol_index sys name))"

fun codegen_context_find_symbol :: "codegen_context list \<Rightarrow> string \<Rightarrow> (nat \<times> nat) option" where
  "codegen_context_find_symbol [] name = None"
| "codegen_context_find_symbol (c # cs) name = (case symbol_index (cc_symbols c) name of
     Some i \<Rightarrow> Some (0, i)
   | None \<Rightarrow> map_option (\<lambda>(d, i). (Suc d, i)) (codegen_context_find_symbol cs name))"

definition symbol_at :: "codegen_context list \<Rightarrow> nat \<times> nat \<Rightarrow> codegen_symbol" where
  "symbol_at cs p = cc_symbols (cs ! fst p) ! snd p"

definition find_symbol :: "string \<Rightarrow> codegen_symbol option cg" where
  "find_symbol name = cbind cget (\<lambda>cs. cret (map_option (symbol_at cs) (codegen_context_find_symbol cs name)))"

text \<open>A write through the pointer to a symbol: the value of the constant it stands for.\<close>

definition set_const_value :: "nat \<times> nat \<Rightarrow> expr \<Rightarrow> unit cg" where
  "set_const_value p v = (\<lambda>s. let cs = cg_contexts s; c = cs ! fst p; sy = symbol_at cs p in
     Inr ((), s\<lparr>cg_contexts := cs[fst p := c\<lparr>cc_symbols := (cc_symbols c)[snd p :=
       sy\<lparr>cs_decl := (case cs_decl sy of
           Some (Decl l (Const_Decl n t _)) \<Rightarrow> Some (Decl l (Const_Decl n t v))
         | d \<Rightarrow> d)\<rparr>]\<rparr>]\<rparr>))"

fun mapping_of :: "implementation_mapping list \<Rightarrow> string \<Rightarrow> string option" where
  "mapping_of [] name = None"
| "mapping_of (m # ms) name = (if map_intf m = name then Some (map_func m) else mapping_of ms name)"

fun find_mapping_in :: "codegen_symbol list \<Rightarrow> type_t \<Rightarrow> type_t \<Rightarrow> string \<Rightarrow> string option res" where
  "find_mapping_in [] interface target name = Inr None"
| "find_mapping_in (sy # sys) interface target name =
     (case (cs_kind sy, cs_decl sy) of
        (Implementation_Symbol, Some (Decl l (Implementation_Decl i t ms))) \<Rightarrow>
          rbind (type_equal i interface) (\<lambda>b. if \<not> b then find_mapping_in sys interface target name
          else rbind (type_equal t target) (\<lambda>b. if \<not> b then find_mapping_in sys interface target name
          else case mapping_of ms name of
              Some f \<Rightarrow> Inr (Some f)
            | None \<Rightarrow> find_mapping_in sys interface target name))
      | _ \<Rightarrow> find_mapping_in sys interface target name)"

fun codegen_context_find_mapping ::
    "codegen_context list \<Rightarrow> type_t \<Rightarrow> type_t \<Rightarrow> string \<Rightarrow> string option res" where
  "codegen_context_find_mapping [] interface target name = Inr None"
| "codegen_context_find_mapping (c # cs) interface target name =
     rbind (find_mapping_in (cc_symbols c) interface target name) (\<lambda>r. case r of
       Some f \<Rightarrow> Inr (Some f)
     | None \<Rightarrow> codegen_context_find_mapping cs interface target name)"

subsection \<open>Names of types\<close>

text \<open>
  The recursion of the code generator need not end: the argument \<open>n\<close> bounds its depth, and a run
  that needs more is \<open>Diverges\<close>.
\<close>

primrec resolve_type_name :: "nat \<Rightarrow> type_t \<Rightarrow> type_t cg" where
  "resolve_type_name 0 ty = cfail Diverges"
| "resolve_type_name (Suc n) ty = (case ty of
     Type p (Named_Type name) \<Rightarrow>
       if p = 0 then
         cbind (find_symbol name) (\<lambda>sy. case sy of
           None \<Rightarrow> cfail (Assert_Failed ''unknown type name'')
         | Some sy \<Rightarrow> (case cs_type sy of
               None \<Rightarrow> cfail (Assert_Failed ''type'')
             | Some t \<Rightarrow> resolve_type_name n t))
       else cret ty
   | _ \<Rightarrow> cret ty)"

subsection \<open>Types\<close>

text \<open>
  The functions for the kinds take \<open>codegen_type\<close> as an argument. Its flag says whether the type
  it is given is a copy on the stack of its caller.
\<close>

type_synonym type_gen = "bool \<Rightarrow> type_t \<Rightarrow> ltype cg"

definition interface_arg_type :: "type_gen \<Rightarrow> type_t \<Rightarrow> ltype cg" where
  "interface_arg_type gen t =
     (if type_kind t = Placeholder_Type then cret (Ty_Pointer (Ty_Int 8)) else gen False t)"

definition interface_field_type :: "type_gen \<Rightarrow> interface_member \<Rightarrow> ltype cg" where
  "interface_field_type gen m = (case m of
     Member_Field name t \<Rightarrow> cbind (gen False t) (\<lambda>lt. cret (Ty_Pointer lt))
   | Member_Func name r as \<Rightarrow>
       cbind (cmap (interface_arg_type gen) as) (\<lambda>las.
       cbind (gen False r) (\<lambda>lr. cret (Ty_Pointer (Ty_Function lr las False))))
   | Member_Uninit \<Rightarrow> cfail (Undefined ''read of an uninitialised member kind''))"

definition make_interface_table_type :: "type_gen \<Rightarrow> interface_member list \<Rightarrow> ltype cg" where
  "make_interface_table_type gen ms =
     cbind (cmap (interface_field_type gen) ms) (\<lambda>fields. cret (Ty_Struct (Ty_Pointer (Ty_Int 8) # fields)))"

definition codegen_type_float :: "u32 \<Rightarrow> ltype cg" where
  "codegen_type_float w =
     (if w = 16 then cret Ty_Half else if w = 32 then cret Ty_Float else if w = 64 then cret Ty_Double
      else if w = 128 then cret Ty_FP128
      else die (''floating point type must be 16, 32, 64 or 128 bits wide but was '' @ format_d w))"

definition codegen_type_func :: "type_gen \<Rightarrow> type_t \<Rightarrow> type_t list \<Rightarrow> ltype cg" where
  "codegen_type_func gen r as =
     cbind (cmap (gen False) as) (\<lambda>las. cbind (gen False r) (\<lambda>lr. cret (Ty_Function lr las False)))"

definition codegen_type_named :: "type_gen \<Rightarrow> string \<Rightarrow> ltype cg" where
  "codegen_type_named gen name = cbind (find_symbol name) (\<lambda>sy. case sy of
     None \<Rightarrow> derror (''unknown type name '' @ name)
   | Some sy \<Rightarrow> (case cs_type sy of
         None \<Rightarrow> derror (name @ '' is not a type name'')
       | Some t \<Rightarrow> gen False t))"

definition codegen_type_struct :: "type_gen \<Rightarrow> struct_member list \<Rightarrow> ltype cg" where
  "codegen_type_struct gen ms =
     cbind (cmap (\<lambda>m. case m of Struct_Member t name \<Rightarrow> gen False t) ms) (\<lambda>lts. cret (Ty_Struct lts))"

definition codegen_type_slice :: "type_gen \<Rightarrow> type_t \<Rightarrow> ltype cg" where
  "codegen_type_slice gen t = cbind (gen False t) (\<lambda>lt.
     cret (Ty_Struct [Ty_Pointer lt, Ty_Int 64, Ty_Int 64, Ty_Pointer lt]))"

definition codegen_type_array :: "type_gen \<Rightarrow> type_t \<Rightarrow> u32 \<Rightarrow> ltype cg" where
  "codegen_type_array gen t len = cbind (gen False t) (\<lambda>lt. cret (Ty_Array lt len))"

text \<open>The symbols of the members; a field has its name in the place of a function's.\<close>

definition interface_symbol :: "bool \<Rightarrow> type_t \<Rightarrow> nat \<Rightarrow> interface_member \<Rightarrow> codegen_symbol res" where
  "interface_symbol on_stack ty i m =
     rbind (case m of Member_Field name t \<Rightarrow> Inr name | Member_Func name r as \<Rightarrow> Inr name
       | Member_Uninit \<Rightarrow> Inl (Undefined ''read of an uninitialised member'')) (\<lambda>name.
     Inr (no_symbol\<lparr>cs_kind := Interface_Function_Symbol, cs_name := Some name,
       cs_interface := (if on_stack then Dangling else Interface ty), cs_member := i\<rparr>))"

definition codegen_type_interface :: "type_gen \<Rightarrow> bool \<Rightarrow> type_t \<Rightarrow> interface_member list \<Rightarrow> ltype cg" where
  "codegen_type_interface gen on_stack ty ms =
     cbind (make_interface_table_type gen ms) (\<lambda>table.
     cseq (cmap (\<lambda>(i, m). cbind (clift (interface_symbol on_stack ty i m)) codegen_context_add_symbol)
       (enumerate 0 ms))
     (cret (Ty_Struct [Ty_Pointer table, Ty_Pointer (Ty_Int 8)])))"

text \<open>\<open>codegen_type_fn\<close>: the kinds without a function are not implemented.\<close>

definition codegen_type_kind :: "type_gen \<Rightarrow> bool \<Rightarrow> type_t \<Rightarrow> ltype cg" where
  "codegen_type_kind gen on_stack ty = (case type_kind ty of
     Void_Type \<Rightarrow> cret Ty_Void
   | Boolean_Type \<Rightarrow> cret (Ty_Int 1)
   | Integer_Type w \<Rightarrow> cret (Ty_Int w)
   | Float_Type w \<Rightarrow> codegen_type_float w
   | Func_Type r as \<Rightarrow> codegen_type_func gen r as
   | Named_Type name \<Rightarrow> codegen_type_named gen name
   | Struct_Type ms \<Rightarrow> codegen_type_struct gen ms
   | Slice_Type t \<Rightarrow> codegen_type_slice gen t
   | Array_Type t len \<Rightarrow> codegen_type_array gen t len
   | Interface_Type ms \<Rightarrow> codegen_type_interface gen on_stack ty ms
   | No_Type \<Rightarrow> die ''type codegen for kind not implemented''
   | Placeholder_Type \<Rightarrow> die ''type codegen for kind not implemented'')"

primrec codegen_type :: "nat \<Rightarrow> type_gen" where
  "codegen_type 0 on_stack ty = cfail Diverges"
| "codegen_type (Suc n) on_stack ty =
     (if 0 < type_pointer ty
      then cbind (codegen_type n True (Type (type_pointer ty - 1) (type_kind ty))) (\<lambda>lt. cret (Ty_Pointer lt))
      else codegen_type_kind (codegen_type n) on_stack ty)"

end
