(* ===== verification/Codegen_Prepare.thy ===== *)
theory Codegen_Prepare
  imports Codegen
begin

section \<open>The types of expressions (src/codegen_*_expr.c, prepare)\<close>

text \<open>
  \<open>prepare_expr\<close> writes a type into every expression, with a hint from the context for literals.
  The functions for the kinds take it as an argument, as the C code calls it through the table
  \<open>prepare_expr_fn\<close>, and return the expression with its types. A hint is a pointer to a type, or
  one past the parameters of a function, which must not be read.
\<close>

type_synonym hint = "type_t res option"

type_synonym prepare = "expr \<Rightarrow> hint \<Rightarrow> expr cg"

definition bool_type :: type_t where
  "bool_type = Type 0 Boolean_Type"

definition int_type :: type_t where
  "int_type = Type 0 (Integer_Type 64)"

definition hint_of :: "type_t \<Rightarrow> hint" where
  "hint_of t = Some (Inr t)"

text \<open>The expression with another type, or with other contents.\<close>

definition typed :: "expr \<Rightarrow> type_t \<Rightarrow> expr" where
  "typed e t = Expr (expr_loc e) t (expr_kind e)"

definition of_kind :: "expr \<Rightarrow> expr_kind \<Rightarrow> expr" where
  "of_kind e k = Expr (expr_loc e) (expr_type e) k"

definition copied :: "expr \<Rightarrow> type_t \<Rightarrow> expr cg" where
  "copied e t = cbind (clift (type_copy t)) (\<lambda>t'. cret (typed e t'))"

definition copied_hint :: "expr \<Rightarrow> hint \<Rightarrow> expr cg" where
  "copied_hint e h = (case h of None \<Rightarrow> cret e | Some r \<Rightarrow> cbind (clift r) (copied e))"

definition prepare_opt :: "prepare \<Rightarrow> expr option \<Rightarrow> hint \<Rightarrow> expr option cg" where
  "prepare_opt prep e h = (case e of None \<Rightarrow> cret None | Some e \<Rightarrow> cbind (prep e h) (\<lambda>e'. cret (Some e')))"

definition pointer_to :: "type_t \<Rightarrow> type_t" where
  "pointer_to t = Type (type_pointer t + 1) (type_kind t)"

definition pointee :: "type_t \<Rightarrow> type_t" where
  "pointee t = Type (type_pointer t - 1) (type_kind t)"

subsection \<open>Identifiers and literals\<close>

definition is_const_decl :: "decl option \<Rightarrow> bool" where
  "is_const_decl d = (case d of Some (Decl l (Const_Decl n t v)) \<Rightarrow> True | _ \<Rightarrow> False)"

definition const_value :: "decl option \<Rightarrow> expr res" where
  "const_value d = (case d of Some (Decl l (Const_Decl n t v)) \<Rightarrow> Inr v | _ \<Rightarrow> Inl (Undefined ''not a const''))"

definition type_ptr :: "type_t option \<Rightarrow> type_t cg" where
  "type_ptr t = (case t of None \<Rightarrow> cfail (Undefined ''null pointer'') | Some t \<Rightarrow> cret t)"

definition prepare_ident_expr :: "prepare \<Rightarrow> expr \<Rightarrow> string \<Rightarrow> hint \<Rightarrow> expr cg" where
  "prepare_ident_expr prep e name h =
     (if name = ''true'' \<or> name = ''false'' then cret (typed e (Type (type_pointer (expr_type e)) Boolean_Type))
      else cbind cget (\<lambda>cs. case codegen_context_find_symbol cs name of
        None \<Rightarrow> derror (''identifier '' @ name @ '' unknown'')
      | Some p \<Rightarrow>
          (let sy = symbol_at cs p in
           if cs_kind sy = Func_Symbol then
             cbind (type_ptr (cs_type sy)) (\<lambda>t. cbind (clift (type_copy t)) (\<lambda>t'. cret (typed e (pointer_to t'))))
           else if cs_value sy \<noteq> None then cbind (type_ptr (cs_type sy)) (copied e)
           else if \<not> is_const_decl (cs_decl sy) then derror (''expected identifier '' @ name @ '' to be a const'')
           else cbind (clift (const_value (cs_decl sy))) (\<lambda>v. cbind (prep v h) (\<lambda>v'.
             cseq (set_const_value p v') (copied e (expr_type v')))))))"

definition prepare_number_literal_expr :: "expr \<Rightarrow> hint \<Rightarrow> expr cg" where
  "prepare_number_literal_expr e h = copied_hint e h"

definition prepare_string_literal_expr :: "expr \<Rightarrow> expr cg" where
  "prepare_string_literal_expr e = cret (typed e (Type 1 (Integer_Type 8)))"

definition prepare_sizeof_expr :: "prepare \<Rightarrow> expr \<Rightarrow> hint \<Rightarrow> expr cg" where
  "prepare_sizeof_expr prep e h = (case expr_kind e of
     Sizeof_Expr x \<Rightarrow> cbind (prep x None) (\<lambda>x'. copied_hint (of_kind e (Sizeof_Expr x')) h)
   | _ \<Rightarrow> copied_hint e h)"

subsection \<open>Operators\<close>

definition prepare_assignment_expr :: "prepare \<Rightarrow> expr \<Rightarrow> expr \<Rightarrow> expr \<Rightarrow> assignment_op \<Rightarrow> hint \<Rightarrow> expr cg" where
  "prepare_assignment_expr prep e target value op h =
     cbind (prep target h) (\<lambda>target'.
     cbind (prep value (hint_of (expr_type target'))) (\<lambda>value'.
     cbind (clift (type_equal (expr_type target') (expr_type value'))) (\<lambda>b.
     if \<not> b then
       cbind (clift (type_describe (expr_type target'))) (\<lambda>t1.
       cbind (clift (type_describe (expr_type value'))) (\<lambda>t2.
       derror (''incompatible types in assignment ('' @ t1 @ '' and '' @ t2 @ '')'')))
     else copied (of_kind e (Assignment_Expr target' value' op)) (expr_type target'))))"

definition arithmetic_op :: "binary_op \<Rightarrow> bool" where
  "arithmetic_op op \<longleftrightarrow> op \<in> {Op_Add, Op_Sub, Op_Mul, Op_Div, Op_Mod, Op_Left, Op_Right, Op_Bitwise_And,
     Op_Bitwise_Xor, Op_Bitwise_Or}"

definition untyped :: "expr \<Rightarrow> bool" where
  "untyped e \<longleftrightarrow> type_kind (expr_type e) = No_Type"

definition prepare_binary_expr :: "prepare \<Rightarrow> expr \<Rightarrow> expr \<Rightarrow> expr \<Rightarrow> binary_op \<Rightarrow> hint \<Rightarrow> expr cg" where
  "prepare_binary_expr prep e lhs rhs op h =
     (let hint = (if arithmetic_op op then h else None) in
      cbind (prep lhs None) (\<lambda>l1. cbind (prep rhs None) (\<lambda>r1.
      cbind (if untyped l1 \<and> untyped r1
             then cbind (prep l1 hint) (\<lambda>l2. cbind (prep r1 hint) (\<lambda>r2. cret (l2, r2)))
             else cret (l1, r1)) (\<lambda>(l2, r2).
      cbind (if untyped l2 \<and> \<not> untyped r2 then prep l2 (hint_of (expr_type r2)) else cret l2) (\<lambda>l3.
      cbind (if untyped r2 \<and> \<not> untyped l3 then prep r2 (hint_of (expr_type l3)) else cret r2) (\<lambda>r3.
      (let e' = of_kind e (Binary_Expr l3 r3 op) in
       if op \<in> {Op_Lt, Op_Gt, Op_Le, Op_Ge, Op_Eq, Op_Ne, Op_And, Op_Or} then cret (typed e' bool_type)
       else copied e' (expr_type l3))))))))"

definition prepare_unary_expr :: "prepare \<Rightarrow> expr \<Rightarrow> expr \<Rightarrow> unary_op \<Rightarrow> hint \<Rightarrow> expr cg" where
  "prepare_unary_expr prep e target op h = (case op of
     Op_Address \<Rightarrow>
       cbind (case h of None \<Rightarrow> cret None
           | Some r \<Rightarrow> cbind (clift r) (\<lambda>t. if 0 < type_pointer t
               then cbind (clift (type_copy t)) (\<lambda>t'. cret (hint_of (pointee t'))) else cret None)) (\<lambda>inner.
       cbind (prep target inner) (\<lambda>target'.
       cbind (clift (type_copy (expr_type target'))) (\<lambda>t.
       cret (typed (of_kind e (Unary_Expr target' op)) (pointer_to t)))))
   | Op_Deref \<Rightarrow>
       cbind (case h of None \<Rightarrow> cret None
           | Some r \<Rightarrow> cbind (clift r) (\<lambda>t. cbind (clift (type_copy t)) (\<lambda>t'. cret (hint_of (pointer_to t'))))) (\<lambda>inner.
       cbind (prep target inner) (\<lambda>target'.
       cseq (clift (type_copy (expr_type target')))
       (if type_pointer (expr_type target') = 0 then derror ''cannot dereference non-pointer''
        else cret (typed (of_kind e (Unary_Expr target' op)) (pointee (expr_type target'))))))
   | Op_Not \<Rightarrow>
       cbind (prep target (hint_of bool_type)) (\<lambda>target'.
       cret (typed (of_kind e (Unary_Expr target' op)) bool_type))
   | _ \<Rightarrow>
       cbind (prep target h) (\<lambda>target'.
       copied (of_kind e (Unary_Expr target' op)) (expr_type target')))"

definition prepare_incdec_expr ::
    "prepare \<Rightarrow> expr \<Rightarrow> expr \<Rightarrow> incdec_order \<Rightarrow> incdec_direction \<Rightarrow> hint \<Rightarrow> expr cg" where
  "prepare_incdec_expr prep e target ord dir h =
     cbind (prep target h) (\<lambda>target'. copied (of_kind e (Incdec_Expr target' ord dir)) (expr_type target'))"

definition prepare_cast_expr :: "prepare \<Rightarrow> expr \<Rightarrow> expr \<Rightarrow> type_t \<Rightarrow> expr cg" where
  "prepare_cast_expr prep e target ty =
     cbind (prep target (hint_of ty)) (\<lambda>target'. copied (of_kind e (Cast_Expr target' ty)) ty)"

definition prepare_conditional_expr :: "prepare \<Rightarrow> expr \<Rightarrow> expr \<Rightarrow> expr \<Rightarrow> expr \<Rightarrow> hint \<Rightarrow> expr cg" where
  "prepare_conditional_expr prep e c x y h =
     cbind (prep c (hint_of bool_type)) (\<lambda>c'. cbind (prep x h) (\<lambda>x'. cbind (prep y h) (\<lambda>y'.
     cbind (clift (type_equal (expr_type x') (expr_type y'))) (\<lambda>b.
     if \<not> b then derror ''true and false expression of conditional must be of the same type''
     else copied (of_kind e (Conditional_Expr c' x' y')) (expr_type x')))))"

definition prepare_comma_expr :: "prepare \<Rightarrow> expr \<Rightarrow> expr list \<Rightarrow> hint \<Rightarrow> expr cg" where
  "prepare_comma_expr prep e es h =
     cbind (cmap (\<lambda>x. prep x h) es) (\<lambda>es'.
     if es' = [] then cfail (Undefined ''read of an uninitialised pointer'')
     else copied (of_kind e (Comma_Expr es')) (expr_type (last es')))"

subsection \<open>Access\<close>

definition prepare_index_access_expr :: "nat \<Rightarrow> prepare \<Rightarrow> expr \<Rightarrow> expr \<Rightarrow> expr \<Rightarrow> expr cg" where
  "prepare_index_access_expr n prep e target index =
     cbind (prep target None) (\<lambda>target'. cbind (prep index (hint_of int_type)) (\<lambda>index'.
     cbind (resolve_type_name n (expr_type target')) (\<lambda>t.
     (let e' = of_kind e (Index_Access_Expr target' index') in
      if 0 < type_pointer t then cbind (clift (type_copy t)) (\<lambda>t'. cret (typed e' (pointee t')))
      else (case type_kind t of
          Array_Type u len \<Rightarrow> copied e' u
        | Slice_Type u \<Rightarrow> copied e' u
        | _ \<Rightarrow> derror ''cannot index into non-pointer'')))))"

definition prepare_index_slice_expr ::
    "nat \<Rightarrow> prepare \<Rightarrow> expr \<Rightarrow> expr \<Rightarrow> expr option \<Rightarrow> expr option \<Rightarrow> index_slice_kind \<Rightarrow> expr cg" where
  "prepare_index_slice_expr n prep e target fst_e lst_e kind =
     cbind (prep target None) (\<lambda>target'. cbind (prepare_opt prep fst_e (hint_of int_type)) (\<lambda>f'.
     cbind (prepare_opt prep lst_e (hint_of int_type)) (\<lambda>l'.
     cbind (resolve_type_name n (expr_type target')) (\<lambda>t.
     (let e' = of_kind e (Index_Slice_Expr target' f' l' kind) in
      case type_kind t of
        Slice_Type u \<Rightarrow> copied e' (expr_type target')
      | Array_Type u len \<Rightarrow> cbind (clift (type_copy u)) (\<lambda>u'. cret (typed e' (Type 0 (Slice_Type u'))))
      | _ \<Rightarrow> cbind (clift (type_describe (expr_type target'))) (\<lambda>td.
          derror (''expression of type '' @ td @ '' cannot be sliced'')))))))"

text \<open>The first field of an interface, or of a struct, of a name.\<close>

fun interface_field :: "nat \<Rightarrow> interface_member list \<Rightarrow> string \<Rightarrow> (nat \<times> type_t) option res" where
  "interface_field i [] name = Inr None"
| "interface_field i (m # ms) name = (case m of
     Member_Field f t \<Rightarrow> if name = f then Inr (Some (i, t)) else interface_field (Suc i) ms name
   | Member_Func f r as \<Rightarrow> interface_field (Suc i) ms name
   | Member_Uninit \<Rightarrow> Inl (Undefined ''read of an uninitialised member kind''))"

fun struct_field :: "nat \<Rightarrow> struct_member list \<Rightarrow> string \<Rightarrow> (nat \<times> type_t) option" where
  "struct_field i [] name = None"
| "struct_field i (Struct_Member t f # ms) name =
     (if name = f then Some (i, t) else struct_field (Suc i) ms name)"

definition prepare_member_access_expr :: "nat \<Rightarrow> prepare \<Rightarrow> expr \<Rightarrow> expr \<Rightarrow> string \<Rightarrow> expr cg" where
  "prepare_member_access_expr n prep e target name =
     cbind (prep target None) (\<lambda>target'.
     cbind (resolve_type_name n (expr_type target')) (\<lambda>st.
     (let e' = of_kind e (Member_Access_Expr target' name) in
      case type_kind st of
        Interface_Type ms \<Rightarrow>
          if 0 < type_pointer st
          then derror ''cannot access member of pointer to an interface, dereference the pointer''
          else cbind (clift (interface_field 0 ms name)) (\<lambda>r. case r of
              None \<Rightarrow> derror (''interface has no member named '' @ name)
            | Some (i, t) \<Rightarrow> copied e' t)
      | _ \<Rightarrow>
          cbind (if 0 < type_pointer st then resolve_type_name n (pointee st) else cret st) (\<lambda>st'.
          case type_kind st' of
            Struct_Type ms \<Rightarrow> (case struct_field 0 ms name of
                None \<Rightarrow> derror (''struct has no member named '' @ name)
              | Some (i, t) \<Rightarrow> copied e' t)
          | _ \<Rightarrow> derror ''cannot access member of non-struct''))))"

subsection \<open>Calls\<close>

text \<open>The argument number \<open>i\<close> has the type of the parameter number \<open>i\<close> as its hint.\<close>

fun prepare_args :: "prepare \<Rightarrow> expr list \<Rightarrow> type_t list \<Rightarrow> expr list cg" where
  "prepare_args prep [] ts = cret []"
| "prepare_args prep (e # es) ts =
     cbind (prep e (Some (case ts of t # _ \<Rightarrow> Inr t | [] \<Rightarrow> Inl (Undefined ''read past the parameters'')))) (\<lambda>e'.
     cbind (prepare_args prep es (tl ts)) (\<lambda>es'. cret (e' # es')))"

definition prepare_call_expr :: "nat \<Rightarrow> prepare \<Rightarrow> expr \<Rightarrow> expr \<Rightarrow> expr list \<Rightarrow> expr cg" where
  "prepare_call_expr n prep e target args = (case expr_kind target of
     Ident_Expr name \<Rightarrow>
       cbind (find_symbol name) (\<lambda>sy. case sy of
         None \<Rightarrow> derror (''identifier '' @ name @ '' unknown'')
       | Some sy \<Rightarrow>
           if cs_kind sy = Interface_Function_Symbol then (case cs_interface sy of
               Interface (Type p (Interface_Type ms)) \<Rightarrow> (case ms ! cs_member sy of
                   Member_Func f r as \<Rightarrow>
                     cbind (clift (type_copy r)) (\<lambda>t. cbind (prepare_args prep args as) (\<lambda>args'.
                     cret (typed (of_kind e (Call_Expr target args')) t)))
                 | Member_Field f t \<Rightarrow> cfail (Assert_Failed ''m->kind == AST_MEMBER_FUNCTION'')
                 | Member_Uninit \<Rightarrow> cfail (Undefined ''read of an uninitialised member kind''))
             | _ \<Rightarrow> cfail (Undefined ''dangling pointer to an interface''))
           else (case cs_type sy of
               Some (Type p (Func_Type r as)) \<Rightarrow>
                 cbind (clift (type_copy r)) (\<lambda>t. cbind (prepare_args prep args as) (\<lambda>args'.
                 cret (typed (of_kind e (Call_Expr target args')) t)))
             | _ \<Rightarrow> derror (''identifier '' @ name @ '' is not a function'')))
   | Member_Access_Expr x name \<Rightarrow>
       cbind (prep x None) (\<lambda>x'. cbind (resolve_type_name n (expr_type x')) (\<lambda>t. case type_kind t of
         Interface_Type ms \<Rightarrow> derror ''interface calls not yet implemented''
       | _ \<Rightarrow> derror ''non-interface cannot be called''))
   | _ \<Rightarrow> derror ''expression cannot be called'')"

subsection \<open>Builtins\<close>

definition prepare_new_builtin_expr :: "prepare \<Rightarrow> expr \<Rightarrow> type_t \<Rightarrow> expr option \<Rightarrow> expr cg" where
  "prepare_new_builtin_expr prep e ty sz =
     cbind (prepare_opt prep sz (hint_of int_type)) (\<lambda>sz'.
     cbind (clift (type_copy ty)) (\<lambda>t. cret (typed (of_kind e (New_Builtin ty sz')) (pointer_to t))))"

text \<open>Only the kind is written, so a pointer depth would stay.\<close>

definition void_kind :: "expr \<Rightarrow> expr" where
  "void_kind e = typed e (Type (type_pointer (expr_type e)) Void_Type)"

definition prepare_free_builtin_expr :: "prepare \<Rightarrow> expr \<Rightarrow> expr \<Rightarrow> expr cg" where
  "prepare_free_builtin_expr prep e x =
     cbind (prep x None) (\<lambda>x'.
     if type_pointer (expr_type x') = 0 then derror ''cannot free non-pointer''
     else cret (void_kind (of_kind e (Free_Builtin x'))))"

definition prepare_make_builtin_expr :: "nat \<Rightarrow> prepare \<Rightarrow> expr \<Rightarrow> type_t \<Rightarrow> expr \<Rightarrow> expr cg" where
  "prepare_make_builtin_expr n prep e ty x =
     cbind (resolve_type_name n ty) (\<lambda>t. case type_kind t of
       Slice_Type u \<Rightarrow> cbind (prep x (hint_of int_type)) (\<lambda>x'. copied (of_kind e (Make_Builtin ty x')) ty)
     | _ \<Rightarrow> derror ''cannot make non-slice'')"

definition prepare_lencap_builtin_expr :: "nat \<Rightarrow> prepare \<Rightarrow> expr \<Rightarrow> lencap_kind \<Rightarrow> expr \<Rightarrow> expr cg" where
  "prepare_lencap_builtin_expr n prep e kind x =
     cbind (prep x None) (\<lambda>x'. cbind (resolve_type_name n (expr_type x')) (\<lambda>t. case type_kind t of
       Slice_Type u \<Rightarrow> copied (of_kind e (Lencap_Builtin kind x')) int_type
     | _ \<Rightarrow> derror ''cannot use with non-slice type''))"

definition prepare_dispose_builtin_expr :: "nat \<Rightarrow> prepare \<Rightarrow> expr \<Rightarrow> expr \<Rightarrow> expr cg" where
  "prepare_dispose_builtin_expr n prep e x =
     cbind (prep x None) (\<lambda>x'. cbind (resolve_type_name n (expr_type x')) (\<lambda>t. case type_kind t of
       Slice_Type u \<Rightarrow> cret (void_kind (of_kind e (Dispose_Builtin x')))
     | _ \<Rightarrow> cbind (clift (type_describe (expr_type x'))) (\<lambda>td.
         derror (''dispose can only be used on slices, got '' @ td))))"

subsection \<open>The table\<close>

text \<open>\<open>prepare_expr\<close>, its depth bounded by the first argument.\<close>

definition prepare_kind :: "nat \<Rightarrow> prepare \<Rightarrow> expr \<Rightarrow> hint \<Rightarrow> expr cg" where
  "prepare_kind n prep e h = (case expr_kind e of
     Ident_Expr name \<Rightarrow> prepare_ident_expr prep e name h
   | String_Literal_Expr s \<Rightarrow> prepare_string_literal_expr e
   | Number_Literal_Expr s r \<Rightarrow> prepare_number_literal_expr e h
   | Index_Access_Expr t i \<Rightarrow> prepare_index_access_expr n prep e t i
   | Index_Slice_Expr t f l k \<Rightarrow> prepare_index_slice_expr n prep e t f l k
   | Call_Expr t as \<Rightarrow> prepare_call_expr n prep e t as
   | Member_Access_Expr t m \<Rightarrow> prepare_member_access_expr n prep e t m
   | Incdec_Expr t ord dir \<Rightarrow> prepare_incdec_expr prep e t ord dir h
   | Unary_Expr t op \<Rightarrow> prepare_unary_expr prep e t op h
   | Sizeof_Expr x \<Rightarrow> prepare_sizeof_expr prep e h
   | Sizeof_Type t \<Rightarrow> prepare_sizeof_expr prep e h
   | Cast_Expr t ty \<Rightarrow> prepare_cast_expr prep e t ty
   | Binary_Expr a b op \<Rightarrow> prepare_binary_expr prep e a b op h
   | Conditional_Expr c a b \<Rightarrow> prepare_conditional_expr prep e c a b h
   | Assignment_Expr t x op \<Rightarrow> prepare_assignment_expr prep e t x op h
   | Comma_Expr es \<Rightarrow> prepare_comma_expr prep e es h
   | New_Builtin ty x \<Rightarrow> prepare_new_builtin_expr prep e ty x
   | Free_Builtin x \<Rightarrow> prepare_free_builtin_expr prep e x
   | Make_Builtin ty x \<Rightarrow> prepare_make_builtin_expr n prep e ty x
   | Lencap_Builtin k x \<Rightarrow> prepare_lencap_builtin_expr n prep e k x
   | Dispose_Builtin x \<Rightarrow> prepare_dispose_builtin_expr n prep e x)"

primrec prepare_expr :: "nat \<Rightarrow> prepare" where
  "prepare_expr 0 e h = cfail Diverges"
| "prepare_expr (Suc n) e h = prepare_kind n (prepare_expr n) e h"

end
