(* ===== verification/Codegen_Expr.thy ===== *)
theory Codegen_Expr
  imports Codegen_Prepare
begin

section \<open>The code of expressions (src/codegen_*_expr.c, codegen)\<close>

text \<open>
  \<open>codegen_expr\<close> makes the calls that compute an expression, or its address for an lvalue, from
  the types \<open>prepare_expr\<close> has written. The functions for the kinds take it as an argument, as the
  C code calls it through the table \<open>codegen_expr_fn\<close>.
\<close>

type_synonym gen = "bool \<Rightarrow> expr \<Rightarrow> lval cg"

definition exec :: "codegen_t \<Rightarrow> call \<Rightarrow> unit cg" where
  "exec self c = cbind (build self c) (\<lambda>_. cret ())"

definition append_block :: "lval \<Rightarrow> string \<Rightarrow> lval cg" where
  "append_block func name = llvm (Append_Basic_Block func name)"

definition load_unless :: "codegen_t \<Rightarrow> bool \<Rightarrow> lval \<Rightarrow> lval cg" where
  "load_unless self lvalue ptr = (if lvalue then cret ptr else build self (Build_Load ptr []))"

definition value_ptr :: "lval option \<Rightarrow> lval cg" where
  "value_ptr v = (case v of None \<Rightarrow> cfail (Undefined ''null value'') | Some v \<Rightarrow> cret v)"

definition i8_pointer :: ltype where
  "i8_pointer = Ty_Pointer (Ty_Int 8)"

text \<open>The type of an expression after its code: a conditional takes over that of its first branch.\<close>

fun settled_type :: "expr \<Rightarrow> type_t" where
  "settled_type (Expr l t k) = (case k of Conditional_Expr c x y \<Rightarrow> settled_type x | _ \<Rightarrow> t)"

subsection \<open>Identifiers and literals\<close>

definition codegen_ident_expr :: "codegen_t \<Rightarrow> gen \<Rightarrow> bool \<Rightarrow> string \<Rightarrow> lval cg" where
  "codegen_ident_expr self gen lvalue name =
     (if name = ''true'' then
        if lvalue then derror ''true is not a valid lvalue'' else cret (Const_All_Ones (Ty_Int 1))
      else if name = ''false'' then
        if lvalue then derror ''false is not a valid lvalue'' else cret (Const_Null (Ty_Int 1))
      else cbind (find_symbol name) (\<lambda>sy. case sy of
        None \<Rightarrow> cfail (Assert_Failed ''identifier unknown'')
      | Some sy \<Rightarrow>
          if cs_kind sy = Func_Symbol then value_ptr (cs_value sy)
          else (case cs_value sy of
              Some ptr \<Rightarrow> load_unless self lvalue ptr
            | None \<Rightarrow>
                cseq (cassert (is_const_decl (cs_decl sy)) ''expected identifier to be a const'')
                (cseq (cassert (\<not> lvalue) ''const is not a valid lvalue'')
                (cbind (clift (const_value (cs_decl sy))) (gen False))))))"

text \<open>The text up to the terminating NUL, which may lie behind the buffer.\<close>

definition literal_text :: "codegen_t \<Rightarrow> string \<Rightarrow> string res" where
  "literal_text self lit = (let mem = lit @ cg_after self in
     if CHR 0x00 \<in> set mem then Inr (takeWhile (\<lambda>c. c \<noteq> CHR 0x00) mem)
     else Inl (Undefined ''read past the end of the literal''))"

fun skip_zeros :: "string \<Rightarrow> string" where
  "skip_zeros (c # d # cs) = (if c = CHR ''0'' then skip_zeros (d # cs) else c # d # cs)"
| "skip_zeros cs = cs"

definition codegen_number_literal_expr :: "nat \<Rightarrow> codegen_t \<Rightarrow> bool \<Rightarrow> expr \<Rightarrow> string \<Rightarrow> int \<Rightarrow> lval cg" where
  "codegen_number_literal_expr n self lvalue e lit radix =
     cseq (cassert (\<not> lvalue) ''number literal is not a valid lvalue'')
     (case type_kind (expr_type e) of
        No_Type \<Rightarrow> derror ''type of literal cannot be inferred from context, use a cast''
      | Integer_Type w \<Rightarrow> cbind (codegen_type n False (expr_type e)) (\<lambda>lt.
          cbind (clift (literal_text self lit)) (\<lambda>txt'. cret (Const_Int_Of_String lt txt' radix)))
      | Float_Type w \<Rightarrow> cbind (codegen_type n False (expr_type e)) (\<lambda>lt.
          cbind (clift (literal_text self lit)) (\<lambda>txt'. cret (Const_Real_Of_String lt txt')))
      | Boolean_Type \<Rightarrow> cbind (clift (literal_text self lit)) (\<lambda>txt'.
          (let p = skip_zeros txt' in
           if p = ''0'' then cret (Const_Null (Ty_Int 1))
           else if p = ''1'' then cret (Const_All_Ones (Ty_Int 1))
           else derror (txt' @ '' is not a valid boolean number, can only be 0 or 1'')))
      | _ \<Rightarrow> derror ''number literal can only be an integer, a boolean, or a float'')"

definition codegen_string_literal_expr :: "codegen_t \<Rightarrow> bool \<Rightarrow> string \<Rightarrow> lval cg" where
  "codegen_string_literal_expr self lvalue s =
     cseq (cassert (\<not> lvalue) ''string literal is not a valid lvalue'')
     (build self (Build_Global_String_Ptr s ''.str''))"

definition codegen_sizeof_expr :: "nat \<Rightarrow> codegen_t \<Rightarrow> gen \<Rightarrow> bool \<Rightarrow> expr \<Rightarrow> lval cg" where
  "codegen_sizeof_expr n self gen lvalue e =
     cseq (cassert (\<not> lvalue) ''result of sizeof expression is not a valid lvalue'')
     (if untyped e then derror ''return type of sizeof() cannot be inferred from context, use a cast''
      else cbind (case expr_kind e of
          Sizeof_Expr x \<Rightarrow> cbind (gen False x) (\<lambda>v. cret (Size_Of (Ty_Of v)))
        | Sizeof_Type t \<Rightarrow> cbind (codegen_type n False t) (\<lambda>lt. cret (Size_Of lt))
        | _ \<Rightarrow> die ''codegen for sizeof mode not implemented'') (\<lambda>v.
        cbind (codegen_type n False (expr_type e)) (\<lambda>lt. build self (Build_Cast Int_Cast v lt []))))"

subsection \<open>Operators\<close>

definition codegen_assignment_expr :: "codegen_t \<Rightarrow> gen \<Rightarrow> expr \<Rightarrow> expr \<Rightarrow> assignment_op \<Rightarrow> lval cg" where
  "codegen_assignment_expr self gen target value op =
     cbind (gen True target) (\<lambda>lv. cbind (gen False value) (\<lambda>rv.
     cbind (if op = Assign then cret rv
            else cbind (build self (Build_Load lv [])) (\<lambda>dv. case op of
                Add_Assign \<Rightarrow> build self (Build_Binary I_Add dv rv [])
              | Sub_Assign \<Rightarrow> build self (Build_Binary I_Sub dv rv [])
              | Mul_Assign \<Rightarrow> build self (Build_Binary I_Mul dv rv [])
              | Div_Assign \<Rightarrow> build self (Build_Binary I_UDiv dv rv [])
              | _ \<Rightarrow> die ''codegen for assignment op not implemented'')) (\<lambda>v.
     cseq (exec self (Build_Store v lv)) (cret rv))))"

text \<open>The instruction for an operator on operands of a kind, where there is one.\<close>

fun boolean_inst :: "binary_op \<Rightarrow> (binary_inst + predicate) option" where
  "boolean_inst Op_Eq = Some (Inr Int_EQ)"
| "boolean_inst Op_Ne = Some (Inr Int_NE)"
| "boolean_inst Op_And = Some (Inl I_And)"
| "boolean_inst Op_Or = Some (Inl I_Or)"
| "boolean_inst _ = None"

fun integer_inst :: "binary_op \<Rightarrow> (binary_inst + predicate) option" where
  "integer_inst Op_Add = Some (Inl I_Add)"
| "integer_inst Op_Sub = Some (Inl I_Sub)"
| "integer_inst Op_Mul = Some (Inl I_Mul)"
| "integer_inst Op_Div = Some (Inl I_SDiv)"
| "integer_inst Op_Mod = Some (Inl I_SRem)"
| "integer_inst Op_Left = Some (Inl I_Shl)"
| "integer_inst Op_Right = Some (Inl I_AShr)"
| "integer_inst Op_Lt = Some (Inr Int_SLT)"
| "integer_inst Op_Gt = Some (Inr Int_SGT)"
| "integer_inst Op_Le = Some (Inr Int_SLE)"
| "integer_inst Op_Ge = Some (Inr Int_SGE)"
| "integer_inst Op_Eq = Some (Inr Int_EQ)"
| "integer_inst Op_Ne = Some (Inr Int_NE)"
| "integer_inst Op_Bitwise_And = Some (Inl I_And)"
| "integer_inst Op_Bitwise_Xor = Some (Inl I_Xor)"
| "integer_inst Op_Bitwise_Or = Some (Inl I_Or)"
| "integer_inst _ = None"

fun float_inst :: "binary_op \<Rightarrow> (binary_inst + predicate) option" where
  "float_inst Op_Add = Some (Inl I_FAdd)"
| "float_inst Op_Sub = Some (Inl I_FSub)"
| "float_inst Op_Mul = Some (Inl I_FMul)"
| "float_inst Op_Div = Some (Inl I_FDiv)"
| "float_inst Op_Mod = Some (Inl I_FRem)"
| "float_inst Op_Lt = Some (Inr Real_OLT)"
| "float_inst Op_Gt = Some (Inr Real_OGT)"
| "float_inst Op_Le = Some (Inr Real_OLE)"
| "float_inst Op_Ge = Some (Inr Real_OGE)"
| "float_inst Op_Eq = Some (Inr Real_OEQ)"
| "float_inst Op_Ne = Some (Inr Real_ONE)"
| "float_inst _ = None"

definition build_inst :: "codegen_t \<Rightarrow> binary_inst + predicate \<Rightarrow> lval \<Rightarrow> lval \<Rightarrow> lval cg" where
  "build_inst self i a b = (case i of
     Inl op \<Rightarrow> build self (Build_Binary op a b []) | Inr p \<Rightarrow> build self (Build_Cmp p a b []))"

definition codegen_binary_expr :: "codegen_t \<Rightarrow> gen \<Rightarrow> bool \<Rightarrow> expr \<Rightarrow> expr \<Rightarrow> binary_op \<Rightarrow> lval cg" where
  "codegen_binary_expr self gen lvalue lhs rhs op =
     (if untyped lhs \<and> untyped rhs then derror ''cannot determine type of binary operation, use a cast''
      else cbind (clift (type_equal (expr_type lhs) (expr_type rhs))) (\<lambda>b.
      if \<not> b then
        cbind (clift (type_describe (expr_type lhs))) (\<lambda>tdl. cbind (clift (type_describe (expr_type rhs))) (\<lambda>tdr.
        derror (''operands must be of the same type (got '' @ tdl @ '' and '' @ tdr @ '')'')))
      else cseq (cassert (\<not> lvalue) ''result of a binary operation is not a valid lvalue'')
      (cbind (gen False lhs) (\<lambda>l. cbind (gen False rhs) (\<lambda>r.
       case type_kind (settled_type lhs) of
         Boolean_Type \<Rightarrow> (case boolean_inst op of
             Some i \<Rightarrow> build_inst self i l r
           | None \<Rightarrow> die ''codegen for binary op on boolean types not implemented'')
       | Integer_Type w \<Rightarrow> (case integer_inst op of
             Some i \<Rightarrow> build_inst self i l r
           | None \<Rightarrow> derror ''binary operator not available for integer types'')
       | Float_Type w \<Rightarrow> (case float_inst op of
             Some i \<Rightarrow> build_inst self i l r
           | None \<Rightarrow> derror ''binary operator not available for floating point types'')
       | _ \<Rightarrow> cbind (clift (type_describe (settled_type lhs))) (\<lambda>td.
           derror (''invalid type '' @ td @ '' to binary operator'')))))))"

definition codegen_unary_expr :: "codegen_t \<Rightarrow> gen \<Rightarrow> bool \<Rightarrow> expr \<Rightarrow> unary_op \<Rightarrow> lval cg" where
  "codegen_unary_expr self gen lvalue target op =
     (let wrong = (\<lambda>ty pre post. cbind (clift (type_describe ty)) (\<lambda>td. derror (pre @ td @ post))) in
      case op of
        Op_Address \<Rightarrow> gen True target
      | Op_Deref \<Rightarrow> cbind (gen False target) (load_unless self lvalue)
      | Op_Positive \<Rightarrow> gen False target
      | Op_Negative \<Rightarrow> cbind (gen False target) (\<lambda>v. case type_kind (settled_type target) of
          Integer_Type w \<Rightarrow> build self (Build_Unary I_Neg v [])
        | Float_Type w \<Rightarrow> build self (Build_Unary I_FNeg v [])
        | _ \<Rightarrow> wrong (settled_type target) ''expression of type '' '' cannot be negated'')
      | Op_Bitwise_Not \<Rightarrow> (case type_kind (expr_type target) of
          Integer_Type w \<Rightarrow> cbind (gen False target) (\<lambda>v. build self (Build_Unary I_Not v []))
        | _ \<Rightarrow> wrong (expr_type target) ''unary operator not available for type '' [])
      | Op_Not \<Rightarrow> (case type_kind (expr_type target) of
          Boolean_Type \<Rightarrow> cbind (gen False target) (\<lambda>v. build self (Build_Unary I_Not v []))
        | _ \<Rightarrow> wrong (expr_type target) ''unary operator not available for type '' []))"

definition is_integer :: "type_t \<Rightarrow> bool" where
  "is_integer t = (case type_kind t of Integer_Type w \<Rightarrow> True | _ \<Rightarrow> False)"

definition codegen_incdec_expr ::
    "nat \<Rightarrow> codegen_t \<Rightarrow> gen \<Rightarrow> bool \<Rightarrow> expr \<Rightarrow> expr \<Rightarrow> incdec_order \<Rightarrow> incdec_direction \<Rightarrow> lval cg" where
  "codegen_incdec_expr n self gen lvalue e target ord dir =
     (if lvalue then derror ''result of increment/decrement operation is not a valid lvalue''
      else cbind (gen True target) (\<lambda>ptr.
      if \<not> is_integer (expr_type e) then derror ''increment/decrement operator only supported for integers''
      else cbind (build self (Build_Load ptr [])) (\<lambda>value.
      cbind (codegen_type n False (expr_type e)) (\<lambda>lt.
      cbind (build self (Build_Binary (if dir = Dir_Inc then I_Add else I_Sub) value (Const_Int lt 1) [])) (\<lambda>new_value.
      cseq (exec self (Build_Store new_value ptr)) (cret (if ord = Order_Pre then new_value else value)))))))"

text \<open>The incoming blocks of the phi are the ones the branches start with.\<close>

definition codegen_conditional_expr :: "nat \<Rightarrow> codegen_t \<Rightarrow> gen \<Rightarrow> bool \<Rightarrow> expr \<Rightarrow> expr \<Rightarrow> expr \<Rightarrow> lval cg" where
  "codegen_conditional_expr n self gen lvalue c x y =
     cseq (cassert (\<not> lvalue) ''result of a conditional is not a valid lvalue'')
     (cbind (gen False c) (\<lambda>cond. cbind (current_func self) (\<lambda>func.
     cbind (append_block func ''iftrue'') (\<lambda>true_block. cbind (append_block func ''iffalse'') (\<lambda>false_block.
     cbind (append_block func ''ifexit'') (\<lambda>exit_block.
     cseq (exec self (Build_Cond_Br cond true_block false_block))
     (cseq (exec self (Position_At_End true_block))
     (cbind (gen False x) (\<lambda>true_value. cseq (exec self (Build_Br exit_block))
     (cseq (exec self (Position_At_End false_block))
     (cbind (gen False y) (\<lambda>false_value. cseq (exec self (Build_Br exit_block))
     (cseq (exec self (Position_At_End exit_block))
     (cbind (codegen_type n False (settled_type x)) (\<lambda>lt. cbind (build self (Build_Phi lt [])) (\<lambda>phi.
     cbind (llvm (Add_Incoming phi [(true_value, true_block), (false_value, false_block)])) (\<lambda>_.
     cret phi)))))))))))))))))"

definition codegen_comma_expr :: "gen \<Rightarrow> bool \<Rightarrow> expr list \<Rightarrow> lval cg" where
  "codegen_comma_expr gen lvalue es =
     cseq (cassert (\<not> lvalue) ''comma expression is not a valid lvalue'')
     (cbind (cmap (gen False) es) (\<lambda>vs.
     if vs = [] then cfail (Undefined ''read of an uninitialised value'') else cret (last vs)))"

subsection \<open>Access\<close>

definition build_assert :: "codegen_t \<Rightarrow> lval \<Rightarrow> unit cg" where
  "build_assert self cond =
     cbind (current_func self) (\<lambda>func.
     cbind (append_block func ''iftrue'') (\<lambda>true_block. cbind (append_block func ''ifexit'') (\<lambda>exit_block.
     cbind (build self (Build_Unary I_Not cond [])) (\<lambda>c.
     cseq (exec self (Build_Cond_Br c true_block exit_block))
     (cseq (exec self (Position_At_End true_block))
     (cbind (llvm Get_Intrinsic_Trap) (\<lambda>fn. cseq (exec self (Build_Call fn [] []))
     (cseq (exec self (Build_Br exit_block)) (exec self (Position_At_End exit_block))))))))))"

definition codegen_index_access_expr :: "nat \<Rightarrow> codegen_t \<Rightarrow> gen \<Rightarrow> bool \<Rightarrow> expr \<Rightarrow> expr \<Rightarrow> lval cg" where
  "codegen_index_access_expr n self gen lvalue target_e index_e =
     cbind (resolve_type_name n (expr_type target_e)) (\<lambda>t.
     (let is_array = (type_pointer t = 0 \<and> (case type_kind t of Array_Type u len \<Rightarrow> True | _ \<Rightarrow> False)) in
     cbind (gen is_array target_e) (\<lambda>target. cbind (gen False index_e) (\<lambda>index.
     if \<not> is_integer (expr_type index_e) then derror ''index needs to be an integer''
     else
     cbind (if 0 < type_pointer t then build self (Build_In_Bounds_GEP target [index] [])
       else (case type_kind t of
           Array_Type u len \<Rightarrow> build self (Build_In_Bounds_GEP target [Const_Null (Ty_Int 32), index] [])
         | Slice_Type u \<Rightarrow>
             cbind (build self (Build_Extract_Value target 2 ''cap'')) (\<lambda>cap.
             cbind (build self (Build_Cast Int_Cast index (Ty_Of cap) [])) (\<lambda>index'.
             cbind (build self (Build_Cmp Int_ULT index' cap [])) (\<lambda>oob.
             cseq (build_assert self oob)
             (cbind (build self (Build_Extract_Value target 0 ''ptr'')) (\<lambda>arrptr.
             build self (Build_In_Bounds_GEP arrptr [index'] []))))))
         | _ \<Rightarrow> derror ''cannot index into non-pointer or non-array''))
     (load_unless self lvalue)))))"

definition check_index :: "expr option \<Rightarrow> unit cg" where
  "check_index e = (case e of None \<Rightarrow> cret () | Some e \<Rightarrow>
     if is_integer (expr_type e) then cret () else derror ''index needs to be an integer'')"

definition index_or :: "gen \<Rightarrow> expr option \<Rightarrow> lval \<Rightarrow> lval cg" where
  "index_or gen e v = (case e of None \<Rightarrow> cret v | Some e \<Rightarrow> gen False e)"

definition slice_slice :: "codegen_t \<Rightarrow> gen \<Rightarrow> expr \<Rightarrow> expr option \<Rightarrow> expr option \<Rightarrow> index_slice_kind \<Rightarrow> lval cg" where
  "slice_slice self gen target_e fst_e lst_e kind =
     cbind (gen False target_e) (\<lambda>target.
     (let zero = Const_Null (Ty_Int 64) in
     if kind = Slice_Copy then build self (Build_Load target ''slice'')
     else
     cseq (check_index fst_e) (cbind (index_or gen fst_e zero) (\<lambda>start.
     cseq (check_index lst_e) (cbind (index_or gen lst_e zero) (\<lambda>last_index.
     cbind (build self (Build_Extract_Value target 2 [])) (\<lambda>cap.
     cbind (build self (Build_Cast Int_Cast start (Ty_Of cap) [])) (\<lambda>start'.
     cbind (build self (Build_Cast Int_Cast last_index (Ty_Of cap) [])) (\<lambda>end'.
     cbind (build self (Build_Binary I_Sub cap start' [])) (\<lambda>ncap.
     cbind (build self (Build_Binary I_Sub end' start' ''nlen'')) (\<lambda>nlen.
     cbind (build self (Build_Extract_Value target 0 [])) (\<lambda>arrptr.
     cbind (build self (Build_In_Bounds_GEP arrptr [start'] [])) (\<lambda>ptr.
     cbind (build self (Build_Extract_Value target 3 [])) (\<lambda>baseptr.
     cbind (build self (Build_Insert_Value (Const_Null (Ty_Of target)) ptr 0 ''slice'')) (\<lambda>slice1.
     cbind (build self (Build_Insert_Value slice1 ncap 2 ''slice'')) (\<lambda>slice2.
     cbind (build self (Build_Insert_Value slice2 baseptr 3 ''slice'')) (\<lambda>slice.
     cbind (build self (Build_Cmp Int_SGT nlen zero ''min'')) (\<lambda>cond.
     cbind (current_func self) (\<lambda>func.
     cbind (append_block func ''iftrue'') (\<lambda>true_block. cbind (append_block func ''iffalse'') (\<lambda>false_block.
     cbind (append_block func ''ifexit'') (\<lambda>exit_block.
     cseq (exec self (Build_Cond_Br cond true_block false_block))
     (cseq (exec self (Position_At_End true_block))
     (cbind (build self (Build_Insert_Value slice nlen 1 ''slice_len'')) (\<lambda>slice_len.
     cseq (exec self (Build_Br exit_block))
     (cseq (exec self (Position_At_End false_block))
     (cseq (exec self (Build_Br exit_block))
     (cseq (exec self (Position_At_End exit_block))
     (cbind (build self (Build_Phi (Ty_Of target) [])) (\<lambda>phi.
     cbind (llvm (Add_Incoming phi [(slice_len, true_block), (slice, false_block)])) (\<lambda>_.
     cret phi)))))))))))))))))))))))))))))))"

definition slice_array :: "nat \<Rightarrow> codegen_t \<Rightarrow> gen \<Rightarrow> expr \<Rightarrow> expr \<Rightarrow> expr option \<Rightarrow> expr option \<Rightarrow> lval cg" where
  "slice_array n self gen e target_e fst_e lst_e =
     cbind (case type_kind (expr_type e) of
         Slice_Type u \<Rightarrow> cbind (codegen_type n False u) (\<lambda>lt. cret (Ty_Pointer lt))
       | _ \<Rightarrow> cfail (Undefined ''read of another member of the union'')) (\<lambda>array_ptr_type.
     cbind (gen True target_e) (\<lambda>target.
     cbind (build self (Build_Cast Pointer_Cast target array_ptr_type [])) (\<lambda>array_ptr.
     cbind (case type_kind (expr_type target_e) of
         Array_Type u len \<Rightarrow> cret (Const_Int (Ty_Int 64) (unat len))
       | _ \<Rightarrow> cfail (Undefined ''read of another member of the union'')) (\<lambda>array_length.
     cbind (index_or gen fst_e (Const_Null (Ty_Int 64))) (\<lambda>index_start.
     cbind (index_or gen lst_e array_length) (\<lambda>index_end.
     cbind (build self (Build_In_Bounds_GEP array_ptr [index_start] [])) (\<lambda>ptr.
     cbind (build self (Build_Binary I_Sub index_end index_start [])) (\<lambda>len.
     cbind (build self (Build_Binary I_Sub array_length index_start [])) (\<lambda>cap.
     cbind (codegen_type n False (expr_type e)) (\<lambda>lt.
     cbind (build self (Build_Insert_Value (Const_Null lt) ptr 0 [])) (\<lambda>r1.
     cbind (build self (Build_Insert_Value r1 len 1 [])) (\<lambda>r2.
     cbind (build self (Build_Insert_Value r2 cap 2 [])) (\<lambda>r3.
     build self (Build_Insert_Value r3 array_ptr 3 []))))))))))))))"

definition codegen_index_slice_expr ::
    "nat \<Rightarrow> codegen_t \<Rightarrow> gen \<Rightarrow> expr \<Rightarrow> expr \<Rightarrow> expr option \<Rightarrow> expr option \<Rightarrow> index_slice_kind \<Rightarrow> lval cg" where
  "codegen_index_slice_expr n self gen e target_e fst_e lst_e kind =
     cbind (resolve_type_name n (expr_type target_e)) (\<lambda>t. case type_kind t of
       Slice_Type u \<Rightarrow> slice_slice self gen target_e fst_e lst_e kind
     | Array_Type u len \<Rightarrow> slice_array n self gen e target_e fst_e lst_e
     | _ \<Rightarrow> die ''invalid slicing target'')"

definition codegen_member_access_expr :: "nat \<Rightarrow> codegen_t \<Rightarrow> gen \<Rightarrow> bool \<Rightarrow> expr \<Rightarrow> string \<Rightarrow> lval cg" where
  "codegen_member_access_expr n self gen lvalue target_e name =
     cbind (resolve_type_name n (expr_type target_e)) (\<lambda>st.
     cbind (if 0 < type_pointer st then resolve_type_name n (pointee st) else cret st) (\<lambda>stderef.
     cbind (case type_kind st of
       Interface_Type ms \<Rightarrow>
         cbind (clift (interface_field 0 ms name)) (\<lambda>r. case r of
           None \<Rightarrow> cfail (Assert_Failed ''interface has no such member'')
         | Some (i, t) \<Rightarrow>
             cbind (gen False target_e) (\<lambda>target.
             cbind (build self (Build_Extract_Value target 0 ''table_ptr'')) (\<lambda>table_ptr.
             cbind (build self (Build_Extract_Value target 1 ''object_ptr'')) (\<lambda>object_ptr.
             cbind (build self (Build_Load table_ptr ''table'')) (\<lambda>table.
             cbind (build self (Build_Extract_Value table (1 + i) ''member_offset'')) (\<lambda>member_offset.
             cbind (build self (Build_Cast Ptr_To_Int member_offset (Ty_Int 64) ''member_offset_int'')) (\<lambda>offset_int.
             cbind (build self (Build_In_Bounds_GEP object_ptr [offset_int] ''ptr_bytes'')) (\<lambda>ptr_bytes.
             build self (Build_Cast Pointer_Cast ptr_bytes (Ty_Of member_offset) [])))))))))
     | _ \<Rightarrow>
         if 1 < type_pointer st then derror ''cannot access member across multiple indirection''
         else cbind (gen (type_pointer st = 0) target_e) (\<lambda>target.
         case type_kind stderef of
           Struct_Type ms \<Rightarrow> (case struct_field 0 ms name of
               None \<Rightarrow> cfail (Assert_Failed ''struct has no such member'')
             | Some (i, t) \<Rightarrow> build self (Build_Struct_GEP target i []))
         | _ \<Rightarrow> cfail (Assert_Failed ''cannot access member of non-struct'')))
     (load_unless self lvalue)))"

end
