(* ===== verification/Codegen_Calls.thy ===== *)
theory Codegen_Calls
  imports Codegen_Expr
begin

section \<open>Calls, casts and builtins (src/codegen_call_expr.c, codegen_cast_expr.c, codegen_builtin_expr.c)\<close>

text \<open>
  The remaining kinds of expressions, and \<open>codegen_expr\<close> itself, which ties the functions for the
  kinds together. A pointer to a symbol is taken to stay valid when another symbol is added.
\<close>

subsection \<open>Calls\<close>

text \<open>The index of the first placeholder parameter, or the number of parameters.\<close>

fun placeholder_index :: "type_t list \<Rightarrow> nat" where
  "placeholder_index [] = 0"
| "placeholder_index (t # ts) = (if type_kind t = Placeholder_Type then 0 else Suc (placeholder_index ts))"

definition call_args :: "gen \<Rightarrow> nat \<Rightarrow> lval \<Rightarrow> expr list \<Rightarrow> lval list cg" where
  "call_args gen ph object_ptr args =
     cmap (\<lambda>(i, e). if i = ph then cret object_ptr else gen False e) (enumerate 0 args)"

definition interface_call ::
    "nat \<Rightarrow> codegen_t \<Rightarrow> gen \<Rightarrow> codegen_symbol \<Rightarrow> string \<Rightarrow> expr list \<Rightarrow> lval cg" where
  "interface_call n self gen sy name args = (case cs_interface sy of
     Interface ty \<Rightarrow> (case ty of
       Type p (Interface_Type ms) \<Rightarrow> (case ms ! cs_member sy of
         Member_Func f r ts \<Rightarrow>
           if length ts \<noteq> length args
           then derror (name @ '' requires '' @ format_d (of_nat (length ts)) @ '' arguments, but only '' @
             format_d (of_nat (length args)) @ '' given'')
           else (let ph = placeholder_index ts in
             if ph = length ts then derror ''unable to find a placeholder argument''
             else cbind (resolve_type_name n (expr_type (args ! ph))) (\<lambda>pt.
             if (case type_kind pt of Interface_Type _ \<Rightarrow> False | _ \<Rightarrow> True)
             then derror (''argument '' @ format_d (of_nat ph) @ '' of '' @ name @ '' should be an interface'')
             else cbind (clift (type_equal pt ty)) (\<lambda>b.
             if \<not> b
             then derror (''argument '' @ format_d (of_nat ph) @ '' of '' @ name @ '' is an incompatible interface'')
             else
             cbind (gen False (args ! ph)) (\<lambda>target.
             cbind (build self (Build_Extract_Value target 0 ''table_ptr'')) (\<lambda>table_ptr.
             cbind (build self (Build_Extract_Value target 1 ''object_ptr'')) (\<lambda>object_ptr.
             cbind (build self (Build_Load table_ptr ''table'')) (\<lambda>table.
             cbind (build self (Build_Extract_Value table (1 + cs_member sy) f)) (\<lambda>member_func.
             cbind (call_args gen ph object_ptr args) (\<lambda>vs.
             build self (Build_Call member_func vs []))))))))))
       | _ \<Rightarrow> cfail (Undefined ''read of another member of the union''))
     | _ \<Rightarrow> cfail (Undefined ''not an interface''))
   | _ \<Rightarrow> cfail (Undefined ''dangling pointer to an interface''))"

definition function_call :: "codegen_t \<Rightarrow> gen \<Rightarrow> codegen_symbol \<Rightarrow> string \<Rightarrow> expr list \<Rightarrow> lval cg" where
  "function_call self gen sy name args =
     cbind (type_ptr (cs_type sy)) (\<lambda>t. case type_kind t of
       Func_Type r ts \<Rightarrow>
         cbind (value_ptr (cs_value sy)) (\<lambda>v.
         cbind (if cs_kind sy = Func_Symbol then cret v else build self (Build_Load v ''funcptr'')) (\<lambda>funcptr.
         cbind (cmap (gen False) args) (\<lambda>vs. build self (Build_Call funcptr vs []))))
     | _ \<Rightarrow> derror (''identifier '' @ name @ '' is not a function''))"

definition codegen_call_expr :: "nat \<Rightarrow> codegen_t \<Rightarrow> gen \<Rightarrow> bool \<Rightarrow> expr \<Rightarrow> expr list \<Rightarrow> lval cg" where
  "codegen_call_expr n self gen lvalue target args = (case expr_kind target of
     Ident_Expr name \<Rightarrow>
       cbind (find_symbol name) (\<lambda>sy. case sy of
         None \<Rightarrow> derror (''identifier '' @ name @ '' unknown'')
       | Some sy \<Rightarrow>
           cbind (if cs_kind sy = Interface_Function_Symbol then interface_call n self gen sy name args
             else function_call self gen sy name args) (\<lambda>result.
           if lvalue then
             cbind (build self (Build_Alloca (Ty_Of result) [])) (\<lambda>ptr.
             cseq (exec self (Build_Store result ptr)) (cret ptr))
           else cret result))
   | _ \<Rightarrow> cfail (Assert_Failed ''can only call functions by name at the moment''))"

subsection \<open>Casts\<close>

text \<open>The entry of the interface table for a member of the interface.\<close>

definition table_function ::
    "nat \<Rightarrow> codegen_t \<Rightarrow> type_t \<Rightarrow> type_t \<Rightarrow> string \<Rightarrow> type_t \<Rightarrow> type_t list \<Rightarrow> lval cg" where
  "table_function n self interface refd f r as =
     cbind cget (\<lambda>cs. cbind (clift (codegen_context_find_mapping cs interface refd f)) (\<lambda>m. case m of
       None \<Rightarrow> derror (''cannot determine which function maps to '' @ f)
     | Some mapped \<Rightarrow> cbind (find_symbol mapped) (\<lambda>sy. case sy of
         None \<Rightarrow> derror (''function '' @ mapped @ '' which is supposed to implement '' @ f @ '' is unknown'')
       | Some sy \<Rightarrow>
           cbind (cmap (interface_arg_type (codegen_type n)) as) (\<lambda>las.
           cbind (codegen_type n False r) (\<lambda>lr.
           cbind (value_ptr (cs_value sy)) (\<lambda>v.
           build self (Build_Cast Pointer_Cast v (Ty_Pointer (Ty_Function lr las False)) [])))))))"

definition table_field ::
    "codegen_t \<Rightarrow> struct_member list \<Rightarrow> lval \<Rightarrow> string \<Rightarrow> string \<Rightarrow> string \<Rightarrow> type_t \<Rightarrow> lval cg" where
  "table_field self sms target from_str to_str f t = (case struct_field 0 sms f of
     None \<Rightarrow> derror (''type '' @ from_str @ '' has no member named '' @ f @ '' required by the interface '' @ to_str)
   | Some (i, u) \<Rightarrow> cbind (clift (type_equal t u)) (\<lambda>b.
       if \<not> b then derror (''field '' @ f @ '' is of the wrong type for interface '' @ to_str)
       else build self (Build_Struct_GEP (Const_Null (Ty_Of target)) i ''member'')))"

definition table_entry ::
    "nat \<Rightarrow> codegen_t \<Rightarrow> struct_member list \<Rightarrow> type_t \<Rightarrow> type_t \<Rightarrow> lval \<Rightarrow> string \<Rightarrow> string \<Rightarrow>
     interface_member \<Rightarrow> lval cg" where
  "table_entry n self sms interface refd target from_str to_str m = (case m of
     Member_Func f r as \<Rightarrow> table_function n self interface refd f r as
   | Member_Field f t \<Rightarrow> table_field self sms target from_str to_str f t
   | Member_Uninit \<Rightarrow> cfail (Undefined ''read of an uninitialised member kind''))"

definition cast_to_interface ::
    "nat \<Rightarrow> codegen_t \<Rightarrow> type_t \<Rightarrow> ltype \<Rightarrow> type_t \<Rightarrow> interface_member list \<Rightarrow> lval \<Rightarrow> string \<Rightarrow> string \<Rightarrow> lval cg" where
  "cast_to_interface n self ty dst from' ms target from_str to_str =
     (if type_pointer from' = 1 then
        cbind (clift (type_copy from')) (\<lambda>copy.
        cbind (resolve_type_name n (pointee copy)) (\<lambda>resolved. case type_kind resolved of
          Struct_Type sms \<Rightarrow>
            cbind (cmap (table_entry n self sms ty (pointee copy) target from_str to_str) ms) (\<lambda>fields.
            (let table = Const_Struct (Const_Null i8_pointer # fields) in
            cbind (llvm (Add_Global (Ty_Of table) ''interface_table'')) (\<lambda>table_global.
            cbind (llvm (Set_Initializer table_global table)) (\<lambda>_.
            cbind (build self (Build_Cast Pointer_Cast target i8_pointer [])) (\<lambda>target_cast.
            cbind (build self (Build_Insert_Value (Const_Null dst) table_global 0 [])) (\<lambda>result.
            build self (Build_Insert_Value result target_cast 1 [])))))))
        | _ \<Rightarrow> derror (''type '' @ from_str @ '' is not a pointer to a struct and can therefore not be cast to an interface'')))
      else derror ''only pointers can be cast to an interface'')"

definition codegen_cast_expr :: "nat \<Rightarrow> codegen_t \<Rightarrow> gen \<Rightarrow> bool \<Rightarrow> expr \<Rightarrow> type_t \<Rightarrow> lval cg" where
  "codegen_cast_expr n self gen lvalue target_e ty =
     cseq (cassert (\<not> lvalue) ''result of a cast is not a valid lvalue'')
     (cbind (gen False target_e) (\<lambda>target.
     cbind (codegen_type n False ty) (\<lambda>dst.
     cbind (resolve_type_name n (settled_type target_e)) (\<lambda>from'.
     cbind (resolve_type_name n ty) (\<lambda>to'.
     cbind (clift (type_equal from' to')) (\<lambda>b.
     if b then cret target
     else cbind (clift (type_describe from')) (\<lambda>from_str.
     cbind (clift (type_describe to')) (\<lambda>to_str.
     (let fail = derror (''cannot cast from '' @ from_str @ '' to '' @ to_str) in
      case type_kind to' of
        Interface_Type ms \<Rightarrow> cast_to_interface n self ty dst from' ms target from_str to_str
      | _ \<Rightarrow>
          if 0 < type_pointer from' then
            if 0 < type_pointer to' then build self (Build_Cast Pointer_Cast target dst [])
            else if is_integer to' then build self (Build_Cast Ptr_To_Int target dst [])
            else fail
          else if is_integer from' then
            if 0 < type_pointer to' then build self (Build_Cast Int_To_Ptr target dst [])
            else if is_integer to' then build self (Build_Cast Int_Cast target dst [])
            else if type_kind to' = Boolean_Type
              then build self (Build_Cmp Int_SGT target (Const_Null (Ty_Of target)) [])
            else fail
          else if type_kind from' = Boolean_Type \<and> type_pointer to' = 0 \<and> is_integer to'
            then build self (Build_Cast Z_Ext target dst [])
          else fail)))))))))"

subsection \<open>Builtins\<close>

text \<open>The array, set to zero by a loop from its size down to 0.\<close>

definition codegen_array_new :: "codegen_t \<Rightarrow> ltype \<Rightarrow> lval \<Rightarrow> lval cg" where
  "codegen_array_new self ty sz =
     cbind (build self (Build_Array_Malloc ty sz [])) (\<lambda>arrptr.
     cbind (build self (Build_Alloca (Ty_Of sz) ''cntrptr'')) (\<lambda>cntrptr.
     cseq (exec self (Build_Store sz cntrptr))
     (cbind (current_func self) (\<lambda>func.
     cbind (append_block func ''loopcond'') (\<lambda>loop_block. cbind (append_block func ''loopbody'') (\<lambda>body_block.
     cbind (append_block func ''loopexit'') (\<lambda>exit_block.
     cseq (exec self (Build_Br loop_block))
     (cseq (exec self (Position_At_End loop_block))
     (cbind (build self (Build_Load cntrptr ''cntr'')) (\<lambda>cntr.
     cbind (build self (Build_Cmp Int_SLE (Const_Null (Ty_Of cntr)) cntr ''cond'')) (\<lambda>cond.
     cseq (exec self (Build_Cond_Br cond body_block exit_block))
     (cseq (exec self (Position_At_End body_block))
     (cbind (build self (Build_In_Bounds_GEP arrptr [cntr] [])) (\<lambda>iptr.
     cseq (exec self (Build_Store (Const_Null ty) iptr))
     (cbind (build self (Build_Binary I_Sub cntr (Const_Int (Ty_Of cntr) 1) [])) (\<lambda>cntr'.
     cseq (exec self (Build_Store cntr' cntrptr))
     (cseq (exec self (Build_Br loop_block))
     (cseq (exec self (Position_At_End exit_block))
     (cret arrptr)))))))))))))))))))"

definition codegen_new_builtin_expr :: "nat \<Rightarrow> codegen_t \<Rightarrow> gen \<Rightarrow> type_t \<Rightarrow> expr option \<Rightarrow> lval cg" where
  "codegen_new_builtin_expr n self gen ty sz_e =
     cbind (codegen_type n False ty) (\<lambda>lt. case sz_e of
       Some e \<Rightarrow> cbind (gen False e) (codegen_array_new self lt)
     | None \<Rightarrow> cbind (build self (Build_Malloc lt [])) (\<lambda>ptr.
         cseq (exec self (Build_Store (Const_Null lt) ptr)) (cret ptr)))"

definition codegen_free_builtin_expr :: "codegen_t \<Rightarrow> gen \<Rightarrow> expr \<Rightarrow> lval cg" where
  "codegen_free_builtin_expr self gen x = cbind (gen False x) (\<lambda>ptr. build self (Build_Free ptr))"

definition codegen_make_builtin_expr :: "nat \<Rightarrow> codegen_t \<Rightarrow> gen \<Rightarrow> type_t \<Rightarrow> expr \<Rightarrow> lval cg" where
  "codegen_make_builtin_expr n self gen ty x =
     cbind (resolve_type_name n ty) (\<lambda>t. case type_kind t of
       Slice_Type u \<Rightarrow>
         cbind (gen False x) (\<lambda>c.
         cbind (build self (Build_Cast Int_Cast c (Ty_Int 64) [])) (\<lambda>caparg.
         cbind (codegen_type n False u) (\<lambda>element_type.
         cbind (codegen_array_new self element_type caparg) (\<lambda>a.
         cbind (build self (Build_Cast Pointer_Cast a (Ty_Pointer element_type) [])) (\<lambda>arrptr.
         cbind (codegen_type n False t) (\<lambda>make_type.
         cbind (build self (Build_Insert_Value (Const_Null make_type) arrptr 0 ''arrptr'')) (\<lambda>s1.
         cbind (build self (Build_Insert_Value s1 caparg 2 ''cap'')) (\<lambda>s2.
         build self (Build_Insert_Value s2 arrptr 3 ''baseptr'')))))))))
     | _ \<Rightarrow> derror ''cannot make non-slice'')"

definition codegen_lencap_builtin_expr :: "codegen_t \<Rightarrow> gen \<Rightarrow> lencap_kind \<Rightarrow> expr \<Rightarrow> lval cg" where
  "codegen_lencap_builtin_expr self gen kind x =
     cbind (gen False x) (\<lambda>slice. case kind of
       Lencap_Len \<Rightarrow> build self (Build_Extract_Value slice 1 ''len'')
     | Lencap_Cap \<Rightarrow> build self (Build_Extract_Value slice 2 ''cap''))"

definition codegen_dispose_builtin_expr :: "codegen_t \<Rightarrow> gen \<Rightarrow> expr \<Rightarrow> lval cg" where
  "codegen_dispose_builtin_expr self gen x =
     cbind (gen True x) (\<lambda>slice_ptr.
     cbind (build self (Build_Load slice_ptr [])) (\<lambda>slice.
     cbind (build self (Build_Extract_Value slice 3 ''baseptr'')) (\<lambda>ptr.
     cseq (exec self (Build_Store (Const_Null (Ty_Of slice)) slice_ptr))
     (build self (Build_Free ptr)))))"

subsection \<open>The table\<close>

definition codegen_kind :: "nat \<Rightarrow> codegen_t \<Rightarrow> gen \<Rightarrow> gen" where
  "codegen_kind n self gen lvalue e = (case expr_kind e of
     Ident_Expr name \<Rightarrow> codegen_ident_expr self gen lvalue name
   | String_Literal_Expr s \<Rightarrow> codegen_string_literal_expr self lvalue s
   | Number_Literal_Expr s r \<Rightarrow> codegen_number_literal_expr n self lvalue e s r
   | Index_Access_Expr t i \<Rightarrow> codegen_index_access_expr n self gen lvalue t i
   | Index_Slice_Expr t f l k \<Rightarrow> codegen_index_slice_expr n self gen e t f l k
   | Call_Expr t as \<Rightarrow> codegen_call_expr n self gen lvalue t as
   | Member_Access_Expr t m \<Rightarrow> codegen_member_access_expr n self gen lvalue t m
   | Incdec_Expr t ord dir \<Rightarrow> codegen_incdec_expr n self gen lvalue e t ord dir
   | Unary_Expr t op \<Rightarrow> codegen_unary_expr self gen lvalue t op
   | Sizeof_Expr x \<Rightarrow> codegen_sizeof_expr n self gen lvalue e
   | Sizeof_Type t \<Rightarrow> codegen_sizeof_expr n self gen lvalue e
   | Cast_Expr t ty \<Rightarrow> codegen_cast_expr n self gen lvalue t ty
   | Binary_Expr a b op \<Rightarrow> codegen_binary_expr self gen lvalue a b op
   | Conditional_Expr c a b \<Rightarrow> codegen_conditional_expr n self gen lvalue c a b
   | Assignment_Expr t x op \<Rightarrow> codegen_assignment_expr self gen t x op
   | Comma_Expr es \<Rightarrow> codegen_comma_expr gen lvalue es
   | New_Builtin ty x \<Rightarrow> codegen_new_builtin_expr n self gen ty x
   | Free_Builtin x \<Rightarrow> codegen_free_builtin_expr self gen x
   | Make_Builtin ty x \<Rightarrow> codegen_make_builtin_expr n self gen ty x
   | Lencap_Builtin k x \<Rightarrow> codegen_lencap_builtin_expr self gen k x
   | Dispose_Builtin x \<Rightarrow> codegen_dispose_builtin_expr self gen x)"

primrec codegen_expr :: "nat \<Rightarrow> codegen_t \<Rightarrow> gen" where
  "codegen_expr 0 self lvalue e = cfail Diverges"
| "codegen_expr (Suc n) self lvalue e = codegen_kind n self (codegen_expr n self) lvalue e"

text \<open>\<open>codegen_expr_top\<close>: the value, and the expression with its types.\<close>

definition codegen_expr_top :: "nat \<Rightarrow> codegen_t \<Rightarrow> bool \<Rightarrow> expr \<Rightarrow> hint \<Rightarrow> (expr \<times> lval) cg" where
  "codegen_expr_top n self lvalue e h =
     cbind (prepare_expr n e h) (\<lambda>e'. cbind (codegen_expr n self lvalue e') (\<lambda>v. cret (e', v)))"

end
