(* ===== verification/Codegen_Stmt.thy ===== *)
theory Codegen_Stmt
  imports Codegen_Calls
begin

section \<open>The code of declarations, statements and units (src/codegen.c)\<close>

text \<open>
  The code generator proper. \<open>codegen_stmt\<close> takes the depth bound \<open>n\<close> for itself, for the
  expressions and for the types; \<open>verify\<close> is the result of \<open>LLVMVerifyFunction\<close> after the calls made
  so far: whether the function contains errors.
\<close>

subsection \<open>Declarations\<close>

definition variable_symbol :: "string option \<Rightarrow> type_t \<Rightarrow> decl option \<Rightarrow> lval \<Rightarrow> codegen_symbol" where
  "variable_symbol name ty d v =
     no_symbol\<lparr>cs_name := name, cs_type := Some ty, cs_decl := d, cs_value := Some v\<rparr>"

definition codegen_typed_variable :: "nat \<Rightarrow> codegen_t \<Rightarrow> decl \<Rightarrow> type_t \<Rightarrow> string \<Rightarrow> expr option \<Rightarrow> unit cg" where
  "codegen_typed_variable n self d ty name initial =
     cbind (codegen_type n False ty) (\<lambda>var_type.
     cbind (build self (Build_Alloca var_type name)) (\<lambda>var.
     cseq (codegen_context_add_symbol (variable_symbol (Some name) ty (Some d) var))
     (case initial of
        None \<Rightarrow> exec self (Build_Store (Const_Null var_type) var)
      | Some e \<Rightarrow>
          cbind (codegen_expr_top n self False e (hint_of ty)) (\<lambda>(e', val).
          cbind (clift (type_equal ty (settled_type e'))) (\<lambda>b.
          if \<not> b then
            cbind (clift (type_describe (settled_type e'))) (\<lambda>t1. cbind (clift (type_describe ty)) (\<lambda>t2.
            derror (''initial value of variable '' @ name @ '' is of type '' @ t1 @ '', but should be '' @ t2)))
          else exec self (Build_Store val var))))))"

definition codegen_untyped_variable :: "nat \<Rightarrow> codegen_t \<Rightarrow> decl \<Rightarrow> string \<Rightarrow> expr option \<Rightarrow> unit cg" where
  "codegen_untyped_variable n self d name initial = (case initial of
     None \<Rightarrow> cfail (Assert_Failed ''expr'')
   | Some e \<Rightarrow>
       cbind (codegen_expr_top n self False e None) (\<lambda>(e', val).
       if type_kind (settled_type e') = No_Type
       then derror (''type of variable '' @ name @ '' could not be inferred from its initial value'')
       else
         cbind (clift (type_copy (settled_type e'))) (\<lambda>ty.
         cbind (codegen_type n False ty) (\<lambda>var_type.
         cbind (build self (Build_Alloca var_type name)) (\<lambda>var.
         cseq (exec self (Build_Store val var))
         (codegen_context_add_symbol (variable_symbol (Some name) ty
            (Some (Decl (decl_loc d) (Variable_Decl ty name (Some e')))) var)))))))"

definition codegen_const :: "nat \<Rightarrow> codegen_t \<Rightarrow> loc \<Rightarrow> string \<Rightarrow> type_t option \<Rightarrow> expr \<Rightarrow> unit cg" where
  "codegen_const n self l name ty v =
     (let sy = (\<lambda>v' value. no_symbol\<lparr>cs_name := Some name, cs_type := ty,
        cs_decl := Some (Decl l (Const_Decl name ty v')), cs_value := value\<rparr>) in
      case ty of
        None \<Rightarrow> codegen_context_add_symbol (sy v None)
      | Some t \<Rightarrow>
          cbind (codegen_expr_top n self False v (hint_of t)) (\<lambda>(v', value).
          cbind (codegen_type n False t) (\<lambda>lt.
          cbind (llvm (Add_Global lt name)) (\<lambda>global.
          cbind (llvm (Set_Initializer global value)) (\<lambda>_.
          cbind (llvm (Set_Linkage_Once_ODR global)) (\<lambda>_.
          codegen_context_add_symbol (sy v' (Some global))))))))"

definition codegen_decl :: "nat \<Rightarrow> codegen_t \<Rightarrow> decl \<Rightarrow> unit cg" where
  "codegen_decl n self d = (case decl_kind d of
     Variable_Decl ty name initial \<Rightarrow>
       if type_kind ty \<noteq> No_Type then codegen_typed_variable n self d ty name initial
       else codegen_untyped_variable n self d name initial
   | Const_Decl name ty v \<Rightarrow> codegen_const n self (decl_loc d) name ty v
   | Implementation_Decl i t ms \<Rightarrow>
       codegen_context_add_symbol (no_symbol\<lparr>cs_kind := Implementation_Symbol, cs_decl := Some d\<rparr>))"

subsection \<open>Statements\<close>

text \<open>
  The functions for the kinds take \<open>codegen_stmt\<close> as an argument; a null statement of a branch or
  body is skipped. Every block of code has a context of its own, disposed of at its end.
\<close>

type_synonym stmt_gen = "codegen_t \<Rightarrow> stmt \<Rightarrow> unit cg"

definition opt_stmt :: "stmt_gen \<Rightarrow> codegen_t \<Rightarrow> stmt option \<Rightarrow> unit cg" where
  "opt_stmt gen self x = (case x of None \<Rightarrow> cret () | Some x \<Rightarrow> gen self x)"

definition codegen_opt_expr :: "nat \<Rightarrow> codegen_t \<Rightarrow> expr option \<Rightarrow> unit cg" where
  "codegen_opt_expr n self e = (case e of None \<Rightarrow> cret ()
     | Some e \<Rightarrow> cbind (codegen_expr_top n self False e None) (\<lambda>_. cret ()))"

definition codegen_item :: "nat \<Rightarrow> codegen_t \<Rightarrow> stmt_gen \<Rightarrow> block_item \<Rightarrow> unit cg" where
  "codegen_item n self gen item = (case item of
     Stmt_Item x \<Rightarrow> opt_stmt gen self x
   | Decl_Item d \<Rightarrow> codegen_decl n self d)"

definition codegen_compound :: "nat \<Rightarrow> codegen_t \<Rightarrow> stmt_gen \<Rightarrow> block_item list \<Rightarrow> unit cg" where
  "codegen_compound n self gen items =
     cseq push_context
     (cseq (cmap (codegen_item n self gen) items)
     (cbind codegen_context_dispose (\<lambda>terminated. cwhen terminated set_terminated)))"

text \<open>A branch of an if: its block, and whether it ended with a jump of its own.\<close>

definition codegen_branch :: "codegen_t \<Rightarrow> stmt_gen \<Rightarrow> lval \<Rightarrow> lval \<Rightarrow> stmt option \<Rightarrow> bool cg" where
  "codegen_branch self gen block exit_block x =
     cseq push_context
     (cseq (exec self (Position_At_End block))
     (cseq (opt_stmt gen self x)
     (cbind codegen_context_dispose (\<lambda>terminated.
     cseq (cwhen (\<not> terminated) (exec self (Build_Br exit_block))) (cret terminated)))))"

definition codegen_if :: "nat \<Rightarrow> codegen_t \<Rightarrow> stmt_gen \<Rightarrow> expr \<Rightarrow> stmt option \<Rightarrow> stmt option \<Rightarrow> unit cg" where
  "codegen_if n self gen c x y =
     cseq push_context
     (cbind (codegen_expr_top n self False c (hint_of bool_type)) (\<lambda>(c', cond).
     cbind (clift (type_equal (settled_type c') bool_type)) (\<lambda>b.
     cseq (cwhen (\<not> b) (cbind (clift (type_describe (settled_type c'))) (\<lambda>td.
       derror (''if condition must be a bool expression, got '' @ td @ '' instead''))))
     (cbind codegen_context_dispose (\<lambda>_.
     cbind (current_func self) (\<lambda>func.
     cbind (append_block func ''iftrue'') (\<lambda>true_block.
     cbind (if y = None then cret None
       else cbind (append_block func ''iffalse'') (\<lambda>b. cret (Some b))) (\<lambda>false_block.
     cbind (append_block func ''ifexit'') (\<lambda>exit_block.
     cseq (exec self (Build_Cond_Br cond true_block (case false_block of Some b \<Rightarrow> b | None \<Rightarrow> exit_block)))
     (cbind (codegen_branch self gen true_block exit_block x) (\<lambda>true_terminated.
     cbind (case false_block of None \<Rightarrow> cret False
       | Some b \<Rightarrow> cbind (codegen_branch self gen b exit_block y) (\<lambda>t. cret (t \<and> true_terminated))) (\<lambda>terminated.
     cseq (exec self (Position_At_End exit_block))
     (cwhen terminated (cseq (exec self Build_Unreachable) set_terminated))))))))))))))"

definition codegen_for ::
    "nat \<Rightarrow> codegen_t \<Rightarrow> stmt_gen \<Rightarrow> expr option \<Rightarrow> expr option \<Rightarrow> expr option \<Rightarrow> stmt option \<Rightarrow> unit cg" where
  "codegen_for n self gen initial c stp body =
     cseq push_context
     (cseq (codegen_opt_expr n self initial)
     (cbind (current_func self) (\<lambda>func.
     cbind (append_block func ''loopcond'') (\<lambda>loop_block. cbind (append_block func ''loopbody'') (\<lambda>body_block.
     cbind (append_block func ''loopstep'') (\<lambda>step_block. cbind (append_block func ''loopexit'') (\<lambda>exit_block.
     cseq (exec self (Build_Br loop_block))
     (cseq (exec self (Position_At_End loop_block))
     (cseq (case c of
         Some e \<Rightarrow> cbind (codegen_expr_top n self False e (hint_of bool_type)) (\<lambda>(e', cond).
           exec self (Build_Cond_Br cond body_block exit_block))
       | None \<Rightarrow> exec self (Build_Br body_block))
     (cseq (exec self (Position_At_End body_block))
     (cseq (opt_stmt gen (self\<lparr>cg_continue_block := Some step_block, cg_break_block := Some exit_block\<rparr>) body)
     (cseq (exec self (Build_Br step_block))
     (cseq (exec self (Position_At_End step_block))
     (cseq (codegen_opt_expr n self stp)
     (cseq (exec self (Build_Br loop_block))
     (cseq (exec self (Position_At_End exit_block))
     (cbind codegen_context_dispose (\<lambda>_. cret ()))))))))))))))))))"

definition codegen_jump :: "codegen_t \<Rightarrow> lval option \<Rightarrow> string \<Rightarrow> unit cg" where
  "codegen_jump self target msg = (case target of
     None \<Rightarrow> cfail (Assert_Failed msg)
   | Some b \<Rightarrow> cseq (exec self (Build_Br b)) set_terminated)"

definition codegen_return :: "nat \<Rightarrow> codegen_t \<Rightarrow> expr option \<Rightarrow> unit cg" where
  "codegen_return n self e =
     cseq (case e of
         None \<Rightarrow> exec self Build_Ret_Void
       | Some e \<Rightarrow> (case cg_unit self of
             None \<Rightarrow> cfail (Assert_Failed ''self->unit && self->unit->kind == AST_FUNC_UNIT'')
           | Some return_type \<Rightarrow>
               cbind (codegen_expr_top n self False e (hint_of return_type)) (\<lambda>(e', v).
               exec self (Build_Ret v))))
     set_terminated"

definition codegen_stmt_kind :: "nat \<Rightarrow> codegen_t \<Rightarrow> stmt_gen \<Rightarrow> stmt \<Rightarrow> unit cg" where
  "codegen_stmt_kind n self gen x = (case stmt_kind x of
     Expr_Stmt e \<Rightarrow> codegen_opt_expr n self (Some e)
   | Compound_Stmt items \<Rightarrow> codegen_compound n self gen items
   | If_Stmt c y z \<Rightarrow> codegen_if n self gen c y z
   | For_Stmt i c stp body \<Rightarrow> codegen_for n self gen i c stp body
   | Continue_Stmt \<Rightarrow> codegen_jump self (cg_continue_block self) ''nowhere to continue to''
   | Break_Stmt \<Rightarrow> codegen_jump self (cg_break_block self) ''nowhere to break to''
   | Return_Stmt e \<Rightarrow> codegen_return n self e
   | _ \<Rightarrow> die ''codegen for stmt kind not implemented'')"

primrec codegen_stmt :: "nat \<Rightarrow> stmt_gen" where
  "codegen_stmt 0 self x = cfail Diverges"
| "codegen_stmt (Suc n) self x = codegen_stmt_kind n self (codegen_stmt n) x"

subsection \<open>Functions\<close>

text \<open>The buffer for a mangled name has 100 bytes, the terminating NUL among them.\<close>

definition mangle_func_name :: "string option \<Rightarrow> string \<Rightarrow> string res" where
  "mangle_func_name package name = (case package of
     None \<Rightarrow> Inr name
   | Some pkg \<Rightarrow>
       if name = ''main'' then Inr name
       else (let str = pkg @ ''_'' @ name in
         if length str < 100 then Inr str else Inl (Undefined ''write past the end of str'')))"

definition declare_func :: "nat \<Rightarrow> codegen_t \<Rightarrow> func_unit \<Rightarrow> unit cg" where
  "declare_func n self fu =
     cbind (cmap (codegen_type n False) (map param_type (fu_params fu))) (\<lambda>param_types.
     cbind (codegen_type n False (fu_return_type fu)) (\<lambda>lr.
     cbind (clift (mangle_func_name (cg_package self) (fu_name fu))) (\<lambda>fname.
     cbind (llvm (Add_Function fname (Ty_Function lr param_types (fu_variadic fu)))) (\<lambda>func.
     cbind (clift (type_copy (fu_return_type fu))) (\<lambda>r.
     cbind (cmap (\<lambda>p. clift (type_copy (param_type p))) (fu_params fu)) (\<lambda>as.
     codegen_context_add_symbol (no_symbol\<lparr>cs_kind := Func_Symbol, cs_type := Some (Type 0 (Func_Type r as)),
       cs_name := Some (fu_name fu), cs_value := Some func\<rparr>)))))))"

definition codegen_param :: "nat \<Rightarrow> codegen_t \<Rightarrow> lval \<Rightarrow> nat \<times> func_param \<Rightarrow> unit cg" where
  "codegen_param n self func ip = (let (i, p) = ip in
     cbind (llvm (Get_Param func i)) (\<lambda>param_value.
     cseq (case param_name p of None \<Rightarrow> cret ()
       | Some name \<Rightarrow> cbind (llvm (Set_Value_Name param_value name)) (\<lambda>_. cret ()))
     (cbind (codegen_type n False (param_type p)) (\<lambda>lt.
     cbind (build self (Build_Alloca lt [])) (\<lambda>var.
     cseq (exec self (Build_Store param_value var))
     (codegen_context_add_symbol (variable_symbol (param_name p) (param_type p) None var)))))))"

definition verify_func :: "(call list \<Rightarrow> lval \<Rightarrow> bool) \<Rightarrow> lval \<Rightarrow> string \<Rightarrow> unit cg" where
  "verify_func verify func name =
     cbind (llvm (Verify_Function func)) (\<lambda>_ s.
       if verify (cg_calls s) func then Inl (Exited (''Function '' @ name @ '' contained errors, exiting''))
       else Inr ((), s))"

definition codegen_body ::
    "(call list \<Rightarrow> lval \<Rightarrow> bool) \<Rightarrow> nat \<Rightarrow> codegen_t \<Rightarrow> func_unit \<Rightarrow> lval \<Rightarrow> stmt \<Rightarrow> unit cg" where
  "codegen_body verify n self fu func body =
     cbind (append_block func ''entry'') (\<lambda>block.
     cbind (llvm Create_Builder) (\<lambda>_.
     (let cg = self\<lparr>cg_builder := True, cg_unit := Some (fu_return_type fu)\<rparr> in
     cseq (exec cg (Position_At_End block))
     (cseq push_context
     (cseq (cmap (codegen_param n cg func) (enumerate 0 (fu_params fu)))
     (cseq (codegen_stmt n cg body)
     (cbind codegen_context_dispose (\<lambda>terminated.
     cseq (cwhen (\<not> terminated)
       (if type_kind (fu_return_type fu) = Void_Type then exec cg Build_Ret_Void
        else derror (''missing return statement at the end of '' @ fu_name fu)))
     (cbind (llvm Dispose_Builder) (\<lambda>_. verify_func verify func (fu_name fu)))))))))))"

definition define_func ::
    "(call list \<Rightarrow> lval \<Rightarrow> bool) \<Rightarrow> nat \<Rightarrow> codegen_t \<Rightarrow> func_unit \<Rightarrow> unit cg" where
  "define_func verify n self fu =
     cbind (find_symbol (fu_name fu)) (\<lambda>sy. case sy of
       None \<Rightarrow> cfail (Assert_Failed ''could not find declaration of function'')
     | Some sy \<Rightarrow> (case fu_body fu of
         None \<Rightarrow> cret ()
       | Some body \<Rightarrow> cbind (value_ptr (cs_value sy)) (\<lambda>func. codegen_body verify n self fu func body)))"

subsection \<open>Units\<close>

definition codegen_unit ::
    "(call list \<Rightarrow> lval \<Rightarrow> bool) \<Rightarrow> nat \<Rightarrow> codegen_t \<Rightarrow> nat \<Rightarrow> unit_t \<Rightarrow> unit cg" where
  "codegen_unit verify n self stage u = (case unit_kind u of
     Import_Unit name \<Rightarrow> cret ()
   | Package_Unit name \<Rightarrow> cret ()
   | Decl_Unit d \<Rightarrow> cwhen (stage = 1) (codegen_decl n self d)
   | Func_Unit fu \<Rightarrow>
       cseq (cwhen (stage = 1) (declare_func n self fu)) (cwhen (stage = 2) (define_func verify n self fu))
   | Type_Unit ty name \<Rightarrow>
       cwhen (stage = 0) (codegen_context_add_symbol (no_symbol\<lparr>cs_name := Some name, cs_type := Some ty\<rparr>)))"

definition codegen_stage ::
    "(call list \<Rightarrow> lval \<Rightarrow> bool) \<Rightarrow> nat \<Rightarrow> codegen_t \<Rightarrow> nat \<Rightarrow> unit_t list \<Rightarrow> unit cg" where
  "codegen_stage verify n self stage us = cbind (cmap (codegen_unit verify n self stage) us) (\<lambda>_. cret ())"

definition codegen_decls ::
    "(call list \<Rightarrow> lval \<Rightarrow> bool) \<Rightarrow> nat \<Rightarrow> codegen_t \<Rightarrow> unit_t list \<Rightarrow> unit cg" where
  "codegen_decls verify n self us = cseq (codegen_stage verify n self 0 us) (codegen_stage verify n self 1 us)"

definition codegen_defs ::
    "(call list \<Rightarrow> lval \<Rightarrow> bool) \<Rightarrow> nat \<Rightarrow> codegen_t \<Rightarrow> unit_t list \<Rightarrow> unit cg" where
  "codegen_defs verify n self us = codegen_stage verify n self 2 us"

text \<open>The name of the package; a second package unit is an error.\<close>

fun codegen_package :: "string option \<Rightarrow> unit_t list \<Rightarrow> string option res" where
  "codegen_package package [] = Inr package"
| "codegen_package package (u # us) = (case unit_kind u of
     Package_Unit name \<Rightarrow>
       if package = None then codegen_package (Some name) us
       else Inl (Exited ''Encountered multiple package definitions.'')
   | _ \<Rightarrow> codegen_package package us)"

definition codegen ::
    "(call list \<Rightarrow> lval \<Rightarrow> bool) \<Rightarrow> nat \<Rightarrow> codegen_t \<Rightarrow> unit_t list \<Rightarrow> unit cg" where
  "codegen verify n self us =
     cbind (clift (codegen_package None us)) (\<lambda>package.
     (let cg = self\<lparr>cg_package := package\<rparr> in
      cseq (codegen_decls verify n cg us) (codegen_defs verify n cg us)))"

end
