(* ===== verification/Target.thy ===== *)
theory Target
  imports Codegen "HOL-Library.Signed_Division"
begin

section \<open>Running the generated code\<close>

text \<open>
  What the recorded calls mean when the code they build is run, as far as integers, variables and
  branches go. A value is an integer of some width, as its bits, or the address of a
  variable. Arithmetic is LLVM's: it is a parameter, of which \<open>documented\<close> states what the
  language reference says.
\<close>

unbundle bit_operations_syntax

subsection \<open>Arithmetic\<close>

datatype mval = Int_Val nat int | Ptr_Val nat

text \<open>Values, arithmetic, and what a call of a function returns; the function is the number of the
  call that has declared it.\<close>

record arith =
  ar_binary :: "binary_inst \<Rightarrow> nat \<Rightarrow> int \<Rightarrow> int \<Rightarrow> int option"
  ar_compare :: "predicate \<Rightarrow> nat \<Rightarrow> int \<Rightarrow> int \<Rightarrow> bool"
  ar_text :: "nat \<Rightarrow> string \<Rightarrow> int \<Rightarrow> int"
  ar_call :: "nat \<Rightarrow> mval list \<Rightarrow> mval option"

text \<open>The number that bits stand for, read with a sign.\<close>

definition signed_bits :: "nat \<Rightarrow> int \<Rightarrow> int" where
  "signed_bits w x = signed_take_bit (w - 1) x"

definition division_defined :: "nat \<Rightarrow> int \<Rightarrow> int \<Rightarrow> bool" where
  "division_defined w x y \<longleftrightarrow> y \<noteq> 0 \<and> \<not> (x = - (2 ^ (w - 1)) \<and> y = -1)"

definition digit_of :: "char \<Rightarrow> int" where
  "digit_of c = (let k = int (of_char c) in
     if 48 \<le> k \<and> k \<le> 57 then k - 48 else if 97 \<le> k \<and> k \<le> 122 then k - 87
     else if 65 \<le> k \<and> k \<le> 90 then k - 55 else 36)"

definition number_value :: "int \<Rightarrow> string \<Rightarrow> int" where
  "number_value radix txt = foldl (\<lambda>n c. radix * n + digit_of c) 0 txt"

text \<open>The radices that LLVM reads.\<close>

definition is_numeral :: "int \<Rightarrow> string \<Rightarrow> bool" where
  "is_numeral radix txt \<longleftrightarrow> radix \<in> {2, 8, 10, 16, 36} \<and> txt \<noteq> [] \<and> list_all (\<lambda>c. digit_of c < radix) txt"

definition binary_documented :: "(binary_inst \<Rightarrow> nat \<Rightarrow> int \<Rightarrow> int \<Rightarrow> int option) \<Rightarrow> nat \<Rightarrow> int \<Rightarrow> int \<Rightarrow> bool" where
  "binary_documented f w x y \<longleftrightarrow>
     f I_Add w x y = Some (take_bit w (x + y)) \<and> f I_Sub w x y = Some (take_bit w (x - y)) \<and>
     f I_Mul w x y = Some (take_bit w (x * y)) \<and> f I_And w x y = Some (x AND y) \<and>
     f I_Or w x y = Some (x OR y) \<and> f I_Xor w x y = Some (x XOR y) \<and>
     (y \<noteq> 0 \<longrightarrow> f I_UDiv w x y = Some (x div y)) \<and>
     (division_defined w (signed_bits w x) (signed_bits w y) \<longrightarrow>
       f I_SDiv w x y = Some (take_bit w (signed_bits w x sdiv signed_bits w y)) \<and>
       f I_SRem w x y = Some (take_bit w (signed_bits w x smod signed_bits w y))) \<and>
     (y < int w \<longrightarrow> f I_Shl w x y = Some (take_bit w (push_bit (nat y) x)) \<and>
       f I_AShr w x y = Some (take_bit w (drop_bit (nat y) (signed_bits w x))))"

definition compare_documented :: "(predicate \<Rightarrow> nat \<Rightarrow> int \<Rightarrow> int \<Rightarrow> bool) \<Rightarrow> nat \<Rightarrow> int \<Rightarrow> int \<Rightarrow> bool" where
  "compare_documented f w x y \<longleftrightarrow>
     (f Int_EQ w x y \<longleftrightarrow> x = y) \<and> (f Int_NE w x y \<longleftrightarrow> x \<noteq> y) \<and>
     (f Int_SLT w x y \<longleftrightarrow> signed_bits w x < signed_bits w y) \<and> (f Int_SGT w x y \<longleftrightarrow> signed_bits w x > signed_bits w y) \<and>
     (f Int_SLE w x y \<longleftrightarrow> signed_bits w x \<le> signed_bits w y) \<and> (f Int_SGE w x y \<longleftrightarrow> signed_bits w x \<ge> signed_bits w y) \<and>
     (f Int_ULT w x y \<longleftrightarrow> x < y)"

definition documented :: "arith \<Rightarrow> bool" where
  "documented ar \<longleftrightarrow>
     (\<forall>w x y. 0 < w \<longrightarrow> 0 \<le> x \<longrightarrow> x < 2 ^ w \<longrightarrow> 0 \<le> y \<longrightarrow> y < 2 ^ w \<longrightarrow>
        binary_documented (ar_binary ar) w x y \<and> compare_documented (ar_compare ar) w x y) \<and>
     (\<forall>w radix txt. is_numeral radix txt \<longrightarrow> number_value radix txt < 2 ^ w \<longrightarrow>
        ar_text ar w txt radix = number_value radix txt)"

text \<open>An arithmetic that is as documented.\<close>

definition standard_binary :: "binary_inst \<Rightarrow> nat \<Rightarrow> int \<Rightarrow> int \<Rightarrow> int option" where
  "standard_binary i w x y = (let sx = signed_bits w x; sy = signed_bits w y in case i of
     I_Add \<Rightarrow> Some (take_bit w (x + y)) | I_Sub \<Rightarrow> Some (take_bit w (x - y)) | I_Mul \<Rightarrow> Some (take_bit w (x * y))
   | I_And \<Rightarrow> Some (x AND y) | I_Or \<Rightarrow> Some (x OR y) | I_Xor \<Rightarrow> Some (x XOR y)
   | I_UDiv \<Rightarrow> if y = 0 then None else Some (x div y)
   | I_SDiv \<Rightarrow> if division_defined w sx sy then Some (take_bit w (sx sdiv sy)) else None
   | I_SRem \<Rightarrow> if division_defined w sx sy then Some (take_bit w (sx smod sy)) else None
   | I_Shl \<Rightarrow> if y < int w then Some (take_bit w (push_bit (nat y) x)) else None
   | I_AShr \<Rightarrow> if y < int w then Some (take_bit w (drop_bit (nat y) sx)) else None
   | _ \<Rightarrow> None)"

definition standard_compare :: "predicate \<Rightarrow> nat \<Rightarrow> int \<Rightarrow> int \<Rightarrow> bool" where
  "standard_compare p w x y = (let sx = signed_bits w x; sy = signed_bits w y in case p of
     Int_EQ \<Rightarrow> x = y | Int_NE \<Rightarrow> x \<noteq> y | Int_SLT \<Rightarrow> sx < sy | Int_SGT \<Rightarrow> sx > sy | Int_SLE \<Rightarrow> sx \<le> sy
   | Int_SGE \<Rightarrow> sx \<ge> sy | Int_ULT \<Rightarrow> x < y | _ \<Rightarrow> False)"

definition standard :: arith where
  "standard = \<lparr>ar_binary = standard_binary, ar_compare = standard_compare,
     ar_text = (\<lambda>w txt radix. number_value radix txt), ar_call = (\<lambda>f xs. None)\<rparr>"

lemma standard_documented: "documented standard"
  by (simp add: documented_def standard_def binary_documented_def compare_documented_def standard_binary_def
      standard_compare_def Let_def)

subsection \<open>The machine\<close>

text \<open>
  The position in the list of calls, the current block and the one it was entered from, the results
  of the calls, and the variables by the number of the call that allocated them: a variable of a
  loop body is a new one in each round.
\<close>

record machine =
  m_pc :: nat
  m_block :: lval
  m_from :: "lval option"
  m_regs :: "nat \<Rightarrow> mval option"
  m_mem :: "nat \<Rightarrow> mval option"

fun operand :: "arith \<Rightarrow> (nat \<Rightarrow> mval option) \<Rightarrow> lval \<Rightarrow> mval option"
  and width_in :: "arith \<Rightarrow> (nat \<Rightarrow> mval option) \<Rightarrow> ltype \<Rightarrow> nat option" where
  "operand ar regs (Val k) = regs k"
| "operand ar regs (Const_Null t) = map_option (\<lambda>w. Int_Val w 0) (width_in ar regs t)"
| "operand ar regs (Const_All_Ones t) = map_option (\<lambda>w. Int_Val w (mask w)) (width_in ar regs t)"
| "operand ar regs (Const_Int t n) = map_option (\<lambda>w. Int_Val w (take_bit w (int n))) (width_in ar regs t)"
| "operand ar regs (Const_Int_Of_String t txt radix) =
     map_option (\<lambda>w. Int_Val w (ar_text ar w txt radix)) (width_in ar regs t)"
| "operand ar regs _ = None"
| "width_in ar regs (Ty_Int w) = Some (unat w)"
| "width_in ar regs (Ty_Of v) = (case operand ar regs v of Some (Int_Val w x) \<Rightarrow> Some w | _ \<Rightarrow> None)"
| "width_in ar regs _ = None"

text \<open>Where a block starts.\<close>

fun label_from :: "nat \<Rightarrow> call list \<Rightarrow> lval \<Rightarrow> nat option" where
  "label_from i [] b = None"
| "label_from i (c # cs) b = (if c = Position_At_End b then Some i else label_from (Suc i) cs b)"

definition label_of :: "call list \<Rightarrow> lval \<Rightarrow> nat option" where
  "label_of cs b = label_from 0 cs b"

definition next_call :: "machine \<Rightarrow> machine" where
  "next_call m = m\<lparr>m_pc := Suc (m_pc m)\<rparr>"

definition put :: "mval \<Rightarrow> machine \<Rightarrow> machine" where
  "put v m = m\<lparr>m_pc := Suc (m_pc m), m_regs := (m_regs m)(m_pc m := Some v)\<rparr>"

definition jump :: "call list \<Rightarrow> lval \<Rightarrow> machine \<Rightarrow> machine option" where
  "jump cs b m = map_option (\<lambda>p. m\<lparr>m_pc := Suc p, m_from := Some (m_block m), m_block := b\<rparr>) (label_of cs b)"

definition binary_step :: "arith \<Rightarrow> binary_inst \<Rightarrow> mval option \<Rightarrow> mval option \<Rightarrow> mval option" where
  "binary_step ar i a b = (case (a, b) of
     (Some (Int_Val w x), Some (Int_Val w' y)) \<Rightarrow> if w = w' then map_option (Int_Val w) (ar_binary ar i w x y) else None
   | _ \<Rightarrow> None)"

definition compare_step :: "arith \<Rightarrow> predicate \<Rightarrow> mval option \<Rightarrow> mval option \<Rightarrow> mval option" where
  "compare_step ar p a b = (case (a, b) of
     (Some (Int_Val w x), Some (Int_Val w' y)) \<Rightarrow> if w = w' then Some (Int_Val 1 (of_bool (ar_compare ar p w x y))) else None
   | _ \<Rightarrow> None)"

text \<open>Negation is subtraction from zero, and complement exclusive or with ones.\<close>

definition unary_step :: "arith \<Rightarrow> unary_inst \<Rightarrow> mval option \<Rightarrow> mval option" where
  "unary_step ar i a = (case a of
     Some (Int_Val w x) \<Rightarrow> (case i of
         I_Neg \<Rightarrow> map_option (Int_Val w) (ar_binary ar I_Sub w 0 x)
       | I_Not \<Rightarrow> map_option (Int_Val w) (ar_binary ar I_Xor w (mask w) x)
       | I_FNeg \<Rightarrow> None)
   | _ \<Rightarrow> None)"

text \<open>The cast of integers extends the sign.\<close>

definition cast_step :: "cast_inst \<Rightarrow> mval option \<Rightarrow> nat option \<Rightarrow> mval option" where
  "cast_step i a w' = (case (a, w') of
     (Some (Int_Val w x), Some w') \<Rightarrow> (case i of
         Int_Cast \<Rightarrow> Some (Int_Val w' (take_bit w' (signed_bits w x)))
       | Z_Ext \<Rightarrow> if w < w' then Some (Int_Val w' x) else None
       | _ \<Rightarrow> None)
   | _ \<Rightarrow> None)"

text \<open>The incoming values of a phi are added by the call after it.\<close>

definition phi_value :: "call list \<Rightarrow> nat \<Rightarrow> lval option \<Rightarrow> lval option" where
  "phi_value cs pc from_block = (if Suc pc < length cs then (case (cs ! Suc pc, from_block) of
     (Add_Incoming (Val k) inc, Some b) \<Rightarrow>
       if k = pc then map_of (map (\<lambda>(v, b). (b, v)) inc) b else None
   | _ \<Rightarrow> None) else None)"

definition mstep :: "arith \<Rightarrow> call list \<Rightarrow> mval list \<Rightarrow> machine \<Rightarrow> machine option" where
  "mstep ar cs params m = (let val = operand ar (m_regs m); res = map_option (\<lambda>v. put v m) in
     if length cs \<le> m_pc m then None else case cs ! m_pc m of
     Build_Alloca t s \<Rightarrow> Some ((put (Ptr_Val (m_pc m)) m)\<lparr>m_mem := (m_mem m)(m_pc m := None)\<rparr>)
   | Build_Load p s \<Rightarrow> (case val p of Some (Ptr_Val k) \<Rightarrow> res (m_mem m k) | _ \<Rightarrow> None)
   | Build_Store v p \<Rightarrow> (case (val v, val p) of
         (Some x, Some (Ptr_Val k)) \<Rightarrow> Some ((next_call m)\<lparr>m_mem := (m_mem m)(k := Some x)\<rparr>)
       | _ \<Rightarrow> None)
   | Build_Binary i a b s \<Rightarrow> res (binary_step ar i (val a) (val b))
   | Build_Cmp p a b s \<Rightarrow> res (compare_step ar p (val a) (val b))
   | Build_Unary i a s \<Rightarrow> res (unary_step ar i (val a))
   | Build_Cast i a t s \<Rightarrow> res (cast_step i (val a) (width_in ar (m_regs m) t))
   | Build_Br b \<Rightarrow> jump cs b m
   | Build_Cond_Br c t e \<Rightarrow> (case val c of
         Some (Int_Val w x) \<Rightarrow> jump cs (if x \<noteq> 0 then t else e) m
       | _ \<Rightarrow> None)
   | Build_Phi t s \<Rightarrow> (case phi_value cs (m_pc m) (m_from m) of Some v \<Rightarrow> res (val v) | None \<Rightarrow> None)
   | Build_Call f args s \<Rightarrow> (case (f, those (map val args)) of
         (Val k, Some xs) \<Rightarrow> res (ar_call ar k xs)
       | _ \<Rightarrow> None)
   | Get_Param f i \<Rightarrow> if i < length params then Some (put (params ! i) m) else None
   | Get_Insert_Block \<Rightarrow> Some (next_call m)
   | Get_Basic_Block_Parent b \<Rightarrow> Some (next_call m)
   | Append_Basic_Block f s \<Rightarrow> Some (next_call m)
   | Add_Incoming v inc \<Rightarrow> Some (next_call m)
   | Set_Value_Name v s \<Rightarrow> Some (next_call m)
   | _ \<Rightarrow> None)"

definition runs :: "arith \<Rightarrow> call list \<Rightarrow> mval list \<Rightarrow> machine \<Rightarrow> machine \<Rightarrow> bool" where
  "runs ar cs params = (\<lambda>m m'. mstep ar cs params m = Some m')\<^sup>*\<^sup>*"

text \<open>The machine stands at a return, with this value.\<close>

definition returning :: "arith \<Rightarrow> call list \<Rightarrow> machine \<Rightarrow> mval option \<Rightarrow> bool" where
  "returning ar cs m r \<longleftrightarrow> m_pc m < length cs \<and> (case cs ! m_pc m of
     Build_Ret v \<Rightarrow> r \<noteq> None \<and> operand ar (m_regs m) v = r
   | Build_Ret_Void \<Rightarrow> r = None
   | _ \<Rightarrow> False)"

text \<open>The machine at the start of a block.\<close>

definition start_at :: "nat \<Rightarrow> lval \<Rightarrow> machine" where
  "start_at p b = \<lparr>m_pc = Suc p, m_block = b, m_from = None, m_regs = (\<lambda>k. None), m_mem = (\<lambda>k. None)\<rparr>"

text \<open>Blocks that are entered only once are found by their labels.\<close>

definition entered_once :: "call list \<Rightarrow> bool" where
  "entered_once cs \<longleftrightarrow> (\<forall>b p q. p < length cs \<and> q < length cs \<and> cs ! p = Position_At_End b \<and>
     cs ! q = Position_At_End b \<longrightarrow> p = q)"

end
