(* ===== verification/Source_Sem.thy ===== *)
theory Source_Sem
  imports Codegen_Stmt Target
begin

section \<open>What statements over integers and booleans mean\<close>

text \<open>
  The reference the generated code is compared with: the values of the expressions of low over
  integers, booleans and local variables, and the executions of statements. A value is a number in
  the range of its type, a boolean 0 or 1. An execution has no value (\<open>None\<close>) where the
  program divides by zero, shifts too far, reads a variable before it has a value, or leaves this
  part of the language.
\<close>

subsection \<open>Types and variables\<close>

fun scalar :: "type_t \<Rightarrow> bool" where
  "scalar (Type p (Integer_Type w)) \<longleftrightarrow> p = 0 \<and> 0 < w"
| "scalar (Type p Boolean_Type) \<longleftrightarrow> p = 0"
| "scalar t \<longleftrightarrow> False"

fun width :: "type_t \<Rightarrow> nat" where
  "width (Type p (Integer_Type w)) = unat w"
| "width t = 1"

text \<open>Arithmetic wraps around: integers are signed, booleans are a bit.\<close>

fun wrap :: "type_t \<Rightarrow> int \<Rightarrow> int" where
  "wrap (Type p (Integer_Type w)) x = signed_bits (unat w) x"
| "wrap t x = take_bit 1 x"

definition rep :: "type_t \<Rightarrow> int \<Rightarrow> mval" where
  "rep t x = Int_Val (width t) (take_bit (width t) x)"

text \<open>The variables of the scopes, the innermost first, in the order of their declarations.\<close>

datatype var = Var (var_name: "string option") (var_type: type_t) (var_value: "int option")

type_synonym env = "var list list"

fun var_index :: "var list \<Rightarrow> string \<Rightarrow> nat option" where
  "var_index [] name = None"
| "var_index (v # vs) name = (if var_name v = Some name then Some 0 else map_option Suc (var_index vs name))"

fun find_var :: "env \<Rightarrow> string \<Rightarrow> (nat \<times> nat) option" where
  "find_var [] name = None"
| "find_var (vs # env) name = (case var_index vs name of
     Some i \<Rightarrow> Some (0, i)
   | None \<Rightarrow> map_option (\<lambda>(d, i). (Suc d, i)) (find_var env name))"

definition var_at :: "env \<Rightarrow> nat \<times> nat \<Rightarrow> var" where
  "var_at env p = env ! fst p ! snd p"

definition set_at :: "env \<Rightarrow> nat \<times> nat \<Rightarrow> int \<Rightarrow> env" where
  "set_at env p x = env[fst p := (env ! fst p)[snd p := Var (var_name (var_at env p)) (var_type (var_at env p)) (Some x)]]"

definition type_in :: "env \<Rightarrow> string \<Rightarrow> type_t option" where
  "type_in env name = map_option (\<lambda>p. var_type (var_at env p)) (find_var env name)"

definition get_var :: "env \<Rightarrow> string \<Rightarrow> int option" where
  "get_var env name = Option.bind (find_var env name) (\<lambda>p. var_value (var_at env p))"

definition set_var :: "env \<Rightarrow> string \<Rightarrow> int \<Rightarrow> env" where
  "set_var env name x = (case find_var env name of Some p \<Rightarrow> set_at env p x | None \<Rightarrow> env)"

subsection \<open>Functions\<close>

text \<open>
  The functions of the file: their results and parameters, what they return, and the calls that have
  declared them to LLVM, which have no part in the meaning.
\<close>

record funs =
  fn_sigs :: "(string \<times> type_t \<times> type_t list) list"
  fn_value :: "string \<Rightarrow> int list \<Rightarrow> int option"
  fn_address :: "string \<Rightarrow> nat"

definition no_funs :: funs where
  "no_funs = \<lparr>fn_sigs = [], fn_value = (\<lambda>name xs. None), fn_address = (\<lambda>name. 0)\<rparr>"

subsection \<open>Well-typed expressions\<close>

text \<open>No conditional inside, so that the code of the expression is one block.\<close>

fun straight :: "expr \<Rightarrow> bool" where
  "straight (Expr l t (Unary_Expr a op)) \<longleftrightarrow> straight a"
| "straight (Expr l t (Cast_Expr a ty)) \<longleftrightarrow> straight a"
| "straight (Expr l t (Binary_Expr a b op)) \<longleftrightarrow> straight a \<and> straight b"
| "straight (Expr l t (Assignment_Expr a b op)) \<longleftrightarrow> straight b"
| "straight (Expr l t (Comma_Expr es)) \<longleftrightarrow> list_all straight es"
| "straight (Expr l t (Call_Expr f args)) \<longleftrightarrow> list_all straight args"
| "straight (Expr l t (Conditional_Expr c a b)) \<longleftrightarrow> False"
| "straight e \<longleftrightarrow> True"

definition comparing :: "binary_op \<Rightarrow> bool" where
  "comparing op \<longleftrightarrow> op \<in> {Op_Lt, Op_Gt, Op_Le, Op_Ge, Op_Eq, Op_Ne, Op_And, Op_Or}"

definition variable_of :: "expr \<Rightarrow> string option" where
  "variable_of e = (case expr_kind e of
     Ident_Expr name \<Rightarrow> if name = ''true'' \<or> name = ''false'' then None else Some name
   | _ \<Rightarrow> None)"

definition function_of :: "expr \<Rightarrow> string option" where
  "function_of e = (case expr_kind e of Ident_Expr name \<Rightarrow> Some name | _ \<Rightarrow> None)"

definition signature :: "funs \<Rightarrow> expr \<Rightarrow> (type_t \<times> type_t list) option" where
  "signature F f = Option.bind (function_of f) (map_of (fn_sigs F))"

text \<open>
  The expressions with consistent types, as \<open>prepare_expr\<close> writes them, over variables whose
  types are given. The branches of a conditional contain no further conditional: the code for these
  is wrong.
\<close>

fun plain :: "funs \<Rightarrow> (string \<Rightarrow> type_t option) \<Rightarrow> expr \<Rightarrow> bool" where
  "plain F G (Expr l t (Ident_Expr name)) \<longleftrightarrow> scalar t \<and>
     (if name = ''true'' \<or> name = ''false'' then t = bool_type else G name = Some t)"
| "plain F G (Expr l t (Number_Literal_Expr s r)) \<longleftrightarrow> scalar t \<and> is_integer t"
| "plain F G (Expr l t (Incdec_Expr a ord dir)) \<longleftrightarrow> plain F G a \<and> variable_of a \<noteq> None \<and> t = expr_type a \<and> is_integer t"
| "plain F G (Expr l t (Unary_Expr a op)) \<longleftrightarrow> plain F G a \<and> t = expr_type a \<and> (case op of
     Op_Positive \<Rightarrow> True | Op_Negative \<Rightarrow> is_integer t | Op_Bitwise_Not \<Rightarrow> is_integer t
   | Op_Not \<Rightarrow> t = bool_type | Op_Address \<Rightarrow> False | Op_Deref \<Rightarrow> False)"
| "plain F G (Expr l t (Cast_Expr a ty)) \<longleftrightarrow> plain F G a \<and> scalar ty \<and> t = ty"
| "plain F G (Expr l t (Binary_Expr a b op)) \<longleftrightarrow> plain F G a \<and> plain F G b \<and> expr_type a = expr_type b \<and>
     t = (if comparing op then bool_type else expr_type a)"
| "plain F G (Expr l t (Conditional_Expr c a b)) \<longleftrightarrow> plain F G c \<and> plain F G a \<and> plain F G b \<and> expr_type c = bool_type \<and>
     straight a \<and> straight b \<and> t = expr_type a \<and> t = expr_type b"
| "plain F G (Expr l t (Assignment_Expr a b op)) \<longleftrightarrow> plain F G a \<and> variable_of a \<noteq> None \<and> plain F G b \<and>
     expr_type a = expr_type b \<and> t = expr_type a \<and> (op = Assign \<or> is_integer t)"
| "plain F G (Expr l t (Comma_Expr es)) \<longleftrightarrow> list_all (plain F G) es \<and> es \<noteq> [] \<and> t = expr_type (last es)"
| "plain F G (Expr l t (Call_Expr f args)) \<longleftrightarrow> Option.bind (function_of f) G = None \<and> list_all (plain F G) args \<and>
     scalar t \<and> signature F f = Some (t, map expr_type args)"
| "plain F G e \<longleftrightarrow> False"

subsection \<open>Values of expressions\<close>

definition integer_value :: "nat \<Rightarrow> binary_op \<Rightarrow> int \<Rightarrow> int \<Rightarrow> int option" where
  "integer_value w op x y = (case op of
     Op_Add \<Rightarrow> Some (x + y) | Op_Sub \<Rightarrow> Some (x - y) | Op_Mul \<Rightarrow> Some (x * y)
   | Op_Div \<Rightarrow> if division_defined w x y then Some (x sdiv y) else None
   | Op_Mod \<Rightarrow> if division_defined w x y then Some (x smod y) else None
   | Op_Left \<Rightarrow> if 0 \<le> y \<and> y < int w then Some (x * 2 ^ nat y) else None
   | Op_Right \<Rightarrow> if 0 \<le> y \<and> y < int w then Some (x div 2 ^ nat y) else None
   | Op_Lt \<Rightarrow> Some (of_bool (x < y)) | Op_Gt \<Rightarrow> Some (of_bool (x > y))
   | Op_Le \<Rightarrow> Some (of_bool (x \<le> y)) | Op_Ge \<Rightarrow> Some (of_bool (x \<ge> y))
   | Op_Eq \<Rightarrow> Some (of_bool (x = y)) | Op_Ne \<Rightarrow> Some (of_bool (x \<noteq> y))
   | Op_Bitwise_And \<Rightarrow> Some (x AND y) | Op_Bitwise_Xor \<Rightarrow> Some (x XOR y) | Op_Bitwise_Or \<Rightarrow> Some (x OR y)
   | Op_And \<Rightarrow> None | Op_Or \<Rightarrow> None)"

definition boolean_value :: "binary_op \<Rightarrow> int \<Rightarrow> int \<Rightarrow> int option" where
  "boolean_value op x y = (case op of
     Op_Eq \<Rightarrow> Some (of_bool (x = y)) | Op_Ne \<Rightarrow> Some (of_bool (x \<noteq> y))
   | Op_And \<Rightarrow> Some (of_bool (x \<noteq> 0 \<and> y \<noteq> 0)) | Op_Or \<Rightarrow> Some (of_bool (x \<noteq> 0 \<or> y \<noteq> 0))
   | _ \<Rightarrow> None)"

definition binary_value :: "type_t \<Rightarrow> binary_op \<Rightarrow> int \<Rightarrow> int \<Rightarrow> int option" where
  "binary_value t op x y =
     map_option (wrap (if comparing op then bool_type else t))
       (if is_integer t then integer_value (width t) op x y else boolean_value op x y)"

definition unary_value :: "type_t \<Rightarrow> unary_op \<Rightarrow> int \<Rightarrow> int" where
  "unary_value t op x = wrap t (case op of Op_Negative \<Rightarrow> - x | Op_Bitwise_Not \<Rightarrow> NOT x | Op_Not \<Rightarrow> 1 - x | _ \<Rightarrow> x)"

text \<open>The quotient of \<open>/=\<close> is that of the other operators on numbers that are not negative only.\<close>

definition assigned_value :: "type_t \<Rightarrow> assignment_op \<Rightarrow> int \<Rightarrow> int \<Rightarrow> int option" where
  "assigned_value t op x y = map_option (wrap t) (case op of
     Add_Assign \<Rightarrow> Some (x + y) | Sub_Assign \<Rightarrow> Some (x - y) | Mul_Assign \<Rightarrow> Some (x * y)
   | Div_Assign \<Rightarrow> if 0 \<le> x \<and> 0 < y then Some (x div y) else None
   | _ \<Rightarrow> None)"

definition cast_value :: "type_t \<Rightarrow> type_t \<Rightarrow> int \<Rightarrow> int option" where
  "cast_value from_type ty x =
     (if from_type = ty then Some x
      else if is_integer ty then (if is_integer from_type \<or> 1 < width ty then Some (wrap ty x) else None)
      else Some (of_bool (x > 0)))"

definition literal_value :: "type_t \<Rightarrow> string \<Rightarrow> int \<Rightarrow> int option" where
  "literal_value t s radix = (let txt = takeWhile (\<lambda>c. c \<noteq> CHR 0x00) s in
     if is_numeral radix txt \<and> number_value radix txt < 2 ^ width t
     then Some (wrap t (number_value radix txt)) else None)"

text \<open>
  The value of an expression and the variables after it. Operands are evaluated from the left to
  the right, all of them: \<open>&&\<close> and \<open>||\<close> are no exception. The value of an assignment is that
  of its right-hand side, also when the operator is not \<open>=\<close>.
\<close>

fun eval :: "funs \<Rightarrow> expr \<Rightarrow> env \<Rightarrow> (int \<times> env) option"
  and eval_all :: "funs \<Rightarrow> expr list \<Rightarrow> env \<Rightarrow> (int \<times> env) option"
  and eval_args :: "funs \<Rightarrow> expr list \<Rightarrow> env \<Rightarrow> (int list \<times> env) option" where
  "eval F (Expr l t (Ident_Expr name)) env =
     (if name = ''true'' then Some (1, env) else if name = ''false'' then Some (0, env)
      else map_option (\<lambda>x. (x, env)) (get_var env name))"
| "eval F (Expr l t (Number_Literal_Expr s radix)) env = map_option (\<lambda>x. (x, env)) (literal_value t s radix)"
| "eval F (Expr l t (Incdec_Expr a ord dir)) env =
     Option.bind (variable_of a) (\<lambda>name. Option.bind (get_var env name) (\<lambda>x.
     (let y = wrap t (if dir = Dir_Inc then x + 1 else x - 1) in
      Some (if ord = Order_Pre then y else x, set_var env name y))))"
| "eval F (Expr l t (Unary_Expr a op)) env = map_option (\<lambda>(x, env'). (unary_value t op x, env')) (eval F a env)"
| "eval F (Expr l t (Cast_Expr a ty)) env =
     Option.bind (eval F a env) (\<lambda>(x, env'). map_option (\<lambda>y. (y, env')) (cast_value (expr_type a) ty x))"
| "eval F (Expr l t (Binary_Expr a b op)) env =
     Option.bind (eval F a env) (\<lambda>(x, env1). Option.bind (eval F b env1) (\<lambda>(y, env2).
     map_option (\<lambda>z. (z, env2)) (binary_value (expr_type a) op x y)))"
| "eval F (Expr l t (Conditional_Expr c a b)) env =
     Option.bind (eval F c env) (\<lambda>(x, env'). if x \<noteq> 0 then eval F a env' else eval F b env')"
| "eval F (Expr l t (Assignment_Expr a b op)) env =
     Option.bind (variable_of a) (\<lambda>name. Option.bind (eval F b env) (\<lambda>(y, env').
     if op = Assign then Some (y, set_var env' name y)
     else Option.bind (get_var env' name) (\<lambda>x.
       map_option (\<lambda>z. (y, set_var env' name z)) (assigned_value t op x y))))"
| "eval F (Expr l t (Comma_Expr es)) env = eval_all F es env"
| "eval F (Expr l t (Call_Expr f args)) env =
     Option.bind (function_of f) (\<lambda>name. Option.bind (eval_args F args env) (\<lambda>(xs, env').
     map_option (\<lambda>y. (y, env')) (fn_value F name xs)))"
| "eval F e env = None"
| "eval_all F [] env = None"
| "eval_all F (e # es) env = Option.bind (eval F e env) (\<lambda>(x, env'). if es = [] then Some (x, env') else eval_all F es env')"
| "eval_args F [] env = Some ([], env)"
| "eval_args F (e # es) env = Option.bind (eval F e env) (\<lambda>(x, env1). Option.bind (eval_args F es env1) (\<lambda>(xs, env2).
     Some (x # xs, env2)))"

text \<open>The types are those \<open>prepare_expr\<close> finds when the variables are in scope.\<close>

definition static_context :: "var list \<Rightarrow> codegen_context" where
  "static_context vs = codegen_context_init\<lparr>cc_symbols :=
     map (\<lambda>v. variable_symbol (var_name v) (var_type v) None (Val 0)) vs\<rparr>"

definition function_symbol :: "string \<Rightarrow> type_t \<Rightarrow> type_t list \<Rightarrow> lval \<Rightarrow> codegen_symbol" where
  "function_symbol name r ts v = no_symbol\<lparr>cs_kind := Func_Symbol, cs_type := Some (Type 0 (Func_Type r ts)),
     cs_name := Some name, cs_value := Some v\<rparr>"

definition static_functions :: "funs \<Rightarrow> codegen_context" where
  "static_functions F = codegen_context_init\<lparr>cc_symbols :=
     map (\<lambda>(name, r, ts). function_symbol name r ts (Val 0)) (fn_sigs F)\<rparr>"

fun basic :: "expr \<Rightarrow> bool" where
  "basic (Expr l t (Ident_Expr name)) \<longleftrightarrow> True"
| "basic (Expr l t (Number_Literal_Expr s r)) \<longleftrightarrow> True"
| "basic (Expr l t (Incdec_Expr a ord dir)) \<longleftrightarrow> basic a"
| "basic (Expr l t (Unary_Expr a op)) \<longleftrightarrow> basic a"
| "basic (Expr l t (Cast_Expr a ty)) \<longleftrightarrow> basic a"
| "basic (Expr l t (Binary_Expr a b op)) \<longleftrightarrow> basic a \<and> basic b"
| "basic (Expr l t (Conditional_Expr c a b)) \<longleftrightarrow> basic c \<and> basic a \<and> basic b"
| "basic (Expr l t (Assignment_Expr a b op)) \<longleftrightarrow> basic a \<and> basic b"
| "basic (Expr l t (Comma_Expr es)) \<longleftrightarrow> list_all basic es"
| "basic (Expr l t (Call_Expr f args)) \<longleftrightarrow> function_of f \<noteq> None \<and> list_all basic args"
| "basic e \<longleftrightarrow> False"

definition static_state :: "funs \<Rightarrow> env \<Rightarrow> cg_state" where
  "static_state F env = \<lparr>cg_calls = [], cg_contexts = map static_context env @ [static_functions F]\<rparr>"

definition elab :: "funs \<Rightarrow> env \<Rightarrow> expr \<Rightarrow> hint \<Rightarrow> expr option" where
  "elab F env e h = (if \<not> basic e then None else case prepare_expr (Suc (size e)) e h (static_state F env) of
     Inr (e', s) \<Rightarrow> if plain F (type_in env) e' then Some e' else None
   | Inl err \<Rightarrow> None)"

subsection \<open>Executions of statements\<close>

datatype outcome = Normal | Broke | Continued | Returned "int option"

type_synonym run = "env \<Rightarrow> (outcome \<times> env) option"

definition exec_expr :: "funs \<Rightarrow> expr option \<Rightarrow> env \<Rightarrow> env option" where
  "exec_expr F e env = (case e of
     None \<Rightarrow> Some env
   | Some e \<Rightarrow> Option.bind (elab F env e None) (\<lambda>e'. map_option snd (eval F e' env)))"

definition exec_condition :: "funs \<Rightarrow> expr \<Rightarrow> env \<Rightarrow> (bool \<times> env) option" where
  "exec_condition F c env = Option.bind (elab F env c (hint_of bool_type)) (\<lambda>c'.
     if expr_type c' = bool_type then map_option (\<lambda>(x, env'). (x \<noteq> 0, env')) (eval F c' env) else None)"

definition add_var :: "var \<Rightarrow> env \<Rightarrow> env" where
  "add_var v env = (case env of [] \<Rightarrow> [] | vs # env' \<Rightarrow> (vs @ [v]) # env')"

definition set_last :: "env \<Rightarrow> int \<Rightarrow> env" where
  "set_last env x = set_at env (0, length (hd env) - 1) x"

text \<open>A variable is in scope in its own initial value, without a value.\<close>

definition exec_decl :: "funs \<Rightarrow> decl \<Rightarrow> env \<Rightarrow> env option" where
  "exec_decl F d env = (case decl_kind d of
     Variable_Decl ty name initial \<Rightarrow>
       if type_kind ty \<noteq> No_Type then
         if \<not> scalar ty then None
         else (let env1 = add_var (Var (Some name) ty None) env in case initial of
             None \<Rightarrow> Some (set_last env1 0)
           | Some e \<Rightarrow> Option.bind (elab F env1 e (hint_of ty)) (\<lambda>e'.
               if expr_type e' = ty then map_option (\<lambda>(x, env2). set_last env2 x) (eval F e' env1) else None))
       else (case initial of
           None \<Rightarrow> None
         | Some e \<Rightarrow> Option.bind (elab F env e None) (\<lambda>e'.
             map_option (\<lambda>(x, env1). add_var (Var (Some name) (expr_type e') (Some x)) env1) (eval F e' env)))
   | _ \<Rightarrow> None)"

definition exec_opt :: "(stmt \<Rightarrow> run) \<Rightarrow> stmt option \<Rightarrow> run" where
  "exec_opt ex x env = (case x of None \<Rightarrow> Some (Normal, env) | Some x \<Rightarrow> ex x env)"

definition exec_item :: "funs \<Rightarrow> (stmt \<Rightarrow> run) \<Rightarrow> block_item \<Rightarrow> run" where
  "exec_item F ex item env = (case item of
     Stmt_Item x \<Rightarrow> exec_opt ex x env
   | Decl_Item d \<Rightarrow> map_option (\<lambda>env'. (Normal, env')) (exec_decl F d env))"

fun exec_items :: "funs \<Rightarrow> (stmt \<Rightarrow> run) \<Rightarrow> block_item list \<Rightarrow> run" where
  "exec_items F ex [] env = Some (Normal, env)"
| "exec_items F ex (item # items) env = Option.bind (exec_item F ex item env) (\<lambda>(r, env').
     if r = Normal then exec_items F ex items env' else Some (r, env'))"

definition in_scope :: "(env \<Rightarrow> ('a \<times> env) option) \<Rightarrow> env \<Rightarrow> ('a \<times> env) option" where
  "in_scope f env = map_option (\<lambda>(r, env'). (r, tl env')) (f ([] # env))"

primrec for_loop ::
    "funs \<Rightarrow> nat \<Rightarrow> (stmt \<Rightarrow> run) \<Rightarrow> expr option \<Rightarrow> expr option \<Rightarrow> stmt option \<Rightarrow> run" where
  "for_loop F 0 ex c stp body env = None"
| "for_loop F (Suc k) ex c stp body env =
     Option.bind (case c of None \<Rightarrow> Some (True, env) | Some c \<Rightarrow> exec_condition F c env) (\<lambda>(b, env1).
     if \<not> b then Some (Normal, env1)
     else Option.bind (exec_opt ex body env1) (\<lambda>(r, env2). case r of
         Broke \<Rightarrow> Some (Normal, env2)
       | Returned v \<Rightarrow> Some (Returned v, env2)
       | _ \<Rightarrow> Option.bind (exec_expr F stp env2) (for_loop F k ex c stp body)))"

text \<open>
  \<open>exec_stmt k\<close> is the execution of a statement in a function of a return type, with at most \<open>k\<close>
  nested statements and rounds of a loop.
\<close>

definition exec_return :: "funs \<Rightarrow> type_t \<Rightarrow> expr option \<Rightarrow> run" where
  "exec_return F rt e env = (case e of
     None \<Rightarrow> if type_kind rt = Void_Type then Some (Returned None, env) else None
   | Some e \<Rightarrow> Option.bind (elab F env e (hint_of rt)) (\<lambda>e'.
       if expr_type e' = rt then map_option (\<lambda>(x, env'). (Returned (Some x), env')) (eval F e' env) else None))"

primrec exec_stmt :: "funs \<Rightarrow> type_t \<Rightarrow> nat \<Rightarrow> stmt \<Rightarrow> run" where
  "exec_stmt F rt 0 x env = None"
| "exec_stmt F rt (Suc k) x env = (case stmt_kind x of
     Expr_Stmt e \<Rightarrow> map_option (\<lambda>env'. (Normal, env')) (exec_expr F (Some e) env)
   | Compound_Stmt items \<Rightarrow> in_scope (exec_items F (exec_stmt F rt k) items) env
   | If_Stmt c y z \<Rightarrow> Option.bind (in_scope (exec_condition F c) env) (\<lambda>(b, env').
       in_scope (exec_opt (exec_stmt F rt k) (if b then y else z)) env')
   | For_Stmt i c stp body \<Rightarrow> in_scope (\<lambda>env1. Option.bind (exec_expr F i env1)
       (for_loop F k (exec_stmt F rt k) c stp body)) env
   | Continue_Stmt \<Rightarrow> Some (Continued, env)
   | Break_Stmt \<Rightarrow> Some (Broke, env)
   | Return_Stmt e \<Rightarrow> exec_return F rt e env
   | _ \<Rightarrow> None)"

text \<open>A call: the value returned, or that the function returned without one.\<close>

definition call_env :: "func_unit \<Rightarrow> int list \<Rightarrow> env" where
  "call_env fu xs = [map2 (\<lambda>p x. Var (param_name p) (param_type p) (Some x)) (fu_params fu) xs]"

definition call_value :: "funs \<Rightarrow> nat \<Rightarrow> func_unit \<Rightarrow> stmt \<Rightarrow> int list \<Rightarrow> int option option" where
  "call_value F k fu body xs = Option.bind (exec_stmt F (fu_return_type fu) k body (call_env fu xs)) (\<lambda>(r, env).
     case r of Returned v \<Rightarrow> Some v
     | Normal \<Rightarrow> if type_kind (fu_return_type fu) = Void_Type then Some None else None
     | _ \<Rightarrow> None)"

end
