(* ===== verification/Driver.thy ===== *)
theory Driver
  imports Codegen_Stmt Parser Options
begin

section \<open>The driver (src/main.c)\<close>

text \<open>
  What \<open>main\<close> makes of the parser, the code generator and the command line. The files are a
  function from names to texts, \<open>None\<close> where one of the calls that open and map a file fails. The
  results of the verifier and the linker of LLVM are parameters. A module is the list of the calls
  that built it. Messages and the release of memory are left out (the disposal of the units is in
  \<open>Ast_Dispose\<close>).
\<close>

type_synonym llvm_module = "call list"

subsection \<open>Reading a file\<close>

text \<open>
  A mapping is filled with zeros up to the end of its last page, of 4096 bytes; \<open>mmap\<close> fails on
  an empty file.
\<close>

definition page_padding :: "nat \<Rightarrow> nat" where
  "page_padding n = (4096 - n mod 4096) mod 4096"

definition mapping :: "string \<Rightarrow> string" where
  "mapping text = text @ replicate (page_padding (length text)) CHR 0x00"

definition parse_file ::
    "parser_state list \<Rightarrow> (string \<Rightarrow> string option) \<Rightarrow> string \<Rightarrow> unit_t list option res" where
  "parse_file tbl files filename = (case files filename of
     None \<Rightarrow> Inr None
   | Some text \<Rightarrow>
       if text = [] then Inr None
       else rbind (lexer_next (lexer_init (mapping text) (length text) filename)) (\<lambda>lx.
         case parse tbl lx of
           None \<Rightarrow> Inl Diverges
         | Some r \<Rightarrow> rbind r (\<lambda>(lx', v).
             if l_token lx' \<noteq> TKN_EOF then Inl (Assert_Failed ''lexer did not consume entire file'')
             else (case v of
                 V_Units us \<Rightarrow> Inr (Some us)
               | V_Null \<Rightarrow> Inr None
               | _ \<Rightarrow> Inl (Undefined ''not a list of units'')))))"

subsection \<open>Names\<close>

text \<open>\<open>strrchr\<close>: the index of the last occurrence of a character.\<close>

fun strrchr :: "string \<Rightarrow> char \<Rightarrow> nat option" where
  "strrchr [] c = None"
| "strrchr (x # xs) c = (case strrchr xs c of
     Some i \<Rightarrow> Some (Suc i)
   | None \<Rightarrow> if x = c then Some 0 else None)"

text \<open>The directory of the importing file, without its slash.\<close>

definition dir_of :: "string \<Rightarrow> string" where
  "dir_of relative_to = take (case strrchr relative_to CHR ''/'' of Some i \<Rightarrow> i | None \<Rightarrow> 0) relative_to"

definition import_path :: "string \<Rightarrow> string \<Rightarrow> string" where
  "import_path relative_to name =
     (if dir_of relative_to \<noteq> [] then dir_of relative_to @ ''/'' @ name else name)"

text \<open>The part of the name of an input before its extension; the search starts at the last slash.\<close>

definition stem_length :: "string \<Rightarrow> nat" where
  "stem_length path =
     (let start = (case strrchr path CHR ''/'' of Some i \<Rightarrow> i | None \<Rightarrow> 0) in
      case strrchr (drop start path) CHR ''.'' of Some i \<Rightarrow> start + i | None \<Rightarrow> length path)"

definition out_name :: "string \<Rightarrow> string" where
  "out_name path = take (stem_length path) path @ ''.ll''"

subsection \<open>Imports\<close>

text \<open>
  \<open>resolve_imports\<close> parses and declares the files a list of units imports, after the files these
  import themselves, and skips a file whose name it has handled. The result are the names handled.
\<close>

type_synonym importer = "unit_t list \<Rightarrow> string \<Rightarrow> string list \<Rightarrow> string list cg"

fun import_units ::
    "importer \<Rightarrow> (unit_t list \<Rightarrow> unit cg) \<Rightarrow> (string \<Rightarrow> unit_t list option res) \<Rightarrow> string \<Rightarrow>
     unit_t list \<Rightarrow> string list \<Rightarrow> string list cg" where
  "import_units resolve decls read_units relative_to [] handled = cret handled"
| "import_units resolve decls read_units relative_to (u # us) handled = (case unit_kind u of
     Import_Unit name \<Rightarrow>
       (let filename = import_path relative_to name in
        if filename \<in> set handled then import_units resolve decls read_units relative_to us handled
        else cbind (clift (read_units filename)) (\<lambda>r. case r of
            None \<Rightarrow> die (''unable to open file '' @ filename @ '' imported from '' @ relative_to)
          | Some imported_units \<Rightarrow>
              cbind (resolve imported_units filename (handled @ [filename])) (\<lambda>handled'.
              cseq (decls imported_units)
              (import_units resolve decls read_units relative_to us handled'))))
   | _ \<Rightarrow> import_units resolve decls read_units relative_to us handled)"

primrec resolve_imports ::
    "nat \<Rightarrow> (unit_t list \<Rightarrow> unit cg) \<Rightarrow> (string \<Rightarrow> unit_t list option res) \<Rightarrow> importer" where
  "resolve_imports 0 decls read_units us relative_to handled = cfail Diverges"
| "resolve_imports (Suc n) decls read_units us relative_to handled =
     import_units (resolve_imports n decls read_units) decls read_units relative_to us handled"

subsection \<open>Compiling\<close>

text \<open>\<open>codegen_t\<close> set to zero, and the context of the file.\<close>

definition new_codegen :: "string \<Rightarrow> codegen_t" where
  "new_codegen after = \<lparr>cg_builder = False, cg_break_block = None, cg_continue_block = None, cg_unit = None,
     cg_package = None, cg_after = after\<rparr>"

definition new_cg_state :: cg_state where
  "new_cg_state = \<lparr>cg_calls = [], cg_contexts = [codegen_context_init]\<rparr>"

record llvm_results =
  lr_verify_function :: "call list \<Rightarrow> lval \<Rightarrow> bool"
  lr_verify_module :: "llvm_module \<Rightarrow> bool"
  lr_link_failed :: "llvm_module list \<Rightarrow> llvm_module \<Rightarrow> bool"

definition generate_module ::
    "llvm_results \<Rightarrow> nat \<Rightarrow> codegen_t \<Rightarrow> (string \<Rightarrow> unit_t list option res) \<Rightarrow> string \<Rightarrow> unit_t list \<Rightarrow>
     unit cg" where
  "generate_module results n cg read_units inname us =
     cbind (resolve_imports n (codegen_decls (lr_verify_function results) n cg) read_units us inname []) (\<lambda>_.
     codegen (lr_verify_function results) n cg us)"

definition compile ::
    "llvm_results \<Rightarrow> nat \<Rightarrow> codegen_t \<Rightarrow> (string \<Rightarrow> unit_t list option res) \<Rightarrow> string \<Rightarrow> llvm_module option res" where
  "compile results n cg read_units inname =
     rbind (read_units inname) (\<lambda>r. case r of
       None \<Rightarrow> Inr None
     | Some us \<Rightarrow> rbind (generate_module results n cg read_units inname us new_cg_state) (\<lambda>(_, s).
         if lr_verify_module results (cg_calls s) then Inr (Some (cg_calls s))
         else Inl (Aborted ''LLVMVerifyModule'')))"

text \<open>The loop over the inputs. A module is not initialised before its file is compiled.\<close>

fun compile_inputs :: "(string \<Rightarrow> llvm_module option res) \<Rightarrow> string list \<Rightarrow> (string \<times> llvm_module) list res" where
  "compile_inputs run [] = Inr []"
| "compile_inputs run (path # inputs) = rbind (run path) (\<lambda>r. case r of
     None \<Rightarrow> Inl (Undefined ''read of an uninitialised module'')
   | Some m \<Rightarrow> rbind (compile_inputs run inputs) (\<lambda>ms. Inr ((out_name path, m) # ms)))"

fun link_modules :: "llvm_results \<Rightarrow> llvm_module list \<Rightarrow> llvm_module list \<Rightarrow> llvm_module list option" where
  "link_modules results linked [] = Some linked"
| "link_modules results linked (m # ms) =
     (if lr_link_failed results linked m then None else link_modules results (linked @ [m]) ms)"

text \<open>The exit code and the files written, with the modules that make up each.\<close>

definition main_low ::
    "llvm_results \<Rightarrow> nat \<Rightarrow> codegen_t \<Rightarrow> (string \<Rightarrow> unit_t list option res) \<Rightarrow> options \<Rightarrow> string list \<Rightarrow>
     (nat \<times> (string \<times> llvm_module list) list) res" where
  "main_low results n cg read_units opts argv =
     rbind (parse_options opts argv) (\<lambda>(opts', argc, argv').
     (let inputs = drop 1 (take argc argv') in
      if argc = 1 then Inr (1, [])
      else rbind (compile_inputs (compile results n cg read_units) inputs) (\<lambda>ms.
        (let written = map (\<lambda>(name, m). (name, [m])) ms in
         case output_name opts' of
           None \<Rightarrow> Inr (0, written)
         | Some name \<Rightarrow>
             (case link_modules results [snd (hd ms)] (map snd (tl ms)) of
                None \<Rightarrow> Inr (1, written)
              | Some linked \<Rightarrow> Inr (0, written @ [(name, linked)]))))))"

end
