(* ===== verification/Codegen_Frame.thy ===== *)
theory Codegen_Frame
  imports Driver
begin

section \<open>What the code generator leaves as it is\<close>

text \<open>
  Calls are only ever added, and so are symbols, to the innermost context. What a symbol stands
  for does not change: of a constant only the expression is written to. \<open>grows\<close> states this of the
  steps that may add symbols, and \<open>steady\<close> of those that end with the symbols they started with.
\<close>

definition core :: "codegen_symbol \<Rightarrow> symbol_kind \<times> string option \<times> type_t option \<times> lval option" where
  "core sy = (cs_kind sy, cs_name sy, cs_type sy, cs_value sy)"

definition cores :: "cg_state \<Rightarrow> (symbol_kind \<times> string option \<times> type_t option \<times> lval option) list list" where
  "cores s = map (\<lambda>c. map core (cc_symbols c)) (cg_contexts s)"

definition more_calls :: "cg_state \<Rightarrow> cg_state \<Rightarrow> bool" where
  "more_calls s s' \<longleftrightarrow> (\<exists>d. cg_calls s' = cg_calls s @ d)"

definition more_symbols :: "'a list list \<Rightarrow> 'a list list \<Rightarrow> bool" where
  "more_symbols xs ys \<longleftrightarrow> (\<exists>zs. ys = (case xs of [] \<Rightarrow> [] | x # xs' \<Rightarrow> (x @ zs) # xs'))"

text \<open>
  The functions that have got a block called \<open>entry\<close>, in order: only the compilation of a body makes
  such a block, so these steps do not change them.
\<close>

definition entry_call :: "call \<Rightarrow> lval option" where
  "entry_call c = (case c of Append_Basic_Block f name \<Rightarrow> if name = ''entry'' then Some f else None | _ \<Rightarrow> None)"

definition entries :: "call list \<Rightarrow> lval list" where
  "entries cs = List.map_filter entry_call cs"

lemma entries_append [simp]: "entries (cs @ ds) = entries cs @ entries ds"
  by (simp add: entries_def map_filter_def)

lemma entries_call [simp]: "entries [] = []" 
  "entries (c # cs) = (case entry_call c of None \<Rightarrow> entries cs | Some f \<Rightarrow> f # entries cs)"
  by (simp_all add: entries_def map_filter_def split: option.split)

text \<open>Which contexts have ended with a jump; that of the innermost may change.\<close>

definition flags :: "cg_state \<Rightarrow> bool list" where
  "flags s = map cc_is_terminated (cg_contexts s)"

definition grows :: "'a cg \<Rightarrow> bool" where
  "grows m \<longleftrightarrow> (\<forall>s x s'. m s = Inr (x, s') \<longrightarrow>
     more_calls s s' \<and> entries (cg_calls s') = entries (cg_calls s) \<and> more_symbols (cores s) (cores s') \<and> tl (flags s') = tl (flags s))"

definition steady :: "'a cg \<Rightarrow> bool" where
  "steady m \<longleftrightarrow> (\<forall>s x s'. m s = Inr (x, s') \<longrightarrow> more_calls s s' \<and> entries (cg_calls s') = entries (cg_calls s) \<and> cores s' = cores s \<and> tl (flags s') = tl (flags s))"

text \<open>Steps that end the context the step before them has opened.\<close>

definition closes :: "'a cg \<Rightarrow> bool" where
  "closes m \<longleftrightarrow> (\<forall>s x s'. m s = Inr (x, s') \<longrightarrow>
     more_calls s s' \<and> entries (cg_calls s') = entries (cg_calls s) \<and> cores s' = tl (cores s) \<and> tl (flags s') = tl (tl (flags s)))"

named_theorems frame_intros \<open>steps that add calls and symbols only\<close>

lemma more_calls_refl [simp]: "more_calls s s"
  by (simp add: more_calls_def)

lemma more_calls_trans: "more_calls s t \<Longrightarrow> more_calls t u \<Longrightarrow> more_calls s u"
  by (auto simp: more_calls_def)

lemma more_symbols_refl [simp]: "more_symbols xs xs"
  by (auto simp: more_symbols_def split: list.split)

lemma more_symbols_trans: "more_symbols xs ys \<Longrightarrow> more_symbols ys zs \<Longrightarrow> more_symbols xs zs"
  by (auto simp: more_symbols_def split: list.splits)

lemma more_symbols_tl: "more_symbols xs ys \<Longrightarrow> tl ys = tl xs"
  by (cases xs) (auto simp: more_symbols_def)

lemma steady_grows: "steady m \<Longrightarrow> grows m"
  by (auto simp: steady_def grows_def)

lemma grows_bind [frame_intros]: "grows m \<Longrightarrow> (\<And>x. grows (f x)) \<Longrightarrow> grows (cbind m f)"
  unfolding grows_def cbind_def rbind_Inr_conv by (fastforce intro: more_calls_trans more_symbols_trans)

lemma steady_bind [frame_intros]: "steady m \<Longrightarrow> (\<And>x. steady (f x)) \<Longrightarrow> steady (cbind m f)"
  unfolding steady_def cbind_def rbind_Inr_conv by (fastforce intro: more_calls_trans)

lemma grows_seq [frame_intros]: "grows m \<Longrightarrow> grows k \<Longrightarrow> grows (cseq m k)"
  unfolding cseq_def by (rule grows_bind)

lemma steady_seq [frame_intros]: "steady m \<Longrightarrow> steady k \<Longrightarrow> steady (cseq m k)"
  unfolding cseq_def by (rule steady_bind)

lemma closes_bind: "grows m \<Longrightarrow> (\<And>x. closes (f x)) \<Longrightarrow> closes (cbind m f)"
  unfolding grows_def closes_def cbind_def rbind_Inr_conv by (fastforce intro: more_calls_trans dest: more_symbols_tl)

lemma closes_seq: "grows m \<Longrightarrow> closes k \<Longrightarrow> closes (cseq m k)"
  unfolding cseq_def by (rule closes_bind)

lemma closes_dispose: "(\<And>x. steady (f x)) \<Longrightarrow> closes (cbind codegen_context_dispose f)"
  unfolding steady_def closes_def cbind_def codegen_context_dispose_def
  by (auto simp: cores_def flags_def rbind_Inr_conv more_calls_def split: list.splits) fastforce+

lemma steady_push: "closes k \<Longrightarrow> steady (cseq push_context k)"
  unfolding steady_def closes_def
proof (intro allI impI)
  fix s x s'
  assume k: "\<forall>s x s'. k s = Inr (x, s') \<longrightarrow> more_calls s s' \<and> entries (cg_calls s') = entries (cg_calls s) \<and> cores s' = tl (cores s) \<and> tl (flags s') = tl (tl (flags s))"
    and "cseq push_context k s = Inr (x, s')"
  then have "k (s\<lparr>cg_contexts := codegen_context_init # cg_contexts s\<rparr>) = Inr (x, s')"
    by (simp add: cseq_def cbind_def push_context_def)
  with k have "more_calls (s\<lparr>cg_contexts := codegen_context_init # cg_contexts s\<rparr>) s' \<and> entries (cg_calls s') = entries (cg_calls s) \<and>
      cores s' = tl (cores (s\<lparr>cg_contexts := codegen_context_init # cg_contexts s\<rparr>)) \<and>
      tl (flags s') = tl (tl (flags (s\<lparr>cg_contexts := codegen_context_init # cg_contexts s\<rparr>)))" by fastforce
  then show "more_calls s s' \<and> entries (cg_calls s') = entries (cg_calls s) \<and> cores s' = cores s \<and> tl (flags s') = tl (flags s)"
    by (simp add: more_calls_def cores_def flags_def)
qed

lemma steady_basic [frame_intros]:
  "steady (cret x)" "steady (cfail e)" "steady (derror msg)" "steady (die msg)" "steady (clift r)" "steady cget"
  by (auto simp: steady_def cret_def cfail_def derror_def die_def clift_def cget_def rbind_Inr_conv)

text \<open>Calls that do not make the entry block of a function.\<close>

lemma no_entry [frame_intros]:
  "entry_call (Build_Alloca t nm) = None"
  "entry_call (Build_Load a2 b2) = None" "entry_call (Build_Store a3 b3) = None"
  "entry_call (Build_Binary a4 b4 c4 d4) = None" "entry_call (Build_Cmp a5 b5 c5 d5) = None"
  "entry_call (Build_Unary a6 b6 c6) = None" "entry_call (Build_Cast a7 b7 c7 d7) = None"
  "entry_call (Build_In_Bounds_GEP a8 b8 c8) = None" "entry_call (Build_Struct_GEP a9 b9 c9) = None"
  "entry_call (Build_Extract_Value a10 b10 c10) = None" "entry_call (Build_Insert_Value a11 b11 c11 d11) = None"
  "entry_call (Build_Call a12 b12 c12) = None" "entry_call (Build_Phi a13 b13) = None"
  "entry_call (Build_Malloc a14 b14) = None" "entry_call (Build_Array_Malloc a15 b15 c15) = None"
  "entry_call (Build_Free a16) = None" "entry_call (Build_Global_String_Ptr a17 b17) = None"
  "entry_call (Build_Br a18) = None" "entry_call (Build_Cond_Br a19 b19 c19) = None"
  "entry_call (Build_Ret a20) = None" "entry_call Build_Ret_Void = None"
  "entry_call Build_Unreachable = None" "entry_call Get_Insert_Block = None"
  "entry_call (Position_At_End a24) = None" "entry_call (Get_Basic_Block_Parent a25) = None"
  "entry_call (Add_Incoming a26 b26) = None" "entry_call (Add_Global a27 b27) = None"
  "entry_call (Set_Initializer a28 b28) = None" "entry_call (Set_Linkage_Once_ODR a29) = None"
  "entry_call (Add_Function a30 b30) = None" "entry_call (Get_Param a31 b31) = None"
  "entry_call (Set_Value_Name a32 b32) = None" "entry_call Get_Intrinsic_Trap = None"
  "entry_call Create_Builder = None" "entry_call Dispose_Builder = None"
  "entry_call (Verify_Function a36) = None"
  by (simp_all add: entry_call_def)

lemma no_entry_if [frame_intros]:
  "entry_call c = None \<Longrightarrow> entry_call d = None \<Longrightarrow> entry_call (if b then c else d) = None"
  by simp

lemma no_entry_block [frame_intros]: "name \<noteq> ''entry'' \<Longrightarrow> entry_call (Append_Basic_Block f name) = None"
  by (simp add: entry_call_def)

lemma block_names [frame_intros]:
  "''iftrue'' \<noteq> ''entry''" "''iffalse'' \<noteq> ''entry''" "''ifexit'' \<noteq> ''entry''" "''loopcond'' \<noteq> ''entry''"
  "''loopbody'' \<noteq> ''entry''" "''loopstep'' \<noteq> ''entry''" "''loopexit'' \<noteq> ''entry''"
  by simp_all

lemma steady_llvm [frame_intros]:
  assumes "entry_call c = None"
  shows "steady (llvm c)" "steady (build self c)" "steady (exec self c)"
  using assms
  by (auto simp: steady_def llvm_def build_def exec_def cbind_def cret_def cfail_def more_calls_def cores_def flags_def)

lemma steady_when [frame_intros]: "steady m \<Longrightarrow> steady (cwhen b m)"
  by (simp add: cwhen_def frame_intros)

lemma steady_assert [frame_intros]: "steady (cassert b msg)"
  by (simp add: cassert_def frame_intros)

lemma grows_when [frame_intros]: "grows m \<Longrightarrow> grows (cwhen b m)"
  by (simp add: cwhen_def frame_intros steady_grows)

lemma grows_map [frame_intros]: "(\<And>x. grows (f x)) \<Longrightarrow> grows (cmap f xs)"
  by (induction xs) (auto intro!: frame_intros steady_grows [OF steady_basic(1)])

lemma steady_map: "(\<And>x. steady (f x)) \<Longrightarrow> steady (cmap f xs)"
  by (induction xs) (auto intro!: frame_intros)

subsection \<open>Case distinctions\<close>

lemma grows_if [frame_intros]: "grows a \<Longrightarrow> grows b \<Longrightarrow> grows (if c then a else b)"
  by simp

lemma grows_let [frame_intros]: "(\<And>x. grows (f x)) \<Longrightarrow> grows (Let z f)"
  by (simp add: Let_def)

lemma steady_if [frame_intros]: "steady a \<Longrightarrow> steady b \<Longrightarrow> steady (if c then a else b)"
  by simp

lemma grows_option [frame_intros]:
  "grows f0 \<Longrightarrow> (\<And>x. grows (f1 x)) \<Longrightarrow>
   grows (case_option f0 f1 z)"
  by (cases z) simp_all

lemma grows_prod [frame_intros]:
  "(\<And>x y. grows (f0 x y)) \<Longrightarrow>
   grows (case_prod f0 z)"
  by (cases z) simp_all

lemma grows_type_t [frame_intros]:
  "(\<And>x y. grows (f0 x y)) \<Longrightarrow>
   grows (case_type_t f0 z)"
  by (cases z) simp_all

lemma grows_type_kind [frame_intros]:
  "grows f0 \<Longrightarrow> grows f1 \<Longrightarrow> grows f2 \<Longrightarrow> (\<And>x. grows (f3 x)) \<Longrightarrow> (\<And>x. grows (f4 x)) \<Longrightarrow>
   (\<And>x y. grows (f5 x y)) \<Longrightarrow> (\<And>x. grows (f6 x)) \<Longrightarrow> (\<And>x. grows (f7 x)) \<Longrightarrow> (\<And>x y. grows (f8 x y)) \<Longrightarrow> (\<And>x. grows (f9 x)) \<Longrightarrow>
   (\<And>x. grows (f10 x)) \<Longrightarrow> grows f11 \<Longrightarrow>
   grows (case_type_kind f0 f1 f2 f3 f4 f5 f6 f7 f8 f9 f10 f11 z)"
  by (cases z) simp_all

lemma grows_struct_member [frame_intros]:
  "(\<And>x y. grows (f0 x y)) \<Longrightarrow>
   grows (case_struct_member f0 z)"
  by (cases z) simp_all

lemma grows_interface_member [frame_intros]:
  "(\<And>x y. grows (f0 x y)) \<Longrightarrow> (\<And>x y z. grows (f1 x y z)) \<Longrightarrow> grows f2 \<Longrightarrow>
   grows (case_interface_member f0 f1 f2 z)"
  by (cases z) simp_all

lemma grows_interface_ptr [frame_intros]:
  "grows f0 \<Longrightarrow> (\<And>x. grows (f1 x)) \<Longrightarrow> grows f2 \<Longrightarrow>
   grows (case_interface_ptr f0 f1 f2 z)"
  by (cases z) simp_all

lemma grows_expr_kind [frame_intros]:
  "(\<And>x. grows (f0 x)) \<Longrightarrow> (\<And>x. grows (f1 x)) \<Longrightarrow> (\<And>x y. grows (f2 x y)) \<Longrightarrow> (\<And>x y. grows (f3 x y)) \<Longrightarrow> (\<And>x y z w. grows (f4 x y z w)) \<Longrightarrow>
   (\<And>x y. grows (f5 x y)) \<Longrightarrow> (\<And>x y. grows (f6 x y)) \<Longrightarrow> (\<And>x y z. grows (f7 x y z)) \<Longrightarrow> (\<And>x y. grows (f8 x y)) \<Longrightarrow> (\<And>x. grows (f9 x)) \<Longrightarrow>
   (\<And>x. grows (f10 x)) \<Longrightarrow> (\<And>x y. grows (f11 x y)) \<Longrightarrow> (\<And>x y z. grows (f12 x y z)) \<Longrightarrow> (\<And>x y z. grows (f13 x y z)) \<Longrightarrow> (\<And>x y z. grows (f14 x y z)) \<Longrightarrow>
   (\<And>x. grows (f15 x)) \<Longrightarrow> (\<And>x y. grows (f16 x y)) \<Longrightarrow> (\<And>x. grows (f17 x)) \<Longrightarrow> (\<And>x y. grows (f18 x y)) \<Longrightarrow> (\<And>x y. grows (f19 x y)) \<Longrightarrow>
   (\<And>x. grows (f20 x)) \<Longrightarrow>
   grows (case_expr_kind f0 f1 f2 f3 f4 f5 f6 f7 f8 f9 f10 f11 f12 f13 f14 f15 f16 f17 f18 f19 f20 z)"
  by (cases z) simp_all

lemma grows_unary_op [frame_intros]:
  "grows f0 \<Longrightarrow> grows f1 \<Longrightarrow> grows f2 \<Longrightarrow> grows f3 \<Longrightarrow> grows f4 \<Longrightarrow>
   grows f5 \<Longrightarrow>
   grows (case_unary_op f0 f1 f2 f3 f4 f5 z)"
  by (cases z) simp_all

lemma grows_lencap_kind [frame_intros]:
  "grows f0 \<Longrightarrow> grows f1 \<Longrightarrow>
   grows (case_lencap_kind f0 f1 z)"
  by (cases z) simp_all

lemma grows_sum [frame_intros]:
  "(\<And>x. grows (f0 x)) \<Longrightarrow> (\<And>x. grows (f1 x)) \<Longrightarrow>
   grows (case_sum f0 f1 z)"
  by (cases z) simp_all

lemma grows_assignment_op [frame_intros]:
  "grows f0 \<Longrightarrow> grows f1 \<Longrightarrow> grows f2 \<Longrightarrow> grows f3 \<Longrightarrow> grows f4 \<Longrightarrow>
   grows f5 \<Longrightarrow> grows f6 \<Longrightarrow> grows f7 \<Longrightarrow> grows f8 \<Longrightarrow> grows f9 \<Longrightarrow>
   grows f10 \<Longrightarrow>
   grows (case_assignment_op f0 f1 f2 f3 f4 f5 f6 f7 f8 f9 f10 z)"
  by (cases z) simp_all

lemma grows_decl_kind [frame_intros]:
  "(\<And>x y z. grows (f0 x y z)) \<Longrightarrow> (\<And>x y z. grows (f1 x y z)) \<Longrightarrow> (\<And>x y z. grows (f2 x y z)) \<Longrightarrow>
   grows (case_decl_kind f0 f1 f2 z)"
  by (cases z) simp_all

lemma grows_block_item [frame_intros]:
  "(\<And>x. grows (f0 x)) \<Longrightarrow> (\<And>x. grows (f1 x)) \<Longrightarrow>
   grows (case_block_item f0 f1 z)"
  by (cases z) simp_all

lemma grows_stmt_kind [frame_intros]:
  "(\<And>x. grows (f0 x)) \<Longrightarrow> (\<And>x. grows (f1 x)) \<Longrightarrow> (\<And>x y z. grows (f2 x y z)) \<Longrightarrow> (\<And>x y. grows (f3 x y)) \<Longrightarrow> (\<And>x y. grows (f4 x y)) \<Longrightarrow>
   (\<And>x y z w. grows (f5 x y z w)) \<Longrightarrow> (\<And>x. grows (f6 x)) \<Longrightarrow> grows f7 \<Longrightarrow> grows f8 \<Longrightarrow> (\<And>x. grows (f9 x)) \<Longrightarrow>
   (\<And>x y. grows (f10 x y)) \<Longrightarrow> (\<And>x y. grows (f11 x y)) \<Longrightarrow> (\<And>x. grows (f12 x)) \<Longrightarrow>
   grows (case_stmt_kind f0 f1 f2 f3 f4 f5 f6 f7 f8 f9 f10 f11 f12 z)"
  by (cases z) simp_all

lemma grows_unit_kind [frame_intros]:
  "(\<And>x. grows (f0 x)) \<Longrightarrow> (\<And>x. grows (f1 x)) \<Longrightarrow> (\<And>x. grows (f2 x)) \<Longrightarrow> (\<And>x y. grows (f3 x y)) \<Longrightarrow> (\<And>x. grows (f4 x)) \<Longrightarrow>
   grows (case_unit_kind f0 f1 f2 f3 f4 z)"
  by (cases z) simp_all

lemma steady_option [frame_intros]:
  "steady f0 \<Longrightarrow> (\<And>x. steady (f1 x)) \<Longrightarrow>
   steady (case_option f0 f1 z)"
  by (cases z) simp_all

lemma steady_prod [frame_intros]:
  "(\<And>x y. steady (f0 x y)) \<Longrightarrow>
   steady (case_prod f0 z)"
  by (cases z) simp_all

lemma steady_type_t [frame_intros]:
  "(\<And>x y. steady (f0 x y)) \<Longrightarrow>
   steady (case_type_t f0 z)"
  by (cases z) simp_all

lemma steady_type_kind [frame_intros]:
  "steady f0 \<Longrightarrow> steady f1 \<Longrightarrow> steady f2 \<Longrightarrow> (\<And>x. steady (f3 x)) \<Longrightarrow> (\<And>x. steady (f4 x)) \<Longrightarrow>
   (\<And>x y. steady (f5 x y)) \<Longrightarrow> (\<And>x. steady (f6 x)) \<Longrightarrow> (\<And>x. steady (f7 x)) \<Longrightarrow> (\<And>x y. steady (f8 x y)) \<Longrightarrow> (\<And>x. steady (f9 x)) \<Longrightarrow>
   (\<And>x. steady (f10 x)) \<Longrightarrow> steady f11 \<Longrightarrow>
   steady (case_type_kind f0 f1 f2 f3 f4 f5 f6 f7 f8 f9 f10 f11 z)"
  by (cases z) simp_all

lemma steady_unary_op [frame_intros]:
  "steady f0 \<Longrightarrow> steady f1 \<Longrightarrow> steady f2 \<Longrightarrow> steady f3 \<Longrightarrow> steady f4 \<Longrightarrow>
   steady f5 \<Longrightarrow>
   steady (case_unary_op f0 f1 f2 f3 f4 f5 z)"
  by (cases z) simp_all

lemma steady_sum [frame_intros]:
  "(\<And>x. steady (f0 x)) \<Longrightarrow> (\<And>x. steady (f1 x)) \<Longrightarrow>
   steady (case_sum f0 f1 z)"
  by (cases z) simp_all

subsection \<open>Symbols and types\<close>

lemma steady_find_symbol [frame_intros]: "steady (find_symbol name)"
  unfolding find_symbol_def by (intro frame_intros)

lemma grows_add_symbol [frame_intros]: "grows (codegen_context_add_symbol sy)"
  by (auto simp: grows_def codegen_context_add_symbol_def with_context_def more_calls_def cores_def flags_def more_symbols_def
      split: list.splits)

lemma map_update_same: "f y = f (xs ! i) \<Longrightarrow> map f (xs[i := y]) = map f xs"
  by (cases "i < length xs") (simp_all add: map_update list_update_same_conv list_update_beyond)

lemma steady_set_const [frame_intros]: "steady (set_const_value p v)"
  unfolding steady_def
proof (intro allI impI)
  fix s x s'
  assume A: "set_const_value p v s = Inr (x, s')"
  then show "more_calls s s' \<and> entries (cg_calls s') = entries (cg_calls s) \<and> cores s' = cores s \<and> tl (flags s') = tl (flags s)"
    by (auto simp: set_const_value_def symbol_at_def Let_def more_calls_def cores_def core_def flags_def
        intro!: map_update_same arg_cong [where f = tl])
qed

lemma steady_terminated [frame_intros]: "steady set_terminated"
  by (auto simp: steady_def set_terminated_def with_context_def more_calls_def cores_def flags_def
      split: list.splits)

lemma steady_resolve [frame_intros]: "steady (resolve_type_name n ty)"
  by (induction n arbitrary: ty) (simp_all add: frame_intros)

lemma steady_func [frame_intros]: "steady (current_func self)" "name \<noteq> ''entry'' \<Longrightarrow> steady (append_block func name)"
  unfolding current_func_def append_block_def by (intro frame_intros | assumption)+

lemma steady_pointers [frame_intros]: "steady (type_ptr t)" "steady (value_ptr v)" "steady (load_unless self lv ptr)"
  unfolding type_ptr_def value_ptr_def load_unless_def by (intro frame_intros)+

lemmas grows_basic [frame_intros] = steady_basic [THEN steady_grows] steady_llvm [THEN steady_grows]
  steady_assert [THEN steady_grows] steady_find_symbol [THEN steady_grows] steady_set_const [THEN steady_grows]
  steady_resolve [THEN steady_grows] steady_func [THEN steady_grows] steady_pointers [THEN steady_grows]
  steady_terminated [THEN steady_grows]

lemma grows_interface_arg: "(\<And>b t. grows (gen b t)) \<Longrightarrow> grows (interface_arg_type gen t)"
  unfolding interface_arg_type_def by (intro frame_intros)

lemma grows_codegen_type_kind:
  assumes g: "\<And>b t. grows (gen b t)"
  shows "grows (codegen_type_kind gen on_stack ty)"
  unfolding codegen_type_kind_def codegen_type_float_def codegen_type_func_def codegen_type_named_def
    codegen_type_struct_def codegen_type_slice_def codegen_type_array_def codegen_type_interface_def
    make_interface_table_type_def interface_field_type_def
  by (intro frame_intros g grows_interface_arg)

lemma grows_type [frame_intros]: "grows (codegen_type n on_stack ty)"
  by (induction n arbitrary: on_stack ty) (auto intro!: frame_intros grows_codegen_type_kind)

subsection \<open>Expressions\<close>

lemma grows_copied [frame_intros]: "grows (copied e t)" "grows (copied_hint e h)"
  unfolding copied_def copied_hint_def by (intro frame_intros)+

lemma grows_prepare_opt: "(\<And>e h. grows (prep e h)) \<Longrightarrow> grows (prepare_opt prep e h)"
  unfolding prepare_opt_def by (intro frame_intros)

lemma grows_prepare_args: "(\<And>e h. grows (prep e h)) \<Longrightarrow> grows (prepare_args prep es ts)"
  by (induction es arbitrary: ts) (auto intro!: frame_intros)

lemma grows_prepare_kind:
  assumes p: "\<And>e h. grows (prep e h)"
  shows "grows (prepare_kind n prep e h)"
  unfolding prepare_kind_def
    prepare_ident_expr_def prepare_number_literal_expr_def prepare_string_literal_expr_def
    prepare_sizeof_expr_def prepare_assignment_expr_def prepare_binary_expr_def prepare_unary_expr_def
    prepare_incdec_expr_def prepare_cast_expr_def prepare_conditional_expr_def prepare_comma_expr_def
    prepare_index_access_expr_def prepare_index_slice_expr_def prepare_member_access_expr_def
    prepare_call_expr_def prepare_new_builtin_expr_def prepare_free_builtin_expr_def
    prepare_make_builtin_expr_def prepare_lencap_builtin_expr_def prepare_dispose_builtin_expr_def
  by (intro frame_intros p grows_prepare_opt grows_prepare_args)

lemma grows_prepare [frame_intros]: "grows (prepare_expr n e h)"
  by (induction n arbitrary: e h) (auto intro!: frame_intros grows_prepare_kind)

lemma grows_unary: "(\<And>lv e. grows (gen lv e)) \<Longrightarrow> grows (codegen_unary_expr self gen lv e op)"
  unfolding codegen_unary_expr_def Let_def by (intro frame_intros)

lemma grows_cast: "(\<And>lv e. grows (gen lv e)) \<Longrightarrow> grows (codegen_cast_expr n self gen lv e ty)"
  unfolding codegen_cast_expr_def Let_def cast_to_interface_def table_entry_def table_function_def table_field_def
  by (intro frame_intros grows_interface_arg)

lemma grows_codegen_kind:
  assumes g: "\<And>lv e. grows (gen lv e)"
  shows "grows (codegen_kind n self gen lv e)"
  unfolding codegen_kind_def
    codegen_ident_expr_def codegen_number_literal_expr_def codegen_string_literal_expr_def
    codegen_sizeof_expr_def codegen_assignment_expr_def codegen_binary_expr_def codegen_incdec_expr_def
    codegen_conditional_expr_def codegen_comma_expr_def codegen_index_access_expr_def
    codegen_index_slice_expr_def codegen_member_access_expr_def codegen_call_expr_def
    codegen_new_builtin_expr_def codegen_free_builtin_expr_def codegen_make_builtin_expr_def
    codegen_lencap_builtin_expr_def codegen_dispose_builtin_expr_def build_inst_def build_assert_def
    check_index_def codegen_array_new_def slice_slice_def slice_array_def index_or_def cast_to_interface_def
    table_entry_def table_function_def table_field_def interface_call_def function_call_def call_args_def
  by (intro frame_intros g grows_interface_arg grows_unary grows_cast)

lemma grows_expr [frame_intros]: "grows (codegen_expr n self lv e)"
  by (induction n arbitrary: lv e) (auto intro!: frame_intros grows_codegen_kind)

lemma grows_expr_top [frame_intros]: "grows (codegen_expr_top n self lv e h)"
  unfolding codegen_expr_top_def by (intro frame_intros)

subsection \<open>Statements\<close>

lemma grows_decl [frame_intros]: "grows (codegen_decl n self d)"
  unfolding codegen_decl_def codegen_typed_variable_def codegen_untyped_variable_def codegen_const_def
  by (intro frame_intros)

lemma grows_opt_expr [frame_intros]: "grows (codegen_opt_expr n self e)"
  unfolding codegen_opt_expr_def by (intro frame_intros)

lemma grows_opt_stmt: "(\<And>self x. grows (gen self x)) \<Longrightarrow> grows (opt_stmt gen self x)"
  unfolding opt_stmt_def by (intro frame_intros)

lemma steady_compound:
  assumes "\<And>self x. grows (gen self x)"
  shows "steady (codegen_compound n self gen items)"
  unfolding codegen_compound_def codegen_item_def
  by (intro steady_push closes_seq closes_dispose frame_intros grows_opt_stmt assms)

lemma steady_branch:
  assumes "\<And>self x. grows (gen self x)"
  shows "steady (codegen_branch self gen block exit_block x)"
  unfolding codegen_branch_def
  by (intro steady_push closes_seq closes_dispose frame_intros grows_opt_stmt assms)

text \<open>A branch leaves the flags as they were.\<close>

lemma branch_flags:
  assumes "\<And>self x. grows (gen self x)" and "codegen_branch self gen block exit_block x s = Inr (t, s')"
  shows "flags s' = flags s"
proof -
  define s0 where "s0 = s\<lparr>cg_contexts := codegen_context_init # cg_contexts s\<rparr>"
  have "grows (cseq (exec self (Position_At_End block)) (opt_stmt gen self x))"
    by (intro frame_intros grows_opt_stmt assms(1))
  moreover from assms(2) obtain s1 s2 s3 where "exec self (Position_At_End block) s0 = Inr ((), s1)"
    "opt_stmt gen self x s1 = Inr ((), s2)" "codegen_context_dispose s2 = Inr (t, s3)" "flags s' = flags s3"
    by (auto simp: codegen_branch_def cseq_def cbind_def push_context_def rbind_Inr_conv s0_def cwhen_def exec_def
        build_def llvm_def cret_def cfail_def flags_def split: if_splits)
  ultimately have "tl (flags s2) = tl (flags s0)" "flags s' = tl (flags s2)"
    unfolding grows_def by (auto simp: cseq_def cbind_def flags_def codegen_context_dispose_def split: list.splits)
  then show ?thesis by (simp add: s0_def flags_def)
qed

lemma steady_if_stmt:
  assumes "\<And>self x. grows (gen self x)"
  shows "steady (codegen_if n self gen c x y)"
  unfolding codegen_if_def
  apply (intro steady_push closes_bind [where m = "codegen_expr_top n self False c (hint_of bool_type)"] frame_intros)
  apply (clarsimp split del: if_split)
  apply (intro closes_bind [where m = "clift r" for r] closes_seq closes_dispose frame_intros steady_branch assms)
  done

lemma steady_for:
  assumes "\<And>self x. grows (gen self x)"
  shows "steady (codegen_for n self gen i c stp body)"
  unfolding codegen_for_def
  by (intro steady_push closes_seq closes_bind [where m = "current_func self"]
      closes_bind [where m = "append_block func name" for func name] closes_dispose frame_intros grows_opt_stmt assms)

lemma grows_codegen_stmt_kind:
  assumes "\<And>self x. grows (gen self x)"
  shows "grows (codegen_stmt_kind n self gen x)"
  unfolding codegen_stmt_kind_def codegen_jump_def codegen_return_def
  by (intro frame_intros assms steady_compound [THEN steady_grows] steady_if_stmt [THEN steady_grows]
      steady_for [THEN steady_grows])

lemma grows_stmt [frame_intros]: "grows (codegen_stmt n self x)"
  by (induction n arbitrary: self x) (auto intro!: frame_intros grows_codegen_stmt_kind)

end
