(* ===== verification/Codegen_Fuel.thy ===== *)
theory Codegen_Fuel
  imports Driver
begin

section \<open>The depth bound\<close>

text \<open>
  The functions of the code generator take a bound on the depth of their recursion. \<open>le m m'\<close> says
  that \<open>m'\<close> does what \<open>m\<close> does wherever the bound of \<open>m\<close> is enough. Every function of the code
  generator respects it, so a result does not depend on the bound it was found with.
\<close>

definition le :: "'a cg \<Rightarrow> 'a cg \<Rightarrow> bool" where
  "le m m' \<longleftrightarrow> (\<forall>s. m s = Inl Diverges \<or> m' s = m s)"

named_theorems fuel_intros \<open>a larger bound changes no result\<close>

lemma le_refl [fuel_intros]: "le m m"
  by (simp add: le_def)

lemma le_diverges [fuel_intros]: "le (cfail Diverges) m"
  by (simp add: le_def cfail_def)

lemma le_bind [fuel_intros]:
  assumes "le m m'" and "\<And>x. le (f x) (f' x)"
  shows "le (cbind m f) (cbind m' f')"
  unfolding le_def
proof
  fix s
  from assms(1) have m: "m s = Inl Diverges \<or> m' s = m s" by (simp add: le_def)
  show "cbind m f s = Inl Diverges \<or> cbind m' f' s = cbind m f s"
  proof (cases "m s")
    case (Inl e)
    with m show ?thesis by (auto simp: cbind_def)
  next
    case (Inr y)
    with m have "m' s = Inr y" by auto
    with Inr assms(2) show ?thesis by (cases y) (auto simp: cbind_def le_def)
  qed
qed

lemma le_seq [fuel_intros]: "le m m' \<Longrightarrow> le k k' \<Longrightarrow> le (cseq m k) (cseq m' k')"
  unfolding cseq_def by (rule le_bind)

lemma le_when [fuel_intros]: "le m m' \<Longrightarrow> le (cwhen b m) (cwhen b m')"
  by (simp add: cwhen_def le_refl)

lemma le_map [fuel_intros]: "(\<And>x. le (f x) (f' x)) \<Longrightarrow> le (cmap f xs) (cmap f' xs)"
  by (induction xs) (auto intro!: fuel_intros)

subsection \<open>Case distinctions\<close>

lemma le_if [fuel_intros]: "le a a' \<Longrightarrow> le b b' \<Longrightarrow> le (if c then a else b) (if c then a' else b')"
  by simp

lemma le_let [fuel_intros]: "(\<And>x. le (f x) (f' x)) \<Longrightarrow> le (Let z f) (Let z f')"
  by (simp add: Let_def)

lemma le_option [fuel_intros]:
  "le f0 g0 \<Longrightarrow> (\<And>x. le (f1 x) (g1 x)) \<Longrightarrow>
   le (case_option f0 f1 z) (case_option g0 g1 z)"
  by (cases z) simp_all

lemma le_prod [fuel_intros]:
  "(\<And>x y. le (f0 x y) (g0 x y)) \<Longrightarrow>
   le (case_prod f0 z) (case_prod g0 z)"
  by (cases z) simp_all

lemma le_type_t [fuel_intros]:
  "(\<And>x y. le (f0 x y) (g0 x y)) \<Longrightarrow>
   le (case_type_t f0 z) (case_type_t g0 z)"
  by (cases z) simp_all

lemma le_type_kind [fuel_intros]:
  "le f0 g0 \<Longrightarrow> le f1 g1 \<Longrightarrow> le f2 g2 \<Longrightarrow> (\<And>x. le (f3 x) (g3 x)) \<Longrightarrow>
   (\<And>x. le (f4 x) (g4 x)) \<Longrightarrow> (\<And>x y. le (f5 x y) (g5 x y)) \<Longrightarrow> (\<And>x. le (f6 x) (g6 x)) \<Longrightarrow> (\<And>x. le (f7 x) (g7 x)) \<Longrightarrow>
   (\<And>x y. le (f8 x y) (g8 x y)) \<Longrightarrow> (\<And>x. le (f9 x) (g9 x)) \<Longrightarrow> (\<And>x. le (f10 x) (g10 x)) \<Longrightarrow> le f11 g11 \<Longrightarrow>
   le (case_type_kind f0 f1 f2 f3 f4 f5 f6 f7 f8 f9 f10 f11 z) (case_type_kind g0 g1 g2 g3 g4 g5 g6 g7 g8 g9 g10 g11 z)"
  by (cases z) simp_all

lemma le_struct_member [fuel_intros]:
  "(\<And>x y. le (f0 x y) (g0 x y)) \<Longrightarrow>
   le (case_struct_member f0 z) (case_struct_member g0 z)"
  by (cases z) simp_all

lemma le_interface_member [fuel_intros]:
  "(\<And>x y. le (f0 x y) (g0 x y)) \<Longrightarrow> (\<And>x y u. le (f1 x y u) (g1 x y u)) \<Longrightarrow> le f2 g2 \<Longrightarrow>
   le (case_interface_member f0 f1 f2 z) (case_interface_member g0 g1 g2 z)"
  by (cases z) simp_all

lemma le_interface_ptr [fuel_intros]:
  "le f0 g0 \<Longrightarrow> (\<And>x. le (f1 x) (g1 x)) \<Longrightarrow> le f2 g2 \<Longrightarrow>
   le (case_interface_ptr f0 f1 f2 z) (case_interface_ptr g0 g1 g2 z)"
  by (cases z) simp_all

lemma le_expr_kind [fuel_intros]:
  "(\<And>x. le (f0 x) (g0 x)) \<Longrightarrow> (\<And>x. le (f1 x) (g1 x)) \<Longrightarrow> (\<And>x y. le (f2 x y) (g2 x y)) \<Longrightarrow> (\<And>x y. le (f3 x y) (g3 x y)) \<Longrightarrow>
   (\<And>x y u w. le (f4 x y u w) (g4 x y u w)) \<Longrightarrow> (\<And>x y. le (f5 x y) (g5 x y)) \<Longrightarrow> (\<And>x y. le (f6 x y) (g6 x y)) \<Longrightarrow> (\<And>x y u. le (f7 x y u) (g7 x y u)) \<Longrightarrow>
   (\<And>x y. le (f8 x y) (g8 x y)) \<Longrightarrow> (\<And>x. le (f9 x) (g9 x)) \<Longrightarrow> (\<And>x. le (f10 x) (g10 x)) \<Longrightarrow> (\<And>x y. le (f11 x y) (g11 x y)) \<Longrightarrow>
   (\<And>x y u. le (f12 x y u) (g12 x y u)) \<Longrightarrow> (\<And>x y u. le (f13 x y u) (g13 x y u)) \<Longrightarrow> (\<And>x y u. le (f14 x y u) (g14 x y u)) \<Longrightarrow> (\<And>x. le (f15 x) (g15 x)) \<Longrightarrow>
   (\<And>x y. le (f16 x y) (g16 x y)) \<Longrightarrow> (\<And>x. le (f17 x) (g17 x)) \<Longrightarrow> (\<And>x y. le (f18 x y) (g18 x y)) \<Longrightarrow> (\<And>x y. le (f19 x y) (g19 x y)) \<Longrightarrow>
   (\<And>x. le (f20 x) (g20 x)) \<Longrightarrow>
   le (case_expr_kind f0 f1 f2 f3 f4 f5 f6 f7 f8 f9 f10 f11 f12 f13 f14 f15 f16 f17 f18 f19 f20 z) (case_expr_kind g0 g1 g2 g3 g4 g5 g6 g7 g8 g9 g10 g11 g12 g13 g14 g15 g16 g17 g18 g19 g20 z)"
  by (cases z) simp_all

lemma le_unary_op [fuel_intros]:
  "le f0 g0 \<Longrightarrow> le f1 g1 \<Longrightarrow> le f2 g2 \<Longrightarrow> le f3 g3 \<Longrightarrow>
   le f4 g4 \<Longrightarrow> le f5 g5 \<Longrightarrow>
   le (case_unary_op f0 f1 f2 f3 f4 f5 z) (case_unary_op g0 g1 g2 g3 g4 g5 z)"
  by (cases z) simp_all

lemma le_lencap_kind [fuel_intros]:
  "le f0 g0 \<Longrightarrow> le f1 g1 \<Longrightarrow>
   le (case_lencap_kind f0 f1 z) (case_lencap_kind g0 g1 z)"
  by (cases z) simp_all

lemma le_sum [fuel_intros]:
  "(\<And>x. le (f0 x) (g0 x)) \<Longrightarrow> (\<And>x. le (f1 x) (g1 x)) \<Longrightarrow>
   le (case_sum f0 f1 z) (case_sum g0 g1 z)"
  by (cases z) simp_all

lemma le_assignment_op [fuel_intros]:
  "le f0 g0 \<Longrightarrow> le f1 g1 \<Longrightarrow> le f2 g2 \<Longrightarrow> le f3 g3 \<Longrightarrow>
   le f4 g4 \<Longrightarrow> le f5 g5 \<Longrightarrow> le f6 g6 \<Longrightarrow> le f7 g7 \<Longrightarrow>
   le f8 g8 \<Longrightarrow> le f9 g9 \<Longrightarrow> le f10 g10 \<Longrightarrow>
   le (case_assignment_op f0 f1 f2 f3 f4 f5 f6 f7 f8 f9 f10 z) (case_assignment_op g0 g1 g2 g3 g4 g5 g6 g7 g8 g9 g10 z)"
  by (cases z) simp_all

lemma le_decl_kind [fuel_intros]:
  "(\<And>x y u. le (f0 x y u) (g0 x y u)) \<Longrightarrow> (\<And>x y u. le (f1 x y u) (g1 x y u)) \<Longrightarrow> (\<And>x y u. le (f2 x y u) (g2 x y u)) \<Longrightarrow>
   le (case_decl_kind f0 f1 f2 z) (case_decl_kind g0 g1 g2 z)"
  by (cases z) simp_all

lemma le_block_item [fuel_intros]:
  "(\<And>x. le (f0 x) (g0 x)) \<Longrightarrow> (\<And>x. le (f1 x) (g1 x)) \<Longrightarrow>
   le (case_block_item f0 f1 z) (case_block_item g0 g1 z)"
  by (cases z) simp_all

lemma le_stmt_kind [fuel_intros]:
  "(\<And>x. le (f0 x) (g0 x)) \<Longrightarrow> (\<And>x. le (f1 x) (g1 x)) \<Longrightarrow> (\<And>x y u. le (f2 x y u) (g2 x y u)) \<Longrightarrow> (\<And>x y. le (f3 x y) (g3 x y)) \<Longrightarrow>
   (\<And>x y. le (f4 x y) (g4 x y)) \<Longrightarrow> (\<And>x y u w. le (f5 x y u w) (g5 x y u w)) \<Longrightarrow> (\<And>x. le (f6 x) (g6 x)) \<Longrightarrow> le f7 g7 \<Longrightarrow>
   le f8 g8 \<Longrightarrow> (\<And>x. le (f9 x) (g9 x)) \<Longrightarrow> (\<And>x y. le (f10 x y) (g10 x y)) \<Longrightarrow> (\<And>x y. le (f11 x y) (g11 x y)) \<Longrightarrow>
   (\<And>x. le (f12 x) (g12 x)) \<Longrightarrow>
   le (case_stmt_kind f0 f1 f2 f3 f4 f5 f6 f7 f8 f9 f10 f11 f12 z) (case_stmt_kind g0 g1 g2 g3 g4 g5 g6 g7 g8 g9 g10 g11 g12 z)"
  by (cases z) simp_all

lemma le_unit_kind [fuel_intros]:
  "(\<And>x. le (f0 x) (g0 x)) \<Longrightarrow> (\<And>x. le (f1 x) (g1 x)) \<Longrightarrow> (\<And>x. le (f2 x) (g2 x)) \<Longrightarrow> (\<And>x y. le (f3 x y) (g3 x y)) \<Longrightarrow>
   (\<And>x. le (f4 x) (g4 x)) \<Longrightarrow>
   le (case_unit_kind f0 f1 f2 f3 f4 z) (case_unit_kind g0 g1 g2 g3 g4 z)"
  by (cases z) simp_all

subsection \<open>Types\<close>

lemma le_resolve [fuel_intros]: "n \<le> n' \<Longrightarrow> le (resolve_type_name n ty) (resolve_type_name n' ty)"
proof (induction n arbitrary: n' ty)
  case (Suc n)
  then obtain k where "n' = Suc k" "n \<le> k" by (cases n') auto
  with Suc.IH show ?case by (auto intro!: fuel_intros)
qed (simp add: le_diverges)

lemma le_interface_arg:
  "(\<And>b t. le (gen b t) (gen' b t)) \<Longrightarrow> le (interface_arg_type gen t) (interface_arg_type gen' t)"
  unfolding interface_arg_type_def by (intro fuel_intros)

lemma le_codegen_type_kind:
  assumes g: "\<And>b t. le (gen b t) (gen' b t)"
  shows "le (codegen_type_kind gen on_stack ty) (codegen_type_kind gen' on_stack ty)"
  unfolding codegen_type_kind_def codegen_type_float_def codegen_type_func_def codegen_type_named_def
    codegen_type_struct_def codegen_type_slice_def codegen_type_array_def codegen_type_interface_def
    make_interface_table_type_def interface_field_type_def
  by (intro fuel_intros g le_interface_arg)

lemma le_type [fuel_intros]: "n \<le> n' \<Longrightarrow> le (codegen_type n on_stack ty) (codegen_type n' on_stack ty)"
proof (induction n arbitrary: n' on_stack ty)
  case (Suc n)
  then obtain k where "n' = Suc k" "n \<le> k" by (cases n') auto
  with Suc.IH show ?case by (auto intro!: fuel_intros le_codegen_type_kind)
qed (simp add: le_diverges)

subsection \<open>Expressions\<close>

lemma le_prepare_opt:
  "(\<And>e h. le (prep e h) (prep' e h)) \<Longrightarrow> le (prepare_opt prep e h) (prepare_opt prep' e h)"
  unfolding prepare_opt_def by (intro fuel_intros)

lemma le_prepare_args:
  "(\<And>e h. le (prep e h) (prep' e h)) \<Longrightarrow> le (prepare_args prep es ts) (prepare_args prep' es ts)"
  by (induction es arbitrary: ts) (auto intro!: fuel_intros)

lemma le_prepare_kind:
  assumes p: "\<And>e h. le (prep e h) (prep' e h)" and n: "n \<le> n'"
  shows "le (prepare_kind n prep e h) (prepare_kind n' prep' e h)"
  unfolding prepare_kind_def prepare_ident_expr_def prepare_number_literal_expr_def prepare_string_literal_expr_def prepare_sizeof_expr_def prepare_assignment_expr_def prepare_binary_expr_def prepare_unary_expr_def prepare_incdec_expr_def prepare_cast_expr_def prepare_conditional_expr_def prepare_comma_expr_def prepare_index_access_expr_def prepare_index_slice_expr_def prepare_member_access_expr_def prepare_call_expr_def prepare_new_builtin_expr_def prepare_free_builtin_expr_def prepare_make_builtin_expr_def prepare_lencap_builtin_expr_def prepare_dispose_builtin_expr_def
  by (intro fuel_intros p n le_prepare_opt le_prepare_args)

lemma le_prepare [fuel_intros]: "n \<le> n' \<Longrightarrow> le (prepare_expr n e h) (prepare_expr n' e h)"
proof (induction n arbitrary: n' e h)
  case (Suc n)
  then obtain k where "n' = Suc k" "n \<le> k" by (cases n') auto
  with Suc.IH show ?case by (auto intro!: le_prepare_kind)
qed (simp add: le_diverges)

lemma le_codegen_kind:
  assumes g: "\<And>lv e. le (gen lv e) (gen' lv e)" and n: "n \<le> n'"
  shows "le (codegen_kind n self gen lv e) (codegen_kind n' self gen' lv e)"
  unfolding codegen_kind_def codegen_ident_expr_def codegen_number_literal_expr_def codegen_string_literal_expr_def codegen_sizeof_expr_def codegen_assignment_expr_def codegen_binary_expr_def codegen_unary_expr_def codegen_incdec_expr_def codegen_cast_expr_def codegen_conditional_expr_def codegen_comma_expr_def codegen_index_access_expr_def codegen_index_slice_expr_def codegen_member_access_expr_def codegen_call_expr_def codegen_new_builtin_expr_def codegen_free_builtin_expr_def codegen_make_builtin_expr_def codegen_lencap_builtin_expr_def codegen_dispose_builtin_expr_def
    slice_slice_def slice_array_def index_or_def cast_to_interface_def table_entry_def table_function_def table_field_def
    interface_call_def function_call_def call_args_def
  by (intro fuel_intros g n le_interface_arg)

lemma le_expr [fuel_intros]: "n \<le> n' \<Longrightarrow> le (codegen_expr n self lv e) (codegen_expr n' self lv e)"
proof (induction n arbitrary: n' lv e)
  case (Suc n)
  then obtain k where "n' = Suc k" "n \<le> k" by (cases n') auto
  with Suc.IH show ?case by (auto intro!: le_codegen_kind)
qed (simp add: le_diverges)

lemma le_expr_top [fuel_intros]:
  "n \<le> n' \<Longrightarrow> le (codegen_expr_top n self lv e h) (codegen_expr_top n' self lv e h)"
  unfolding codegen_expr_top_def by (intro fuel_intros)

subsection \<open>Statements and units\<close>

lemma le_decl [fuel_intros]: "n \<le> n' \<Longrightarrow> le (codegen_decl n self d) (codegen_decl n' self d)"
  unfolding codegen_decl_def codegen_typed_variable_def codegen_untyped_variable_def codegen_const_def
  by (intro fuel_intros)

lemma le_codegen_stmt_kind:
  assumes g: "\<And>self x. le (gen self x) (gen' self x)" and n: "n \<le> n'"
  shows "le (codegen_stmt_kind n self gen x) (codegen_stmt_kind n' self gen' x)"
  unfolding codegen_stmt_kind_def codegen_compound_def codegen_item_def codegen_if_def codegen_branch_def
    codegen_for_def codegen_return_def codegen_opt_expr_def opt_stmt_def
  by (intro fuel_intros g n)

lemma le_stmt [fuel_intros]: "n \<le> n' \<Longrightarrow> le (codegen_stmt n self x) (codegen_stmt n' self x)"
proof (induction n arbitrary: n' self x)
  case (Suc n)
  then obtain k where "n' = Suc k" "n \<le> k" by (cases n') auto
  with Suc.IH show ?case by (auto intro!: le_codegen_stmt_kind)
qed (simp add: le_diverges)

lemma le_decls [fuel_intros]: "n \<le> n' \<Longrightarrow> le (codegen_decls verify n self us) (codegen_decls verify n' self us)"
  unfolding codegen_decls_def codegen_stage_def codegen_unit_def declare_func_def define_func_def codegen_body_def
    codegen_param_def
  by (intro fuel_intros)

lemma le_codegen [fuel_intros]: "n \<le> n' \<Longrightarrow> le (codegen verify n self us) (codegen verify n' self us)"
  unfolding codegen_def codegen_defs_def codegen_stage_def codegen_unit_def declare_func_def define_func_def
    codegen_body_def codegen_param_def
  by (intro fuel_intros)

subsection \<open>Imports\<close>

lemma le_import_units:
  assumes "\<And>us name handled. le (rec us name handled) (rec' us name handled)" and "\<And>us. le (decls us) (decls' us)"
  shows "le (import_units rec decls read_units name us handled) (import_units rec' decls' read_units name us handled)"
  by (induction us arbitrary: handled) (auto simp: Let_def intro!: fuel_intros assms split: unit_kind.split)

lemma le_imports [fuel_intros]:
  assumes "\<And>us. le (decls us) (decls' us)"
  shows "n \<le> n' \<Longrightarrow> le (resolve_imports n decls read_units us name handled) (resolve_imports n' decls' read_units us name handled)"
proof (induction n arbitrary: n' us name handled)
  case (Suc n)
  then obtain k where "n' = Suc k" "n \<le> k" by (cases n') auto
  with Suc.IH assms show ?case by (auto intro!: le_import_units)
qed (simp add: le_diverges)

end
