(* ===== verification/Elaboration.thy ===== *)
theory Elaboration
  imports Source_Sem Codegen_Frame Codegen_Fuel
begin

section \<open>The types of an expression depend on the variables only\<close>

text \<open>
  In the reference semantics \<open>prepare_expr\<close> runs with the variables in scope as its only symbols.
  In the code generator there are further contexts around them. It finds the same types, and
  changes nothing.
\<close>

type_synonym core = "symbol_kind \<times> string option \<times> type_t option \<times> lval option"

text \<open>The symbol of a variable: its value is the address some call has allocated.\<close>

fun var_symbol :: "var \<Rightarrow> core \<Rightarrow> bool" where
  "var_symbol v (k, name, t, x) \<longleftrightarrow> k = Invalid_Symbol \<and> name = var_name v \<and> t = Some (var_type v) \<and>
     (\<exists>j. x = Some (Val j))"

text \<open>The symbol a name stands for.\<close>

fun find_core :: "core list list \<Rightarrow> string \<Rightarrow> core option" where
  "find_core [] name = None"
| "find_core (c # cos) name = (case find (\<lambda>co. fst (snd co) = Some name) c of
     Some co \<Rightarrow> Some co
   | None \<Rightarrow> find_core cos name)"

definition fun_core :: "funs \<Rightarrow> string \<Rightarrow> type_t \<times> type_t list \<Rightarrow> core" where
  "fun_core F name sg = (Func_Symbol, Some name, Some (Type 0 (Func_Type (fst sg) (snd sg))), Some (Val (fn_address F name)))"

text \<open>The innermost contexts hold the variables, the others the functions.\<close>

definition knows :: "funs \<Rightarrow> core list list \<Rightarrow> bool" where
  "knows F cos \<longleftrightarrow> (\<forall>name sg. map_of (fn_sigs F) name = Some sg \<longrightarrow> find_core cos name = Some (fun_core F name sg))"

definition matches :: "funs \<Rightarrow> env \<Rightarrow> core list list \<Rightarrow> bool" where
  "matches F env cos \<longleftrightarrow> (\<exists>xs ys. cos = xs @ ys \<and> list_all2 (list_all2 var_symbol) env xs \<and> knows F ys)"

lemma find_core_append:
  "find_core (xs @ ys) name = (case find_core xs name of Some co \<Rightarrow> Some co | None \<Rightarrow> find_core ys name)"
  by (induction xs) (simp_all split: option.split)

lemma symbol_index_core:
  "find (\<lambda>co. fst (snd co) = Some name) (map core sys) = map_option (\<lambda>i. core (sys ! i)) (symbol_index sys name)"
  by (induction sys) (auto simp: core_def option.map_comp comp_def)

lemma find_symbol_core:
  "find_core (map (\<lambda>c. map core (cc_symbols c)) cs) name =
     map_option (\<lambda>p. core (symbol_at cs p)) (codegen_context_find_symbol cs name)"
  by (induction cs) (auto simp: symbol_index_core symbol_at_def option.map_comp comp_def split_beta split: option.split)

lemma find_core_vars:
  "list_all2 (list_all2 var_symbol) env xs \<Longrightarrow> find_var env name = None \<Longrightarrow> find_core xs name = None"
proof (induction env xs rule: list_all2_induct)
  case (Cons vs env c cos)
  have "var_index vs name = None \<Longrightarrow> find (\<lambda>co. fst (snd co) = Some name) c = None"
    using Cons.hyps(1) by (induction vs c rule: list_all2_induct) auto
  with Cons show ?case by (auto split: option.splits)
qed simp

lemma matches_fun:
  assumes "matches F env (cores s)" and "find_var env name = None" and "map_of (fn_sigs F) name = Some sg"
  obtains sy where "find_symbol name s = Inr (Some sy, s)" and "core sy = fun_core F name sg"
proof -
  from assms obtain xs ys where "cores s = xs @ ys" "list_all2 (list_all2 var_symbol) env xs"
    "find_core ys name = Some (fun_core F name sg)" unfolding matches_def knows_def by blast
  with find_core_vars [OF this(2) assms(2)] have "find_core (cores s) name = Some (fun_core F name sg)"
    by (simp add: find_core_append)
  with that show thesis unfolding cores_def find_symbol_core
    by (auto simp: find_symbol_def cbind_def cget_def cret_def rbind_def)
qed

lemma symbol_index_cores:
  "list_all2 var_symbol vs (map core sys) \<Longrightarrow> symbol_index sys name = var_index vs name"
proof (induction sys arbitrary: vs)
  case (Cons sy sys)
  then show ?case by (cases vs) (auto simp: core_def)
qed simp

lemma var_index_less: "var_index vs name = Some i \<Longrightarrow> i < length vs \<and> var_name (vs ! i) = Some name"
  by (induction vs arbitrary: i) (auto split: if_splits)

lemma find_var_less:
  "find_var env name = Some (d, i) \<Longrightarrow> d < length env \<and> i < length (env ! d) \<and> var_name (env ! d ! i) = Some name"
  by (induction env arbitrary: d i) (auto split: option.splits dest: var_index_less)

lemma find_symbol_matches:
  assumes "list_all2 (list_all2 var_symbol) env (map (\<lambda>c. map core (cc_symbols c)) cs)"
    and "find_var env name = Some p"
  shows "codegen_context_find_symbol (cs @ cs') name = Some p"
  using assms
proof (induction cs arbitrary: env p)
  case (Cons c cs)
  then obtain vs env' where env: "env = vs # env'" "list_all2 var_symbol vs (map core (cc_symbols c))"
    "list_all2 (list_all2 var_symbol) env' (map (\<lambda>c. map core (cc_symbols c)) cs)" by (cases env) auto
  show ?case using Cons.prems(2) Cons.IH [OF env(3)] symbol_index_cores [OF env(2)]
    by (auto simp: env(1) split: option.splits)
qed simp

lemma matches_find:
  assumes "matches F env (cores s)" and "find_var env name = Some p"
  shows "codegen_context_find_symbol (cg_contexts s) name = Some p"
    and "var_symbol (var_at env p) (core (symbol_at (cg_contexts s) p))"
proof -
  from assms(1) obtain xs ys where xs: "cores s = xs @ ys" "list_all2 (list_all2 var_symbol) env xs"
    by (auto simp: matches_def)
  define cs where "cs = take (length xs) (cg_contexts s)"
  have cs: "xs = map (\<lambda>c. map core (cc_symbols c)) cs"
    using xs(1) unfolding cores_def cs_def by (metis append_eq_conv_conj take_map)
  have split: "cg_contexts s = cs @ drop (length xs) (cg_contexts s)" by (simp add: cs_def)
  show "codegen_context_find_symbol (cg_contexts s) name = Some p"
    by (subst split) (rule find_symbol_matches [OF xs(2) [unfolded cs] assms(2)])
  obtain d i where p: "p = (d, i)" by (cases p)
  have di: "d < length env" "i < length (env ! d)" using find_var_less assms(2) p by auto
  have "list_all2 var_symbol (env ! d) (xs ! d)" using xs(2) di(1) by (simp add: list_all2_conv_all_nth)
  moreover have "d < length cs" using xs(2) di(1) cs by (auto dest: list_all2_lengthD)
  ultimately have "list_all2 var_symbol (env ! d) (map core (cc_symbols (cg_contexts s ! d)))"
    by (subst split) (simp add: nth_append cs)
  with di(2) show "var_symbol (var_at env p) (core (symbol_at (cg_contexts s) p))"
    by (auto simp: p var_at_def symbol_at_def list_all2_conv_all_nth)
qed

abbreviation static_funs :: "funs \<Rightarrow> funs" where
  "static_funs F \<equiv> F\<lparr>fn_address := (\<lambda>name. 0)\<rparr>"

lemma find_static_functions:
  "find (\<lambda>co. fst (snd co) = Some name) (map (core \<circ> (\<lambda>(name, r, ts). function_symbol name r ts (Val 0))) sigs) =
     map_option (\<lambda>sg. (Func_Symbol, Some name, Some (Type 0 (Func_Type (fst sg) (snd sg))), Some (Val 0))) (map_of sigs name)"
  by (induction sigs) (auto simp: core_def function_symbol_def no_symbol_def)

lemma static_cores: "cores (static_state F env) =
    map (map (\<lambda>v. core (variable_symbol (var_name v) (var_type v) None (Val 0)))) env @ [map core (cc_symbols (static_functions F))]"
  by (simp add: cores_def static_state_def static_context_def comp_def)

lemma static_vars: "list_all2 (list_all2 var_symbol) env
    (map (map (\<lambda>v. core (variable_symbol (var_name v) (var_type v) None (Val 0)))) env)"
  by (simp add: list_all2_map2 list_all2_same variable_symbol_def no_symbol_def core_def)

lemma static_find: "find_core (map core (cc_symbols (static_functions F)) # []) name =
    map_option (fun_core (static_funs F) name) (map_of (fn_sigs F) name)"
  using find_static_functions [of name "fn_sigs F"]
  by (simp add: static_functions_def fun_core_def comp_def split: option.split)

lemma static_matches: "matches (static_funs F) env (cores (static_state F env))"
proof -
  have "knows (static_funs F) [map core (cc_symbols (static_functions F))]"
    using static_find [of F] by (simp add: knows_def)
  with static_vars [of env] show ?thesis unfolding matches_def static_cores by blast
qed

lemma static_unknown:
  assumes "find_var env name = None" and "map_of (fn_sigs F) name = None"
  shows "codegen_context_find_symbol (cg_contexts (static_state F env)) name = None"
proof -
  have "find_core (cores (static_state F env)) name = None"
    using find_core_vars [OF static_vars assms(1)] static_find [of F name] assms(2)
    unfolding static_cores find_core_append by simp
  then show ?thesis unfolding cores_def find_symbol_core by simp
qed

subsection \<open>Following prepare_expr\<close>

definition depends :: "funs \<Rightarrow> env \<Rightarrow> cg_state \<Rightarrow> ('a \<Rightarrow> bool) \<Rightarrow> 'a cg \<Rightarrow> bool" where
  "depends F env s2 Q m \<longleftrightarrow> (\<forall>x t. m (static_state F env) = Inr (x, t) \<longrightarrow> t = static_state F env \<and> Q x \<and> m s2 = Inr (x, s2))"

named_theorems depends_intros \<open>steps that depend on the variables only\<close>

lemma depends_bind [depends_intros]:
  "depends F env s2 Q m \<Longrightarrow> (\<And>x. Q x \<Longrightarrow> depends F env s2 R (f x)) \<Longrightarrow> depends F env s2 R (cbind m f)"
  unfolding depends_def cbind_def rbind_Inr_conv by fastforce

lemma depends_seq [depends_intros]:
  "depends F env s2 (\<lambda>_. True) m \<Longrightarrow> depends F env s2 R k \<Longrightarrow> depends F env s2 R (cseq m k)"
  unfolding cseq_def by (rule depends_bind)

lemma depends_ret [depends_intros]: "Q x \<Longrightarrow> depends F env s2 Q (cret x)"
  by (simp add: depends_def cret_def)

lemma depends_fail [depends_intros]: "depends F env s2 Q (cfail e)" "depends F env s2 Q (derror msg)"
  by (simp_all add: depends_def cfail_def derror_def)

lemma depends_lift [depends_intros]: "(\<And>x. r = Inr x \<Longrightarrow> Q x) \<Longrightarrow> depends F env s2 Q (clift r)"
  by (auto simp: depends_def clift_def rbind_Inr_conv)

lemma depends_if [depends_intros]:
  "(c \<Longrightarrow> depends F env s2 Q a) \<Longrightarrow> (\<not> c \<Longrightarrow> depends F env s2 Q b) \<Longrightarrow> depends F env s2 Q (if c then a else b)"
  by simp

lemma depends_option [depends_intros]:
  "depends F env s2 Q a \<Longrightarrow> (\<And>x. depends F env s2 Q (f x)) \<Longrightarrow> depends F env s2 Q (case_option a f z)"
  by (cases z) simp_all

lemma basic_typed [simp]: "basic (typed e t) = basic e" "basic (of_kind e k) = basic (Expr (expr_loc e) (expr_type e) k)"
  by (cases e; cases "expr_kind e"; simp add: typed_def of_kind_def)+

lemma depends_copied [depends_intros]: "basic e \<Longrightarrow> depends F env s2 basic (copied e t)"
  "basic e \<Longrightarrow> depends F env s2 basic (copied_hint e h)"
  unfolding copied_def copied_hint_def by (intro depends_intros; simp)+

lemma depends_map:
  "(\<And>x. x \<in> set xs \<Longrightarrow> depends F env s2 Q (f x)) \<Longrightarrow> depends F env s2 (list_all Q) (cmap f xs)"
  by (induction xs) (auto intro!: depends_intros)

lemma depends_ident:
  assumes "matches F env (cores s2)" and "basic e"
  shows "depends F env s2 basic (prepare_ident_expr prep e name h)"
proof (cases "find_var env name")
  case (Some p)
  note s2 = matches_find [OF assms(1) Some] and s1 = matches_find [OF static_matches [of F] Some]
  obtain v1 where v1: "cs_kind (symbol_at (cg_contexts (static_state F env)) p) = Invalid_Symbol"
    "cs_value (symbol_at (cg_contexts (static_state F env)) p) = Some v1"
    "cs_type (symbol_at (cg_contexts (static_state F env)) p) = Some (var_type (var_at env p))"
    using s1(2) by (auto simp: core_def)
  obtain v2 where v2: "cs_kind (symbol_at (cg_contexts s2) p) = Invalid_Symbol"
    "cs_value (symbol_at (cg_contexts s2) p) = Some v2"
    "cs_type (symbol_at (cg_contexts s2) p) = Some (var_type (var_at env p))"
    using s2(2) by (auto simp: core_def)
  have c: "depends F env s2 basic (copied e (var_type (var_at env p)))" by (rule depends_copied [OF assms(2)])
  show ?thesis
    using c s2(1) s1(1) assms(2) by (auto simp: depends_def prepare_ident_expr_def cbind_def cget_def v1 v2
        type_ptr_def cret_def)
next
  case None
  note var = None
  show ?thesis
  proof (cases "map_of (fn_sigs F) name")
    case None
    then show ?thesis using static_unknown [OF var None] assms(2)
      by (auto simp: depends_def prepare_ident_expr_def cbind_def cget_def derror_def cfail_def cret_def)
  next
    case (Some sg)
    obtain sy1 where sy1: "find_symbol name (static_state F env) = Inr (Some sy1, static_state F env)"
      "core sy1 = fun_core (static_funs F) name sg"
      by (rule matches_fun [OF static_matches [of F env] var]) (use Some in simp)
    obtain sy2 where sy2: "find_symbol name s2 = Inr (Some sy2, s2)" "core sy2 = fun_core F name sg"
      by (rule matches_fun [OF assms(1) var Some])
    let ?t = "Type 0 (Func_Type (fst sg) (snd sg))"
    have c: "depends F env s2 basic (cbind (clift (type_copy ?t)) (\<lambda>t'. cret (typed e (pointer_to t'))))"
      by (intro depends_bind [where Q = "\<lambda>_. True"] depends_intros) (use assms(2) in simp_all)
    show ?thesis
      using c sy1 sy2 assms(2)
      by (auto simp: depends_def prepare_ident_expr_def cbind_def cget_def type_ptr_def cret_def find_symbol_def
          core_def fun_core_def rbind_def Let_def)
  qed
qed

text \<open>A call takes its type from that of the function, or of the variable, that its target names.\<close>

lemma depends_symbol:
  assumes m: "matches F env (cores s2)"
    and k: "\<And>sy1 sy2. cs_kind sy1 = cs_kind sy2 \<Longrightarrow> cs_type sy1 = cs_type sy2 \<Longrightarrow> cs_kind sy1 \<noteq> Interface_Function_Symbol \<Longrightarrow>
      f (Some sy1) = f (Some sy2) \<and> depends F env s2 Q (f (Some sy1))"
    and none: "\<And>s. f None s = Inl (err s)"
  shows "depends F env s2 Q (cbind (find_symbol name) f)"
proof (cases "find_var env name = None \<and> map_of (fn_sigs F) name = None")
  case True
  then show ?thesis using static_unknown [of env name F] none
    by (auto simp: depends_def find_symbol_def cbind_def cget_def cret_def rbind_def)
next
  case False
  obtain sy1 sy2 where sy: "find_symbol name (static_state F env) = Inr (Some sy1, static_state F env)"
    "find_symbol name s2 = Inr (Some sy2, s2)" "cs_kind sy1 = cs_kind sy2" "cs_type sy1 = cs_type sy2"
    "cs_kind sy1 \<noteq> Interface_Function_Symbol"
  proof (cases "find_var env name")
    case (Some p)
    note s2 = matches_find [OF m Some] and s1 = matches_find [OF static_matches [of F] Some]
    from s1 s2 that [of "symbol_at (cg_contexts (static_state F env)) p" "symbol_at (cg_contexts s2) p"] show thesis
      by (auto simp: find_symbol_def cbind_def cget_def cret_def rbind_def core_def)
  next
    case None
    with False obtain sg where sg: "map_of (fn_sigs F) name = Some sg" by auto
    obtain sy1 where "find_symbol name (static_state F env) = Inr (Some sy1, static_state F env)"
      "core sy1 = fun_core (static_funs F) name sg"
      by (rule matches_fun [OF static_matches [of F env] None]) (use sg in simp)
    moreover obtain sy2 where "find_symbol name s2 = Inr (Some sy2, s2)" "core sy2 = fun_core F name sg"
      by (rule matches_fun [OF m None sg])
    ultimately show thesis using that by (simp add: core_def fun_core_def)
  qed
  from k [OF sy(3-5)] show ?thesis unfolding depends_def cbind_def by (auto simp: sy(1,2) rbind_def)
qed

lemma depends_args:
  "(\<And>e h. e \<in> set es \<Longrightarrow> depends F env s2 basic (prep e h)) \<Longrightarrow> depends F env s2 (list_all basic) (prepare_args prep es ts)"
  by (induction es arbitrary: ts) (auto intro!: depends_intros)

lemma depends_unary:
  assumes "\<And>h. depends F env s2 basic (prep a h)" and "basic a"
  shows "depends F env s2 basic (prepare_unary_expr prep (Expr l t (Unary_Expr a op)) a op h)"
proof -
  note hint = depends_bind [where Q = "\<lambda>_. True"] and operand = depends_bind [OF assms(1)]
  have hint_ok: "depends F env s2 (\<lambda>_. True) (case h of None \<Rightarrow> cret None
           | Some r \<Rightarrow> cbind (clift r) (\<lambda>t. cbind (clift (type_copy t)) (f t)))"
    if "\<And>t x. depends F env s2 (\<lambda>_. True) (f t x)" for f :: "type_t \<Rightarrow> type_t \<Rightarrow> hint cg"
    by (cases h) (auto intro!: depends_intros that hint [where m = "clift r" for r])
  have address: "depends F env s2 (\<lambda>_. True) (case h of None \<Rightarrow> cret None
           | Some r \<Rightarrow> cbind (clift r) (\<lambda>t. if 0 < type_pointer t
               then cbind (clift (type_copy t)) (\<lambda>t'. cret (hint_of (pointee t'))) else cret None))"
    by (cases h) (auto intro!: depends_intros hint [where m = "clift r" for r])
  have copy: "depends F env s2 (\<lambda>_. True) (clift r)" for r :: "type_t res" by (intro depends_intros) simp
  show ?thesis using assms(2) unfolding prepare_unary_expr_def
    by (cases op) (auto intro!: hint [OF address] hint [OF hint_ok] hint [OF copy] operand depends_intros)
qed

lemma depends_prepare:
  assumes "matches F env (cores s2)"
  shows "basic e \<Longrightarrow> depends F env s2 basic (prepare_expr n e h)"
proof (induction n arbitrary: e h)
  case (Suc n)
  obtain l t k where e: "e = Expr l t k" by (cases e)
  note rules = depends_intros depends_ident [OF assms] Suc.IH depends_map
  show ?case
  proof (cases k)
    case (Unary_Expr a op)
    then show ?thesis using Suc.prems unfolding e by (simp add: prepare_kind_def depends_unary Suc.IH)
  next
    case (Binary_Expr a b op)
    note step = depends_bind [OF Suc.IH]
    have ab: "basic a" "basic b" using Suc.prems by (simp_all add: e Binary_Expr)
    have both: "depends F env s2 (\<lambda>(l2, r2). basic l2 \<and> basic r2)
       (if untyped l1 \<and> untyped r1 then cbind (prepare_expr n l1 hint) (\<lambda>l2. cbind (prepare_expr n r1 hint) (\<lambda>r2. cret (l2, r2)))
        else cret (l1, r1))" if "basic l1" "basic r1" for l1 r1 hint
      using that by (intro depends_if step depends_ret) simp_all
    have one: "depends F env s2 basic (if b then prepare_expr n x hint else cret x)" if "basic x" for b x hint
      using that by (intro depends_if Suc.IH depends_ret)
    have "depends F env s2 basic (prepare_binary_expr (prepare_expr n) e a b op h)"
      unfolding prepare_binary_expr_def Let_def
      apply (intro step ab depends_bind [OF both]; clarsimp split del: if_split)
      apply (intro depends_bind [OF one] depends_intros; simp)
      done
    then show ?thesis by (simp add: e Binary_Expr prepare_kind_def)
  next
    case (Comma_Expr es)
    have es: "depends F env s2 (list_all basic) (cmap (\<lambda>x. prepare_expr n x h) es)"
      using Suc.prems by (intro depends_map Suc.IH) (auto simp: e Comma_Expr list_all_iff)
    have "depends F env s2 basic (prepare_comma_expr (prepare_expr n) e es h)"
      unfolding prepare_comma_expr_def by (intro depends_bind [OF es] depends_intros; simp)
    then show ?thesis by (simp add: e Comma_Expr prepare_kind_def)
  next
    case (Conditional_Expr c a b)
    then show ?thesis using Suc.prems unfolding e Conditional_Expr
      by (simp add: prepare_kind_def prepare_conditional_expr_def)
        (intro depends_bind [OF Suc.IH] depends_bind [where Q = "\<lambda>_. True"] depends_intros; simp)
  next
    case (Call_Expr f args)
    then obtain name where f: "expr_kind f = Ident_Expr name" using Suc.prems
      by (auto simp: e function_of_def split: expr_kind.splits)
    have args: "depends F env s2 (list_all basic) (prepare_args (prepare_expr n) args as)" for as
      using Suc.prems by (intro depends_args Suc.IH) (auto simp: e Call_Expr list_all_iff)
    have f': "function_of f \<noteq> None" using Suc.prems by (simp add: e Call_Expr)
    have call: "depends F env s2 basic (cbind (clift (type_copy r)) (\<lambda>t. cbind (prepare_args (prepare_expr n) args as) (\<lambda>args'.
        cret (typed (of_kind e (Call_Expr f args')) t))))" for r as
      by (intro depends_bind [OF args] depends_bind [where Q = "\<lambda>_. True"] depends_intros) (simp_all add: f')
    have "depends F env s2 basic (prepare_call_expr n (prepare_expr n) e f args)"
      unfolding prepare_call_expr_def f expr_kind.case
      by (rule depends_symbol [OF assms])
        (auto simp: derror_def cfail_def intro: call depends_fail(1) [unfolded cfail_def] split: option.split type_t.split type_kind.split)
    then show ?thesis by (simp add: e Call_Expr prepare_kind_def)
  next
    case (Assignment_Expr a b op)
    then show ?thesis using Suc.prems unfolding e Assignment_Expr
      by (simp add: prepare_kind_def prepare_assignment_expr_def)
        (intro depends_bind [OF Suc.IH] depends_bind [where Q = "\<lambda>_. True"] depends_intros; simp)
  qed (use Suc.prems e in \<open>simp_all add: prepare_kind_def\<close>,
    (unfold prepare_number_literal_expr_def prepare_incdec_expr_def prepare_cast_expr_def,
     (intro rules; (simp add: list_all_iff)?)+)?)
qed (simp add: depends_fail)

text \<open>The types found in the reference semantics are those the code generator finds.\<close>

lemma elab_prepare:
  assumes "elab F env e h = Some e'" and "matches F env (cores s)" and "prepare_expr n e h s = Inr (e'', s')"
  shows "e'' = e' \<and> s' = s \<and> plain F (type_in env) e'"
proof -
  from assms(1) obtain t where t: "prepare_expr (Suc (size e)) e h (static_state F env) = Inr (e', t)"
    "basic e" "plain F (type_in env) e'"
    by (auto simp: elab_def split: if_splits sum.splits)
  have s: "prepare_expr (Suc (size e)) e h s = Inr (e', s)"
    using depends_prepare [OF assms(2) t(2)] t(1) unfolding depends_def by blast
  have "le (prepare_expr n e h) (prepare_expr (max n (Suc (size e))) e h)"
    "le (prepare_expr (Suc (size e)) e h) (prepare_expr (max n (Suc (size e))) e h)"
    by (intro le_prepare; simp)+
  with s assms(3) have "Inr (e'', s') = (Inr (e', s) :: (expr \<times> cg_state) res)" unfolding le_def by (metis sum.distinct(1))
  with t(3) show ?thesis by simp
qed

end
