(* ===== verification/Arith_Props.thy ===== *)
theory Arith_Props
  imports Source_Sem
begin

section \<open>The instructions compute what the operators mean\<close>

unbundle bit_operations_syntax

lemma signed_take: "0 < w \<Longrightarrow> signed_bits w (take_bit w x) = signed_bits w x"
  by (cases w) (simp_all add: signed_bits_def signed_take_bit_take_bit)

lemma take_signed: "0 < w \<Longrightarrow> take_bit w (signed_bits w x) = take_bit w x"
  by (simp add: signed_bits_def take_bit_signed_take_bit)

lemma signed_idem [simp]: "signed_bits w (signed_bits w x) = signed_bits w x"
  by (simp add: signed_bits_def)

lemma signed_range: "- (2 ^ (w - 1)) \<le> signed_bits w x \<and> signed_bits w x < 2 ^ (w - 1)"
  by (simp add: signed_bits_def signed_take_bit_int_greater_eq_minus_exp signed_take_bit_int_less_exp)

lemma take_nonneg:
  assumes "signed_bits w x = x" and "0 \<le> x" and "0 < w"
  shows "take_bit w x = x"
proof -
  have "x < 2 ^ (w - 1)" using signed_range [of w x] assms(1) by simp
  also have "(2::int) ^ (w - 1) \<le> 2 ^ w" by (rule power_increasing) simp_all
  finally show ?thesis using assms(2) by (simp add: take_bit_int_eq_self)
qed

lemma bool_cases: "take_bit 1 (x::int) = x \<Longrightarrow> x = 0 \<or> x = 1"
  by (simp add: take_bit_eq_mod) presburger

lemma bits_range: "0 \<le> take_bit w (x::int)" "take_bit w (x::int) < 2 ^ w"
  by (simp_all add: take_bit_int_less_exp)

lemma documentedD:
  assumes "documented ar" "0 < w"
  shows "binary_documented (ar_binary ar) w (take_bit w x) (take_bit w y)"
    and "compare_documented (ar_compare ar) w (take_bit w x) (take_bit w y)"
  using assms bits_range [of w x] bits_range [of w y] unfolding documented_def by blast+

lemma wrap_bool [simp]: "wrap bool_type (of_bool b) = of_bool b"
  by (simp add: bool_type_def take_bit_eq_mod)

lemma rep_bool: "rep bool_type (of_bool b) = Int_Val 1 (of_bool b)"
  by (simp add: rep_def bool_type_def take_bit_eq_mod)

lemma scalar_cases:
  assumes "scalar t"
  obtains (int) w where "t = Type 0 (Integer_Type w)" "0 < w" "0 < unat w" "is_integer t" | (bool) "t = bool_type"
proof (cases t)
  case (Type p k)
  with assms show thesis
    using that by (cases k) (auto simp: bool_type_def is_integer_def unat_gt_0 word_neq_0_conv)
qed

lemma not_integer_bool [simp]: "\<not> is_integer bool_type"
  by (simp add: is_integer_def bool_type_def)

lemma width_pos: "scalar t \<Longrightarrow> 0 < width t"
  by (cases t rule: scalar_cases) (simp_all add: bool_type_def)

lemma wrap_idem: "scalar t \<Longrightarrow> wrap t (wrap t x) = wrap t x"
  by (cases t rule: scalar_cases) (simp_all add: bool_type_def)

lemma rep_wrap: "scalar t \<Longrightarrow> rep t (wrap t x) = rep t x"
  by (cases t rule: scalar_cases) (simp_all add: rep_def bool_type_def take_signed)

lemma take_bit_inj:
  assumes "signed_bits w x = x" "signed_bits w y = y" "0 < w"
  shows "take_bit w x = take_bit w y \<longleftrightarrow> x = y"
  using assms signed_take by metis

subsection \<open>Operators\<close>

definition inst_step :: "arith \<Rightarrow> binary_inst + predicate \<Rightarrow> mval option \<Rightarrow> mval option \<Rightarrow> mval option" where
  "inst_step ar i a b = (case i of Inl op \<Rightarrow> binary_step ar op a b | Inr p \<Rightarrow> compare_step ar p a b)"

lemma step_on_bits:
  "binary_step ar i (Some (Int_Val w x)) (Some (Int_Val w y)) = map_option (Int_Val w) (ar_binary ar i w x y)"
  "compare_step ar p (Some (Int_Val w x)) (Some (Int_Val w y)) = Some (Int_Val 1 (of_bool (ar_compare ar p w x y)))"
  by (simp_all add: binary_step_def compare_step_def)

lemma integer_inst_step:
  assumes ar: "documented ar" and w: "0 < w" and x: "signed_bits w x = x" and y: "signed_bits w y = y"
    and i: "integer_inst op = Some i" and z: "integer_value w op x y = Some z"
  shows "inst_step ar i (Some (Int_Val w (take_bit w x))) (Some (Int_Val w (take_bit w y))) =
    Some (if comparing op then Int_Val 1 z else Int_Val w (take_bit w z))"
proof -
  note doc = documentedD [OF ar w, of x y, unfolded binary_documented_def compare_documented_def
      signed_take [OF w] x y]
  have shift: "take_bit w y = y \<and> y < int w" if "0 \<le> y" "y < int w"
    using take_nonneg [OF y that(1) w] that(2) by simp
  have shl: "take_bit w (push_bit k (take_bit w x)) = take_bit w (x * 2 ^ k)" for k
    by (simp add: take_bit_push_bit push_bit_eq_mult [symmetric] min_def)
  have shl': "ar_binary ar I_Shl w (take_bit w x) y = Some (take_bit w (x * 2 ^ nat y))"
    "ar_binary ar I_AShr w (take_bit w x) y = Some (take_bit w (x div 2 ^ nat y))" if "0 \<le> y" "y < int w"
    using doc shift [OF that] shl by (simp_all add: drop_bit_eq_div)
  show ?thesis
    using i z by (cases op)
      (auto simp: doc shl' integer_value_def inst_step_def step_on_bits comparing_def take_bit_add take_bit_diff take_bit_mult
        take_bit_inj [OF x y w] shift shl drop_bit_eq_div split: if_splits)
qed

lemma boolean_inst_step:
  assumes ar: "documented ar" and x: "take_bit 1 x = x" and y: "take_bit 1 y = y"
    and i: "boolean_inst op = Some i" and z: "boolean_value op x y = Some z"
  shows "inst_step ar i (Some (Int_Val 1 x)) (Some (Int_Val 1 y)) = Some (Int_Val 1 z)"
proof -
  have doc: "ar_binary ar I_And 1 x y = Some (x AND y)" "ar_binary ar I_Or 1 x y = Some (x OR y)"
    "ar_compare ar Int_EQ 1 x y \<longleftrightarrow> x = y" "ar_compare ar Int_NE 1 x y \<longleftrightarrow> x \<noteq> y"
    using documentedD [OF ar, of 1 x y, unfolded binary_documented_def compare_documented_def x y] by simp_all
  have "x AND y = of_bool (x \<noteq> 0 \<and> y \<noteq> 0)" "x OR y = of_bool (x \<noteq> 0 \<or> y \<noteq> 0)"
    using bool_cases [OF x] bool_cases [OF y] by auto
  with i z doc show ?thesis
    by (cases op) (auto simp: boolean_value_def inst_step_def step_on_bits)
qed

lemma binary_inst_step:
  assumes ar: "documented ar" and t: "scalar t" and x: "wrap t x = x" and y: "wrap t y = y"
    and i: "(if is_integer t then integer_inst op else boolean_inst op) = Some i"
    and z: "binary_value t op x y = Some z"
  shows "inst_step ar i (Some (rep t x)) (Some (rep t y)) = Some (rep (if comparing op then bool_type else t) z)"
    and "wrap (if comparing op then bool_type else t) z = z"
proof -
  obtain v where v: "(if is_integer t then integer_value (width t) op x y else boolean_value op x y) = Some v"
    and z: "z = wrap (if comparing op then bool_type else t) v"
    using z by (auto simp: binary_value_def)
  have b: "v = 0 \<or> v = 1" if "comparing op"
    using v that by (cases op) (auto simp: comparing_def integer_value_def boolean_value_def split: if_splits)
  have zb: "z = v" "rep bool_type v = Int_Val 1 v" if "comparing op"
    using b [OF that] that by (auto simp: z bool_type_def rep_def take_bit_eq_mod)
  from t show "inst_step ar i (Some (rep t x)) (Some (rep t y)) = Some (rep (if comparing op then bool_type else t) z)"
  proof (cases t rule: scalar_cases)
    case (int w)
    have "inst_step ar i (Some (rep t x)) (Some (rep t y)) = Some (if comparing op then Int_Val 1 v else rep t v)"
      using integer_inst_step [OF ar int(3), of x y op i v] x y i v int(4) by (simp add: int(1) rep_def)
    then show ?thesis by (simp add: zb) (simp add: z rep_wrap [OF t])
  next
    case bool
    have c: "comparing op" using i bool by (cases op) (simp_all add: comparing_def)
    have iv: "boolean_inst op = Some i" "boolean_value op x y = Some v" using i v by (simp_all add: bool)
    have xy: "take_bit 1 x = x" "take_bit 1 y = y" using x y by (simp_all add: bool bool_type_def)
    have "inst_step ar i (Some (rep t x)) (Some (rep t y)) = Some (Int_Val 1 v)"
      using boolean_inst_step [OF ar xy iv] xy by (simp add: bool rep_def bool_type_def)
    then show ?thesis by (simp add: c zb)
  qed
  show "wrap (if comparing op then bool_type else t) z = z"
    unfolding z using t by (auto intro!: wrap_idem simp: bool_type_def)
qed

lemma unary_inst_step:
  assumes ar: "documented ar" and t: "scalar t" and x: "wrap t x = x"
  shows "is_integer t \<Longrightarrow> unary_step ar I_Neg (Some (rep t x)) = Some (rep t (unary_value t Op_Negative x))"
    and "is_integer t \<Longrightarrow> unary_step ar I_Not (Some (rep t x)) = Some (rep t (unary_value t Op_Bitwise_Not x))"
    and "t = bool_type \<Longrightarrow> unary_step ar I_Not (Some (rep t x)) = Some (rep t (unary_value t Op_Not x))"
proof -
  have w: "0 < width t" by (rule width_pos [OF t])
  note neg = documentedD(1) [OF ar w, of 0 x, unfolded binary_documented_def]
  note xor = documentedD(1) [OF ar w, of "mask (width t)" x, unfolded binary_documented_def]
  have minus: "take_bit k (- take_bit k x) = take_bit k (- x)" for k
    using take_bit_diff [of k 0 x] by simp
  have nots: "mask k XOR take_bit k x = take_bit k (NOT x)" for k
    by (rule bit_eqI) (auto simp: bit_simps)
  show "unary_step ar I_Neg (Some (rep t x)) = Some (rep t (unary_value t Op_Negative x))"
    using neg by (simp add: unary_step_def unary_value_def rep_wrap [OF t]) (simp add: rep_def minus)
  show "unary_step ar I_Not (Some (rep t x)) = Some (rep t (unary_value t Op_Bitwise_Not x))"
    using xor by (simp add: unary_step_def unary_value_def rep_wrap [OF t]) (simp add: rep_def nots)
  assume b: "t = bool_type"
  have "x = 0 \<or> x = 1" using x by (intro bool_cases) (simp add: b bool_type_def)
  moreover have "unary_step ar I_Not (Some (rep t x)) = Some (Int_Val 1 (1 XOR take_bit 1 x))"
    using xor by (simp add: unary_step_def rep_def b bool_type_def mask_eq_exp_minus_1)
  ultimately show "unary_step ar I_Not (Some (rep t x)) = Some (rep t (unary_value t Op_Not x))"
    by (auto simp: rep_def unary_value_def b bool_type_def)
qed

lemma assign_inst_step:
  assumes ar: "documented ar" and t: "scalar t" "is_integer t" and x: "wrap t x = x" and y: "wrap t y = y"
    and z: "assigned_value t op x y = Some z"
    and i: "i = (case op of Add_Assign \<Rightarrow> I_Add | Sub_Assign \<Rightarrow> I_Sub | Mul_Assign \<Rightarrow> I_Mul | _ \<Rightarrow> I_UDiv)"
  shows "binary_step ar i (Some (rep t x)) (Some (rep t y)) = Some (rep t z)" and "wrap t z = z"
proof -
  from t(1) show "binary_step ar i (Some (rep t x)) (Some (rep t y)) = Some (rep t z)"
  proof (cases t rule: scalar_cases)
    case (int w)
    note doc = documentedD(1) [OF ar int(3), of x y, unfolded binary_documented_def]
    have xy: "signed_bits (unat w) x = x" "signed_bits (unat w) y = y" using x y int(1) by simp_all
    have quot: "take_bit (unat w) x div take_bit (unat w) y = take_bit (unat w) (x div y)" if "0 \<le> x" "0 < y"
    proof -
      have "x div y < 2 ^ unat w"
        using take_nonneg [OF xy(1) that(1) int(3)] bits_range(2) [of "unat w" x] that int_div_le_self [of x y]
        by (cases "x = 0") simp_all
      with that show ?thesis
        using take_nonneg [OF xy(1) _ int(3)] take_nonneg [OF xy(2) _ int(3)]
        by (simp add: take_bit_int_eq_self pos_imp_zdiv_nonneg_iff)
    qed
    have nz: "take_bit (unat w) y \<noteq> 0" if "0 < y" using take_nonneg [OF xy(2) _ int(3)] that by simp
    show ?thesis
      using z i by (cases op)
        (auto simp: doc quot nz assigned_value_def rep_def int(1) step_on_bits take_signed [OF int(3)] take_bit_add
          take_bit_diff take_bit_mult split: if_splits)
  qed (use t in simp)
  show "wrap t z = z" using z wrap_idem [OF t(1)] by (auto simp: assigned_value_def)
qed

lemma plus_minus_step:
  assumes ar: "documented ar" and t: "scalar t"
  shows "binary_step ar I_Add (Some (rep t x)) (Some (rep t y)) = Some (rep t (wrap t (x + y)))"
    and "binary_step ar I_Sub (Some (rep t x)) (Some (rep t y)) = Some (rep t (wrap t (x - y)))"
  using documentedD(1) [OF ar width_pos [OF t], of x y, unfolded binary_documented_def]
  by (simp_all add: rep_wrap [OF t]) (simp_all add: rep_def step_on_bits take_bit_add take_bit_diff)

lemma cast_inst_step:
  assumes ar: "documented ar" and t: "scalar t" "scalar ty" "t \<noteq> ty" and x: "wrap t x = x" and y: "cast_value t ty x = Some y"
  shows "is_integer t \<Longrightarrow> is_integer ty \<Longrightarrow> cast_step Int_Cast (Some (rep t x)) (Some (width ty)) = Some (rep ty y)"
    and "is_integer t \<Longrightarrow> \<not> is_integer ty \<Longrightarrow>
      compare_step ar Int_SGT (Some (rep t x)) (Some (Int_Val (width t) 0)) = Some (rep ty y)"
    and "\<not> is_integer t \<Longrightarrow> is_integer ty \<and> cast_step Z_Ext (Some (rep t x)) (Some (width ty)) = Some (rep ty y)"
proof -
  show "cast_step Int_Cast (Some (rep t x)) (Some (width ty)) = Some (rep ty y)" if i: "is_integer t" "is_integer ty"
  proof -
    have "y = wrap ty x" using y t(3) i by (simp add: cast_value_def)
    moreover have "signed_bits (width t) (take_bit (width t) x) = x"
      using t(1) i x by (cases t rule: scalar_cases) (simp_all add: signed_take)
    ultimately show ?thesis by (simp add: rep_wrap [OF t(2)]) (simp add: cast_step_def rep_def)
  qed
  show "compare_step ar Int_SGT (Some (rep t x)) (Some (Int_Val (width t) 0)) = Some (rep ty y)"
    if i: "is_integer t" "\<not> is_integer ty"
  proof -
    have y': "y = of_bool (x > 0)" and ty: "ty = bool_type"
      using y t i by (auto simp: cast_value_def elim: scalar_cases)
    have "signed_bits (width t) (take_bit (width t) x) = x"
      using t(1) i x by (cases t rule: scalar_cases) (simp_all add: signed_take)
    moreover have "signed_bits (width t) 0 = 0" by (simp add: signed_bits_def)
    ultimately show ?thesis
      using documentedD(2) [OF ar width_pos [OF t(1)], of x 0, unfolded compare_documented_def]
      by (simp add: y' ty rep_bool) (simp add: rep_def step_on_bits)
  qed
  show "is_integer ty \<and> cast_step Z_Ext (Some (rep t x)) (Some (width ty)) = Some (rep ty y)" if "\<not> is_integer t"
  proof -
    have b: "t = bool_type" using t(1) that by (auto elim: scalar_cases)
    with t(2,3) have i: "is_integer ty" by (auto elim: scalar_cases)
    have y': "1 < width ty" "y = wrap ty x" using y t(3) that i by (auto simp: cast_value_def split: if_splits)
    have "x = 0 \<or> x = 1" using x by (intro bool_cases) (simp add: b bool_type_def)
    moreover have "take_bit (width ty) (1::int) = 1" using y'(1) by (simp add: take_bit_eq_mod)
    moreover have "rep ty y = rep ty x" by (simp add: y'(2) rep_wrap [OF t(2)])
    ultimately show ?thesis
      using y'(1) i by (auto simp: cast_step_def rep_def b bool_type_def)
  qed
qed

end
