(* ===== verification/Expr_Runs.thy ===== *)
theory Expr_Runs
  imports Elaboration Arith_Props
begin

section \<open>The calls made for an expression\<close>

text \<open>
  What a successful run of the code generator on a well-typed expression says: which calls it has
  made, in which order, and that the symbols have stayed as they were.
\<close>

subsection \<open>Runs\<close>

named_theorems cg_runs \<open>what a successful step of the code generator has done\<close>

lemma bind_runs [cg_runs]: "cbind m f s = Inr y \<longleftrightarrow> (\<exists>x t. m s = Inr (x, t) \<and> f x t = Inr y)"
  by (auto simp: cbind_def rbind_Inr_conv)

lemma seq_runs [cg_runs]: "cseq m k s = Inr y \<longleftrightarrow> (\<exists>x t. m s = Inr (x, t) \<and> k t = Inr y)"
  by (simp add: cseq_def bind_runs)

lemma ret_runs [cg_runs]: "cret x s = Inr (y, t) \<longleftrightarrow> y = x \<and> t = s"
  by (auto simp: cret_def)

lemma fail_runs [cg_runs]: "cfail e s \<noteq> Inr y" "derror msg s \<noteq> Inr y" "die msg s \<noteq> Inr y"
  by (simp_all add: cfail_def derror_def die_def)

lemma lift_runs [cg_runs]: "clift r s = Inr (x, t) \<longleftrightarrow> r = Inr x \<and> t = s"
  by (auto simp: clift_def rbind_Inr_conv)

lemma assert_runs [cg_runs]: "cassert b msg s = Inr (x, t) \<longleftrightarrow> b \<and> t = s"
  by (simp add: cassert_def cwhen_def ret_runs fail_runs)

definition add_call :: "call \<Rightarrow> cg_state \<Rightarrow> cg_state" where
  "add_call c s = s\<lparr>cg_calls := cg_calls s @ [c]\<rparr>"

lemma add_call_simps [simp]:
  "cg_calls (add_call c s) = cg_calls s @ [c]" "cg_contexts (add_call c s) = cg_contexts s"
  "cores (add_call c s) = cores s"
  by (simp_all add: add_call_def cores_def)

lemma llvm_runs [cg_runs]: "llvm c s = Inr (v, t) \<longleftrightarrow> v = Val (length (cg_calls s)) \<and> t = add_call c s"
  by (auto simp: llvm_def add_call_def)

lemma build_runs [cg_runs]:
  "build self c s = Inr (v, t) \<longleftrightarrow> cg_builder self \<and> v = Val (length (cg_calls s)) \<and> t = add_call c s"
  by (simp add: build_def llvm_runs fail_runs)

lemma exec_runs [cg_runs]: "exec self c s = Inr (u, t) \<longleftrightarrow> cg_builder self \<and> t = add_call c s"
  by (auto simp: exec_def bind_runs build_runs ret_runs)

lemma block_runs [cg_runs]:
  "append_block func name s = Inr (v, t) \<longleftrightarrow> v = Val (length (cg_calls s)) \<and> t = add_call (Append_Basic_Block func name) s"
  by (simp add: append_block_def llvm_runs)

lemma func_runs [cg_runs]:
  "current_func self s = Inr (v, t) \<longleftrightarrow> cg_builder self \<and> v = Val (Suc (length (cg_calls s))) \<and>
     t = add_call (Get_Basic_Block_Parent (Val (length (cg_calls s)))) (add_call Get_Insert_Block s)"
  by (auto simp: current_func_def bind_runs build_runs llvm_runs)

lemma inst_runs [cg_runs]:
  "build_inst self i a b s = Inr (v, t) \<longleftrightarrow> cg_builder self \<and> v = Val (length (cg_calls s)) \<and>
     t = add_call (case i of Inl op \<Rightarrow> Build_Binary op a b [] | Inr p \<Rightarrow> Build_Cmp p a b []) s"
  by (cases i) (simp_all add: build_inst_def build_runs)

subsection \<open>Types\<close>

definition bits :: "type_t \<Rightarrow> u32" where
  "bits t = (case type_kind t of Integer_Type w \<Rightarrow> w | _ \<Rightarrow> 1)"

lemma width_bits: "scalar t \<Longrightarrow> width t = unat (bits t)"
  by (cases t rule: scalar_cases) (simp_all add: bits_def bool_type_def)

lemma scalar_pointer [simp]: "scalar t \<Longrightarrow> type_pointer t = 0"
  by (cases t rule: scalar_cases) (simp_all add: bool_type_def)

lemma type_runs:
  assumes "scalar t" and "codegen_type n b t s = Inr (lt, s')"
  shows "s' = s \<and> lt = Ty_Int (bits t)"
  using assms by (cases n; cases t rule: scalar_cases)
    (auto simp: codegen_type_kind_def bits_def bool_type_def cg_runs)

lemma resolve_runs:
  assumes "scalar t" and "resolve_type_name n t s = Inr (t', s')"
  shows "s' = s \<and> t' = t"
  using assms by (cases n; cases t rule: scalar_cases) (auto simp: bool_type_def cg_runs)

lemma equal_scalar:
  assumes "scalar a" and "scalar b"
  shows "type_equal a b = Inr (a = b)"
  by (rule scalar_cases [OF assms(1)]; rule scalar_cases [OF assms(2)]) (auto simp: bool_type_def)

lemma plain_scalar: "plain F G e \<Longrightarrow> scalar (expr_type e)"
proof (induction G e rule: plain.induct)
  case (9 F G l t es)
  then show ?case by (cases es rule: rev_cases) auto
qed (auto simp: bool_type_def split: if_splits unary_op.splits)

lemma plain_settled: "plain F G e \<Longrightarrow> settled_type e = expr_type e"
proof (induction e rule: settled_type.induct)
  case (1 l t k)
  then show ?case by (cases k) auto
qed

lemma integer_conv: "is_integer t \<longleftrightarrow> (\<exists>w. type_kind t = Integer_Type w)"
  by (simp add: is_integer_def split: type_kind.split)

subsection \<open>Variables\<close>

definition cell :: "core \<Rightarrow> nat" where
  "cell c = (case c of (k, name, t, x) \<Rightarrow> (case x of Some (Val j) \<Rightarrow> j | _ \<Rightarrow> 0))"

definition cell_at :: "core list list \<Rightarrow> nat \<times> nat \<Rightarrow> nat" where
  "cell_at cos p = cell (cos ! fst p ! snd p)"

definition valid :: "env \<Rightarrow> nat \<times> nat \<Rightarrow> bool" where
  "valid env p \<longleftrightarrow> fst p < length env \<and> snd p < length (env ! fst p)"

lemma find_valid: "find_var env name = Some p \<Longrightarrow> valid env p"
  using find_var_less by (cases p) (auto simp: valid_def)

lemma matches_valid:
  assumes "matches F env cos" and "valid env p"
  shows "fst p < length cos" and "snd p < length (cos ! fst p)" and "var_symbol (var_at env p) (cos ! fst p ! snd p)"
proof -
  from assms(1) obtain xs ys where xs: "cos = xs @ ys" "list_all2 (list_all2 var_symbol) env xs"
    by (auto simp: matches_def)
  with assms(2) show "fst p < length cos" by (auto simp: valid_def dest: list_all2_lengthD)
  have "list_all2 var_symbol (env ! fst p) (cos ! fst p)"
    using xs assms(2) by (auto simp: valid_def list_all2_conv_all_nth nth_append)
  with assms(2) show "snd p < length (cos ! fst p)" "var_symbol (var_at env p) (cos ! fst p ! snd p)"
    by (auto simp: valid_def var_at_def list_all2_conv_all_nth)
qed

lemma symbol_core:
  assumes "fst p < length (cores s)" and "snd p < length (cores s ! fst p)"
  shows "core (symbol_at (cg_contexts s) p) = cores s ! fst p ! snd p"
  using assms by (simp add: cores_def symbol_at_def)

lemma find_symbol_runs:
  assumes m: "matches F env (cores s)" and f: "find_var env name = Some p"
  obtains sy where "find_symbol name s = Inr (Some sy, s)" and "cs_kind sy = Invalid_Symbol"
    and "cs_value sy = Some (Val (cell_at (cores s) p))" and "cs_type sy = Some (var_type (var_at env p))"
proof
  note v = matches_valid [OF m find_valid [OF f]]
  note c = symbol_core [OF v(1,2)]
  show "find_symbol name s = Inr (Some (symbol_at (cg_contexts s) p), s)"
    using matches_find(1) [OF m f] by (simp add: find_symbol_def cbind_def cget_def cret_def)
  obtain k nm ty x where co: "cores s ! fst p ! snd p = (k, nm, ty, x)" by (cases "cores s ! fst p ! snd p")
  show "cs_kind (symbol_at (cg_contexts s) p) = Invalid_Symbol"
    "cs_value (symbol_at (cg_contexts s) p) = Some (Val (cell_at (cores s) p))"
    "cs_type (symbol_at (cg_contexts s) p) = Some (var_type (var_at env p))"
    using v(3) c by (auto simp: co core_def cell_at_def cell_def)
qed

text \<open>The address of a variable.\<close>

lemma variable_runs:
  assumes "variable_of a = Some name" and "plain F (type_in env) a" and m: "matches F env (cores s)"
    and r: "codegen_expr n self True a s = Inr (lv, s')"
  obtains p where "find_var env name = Some p" and "lv = Val (cell_at (cores s) p)" and "s' = s"
    and "var_type (var_at env p) = expr_type a"
proof -
  obtain l t where a: "a = Expr l t (Ident_Expr name)" "name \<noteq> ''true''" "name \<noteq> ''false''"
    using assms(1) by (cases a) (auto simp: variable_of_def split: expr_kind.splits if_splits)
  from assms(2) obtain p where p: "find_var env name = Some p" "var_type (var_at env p) = t"
    by (auto simp: a type_in_def)
  obtain k where n: "n = Suc k" using r by (cases n) (auto simp: cg_runs)
  show thesis
    by (rule find_symbol_runs [OF m p(1)])
      (use r p that a in \<open>auto simp: n codegen_kind_def codegen_ident_expr_def bind_runs load_unless_def cg_runs\<close>)
qed

subsection \<open>Expressions\<close>

text \<open>Values that stay the same while later calls are run.\<close>

fun below :: "nat \<Rightarrow> lval \<Rightarrow> bool" where
  "below B (Val k) \<longleftrightarrow> k < B"
| "below B (Const_Null (Ty_Int w)) \<longleftrightarrow> True"
| "below B (Const_All_Ones (Ty_Int w)) \<longleftrightarrow> True"
| "below B (Const_Int (Ty_Int w) n) \<longleftrightarrow> True"
| "below B (Const_Int_Of_String (Ty_Int w) txt radix) \<longleftrightarrow> True"
| "below B v \<longleftrightarrow> False"

lemma operand_below:
  assumes "below B v" and "\<And>k. k < B \<Longrightarrow> regs' k = regs k"
  shows "operand ar regs' v = operand ar regs v"
  using assms by (cases "(B, v)" rule: below.cases) auto

lemma below_mono: "below B v \<Longrightarrow> B \<le> B' \<Longrightarrow> below B' v"
  by (cases "(B, v)" rule: below.cases) auto

lemma more_calls_add [simp]: "more_calls s (add_call c s)"
  by (simp add: more_calls_def)

lemma more_calls_length: "more_calls s t \<Longrightarrow> length (cg_calls s) \<le> length (cg_calls t)"
  by (auto simp: more_calls_def)

lemma expr_more_calls: "codegen_expr n self lv e s = Inr (v, s') \<Longrightarrow> more_calls s s'"
  using grows_expr [of n self lv e] unfolding grows_def by blast

subsection \<open>Kinds of expressions\<close>

lemma incdec_runs:
  assumes a: "variable_of a = Some name" "plain F (type_in env) a" and m: "matches F env (cores s)"
    and t: "t = expr_type a" "is_integer t"
    and run: "codegen_incdec_expr n self (codegen_expr n self) False (Expr l t k) a ord dir s = Inr (v, s')"
  obtains p where "find_var env name = Some p" and "var_type (var_at env p) = t"
    and "v = Val (length (cg_calls s) + (if ord = Order_Pre then 1 else 0))"
    and "s' = add_call (Build_Store (Val (Suc (length (cg_calls s)))) (Val (cell_at (cores s) p)))
      (add_call (Build_Binary (if dir = Dir_Inc then I_Add else I_Sub) (Val (length (cg_calls s))) (Const_Int (Ty_Int (bits t)) 1) [])
      (add_call (Build_Load (Val (cell_at (cores s) p)) []) s))"
proof -
  from run obtain lv u where lv: "codegen_expr n self True a s = Inr (lv, u)"
    by (auto simp: codegen_incdec_expr_def bind_runs)
  obtain p where p: "find_var env name = Some p" "lv = Val (cell_at (cores s) p)" "u = s" "var_type (var_at env p) = expr_type a"
    by (rule variable_runs [OF a m lv])
  from run obtain lt t1 where lt: "codegen_type n False t (add_call (Build_Load lv []) s) = Inr (lt, t1)"
    by (cases ord; cases dir) (auto simp: codegen_incdec_expr_def cg_runs lv p(3) split: if_splits)
  have "s' = add_call (Build_Store (Val (length (cg_calls t1))) lv) (add_call (Build_Binary (if dir = Dir_Inc then I_Add else I_Sub)
        (Val (length (cg_calls s))) (Const_Int lt 1) []) t1) \<and>
      v = (if ord = Order_Pre then Val (length (cg_calls t1)) else Val (length (cg_calls s)))"
    using run by (cases ord; cases dir) (auto simp: codegen_incdec_expr_def cg_runs lv p(3) lt split: if_splits)
  with type_runs [OF _ lt] plain_scalar [OF a(2)] p t show thesis using that by simp
qed

lemma unary_runs:
  assumes a: "plain F (type_in env) a" and op: "plain F (type_in env) (Expr l t (Unary_Expr a op))"
    and run: "codegen_unary_expr self gen False a op s = Inr (v, s')"
  obtains x u where "gen False a s = Inr (x, u)" and "op = Op_Positive" "v = x" "s' = u"
  | x u i where "gen False a s = Inr (x, u)" and "op \<noteq> Op_Positive" and "v = Val (length (cg_calls u))"
    and "s' = add_call (Build_Unary i x []) u" and "i = (if op = Op_Negative then I_Neg else I_Not)"
  using run op plain_settled [OF a] that
  by (cases op) (auto simp: codegen_unary_expr_def cg_runs integer_conv bool_type_def)

lemma binary_runs:
  assumes ab: "plain F (type_in env) a" "plain F (type_in env) b" "expr_type a = expr_type b"
    and run: "codegen_binary_expr self gen False a b op s = Inr (v, s')"
  obtains x u y w i where "gen False a s = Inr (x, u)" and "gen False b u = Inr (y, w)"
    and "(if is_integer (expr_type a) then integer_inst op else boolean_inst op) = Some i"
    and "v = Val (length (cg_calls w))"
    and "s' = add_call (case i of Inl op \<Rightarrow> Build_Binary op x y [] | Inr p \<Rightarrow> Build_Cmp p x y []) w"
proof -
  from plain_scalar [OF ab(1)] show thesis
  proof (cases rule: scalar_cases)
    case (int w)
    then show thesis using run that plain_settled [OF ab(1)] equal_scalar [OF plain_scalar [OF ab(1)] plain_scalar [OF ab(2)]] ab(3)
      by (auto simp: codegen_binary_expr_def cg_runs untyped_def split: option.splits)
  next
    case bool
    then show thesis using run that plain_settled [OF ab(1)] equal_scalar [OF plain_scalar [OF ab(1)] plain_scalar [OF ab(2)]] ab(3)
      by (auto simp: codegen_binary_expr_def cg_runs untyped_def bool_type_def is_integer_def split: option.splits)
  qed
qed

definition cast_call :: "type_t \<Rightarrow> type_t \<Rightarrow> lval \<Rightarrow> call" where
  "cast_call from_type ty x =
     (if is_integer from_type
      then if is_integer ty then Build_Cast Int_Cast x (Ty_Int (bits ty)) [] else Build_Cmp Int_SGT x (Const_Null (Ty_Of x)) []
      else Build_Cast Z_Ext x (Ty_Int (bits ty)) [])"

lemma cast_runs:
  assumes a: "plain F (type_in env) a" and ty: "scalar ty"
    and run: "codegen_cast_expr n self gen False a ty s = Inr (v, s')"
  obtains x u where "gen False a s = Inr (x, u)"
    and "if expr_type a = ty then v = x \<and> s' = u else v = Val (length (cg_calls u)) \<and> s' = add_call (cast_call (expr_type a) ty x) u"
proof -
  have st: "scalar (expr_type a)" by (rule plain_scalar [OF a])
  obtain x u d u1 f u2 g u3 b where x: "gen False a s = Inr (x, u)" and d: "codegen_type n False ty u = Inr (d, u1)"
    and f: "resolve_type_name n (expr_type a) u1 = Inr (f, u2)" and g: "resolve_type_name n ty u2 = Inr (g, u3)"
    and b: "type_equal f g = Inr b"
    using run by (auto simp: codegen_cast_expr_def cg_runs plain_settled [OF a])
  note facts = type_runs [OF ty d] resolve_runs [OF st f] resolve_runs [OF ty g]
  have "b \<longleftrightarrow> expr_type a = ty" using b facts equal_scalar [OF st ty] by simp
  with run x d f g b facts st ty show thesis
    by (auto simp: codegen_cast_expr_def cg_runs plain_settled [OF a] Let_def cast_call_def integer_conv bool_type_def
        elim!: scalar_cases intro: that split: if_splits)
qed

definition branch_calls :: "lval \<Rightarrow> cg_state \<Rightarrow> cg_state" where
  "branch_calls x u = (let k = length (cg_calls u); f = Val (Suc k) in
     add_call (Position_At_End (Val (k + 2))) (add_call (Build_Cond_Br x (Val (k + 2)) (Val (k + 3)))
     (add_call (Append_Basic_Block f ''ifexit'') (add_call (Append_Basic_Block f ''iffalse'')
     (add_call (Append_Basic_Block f ''iftrue'') (add_call (Get_Basic_Block_Parent (Val k)) (add_call Get_Insert_Block u)))))))"

definition join_calls :: "nat \<Rightarrow> lval \<Rightarrow> lval \<Rightarrow> type_t \<Rightarrow> cg_state \<Rightarrow> cg_state" where
  "join_calls k y z t r = (let p = length (cg_calls r) + 2 in
     add_call (Add_Incoming (Val p) [(y, Val (k + 2)), (z, Val (k + 3))]) (add_call (Build_Phi (Ty_Int (bits t)) [])
     (add_call (Position_At_End (Val (k + 4))) (add_call (Build_Br (Val (k + 4))) r))))"

lemma conditional_runs:
  assumes "scalar (settled_type a)"
    and run: "codegen_conditional_expr n self gen False c a b s = Inr (v, s')"
  obtains x u y w z r k where "gen False c s = Inr (x, u)" and "k = length (cg_calls u)"
    and "gen False a (branch_calls x u) = Inr (y, w)"
    and "gen False b (add_call (Position_At_End (Val (k + 3))) (add_call (Build_Br (Val (k + 4))) w)) = Inr (z, r)"
    and "v = Val (length (cg_calls r) + 2)" and "s' = join_calls k y z (settled_type a) r"
proof -
  from run obtain x u y w z r lt t where x: "gen False c s = Inr (x, u)"
    and y: "gen False a (branch_calls x u) = Inr (y, w)"
    and z: "gen False b (add_call (Position_At_End (Val (length (cg_calls u) + 3)))
      (add_call (Build_Br (Val (length (cg_calls u) + 4))) w)) = Inr (z, r)"
    and lt: "codegen_type n False (settled_type a) (add_call (Position_At_End (Val (length (cg_calls u) + 4)))
      (add_call (Build_Br (Val (length (cg_calls u) + 4))) r)) = Inr (lt, t)"
    and v: "v = Val (length (cg_calls t))"
    and s': "s' = add_call (Add_Incoming v [(y, Val (length (cg_calls u) + 2)), (z, Val (length (cg_calls u) + 3))])
      (add_call (Build_Phi lt []) t)"
    by (simp add: codegen_conditional_expr_def cg_runs branch_calls_def Let_def numeral_eq_Suc) blast
  note t = type_runs [OF assms(1) lt]
  show thesis by (rule that [OF x refl y z]) (simp_all add: v s' t join_calls_def Let_def numeral_eq_Suc)
qed

definition assign_inst :: "assignment_op \<Rightarrow> binary_inst" where
  "assign_inst op = (case op of Add_Assign \<Rightarrow> I_Add | Sub_Assign \<Rightarrow> I_Sub | Mul_Assign \<Rightarrow> I_Mul | _ \<Rightarrow> I_UDiv)"

lemma assignment_runs:
  assumes a: "variable_of a = Some name" "plain F (type_in env) a" and m: "matches F env (cores s)"
    and run: "codegen_assignment_expr self (codegen_expr n self) a b op s = Inr (v, s')"
  obtains p u where "find_var env name = Some p" and "var_type (var_at env p) = expr_type a"
    and "codegen_expr n self False b s = Inr (v, u)"
    and "s' = (if op = Assign then add_call (Build_Store v (Val (cell_at (cores s) p))) u
      else add_call (Build_Store (Val (Suc (length (cg_calls u)))) (Val (cell_at (cores s) p)))
        (add_call (Build_Binary (assign_inst op) (Val (length (cg_calls u))) v [])
        (add_call (Build_Load (Val (cell_at (cores s) p)) []) u)))"
proof -
  from run obtain lv u where lv: "codegen_expr n self True a s = Inr (lv, u)"
    by (auto simp: codegen_assignment_expr_def bind_runs)
  obtain p where p: "find_var env name = Some p" "lv = Val (cell_at (cores s) p)" "u = s" "var_type (var_at env p) = expr_type a"
    by (rule variable_runs [OF a m lv])
  from run lv obtain u where u: "codegen_expr n self False b s = Inr (v, u)"
    by (auto simp: codegen_assignment_expr_def cg_runs p(3))
  show thesis
    by (rule that [OF p(1,4) u], use run in \<open>cases op\<close>)
      (auto simp: codegen_assignment_expr_def cg_runs lv [unfolded p(2,3)] u assign_inst_def)
qed

lemma type_in_none: "type_in env name = None \<longleftrightarrow> find_var env name = None"
  by (simp add: type_in_def)

lemma call_runs:
  assumes m: "matches F env (cores s)" and pl: "plain F (type_in env) (Expr l t (Call_Expr f args))"
    and run: "codegen_call_expr n self gen False f args s = Inr (v, s')"
  obtains name vs u where "function_of f = Some name" and "map_of (fn_sigs F) name = Some (t, map expr_type args)"
    and "cmap (gen False) args s = Inr (vs, u)" and "v = Val (length (cg_calls u))"
    and "s' = add_call (Build_Call (Val (fn_address F name)) vs []) u"
proof -
  from pl obtain name where f: "expr_kind f = Ident_Expr name" "function_of f = Some name" and G: "find_var env name = None"
    and sg: "map_of (fn_sigs F) name = Some (t, map expr_type args)"
    by (auto simp: signature_def function_of_def type_in_none bind_eq_Some_conv split: expr_kind.splits)
  obtain sy where sy: "find_symbol name s = Inr (Some sy, s)" "core sy = fun_core F name (t, map expr_type args)"
    by (rule matches_fun [OF m G sg])
  then have "cs_kind sy = Func_Symbol" "cs_type sy = Some (Type 0 (Func_Type t (map expr_type args)))"
    "cs_value sy = Some (Val (fn_address F name))" by (simp_all add: core_def fun_core_def)
  with run f sy(1) that [OF f(2) sg] show thesis
    by (auto simp: codegen_call_expr_def function_call_def type_ptr_def value_ptr_def cg_runs)
qed

subsection \<open>Symbols\<close>

text \<open>The code for a well-typed expression changes no contexts.\<close>

definition stays :: "cg_state \<Rightarrow> lval \<Rightarrow> cg_state \<Rightarrow> bool" where
  "stays s v s' \<longleftrightarrow> cg_contexts s' = cg_contexts s \<and> below (length (cg_calls s')) v"

lemma stays_cores:
  assumes "stays s v s'"
  shows "cores s' = cores s" and "flags s' = flags s" and "below (length (cg_calls s')) v"
  using assms by (simp_all add: stays_def cores_def flags_def)

lemma cmap_stays:
  assumes "\<And>e s v s'. e \<in> set es \<Longrightarrow> matches F env (cores s) \<Longrightarrow> f e s = Inr (v, s') \<Longrightarrow> stays s v s' \<and> more_calls s s'"
    and "matches F env (cores s)" and "cmap f es s = Inr (vs, s')"
  shows "cg_contexts s' = cg_contexts s \<and> list_all (below (length (cg_calls s'))) vs \<and> length vs = length es \<and> more_calls s s'"
  using assms
proof (induction es arbitrary: s vs)
  case (Cons e es)
  from Cons.prems(3) obtain v t vs' where e: "f e s = Inr (v, t)" "cmap f es t = Inr (vs', s')" "vs = v # vs'"
    by (auto simp: bind_runs ret_runs)
  have t: "stays s v t" "more_calls s t" using Cons.prems(1) [OF _ Cons.prems(2) e(1)] by simp_all
  have "cg_contexts s' = cg_contexts t \<and> list_all (below (length (cg_calls s'))) vs' \<and> length vs' = length es \<and> more_calls t s'"
    by (rule Cons.IH [OF Cons.prems(1) _ e(2)]) (use stays_cores [OF t(1)] Cons.prems(2) in auto)
  then show ?case using t more_calls_length [of t s'] below_mono [of "length (cg_calls t)" v] more_calls_trans
    by (auto simp: e(3) stays_def)
qed (simp add: ret_runs)

lemma plain_stays:
  "plain F (type_in env) e \<Longrightarrow> matches F env (cores s) \<Longrightarrow> codegen_expr n self False e s = Inr (v, s') \<Longrightarrow> stays s v s'"
proof (induction n arbitrary: e s v s')
  case 0
  then show ?case by (simp add: cg_runs)
next
  case (Suc n)
  obtain l t k where e: "e = Expr l t k" by (cases e)
  note run = Suc.prems(3) [unfolded e, simplified, unfolded codegen_kind_def, simplified]
  have IH: "stays s v s'" if "plain F (type_in env) a" "matches F env (cores s)" "codegen_expr n self False a s = Inr (v, s')"
    for a s v s' using that by (rule Suc.IH)
  show ?case
  proof (cases k)
    case (Ident_Expr name)
    show ?thesis
    proof (cases "name = ''true'' \<or> name = ''false''")
      case True
      then show ?thesis using run by (auto simp: Ident_Expr codegen_ident_expr_def ret_runs stays_def)
    next
      case False
      then obtain p where p: "find_var env name = Some p" using Suc.prems(1) by (auto simp: e Ident_Expr type_in_def)
      show ?thesis
        by (rule find_symbol_runs [OF Suc.prems(2) p])
          (use run False in \<open>auto simp: Ident_Expr codegen_ident_expr_def bind_runs load_unless_def build_runs stays_def\<close>)
    qed
  next
    case (Number_Literal_Expr s r)
    then show ?thesis using run Suc.prems(1)
      by (auto simp: e codegen_number_literal_expr_def cg_runs stays_def is_integer_def dest!: type_runs split: type_kind.splits)
  next
    case (Incdec_Expr a ord dir)
    then obtain name where a: "variable_of a = Some name" "plain F (type_in env) a" "t = expr_type a" "scalar t"
      using Suc.prems(1) plain_scalar by (auto simp: e)
    show ?thesis
      by (rule incdec_runs [OF a(1,2) Suc.prems(2) a(3)]) (use run Suc.prems(1) in \<open>auto simp: e Incdec_Expr stays_def\<close>)
  next
    case (Unary_Expr a op)
    then have a: "plain F (type_in env) a" using Suc.prems(1) by (simp add: e)
    show ?thesis
      by (rule unary_runs [OF a, of l t op self "codegen_expr n self" s v s'])
        (use run Suc.prems(1,2) IH [OF a] in \<open>auto simp: e Unary_Expr stays_def\<close>)
  next
    case (Cast_Expr a ty)
    then have a: "plain F (type_in env) a" "scalar ty" using Suc.prems(1) by (auto simp: e)
    show ?thesis
      by (rule cast_runs [OF a, of n self "codegen_expr n self" s v s'])
        (use run Suc.prems(2) IH [OF a(1)] in \<open>auto simp: Cast_Expr stays_def split: if_splits\<close>)
  next
    case (Binary_Expr a b op)
    then have ab: "plain F (type_in env) a" "plain F (type_in env) b" "expr_type a = expr_type b" using Suc.prems(1) by (auto simp: e)
    show ?thesis
    proof (rule binary_runs [OF ab, of self "codegen_expr n self" op s v s'])
      fix x u y w i
      assume x: "codegen_expr n self False a s = Inr (x, u)" and y: "codegen_expr n self False b u = Inr (y, w)"
        and v: "v = Val (length (cg_calls w))"
          "s' = add_call (case i of Inl op \<Rightarrow> Build_Binary op x y [] | Inr p \<Rightarrow> Build_Cmp p x y []) w"
      have "cg_contexts u = cg_contexts s" using IH [OF ab(1) Suc.prems(2) x] by (simp add: stays_def)
      moreover have "cg_contexts w = cg_contexts u"
        using IH [OF ab(2) _ y] Suc.prems(2) calculation by (simp add: stays_def cores_def)
      ultimately show ?thesis by (simp add: v stays_def)
    qed (use run in \<open>simp add: Binary_Expr\<close>)
  next
    case (Conditional_Expr c a b)
    then have ab: "plain F (type_in env) c" "plain F (type_in env) a" "plain F (type_in env) b" "scalar (settled_type a)"
      using Suc.prems(1) plain_scalar plain_settled by (auto simp: e)
    show ?thesis
    proof (rule conditional_runs [OF ab(4), of n self "codegen_expr n self" c b s v s'])
      fix x u y w z r k
      assume x: "codegen_expr n self False c s = Inr (x, u)" and y: "codegen_expr n self False a (branch_calls x u) = Inr (y, w)"
        and z: "codegen_expr n self False b (add_call (Position_At_End (Val (k + 3))) (add_call (Build_Br (Val (k + 4))) w)) = Inr (z, r)"
        and v: "v = Val (length (cg_calls r) + 2)" "s' = join_calls k y z (settled_type a) r"
      have u: "cg_contexts u = cg_contexts s" using IH [OF ab(1) Suc.prems(2) x] by (simp add: stays_def)
      then have w: "cg_contexts w = cg_contexts s"
        using IH [OF ab(2) _ y] Suc.prems(2) by (simp add: stays_def branch_calls_def Let_def cores_def)
      then have "cg_contexts r = cg_contexts s" using IH [OF ab(3) _ z] Suc.prems(2) by (simp add: stays_def cores_def)
      then show ?thesis by (simp add: v stays_def join_calls_def Let_def)
    qed (use run in \<open>simp add: Conditional_Expr\<close>)
  next
    case (Assignment_Expr a b op)
    then obtain name where a: "variable_of a = Some name" "plain F (type_in env) a" "plain F (type_in env) b"
      using Suc.prems(1) by (auto simp: e)
    show ?thesis
    proof (rule assignment_runs [OF a(1,2) Suc.prems(2), of self n b op v s'])
      fix p u
      assume b: "codegen_expr n self False b s = Inr (v, u)"
        and s': "s' = (if op = Assign then add_call (Build_Store v (Val (cell_at (cores s) p))) u
      else add_call (Build_Store (Val (Suc (length (cg_calls u)))) (Val (cell_at (cores s) p)))
        (add_call (Build_Binary (assign_inst op) (Val (length (cg_calls u))) v [])
        (add_call (Build_Load (Val (cell_at (cores s) p)) []) u)))"
      from IH [OF a(3) Suc.prems(2) b] show ?thesis
        unfolding stays_def s' by (auto elim: below_mono)
    qed (use run in \<open>simp add: Assignment_Expr\<close>)
  next
    case (Comma_Expr es)
    then have es: "es \<noteq> []" "\<And>a. a \<in> set es \<Longrightarrow> plain F (type_in env) a"
      using Suc.prems(1) by (auto simp: e list_all_iff)
    have "stays s (last vs) u" if run: "cmap (codegen_expr n self False) es s = Inr (vs, u)" for vs u
    proof -
      from cmap_stays [OF _ Suc.prems(2) run] IH es(2) expr_more_calls
      have "cg_contexts u = cg_contexts s \<and> list_all (below (length (cg_calls u))) vs \<and> length vs = length es" by blast
      with es(1) show ?thesis by (cases vs rule: rev_cases) (auto simp: stays_def)
    qed
    with run show ?thesis by (auto simp: Comma_Expr codegen_comma_expr_def cg_runs split: if_splits)
  next
    case (Call_Expr f args)
    show ?thesis
    proof (rule call_runs [OF Suc.prems(2)])
      show "plain F (type_in env) (Expr l t (Call_Expr f args))" using Suc.prems(1) by (simp only: e Call_Expr)
      then have args: "plain F (type_in env) a" if "a \<in> set args" for a using that by (simp add: list_all_iff)
      fix name vs u
      assume r: "cmap (codegen_expr n self False) args s = Inr (vs, u)" and v: "v = Val (length (cg_calls u))"
        "s' = add_call (Build_Call (Val (fn_address F name)) vs []) u"
      from cmap_stays [OF _ Suc.prems(2) r] IH args expr_more_calls have "cg_contexts u = cg_contexts s" by blast
      then show ?thesis by (simp add: v stays_def)
    qed (use run in \<open>simp add: Call_Expr\<close>)
  qed (use Suc.prems(1) in \<open>simp_all add: e\<close>)
qed

end
