(* ===== verification/Expr_Correct.thy ===== *)
theory Expr_Correct
  imports Expr_Runs
begin

section \<open>The code of an expression computes its value\<close>

subsection \<open>The shape of an environment\<close>

definition shape :: "env \<Rightarrow> (string option \<times> type_t) list list" where
  "shape env = map (map (\<lambda>v. (var_name v, var_type v))) env"

lemma var_index_shape:
  "map (\<lambda>v. (var_name v, var_type v)) vs' = map (\<lambda>v. (var_name v, var_type v)) vs \<Longrightarrow> var_index vs' name = var_index vs name"
proof (induction vs arbitrary: vs')
  case (Cons v vs)
  then obtain v' ws where "vs' = v' # ws" by (cases vs') auto
  with Cons.prems Cons.IH [of ws] show ?case by simp
qed simp

lemma find_var_shape: "shape env' = shape env \<Longrightarrow> find_var env' name = find_var env name"
proof (induction env arbitrary: env')
  case (Cons vs env)
  then obtain vs' e where e: "env' = vs' # e" "shape e = shape env"
    "map (\<lambda>v. (var_name v, var_type v)) vs' = map (\<lambda>v. (var_name v, var_type v)) vs"
    by (cases env') (auto simp: shape_def)
  show ?case using Cons.IH [OF e(2)] var_index_shape [OF e(3)] by (simp add: e(1) split: option.split)
qed (simp add: shape_def)

lemma shape_nth:
  assumes "shape env' = shape env"
  shows "length env' = length env" and "d < length env \<Longrightarrow> length (env' ! d) = length (env ! d)"
    and "valid env p \<Longrightarrow> var_name (var_at env' p) = var_name (var_at env p) \<and> var_type (var_at env' p) = var_type (var_at env p)"
proof -
  show l: "length env' = length env" using assms unfolding shape_def by (metis length_map)
  have d: "map (\<lambda>v. (var_name v, var_type v)) (env' ! d) = map (\<lambda>v. (var_name v, var_type v)) (env ! d)" if "d < length env" for d
  proof -
    have "shape env' ! d = shape env ! d" using assms by simp
    with that l show ?thesis by (simp add: shape_def)
  qed
  then show "d < length env \<Longrightarrow> length (env' ! d) = length (env ! d)" by (metis length_map)
  assume v: "valid env p"
  then have "snd p < length (env' ! fst p)" using d [of "fst p"] by (metis length_map valid_def)
  moreover have "map (\<lambda>v. (var_name v, var_type v)) (env' ! fst p) ! snd p = map (\<lambda>v. (var_name v, var_type v)) (env ! fst p) ! snd p"
    using v d [of "fst p"] by (simp add: valid_def)
  ultimately show "var_name (var_at env' p) = var_name (var_at env p) \<and> var_type (var_at env' p) = var_type (var_at env p)"
    using v by (simp add: valid_def var_at_def)
qed

lemma valid_shape: "shape env' = shape env \<Longrightarrow> valid env' p = valid env p"
  using shape_nth(1,2) [of env' env] by (auto simp: valid_def)

lemma type_in_shape:
  assumes "shape env' = shape env"
  shows "type_in env' = type_in env"
proof
  fix name
  show "type_in env' name = type_in env name"
    using find_var_shape [OF assms, of name] shape_nth(3) [OF assms] find_valid [of env name]
    by (cases "find_var env name") (simp_all add: type_in_def)
qed

lemma shape_set_at: "valid env p \<Longrightarrow> shape (set_at env p x) = shape env"
  by (auto simp: shape_def set_at_def var_at_def intro!: map_update_same)

lemma shape_set_var [simp]: "shape (set_var env name x) = shape env"
  by (auto simp: set_var_def shape_set_at find_valid split: option.split)

lemma eval_shape:
  "eval F e env = Some (x, env') \<Longrightarrow> shape env' = shape env"
  "eval_all F es env = Some (x, env') \<Longrightarrow> shape env' = shape env"
  "eval_args F es env = Some (xs, env') \<Longrightarrow> shape env' = shape env"
  by (induction F e env and F es env and F es env arbitrary: x env' and x env' and xs env' rule: eval_eval_all_eval_args.induct)
    (auto simp: bind_eq_Some_conv Let_def split: if_splits)

lemma matches_shape: "shape env' = shape env \<Longrightarrow> matches F env cos \<Longrightarrow> matches F env' cos"
proof -
  assume s: "shape env' = shape env" and "matches F env cos"
  then obtain xs ys where xs: "cos = xs @ ys" "list_all2 (list_all2 var_symbol) env xs" "knows F ys"
    by (auto simp: matches_def)
  have "var_symbol (env' ! d ! i) c" if "d < length env" "i < length (env ! d)" "var_symbol (env ! d ! i) c" for d i c
    using shape_nth(3) [OF s, of "(d, i)"] that by (cases c) (auto simp: valid_def var_at_def)
  with xs(2) have "list_all2 (list_all2 var_symbol) env' xs"
    using shape_nth(1,2) [OF s] by (auto simp: list_all2_conv_all_nth)
  with xs(1,3) show "matches F env' cos" unfolding matches_def by blast
qed

subsection \<open>Variables in memory\<close>

definition holds :: "machine \<Rightarrow> nat \<Rightarrow> var \<Rightarrow> bool" where
  "holds m j v \<longleftrightarrow> m_regs m j = Some (Ptr_Val j) \<and>
     (\<forall>x. var_value v = Some x \<longrightarrow> m_mem m j = Some (rep (var_type v) x) \<and> wrap (var_type v) x = x)"

text \<open>
  Every variable in scope has a cell of its own, allocated by a call before \<open>B\<close>, that holds
  its value.
\<close>

definition env_rel :: "funs \<Rightarrow> nat \<Rightarrow> core list list \<Rightarrow> env \<Rightarrow> machine \<Rightarrow> bool" where
  "env_rel F B cos env m \<longleftrightarrow> matches F env cos \<and>
     (\<forall>p. valid env p \<longrightarrow> cell_at cos p < B \<and> holds m (cell_at cos p) (var_at env p)) \<and>
     (\<forall>p q. valid env p \<longrightarrow> valid env q \<longrightarrow> cell_at cos p = cell_at cos q \<longrightarrow> p = q)"

lemma env_frame:
  assumes "env_rel F B cos env m" and "B \<le> B'"
    and "\<And>k. k < B \<Longrightarrow> m_regs m' k = m_regs m k" and "\<And>k. k < B \<Longrightarrow> m_mem m' k = m_mem m k"
  shows "env_rel F B' cos env m'"
  using assms unfolding env_rel_def holds_def by (metis order_less_le_trans)

lemma env_get:
  assumes "env_rel F B cos env m" and "find_var env name = Some p"
  shows "m_regs m (cell_at cos p) = Some (Ptr_Val (cell_at cos p))" and "cell_at cos p < B"
    and "get_var env name = Some x \<Longrightarrow> m_mem m (cell_at cos p) = Some (rep (var_type (var_at env p)) x) \<and>
      wrap (var_type (var_at env p)) x = x"
proof -
  from assms(1) find_valid [OF assms(2)] have "cell_at cos p < B \<and> holds m (cell_at cos p) (var_at env p)"
    unfolding env_rel_def by blast
  then show "m_regs m (cell_at cos p) = Some (Ptr_Val (cell_at cos p))" "cell_at cos p < B"
    "get_var env name = Some x \<Longrightarrow> m_mem m (cell_at cos p) = Some (rep (var_type (var_at env p)) x) \<and>
      wrap (var_type (var_at env p)) x = x"
    using assms(2) by (simp_all add: holds_def get_var_def)
qed

lemma var_at_set_at:
  "valid env p \<Longrightarrow> valid env q \<Longrightarrow> var_at (set_at env p x) q =
    (if q = p then Var (var_name (var_at env p)) (var_type (var_at env p)) (Some x) else var_at env q)"
  by (cases p; cases q) (auto simp: set_at_def var_at_def valid_def nth_list_update)

lemma env_set_at:
  assumes r: "env_rel F B cos env m" and p: "valid env p" and x: "wrap (var_type (var_at env p)) x = x"
    and m': "m_regs m' = m_regs m" "m_mem m' = (m_mem m)(cell_at cos p := Some (rep (var_type (var_at env p)) x))"
  shows "env_rel F B cos (set_at env p x) m'"
proof -
  note sh = shape_set_at [OF p, of x]
  have "holds m' (cell_at cos q) (var_at (set_at env p x) q)" if "valid env q" for q
  proof (cases "q = p")
    case True
    have "holds m (cell_at cos p) (var_at env p)" using r p unfolding env_rel_def by blast
    with True show ?thesis using x m' var_at_set_at [OF p p, of x] by (simp add: holds_def)
  next
    case False
    with r p that have "cell_at cos q \<noteq> cell_at cos p" "holds m (cell_at cos q) (var_at env q)"
      unfolding env_rel_def by blast+
    then show ?thesis using False m' var_at_set_at [OF p that, of x] by (simp add: holds_def)
  qed
  with r show ?thesis
    using matches_shape [OF sh] valid_shape [OF sh] unfolding env_rel_def by blast
qed

lemma env_set:
  assumes "env_rel F B cos env m" and "find_var env name = Some p" and "wrap (var_type (var_at env p)) x = x"
    and "m_regs m' = m_regs m" "m_mem m' = (m_mem m)(cell_at cos p := Some (rep (var_type (var_at env p)) x))"
  shows "env_rel F B cos (set_var env name x) m'"
  using env_set_at [OF assms(1) find_valid [OF assms(2)] assms(3-5)] assms(2) by (simp add: set_var_def)

subsection \<open>Steps\<close>

definition code_in :: "call list \<Rightarrow> cg_state \<Rightarrow> bool" where
  "code_in cs s \<longleftrightarrow> (\<exists>r. cs = cg_calls s @ r)"

lemma code_before: "code_in cs s' \<Longrightarrow> more_calls s s' \<Longrightarrow> code_in cs s"
  by (auto simp: code_in_def more_calls_def)

lemma code_add: "code_in cs (add_call c s) \<Longrightarrow> code_in cs s"
  by (erule code_before) simp

lemma code_at: "code_in cs (add_call c s) \<Longrightarrow> length (cg_calls s) < length cs \<and> cs ! length (cg_calls s) = c"
  by (auto simp: code_in_def nth_append)

lemma runs_refl [simp]: "runs ar cs ps m m"
  by (simp add: runs_def)

lemma runs_trans: "runs ar cs ps m m' \<Longrightarrow> runs ar cs ps m' m'' \<Longrightarrow> runs ar cs ps m m''"
  unfolding runs_def by (rule rtranclp_trans)

lemma runs_step: "mstep ar cs ps m = Some m' \<Longrightarrow> runs ar cs ps m' m'' \<Longrightarrow> runs ar cs ps m m''"
  unfolding runs_def by (rule converse_rtranclp_into_rtranclp)

lemma runs_one: "mstep ar cs ps m = Some m' \<Longrightarrow> runs ar cs ps m m'"
  by (erule runs_step) simp

lemma put_simps [simp]:
  "m_pc (put v m) = Suc (m_pc m)" "m_block (put v m) = m_block m" "m_mem (put v m) = m_mem m"
  "m_regs (put v m) = (m_regs m)(m_pc m := Some v)" "m_from (put v m) = m_from m"
  "m_pc (next_call m) = Suc (m_pc m)" "m_block (next_call m) = m_block m" "m_mem (next_call m) = m_mem m"
  "m_regs (next_call m) = m_regs m" "m_from (next_call m) = m_from m"
  by (simp_all add: put_def next_call_def)

text \<open>A step that computes a value.\<close>

lemma step_value:
  assumes "code_in cs (add_call c s)" and "m_pc m = length (cg_calls s)"
    and "(\<exists>p nm k. c = Build_Load p nm \<and> operand ar (m_regs m) p = Some (Ptr_Val k) \<and> m_mem m k = Some v) \<or>
      (\<exists>i a b nm. c = Build_Binary i a b nm \<and> binary_step ar i (operand ar (m_regs m) a) (operand ar (m_regs m) b) = Some v) \<or>
      (\<exists>i a b nm. c = Build_Cmp i a b nm \<and> compare_step ar i (operand ar (m_regs m) a) (operand ar (m_regs m) b) = Some v) \<or>
      (\<exists>i a nm. c = Build_Unary i a nm \<and> unary_step ar i (operand ar (m_regs m) a) = Some v) \<or>
      (\<exists>i a t nm. c = Build_Cast i a t nm \<and> cast_step i (operand ar (m_regs m) a) (width_in ar (m_regs m) t) = Some v)"
  shows "mstep ar cs ps m = Some (put v m)"
  using assms code_at [OF assms(1)] by (auto simp: mstep_def Let_def)

lemma step_store:
  assumes "code_in cs (add_call (Build_Store v p) s)" and "m_pc m = length (cg_calls s)"
    and "operand ar (m_regs m) v = Some x" and "operand ar (m_regs m) p = Some (Ptr_Val k)"
  shows "mstep ar cs ps m = Some ((next_call m)\<lparr>m_mem := (m_mem m)(k := Some x)\<rparr>)"
  using assms code_at [OF assms(1)] by (simp add: mstep_def)

lemma step_next:
  assumes "code_in cs (add_call c s)" and "m_pc m = length (cg_calls s)"
    and "c = Get_Insert_Block \<or> (\<exists>b. c = Get_Basic_Block_Parent b) \<or> (\<exists>f nm. c = Append_Basic_Block f nm) \<or>
      (\<exists>w inc. c = Add_Incoming w inc) \<or> (\<exists>w nm. c = Set_Value_Name w nm)"
  shows "mstep ar cs ps m = Some (next_call m)"
  using assms code_at [OF assms(1)] by (auto simp: mstep_def)

subsection \<open>Branches\<close>

lemma label_from_found:
  "(\<And>q. q < p \<Longrightarrow> cs ! q \<noteq> Position_At_End b) \<Longrightarrow> p < length cs \<Longrightarrow> cs ! p = Position_At_End b \<Longrightarrow>
   label_from i cs b = Some (i + p)"
proof (induction cs arbitrary: i p)
  case (Cons c cs)
  show ?case
  proof (cases p)
    case 0
    then show ?thesis using Cons.prems(3) by simp
  next
    case (Suc p')
    have "c \<noteq> Position_At_End b" using Cons.prems(1) [of 0] Suc by simp
    moreover have "label_from (Suc i) cs b = Some (Suc i + p')"
    proof (rule Cons.IH)
      show "cs ! q \<noteq> Position_At_End b" if "q < p'" for q using Cons.prems(1) [of "Suc q"] Suc that by simp
    qed (use Cons.prems(2,3) Suc in simp_all)
    ultimately show ?thesis by (simp add: Suc)
  qed
qed simp

lemma label_found:
  assumes "entered_once cs" and "code_in cs (add_call (Position_At_End b) s)"
  shows "label_of cs b = Some (length (cg_calls s))"
proof -
  note at = code_at [OF assms(2)]
  have "cs ! q \<noteq> Position_At_End b" if "q < length (cg_calls s)" for q
    using assms(1) at that unfolding entered_once_def by (metis less_irrefl order_less_trans)
  with at show ?thesis using label_from_found [of "length (cg_calls s)" cs b 0] by (simp add: label_of_def)
qed

definition at_block :: "nat \<Rightarrow> lval \<Rightarrow> machine \<Rightarrow> machine" where
  "at_block p b m = m\<lparr>m_pc := Suc p, m_from := Some (m_block m), m_block := b\<rparr>"

lemma at_block_simps [simp]:
  "m_pc (at_block p b m) = Suc p" "m_block (at_block p b m) = b" "m_from (at_block p b m) = Some (m_block m)"
  "m_regs (at_block p b m) = m_regs m" "m_mem (at_block p b m) = m_mem m"
  by (simp_all add: at_block_def)

lemma jump_block: "label_of cs b = Some p \<Longrightarrow> jump cs b m = Some (at_block p b m)"
  by (simp add: jump_def at_block_def)

lemma step_br:
  assumes "code_in cs (add_call (Build_Br b) s)" and "m_pc m = length (cg_calls s)" and "label_of cs b = Some p"
  shows "mstep ar cs ps m = Some (at_block p b m)"
  using assms code_at [OF assms(1)] by (simp add: mstep_def jump_block)

lemma step_cond_br:
  assumes "code_in cs (add_call (Build_Cond_Br c t e) s)" and "m_pc m = length (cg_calls s)"
    and "operand ar (m_regs m) c = Some (Int_Val w x)" and "label_of cs (if x \<noteq> 0 then t else e) = Some p"
  shows "mstep ar cs ps m = Some (at_block p (if x \<noteq> 0 then t else e) m)"
  using assms code_at [OF assms(1)] by (simp add: mstep_def jump_block)

end
