(* ===== verification/Expr_Values.thy ===== *)
theory Expr_Values
  imports Expr_Correct
begin

section \<open>Running the code of an expression\<close>

subsection \<open>Reaching the end of a piece of code\<close>

text \<open>
  The machine \<open>m\<close>, at the end of the code of \<open>s\<close>, runs to the machine \<open>m'\<close> at the end of the code of
  \<open>s'\<close>, where the variables are as in \<open>env\<close>; results of earlier calls are kept, and so is the block if
  \<open>b\<close>.
\<close>

definition reached ::
    "funs \<Rightarrow> arith \<Rightarrow> call list \<Rightarrow> mval list \<Rightarrow> cg_state \<Rightarrow> cg_state \<Rightarrow> env \<Rightarrow> bool \<Rightarrow> machine \<Rightarrow> machine \<Rightarrow> bool" where
  "reached F ar cs ps s s' env b m m' \<longleftrightarrow> runs ar cs ps m m' \<and> m_pc m' = length (cg_calls s') \<and>
     env_rel F (length (cg_calls s')) (cores s') env m' \<and> length (cg_calls s) \<le> length (cg_calls s') \<and>
     (\<forall>k < length (cg_calls s). m_regs m' k = m_regs m k) \<and> (b \<longrightarrow> m_block m' = m_block m)"

lemma reached_refl:
  "m_pc m = length (cg_calls s) \<Longrightarrow> env_rel F (length (cg_calls s)) (cores s) env m \<Longrightarrow> reached F ar cs ps s s env b m m"
  by (simp add: reached_def)

lemma reached_trans:
  "reached F ar cs ps s u env1 b m m1 \<Longrightarrow> reached F ar cs ps u s' env2 b m1 m2 \<Longrightarrow> reached F ar cs ps s s' env2 b m m2"
  unfolding reached_def by (auto intro: runs_trans)

lemma reached_weaken: "reached F ar cs ps s s' env b m m' \<Longrightarrow> (b' \<Longrightarrow> b) \<Longrightarrow> reached F ar cs ps s s' env b' m m'"
  by (auto simp: reached_def)

lemma reachedD:
  assumes "reached F ar cs ps s s' env b m m'"
  shows "m_pc m' = length (cg_calls s')" and "env_rel F (length (cg_calls s')) (cores s') env m'"
    and "matches F env (cores s')" and "below (length (cg_calls s)) v \<Longrightarrow> operand ar (m_regs m') v = operand ar (m_regs m) v"
  using assms operand_below [of "length (cg_calls s)" v "m_regs m'" "m_regs m" ar] by (auto simp: reached_def env_rel_def)

lemma runs_snoc: "runs ar cs ps m m' \<Longrightarrow> mstep ar cs ps m' = Some m'' \<Longrightarrow> runs ar cs ps m m''"
  by (rule runs_trans [OF _ runs_one])

lemma reached_put:
  assumes "reached F ar cs ps s u env b m m1" and "mstep ar cs ps m1 = Some (put w m1)"
  shows "reached F ar cs ps s (add_call c u) env b m (put w m1)"
  using assms env_frame [of F "length (cg_calls u)" "cores u" env m1 "Suc (length (cg_calls u))" "put w m1"]
  by (auto simp: reached_def intro: runs_snoc)

lemma reached_next:
  assumes "reached F ar cs ps s u env b m m1" and "mstep ar cs ps m1 = Some (next_call m1)"
  shows "reached F ar cs ps s (add_call c u) env b m (next_call m1)"
  using assms env_frame [of F "length (cg_calls u)" "cores u" env m1 "Suc (length (cg_calls u))" "next_call m1"]
  by (auto simp: reached_def intro: runs_snoc)

lemma reached_store:
  assumes r: "reached F ar cs ps s u env b m m1" and p: "find_var env name = Some p"
    and t: "var_type (var_at env p) = t" "wrap t x = x"
    and st: "mstep ar cs ps m1 = Some ((next_call m1)\<lparr>m_mem := (m_mem m1)(cell_at (cores u) p := Some (rep t x))\<rparr>)"
  shows "\<exists>m2. reached F ar cs ps s (add_call c u) (set_var env name x) b m m2 \<and> m_regs m2 = m_regs m1"
proof -
  define m2 where "m2 = (next_call m1)\<lparr>m_mem := (m_mem m1)(cell_at (cores u) p := Some (rep t x))\<rparr>"
  have "env_rel F (length (cg_calls u)) (cores u) (set_var env name x) m2"
    by (rule env_set [OF reachedD(2) [OF r] p]) (simp_all add: m2_def t)
  then have "env_rel F (Suc (length (cg_calls u))) (cores u) (set_var env name x) m2"
    by (rule env_frame) simp_all
  then have "reached F ar cs ps s (add_call c u) (set_var env name x) b m m2"
    using r st by (auto simp: reached_def m2_def intro: runs_snoc)
  then show ?thesis by (intro exI [of _ m2]) (simp add: m2_def)
qed

lemma reached_jump:
  assumes r: "reached F ar cs ps s u env b m m1" and st: "mstep ar cs ps m1 = Some (at_block (length (cg_calls w)) bl m1)"
    and w: "length (cg_calls u) \<le> length (cg_calls w)" "cores w = cores u"
  shows "reached F ar cs ps s (add_call (Position_At_End bl) w) env False m (at_block (length (cg_calls w)) bl m1)"
proof -
  have "env_rel F (Suc (length (cg_calls w))) (cores u) env (at_block (length (cg_calls w)) bl m1)"
    by (rule env_frame [OF reachedD(2) [OF r]]) (use w in simp_all)
  with r st w show ?thesis by (auto simp: reached_def intro: runs_snoc)
qed

text \<open>\<dots> and has computed a value.\<close>

definition delivers ::
    "funs \<Rightarrow> arith \<Rightarrow> call list \<Rightarrow> mval list \<Rightarrow> cg_state \<Rightarrow> lval \<Rightarrow> cg_state \<Rightarrow> type_t \<Rightarrow> int \<Rightarrow> env \<Rightarrow> bool \<Rightarrow> machine \<Rightarrow> bool" where
  "delivers F ar cs ps s v s' t x env b m \<longleftrightarrow> (\<exists>m'. reached F ar cs ps s s' env b m m' \<and>
     operand ar (m_regs m') v = Some (rep t x) \<and> wrap t x = x)"

lemma deliversI:
  "reached F ar cs ps s s' env b m m' \<Longrightarrow> operand ar (m_regs m') v = Some (rep t x) \<Longrightarrow> wrap t x = x \<Longrightarrow>
   delivers F ar cs ps s v s' t x env b m"
  by (auto simp: delivers_def)

lemma delivers_const:
  assumes "m_pc m = length (cg_calls s)" "env_rel F (length (cg_calls s)) (cores s) env m"
    and "operand ar (m_regs m) v = Some (rep t x)" "wrap t x = x"
  shows "delivers F ar cs ps s v s t x env b m"
  by (rule deliversI [OF reached_refl]) (use assms in simp_all)

lemma delivers_put:
  assumes r: "reached F ar cs ps s u env b m m1" and st: "mstep ar cs ps m1 = Some (put (rep t x) m1)" and x: "wrap t x = x"
  shows "delivers F ar cs ps s (Val (length (cg_calls u))) (add_call c u) t x env b m"
  by (rule deliversI [OF reached_put [OF r st]]) (use reachedD(1) [OF r] x in simp_all)

subsection \<open>Variables and literals\<close>

lemma get_load:
  assumes r: "reached F ar cs ps s u env b m m1" and p: "find_var env name = Some p"
    and x: "get_var env name = Some x" and c: "code_in cs (add_call (Build_Load (Val (cell_at (cores u) p)) nm) u)"
  shows "mstep ar cs ps m1 = Some (put (rep (var_type (var_at env p)) x) m1)" and "wrap (var_type (var_at env p)) x = x"
  using env_get [OF reachedD(2) [OF r] p] x step_value [OF c reachedD(1) [OF r]] by auto

lemma ident_delivers:
  assumes pl: "plain F (type_in env) (Expr l t (Ident_Expr name))"
    and ev: "eval F (Expr l t (Ident_Expr name)) env = Some (x, env')"
    and run: "codegen_ident_expr self gen False name s = Inr (v, s')"
    and m: "code_in cs s'" "env_rel F (length (cg_calls s)) (cores s) env m" "m_pc m = length (cg_calls s)"
  shows "delivers F ar cs ps s v s' t x env' b m"
proof (cases "name = ''true'' \<or> name = ''false''")
  case True
  then show ?thesis using run pl ev m
    by (auto simp: codegen_ident_expr_def ret_runs bool_type_def rep_def mask_eq_exp_minus_1 intro!: delivers_const)
next
  case False
  with pl obtain p where p: "find_var env name = Some p" "var_type (var_at env p) = t" by (auto simp: type_in_def)
  have x: "get_var env name = Some x" "env' = env" using ev False by auto
  have "matches F env (cores s)" using m(2) by (simp add: env_rel_def)
  then have "v = Val (length (cg_calls s)) \<and> s' = add_call (Build_Load (Val (cell_at (cores s) p)) []) s"
    by (rule find_symbol_runs [OF _ p(1)])
      (use run False in \<open>auto simp: codegen_ident_expr_def bind_runs load_unless_def build_runs\<close>)
  then show ?thesis
    using delivers_put [OF reached_refl [OF m(3,2)] get_load [OF reached_refl [OF m(3,2)] p(1) x(1)]] m(1) x(2) p(2)
    by simp
qed

lemma number_delivers:
  assumes ar: "documented ar" and after: "cg_after self = CHR 0x00 # as"
    and pl: "plain F (type_in env) (Expr l t (Number_Literal_Expr txt radix))"
    and ev: "literal_value t txt radix = Some x"
    and run: "codegen_number_literal_expr n self False (Expr l t (Number_Literal_Expr txt radix)) txt radix s = Inr (v, s')"
    and m: "env_rel F (length (cg_calls s)) (cores s) env m" "m_pc m = length (cg_calls s)"
  shows "delivers F ar cs ps s v s' t x env b m"
proof -
  from pl obtain w where w: "t = Type 0 (Integer_Type w)" "0 < unat w" "scalar t"
    by (auto elim: scalar_cases)
  define num where "num = takeWhile (\<lambda>c. c \<noteq> CHR 0x00) txt"
  have "takeWhile (\<lambda>c. c \<noteq> CHR 0x00) (cs @ CHR 0x00 # as) = takeWhile (\<lambda>c. c \<noteq> CHR 0x00) cs" for cs
    by (induction cs) auto
  then have lit: "literal_text self txt = Inr num" by (simp add: literal_text_def after num_def Let_def)
  from run obtain lt where "codegen_type n False t s = Inr (lt, s')" "v = Const_Int_Of_String lt num radix"
    by (auto simp: codegen_number_literal_expr_def w(1) cg_runs lit)
  with type_runs [OF w(3)] have v: "s' = s" "v = Const_Int_Of_String (Ty_Int w) num radix"
    by (auto simp: w(1) bits_def)
  from ev have x: "is_numeral radix num" "number_value radix num < 2 ^ unat w" "x = wrap t (number_value radix num)"
    by (auto simp: literal_value_def Let_def num_def w(1) split: if_splits)
  have nonneg: "0 \<le> number_value radix num"
  proof -
    have "0 \<le> digit_of c" for c by (simp add: digit_of_def Let_def)
    moreover have "0 \<le> radix"
      using x(1) calculation by (cases num) (auto simp: is_numeral_def intro: order_trans [OF _ less_imp_le])
    ultimately have "0 \<le> k \<Longrightarrow> 0 \<le> foldl (\<lambda>n c. radix * n + digit_of c) k cs" for k cs
      by (induction cs arbitrary: k) auto
    then show ?thesis by (simp add: number_value_def)
  qed
  have "ar_text ar (unat w) num radix = number_value radix num"
    using ar x(1,2) unfolding documented_def by blast
  then show ?thesis unfolding v
    by (intro delivers_const m(2,1)) (use x nonneg w in \<open>simp_all add: rep_def take_signed take_bit_int_eq_self\<close>)
qed

subsection \<open>Operators\<close>

lemma reached_value:
  "delivers F ar cs ps s v u t x env b m \<Longrightarrow>
   (\<And>m1. reached F ar cs ps s u env b m m1 \<Longrightarrow> operand ar (m_regs m1) v = Some (rep t x) \<Longrightarrow> wrap t x = x \<Longrightarrow> P) \<Longrightarrow> P"
  by (auto simp: delivers_def)

lemma incdec_delivers:
  assumes ar: "documented ar" and a: "variable_of a = Some name" "plain F (type_in env) a" "t = expr_type a" "is_integer t"
    and ev: "eval F (Expr l t (Incdec_Expr a ord dir)) env = Some (x, env')"
    and run: "codegen_incdec_expr n self (codegen_expr n self) False (Expr l t k) a ord dir s = Inr (v, s')"
    and m: "code_in cs s'" "env_rel F (length (cg_calls s)) (cores s) env m" "m_pc m = length (cg_calls s)"
  shows "delivers F ar cs ps s v s' t x env' b m"
proof (rule incdec_runs [OF a(1,2) _ a(3,4) run])
  show "matches F env (cores s)" using m(2) by (simp add: env_rel_def)
  fix p
  let ?i = "if dir = Dir_Inc then I_Add else I_Sub" and ?N = "length (cg_calls s)" and ?lv = "Val (cell_at (cores s) p)"
  let ?u1 = "add_call (Build_Load ?lv []) s"
  let ?u2 = "add_call (Build_Binary ?i (Val ?N) (Const_Int (Ty_Int (bits t)) 1) []) ?u1"
  assume p: "find_var env name = Some p" "var_type (var_at env p) = t"
    and v: "v = Val (?N + (if ord = Order_Pre then 1 else 0))" and s': "s' = add_call (Build_Store (Val (Suc ?N)) ?lv) ?u2"
  have sc: "scalar t" using plain_scalar a(2,3) by blast
  obtain y where y: "get_var env name = Some y" using ev a(1) by (auto simp: bind_eq_Some_conv)
  define z where "z = wrap t (if dir = Dir_Inc then y + 1 else y - 1)"
  have x: "x = (if ord = Order_Pre then z else y)" "env' = set_var env name z"
    using ev a(1) y by (auto simp: z_def Let_def)
  have c: "code_in cs ?u2" "code_in cs ?u1" using m(1) code_add unfolding s' by blast+
  note r0 = reached_refl [OF m(3,2), of ar cs ps b]
  note ld = get_load [OF r0 p(1) y c(2), unfolded p(2)]
  define m1 where "m1 = put (rep t y) m"
  have r1: "reached F ar cs ps s ?u1 env b m m1" unfolding m1_def by (rule reached_put [OF r0 ld(1)])
  have "operand ar (m_regs m1) (Const_Int (Ty_Int (bits t)) 1) = Some (rep t 1)"
    using width_bits [OF sc] by (simp add: rep_def)
  then have "mstep ar cs ps m1 = Some (put (rep t z) m1)"
    using plus_minus_step [OF ar sc, of y 1] m(3)
    by (intro step_value [OF c(1)]) (auto simp: m1_def z_def)
  note r2 = reached_put [OF r1 this]
  define m2 where "m2 = put (rep t z) m1"
  have regs: "m_regs m2 = (m_regs m)(?N := Some (rep t y), Suc ?N := Some (rep t z))" using m(3) by (simp add: m2_def m1_def)
  have lv: "operand ar (m_regs m2) ?lv = Some (Ptr_Val (cell_at (cores s) p))"
    using env_get(1,2) [OF m(2) p(1)] by (simp add: regs)
  have st: "mstep ar cs ps m2 = Some ((next_call m2)\<lparr>m_mem := (m_mem m2)(cell_at (cores ?u2) p := Some (rep t z))\<rparr>)"
    using step_store [OF m(1) [unfolded s'], of m2 ar "rep t z" "cell_at (cores s) p" ps] lv m(3)
    by (simp add: regs) (simp add: m2_def m1_def)
  have z: "wrap t z = z" by (simp add: z_def wrap_idem [OF sc])
  from reached_store [OF r2 p z st [unfolded m2_def]] obtain m3 where
    m3: "reached F ar cs ps s s' (set_var env name z) b m m3" "m_regs m3 = m_regs m2" unfolding s' m2_def by blast
  show ?thesis
    unfolding x by (rule deliversI [OF m3(1)]) (use z ld(2) in \<open>simp_all add: v m3(2) regs\<close>)
qed

lemma assignment_delivers:
  assumes ar: "documented ar" and a: "variable_of a = Some name" "plain F (type_in env) a" "t = expr_type a" "op = Assign \<or> is_integer t"
    and ev: "eval F (Expr l t (Assignment_Expr a e op)) env = Some (x, env')"
    and run: "codegen_assignment_expr self (codegen_expr n self) a e op s = Inr (v, s')"
    and m: "code_in cs s'" "env_rel F (length (cg_calls s)) (cores s) env m" "m_pc m = length (cg_calls s)"
    and e: "\<And>x u env1. eval F e env = Some (x, env1) \<Longrightarrow> codegen_expr n self False e s = Inr (v, u) \<Longrightarrow> code_in cs u \<Longrightarrow>
      delivers F ar cs ps s v u t x env1 b m \<and> stays s v u"
  shows "delivers F ar cs ps s v s' t x env' b m"
proof (rule assignment_runs [OF a(1,2) _ run])
  show "matches F env (cores s)" using m(2) by (simp add: env_rel_def)
  fix p and u :: cg_state
  let ?N = "length (cg_calls u)" and ?lv = "Val (cell_at (cores s) p)"
  let ?u1 = "add_call (Build_Load ?lv []) u"
  let ?u2 = "add_call (Build_Binary (assign_inst op) (Val ?N) v []) ?u1"
  assume p: "find_var env name = Some p" "var_type (var_at env p) = expr_type a" and u: "codegen_expr n self False e s = Inr (v, u)"
    and s': "s' = (if op = Assign then add_call (Build_Store v ?lv) u else add_call (Build_Store (Val (Suc ?N)) ?lv) ?u2)"
  obtain env1 where ev1: "eval F e env = Some (x, env1)"
    and env': "if op = Assign then env' = set_var env1 name x
      else \<exists>y z. get_var env1 name = Some y \<and> assigned_value t op y x = Some z \<and> env' = set_var env1 name z"
    using ev a(1) by (auto simp: bind_eq_Some_conv split: if_splits)
  have cu: "code_in cs u" using m(1) unfolding s' by (auto dest!: code_add split: if_splits)
  from e [OF ev1 u cu] obtain m1 where r1: "reached F ar cs ps s u env1 b m m1"
    and x: "operand ar (m_regs m1) v = Some (rep t x)" "wrap t x = x" and st: "cores u = cores s" "below ?N v"
    by (auto simp: delivers_def dest: stays_cores)
  note sh = eval_shape(1) [OF ev1]
  have p1: "find_var env1 name = Some p" "var_type (var_at env1 p) = t"
    using find_var_shape [OF sh] shape_nth(3) [OF sh find_valid [OF p(1)]] p a(3) by simp_all
  note cell = env_get(1,2) [OF reachedD(2) [OF r1] p1(1), unfolded st(1)]
  show ?thesis
  proof (cases "op = Assign")
    case True
    have "mstep ar cs ps m1 = Some ((next_call m1)\<lparr>m_mem := (m_mem m1)(cell_at (cores u) p := Some (rep t x))\<rparr>)"
      using step_store [of cs v ?lv u m1 ar "rep t x" "cell_at (cores s) p" ps] m(1) reachedD(1) [OF r1] x cell st
      by (simp add: s' True)
    from reached_store [OF r1 p1 x(2) this] obtain m2 where
      m2: "reached F ar cs ps s s' env' b m m2" "m_regs m2 = m_regs m1" using env' unfolding s' by (auto simp: True)
    show ?thesis by (rule deliversI [OF m2(1)]) (use x m2(2) in simp_all)
  next
    case False
    with env' obtain y z where y: "get_var env1 name = Some y" and z: "assigned_value t op y x = Some z"
      and env'z: "env' = set_var env1 name z" by auto
    have t: "scalar t" "is_integer t" using plain_scalar a(2,3,4) False by auto
    have "code_in cs (add_call (Build_Store (Val (Suc ?N)) ?lv) ?u2)" using m(1) False by (simp add: s')
    then have c1: "code_in cs ?u2" by (rule code_add)
    then have "code_in cs ?u1" by (rule code_add)
    note c = c1 this
    note ld = get_load [OF r1 p1(1) y, unfolded st(1), OF c(2), unfolded p1(2)]
    define m2 where "m2 = put (rep t y) m1"
    have r2: "reached F ar cs ps s ?u1 env1 b m m2" unfolding m2_def by (rule reached_put [OF r1 ld(1)])
    have v2: "operand ar (m_regs m2) v = Some (rep t x)"
      using operand_below [OF st(2), of "m_regs m2" "m_regs m1" ar] x(1) reachedD(1) [OF r1] by (simp add: m2_def)
    note as = assign_inst_step [OF ar t ld(2) x(2) z refl]
    have "mstep ar cs ps m2 = Some (put (rep t z) m2)"
      using as(1) v2 reachedD(1) [OF r1]
      by (intro step_value [OF c(1)]) (auto simp: m2_def assign_inst_def)
    note r3 = reached_put [OF r2 this]
    define m3 where "m3 = put (rep t z) m2"
    have regs: "m_regs m3 = (m_regs m1)(?N := Some (rep t y), Suc ?N := Some (rep t z))"
      using reachedD(1) [OF r1] by (simp add: m3_def m2_def)
    have "operand ar (m_regs m3) ?lv = Some (Ptr_Val (cell_at (cores s) p))" using cell by (simp add: regs)
    then have "mstep ar cs ps m3 = Some ((next_call m3)\<lparr>m_mem := (m_mem m3)(cell_at (cores ?u2) p := Some (rep t z))\<rparr>)"
      using step_store [of cs "Val (Suc ?N)" ?lv ?u2 m3 ar "rep t z" "cell_at (cores s) p" ps] m(1) False reachedD(1) [OF r1] st(1)
      by (simp add: s' regs) (simp add: m3_def m2_def)
    from reached_store [OF r3 p1 as(2) this [unfolded m3_def]] obtain m4 where
      r4: "reached F ar cs ps s s' env' b m m4" "m_regs m4 = m_regs m3" using False env'z unfolding s' m3_def by auto
    have "operand ar (m_regs m4) v = Some (rep t x)"
      using operand_below [OF st(2), of "m_regs m4" "m_regs m1" ar] x(1) by (simp add: r4(2) regs)
    then show ?thesis by (rule deliversI [OF r4(1) _ x(2)])
  qed
qed

text \<open>What is to be shown of an expression.\<close>

definition computes :: "funs \<Rightarrow> arith \<Rightarrow> call list \<Rightarrow> mval list \<Rightarrow> codegen_t \<Rightarrow> nat \<Rightarrow> expr \<Rightarrow> bool" where
  "computes F ar cs ps self n e \<longleftrightarrow> (\<forall>env s v s' m x env'. plain F (type_in env) e \<longrightarrow> eval F e env = Some (x, env') \<longrightarrow>
     codegen_expr n self False e s = Inr (v, s') \<longrightarrow> code_in cs s' \<longrightarrow> env_rel F (length (cg_calls s)) (cores s) env m \<longrightarrow>
     m_pc m = length (cg_calls s) \<longrightarrow> delivers F ar cs ps s v s' (expr_type e) x env' (straight e) m)"

lemma computesD:
  assumes "computes F ar cs ps self n e" and "plain F (type_in env) e" and "eval F e env = Some (x, env')"
    and "codegen_expr n self False e s = Inr (v, s')" and "code_in cs s'"
    and "env_rel F (length (cg_calls s)) (cores s) env m" and "m_pc m = length (cg_calls s)"
  obtains m' where "reached F ar cs ps s s' env' (straight e) m m'" and "operand ar (m_regs m') v = Some (rep (expr_type e) x)"
    and "wrap (expr_type e) x = x" and "stays s v s'"
  using assms plain_stays [OF assms(2) _ assms(4)] unfolding computes_def delivers_def env_rel_def by blast

lemma unary_delivers:
  assumes ar: "documented ar" and pl: "plain F (type_in env) (Expr l t (Unary_Expr a op))"
    and ev: "eval F (Expr l t (Unary_Expr a op)) env = Some (x, env')"
    and run: "codegen_unary_expr self (codegen_expr n self) False a op s = Inr (v, s')"
    and m: "code_in cs s'" "env_rel F (length (cg_calls s)) (cores s) env m" "m_pc m = length (cg_calls s)"
    and a: "computes F ar cs ps self n a"
  shows "delivers F ar cs ps s v s' t x env' (straight a) m"
proof -
  from pl have pa: "plain F (type_in env) a" and t: "t = expr_type a" by simp_all
  note sc = plain_scalar [OF pa, folded t]
  from ev obtain y where y: "eval F a env = Some (y, env')" "x = unary_value t op y" by auto
  show ?thesis
  proof (rule unary_runs [OF pa pl run])
    fix w u
    assume g: "codegen_expr n self False a s = Inr (w, u)" "op = Op_Positive" "v = w" "s' = u"
    show ?thesis
      by (rule computesD [OF a pa y(1) g(1) _ m(2,3)]) (use m(1) g y(2) in \<open>auto simp: t unary_value_def intro: deliversI\<close>)
  next
    fix w u i
    assume g: "codegen_expr n self False a s = Inr (w, u)" "op \<noteq> Op_Positive" "v = Val (length (cg_calls u))"
      "s' = add_call (Build_Unary i w []) u" "i = (if op = Op_Negative then I_Neg else I_Not)"
    obtain m1 where r: "reached F ar cs ps s u env' (straight a) m m1" "operand ar (m_regs m1) w = Some (rep t y)" "wrap t y = y"
      by (rule computesD [OF a pa y(1) g(1) _ m(2,3)]) (use m(1) g(4) code_add t in auto)
    have "unary_step ar i (Some (rep t y)) = Some (rep t x)"
      using unary_inst_step [OF ar sc r(3)] pl g(2,5) y(2) by (cases op) auto
    then have "mstep ar cs ps m1 = Some (put (rep t x) m1)"
      using m(1) r(2) reachedD(1) [OF r(1)] by (intro step_value [of cs "Build_Unary i w []" u]) (auto simp: g(4))
    from delivers_put [OF r(1) this] show ?thesis using y(2) wrap_idem [OF sc] by (simp add: g unary_value_def)
  qed
qed

lemma cast_delivers:
  assumes ar: "documented ar" and pl: "plain F (type_in env) (Expr l t (Cast_Expr a ty))"
    and ev: "eval F (Expr l t (Cast_Expr a ty)) env = Some (x, env')"
    and run: "codegen_cast_expr n self (codegen_expr n self) False a ty s = Inr (v, s')"
    and m: "code_in cs s'" "env_rel F (length (cg_calls s)) (cores s) env m" "m_pc m = length (cg_calls s)"
    and a: "computes F ar cs ps self n a"
  shows "delivers F ar cs ps s v s' t x env' (straight a) m"
proof -
  from pl have pa: "plain F (type_in env) a" and ty: "scalar ty" "t = ty" by simp_all
  note sa = plain_scalar [OF pa]
  from ev obtain y where y: "eval F a env = Some (y, env')" "cast_value (expr_type a) ty y = Some x"
    by (auto simp: bind_eq_Some_conv)
  show ?thesis
  proof (rule cast_runs [OF pa ty(1) run])
    fix w u
    assume g: "codegen_expr n self False a s = Inr (w, u)"
      and v: "if expr_type a = ty then v = w \<and> s' = u else v = Val (length (cg_calls u)) \<and> s' = add_call (cast_call (expr_type a) ty w) u"
    have cu: "code_in cs u" using m(1) v code_add by (auto split: if_splits)
    obtain m1 where r: "reached F ar cs ps s u env' (straight a) m m1" "operand ar (m_regs m1) w = Some (rep (expr_type a) y)"
      "wrap (expr_type a) y = y"
      by (rule computesD [OF a pa y(1) g cu m(2,3)])
    show ?thesis
    proof (cases "expr_type a = ty")
      case True
      then show ?thesis using v y(2) r ty(2) by (auto simp: cast_value_def intro: deliversI)
    next
      case False
      note bits = width_bits [OF sa] width_bits [OF ty(1)]
      have x: "wrap ty x = x"
        using y(2) False ty(1) by (auto simp: cast_value_def wrap_idem bool_type_def elim!: scalar_cases split: if_splits)
      have "mstep ar cs ps m1 = Some (put (rep ty x) m1)"
      proof (rule step_value [of cs "cast_call (expr_type a) ty w" u])
        show "code_in cs (add_call (cast_call (expr_type a) ty w) u)" using m(1) v False by simp
        show "m_pc m1 = length (cg_calls u)" by (rule reachedD(1) [OF r(1)])
        show "(\<exists>p nm k. cast_call (expr_type a) ty w = Build_Load p nm \<and> operand ar (m_regs m1) p = Some (Ptr_Val k) \<and> m_mem m1 k = Some (rep ty x)) \<or>
          (\<exists>i p q nm. cast_call (expr_type a) ty w = Build_Binary i p q nm \<and> binary_step ar i (operand ar (m_regs m1) p) (operand ar (m_regs m1) q) = Some (rep ty x)) \<or>
          (\<exists>i p q nm. cast_call (expr_type a) ty w = Build_Cmp i p q nm \<and> compare_step ar i (operand ar (m_regs m1) p) (operand ar (m_regs m1) q) = Some (rep ty x)) \<or>
          (\<exists>i p nm. cast_call (expr_type a) ty w = Build_Unary i p nm \<and> unary_step ar i (operand ar (m_regs m1) p) = Some (rep ty x)) \<or>
          (\<exists>i p d nm. cast_call (expr_type a) ty w = Build_Cast i p d nm \<and> cast_step i (operand ar (m_regs m1) p) (width_in ar (m_regs m1) d) = Some (rep ty x))"
          using cast_inst_step [OF ar sa ty(1) False r(3) y(2)] r(2) bits
          by (auto simp: cast_call_def rep_def split: if_splits)
      qed
      from delivers_put [OF r(1) this x] show ?thesis using v False ty(2) by simp
    qed
  qed
qed

lemma binary_delivers:
  assumes ar: "documented ar" and pl: "plain F (type_in env) (Expr l t (Binary_Expr a b op))"
    and ev: "eval F (Expr l t (Binary_Expr a b op)) env = Some (x, env')"
    and run: "codegen_binary_expr self (codegen_expr n self) False a b op s = Inr (v, s')"
    and m: "code_in cs s'" "env_rel F (length (cg_calls s)) (cores s) env m" "m_pc m = length (cg_calls s)"
    and a: "computes F ar cs ps self n a" and b: "computes F ar cs ps self n b"
  shows "delivers F ar cs ps s v s' t x env' (straight a \<and> straight b) m"
proof -
  define ta where "ta = expr_type a"
  from pl have p: "plain F (type_in env) a" "plain F (type_in env) b" "expr_type a = expr_type b"
    and t: "t = (if comparing op then bool_type else ta)" by (simp_all add: ta_def)
  note sc = plain_scalar [OF p(1), folded ta_def]
  from ev obtain y z env1 where y: "eval F a env = Some (y, env1)" and z: "eval F b env1 = Some (z, env')"
    and x: "binary_value ta op y z = Some x" by (auto simp: bind_eq_Some_conv ta_def)
  show ?thesis
  proof (rule binary_runs [OF p run])
    fix vy u vz w i
    let ?c = "case i of Inl op \<Rightarrow> Build_Binary op vy vz [] | Inr p \<Rightarrow> Build_Cmp p vy vz []"
    assume gy: "codegen_expr n self False a s = Inr (vy, u)" and gz: "codegen_expr n self False b u = Inr (vz, w)"
      and i: "(if is_integer (expr_type a) then integer_inst op else boolean_inst op) = Some i"
      and v: "v = Val (length (cg_calls w))" and s': "s' = add_call ?c w"
    have cw: "code_in cs w" using m(1) code_add unfolding s' by blast
    have cu: "code_in cs u" by (rule code_before [OF cw expr_more_calls [OF gz]])
    obtain m1 where r1: "reached F ar cs ps s u env1 (straight a) m m1" "operand ar (m_regs m1) vy = Some (rep ta y)" "wrap ta y = y"
      and st: "stays s vy u" unfolding ta_def by (rule computesD [OF a p(1) y gy cu m(2,3)])
    have pb: "plain F (type_in env1) b" using p(2) type_in_shape [OF eval_shape(1) [OF y]] by simp
    obtain m2 where r2: "reached F ar cs ps u w env' (straight b) m1 m2" "operand ar (m_regs m2) vz = Some (rep ta z)" "wrap ta z = z"
      unfolding ta_def p(3) by (rule computesD [OF b pb z gz cw reachedD(2,1) [OF r1(1)]])
    have r: "reached F ar cs ps s w env' (straight a \<and> straight b) m m2"
      by (rule reached_trans [OF reached_weaken [OF r1(1)] reached_weaken [OF r2(1)]]) simp_all
    have "operand ar (m_regs m2) vy = Some (rep ta y)"
      using reachedD(4) [OF r2(1)] stays_cores(3) [OF st] r1(2) by simp
    then have "inst_step ar i (operand ar (m_regs m2) vy) (operand ar (m_regs m2) vz) = Some (rep t x)"
      using binary_inst_step(1) [OF ar sc r1(3) r2(3) i [folded ta_def] x] r2(2) by (simp add: t)
    then have "mstep ar cs ps m2 = Some (put (rep t x) m2)"
      by (intro step_value [of cs ?c w]) (use m(1) reachedD(1) [OF r] in \<open>auto simp: s' inst_step_def split: sum.splits\<close>)
    from delivers_put [OF r this] binary_inst_step(2) [OF ar sc r1(3) r2(3) i [folded ta_def] x] show ?thesis
      by (simp add: v s' t)
  qed
qed

subsection \<open>Conditionals\<close>

text \<open>The calls before a branch that have no effect when the code is run.\<close>

lemma reached_skip:
  assumes r: "reached F ar cs ps s u env b m m1" and c: "code_in cs (add_call c u)"
    and k: "c = Get_Insert_Block \<or> (\<exists>b. c = Get_Basic_Block_Parent b) \<or> (\<exists>f nm. c = Append_Basic_Block f nm) \<or>
      (\<exists>w inc. c = Add_Incoming w inc) \<or> (\<exists>w nm. c = Set_Value_Name w nm)"
  shows "\<exists>m2. reached F ar cs ps s (add_call c u) env b m m2 \<and> m_regs m2 = m_regs m1 \<and> m_block m2 = m_block m1 \<and>
    m_from m2 = m_from m1"
  using reached_next [OF r step_next [OF c reachedD(1) [OF r] k]] by (intro exI [of _ "next_call m1"]) simp

lemma reached_func:
  assumes r: "reached F ar cs ps s u env b m m1"
    and c: "code_in cs (add_call (Get_Basic_Block_Parent f) (add_call Get_Insert_Block u))"
  shows "\<exists>m2. reached F ar cs ps s (add_call (Get_Basic_Block_Parent f) (add_call Get_Insert_Block u)) env b m m2 \<and>
    m_regs m2 = m_regs m1 \<and> m_block m2 = m_block m1"
proof -
  from reached_skip [OF r code_add [OF c]] obtain m2 where
    m2: "reached F ar cs ps s (add_call Get_Insert_Block u) env b m m2" "m_regs m2 = m_regs m1" "m_block m2 = m_block m1" by blast
  from reached_skip [OF m2(1) c] m2(2,3) show ?thesis by auto
qed

lemma reached_append:
  assumes r: "reached F ar cs ps s u env b m m1" and c: "code_in cs (add_call (Append_Basic_Block f nm) u)"
  shows "\<exists>m2. reached F ar cs ps s (add_call (Append_Basic_Block f nm) u) env b m m2 \<and> m_regs m2 = m_regs m1 \<and> m_block m2 = m_block m1"
  using reached_skip [OF r c] by blast

text \<open>A branch to a block whose code starts at the end of the code of \<open>w\<close>.\<close>

lemma reached_br:
  assumes once: "entered_once cs" and r: "reached F ar cs ps s u env b m m1" and c: "code_in cs (add_call (Build_Br bl) u)"
    and w: "code_in cs (add_call (Position_At_End bl) w)" "length (cg_calls u) \<le> length (cg_calls w)" "cores w = cores u"
  shows "\<exists>m2. reached F ar cs ps s (add_call (Position_At_End bl) w) env False m m2 \<and> m_regs m2 = m_regs m1 \<and>
    m_block m2 = bl \<and> m_from m2 = Some (m_block m1)"
  using reached_jump [OF r step_br [OF c reachedD(1) [OF r] label_found [OF once w(1)]] w(2,3)]
  by (intro exI [of _ "at_block (length (cg_calls w)) bl m1"]) simp

lemma reached_cond_br:
  assumes once: "entered_once cs" and r: "reached F ar cs ps s u env b m m1" and c: "code_in cs (add_call (Build_Cond_Br v t e) u)"
    and x: "operand ar (m_regs m1) v = Some (rep bool_type x)" "wrap bool_type x = x" and bl: "bl = (if x \<noteq> 0 then t else e)"
    and w: "code_in cs (add_call (Position_At_End bl) w)" "length (cg_calls u) \<le> length (cg_calls w)" "cores w = cores u"
  shows "\<exists>m2. reached F ar cs ps s (add_call (Position_At_End bl) w) env False m m2 \<and> m_regs m2 = m_regs m1 \<and>
    m_block m2 = bl \<and> m_from m2 = Some (m_block m1)"
proof -
  have v: "operand ar (m_regs m1) v = Some (Int_Val 1 x)" using x by (simp add: rep_def bool_type_def)
  have l: "label_of cs (if x \<noteq> 0 then t else e) = Some (length (cg_calls w))" using label_found [OF once w(1)] by (simp add: bl)
  show ?thesis
    using reached_jump [OF r step_cond_br [OF c reachedD(1) [OF r] v l, folded bl] w(2,3)]
    by (intro exI [of _ "at_block (length (cg_calls w)) bl m1"]) simp
qed

lemma step_phi:
  assumes c: "code_in cs (add_call (Add_Incoming (Val (length (cg_calls u))) [(y, b1), (z, b2)]) (add_call (Build_Phi t nm) u))"
    and pc: "m_pc m = length (cg_calls u)" and "b1 \<noteq> b2"
    and f: "m_from m = Some b1 \<and> operand ar (m_regs m) y = Some w \<or> m_from m = Some b2 \<and> operand ar (m_regs m) z = Some w"
  shows "mstep ar cs ps m = Some (put w m)"
proof -
  note c1 = code_at [OF code_add [OF c]] and c2 = code_at [OF c]
  have "phi_value cs (m_pc m) (m_from m) = Some (if m_from m = Some b1 then y else z)"
    using c1 c2 pc f assms(3) by (auto simp: phi_value_def)
  then show ?thesis using c1 pc f assms(3) by (auto simp: mstep_def)
qed

lemma conditional_delivers:
  assumes once: "entered_once cs" and pl: "plain F (type_in env) (Expr l t (Conditional_Expr c a b))"
    and ev: "eval F (Expr l t (Conditional_Expr c a b)) env = Some (x, env')"
    and run: "codegen_conditional_expr n self (codegen_expr n self) False c a b s = Inr (v, s')"
    and m: "code_in cs s'" "env_rel F (length (cg_calls s)) (cores s) env m" "m_pc m = length (cg_calls s)"
    and IH: "computes F ar cs ps self n c" "computes F ar cs ps self n a" "computes F ar cs ps self n b"
  shows "delivers F ar cs ps s v s' t x env' False m"
proof -
  from pl have pc: "plain F (type_in env) c" "expr_type c = bool_type" and pa: "plain F (type_in env) a" "straight a" "expr_type a = t"
    and pb: "plain F (type_in env) b" "straight b" "expr_type b = t" by auto
  have sa: "scalar (settled_type a)" using plain_settled [OF pa(1)] plain_scalar [OF pa(1)] by simp
  from ev obtain q env1 where q: "eval F c env = Some (q, env1)"
    and br: "if q \<noteq> 0 then eval F a env1 = Some (x, env') else eval F b env1 = Some (x, env')"
    by (auto simp: bind_eq_Some_conv split: if_splits)
  note G = type_in_shape [OF eval_shape(1) [OF q]]
  show ?thesis
  proof (rule conditional_runs [OF sa run])
    fix xc u y w z r k
    let ?T = "Val (k + 2)" and ?F = "Val (k + 3)" and ?E = "Val (k + 4)"
    let ?w = "add_call (Position_At_End ?F) (add_call (Build_Br ?E) w)" and ?r = "add_call (Position_At_End ?E) (add_call (Build_Br ?E) r)"
    assume gc: "codegen_expr n self False c s = Inr (xc, u)" and k: "k = length (cg_calls u)"
      and ga: "codegen_expr n self False a (branch_calls xc u) = Inr (y, w)" and gb: "codegen_expr n self False b ?w = Inr (z, r)"
      and v: "v = Val (length (cg_calls r) + 2)" and s': "s' = join_calls k y z (settled_type a) r"
    define f where "f = add_call (Get_Basic_Block_Parent (Val k)) (add_call Get_Insert_Block u)"
    define u5 where "u5 = add_call (Append_Basic_Block (Val (Suc k)) ''ifexit'') (add_call (Append_Basic_Block (Val (Suc k)) ''iffalse'')
      (add_call (Append_Basic_Block (Val (Suc k)) ''iftrue'') f))"
    have bc: "branch_calls xc u = add_call (Position_At_End ?T) (add_call (Build_Cond_Br xc ?T ?F) u5)"
      by (simp add: branch_calls_def Let_def u5_def f_def k)
    have jc: "s' = add_call (Add_Incoming (Val (length (cg_calls ?r))) [(y, ?T), (z, ?F)]) (add_call (Build_Phi (Ty_Int (bits (settled_type a))) []) ?r)"
      by (simp add: s' join_calls_def Let_def)
    have c_phi: "code_in cs s'" by (rule m(1))
    then have c_r: "code_in cs ?r" unfolding jc by (rule code_add [OF code_add])
    then have c_brr: "code_in cs (add_call (Build_Br ?E) r)" by (rule code_add)
    then have c_rr: "code_in cs r" by (rule code_add)
    then have c_w: "code_in cs ?w" by (rule code_before [OF _ expr_more_calls [OF gb]])
    then have c_brw: "code_in cs (add_call (Build_Br ?E) w)" by (rule code_add)
    then have c_ww: "code_in cs w" by (rule code_add)
    then have c_b: "code_in cs (add_call (Position_At_End ?T) (add_call (Build_Cond_Br xc ?T ?F) u5))"
      using code_before [OF _ expr_more_calls [OF ga]] bc by simp
    then have c_cond: "code_in cs (add_call (Build_Cond_Br xc ?T ?F) u5)" by (rule code_add)
    then have c_u5: "code_in cs u5" by (rule code_add)
    have c_f: "code_in cs f" using c_u5 unfolding u5_def by (rule code_add [OF code_add [OF code_add]])
    have c_u: "code_in cs u" using c_f unfolding f_def by (rule code_add [OF code_add])
    have len: "length (cg_calls u5) \<le> length (cg_calls w)" "length (cg_calls w) \<le> length (cg_calls r)"
      using more_calls_length [OF expr_more_calls [OF ga]] more_calls_length [OF expr_more_calls [OF gb]] by (simp_all add: bc)
    have cores5: "cores u5 = cores u" by (simp add: u5_def f_def)
    obtain m1 where r1: "reached F ar cs ps s u env1 (straight c) m m1" "operand ar (m_regs m1) xc = Some (rep bool_type q)"
      "wrap bool_type q = q" and su: "stays s xc u"
      by (rule computesD [OF IH(1) pc(1) q gc c_u m(2,3)]) (use pc(2) in simp_all)
    note r1' = reached_weaken [OF r1(1), of False, simplified]
    from reached_func [OF r1' c_f [unfolded f_def]] obtain m2 where r2: "reached F ar cs ps s f env1 False m m2" "m_regs m2 = m_regs m1"
      unfolding f_def by blast
    note c_a2 = code_add [OF c_u5 [unfolded u5_def]]
    from reached_append [OF r2(1) code_add [OF c_a2]] obtain m3 where
      r3: "reached F ar cs ps s (add_call (Append_Basic_Block (Val (Suc k)) ''iftrue'') f) env1 False m m3" "m_regs m3 = m_regs m2" by blast
    from reached_append [OF r3(1) c_a2] obtain m4 where
      r4: "reached F ar cs ps s (add_call (Append_Basic_Block (Val (Suc k)) ''iffalse'')
        (add_call (Append_Basic_Block (Val (Suc k)) ''iftrue'') f)) env1 False m m4" "m_regs m4 = m_regs m3" by blast
    from reached_append [OF r4(1) c_u5 [unfolded u5_def]] obtain m5 where
      r5: "reached F ar cs ps s u5 env1 False m m5" "m_regs m5 = m_regs m1" unfolding u5_def using r2(2) r3(2) r4(2) by auto
    have q5: "operand ar (m_regs m5) xc = Some (rep bool_type q)" using r1(2) r5(2) by simp
    have "matches F env1 (cores u)" using reachedD(3) [OF r1(1)] .
    then have sa': "stays (branch_calls xc u) y w" using plain_stays [OF _ _ ga, of F env1] pa(1) G by (simp add: bc cores5)
    then have coresw: "cores w = cores u" using stays_cores(1) by (simp add: bc cores5)
    have sb': "stays ?w z r" using plain_stays [OF _ _ gb, of F env1] pb(1) G reachedD(3) [OF r1(1)] coresw by simp
    then have coresr: "cores r = cores u" using coresw stays_cores(1) [OF sb'] by simp
    have final: "delivers F ar cs ps s v s' t x env' False m"
      if rx: "reached F ar cs ps s ?r env' False m m8" "m_from m8 = Some ?T \<and> operand ar (m_regs m8) y = Some (rep t x) \<or>
        m_from m8 = Some ?F \<and> operand ar (m_regs m8) z = Some (rep t x)" "wrap t x = x" for m8
    proof -
      have "mstep ar cs ps m8 = Some (put (rep t x) m8)"
        by (rule step_phi [OF c_phi [unfolded jc] reachedD(1) [OF rx(1)] _ rx(2)]) simp
      note r9 = reached_put [OF rx(1) this]
      from reached_skip [OF r9 c_phi [unfolded jc]] obtain m9 where m9: "reached F ar cs ps s s' env' False m m9"
        "m_regs m9 = m_regs (put (rep t x) m8)" unfolding jc by blast
      show ?thesis by (rule deliversI [OF m9(1)]) (use rx m9(2) reachedD(1) [OF rx(1)] in \<open>simp_all add: v\<close>)
    qed
    show ?thesis
    proof (cases "q \<noteq> 0")
      case True
      with reached_cond_br [OF once r5(1) c_cond q5 r1(3) _ c_b] obtain m6 where
        r6: "reached F ar cs ps s (branch_calls xc u) env1 False m m6" "m_block m6 = ?T" by (auto simp: bc)
      have ea: "eval F a env1 = Some (x, env')" "plain F (type_in env1) a" using br True pa(1) G by simp_all
      obtain m7 where r7: "reached F ar cs ps (branch_calls xc u) w env' (straight a) m6 m7"
        "operand ar (m_regs m7) y = Some (rep t x)" "wrap t x = x"
        by (rule computesD [OF IH(2) ea(2,1) ga c_ww reachedD(2,1) [OF r6(1)]]) (use pa(3) in simp_all)
      have r7': "reached F ar cs ps s w env' False m m7" by (rule reached_trans [OF r6(1) reached_weaken [OF r7(1)]]) simp
      have "m_block m7 = ?T" using r7(1) r6(2) pa(2) by (simp add: reached_def)
      with reached_br [OF once r7' c_brw c_r] obtain m8 where "reached F ar cs ps s ?r env' False m m8" "m_regs m8 = m_regs m7"
        "m_from m8 = Some ?T" using len coresw coresr by auto
      then show ?thesis using final r7(2,3) by simp
    next
      case False
      with reached_cond_br [OF once r5(1) c_cond q5 r1(3) _ c_w] obtain m6 where
        r6: "reached F ar cs ps s ?w env1 False m m6" "m_block m6 = ?F" using len coresw cores5 by auto
      have eb: "eval F b env1 = Some (x, env')" "plain F (type_in env1) b" using br False pb(1) G by simp_all
      obtain m7 where r7: "reached F ar cs ps ?w r env' (straight b) m6 m7"
        "operand ar (m_regs m7) z = Some (rep t x)" "wrap t x = x"
        by (rule computesD [OF IH(3) eb(2,1) gb c_rr reachedD(2,1) [OF r6(1)]]) (use pb(3) in simp_all)
      have r7': "reached F ar cs ps s r env' False m m7" by (rule reached_trans [OF r6(1) reached_weaken [OF r7(1)]]) simp
      have "m_block m7 = ?F" using r7(1) r6(2) pb(2) by (simp add: reached_def)
      with reached_br [OF once r7' c_brr c_r] obtain m8 where "reached F ar cs ps s ?r env' False m m8" "m_regs m8 = m_regs m7"
        "m_from m8 = Some ?F" by auto
      then show ?thesis using final r7(2,3) by simp
    qed
  qed
qed

subsection \<open>Calls\<close>

text \<open>The functions called return what the reference semantics says.\<close>

definition calls_ok :: "funs \<Rightarrow> arith \<Rightarrow> bool" where
  "calls_ok F ar \<longleftrightarrow> (\<forall>name r ts xs y. map_of (fn_sigs F) name = Some (r, ts) \<longrightarrow>
     list_all2 (\<lambda>t x. wrap t x = x) ts xs \<longrightarrow> fn_value F name xs = Some y \<longrightarrow>
     ar_call ar (fn_address F name) (map2 rep ts xs) = Some (rep r y) \<and> wrap r y = y)"

definition agrees :: "funs \<Rightarrow> arith \<Rightarrow> bool" where
  "agrees F ar \<longleftrightarrow> documented ar \<and> calls_ok F ar"

lemma those_map_Some [simp]: "those (map Some xs) = Some xs"
  by (induction xs) simp_all

lemma step_call:
  assumes "code_in cs (add_call (Build_Call (Val k) vs nm) s)" and "m_pc m = length (cg_calls s)"
    and "map (operand ar (m_regs m)) vs = map Some ws" and "ar_call ar k ws = Some w"
  shows "mstep ar cs ps m = Some (put w m)"
  using assms code_at [OF assms(1)] by (simp add: mstep_def)

lemma args_deliver:
  assumes IH: "\<And>e. e \<in> set es \<Longrightarrow> computes F ar cs ps self n e"
    and pl: "list_all (plain F (type_in env)) es" and ev: "eval_args F es env = Some (xs, env')"
    and run: "cmap (codegen_expr n self False) es s = Inr (vs, s')"
    and m: "code_in cs s'" "env_rel F (length (cg_calls s)) (cores s) env m" "m_pc m = length (cg_calls s)"
  shows "\<exists>m'. reached F ar cs ps s s' env' (list_all straight es) m m' \<and>
    map (operand ar (m_regs m')) vs = map Some (map2 rep (map expr_type es) xs) \<and>
    list_all2 (\<lambda>t x. wrap t x = x) (map expr_type es) xs"
  using assms
proof (induction es arbitrary: env s vs xs m)
  case Nil
  then show ?case using reached_refl by (fastforce simp: ret_runs)
next
  case (Cons e es)
  from Cons.prems(4) obtain v u vs' where e: "codegen_expr n self False e s = Inr (v, u)"
    "cmap (codegen_expr n self False) es u = Inr (vs', s')" "vs = v # vs'" by (auto simp: bind_runs ret_runs)
  have more: "more_calls u s'" using grows_map [of "codegen_expr n self False" es] grows_expr e(2) unfolding grows_def by blast
  from Cons.prems(3) obtain y env1 ys where y: "eval F e env = Some (y, env1)" "eval_args F es env1 = Some (ys, env')" "xs = y # ys"
    by (auto simp: bind_eq_Some_conv)
  have pe: "plain F (type_in env) e" using Cons.prems(2) by simp
  obtain m1 where r1: "reached F ar cs ps s u env1 (straight e) m m1" "operand ar (m_regs m1) v = Some (rep (expr_type e) y)"
    "wrap (expr_type e) y = y" and st: "stays s v u"
    by (rule computesD [OF Cons.prems(1) pe y(1) e(1) code_before [OF Cons.prems(5) more] Cons.prems(6,7)]) simp_all
  have "list_all (plain F (type_in env1)) es" using Cons.prems(2) type_in_shape [OF eval_shape(1) [OF y(1)]] by simp
  from Cons.IH [OF _ this y(2) e(2) Cons.prems(5) reachedD(2,1) [OF r1(1)]] Cons.prems(1)
  obtain m2 where r2: "reached F ar cs ps u s' env' (list_all straight es) m1 m2"
    "map (operand ar (m_regs m2)) vs' = map Some (map2 rep (map expr_type es) ys)"
    "list_all2 (\<lambda>t x. wrap t x = x) (map expr_type es) ys" by auto
  have "reached F ar cs ps s s' env' (list_all straight (e # es)) m m2"
    by (rule reached_trans [OF reached_weaken [OF r1(1)] reached_weaken [OF r2(1)]]) simp_all
  moreover have "operand ar (m_regs m2) v = Some (rep (expr_type e) y)"
    using reachedD(4) [OF r2(1) stays_cores(3) [OF st]] r1(2) by simp
  ultimately show ?case using r1(3) r2(2,3) by (auto simp: e(3) y(3))
qed

lemma call_delivers:
  assumes calls: "calls_ok F ar" and pl: "plain F (type_in env) (Expr l t (Call_Expr f args))"
    and ev: "eval F (Expr l t (Call_Expr f args)) env = Some (x, env')"
    and run: "codegen_call_expr n self (codegen_expr n self) False f args s = Inr (v, s')"
    and m: "code_in cs s'" "env_rel F (length (cg_calls s)) (cores s) env m" "m_pc m = length (cg_calls s)"
    and IH: "\<And>e. e \<in> set args \<Longrightarrow> computes F ar cs ps self n e"
  shows "delivers F ar cs ps s v s' t x env' (list_all straight args) m"
proof -
  have mt: "matches F env (cores s)" using m(2) by (simp add: env_rel_def)
  have args: "list_all (plain F (type_in env)) args" using pl by simp
  show ?thesis
  proof (rule call_runs [OF mt pl run])
    fix name vs u
    assume f: "function_of f = Some name" "map_of (fn_sigs F) name = Some (t, map expr_type args)"
      and r: "cmap (codegen_expr n self False) args s = Inr (vs, u)" and v: "v = Val (length (cg_calls u))"
      and s': "s' = add_call (Build_Call (Val (fn_address F name)) vs []) u"
    from ev f(1) obtain xs where xs: "eval_args F args env = Some (xs, env')" "fn_value F name xs = Some x"
      by (auto simp: bind_eq_Some_conv)
    note c = m(1) [unfolded s']
    obtain m1 where m1: "reached F ar cs ps s u env' (list_all straight args) m m1"
      "map (operand ar (m_regs m1)) vs = map Some (map2 rep (map expr_type args) xs)"
      "list_all2 (\<lambda>t x. wrap t x = x) (map expr_type args) xs"
      using args_deliver [OF IH args xs(1) r code_add [OF c] m(2,3)] by blast
    from calls f(2) m1(3) xs(2) have w: "ar_call ar (fn_address F name) (map2 rep (map expr_type args) xs) = Some (rep t x)"
      "wrap t x = x" unfolding calls_ok_def by blast+
    show ?thesis unfolding v s'
      by (rule delivers_put [OF m1(1) step_call [OF c reachedD(1) [OF m1(1)] m1(2) w(1)] w(2)])
  qed
qed

subsection \<open>All expressions\<close>

lemma all_computes:
  assumes once: "entered_once cs" and IH: "\<And>e. e \<in> set es \<Longrightarrow> computes F ar cs ps self n e"
    and pl: "list_all (plain F (type_in env)) es" and ev: "eval_all F es env = Some (x, env')"
    and run: "cmap (codegen_expr n self False) es s = Inr (vs, s')"
    and m: "code_in cs s'" "env_rel F (length (cg_calls s)) (cores s) env m" "m_pc m = length (cg_calls s)"
  shows "delivers F ar cs ps s (last vs) s' (expr_type (last es)) x env' (list_all straight es) m"
  using assms
proof (induction es arbitrary: env s vs m)
  case (Cons e es)
  from Cons.prems(5) obtain v u vs' where e: "codegen_expr n self False e s = Inr (v, u)"
    "cmap (codegen_expr n self False) es u = Inr (vs', s')" "vs = v # vs'" by (auto simp: bind_runs ret_runs)
  have more: "more_calls u s'" using grows_map [of "codegen_expr n self False" es] grows_expr e(2) unfolding grows_def by blast
  from Cons.prems(4) obtain y env1 where y: "eval F e env = Some (y, env1)"
    and rest: "if es = [] then x = y \<and> env' = env1 else eval_all F es env1 = Some (x, env')"
    by (auto simp: bind_eq_Some_conv split: if_splits)
  obtain m1 where r1: "reached F ar cs ps s u env1 (straight e) m m1" "operand ar (m_regs m1) v = Some (rep (expr_type e) y)"
    "wrap (expr_type e) y = y"
    by (rule computesD [OF Cons.prems(2) _ y e(1) code_before [OF Cons.prems(6) more] Cons.prems(7,8)]) (use Cons.prems(3) in auto)
  show ?case
  proof (cases "es = []")
    case True
    with e have "s' = u" "vs = [v]" by (simp_all add: ret_runs)
    with True rest r1 show ?thesis by (auto intro: deliversI)
  next
    case False
    have "vs' \<noteq> []" using e(2) False by (cases es) (auto simp: bind_runs ret_runs)
    have "delivers F ar cs ps u (last vs') s' (expr_type (last es)) x env' (list_all straight es) m1"
    proof (rule Cons.IH [OF once])
      show "list_all (plain F (type_in env1)) es" using Cons.prems(3) type_in_shape [OF eval_shape(1) [OF y]] by simp
      show "eval_all F es env1 = Some (x, env')" using rest False by simp
    qed (use Cons.prems(2,6) e(2) reachedD(1,2) [OF r1(1)] in auto)
    then obtain m2 where r2: "reached F ar cs ps u s' env' (list_all straight es) m1 m2"
      "operand ar (m_regs m2) (last vs') = Some (rep (expr_type (last es)) x)" "wrap (expr_type (last es)) x = x"
      by (auto simp: delivers_def)
    have "reached F ar cs ps s s' env' (list_all straight (e # es)) m m2"
      by (rule reached_trans [OF reached_weaken [OF r1(1)] reached_weaken [OF r2(1)]]) simp_all
    then show ?thesis by (rule deliversI) (use r2 e(3) \<open>vs' \<noteq> []\<close> False in simp_all)
  qed
qed simp

lemma expr_computes:
  assumes agrees: "agrees F ar" and after: "cg_after self = CHR 0x00 # as" and once: "entered_once cs"
  shows "computes F ar cs ps self n e"
proof (induction n arbitrary: e)
  case 0
  then show ?case by (simp add: computes_def fail_runs)
next
  case (Suc n)
  have ar: "documented ar" and calls: "calls_ok F ar" using agrees by (simp_all add: agrees_def)
  obtain l t k where e: "e = Expr l t k" by (cases e)
  show ?case unfolding computes_def
  proof (intro allI impI)
    fix env s v s' m x env'
    assume pl: "plain F (type_in env) e" and ev: "eval F e env = Some (x, env')"
      and run: "codegen_expr (Suc n) self False e s = Inr (v, s')"
      and m: "code_in cs s'" "env_rel F (length (cg_calls s)) (cores s) env m" "m_pc m = length (cg_calls s)"
    note pl' = pl [unfolded e] and ev' = ev [unfolded e]
    have t: "expr_type e = t" by (simp add: e)
    show "delivers F ar cs ps s v s' (expr_type e) x env' (straight e) m"
    proof (cases k)
      case (Ident_Expr name)
      then show ?thesis using run ident_delivers [OF pl' [unfolded Ident_Expr] ev' [unfolded Ident_Expr] _ m]
        by (simp add: e codegen_kind_def)
    next
      case (Number_Literal_Expr lit radix)
      then show ?thesis using run ev number_delivers [OF ar after pl' [unfolded Number_Literal_Expr] _ _ m(2,3)]
        by (auto simp: e codegen_kind_def)
    next
      case (Incdec_Expr a ord dir)
      then show ?thesis
        using run pl incdec_delivers [OF ar _ _ _ _ ev' [unfolded Incdec_Expr] _ m, where k = k]
        by (auto simp: e codegen_kind_def)
    next
      case (Unary_Expr a op)
      then show ?thesis using run unary_delivers [OF ar pl' [unfolded Unary_Expr] ev' [unfolded Unary_Expr] _ m Suc.IH]
        by (simp add: e codegen_kind_def)
    next
      case (Cast_Expr a ty)
      then show ?thesis using run cast_delivers [OF ar pl' [unfolded Cast_Expr] ev' [unfolded Cast_Expr] _ m Suc.IH]
        by (simp add: e codegen_kind_def)
    next
      case (Binary_Expr a b op)
      then show ?thesis using run binary_delivers [OF ar pl' [unfolded Binary_Expr] ev' [unfolded Binary_Expr] _ m Suc.IH Suc.IH]
        by (simp add: e codegen_kind_def)
    next
      case (Conditional_Expr c a b)
      then show ?thesis
        using run conditional_delivers [OF once pl' [unfolded Conditional_Expr] ev' [unfolded Conditional_Expr] _ m Suc.IH Suc.IH Suc.IH]
        by (simp add: e codegen_kind_def)
    next
      case (Assignment_Expr a b op)
      have mt: "matches F env (cores s)" using m(2) by (simp add: env_rel_def)
      note p = pl' [unfolded Assignment_Expr plain.simps]
      then obtain name where vn: "variable_of a = Some name" by blast
      have a: "plain F (type_in env) a" "t = expr_type a" "op = Assign \<or> is_integer t"
        and b: "plain F (type_in env) b" "expr_type b = t" using p by metis+
      have run': "codegen_assignment_expr self (codegen_expr n self) a b op s = Inr (v, s')"
        using run by (simp add: e Assignment_Expr codegen_kind_def)
      have "delivers F ar cs ps s v s' t x env' (straight b) m"
      proof (rule assignment_delivers [OF ar vn a ev' [unfolded Assignment_Expr] run' m])
        fix y w env1
        assume A: "eval F b env = Some (y, env1)" "codegen_expr n self False b s = Inr (v, w)" "code_in cs w"
        have "delivers F ar cs ps s v w (expr_type b) y env1 (straight b) m"
          using Suc.IH [of b] b(1) A m(2,3) unfolding computes_def by blast
        then show "delivers F ar cs ps s v w t y env1 (straight b) m \<and> stays s v w"
          using plain_stays [OF b(1) mt A(2)] b(2) by simp
      qed
      then show ?thesis by (simp add: e Assignment_Expr)
    next
      case (Call_Expr f args)
      then show ?thesis
        using run call_delivers [OF calls pl' [unfolded Call_Expr] ev' [unfolded Call_Expr] _ m Suc.IH]
        by (simp add: e codegen_kind_def)
    next
      case (Comma_Expr es)
      then have "es \<noteq> []" "list_all (plain F (type_in env)) es" "t = expr_type (last es)" using pl by (auto simp: e)
      moreover obtain vs where "cmap (codegen_expr n self False) es s = Inr (vs, s')" "v = last vs"
        using run by (auto simp: e Comma_Expr codegen_kind_def codegen_comma_expr_def cg_runs split: if_splits)
      ultimately show ?thesis
        using all_computes [OF once Suc.IH _ _ _ m] ev by (simp add: e Comma_Expr)
    qed (use pl in \<open>simp_all add: e\<close>)
  qed
qed

end
