(* ===== verification/Scopes.thy ===== *)
theory Scopes
  imports Expr_Values
begin

section \<open>Scopes, and where statements lead\<close>

subsection \<open>Opening and closing a scope\<close>

lemma valid_tl: "valid (tl env) (d, i) \<Longrightarrow> valid env (Suc d, i)"
  by (cases env) (auto simp: valid_def)

lemma var_at_tl: "valid (tl env) (d, i) \<Longrightarrow> var_at env (Suc d, i) = var_at (tl env) (d, i)"
  by (cases env) (auto simp: valid_def var_at_def)

lemma matches_tl: "matches F env cos \<Longrightarrow> env \<noteq> [] \<Longrightarrow> matches F (tl env) (tl cos)"
proof -
  assume "matches F env cos" and env: "env \<noteq> []"
  then obtain xs ys where xs: "cos = xs @ ys" "list_all2 (list_all2 var_symbol) env xs" "knows F ys" by (auto simp: matches_def)
  with env have "tl cos = tl xs @ ys" "list_all2 (list_all2 var_symbol) (tl env) (tl xs)"
    by (auto simp: neq_Nil_conv list_all2_Cons1)
  with xs(3) show "matches F (tl env) (tl cos)" unfolding matches_def by blast
qed

lemma cell_at_tl: "cell_at (tl cos) (d, i) = cell_at cos (Suc d, i)" if "tl cos \<noteq> [] \<or> d < length (tl cos)"
  using that by (cases cos) (auto simp: cell_at_def)

lemma env_pop:
  assumes "env_rel F B cos env m" and env: "env \<noteq> []"
  shows "env_rel F B (tl cos) (tl env) m"
proof -
  have m: "matches F env cos" using assms(1) by (simp add: env_rel_def)
  have c: "valid env (Suc (fst p), snd p) \<and> cell_at (tl cos) p = cell_at cos (Suc (fst p), snd p) \<and>
      var_at (tl env) p = var_at env (Suc (fst p), snd p)" if "valid (tl env) p" for p
  proof -
    obtain d i where p: "p = (d, i)" by (cases p)
    have "d < length (tl cos)" using matches_valid(1) [OF matches_tl [OF m env] that] p by simp
    then show ?thesis using valid_tl var_at_tl cell_at_tl that p by auto
  qed
  show ?thesis unfolding env_rel_def
  proof (intro conjI allI impI)
    show "matches F (tl env) (tl cos)" by (rule matches_tl [OF m env])
  next
    fix p assume "valid (tl env) p"
    with c assms show "cell_at (tl cos) p < B" "holds m (cell_at (tl cos) p) (var_at (tl env) p)"
      unfolding env_rel_def by metis+
  next
    fix p q assume A: "valid (tl env) p" "valid (tl env) q" "cell_at (tl cos) p = cell_at (tl cos) q"
    with c assms have "(Suc (fst p), snd p) = (Suc (fst q), snd q)" unfolding env_rel_def by metis
    then show "p = q" by (simp add: prod_eq_iff)
  qed
qed

lemma env_push:
  assumes "env_rel F B cos env m"
  shows "env_rel F B ([] # cos) ([] # env) m"
proof -
  have c: "fst p = Suc (fst p - 1) \<and> valid env (fst p - 1, snd p) \<and> cell_at ([] # cos) p = cell_at cos (fst p - 1, snd p) \<and>
      var_at ([] # env) p = var_at env (fst p - 1, snd p)" if "valid ([] # env) p" for p
    using that by (cases "fst p") (auto simp: valid_def cell_at_def var_at_def)
  have "matches F ([] # env) ([] # cos)" using assms unfolding env_rel_def matches_def
    by (metis append_Cons list.rel_inject(2) list_all2_Nil)
  moreover have "p = q" if "valid ([] # env) p" "valid ([] # env) q" "cell_at ([] # cos) p = cell_at ([] # cos) q" for p q
  proof -
    from that c assms have "(fst p - 1, snd p) = (fst q - 1, snd q)" unfolding env_rel_def by metis
    then show ?thesis using c [OF that(1)] c [OF that(2)] by (metis prod.inject prod_eq_iff)
  qed
  moreover have "cell_at ([] # cos) p < B \<and> holds m (cell_at ([] # cos) p) (var_at ([] # env) p)" if "valid ([] # env) p" for p
    using c [OF that] assms unfolding env_rel_def by metis
  ultimately show ?thesis unfolding env_rel_def by blast
qed

text \<open>The cells depend on the symbols only.\<close>

lemma env_rebase:
  assumes "env_rel F B cos env m" and "env_rel F B' cos env' m'" and "shape env' = shape env"
  shows "env_rel F B cos env' m'"
  using assms valid_shape [OF assms(3)] unfolding env_rel_def by blast

text \<open>A further variable in the innermost scope, in a new cell.\<close>

lemma env_new:
  assumes r: "env_rel F B (c # cos) (vs # env) m" and j: "B \<le> j" "j < B'" and v: "var_symbol v co" "cell co = j"
    and h: "holds m' j v"
    and m': "\<And>k. k < B \<Longrightarrow> m_regs m' k = m_regs m k" "\<And>k. k < B \<Longrightarrow> m_mem m' k = m_mem m k"
  shows "env_rel F B' ((c @ [co]) # cos) ((vs @ [v]) # env) m'"
proof -
  have m: "matches F (vs # env) (c # cos)" using r by (simp add: env_rel_def)
  then have l: "length vs = length c" by (auto simp: matches_def Cons_eq_append_conv list_all2_lengthD)
  have old: "valid (vs # env) p \<and> cell_at ((c @ [co]) # cos) p = cell_at (c # cos) p \<and>
      var_at ((vs @ [v]) # env) p = var_at (vs # env) p"
    if "valid ((vs @ [v]) # env) p" "p \<noteq> (0, length vs)" for p
    using that l by (cases p; cases "fst p") (auto simp: valid_def cell_at_def var_at_def nth_append)
  have new: "cell_at ((c @ [co]) # cos) (0, length vs) = j" "var_at ((vs @ [v]) # env) (0, length vs) = v"
    using v(2) nth_append_length [of c co "[]"] nth_append_length [of vs v "[]"]
    by (simp_all add: cell_at_def var_at_def l del: nth_append_length)
  have "env_rel F B' (c # cos) (vs # env) m'" by (rule env_frame [OF r _ m']) (use j in simp)
  then have old': "cell_at (c # cos) p < B \<and> holds m' (cell_at (c # cos) p) (var_at (vs # env) p)" if "valid (vs # env) p" for p
    using that r unfolding env_rel_def by blast
  show ?thesis unfolding env_rel_def
  proof (intro conjI allI impI)
    from m v(1) show "matches F ((vs @ [v]) # env) ((c @ [co]) # cos)"
      by (auto simp: matches_def Cons_eq_append_conv list_all2_append2)
        (metis append_Cons list.rel_inject(2) list_all2_Nil list_all2_appendI list_all2_Cons)
  next
    fix p assume p: "valid ((vs @ [v]) # env) p"
    show "cell_at ((c @ [co]) # cos) p < B'" "holds m' (cell_at ((c @ [co]) # cos) p) (var_at ((vs @ [v]) # env) p)"
      using old [OF p] old' [of p] new h j by (cases "p = (0, length vs)"; fastforce)+
  next
    fix p q assume pq: "valid ((vs @ [v]) # env) p" "valid ((vs @ [v]) # env) q"
      "cell_at ((c @ [co]) # cos) p = cell_at ((c @ [co]) # cos) q"
    have inj: "p = q" if "valid (vs # env) p" "valid (vs # env) q" "cell_at (c # cos) p = cell_at (c # cos) q"
      using r that unfolding env_rel_def by blast
    have low: "cell_at ((c @ [co]) # cos) z \<noteq> j" if "valid ((vs @ [v]) # env) z" "z \<noteq> (0, length vs)" for z
      using old [OF that] old' [of z] j(1) by linarith
    show "p = q"
    proof (cases "p = (0, length vs) \<or> q = (0, length vs)")
      case True
      then show ?thesis using low [OF pq(1)] low [OF pq(2)] pq(3) new(1) by metis
    next
      case False
      then show ?thesis using inj old [OF pq(1)] old [OF pq(2)] pq(3) by metis
    qed
  qed
qed

subsection \<open>Arriving at a call\<close>

text \<open>
  The machine runs to the call number \<open>p\<close>. The variables are then as in \<open>env\<close>, in cells allocated before
  \<open>B\<close>, and the results of the calls before \<open>B\<close> are kept.
\<close>

definition arrives ::
    "funs \<Rightarrow> arith \<Rightarrow> call list \<Rightarrow> mval list \<Rightarrow> nat \<Rightarrow> core list list \<Rightarrow> env \<Rightarrow> nat \<Rightarrow> machine \<Rightarrow> machine \<Rightarrow> bool" where
  "arrives F ar cs ps B cos env p m m' \<longleftrightarrow> runs ar cs ps m m' \<and> m_pc m' = p \<and> env_rel F B cos env m' \<and>
     (\<forall>k < B. m_regs m' k = m_regs m k)"

lemma arrives_refl: "m_pc m = p \<Longrightarrow> env_rel F B cos env m \<Longrightarrow> arrives F ar cs ps B cos env p m m"
  by (simp add: arrives_def)

lemma arrives_trans:
  assumes "arrives F ar cs ps B cos env1 p1 m m1" and "arrives F ar cs ps B1 cos env2 p2 m1 m2" and "B \<le> B1"
    and "shape env2 = shape env1"
  shows "arrives F ar cs ps B cos env2 p2 m m2"
  using assms runs_trans env_rebase [of F B cos env1 m1 B1 env2 m2] by (fastforce simp: arrives_def)

lemma arrivesD:
  assumes "arrives F ar cs ps B cos env p m m'"
  shows "m_pc m' = p" and "B \<le> B' \<Longrightarrow> env_rel F B' cos env m'"
  using assms by (auto simp: arrives_def elim: env_frame)

lemma reached_arrives:
  assumes "reached F ar cs ps s s' env' b m m'" and "env_rel F (length (cg_calls s)) (cores s) env m" and "shape env' = shape env"
    and "cores s' = cores s"
  shows "arrives F ar cs ps (length (cg_calls s)) (cores s) env' (length (cg_calls s')) m m'"
  using assms env_rebase [OF assms(2) _ assms(3)] by (auto simp: reached_def arrives_def)

lemma arrives_reached:
  assumes "arrives F ar cs ps (length (cg_calls s)) (cores s) env' (length (cg_calls s')) m m'" and "more_calls s s'"
    and "cores s' = cores s"
  shows "reached F ar cs ps s s' env' False m m'"
  using assms(1,3) more_calls_length [OF assms(2)] arrivesD(2) [OF assms(1) more_calls_length [OF assms(2)]]
  by (simp add: reached_def arrives_def)

lemma arrives_skip:
  assumes r: "arrives F ar cs ps B cos env (length (cg_calls u)) m m1" and c: "code_in cs (add_call c u)"
    and k: "c = Get_Insert_Block \<or> (\<exists>b. c = Get_Basic_Block_Parent b) \<or> (\<exists>f nm. c = Append_Basic_Block f nm) \<or>
      (\<exists>w inc. c = Add_Incoming w inc) \<or> (\<exists>w nm. c = Set_Value_Name w nm)"
  obtains m2 where "arrives F ar cs ps B cos env (length (cg_calls (add_call c u))) m m2" and "m_regs m2 = m_regs m1"
proof
  show "arrives F ar cs ps B cos env (length (cg_calls (add_call c u))) m (next_call m1)"
    using r step_next [OF c _ k] env_frame [of F B cos env m1 B "next_call m1"]
    by (auto simp: arrives_def intro: runs_snoc)
qed simp

lemma arrives_jump:
  assumes r: "arrives F ar cs ps B cos env q m m1" and st: "mstep ar cs ps m1 = Some (at_block p b m1)"
  shows "arrives F ar cs ps B cos env (Suc p) m (at_block p b m1)"
  using r st env_frame [of F B cos env m1 B "at_block p b m1"] by (auto simp: arrives_def intro: runs_snoc)

lemma arrives_br:
  assumes r: "arrives F ar cs ps B cos env (length (cg_calls u)) m m1" and c: "code_in cs (add_call (Build_Br b) u)"
    and l: "label_of cs b = Some p"
  obtains m2 where "arrives F ar cs ps B cos env (Suc p) m m2" and "m_regs m2 = m_regs m1"
  by (rule that [OF arrives_jump [OF r step_br [OF c arrivesD(1) [OF r] l]]]) simp

lemma arrives_cond_br:
  assumes r: "arrives F ar cs ps B cos env (length (cg_calls u)) m m1" and c: "code_in cs (add_call (Build_Cond_Br v t e) u)"
    and v: "operand ar (m_regs m1) v = Some (rep bool_type x)" "wrap bool_type x = x"
    and l: "label_of cs (if x \<noteq> 0 then t else e) = Some p"
  obtains m2 where "arrives F ar cs ps B cos env (Suc p) m m2" and "m_regs m2 = m_regs m1"
proof -
  have "mstep ar cs ps m1 = Some (at_block p (if x \<noteq> 0 then t else e) m1)"
    by (rule step_cond_br [OF c arrivesD(1) [OF r], of ar 1 x]) (use v l in \<open>simp_all add: rep_def bool_type_def\<close>)
  then show thesis by (rule that [OF arrives_jump [OF r]]) simp
qed

subsection \<open>Leaving a statement by a jump\<close>

definition leaves ::
    "funs \<Rightarrow> arith \<Rightarrow> call list \<Rightarrow> mval list \<Rightarrow> codegen_t \<Rightarrow> type_t \<Rightarrow> nat \<Rightarrow> core list list \<Rightarrow> outcome \<Rightarrow> env \<Rightarrow> machine \<Rightarrow> bool" where
  "leaves F ar cs ps self rt B cos r env m \<longleftrightarrow> (case r of
     Normal \<Rightarrow> False
   | Broke \<Rightarrow> \<exists>l p m'. cg_break_block self = Some l \<and> label_of cs l = Some p \<and> arrives F ar cs ps B cos env (Suc p) m m'
   | Continued \<Rightarrow> \<exists>l p m'. cg_continue_block self = Some l \<and> label_of cs l = Some p \<and> arrives F ar cs ps B cos env (Suc p) m m'
   | Returned v \<Rightarrow> (\<forall>x. v = Some x \<longrightarrow> wrap rt x = x) \<and>
       (\<exists>m'. runs ar cs ps m m' \<and> returning ar cs m' (map_option (rep rt) v)))"

lemma leaves_after:
  assumes "runs ar cs ps m m1" and "\<And>k. k < B \<Longrightarrow> m_regs m1 k = m_regs m k" and "B \<le> B1"
    and "env_rel F B cos env0 m0" and "shape env = shape env0" and "leaves F ar cs ps self rt B1 cos r env m1"
  shows "leaves F ar cs ps self rt B cos r env m"
proof -
  have "arrives F ar cs ps B cos env p m m2" if "arrives F ar cs ps B1 cos env p m1 m2" for p m2
    using that assms(1-3) env_rebase [OF assms(4) _ assms(5)] by (fastforce simp: arrives_def intro: runs_trans)
  with assms(6) runs_trans [OF assms(1)] show ?thesis unfolding leaves_def by (cases r; simp; blast)
qed

lemma arrives_leaves:
  assumes "arrives F ar cs ps B cos env1 p m m1" and "B \<le> B1" and "shape env = shape env1"
    and "leaves F ar cs ps self rt B1 cos r env m1"
  shows "leaves F ar cs ps self rt B cos r env m"
  by (rule leaves_after [OF _ _ assms(2) _ assms(3,4)]) (use assms(1) in \<open>auto simp: arrives_def\<close>)

lemma leaves_pop: "leaves F ar cs ps self rt B cos r env m \<Longrightarrow> env \<noteq> [] \<Longrightarrow> leaves F ar cs ps self rt B (tl cos) r (tl env) m"
  unfolding leaves_def arrives_def by (cases r; simp) (blast intro: env_pop)+

lemma flags_add_call [simp]: "flags (add_call c s) = flags s"
  by (simp add: flags_def)

text \<open>What is to be shown of a statement.\<close>

definition follows ::
    "funs \<Rightarrow> arith \<Rightarrow> call list \<Rightarrow> mval list \<Rightarrow> codegen_t \<Rightarrow> type_t \<Rightarrow> cg_state \<Rightarrow> cg_state \<Rightarrow> outcome \<Rightarrow> env \<Rightarrow> machine \<Rightarrow> bool" where
  "follows F ar cs ps self rt s s' r env m \<longleftrightarrow> (if r = Normal
     then flags s' = flags s \<and> (\<exists>m'. arrives F ar cs ps (length (cg_calls s)) (cores s) env (length (cg_calls s')) m m')
     else leaves F ar cs ps self rt (length (cg_calls s)) (cores s) r env m)"

definition proper :: "call list \<Rightarrow> codegen_t \<Rightarrow> type_t \<Rightarrow> bool" where
  "proper cs self rt \<longleftrightarrow> cg_unit self = Some rt \<and> (\<exists>as. cg_after self = CHR 0x00 # as) \<and>
     (\<forall>l. cg_break_block self = Some l \<or> cg_continue_block self = Some l \<longrightarrow> label_of cs l \<noteq> None)"

definition executes :: "funs \<Rightarrow> arith \<Rightarrow> call list \<Rightarrow> mval list \<Rightarrow> type_t \<Rightarrow> stmt_gen \<Rightarrow> (stmt \<Rightarrow> run) \<Rightarrow> bool" where
  "executes F ar cs ps rt gen ex \<longleftrightarrow> (\<forall>self x env r env' s s' m. proper cs self rt \<longrightarrow> ex x env = Some (r, env') \<longrightarrow>
     gen self x s = Inr ((), s') \<longrightarrow> code_in cs s' \<longrightarrow> env_rel F (length (cg_calls s)) (cores s) env m \<longrightarrow>
     m_pc m = length (cg_calls s) \<longrightarrow>
     follows F ar cs ps self rt s s' r env' m \<and> cores s' = cores s \<and> shape env' = shape env)"

lemma executesD:
  assumes "executes F ar cs ps rt gen ex" and "proper cs self rt" and "ex x env = Some (r, env')" and "gen self x s = Inr ((), s')"
    and "code_in cs s'" and "env_rel F (length (cg_calls s)) (cores s) env m" and "m_pc m = length (cg_calls s)"
  shows "follows F ar cs ps self rt s s' r env' m" and "cores s' = cores s" and "shape env' = shape env"
  using assms unfolding executes_def by blast+

lemma opt_executes:
  assumes "executes F ar cs ps rt gen ex" and "proper cs self rt" and "exec_opt ex x env = Some (r, env')"
    and "opt_stmt gen self x s = Inr ((), s')"
    and "code_in cs s'" and "env_rel F (length (cg_calls s)) (cores s) env m" and "m_pc m = length (cg_calls s)"
  shows "follows F ar cs ps self rt s s' r env' m \<and> cores s' = cores s \<and> shape env' = shape env"
proof (cases x)
  case None
  with assms(3,4) arrives_refl [OF assms(7,6)] show ?thesis by (auto simp: exec_opt_def opt_stmt_def ret_runs follows_def)
next
  case (Some y)
  with assms(3,4) have "ex y env = Some (r, env')" "gen self y s = Inr ((), s')" by (simp_all add: exec_opt_def opt_stmt_def)
  with executesD [OF assms(1,2) _ _ assms(5-7)] show ?thesis by blast
qed

end
