(* ===== verification/Stmt_Runs.thy ===== *)
theory Stmt_Runs
  imports Scopes
begin

section \<open>Running the code of declarations, scopes and jumps\<close>

subsection \<open>Expressions\<close>

lemma top_computes:
  assumes ar: "agrees F ar" and once: "entered_once cs" and self: "cg_after self = CHR 0x00 # as"
    and el: "elab F env e h = Some e'" and ev: "eval F e' env = Some (x, env')"
    and run: "codegen_expr_top n self False e h s = Inr ((e2, v), s')"
    and m: "code_in cs s'" "env_rel F (length (cg_calls s)) (cores s) env m" "m_pc m = length (cg_calls s)"
  obtains m' where "e2 = e'" and "plain F (type_in env) e'" and "stays s v s'" and "shape env' = shape env"
    and "reached F ar cs ps s s' env' False m m'"
    and "arrives F ar cs ps (length (cg_calls s)) (cores s) env' (length (cg_calls s')) m m'"
    and "operand ar (m_regs m') v = Some (rep (expr_type e') x)" and "wrap (expr_type e') x = x"
proof -
  from run obtain u where u: "prepare_expr n e h s = Inr (e2, u)" "codegen_expr n self False e2 u = Inr (v, s')"
    by (auto simp: codegen_expr_top_def cg_runs)
  have "matches F env (cores s)" using m(2) by (simp add: env_rel_def)
  from elab_prepare [OF el this u(1)] have e: "e2 = e'" "u = s" "plain F (type_in env) e'" by simp_all
  obtain m' where m': "reached F ar cs ps s s' env' (straight e') m m'" "operand ar (m_regs m') v = Some (rep (expr_type e') x)"
    "wrap (expr_type e') x = x" "stays s v s'"
    by (rule computesD [OF expr_computes [OF ar self once] e(3) ev u(2) [unfolded e(1,2)] m])
  note sh = eval_shape(1) [OF ev]
  have r: "reached F ar cs ps s s' env' False m m'" by (rule reached_weaken [OF m'(1)]) simp
  show thesis
    by (rule that [OF e(1,3) m'(4) sh r reached_arrives [OF r m(2) sh stays_cores(1) [OF m'(4)]] m'(2,3)])
qed

lemma opt_expr_arrives:
  assumes ar: "agrees F ar" and once: "entered_once cs" and self: "cg_after self = CHR 0x00 # as"
    and ex: "exec_expr F e env = Some env'" and run: "codegen_opt_expr n self e s = Inr ((), s')"
    and m: "code_in cs s'" "env_rel F (length (cg_calls s)) (cores s) env m" "m_pc m = length (cg_calls s)"
  obtains m' where "arrives F ar cs ps (length (cg_calls s)) (cores s) env' (length (cg_calls s')) m m'"
    and "cg_contexts s' = cg_contexts s" and "shape env' = shape env"
proof (cases e)
  case None
  with ex run have "env' = env" "s' = s" by (simp_all add: exec_expr_def codegen_opt_expr_def ret_runs)
  with that [of m] arrives_refl [OF m(3,2)] show thesis by simp
next
  case (Some a)
  with ex obtain a' x where a: "elab F env a None = Some a'" "eval F a' env = Some (x, env')"
    by (auto simp: exec_expr_def bind_eq_Some_conv)
  from run Some obtain e2 v where r: "codegen_expr_top n self False a None s = Inr ((e2, v), s')"
    by (auto simp: codegen_opt_expr_def cg_runs)
  show thesis
    by (rule top_computes [OF ar once self a r m]) (auto simp: stays_def intro: that)
qed

lemma condition_arrives:
  assumes ar: "agrees F ar" and once: "entered_once cs" and self: "cg_after self = CHR 0x00 # as"
    and ex: "exec_condition F c env = Some (b, env')"
    and run: "codegen_expr_top n self False c (hint_of bool_type) s = Inr ((e2, v), s')"
    and m: "code_in cs s'" "env_rel F (length (cg_calls s)) (cores s) env m" "m_pc m = length (cg_calls s)"
  obtains m' x where "arrives F ar cs ps (length (cg_calls s)) (cores s) env' (length (cg_calls s')) m m'"
    and "cg_contexts s' = cg_contexts s" and "shape env' = shape env" and "b \<longleftrightarrow> x \<noteq> 0"
    and "operand ar (m_regs m') v = Some (rep bool_type x)" and "wrap bool_type x = x"
proof -
  from ex obtain c' x where c: "elab F env c (hint_of bool_type) = Some c'" "expr_type c' = bool_type"
    "eval F c' env = Some (x, env')" "b \<longleftrightarrow> x \<noteq> 0"
    by (auto simp: exec_condition_def bind_eq_Some_conv split: if_splits)
  show thesis
    by (rule top_computes [OF ar once self c(1,3) run m]) (use c in \<open>auto simp: stays_def intro: that\<close>)
qed

subsection \<open>Jumps\<close>

lemma terminated_runs [cg_runs]:
  "set_terminated s = Inr (u, s') \<longleftrightarrow> (\<exists>c cs. cg_contexts s = c # cs \<and> s' = s\<lparr>cg_contexts := c\<lparr>cc_is_terminated := True\<rparr> # cs\<rparr>)"
  by (auto simp: set_terminated_def with_context_def split: list.split)

lemma terminated_same:
  assumes "set_terminated s = Inr (u, s')"
  shows "cg_calls s' = cg_calls s" and "cores s' = cores s"
  using assms by (auto simp: terminated_runs cores_def)

lemma code_in_calls: "cg_calls s = cg_calls s' \<Longrightarrow> code_in cs s = code_in cs s'"
  by (simp add: code_in_def)

lemma jump_leaves:
  assumes run: "codegen_jump self (Some l) msg s = Inr ((), s')" and l: "label_of cs l = Some p"
    and m: "code_in cs s'" "env_rel F (length (cg_calls s)) (cores s) env m" "m_pc m = length (cg_calls s)"
  shows "\<exists>m'. arrives F ar cs ps (length (cg_calls s)) (cores s) env (Suc p) m m'" and "cores s' = cores s"
proof -
  from run obtain u where u: "u = add_call (Build_Br l) s" "set_terminated u = Inr ((), s')"
    by (auto simp: codegen_jump_def seq_runs exec_runs)
  note same = terminated_same [OF u(2)]
  have "code_in cs (add_call (Build_Br l) s)" using m(1) code_in_calls [OF same(1)] u(1) by simp
  then show "\<exists>m'. arrives F ar cs ps (length (cg_calls s)) (cores s) env (Suc p) m m'"
    using arrives_br [OF arrives_refl [OF m(3,2)] _ l] by metis
  show "cores s' = cores s" using same(2) u(1) by simp
qed

lemma return_leaves:
  assumes ar: "agrees F ar" and once: "entered_once cs" and self: "cg_after self = CHR 0x00 # as" "cg_unit self = Some rt"
    and ex: "exec_return F rt e env = Some (r, env')" and run: "codegen_return n self e s = Inr ((), s')"
    and m: "code_in cs s'" "env_rel F (length (cg_calls s)) (cores s) env m" "m_pc m = length (cg_calls s)"
  shows "r \<noteq> Normal" and "leaves F ar cs ps self rt B cos r env' m" and "cores s' = cores s" and "shape env' = shape env"
proof -
  have "r \<noteq> Normal \<and> leaves F ar cs ps self rt B cos r env' m \<and> cores s' = cores s \<and> shape env' = shape env"
  proof (cases e)
    case None
    from run None obtain u where u: "u = add_call Build_Ret_Void s" "set_terminated u = Inr ((), s')"
      by (auto simp: codegen_return_def seq_runs exec_runs)
    note same = terminated_same [OF u(2)]
    have "code_in cs (add_call Build_Ret_Void s)" using m(1) code_in_calls [OF same(1)] u(1) by simp
    from code_at [OF this] have "returning ar cs m None" using m(3) by (simp add: returning_def)
    then show ?thesis using ex same(2) u(1) None
      by (auto simp: exec_return_def leaves_def split: if_splits intro!: exI [of _ m])
  next
    case (Some a)
    with ex obtain a' x where a: "elab F env a (hint_of rt) = Some a'" "eval F a' env = Some (x, env')" "expr_type a' = rt"
      "r = Returned (Some x)"
      by (auto simp: exec_return_def bind_eq_Some_conv split: if_splits)
    from run Some self(2) obtain e2 v w u where w: "codegen_expr_top n self False a (hint_of rt) s = Inr ((e2, v), w)"
      and u: "u = add_call (Build_Ret v) w" "set_terminated u = Inr ((), s')"
      by (auto simp: codegen_return_def cg_runs)
    note same = terminated_same [OF u(2)]
    have c: "code_in cs (add_call (Build_Ret v) w)" using m(1) code_in_calls [OF same(1)] u(1) by simp
    show ?thesis
    proof (rule top_computes [OF ar once self(1) a(1,2) w code_add [OF c] m(2,3)])
      fix m'
      assume s: "stays s v w" "shape env' = shape env"
        and r: "arrives F ar cs ps (length (cg_calls s)) (cores s) env' (length (cg_calls w)) m m'"
        "operand ar (m_regs m') v = Some (rep (expr_type a') x)" "wrap (expr_type a') x = x"
      have "returning ar cs m' (Some (rep rt x))"
        using code_at [OF c] arrivesD(1) [OF r(1)] r(2) a(3) by (simp add: returning_def)
      then show ?thesis using r(1,3) a(3,4) same(2) u(1) s stays_cores(1) [OF s(1)]
        by (auto simp: leaves_def arrives_def)
    qed
  qed
  then show "r \<noteq> Normal" "leaves F ar cs ps self rt B cos r env' m" "cores s' = cores s" "shape env' = shape env" by simp_all
qed

subsection \<open>Declarations\<close>

lemma symbol_runs [cg_runs]:
  "codegen_context_add_symbol sy s = Inr (u, s') \<longleftrightarrow>
     (\<exists>c cs. cg_contexts s = c # cs \<and> s' = s\<lparr>cg_contexts := c\<lparr>cc_symbols := cc_symbols c @ [sy]\<rparr> # cs\<rparr>)"
  by (auto simp: codegen_context_add_symbol_def with_context_def split: list.split)

lemma symbol_same:
  assumes "codegen_context_add_symbol sy s = Inr (u, s')"
  shows "cg_calls s' = cg_calls s" and "flags s' = flags s" and "cores s = c # cos \<Longrightarrow> cores s' = (c @ [core sy]) # cos"
  using assms by (auto simp: symbol_runs cores_def flags_def)

lemma step_alloca:
  assumes "code_in cs (add_call (Build_Alloca t nm) s)" and "m_pc m = length (cg_calls s)"
  shows "mstep ar cs ps m = Some ((put (Ptr_Val (m_pc m)) m)\<lparr>m_mem := (m_mem m)(m_pc m := None)\<rparr>)"
  using assms code_at [OF assms(1)] by (simp add: mstep_def)

lemma reached_alloca:
  assumes r: "reached F ar cs ps s u env b m m1" and c: "code_in cs (add_call (Build_Alloca t nm) u)"
  obtains m2 where "reached F ar cs ps s (add_call (Build_Alloca t nm) u) env b m m2"
    and "m_regs m2 = (m_regs m1)(length (cg_calls u) := Some (Ptr_Val (length (cg_calls u))))"
    and "\<And>k. k < length (cg_calls u) \<Longrightarrow> m_mem m2 k = m_mem m1 k"
proof
  note pc = reachedD(1) [OF r]
  define m2 where "m2 = (put (Ptr_Val (m_pc m1)) m1)\<lparr>m_mem := (m_mem m1)(m_pc m1 := None)\<rparr>"
  have "env_rel F (Suc (length (cg_calls u))) (cores u) env m2"
    by (rule env_frame [OF reachedD(2) [OF r]]) (simp_all add: m2_def pc)
  with r step_alloca [OF c pc] show "reached F ar cs ps s (add_call (Build_Alloca t nm) u) env b m m2"
    by (auto simp: reached_def m2_def intro: runs_snoc)
  show "m_regs m2 = (m_regs m1)(length (cg_calls u) := Some (Ptr_Val (length (cg_calls u))))" by (simp add: m2_def pc)
  show "m_mem m2 k = m_mem m1 k" if "k < length (cg_calls u)" for k using that by (simp add: m2_def pc)
qed

text \<open>A store to a cell that is not yet, or already, that of a variable.\<close>

lemma reached_store_new:
  assumes r: "reached F ar cs ps s u env b m m1" and c: "code_in cs (add_call (Build_Store v (Val j)) u)"
    and v: "operand ar (m_regs m1) v = Some x" "m_regs m1 j = Some (Ptr_Val j)"
    and j: "\<And>p. valid env p \<Longrightarrow> cell_at (cores u) p \<noteq> j"
  obtains m2 where "reached F ar cs ps s (add_call (Build_Store v (Val j)) u) env b m m2"
    and "m_regs m2 = m_regs m1" and "m_mem m2 = (m_mem m1)(j := Some x)"
proof
  define m2 where "m2 = (next_call m1)\<lparr>m_mem := (m_mem m1)(j := Some x)\<rparr>"
  have st: "mstep ar cs ps m1 = Some m2"
    using step_store [OF c reachedD(1) [OF r] v(1)] v(2) by (simp add: m2_def)
  note rel = reachedD(2) [OF r]
  have h: "holds m2 (cell_at (cores u) p) (var_at env p)" if p: "valid env p" for p
  proof -
    have "holds m1 (cell_at (cores u) p) (var_at env p)" using rel p unfolding env_rel_def by blast
    with j [OF p] show ?thesis by (simp add: holds_def m2_def)
  qed
  have "env_rel F (length (cg_calls u)) (cores u) env m2" using rel h unfolding env_rel_def by blast
  then have "env_rel F (Suc (length (cg_calls u))) (cores u) env m2" by (rule env_frame) simp_all
  with r st show "reached F ar cs ps s (add_call (Build_Store v (Val j)) u) env b m m2"
    by (auto simp: reached_def m2_def intro: runs_snoc)
  show "m_regs m2 = m_regs m1" "m_mem m2 = (m_mem m1)(j := Some x)" by (simp_all add: m2_def)
qed

lemma reached_store_at:
  assumes r: "reached F ar cs ps s u env b m m1" and p: "valid env p" and t: "var_type (var_at env p) = t" "wrap t x = x"
    and c: "code_in cs (add_call (Build_Store v (Val (cell_at (cores u) p))) u)" and v: "operand ar (m_regs m1) v = Some (rep t x)"
  obtains m2 where "reached F ar cs ps s (add_call (Build_Store v (Val (cell_at (cores u) p))) u) (set_at env p x) b m m2"
proof -
  let ?j = "cell_at (cores u) p"
  have "m_regs m1 ?j = Some (Ptr_Val ?j)" using reachedD(2) [OF r] p unfolding env_rel_def holds_def by blast
  then have st: "mstep ar cs ps m1 = Some ((next_call m1)\<lparr>m_mem := (m_mem m1)(?j := Some (rep t x))\<rparr>)" (is "_ = Some ?m2")
    using step_store [OF c reachedD(1) [OF r] v] by simp
  have "env_rel F (length (cg_calls u)) (cores u) (set_at env p x) ?m2"
    by (rule env_set_at [OF reachedD(2) [OF r] p]) (simp_all add: t)
  then have "env_rel F (Suc (length (cg_calls u))) (cores u) (set_at env p x) ?m2" by (rule env_frame) simp_all
  with r st have "reached F ar cs ps s (add_call (Build_Store v (Val ?j)) u) (set_at env p x) b m ?m2"
    by (auto simp: reached_def intro: runs_snoc)
  then show thesis by (rule that)
qed

text \<open>The new variable comes into scope.\<close>

lemma reached_symbol:
  assumes r: "reached F ar cs ps s u (vs # env) b m m1" and run: "codegen_context_add_symbol (variable_symbol name t d (Val j)) u = Inr ((), s')"
    and j: "j < length (cg_calls u)" "\<And>p. valid (vs # env) p \<Longrightarrow> cell_at (cores u) p < j"
    and h: "holds m1 j (Var name t x)"
  shows "reached F ar cs ps s s' ((vs @ [Var name t x]) # env) b m m1"
    and "\<exists>c cos. cores s' = (c @ [core (variable_symbol name t d (Val j))]) # cos \<and> length c = length vs"
proof -
  note same = symbol_same [OF run]
  let ?co = "core (variable_symbol name t d (Val j))"
  have m: "matches F (vs # env) (cores u)" by (rule reachedD(3) [OF r])
  then obtain c cos where c: "cores u = c # cos" "length c = length vs"
    by (auto simp: matches_def Cons_eq_append_conv list_all2_Cons1 dest: list_all2_lengthD)
  have "env_rel F j (c # cos) (vs # env) m1" using reachedD(2) [OF r] j(2) unfolding env_rel_def c(1) by blast
  then have "env_rel F (length (cg_calls u)) ((c @ [?co]) # cos) ((vs @ [Var name t x]) # env) m1"
    by (rule env_new [where j = j]) (use j h in \<open>simp_all add: variable_symbol_def no_symbol_def core_def cell_def\<close>)
  with r same(1) same(3) [OF c(1)] show "reached F ar cs ps s s' ((vs @ [Var name t x]) # env) b m m1"
    by (simp add: reached_def)
  show "\<exists>c cos. cores s' = (c @ [?co]) # cos \<and> length c = length vs" using same(3) [OF c(1)] c(2) by blast
qed

lemma fresh_cell:
  assumes "env_rel F B cos env m" and "valid env p" and "B \<le> j"
  shows "cell_at cos p < j"
  using assms unfolding env_rel_def by (meson order_less_le_trans)

lemma typed_variable_reaches:
  assumes ar: "agrees F ar" and once: "entered_once cs" and self: "cg_after self = CHR 0x00 # as" and ty: "scalar ty"
    and env1: "env1 = (vs @ [Var (Some name) ty None]) # env0"
    and ex: "case initial of None \<Rightarrow> env' = set_last env1 0
      | Some e \<Rightarrow> \<exists>e' x env2. elab F env1 e (hint_of ty) = Some e' \<and> expr_type e' = ty \<and> eval F e' env1 = Some (x, env2) \<and>
          env' = set_last env2 x"
    and run: "codegen_typed_variable n self d ty name initial s = Inr ((), s')"
    and m: "code_in cs s'" "env_rel F (length (cg_calls s)) (cores s) (vs # env0) m" "m_pc m = length (cg_calls s)"
  shows "\<exists>m'. reached F ar cs ps s s' env' False m m' \<and> flags s' = flags s \<and> shape env' = shape env1"
proof -
  let ?j = "length (cg_calls s)" and ?t = "Ty_Int (bits ty)"
  let ?s1 = "add_call (Build_Alloca ?t name) s"
  from run obtain lt u1 where "codegen_type n False ty s = Inr (lt, u1)" by (auto simp: codegen_typed_variable_def cg_runs)
  from type_runs [OF ty this] run this obtain s2 where
    s2: "codegen_context_add_symbol (variable_symbol (Some name) ty (Some d) (Val ?j)) ?s1 = Inr ((), s2)"
    and rest: "(case initial of None \<Rightarrow> exec self (Build_Store (Const_Null ?t) (Val ?j))
      | Some e \<Rightarrow> cbind (codegen_expr_top n self False e (hint_of ty)) (\<lambda>(e', val).
          cbind (clift (type_equal ty (settled_type e'))) (\<lambda>b.
          if \<not> b then
            cbind (clift (type_describe (settled_type e'))) (\<lambda>t1. cbind (clift (type_describe ty)) (\<lambda>t2.
            derror (''initial value of variable '' @ name @ '' is of type '' @ t1 @ '', but should be '' @ t2)))
          else exec self (Build_Store val (Val ?j))))) s2 = Inr ((), s')"
    by (auto simp: codegen_typed_variable_def bind_runs seq_runs build_runs)
  note same = symbol_same [OF s2]
  from rest obtain val s3 where s': "s' = add_call (Build_Store val (Val ?j)) s3"
    and e: "case initial of None \<Rightarrow> val = Const_Null ?t \<and> s3 = s2
      | Some e \<Rightarrow> \<exists>e'. codegen_expr_top n self False e (hint_of ty) s2 = Inr ((e', val), s3)"
    by (cases initial) (auto simp: cg_runs split: if_splits prod.splits)
  have c3: "code_in cs s3" using m(1) s' by (metis code_add)
  have "more_calls s2 s3" using e grows_expr_top unfolding grows_def
    by (cases initial) (simp, fastforce)
  then have c1: "code_in cs ?s1" using code_before [OF c3] code_in_calls [OF same(1)] by metis
  obtain m1 where r1: "reached F ar cs ps s ?s1 (vs # env0) False m m1"
    and regs1: "m_regs m1 = (m_regs m)(?j := Some (Ptr_Val ?j))"
    by (rule reached_alloca [OF reached_refl [OF m(3,2)] c1])
  have r2: "reached F ar cs ps s s2 env1 False m m1" and "\<exists>c cos. cores s2 = (c @ [core (variable_symbol (Some name) ty (Some d) (Val ?j))]) # cos \<and>
      length c = length vs"
    unfolding env1 by (rule reached_symbol [where x = None, OF r1 s2]; use fresh_cell [OF m(2)] in \<open>simp add: holds_def regs1\<close>)+
  then obtain c cos where cores: "cores s2 = (c @ [core (variable_symbol (Some name) ty (Some d) (Val ?j))]) # cos" "length c = length vs"
    by blast
  define p where "p = (0 :: nat, length vs)"
  have cell: "cell_at (cores s2) p = ?j"
    using nth_append_length [of c] cores(2) by (simp add: cores(1) p_def cell_at_def core_def cell_def variable_symbol_def no_symbol_def)
  have p1: "valid env1 p" "var_type (var_at env1 p) = ty" by (simp_all add: env1 p_def valid_def var_at_def)
  obtain m3 env2 x where r3: "reached F ar cs ps s s3 env2 False m m3" and st: "cg_contexts s3 = cg_contexts s2"
    and v: "operand ar (m_regs m3) val = Some (rep ty x)" "wrap ty x = x" and sh: "shape env2 = shape env1"
    and env': "env' = set_last env2 x"
  proof (cases initial)
    case None
    have "wrap ty 0 = 0" using ty by (cases ty rule: scalar_cases) (simp_all add: signed_bits_def bool_type_def)
    then show thesis using that [of env1 m1 0] r2 e ex None width_bits [OF ty] by (simp add: rep_def)
  next
    case (Some a)
    with ex obtain e' x env2 where a: "elab F env1 a (hint_of ty) = Some e'" "expr_type e' = ty" "eval F e' env1 = Some (x, env2)"
      "env' = set_last env2 x" by auto
    from Some e obtain e2 where run2: "codegen_expr_top n self False a (hint_of ty) s2 = Inr ((e2, val), s3)" by auto
    show thesis
    proof (rule top_computes [OF ar once self a(1,3) run2 c3 reachedD(2,1) [OF r2]])
      fix m3
      assume "stays s2 val s3" "shape env2 = shape env1" "reached F ar cs ps s2 s3 env2 False m1 m3"
        "operand ar (m_regs m3) val = Some (rep (expr_type e') x)" "wrap (expr_type e') x = x"
      then show thesis using that [of env2 m3 x] reached_trans [OF r2] a by (simp add: stays_def)
    qed
  qed
  have cell3: "cell_at (cores s3) p = ?j" using st cell by (simp add: cores_def)
  have p2: "valid env2 p" "var_type (var_at env2 p) = ty"
    using p1 valid_shape [OF sh] shape_nth(3) [OF sh p1(1)] by simp_all
  obtain m4 where r4: "reached F ar cs ps s s' (set_at env2 p x) False m m4"
    using reached_store_at [OF r3 p2 v(2) _ v(1)] m(1) s' cell3 by metis
  have "env' = set_at env2 p x"
    using shape_nth(1) [OF sh] shape_nth(2) [OF sh, of 0] by (cases env2) (simp_all add: env' set_last_def p_def env1)
  moreover have "flags s' = flags s" using st same(2) by (simp add: s' flags_def)
  ultimately show ?thesis using r4 shape_set_at [OF p2(1)] sh by metis
qed

lemma untyped_variable_reaches:
  assumes ar: "agrees F ar" and once: "entered_once cs" and self: "cg_after self = CHR 0x00 # as"
    and el: "elab F (vs # env0) a None = Some a'" "eval F a' (vs # env0) = Some (x, env1)"
    and run: "codegen_untyped_variable n self d name (Some a) s = Inr ((), s')"
    and m: "code_in cs s'" "env_rel F (length (cg_calls s)) (cores s) (vs # env0) m" "m_pc m = length (cg_calls s)"
  shows "\<exists>m'. reached F ar cs ps s s' (add_var (Var (Some name) (expr_type a') (Some x)) env1) False m m' \<and> flags s' = flags s \<and>
    shape env1 = shape (vs # env0)"
proof -
  from run obtain e2 val w where w: "codegen_expr_top n self False a None s = Inr ((e2, val), w)"
    by (auto simp: codegen_untyped_variable_def cg_runs)
  have "matches F (vs # env0) (cores s)" using m(2) by (simp add: env_rel_def)
  moreover from w obtain u where "prepare_expr n a None s = Inr (e2, u)" by (auto simp: codegen_expr_top_def cg_runs)
  ultimately have pl: "e2 = a'" "plain F (type_in (vs # env0)) a'" using elab_prepare [OF el(1)] by blast+
  define t where "t = expr_type a'"
  have sc: "scalar t" and st: "settled_type a' = t" using pl(2) plain_scalar plain_settled by (simp_all add: t_def)
  let ?j = "length (cg_calls w)" and ?t = "Ty_Int (bits t)"
  let ?w1 = "add_call (Build_Alloca ?t name) w"
  let ?w2 = "add_call (Build_Store val (Val ?j)) ?w1"
  from run w obtain t' d' where t': "type_copy t = Inr t'" and d': "d' = Decl (decl_loc d) (Variable_Decl t' name (Some a'))"
    and rest: "cbind (codegen_type n False t') (\<lambda>var_type. cbind (build self (Build_Alloca var_type name)) (\<lambda>var.
         cseq (exec self (Build_Store val var))
         (codegen_context_add_symbol (variable_symbol (Some name) t' (Some d') var)))) w = Inr ((), s')"
    by (auto simp: codegen_untyped_variable_def bind_runs lift_runs st pl(1) fail_runs split: if_splits)
  have "t' = t" using sc t' by (cases t rule: scalar_cases) (auto simp: bool_type_def)
  from rest [unfolded this] obtain lt u1 where "codegen_type n False t w = Inr (lt, u1)" by (auto simp: bind_runs)
  from type_runs [OF sc this] rest [unfolded \<open>t' = t\<close>] this
  have sy: "codegen_context_add_symbol (variable_symbol (Some name) t (Some d') (Val ?j)) ?w2 = Inr ((), s')"
    by (auto simp: bind_runs seq_runs build_runs exec_runs)
  note same = symbol_same [OF sy]
  have c2: "code_in cs ?w2" using m(1) code_in_calls [OF same(1)] by simp
  note c1 = code_add [OF c2]
  show ?thesis
  proof (rule top_computes [OF ar once self el w code_add [OF c1] m(2,3)])
    fix m1
    assume sh: "shape env1 = shape (vs # env0)" and stays: "stays s val w"
      and r1: "reached F ar cs ps s w env1 False m m1" "operand ar (m_regs m1) val = Some (rep (expr_type a') x)"
      and x: "wrap (expr_type a') x = x"
    obtain vs1 env01 where e1: "env1 = vs1 # env01" using sh by (cases env1) (auto simp: shape_def)
    obtain m2 where r2: "reached F ar cs ps s ?w1 env1 False m m2" and regs2: "m_regs m2 = (m_regs m1)(?j := Some (Ptr_Val ?j))"
      by (rule reached_alloca [OF r1(1) c1])
    have v2: "operand ar (m_regs m2) val = Some (rep t x)"
      using operand_below [OF stays_cores(3) [OF stays], of "m_regs m2" "m_regs m1" ar] r1(2) by (simp add: regs2 t_def)
    note less = fresh_cell [OF reachedD(2) [OF r1(1)] _ order_refl]
    have j2: "m_regs m2 ?j = Some (Ptr_Val ?j)" by (simp add: regs2)
    have ne: "cell_at (cores ?w1) p \<noteq> ?j" if "valid env1 p" for p using less [OF that] by simp
    obtain m3 where r3: "reached F ar cs ps s ?w2 env1 False m m3" and m3: "m_regs m3 = m_regs m2" "m_mem m3 = (m_mem m2)(?j := Some (rep t x))"
      by (rule reached_store_new [OF r2 c2 v2 j2 ne])
    have "reached F ar cs ps s s' ((vs1 @ [Var (Some name) t (Some x)]) # env01) False m m3"
      by (rule reached_symbol [OF r3 [unfolded e1] sy]; use less x in \<open>simp add: e1 holds_def m3 regs2 t_def\<close>)
    then show ?thesis using sh same(2) stays_cores(2) [OF stays] by (auto simp: e1 add_var_def t_def flags_def)
  qed
qed

lemma shape_add_var: "env \<noteq> [] \<Longrightarrow> tl (shape (add_var v env)) = tl (shape env) \<and> add_var v env \<noteq> []"
  by (cases env) (simp_all add: add_var_def shape_def)

lemma decl_reaches:
  assumes ar: "agrees F ar" and once: "entered_once cs" and self: "cg_after self = CHR 0x00 # as"
    and ex: "exec_decl F d env = Some env'" and env: "env \<noteq> []" and run: "codegen_decl n self d s = Inr ((), s')"
    and m: "code_in cs s'" "env_rel F (length (cg_calls s)) (cores s) env m" "m_pc m = length (cg_calls s)"
  shows "\<exists>m'. reached F ar cs ps s s' env' False m m' \<and> flags s' = flags s \<and> tl (shape env') = tl (shape env) \<and> env' \<noteq> []"
proof -
  obtain vs env0 where e: "env = vs # env0" using env by (cases env) auto
  from ex obtain ty name initial where d: "decl_kind d = Variable_Decl ty name initial"
    by (auto simp: exec_decl_def split: decl_kind.splits)
  show ?thesis
  proof (cases "type_kind ty = No_Type")
    case False
    define env1 where "env1 = add_var (Var (Some name) ty None) env"
    have e1: "env1 = (vs @ [Var (Some name) ty None]) # env0" by (simp add: env1_def e add_var_def)
    have ty: "scalar ty" using ex d False by (auto simp: exec_decl_def split: if_splits)
    have "case initial of None \<Rightarrow> env' = set_last env1 0
      | Some e \<Rightarrow> \<exists>e' x env2. elab F env1 e (hint_of ty) = Some e' \<and> expr_type e' = ty \<and> eval F e' env1 = Some (x, env2) \<and>
          env' = set_last env2 x"
      using ex d False ty
      by (cases initial) (auto simp: exec_decl_def env1_def [symmetric] Let_def bind_eq_Some_conv split: if_splits)
    moreover have "codegen_typed_variable n self d ty name initial s = Inr ((), s')"
      using run d False by (simp add: codegen_decl_def)
    ultimately obtain m' where m': "reached F ar cs ps s s' env' False m m'" "flags s' = flags s" "shape env' = shape env1"
      using typed_variable_reaches [OF ar once self ty e1 _ _ m(1) m(2) [unfolded e] m(3)] by blast
    moreover have "env' \<noteq> []" using m'(3) by (auto simp: e1 shape_def)
    ultimately show ?thesis using shape_add_var [OF env] by (auto simp: env1_def)
  next
    case True
    from ex d True obtain a a' x env1 where a: "initial = Some a" "elab F env a None = Some a'" "eval F a' env = Some (x, env1)"
      "env' = add_var (Var (Some name) (expr_type a') (Some x)) env1"
      by (auto simp: exec_decl_def bind_eq_Some_conv split: option.splits)
    have "codegen_untyped_variable n self d name (Some a) s = Inr ((), s')" using run d True a(1) by (simp add: codegen_decl_def)
    from untyped_variable_reaches [OF ar once self a(2,3) [unfolded e] this m(1) m(2) [unfolded e] m(3)]
    obtain m' where m': "reached F ar cs ps s s' env' False m m'" "flags s' = flags s" "shape env1 = shape env"
      by (auto simp: a(4) e)
    moreover have "env1 \<noteq> []" using m'(3) by (auto simp: e shape_def)
    ultimately show ?thesis using shape_add_var [of env1] by (auto simp: a(4))
  qed
qed

end
