(* ===== verification/Stmt_Correct.thy ===== *)
theory Stmt_Correct
  imports Stmt_Runs
begin

section \<open>The code of a statement does what the statement does\<close>

subsection \<open>Blocks\<close>

text \<open>What is to be shown of items: the scope they are in is left with a jump out of them.\<close>

definition items_follow ::
    "funs \<Rightarrow> arith \<Rightarrow> call list \<Rightarrow> mval list \<Rightarrow> codegen_t \<Rightarrow> type_t \<Rightarrow> cg_state \<Rightarrow> cg_state \<Rightarrow> outcome \<Rightarrow> env \<Rightarrow> env \<Rightarrow> machine \<Rightarrow> bool" where
  "items_follow F ar cs ps self rt s s' r env env' m \<longleftrightarrow> tl (shape env') = tl (shape env) \<and> env' \<noteq> [] \<and>
     (if r = Normal then flags s' = flags s \<and> (\<exists>m'. reached F ar cs ps s s' env' False m m')
      else leaves F ar cs ps self rt (length (cg_calls s)) (tl (cores s)) r (tl env') m)"

lemma shape_tl: "shape (tl env) = tl (shape env)"
  by (simp add: shape_def map_tl)

lemma item_follows:
  assumes ar: "agrees F ar" and once: "entered_once cs" and gen: "executes F ar cs ps rt gen ex" and pr: "proper cs self rt"
    and ex: "exec_item F ex item env = Some (r, env')" and env: "env \<noteq> []" and run: "codegen_item n self gen item s = Inr ((), s')"
    and m: "code_in cs s'" "env_rel F (length (cg_calls s)) (cores s) env m" "m_pc m = length (cg_calls s)"
    and more: "more_calls s s'"
  shows "items_follow F ar cs ps self rt s s' r env env' m"
proof (cases item)
  case (Stmt_Item x)
  have F: "follows F ar cs ps self rt s s' r env' m" "cores s' = cores s" "shape env' = shape env"
    using opt_executes [OF gen pr _ _ m, of x] ex run by (auto simp: Stmt_Item exec_item_def codegen_item_def)
  then have ne: "env' \<noteq> []" using env by (auto simp: shape_def)
  moreover have "\<exists>m'. reached F ar cs ps s s' env' False m m'" if "r = Normal"
    using F(1) that arrives_reached [OF _ more F(2)] unfolding follows_def by metis
  moreover have "leaves F ar cs ps self rt (length (cg_calls s)) (tl (cores s)) r (tl env') m" if "r \<noteq> Normal"
    using F(1) that leaves_pop [OF _ ne] by (simp add: follows_def)
  ultimately show ?thesis using F ne by (simp add: items_follow_def follows_def)
next
  case (Decl_Item d)
  obtain as where self: "cg_after self = CHR 0x00 # as" using pr by (auto simp: proper_def)
  from ex run decl_reaches [OF ar once self _ env _ m, of d] show ?thesis
    by (auto simp: Decl_Item exec_item_def codegen_item_def items_follow_def)
qed

lemma items_follow_trans:
  assumes a: "items_follow F ar cs ps self rt s u Normal env env1 m" and b: "\<And>m1. reached F ar cs ps s u env1 False m m1 \<Longrightarrow>
      items_follow F ar cs ps self rt u s' r env1 env' m1"
    and env: "env_rel F (length (cg_calls s)) (cores s) env m" "env \<noteq> []" and tl: "tl (cores u) = tl (cores s)"
  shows "items_follow F ar cs ps self rt s s' r env env' m"
proof -
  obtain m1 where m1: "reached F ar cs ps s u env1 False m m1" "flags u = flags s" "tl (shape env1) = tl (shape env)"
    using a by (auto simp: items_follow_def)
  note b = b [OF m1(1)]
  have sh: "shape (tl env') = shape (tl env)" using b m1(3) by (simp add: items_follow_def shape_tl)
  have runs: "runs ar cs ps m m1" "\<And>k. k < length (cg_calls s) \<Longrightarrow> m_regs m1 k = m_regs m k"
    "length (cg_calls s) \<le> length (cg_calls u)" using m1(1) by (simp_all add: reached_def)
  have "leaves F ar cs ps self rt (length (cg_calls s)) (tl (cores s)) r (tl env') m" if "r \<noteq> Normal"
    by (rule leaves_after [OF runs env_pop [OF env] sh]) (use b that in \<open>simp_all add: items_follow_def tl\<close>)
  with b m1 reached_trans [OF m1(1)] show ?thesis by (auto simp: items_follow_def split: if_splits)
qed

lemma all_items_follow:
  assumes ar: "agrees F ar" and once: "entered_once cs" and gen: "executes F ar cs ps rt gen ex"
    and grows: "\<And>self x. grows (gen self x)" and pr: "proper cs self rt"
    and "exec_items F ex items env = Some (r, env')" and "env \<noteq> []" and "cmap (codegen_item n self gen) items s = Inr (us, s')"
    and "code_in cs s'" "env_rel F (length (cg_calls s)) (cores s) env m" "m_pc m = length (cg_calls s)"
  shows "items_follow F ar cs ps self rt s s' r env env' m"
  using assms(6-)
proof (induction items arbitrary: env s us m)
  case Nil
  then show ?case using reached_refl [of m s F env ar cs ps False] by (auto simp: ret_runs items_follow_def)
next
  case (Cons item items)
  have gi: "grows (codegen_item n self gen i)" for i
    unfolding codegen_item_def by (intro frame_intros grows_opt_stmt grows)
  from Cons.prems(3) obtain u us' where u: "codegen_item n self gen item s = Inr ((), u)"
    "cmap (codegen_item n self gen) items u = Inr (us', s')" by (auto simp: bind_runs ret_runs)
  have fu: "more_calls s u" "tl (cores u) = tl (cores s)" using gi u(1) more_symbols_tl unfolding grows_def by blast+
  have more: "more_calls u s'" using grows_map [of "codegen_item n self gen" items] gi u(2) unfolding grows_def by blast
  from Cons.prems(1) obtain r1 env1 where r1: "exec_item F ex item env = Some (r1, env1)"
    and rest: "if r1 = Normal then exec_items F ex items env1 = Some (r, env') else r = r1 \<and> env' = env1"
    by (auto simp: bind_eq_Some_conv split: if_splits)
  note first = item_follows [OF ar once gen pr r1 Cons.prems(2) u(1) code_before [OF Cons.prems(4) more] Cons.prems(5,6) fu(1)]
  show ?case
  proof (cases "r1 = Normal")
    case True
    with rest have e: "exec_items F ex items env1 = Some (r, env')" by simp
    have ne: "env1 \<noteq> []" using first by (simp add: items_follow_def)
    show ?thesis
    proof (rule items_follow_trans [OF first [unfolded True] _ Cons.prems(5,2) fu(2)])
      fix m1 assume "reached F ar cs ps s u env1 False m m1"
      then show "items_follow F ar cs ps self rt u s' r env1 env' m1"
        by (intro Cons.IH [OF e ne u(2) Cons.prems(4)] reachedD(1,2))
    qed
  next
    case False
    with rest first show ?thesis by (auto simp: items_follow_def)
  qed
qed

lemma dispose_runs [cg_runs]:
  "codegen_context_dispose s = Inr (t, s') \<longleftrightarrow>
     (\<exists>c cs. cg_contexts s = c # cs \<and> t = cc_is_terminated c \<and> s' = s\<lparr>cg_contexts := cs\<rparr>)"
  by (auto simp: codegen_context_dispose_def split: list.split)

lemma dispose_same:
  assumes "codegen_context_dispose s = Inr (t, s')"
  shows "cg_calls s' = cg_calls s" and "cores s' = tl (cores s)" and "flags s = t # flags s'"
  using assms by (auto simp: dispose_runs cores_def flags_def)

definition pushed :: "cg_state \<Rightarrow> cg_state" where
  "pushed s = s\<lparr>cg_contexts := codegen_context_init # cg_contexts s\<rparr>"

lemma pushed_simps [simp]: "cg_calls (pushed s) = cg_calls s" "cores (pushed s) = [] # cores s" "flags (pushed s) = False # flags s"
  by (simp_all add: pushed_def cores_def flags_def codegen_context_init_def)

lemma push_runs [cg_runs]: "push_context s = Inr (u, s') \<longleftrightarrow> s' = pushed s"
  by (auto simp: push_context_def pushed_def)

lemma when_runs [cg_runs]: "cwhen b k s = Inr ((), s') \<longleftrightarrow> (if b then k s = Inr ((), s') else s' = s)"
  by (simp add: cwhen_def ret_runs)

lemma compound_follows:
  assumes ar: "agrees F ar" and once: "entered_once cs" and gen: "executes F ar cs ps rt gen ex"
    and grows: "\<And>self x. grows (gen self x)" and pr: "proper cs self rt"
    and ex: "in_scope (exec_items F ex items) env = Some (r, env')" and run: "codegen_compound n self gen items s = Inr ((), s')"
    and m: "code_in cs s'" "env_rel F (length (cg_calls s)) (cores s) env m" "m_pc m = length (cg_calls s)"
  shows "follows F ar cs ps self rt s s' r env' m" and "cores s' = cores s" and "shape env' = shape env"
proof -
  show same: "cores s' = cores s" using steady_compound [of gen, OF grows] run unfolding steady_def by blast
  from run obtain us u t w where u: "cmap (codegen_item n self gen) items (pushed s) = Inr (us, u)"
    and w: "codegen_context_dispose u = Inr (t, w)" and s': "if t then set_terminated w = Inr ((), s') else s' = w"
    by (auto simp: codegen_compound_def cg_runs)
  have calls: "cg_calls s' = cg_calls u" using dispose_same [OF w] s' terminated_same by (metis)
  from ex obtain env1 where e1: "exec_items F ex items ([] # env) = Some (r, env1)" "env' = tl env1" by (auto simp: in_scope_def)
  have F: "items_follow F ar cs ps self rt (pushed s) u r ([] # env) env1 m"
    by (rule all_items_follow [OF ar once gen grows pr e1(1) _ u])
      (use m env_push [OF m(2)] code_in_calls [OF calls] in simp_all)
  have ne: "env1 \<noteq> []" using F by (simp add: items_follow_def)
  show sh: "shape env' = shape env" using F by (simp add: items_follow_def e1(2) shape_tl) (simp add: shape_def)
  show "follows F ar cs ps self rt s s' r env' m"
  proof (cases "r = Normal")
    case True
    with F obtain m1 where r1: "reached F ar cs ps (pushed s) u env1 False m m1" and fl: "flags u = False # flags s"
      by (auto simp: items_follow_def)
    have "s' = w" and "flags w = flags s" using fl dispose_same(3) [OF w] s' by auto
    moreover have "env_rel F (length (cg_calls s)) (cores s) env' m1"
      using env_rebase [OF m(2) _ sh] env_pop [OF reachedD(2) [OF r1]] ne same dispose_same(2) [OF w] \<open>s' = w\<close> by (simp add: e1(2))
    ultimately show ?thesis using True r1 calls by (auto simp: follows_def arrives_def reached_def)
  next
    case False
    with F show ?thesis by (simp add: items_follow_def follows_def e1(2))
  qed
qed

subsection \<open>Branches\<close>

lemma arrives_pop:
  assumes "arrives F ar cs ps B cos env p m m'" and "env \<noteq> []"
  shows "arrives F ar cs ps B (tl cos) (tl env) p m m'"
  using assms env_pop by (simp add: arrives_def)

lemma arrives_low:
  assumes "arrives F ar cs ps B1 cos env p m m'" and "env_rel F B cos env0 m" and "shape env = shape env0" and "B \<le> B1"
  shows "arrives F ar cs ps B cos env p m m'"
  by (rule arrives_trans [OF arrives_refl [OF refl assms(2)] assms(1,4,3)])

lemma code_in_dispose: "codegen_context_dispose s = Inr (t, s') \<Longrightarrow> code_in cs s' = code_in cs s"
  by (rule code_in_calls) (rule dispose_same(1))

lemma branch_code:
  assumes grows: "\<And>self x. grows (gen self x)" and run: "codegen_branch self gen block exit_block x s = Inr (t, s')"
    and m: "code_in cs s'"
  shows "code_in cs (add_call (Position_At_End block) s)"
proof -
  let ?u0 = "add_call (Position_At_End block) (pushed s)"
  from run obtain u w where u: "opt_stmt gen self x ?u0 = Inr ((), u)" and w: "codegen_context_dispose u = Inr (t, w)"
    and s': "s' = (if t then w else add_call (Build_Br exit_block) w)"
    by (auto simp: codegen_branch_def cg_runs)
  have "code_in cs u" using m code_add code_in_dispose [OF w] unfolding s' by (metis (full_types))
  moreover have "more_calls ?u0 u" using u grows_opt_stmt [of gen, OF grows] unfolding grows_def by blast
  ultimately have "code_in cs ?u0" by (rule code_before)
  then show ?thesis by (simp add: code_in_def)
qed

lemma branch_follows:
  assumes gen: "executes F ar cs ps rt gen ex" and grows: "\<And>self x. grows (gen self x)" and pr: "proper cs self rt"
    and ex: "in_scope (exec_opt ex x) env = Some (r, env')"
    and run: "codegen_branch self gen block exit_block x s = Inr (t, s')" and q: "label_of cs exit_block = Some q"
    and m: "code_in cs s'" "env_rel F (length (cg_calls s)) (cores s) env m" "m_pc m = Suc (length (cg_calls s))"
  shows "shape env' = shape env"
    and "if r = Normal then \<not> t \<and> (\<exists>m'. arrives F ar cs ps (length (cg_calls s)) (cores s) env' (Suc q) m m')
      else leaves F ar cs ps self rt (length (cg_calls s)) (cores s) r env' m"
proof -
  define u0 where "u0 = add_call (Position_At_End block) (pushed s)"
  from run obtain u w where u: "opt_stmt gen self x u0 = Inr ((), u)" and w: "codegen_context_dispose u = Inr (t, w)"
    and s': "s' = (if t then w else add_call (Build_Br exit_block) w)"
    by (auto simp: codegen_branch_def cg_runs u0_def)
  from ex obtain env1 where e1: "exec_opt ex x ([] # env) = Some (r, env1)" "env' = tl env1" by (auto simp: in_scope_def)
  have cu: "code_in cs u" using m(1) code_add code_in_dispose [OF w] unfolding s' by (metis (full_types))
  have "env_rel F (Suc (length (cg_calls s))) ([] # cores s) ([] # env) m" by (rule env_frame [OF env_push [OF m(2)]]) simp_all
  then have "env_rel F (length (cg_calls u0)) (cores u0) ([] # env) m" by (simp add: u0_def)
  from opt_executes [OF gen pr e1(1) u cu this] m(3)
  have F: "follows F ar cs ps self rt u0 u r env1 m" "cores u = cores u0" "shape env1 = shape ([] # env)" by (simp_all add: u0_def)
  have ne: "env1 \<noteq> []" using F(3) by (auto simp: shape_def)
  show sh: "shape env' = shape env" using F(3) by (simp add: e1(2) shape_tl) (simp add: shape_def)
  have le: "length (cg_calls s) \<le> length (cg_calls u0)" by (simp add: u0_def)
  show "if r = Normal then \<not> t \<and> (\<exists>m'. arrives F ar cs ps (length (cg_calls s)) (cores s) env' (Suc q) m m')
      else leaves F ar cs ps self rt (length (cg_calls s)) (cores s) r env' m"
  proof (cases "r = Normal")
    case True
    with F(1) obtain m1 where fl: "flags u = flags u0"
      and m1: "arrives F ar cs ps (length (cg_calls u0)) (cores u0) env1 (length (cg_calls u)) m m1" by (auto simp: follows_def)
    have t: "\<not> t" using fl dispose_same(3) [OF w] by (simp add: u0_def)
    have "arrives F ar cs ps (length (cg_calls s)) (cores s) env' (length (cg_calls w)) m m1"
      using arrives_low [OF arrives_pop [OF m1 ne] _ _ le, of env] m(2) sh dispose_same(1) [OF w] by (simp add: u0_def e1(2))
    then show ?thesis using arrives_br [OF _ _ q] m(1) t s' True by (metis (full_types))
  next
    case False
    with F(1) have "leaves F ar cs ps self rt (length (cg_calls u0)) (cores u0) r env1 m" by (simp add: follows_def)
    from arrives_leaves [OF arrives_refl [OF refl m(2)] le sh] leaves_pop [OF this ne] show ?thesis
      using False by (simp add: u0_def e1(2))
  qed
qed

text \<open>The blocks of an if; without an else, the false block is the exit.\<close>

definition if_blocks :: "bool \<Rightarrow> lval \<Rightarrow> cg_state \<Rightarrow> cg_state" where
  "if_blocks has_else f s = (let s1 = add_call (Append_Basic_Block f ''iftrue'') s;
     s2 = (if has_else then add_call (Append_Basic_Block f ''iffalse'') s1 else s1) in
     add_call (Append_Basic_Block f ''ifexit'') s2)"

definition func_calls :: "cg_state \<Rightarrow> cg_state" where
  "func_calls s = add_call (Get_Basic_Block_Parent (Val (length (cg_calls s)))) (add_call Get_Insert_Block s)"

lemma func_calls_simps [simp]: "length (cg_calls (func_calls s)) = length (cg_calls s) + 2" "cores (func_calls s) = cores s"
  "flags (func_calls s) = flags s"
  by (simp_all add: func_calls_def)

lemma if_runs:
  assumes run: "codegen_if n self gen c x y s = Inr ((), s')"
  obtains e2 v w t w1 j u u1 t1 u2 t2 where "codegen_expr_top n self False c (hint_of bool_type) (pushed s) = Inr ((e2, v), w)"
    and "codegen_context_dispose w = Inr (t, w1)" and "j = length (cg_calls w1) + 2"
    and "u = if_blocks (y \<noteq> None) (Val (j - 1)) (func_calls w1)"
    and "codegen_branch self gen (Val j) (Val (if y = None then j + 1 else j + 2)) x
      (add_call (Build_Cond_Br v (Val j) (Val (j + 1))) u) = Inr (t1, u1)"
    and "if y = None then u2 = u1 \<and> \<not> t2 else codegen_branch self gen (Val (j + 1)) (Val (j + 2)) y u1 = Inr (t2, u2)"
    and "if t2 \<and> t1 then set_terminated (add_call Build_Unreachable (add_call (Position_At_End (Val (if y = None then j + 1 else j + 2))) u2)) = Inr ((), s')
      else s' = add_call (Position_At_End (Val (if y = None then j + 1 else j + 2))) u2"
proof -
  from run obtain e2 v w t w1 where w: "codegen_expr_top n self False c (hint_of bool_type) (pushed s) = Inr ((e2, v), w)"
    "codegen_context_dispose w = Inr (t, w1)"
    and rest: "cbind (current_func self) (\<lambda>func.
     cbind (append_block func ''iftrue'') (\<lambda>true_block.
     cbind (if y = None then cret None
       else cbind (append_block func ''iffalse'') (\<lambda>b. cret (Some b))) (\<lambda>false_block.
     cbind (append_block func ''ifexit'') (\<lambda>exit_block.
     cseq (exec self (Build_Cond_Br v true_block (case false_block of Some b \<Rightarrow> b | None \<Rightarrow> exit_block)))
     (cbind (codegen_branch self gen true_block exit_block x) (\<lambda>true_terminated.
     cbind (case false_block of None \<Rightarrow> cret False
       | Some b \<Rightarrow> cbind (codegen_branch self gen b exit_block y) (\<lambda>t. cret (t \<and> true_terminated))) (\<lambda>terminated.
     cseq (exec self (Position_At_End exit_block))
     (cwhen terminated (cseq (exec self Build_Unreachable) set_terminated))))))))) w1 = Inr ((), s')"
    by (auto simp: codegen_if_def push_runs when_runs lift_runs fail_runs seq_runs [of push_context] seq_runs [of "cwhen b k" for b k]
        bind_runs [of "codegen_expr_top n self False c h" for h] bind_runs [of "clift r" for r] bind_runs [of codegen_context_dispose]
        split: if_splits)
  define j where "j = length (cg_calls w1) + 2"
  show thesis
  proof (cases y)
    case None
    from rest None obtain u1 t1 where u: "codegen_branch self gen (Val j) (Val (j + 1)) x
        (add_call (Build_Cond_Br v (Val j) (Val (j + 1))) (if_blocks False (Val (j - 1)) (func_calls w1))) = Inr (t1, u1)"
      "s' = add_call (Position_At_End (Val (j + 1))) u1"
      by (auto simp: cg_runs if_blocks_def func_calls_def j_def Let_def numeral_eq_Suc)
    show thesis
      by (rule that [OF w j_def refl, of t1 u1 u1 False]) (use u None in simp_all)
  next
    case (Some z)
    from rest Some obtain u1 t1 u2 t2 where u: "codegen_branch self gen (Val j) (Val (j + 2)) x
        (add_call (Build_Cond_Br v (Val j) (Val (j + 1))) (if_blocks True (Val (j - 1)) (func_calls w1))) = Inr (t1, u1)"
      "codegen_branch self gen (Val (j + 1)) (Val (j + 2)) y u1 = Inr (t2, u2)"
      "cwhen (t2 \<and> t1) (cseq (exec self Build_Unreachable) set_terminated) (add_call (Position_At_End (Val (j + 2))) u2) = Inr ((), s')"
      by (simp add: bind_runs seq_runs [of "exec self c" for c] exec_runs func_runs block_runs ret_runs
          if_blocks_def func_calls_def j_def Let_def numeral_eq_Suc) blast
    show thesis
      by (rule that [OF w j_def refl, of t1 u1 u2 t2]) (use u Some in \<open>auto simp: when_runs seq_runs exec_runs split: if_splits\<close>)
  qed
qed

lemma func_arrives:
  assumes r: "arrives F ar cs ps B cos env (length (cg_calls s)) m m1" and c: "code_in cs (func_calls s)"
  obtains m2 where "arrives F ar cs ps B cos env (length (cg_calls (func_calls s))) m m2" and "m_regs m2 = m_regs m1"
proof -
  note c = c [unfolded func_calls_def]
  obtain m2 where m2: "arrives F ar cs ps B cos env (length (cg_calls (add_call Get_Insert_Block s))) m m2" "m_regs m2 = m_regs m1"
    by (rule arrives_skip [OF r code_add [OF c]]) simp
  obtain m3 where m3: "arrives F ar cs ps B cos env (length (cg_calls (func_calls s))) m m3" "m_regs m3 = m_regs m2"
    unfolding func_calls_def by (rule arrives_skip [OF m2(1) c]) simp
  show thesis by (rule that [OF m3(1)]) (simp add: m3 m2)
qed

lemma append_arrives:
  assumes "arrives F ar cs ps B cos env (length (cg_calls s)) m m1" and "code_in cs (add_call (Append_Basic_Block f nm) s)"
  obtains m2 where "arrives F ar cs ps B cos env (length (cg_calls (add_call (Append_Basic_Block f nm) s))) m m2"
    and "m_regs m2 = m_regs m1"
  by (rule arrives_skip [OF assms]) auto

lemma if_blocks_code: "code_in cs (if_blocks b f s) \<Longrightarrow> code_in cs s"
  by (auto simp: if_blocks_def Let_def split: if_splits dest!: code_add)

lemma if_blocks_arrive:
  assumes r: "arrives F ar cs ps B cos env (length (cg_calls s)) m m1" and c: "code_in cs (if_blocks b f s)"
  obtains m2 where "arrives F ar cs ps B cos env (length (cg_calls (if_blocks b f s))) m m2" and "m_regs m2 = m_regs m1"
proof -
  let ?s1 = "add_call (Append_Basic_Block f ''iftrue'') s"
  let ?s2 = "if b then add_call (Append_Basic_Block f ''iffalse'') ?s1 else ?s1"
  have i: "if_blocks b f s = add_call (Append_Basic_Block f ''ifexit'') ?s2" by (simp add: if_blocks_def Let_def)
  note c3 = c [unfolded i]
  note c2 = code_add [OF c3]
  have c1: "code_in cs ?s1" using c2 code_add by (auto split: if_splits)
  obtain m2 where m2: "arrives F ar cs ps B cos env (length (cg_calls ?s1)) m m2" "m_regs m2 = m_regs m1"
    by (rule append_arrives [OF r c1])
  obtain m3 where m3: "arrives F ar cs ps B cos env (length (cg_calls ?s2)) m m3" "m_regs m3 = m_regs m1"
  proof (cases b)
    case True
    with c2 have c': "code_in cs (add_call (Append_Basic_Block f ''iffalse'') ?s1)" by simp
    obtain m' where m': "arrives F ar cs ps B cos env (length (cg_calls (add_call (Append_Basic_Block f ''iffalse'') ?s1))) m m'"
      "m_regs m' = m_regs m2" by (rule append_arrives [OF m2(1) c'])
    show thesis by (rule that [of m']) (use True m' m2(2) in simp_all)
  qed (use that m2 in simp)
  obtain m4 where m4: "arrives F ar cs ps B cos env (length (cg_calls (if_blocks b f s))) m m4" "m_regs m4 = m_regs m3"
    unfolding i by (rule append_arrives [OF m3(1) c3])
  show thesis by (rule that [OF m4(1)]) (simp add: m4 m3)
qed

lemma if_blocks_same [simp]: "cores (if_blocks b f s) = cores s" "flags (if_blocks b f s) = flags s"
  by (simp_all add: if_blocks_def Let_def)

lemma if_follows:
  assumes ar: "agrees F ar" and once: "entered_once cs" and gen: "executes F ar cs ps rt gen ex"
    and grows: "\<And>self x. grows (gen self x)" and pr: "proper cs self rt"
    and ex: "in_scope (exec_condition F c) env = Some (b, env1)" "in_scope (exec_opt ex (if b then x else y)) env1 = Some (r, env')"
    and run: "codegen_if n self gen c x y s = Inr ((), s')"
    and m: "code_in cs s'" "env_rel F (length (cg_calls s)) (cores s) env m" "m_pc m = length (cg_calls s)"
  shows "follows F ar cs ps self rt s s' r env' m" and "cores s' = cores s" and "shape env' = shape env"
proof -
  show cores': "cores s' = cores s" using steady_if_stmt [of gen, OF grows] run unfolding steady_def by blast
  obtain as where self: "cg_after self = CHR 0x00 # as" using pr by (auto simp: proper_def)
  have "follows F ar cs ps self rt s s' r env' m \<and> shape env' = shape env"
  proof (rule if_runs [OF run])
    fix e2 v w t w1 j u u1 t1 u2 t2
    let ?e = "Val (if y = None then j + 1 else j + 2)"
    let ?u = "add_call (Build_Cond_Br v (Val j) (Val (j + 1))) u" and ?x = "add_call (Position_At_End ?e) u2"
    assume w: "codegen_expr_top n self False c (hint_of bool_type) (pushed s) = Inr ((e2, v), w)"
      and w1: "codegen_context_dispose w = Inr (t, w1)" and j: "j = length (cg_calls w1) + 2"
      and u: "u = if_blocks (y \<noteq> None) (Val (j - 1)) (func_calls w1)"
      and bx: "codegen_branch self gen (Val j) ?e x ?u = Inr (t1, u1)"
      and bY: "if y = None then u2 = u1 \<and> \<not> t2 else codegen_branch self gen (Val (j + 1)) (Val (j + 2)) y u1 = Inr (t2, u2)"
      and s': "if t2 \<and> t1 then set_terminated (add_call Build_Unreachable ?x) = Inr ((), s') else s' = ?x"
    have c_x: "code_in cs ?x" using s' m(1) code_add code_in_calls [OF terminated_same(1)] by (metis (full_types))
    note c2 = code_add [OF c_x] and exit_label = label_found [OF once c_x]
    have sb: "steady (codegen_branch self gen b e z)" for b e z by (rule steady_branch) (rule grows)
    have more: "more_calls u1 u2" "cores u2 = cores u1" using bY sb by (auto simp: steady_def split: if_splits)
    note c1 = code_before [OF c2 more(1)]
    have more1: "more_calls ?u u1" and cores1: "cores u1 = cores u" using bx sb by (force simp: steady_def)+
    note cu = code_before [OF c1 more1]
    note cuu = code_add [OF cu]
    note cf = if_blocks_code [OF cuu [unfolded u]]
    have cw: "code_in cs w" using cf code_in_dispose [OF w1] by (auto simp: func_calls_def dest!: code_add)
    have cores2: "cores u = cores w1" "flags u = flags w1" by (simp_all add: u)
    have flags2: "flags u2 = flags u" using bx bY branch_flags [of gen, OF grows] by (fastforce split: if_splits)
    have len: "length (cg_calls w1) \<le> length (cg_calls ?u)" by (simp add: u if_blocks_def Let_def)
    from ex(1) obtain env0 where e0: "exec_condition F c ([] # env) = Some (b, env0)" "env1 = tl env0" by (auto simp: in_scope_def)
    show ?thesis
    proof (rule condition_arrives [OF ar once self e0(1) w cw])
      fix m1 q
      assume m1: "arrives F ar cs ps (length (cg_calls (pushed s))) (cores (pushed s)) env0 (length (cg_calls w)) m m1"
        and cont: "cg_contexts w = cg_contexts (pushed s)" and sh0: "shape env0 = shape ([] # env)" and q: "b \<longleftrightarrow> q \<noteq> 0"
        "operand ar (m_regs m1) v = Some (rep bool_type q)" "wrap bool_type q = q"
      have w1c: "cores w1 = cores s" "flags w1 = flags s" "cg_calls w1 = cg_calls w"
        using w1 cont by (auto simp: dispose_runs pushed_def cores_def flags_def)
      have sh1: "shape env1 = shape env" using sh0 by (simp add: e0(2) shape_tl) (simp add: shape_def)
      have a1: "arrives F ar cs ps (length (cg_calls s)) (cores s) env1 (length (cg_calls w1)) m m1"
        using arrives_pop [OF m1] sh0 by (auto simp: e0(2) w1c(3) shape_def)
      obtain m2 where a2: "arrives F ar cs ps (length (cg_calls s)) (cores s) env1 (length (cg_calls (func_calls w1))) m m2"
        "m_regs m2 = m_regs m1" by (rule func_arrives [OF a1 cf])
      obtain m3 where a3: "arrives F ar cs ps (length (cg_calls s)) (cores s) env1 (length (cg_calls u)) m m3" "m_regs m3 = m_regs m2"
        unfolding u by (rule if_blocks_arrive [OF a2(1) cuu [unfolded u]])
      have q3: "operand ar (m_regs m3) v = Some (rep bool_type q)" using q(2) a2(2) a3(2) by simp
      have "more_calls (pushed s) w" using w grows_expr_top unfolding grows_def by blast
      then have le: "length (cg_calls s) \<le> length (cg_calls ?u)" "length (cg_calls s) \<le> length (cg_calls u1)"
        using len more_calls_length [OF more1] more_calls_length [of "pushed s" w] w1c(3) by simp_all
      note goes = arrives_cond_br [OF a3(1) cu q3 q(3)]
      have final: ?thesis if F: "shape env' = shape env1"
          "if r = Normal then (t1 \<and> t2 \<longrightarrow> False) \<and> (\<exists>m'. arrives F ar cs ps B (cores s) env' (Suc (length (cg_calls u2))) m4 m')
           else leaves F ar cs ps self rt B (cores s) r env' m4"
        and m4: "arrives F ar cs ps (length (cg_calls s)) (cores s) env1 p m m4" and B: "length (cg_calls s) \<le> B" for m4 p B
      proof (cases "r = Normal")
        case True
        with F(2) obtain m5 where "\<not> (t2 \<and> t1)" "arrives F ar cs ps B (cores s) env' (Suc (length (cg_calls u2))) m4 m5" by auto
        with s' arrives_trans [OF m4 this(2) B F(1)] show ?thesis
          using True flags2 cores2(2) w1c(2) F(1) sh1 by (auto simp: follows_def)
      next
        case False
        with F show ?thesis using arrives_leaves [OF m4 B F(1)] sh1 by (auto simp: follows_def)
      qed
      show ?thesis
      proof (cases b)
        case True
        have "label_of cs (if q \<noteq> 0 then Val j else Val (j + 1)) = Some (length (cg_calls ?u))"
          using label_found [OF once branch_code [of gen, OF grows bx c1]] True q(1) by simp
        from goes [OF this] obtain m4 where m4: "arrives F ar cs ps (length (cg_calls s)) (cores s) env1 (Suc (length (cg_calls ?u))) m m4"
          by blast
        have "in_scope (exec_opt ex x) env1 = Some (r, env')" using ex(2) True by simp
        note F = branch_follows [OF gen grows pr this bx exit_label c1, of m4]
        have "env_rel F (length (cg_calls ?u)) (cores ?u) env1 m4" using arrivesD(2) [OF m4 le(1)] cores2(1) w1c(1) by simp
        note F = F [OF this arrivesD(1) [OF m4]]
        have "cores ?u = cores s" using cores2(1) w1c(1) by simp
        with F(2) show ?thesis by (intro final [OF F(1) _ m4 le(1)]) (simp split: if_splits, blast?)
      next
        case False
        show ?thesis
        proof (cases y)
          case None
          with ex(2) False have r: "r = Normal" "env' = env1" by (auto simp: in_scope_def exec_opt_def)
          have "label_of cs (if q \<noteq> 0 then Val j else Val (j + 1)) = Some (length (cg_calls u2))"
            using exit_label False None q(1) by simp
          from goes [OF this] obtain m4 where m4: "arrives F ar cs ps (length (cg_calls s)) (cores s) env1 (Suc (length (cg_calls u2))) m m4"
            by blast
          then have "arrives F ar cs ps (length (cg_calls s)) (cores s) env1 (Suc (length (cg_calls u2))) m4 m4"
            by (intro arrives_refl) (auto simp: arrives_def)
          with m4 show ?thesis using r bY None by (intro final [OF _ _ m4 order_refl]) auto
        next
          case (Some z)
          with bY have bz: "codegen_branch self gen (Val (j + 1)) ?e y u1 = Inr (t2, u2)" by simp
          have "label_of cs (if q \<noteq> 0 then Val j else Val (j + 1)) = Some (length (cg_calls u1))"
            using label_found [OF once branch_code [of gen, OF grows bz c2]] False q(1) by simp
          from goes [OF this] obtain m4 where m4: "arrives F ar cs ps (length (cg_calls s)) (cores s) env1 (Suc (length (cg_calls u1))) m m4"
            by blast
          have "in_scope (exec_opt ex y) env1 = Some (r, env')" using ex(2) False by simp
          note F = branch_follows [OF gen grows pr this bz exit_label c2, of m4]
          have "env_rel F (length (cg_calls u1)) (cores u1) env1 m4" using arrivesD(2) [OF m4 le(2)] cores1 cores2(1) w1c(1) by simp
          note F = F [OF this arrivesD(1) [OF m4]]
          have "cores u1 = cores s" using cores1 cores2(1) w1c(1) by simp
          with F(2) show ?thesis by (intro final [OF F(1) _ m4 le(2)]) (simp split: if_splits, blast?)
        qed
      qed
    qed (use m(2,3) env_push in simp_all)
  qed
  then show "follows F ar cs ps self rt s s' r env' m" "shape env' = shape env" by simp_all
qed

end
