(* ===== verification/Stmt_Loops.thy ===== *)
theory Stmt_Loops
  imports Stmt_Correct
begin

section \<open>The code of loops\<close>

subsection \<open>The calls made for a loop\<close>

definition loop_blocks :: "lval \<Rightarrow> cg_state \<Rightarrow> cg_state" where
  "loop_blocks f s = add_call (Append_Basic_Block f ''loopexit'') (add_call (Append_Basic_Block f ''loopstep'')
     (add_call (Append_Basic_Block f ''loopbody'') (add_call (Append_Basic_Block f ''loopcond'') s)))"

definition loop_test :: "nat \<Rightarrow> codegen_t \<Rightarrow> expr option \<Rightarrow> lval \<Rightarrow> lval \<Rightarrow> unit cg" where
  "loop_test n self c body_block exit_block = (case c of
     Some e \<Rightarrow> cbind (codegen_expr_top n self False e (hint_of bool_type)) (\<lambda>(e', cond).
       exec self (Build_Cond_Br cond body_block exit_block))
   | None \<Rightarrow> exec self (Build_Br body_block))"

abbreviation enter :: "lval \<Rightarrow> cg_state \<Rightarrow> cg_state" where
  "enter b s \<equiv> add_call (Position_At_End b) s"

abbreviation branch_to :: "lval \<Rightarrow> cg_state \<Rightarrow> cg_state" where
  "branch_to b s \<equiv> add_call (Build_Br b) s"

text \<open>The states between the parts of a loop.\<close>

definition loop_parts ::
    "nat \<Rightarrow> codegen_t \<Rightarrow> stmt_gen \<Rightarrow> expr option \<Rightarrow> expr option \<Rightarrow> stmt option \<Rightarrow> nat \<Rightarrow>
      cg_state \<Rightarrow> cg_state \<Rightarrow> cg_state \<Rightarrow> cg_state \<Rightarrow> bool" where
  "loop_parts n self gen c stp body k u sc sb ss \<longleftrightarrow>
     loop_test n self c (Val (k + 3)) (Val (k + 5)) (enter (Val (k + 2)) u) = Inr ((), sc) \<and>
     opt_stmt gen (self\<lparr>cg_continue_block := Some (Val (k + 4)), cg_break_block := Some (Val (k + 5))\<rparr>) body
       (enter (Val (k + 3)) sc) = Inr ((), sb) \<and>
     codegen_opt_expr n self stp (enter (Val (k + 4)) (branch_to (Val (k + 4)) sb)) = Inr ((), ss)"

lemma for_runs:
  assumes run: "codegen_for n self gen i c stp body s = Inr ((), s')"
  obtains s1 k u sc sb ss t where "codegen_opt_expr n self i (pushed s) = Inr ((), s1)" and "k = length (cg_calls s1)"
    and "u = branch_to (Val (k + 2)) (loop_blocks (Val (k + 1)) (func_calls s1))"
    and "loop_parts n self gen c stp body k u sc sb ss"
    and "codegen_context_dispose (enter (Val (k + 5)) (branch_to (Val (k + 2)) ss)) = Inr (t, s')"
proof -
  from run obtain s1 where s1: "codegen_opt_expr n self i (pushed s) = Inr ((), s1)"
    and rest: "cbind (current_func self) (\<lambda>func.
     cbind (append_block func ''loopcond'') (\<lambda>loop_block. cbind (append_block func ''loopbody'') (\<lambda>body_block.
     cbind (append_block func ''loopstep'') (\<lambda>step_block. cbind (append_block func ''loopexit'') (\<lambda>exit_block.
     cseq (exec self (Build_Br loop_block))
     (cseq (exec self (Position_At_End loop_block))
     (cseq (loop_test n self c body_block exit_block)
     (cseq (exec self (Position_At_End body_block))
     (cseq (opt_stmt gen (self\<lparr>cg_continue_block := Some step_block, cg_break_block := Some exit_block\<rparr>) body)
     (cseq (exec self (Build_Br step_block))
     (cseq (exec self (Position_At_End step_block))
     (cseq (codegen_opt_expr n self stp)
     (cseq (exec self (Build_Br loop_block))
     (cseq (exec self (Position_At_End exit_block))
     (cbind codegen_context_dispose (\<lambda>_. cret ())))))))))))))))) s1 = Inr ((), s')"
    by (auto simp: codegen_for_def loop_test_def seq_runs [of push_context] push_runs seq_runs [of "codegen_opt_expr n self i"])
  define k where "k = length (cg_calls s1)"
  define u where "u = branch_to (Val (k + 2)) (loop_blocks (Val (k + 1)) (func_calls s1))"
  from rest obtain sc sb ss t where "loop_parts n self gen c stp body k u sc sb ss"
    "codegen_context_dispose (enter (Val (k + 5)) (branch_to (Val (k + 2)) ss)) = Inr (t, s')"
    by (simp add: bind_runs seq_runs func_runs block_runs exec_runs ret_runs loop_parts_def u_def k_def loop_blocks_def func_calls_def
        numeral_eq_Suc) blast
  with that [OF s1 k_def u_def] show thesis by blast
qed

lemma test_arrives:
  assumes ar: "agrees F ar" and once: "entered_once cs" and self: "cg_after self = CHR 0x00 # as"
    and ex: "(case c of None \<Rightarrow> Some (True, env) | Some c \<Rightarrow> exec_condition F c env) = Some (b, env1)"
    and run: "loop_test n self c bl el s = Inr ((), s')" and l: "label_of cs bl = Some p" "label_of cs el = Some q"
    and m: "code_in cs s'" "env_rel F (length (cg_calls s)) (cores s) env m" "m_pc m = length (cg_calls s)"
  obtains m' where "arrives F ar cs ps (length (cg_calls s)) (cores s) env1 (Suc (if b then p else q)) m m'"
    and "cores s' = cores s" and "shape env1 = shape env"
proof (cases c)
  case None
  with run have s': "s' = branch_to bl s" by (simp add: loop_test_def exec_runs)
  from ex None have e: "b" "env1 = env" by simp_all
  show thesis
    by (rule arrives_br [OF arrives_refl [OF m(3,2)] m(1) [unfolded s'] l(1)], rule that) (use s' e in simp_all)
next
  case (Some a)
  from run Some obtain e2 v w where w: "codegen_expr_top n self False a (hint_of bool_type) s = Inr ((e2, v), w)"
    and s': "s' = add_call (Build_Cond_Br v bl el) w" by (auto simp: loop_test_def cg_runs)
  from ex Some have e: "exec_condition F a env = Some (b, env1)" by simp
  note c = m(1) [unfolded s']
  show thesis
  proof (rule condition_arrives [OF ar once self e w code_add [OF c] m(2,3)])
    fix m1 x
    assume m1: "arrives F ar cs ps (length (cg_calls s)) (cores s) env1 (length (cg_calls w)) m m1"
      and same: "cg_contexts w = cg_contexts s" "shape env1 = shape env"
      and x: "b \<longleftrightarrow> x \<noteq> 0" "operand ar (m_regs m1) v = Some (rep bool_type x)" "wrap bool_type x = x"
    have "label_of cs (if x \<noteq> 0 then bl else el) = Some (if b then p else q)" using l x(1) by simp
    from arrives_cond_br [OF m1 c x(2,3) this] same show thesis
      by (metis that s' add_call_simps(3) cores_def)
  qed
qed

subsection \<open>What the parts leave as it is\<close>

lemma grows_test [frame_intros]: "grows (loop_test n self c b e)"
  unfolding loop_test_def by (intro frame_intros)

lemma growsD:
  assumes "grows k" and "k s = Inr (x, s')"
  shows "more_calls s s'" and "tl (flags s') = tl (flags s)"
  using assms unfolding grows_def by blast+

text \<open>The code of all parts is in that of the whole loop, and the labels are found.\<close>

lemma loop_code:
  assumes grows: "\<And>self x. grows (gen self x)" and parts: "loop_parts n self gen c stp body k u sc sb ss"
    and c: "code_in cs (enter (Val (k + 5)) (branch_to (Val (k + 2)) ss))"
  shows "code_in cs (branch_to (Val (k + 2)) ss)" and "code_in cs (enter (Val (k + 4)) (branch_to (Val (k + 4)) sb))"
    and "code_in cs (enter (Val (k + 3)) sc)" and "code_in cs (enter (Val (k + 2)) u)"
    and "length (cg_calls u) \<le> length (cg_calls sc)" and "length (cg_calls sc) \<le> length (cg_calls sb)"
    and "length (cg_calls sb) \<le> length (cg_calls ss)" and "tl (flags ss) = tl (flags u)"
proof -
  note p = parts [unfolded loop_parts_def]
  note step = growsD [OF grows_opt_expr p [THEN conjunct2, THEN conjunct2]]
    and bd = growsD [OF grows_opt_stmt [of gen, OF grows] p [THEN conjunct2, THEN conjunct1]]
    and test = growsD [OF grows_test p [THEN conjunct1]]
  show c1: "code_in cs (branch_to (Val (k + 2)) ss)" by (rule code_add [OF c])
  show c2: "code_in cs (enter (Val (k + 4)) (branch_to (Val (k + 4)) sb))" by (rule code_before [OF code_add [OF c1] step(1)])
  show c3: "code_in cs (enter (Val (k + 3)) sc)" by (rule code_before [OF code_add [OF code_add [OF c2]] bd(1)])
  show "code_in cs (enter (Val (k + 2)) u)" by (rule code_before [OF code_add [OF c3] test(1)])
  show "length (cg_calls u) \<le> length (cg_calls sc)" "length (cg_calls sc) \<le> length (cg_calls sb)"
    "length (cg_calls sb) \<le> length (cg_calls ss)"
    using more_calls_length [OF step(1)] more_calls_length [OF bd(1)] more_calls_length [OF test(1)] by simp_all
  show "tl (flags ss) = tl (flags u)" using step(2) bd(2) test(2) by simp
qed

subsection \<open>Rounds\<close>

text \<open>One execution of the body leads to the block of the step, or out of the loop.\<close>

lemma body_arrives:
  assumes once: "entered_once cs" and gen: "executes F ar cs ps rt gen ex" and grows: "\<And>self x. grows (gen self x)"
    and pr: "proper cs self rt" and parts: "loop_parts n self gen c stp body k u sc sb ss"
    and code: "code_in cs (enter (Val (k + 5)) (branch_to (Val (k + 2)) ss))"
    and ex: "exec_opt ex body env = Some (r, env')"
    and m: "env_rel F (Suc (length (cg_calls sc))) (cores sc) env m" "m_pc m = Suc (length (cg_calls sc))"
  shows "shape env' = shape env" and "cores sb = cores sc"
    and "r = Normal \<or> r = Continued \<Longrightarrow> \<exists>m'. arrives F ar cs ps (Suc (length (cg_calls sc))) (cores sc) env'
      (length (cg_calls (enter (Val (k + 4)) (branch_to (Val (k + 4)) sb)))) m m'"
    and "r = Broke \<Longrightarrow> \<exists>m'. arrives F ar cs ps (Suc (length (cg_calls sc))) (cores sc) env'
      (Suc (length (cg_calls (branch_to (Val (k + 2)) ss)))) m m'"
    and "r = Returned v \<Longrightarrow> leaves F ar cs ps self rt (Suc (length (cg_calls sc))) (cores sc) r env' m"
proof -
  let ?self = "self\<lparr>cg_continue_block := Some (Val (k + 4)), cg_break_block := Some (Val (k + 5))\<rparr>"
  note lc = loop_code [of gen, OF grows parts code]
  note ls = label_found [OF once lc(2)] and le = label_found [OF once code]
  have run: "opt_stmt gen ?self body (enter (Val (k + 3)) sc) = Inr ((), sb)" using parts by (simp add: loop_parts_def)
  have pr': "proper cs ?self rt" using pr ls le by (auto simp: proper_def)
  have F: "follows F ar cs ps ?self rt (enter (Val (k + 3)) sc) sb r env' m \<and> cores sb = cores sc \<and> shape env' = shape env"
    using opt_executes [OF gen pr' ex run code_add [OF code_add [OF lc(2)]]] m by simp
  then show "shape env' = shape env" "cores sb = cores sc" by simp_all
  show "\<exists>m'. arrives F ar cs ps (Suc (length (cg_calls sc))) (cores sc) env'
      (length (cg_calls (enter (Val (k + 4)) (branch_to (Val (k + 4)) sb)))) m m'" if "r = Normal \<or> r = Continued"
  proof (cases "r = Normal")
    case True
    with F obtain m1 where "arrives F ar cs ps (Suc (length (cg_calls sc))) (cores sc) env' (length (cg_calls sb)) m m1"
      by (auto simp: follows_def)
    from arrives_br [OF this code_add [OF lc(2)] ls] show ?thesis by (metis add_call_simps(1) length_append_singleton)
  next
    case False
    with F that ls show ?thesis by (auto simp: follows_def leaves_def)
  qed
  show "\<exists>m'. arrives F ar cs ps (Suc (length (cg_calls sc))) (cores sc) env'
      (Suc (length (cg_calls (branch_to (Val (k + 2)) ss)))) m m'" if "r = Broke"
    using F that le by (auto simp: follows_def leaves_def)
  show "leaves F ar cs ps self rt (Suc (length (cg_calls sc))) (cores sc) r env' m" if "r = Returned v"
    using F that by (auto simp: follows_def leaves_def)
qed

lemma loop_arrives:
  assumes ar: "agrees F ar" and once: "entered_once cs" and gen: "executes F ar cs ps rt gen ex"
    and grows: "\<And>self x. grows (gen self x)" and pr: "proper cs self rt"
    and parts: "loop_parts n self gen c stp body k u sc sb ss"
    and code: "code_in cs (enter (Val (k + 5)) (branch_to (Val (k + 2)) ss))"
    and "for_loop F fuel ex c stp body env = Some (r, env')"
    and "env_rel F (Suc (length (cg_calls u))) (cores u) env m" and "m_pc m = Suc (length (cg_calls u))"
  shows "shape env' = shape env \<and> (if r = Normal
    then \<exists>m'. arrives F ar cs ps (Suc (length (cg_calls u))) (cores u) env' (Suc (length (cg_calls (branch_to (Val (k + 2)) ss)))) m m'
    else leaves F ar cs ps self rt (Suc (length (cg_calls u))) (cores u) r env' m)"
  using assms(8-)
proof (induction fuel arbitrary: env m)
  case (Suc fuel)
  obtain as where self: "cg_after self = CHR 0x00 # as" using pr by (auto simp: proper_def)
  note lc = loop_code [of gen, OF grows parts code]
  note ll = label_found [OF once lc(4)] and lb = label_found [OF once lc(3)] and le = label_found [OF once code]
  let ?B = "Suc (length (cg_calls u))" and ?X = "Suc (length (cg_calls (branch_to (Val (k + 2)) ss)))"
  have len: "?B \<le> Suc (length (cg_calls sc))" using lc(5) by simp
  from Suc.prems(1) obtain b env1 where t: "(case c of None \<Rightarrow> Some (True, env) | Some c \<Rightarrow> exec_condition F c env) = Some (b, env1)"
    and rest: "if \<not> b then r = Normal \<and> env' = env1 else Option.bind (exec_opt ex body env1) (\<lambda>(r, env2). case r of
         Broke \<Rightarrow> Some (Normal, env2)
       | Returned v \<Rightarrow> Some (Returned v, env2)
       | _ \<Rightarrow> Option.bind (exec_expr F stp env2) (for_loop F fuel ex c stp body)) = Some (r, env')"
    by (auto simp: bind_eq_Some_conv split: if_splits)
  have test: "loop_test n self c (Val (k + 3)) (Val (k + 5)) (enter (Val (k + 2)) u) = Inr ((), sc)"
    using parts by (simp add: loop_parts_def)
  show ?case
  proof (rule test_arrives [OF ar once self t test lb le code_add [OF lc(3)]])
    fix m1
    assume m1: "arrives F ar cs ps (length (cg_calls (enter (Val (k + 2)) u))) (cores (enter (Val (k + 2)) u)) env1
        (Suc (if b then length (cg_calls sc) else length (cg_calls (branch_to (Val (k + 2)) ss)))) m m1"
      and csc: "cores sc = cores (enter (Val (k + 2)) u)" and sh1: "shape env1 = shape env"
    show ?thesis
    proof (cases b)
      case False
      with rest m1 sh1 show ?thesis by auto
    next
      case True
      with m1 csc have m1: "arrives F ar cs ps ?B (cores u) env1 (Suc (length (cg_calls sc))) m m1" and csc: "cores sc = cores u"
        by simp_all
      from rest True obtain r2 env2 where e2: "exec_opt ex body env1 = Some (r2, env2)"
        and rest: "(case r2 of Broke \<Rightarrow> Some (Normal, env2) | Returned v \<Rightarrow> Some (Returned v, env2)
          | _ \<Rightarrow> Option.bind (exec_expr F stp env2) (for_loop F fuel ex c stp body)) = Some (r, env')"
        by (auto simp: bind_eq_Some_conv)
      have "env_rel F (Suc (length (cg_calls sc))) (cores sc) env1 m1" using arrivesD(2) [OF m1 len] csc by simp
      note B = body_arrives [of cs F ar ps rt gen ex, OF once gen grows pr parts code e2 this arrivesD(1) [OF m1], unfolded csc]
      show ?thesis
      proof (cases "r2 = Normal \<or> r2 = Continued")
        case False
        then show ?thesis
        proof (cases r2)
          case Broke
          with rest have r: "r = Normal" "env' = env2" by simp_all
          from B(4) [OF Broke] obtain m2 where
            "arrives F ar cs ps (Suc (length (cg_calls sc))) (cores u) env2 ?X m1 m2" by blast
          with arrives_trans [OF m1 this len B(1)] show ?thesis using r B(1) sh1 by auto
        next
          case (Returned v)
          with rest have r: "r = r2" "env' = env2" by simp_all
          show ?thesis using arrives_leaves [OF m1 len B(1) B(5) [OF Returned]] B(1) sh1 Returned r by simp
        qed simp_all
      next
        case True
        let ?S = "enter (Val (k + 4)) (branch_to (Val (k + 4)) sb)"
        from True rest obtain env3 where e3: "exec_expr F stp env2 = Some env3" "for_loop F fuel ex c stp body env3 = Some (r, env')"
          by (auto simp: bind_eq_Some_conv)
        from B(3) [OF True] obtain m2 where m2: "arrives F ar cs ps (Suc (length (cg_calls sc))) (cores u) env2 (length (cg_calls ?S)) m1 m2"
          by blast
        note m2 = arrives_trans [OF m1 m2 len B(1)]
        have lS: "?B \<le> length (cg_calls ?S)" using lc(5,6) by simp
        have cS: "cores ?S = cores u" using B(2) by simp
        have step: "codegen_opt_expr n self stp ?S = Inr ((), ss)" using parts by (simp add: loop_parts_def)
        show ?thesis
        proof (rule opt_expr_arrives [OF ar once self e3(1) step code_add [OF lc(1)] arrivesD(2) [OF m2 lS, folded cS] arrivesD(1) [OF m2]])
          fix m3
          assume m3: "arrives F ar cs ps (length (cg_calls ?S)) (cores ?S) env3 (length (cg_calls ss)) m2 m3"
            and sh3: "shape env3 = shape env2"
          obtain m4 where m4: "arrives F ar cs ps (length (cg_calls ?S)) (cores ?S) env3 (Suc (length (cg_calls u))) m2 m4"
            by (rule arrives_br [OF m3 lc(1) ll])
          note m4 = arrives_trans [OF m2 m4 [unfolded cS] lS sh3]
          note IH = Suc.IH [OF e3(2) arrivesD(2) [OF m4 order_refl] arrivesD(1) [OF m4]]
          have sh: "shape env' = shape env3" using IH by simp
          show ?thesis using IH arrives_trans [OF m4 _ order_refl sh] arrives_leaves [OF m4 order_refl sh] sh sh3 B(1) sh1
            by (auto split: if_splits)
        qed
      qed
    qed
  qed (use Suc.prems(2,3) in simp_all)
qed simp

lemma loop_blocks_arrive:
  assumes r: "arrives F ar cs ps B cos env (length (cg_calls s)) m m1" and c: "code_in cs (loop_blocks f s)"
  obtains m2 where "arrives F ar cs ps B cos env (length (cg_calls (loop_blocks f s))) m m2"
proof -
  note c4 = c [unfolded loop_blocks_def]
  note c3 = code_add [OF c4]
  note c2 = code_add [OF c3]
  note c1 = code_add [OF c2]
  show thesis
    by (rule append_arrives [OF r c1], rule append_arrives [OF _ c2], assumption, rule append_arrives [OF _ c3], assumption,
        rule append_arrives [OF _ c4], assumption, rule that) (simp add: loop_blocks_def)
qed

lemma loop_blocks_same [simp]: "cores (loop_blocks f s) = cores s" "flags (loop_blocks f s) = flags s"
  "length (cg_calls (loop_blocks f s)) = length (cg_calls s) + 4"
  by (simp_all add: loop_blocks_def)

lemma loop_blocks_code: "code_in cs (loop_blocks f s) \<Longrightarrow> code_in cs s"
  by (auto simp: loop_blocks_def dest!: code_add)

lemma for_follows:
  assumes ar: "agrees F ar" and once: "entered_once cs" and gen: "executes F ar cs ps rt gen ex"
    and grows: "\<And>self x. grows (gen self x)" and pr: "proper cs self rt"
    and ex: "in_scope (\<lambda>env1. Option.bind (exec_expr F i env1) (for_loop F fuel ex c stp body)) env = Some (r, env')"
    and run: "codegen_for n self gen i c stp body s = Inr ((), s')"
    and m: "code_in cs s'" "env_rel F (length (cg_calls s)) (cores s) env m" "m_pc m = length (cg_calls s)"
  shows "follows F ar cs ps self rt s s' r env' m" and "cores s' = cores s" and "shape env' = shape env"
proof -
  show cores': "cores s' = cores s" using steady_for [of gen, OF grows] run unfolding steady_def by blast
  obtain as where self: "cg_after self = CHR 0x00 # as" using pr by (auto simp: proper_def)
  from ex obtain env1 env2 where e: "exec_expr F i ([] # env) = Some env1" "for_loop F fuel ex c stp body env1 = Some (r, env2)"
    "env' = tl env2" by (auto simp: in_scope_def bind_eq_Some_conv)
  have "follows F ar cs ps self rt s s' r env' m \<and> shape env' = shape env"
  proof (rule for_runs [OF run])
    fix s1 k u sc sb ss t
    let ?X = "enter (Val (k + 5)) (branch_to (Val (k + 2)) ss)"
    assume i: "codegen_opt_expr n self i (pushed s) = Inr ((), s1)"
      and u: "u = branch_to (Val (k + 2)) (loop_blocks (Val (k + 1)) (func_calls s1))"
      and parts: "loop_parts n self gen c stp body k u sc sb ss" and d: "codegen_context_dispose ?X = Inr (t, s')"
    have code: "code_in cs ?X" using m(1) code_in_dispose [OF d] by simp
    note lc = loop_code [of gen, OF grows parts code]
    note cu = code_add [OF lc(4)]
    note cb = cu [unfolded u, THEN code_add]
    note cf = loop_blocks_code [OF cb]
    have c1: "code_in cs s1" using cf by (auto simp: func_calls_def dest!: code_add)
    show ?thesis
    proof (rule opt_expr_arrives [OF ar once self e(1) i c1])
      fix m1
      assume m1: "arrives F ar cs ps (length (cg_calls (pushed s))) (cores (pushed s)) env1 (length (cg_calls s1)) m m1"
        and same: "cg_contexts s1 = cg_contexts (pushed s)" and sh: "shape env1 = shape ([] # env)"
      obtain m2 where m2: "arrives F ar cs ps (length (cg_calls s)) ([] # cores s) env1 (length (cg_calls (func_calls s1))) m m2"
        using func_arrives [OF m1 cf] by auto
      obtain m3 where m3: "arrives F ar cs ps (length (cg_calls s)) ([] # cores s) env1
          (length (cg_calls (loop_blocks (Val (k + 1)) (func_calls s1)))) m m3" by (rule loop_blocks_arrive [OF m2 cb])
      obtain m4 where m4: "arrives F ar cs ps (length (cg_calls s)) ([] # cores s) env1 (Suc (length (cg_calls u))) m m4"
        by (rule arrives_br [OF m3 cu [unfolded u] label_found [OF once lc(4)]])
      have cores_u: "cores u = [] # cores s" and flags_u: "flags u = False # flags s"
        using same by (simp_all add: u cores_def flags_def pushed_def codegen_context_init_def func_calls_def loop_blocks_def)
      have "more_calls (pushed s) s1" by (rule growsD(1) [OF grows_opt_expr i])
      from more_calls_length [OF this] have le: "length (cg_calls s) \<le> Suc (length (cg_calls u))" by (simp add: u)
      note L = loop_arrives [of F ar cs ps rt gen ex, OF ar once gen grows pr parts code e(2), unfolded cores_u,
          OF arrivesD(2) [OF m4 le] arrivesD(1) [OF m4]]
      have sh2: "shape env2 = shape env1" using L by simp
      have ne: "env2 \<noteq> []" using sh2 sh by (auto simp: shape_def)
      have sh': "shape env' = shape env" using sh2 sh by (simp add: e(3) shape_tl) (simp add: shape_def)
      note dsame = dispose_same [OF d]
      have "flags s' = flags s" using dsame(3) lc(8) flags_u by simp
      moreover have "\<exists>m'. arrives F ar cs ps (length (cg_calls s)) (cores s) env' (length (cg_calls s')) m m'" if "r = Normal"
      proof -
        from L that obtain m5 where m5: "arrives F ar cs ps (Suc (length (cg_calls u))) ([] # cores s) env2
            (Suc (length (cg_calls (branch_to (Val (k + 2)) ss)))) m4 m5" by auto
        from arrives_pop [OF arrives_trans [OF m4 m5 le sh2] ne] show ?thesis using dsame(1) by (auto simp: e(3))
      qed
      moreover have "leaves F ar cs ps self rt (length (cg_calls s)) (cores s) r env' m" if "r \<noteq> Normal"
      proof -
        from L that have "leaves F ar cs ps self rt (Suc (length (cg_calls u))) ([] # cores s) r env2 m4" by simp
        from leaves_pop [OF arrives_leaves [OF m4 le sh2 this] ne] show ?thesis by (simp add: e(3))
      qed
      ultimately show ?thesis using sh' by (simp add: follows_def)
    qed (use m(2,3) env_push in simp_all)
  qed
  then show "follows F ar cs ps self rt s s' r env' m" "shape env' = shape env" by simp_all
qed

subsection \<open>All statements\<close>

lemma expr_stmt_follows:
  assumes "agrees F ar" and "entered_once cs" and "cg_after self = CHR 0x00 # as" and "exec_expr F e env = Some env'"
    and "codegen_opt_expr n self e s = Inr ((), s')"
    and "code_in cs s'" "env_rel F (length (cg_calls s)) (cores s) env m" "m_pc m = length (cg_calls s)"
  shows "follows F ar cs ps self rt s s' Normal env' m \<and> cores s' = cores s \<and> shape env' = shape env"
  by (rule opt_expr_arrives [OF assms]) (auto simp: follows_def cores_def flags_def)

lemma stmt_executes:
  assumes ar: "agrees F ar" and once: "entered_once cs"
  shows "executes F ar cs ps rt (codegen_stmt n) (exec_stmt F rt k)"
proof (induction k arbitrary: n)
  case 0
  then show ?case by (simp add: executes_def)
next
  case (Suc k)
  show ?case unfolding executes_def
  proof (intro allI impI)
    fix self x env r env' s s' m
    assume pr: "proper cs self rt" and ex: "exec_stmt F rt (Suc k) x env = Some (r, env')"
      and run: "codegen_stmt n self x s = Inr ((), s')"
      and m: "code_in cs s'" "env_rel F (length (cg_calls s)) (cores s) env m" "m_pc m = length (cg_calls s)"
    obtain as where self: "cg_after self = CHR 0x00 # as" "cg_unit self = Some rt" using pr by (auto simp: proper_def)
    obtain n' where n: "n = Suc n'" using run by (cases n) (auto simp: cg_runs)
    note run = run [unfolded n, simplified, unfolded codegen_stmt_kind_def]
    show "follows F ar cs ps self rt s s' r env' m \<and> cores s' = cores s \<and> shape env' = shape env"
    proof (cases "stmt_kind x")
      case (Expr_Stmt e)
      then show ?thesis using expr_stmt_follows [OF ar once self(1) _ _ m] ex run by auto
    next
      case (Compound_Stmt items)
      then show ?thesis using compound_follows [OF ar once Suc.IH grows_stmt pr _ _ m] ex run by auto
    next
      case (If_Stmt c y z)
      with ex obtain b env1 where "in_scope (exec_condition F c) env = Some (b, env1)"
        "in_scope (exec_opt (exec_stmt F rt k) (if b then y else z)) env1 = Some (r, env')" by (auto simp: bind_eq_Some_conv)
      then show ?thesis using if_follows [OF ar once Suc.IH grows_stmt pr _ _ _ m] run If_Stmt by auto
    next
      case (For_Stmt i c stp body)
      then show ?thesis using for_follows [OF ar once Suc.IH grows_stmt pr _ _ m] ex run by auto
    next
      case Continue_Stmt
      with run obtain l where l: "cg_continue_block self = Some l" "codegen_jump self (Some l) ''nowhere to continue to'' s = Inr ((), s')"
        by (cases "cg_continue_block self") (auto simp: codegen_jump_def fail_runs)
      with pr obtain p where "label_of cs l = Some p" by (auto simp: proper_def)
      with jump_leaves [OF l(2) this m] ex Continue_Stmt l(1) show ?thesis by (auto simp: follows_def leaves_def)
    next
      case Break_Stmt
      with run obtain l where l: "cg_break_block self = Some l" "codegen_jump self (Some l) ''nowhere to break to'' s = Inr ((), s')"
        by (cases "cg_break_block self") (auto simp: codegen_jump_def fail_runs)
      with pr obtain p where "label_of cs l = Some p" by (auto simp: proper_def)
      with jump_leaves [OF l(2) this m] ex Break_Stmt l(1) show ?thesis by (auto simp: follows_def leaves_def)
    next
      case (Return_Stmt e)
      then show ?thesis using return_leaves [OF ar once self _ _ m] ex run by (auto simp: follows_def)
    qed (use ex in simp_all)
  qed
qed

end
