(* ===== verification/Func_Correct.thy ===== *)
theory Func_Correct
  imports Stmt_Loops
begin

section \<open>The code of a function computes what the function returns\<close>

subsection \<open>Parameters\<close>

definition arguments :: "func_unit \<Rightarrow> int list \<Rightarrow> mval list" where
  "arguments fu xs = map2 (\<lambda>p x. rep (param_type p) x) (fu_params fu) xs"

text \<open>As many arguments as parameters, each in the range of an integer or boolean type.\<close>

definition arguments_ok :: "func_unit \<Rightarrow> int list \<Rightarrow> bool" where
  "arguments_ok fu xs \<longleftrightarrow> list_all2 (\<lambda>p x. scalar (param_type p) \<and> wrap (param_type p) x = x) (fu_params fu) xs"

lemma step_param:
  assumes "code_in cs (add_call (Get_Param f i) s)" and "m_pc m = length (cg_calls s)" and "i < length ps"
  shows "mstep ar cs ps m = Some (put (ps ! i) m)"
  using assms code_at [OF assms(1)] by (simp add: mstep_def)

lemma param_reaches:
  assumes run: "codegen_param n self func (i, p) s = Inr ((), s')"
    and i: "i < length ps" "ps ! i = rep (param_type p) x" "scalar (param_type p)" "wrap (param_type p) x = x"
    and m: "code_in cs s'" "env_rel F (length (cg_calls s)) (cores s) (vs # env) m" "m_pc m = length (cg_calls s)"
  shows "flags s' = flags s" and "tl (cores s') = tl (cores s)"
    and "\<exists>m'. reached F ar cs ps s s' ((vs @ [Var (param_name p) (param_type p) (Some x)]) # env) False m m'"
proof -
  define t where "t = param_type p"
  define k where "k = length (cg_calls s)"
  define s1 where "s1 = add_call (Get_Param func i) s"
  define s2 where "s2 = (case param_name p of None \<Rightarrow> s1 | Some nm \<Rightarrow> add_call (Set_Value_Name (Val k) nm) s1)"
  define s3 where "s3 = add_call (Build_Alloca (Ty_Int (bits t)) []) s2"
  define s4 where "s4 = add_call (Build_Store (Val k) (Val (length (cg_calls s2)))) s3"
  from run obtain lt u where lt: "codegen_type n False t s2 = Inr (lt, u)"
    and rest: "cbind (build self (Build_Alloca lt [])) (\<lambda>var. cseq (exec self (Build_Store (Val k) var))
     (codegen_context_add_symbol (variable_symbol (param_name p) t None var))) u = Inr ((), s')"
    by (cases "param_name p") (auto simp: codegen_param_def t_def k_def s1_def s2_def bind_runs seq_runs llvm_runs ret_runs)
  from type_runs [OF _ lt] i(3) rest
  have sy: "codegen_context_add_symbol (variable_symbol (param_name p) t None (Val (length (cg_calls s2)))) s4 = Inr ((), s')"
    by (auto simp: t_def bind_runs seq_runs build_runs exec_runs s3_def s4_def)
  note same = symbol_same [OF sy]
  have cores4: "cores s4 = cores s" "flags s4 = flags s" by (simp_all add: s4_def s3_def s2_def s1_def split: option.split)
  show "flags s' = flags s" using same(2) cores4 by simp
  have "matches F (vs # env) (cores s4)" using m(2) cores4 by (simp add: env_rel_def)
  then obtain c cos where "cores s4 = c # cos" by (auto simp: matches_def Cons_eq_append_conv list_all2_Cons1)
  from same(3) [OF this] this cores4 show "tl (cores s') = tl (cores s)" by simp
  have c4: "code_in cs s4" using m(1) code_in_calls [OF same(1)] by simp
  note c3 = code_add [OF c4 [unfolded s4_def]]
  note c2 = code_add [OF c3 [unfolded s3_def]]
  have c1: "code_in cs s1" using c2 by (auto simp: s2_def split: option.splits dest: code_add)
  note r0 = reached_refl [OF m(3,2)]
  have r1: "reached F ar cs ps s s1 (vs # env) False m (put (rep t x) m)"
    unfolding s1_def by (rule reached_put [OF r0]) (use step_param [OF c1 [unfolded s1_def] m(3) i(1)] i(2) t_def in simp)
  obtain m2 where r2: "reached F ar cs ps s s2 (vs # env) False m m2" "m_regs m2 = (m_regs m)(k := Some (rep t x))"
  proof (cases "param_name p")
    case None
    with that r1 m(3) show thesis by (simp add: s2_def k_def)
  next
    case (Some nm)
    have "mstep ar cs ps (put (rep t x) m) = Some (next_call (put (rep t x) m))"
      by (rule step_next) (use c2 Some reachedD(1) [OF r1] in \<open>auto simp: s2_def\<close>)
    from that reached_next [OF r1 this, of "Set_Value_Name (Val k) nm"] Some m(3) show thesis by (simp add: s2_def k_def)
  qed
  let ?j = "length (cg_calls s2)"
  have kj: "k < ?j" by (simp add: k_def s2_def s1_def split: option.split)
  obtain m3 where r3: "reached F ar cs ps s s3 (vs # env) False m m3" "m_regs m3 = (m_regs m2)(?j := Some (Ptr_Val ?j))"
    unfolding s3_def by (rule reached_alloca [OF r2(1) c3 [unfolded s3_def]])
  note less = fresh_cell [OF reachedD(2) [OF r2(1)] _ order_refl]
  have v3: "operand ar (m_regs m3) (Val k) = Some (rep t x)" "m_regs m3 ?j = Some (Ptr_Val ?j)"
    using kj by (simp_all add: r3(2) r2(2))
  have ne: "cell_at (cores s3) q \<noteq> ?j" if "valid (vs # env) q" for q using less [OF that] by (simp add: s3_def)
  obtain m4 where r4: "reached F ar cs ps s s4 (vs # env) False m m4" "m_regs m4 = m_regs m3" "m_mem m4 = (m_mem m3)(?j := Some (rep t x))"
    unfolding s4_def by (rule reached_store_new [OF r3(1) c4 [unfolded s4_def] v3 ne])
  have "reached F ar cs ps s s' ((vs @ [Var (param_name p) t (Some x)]) # env) False m m4"
    by (rule reached_symbol [OF r4(1) sy]; use less v3 i(4) in \<open>simp add: holds_def r4 t_def s4_def s3_def\<close>)
  then show "\<exists>m'. reached F ar cs ps s s' ((vs @ [Var (param_name p) (param_type p) (Some x)]) # env) False m m'"
    by (auto simp: t_def)
qed

lemma grows_param [frame_intros]: "grows (codegen_param n self func ip)"
  unfolding codegen_param_def by (intro frame_intros)

lemma params_reach:
  assumes "cmap (codegen_param n self func) (enumerate i prs) s = Inr (us, s')"
    and "list_all2 (\<lambda>p x. scalar (param_type p) \<and> wrap (param_type p) x = x) prs xs"
    and "drop i ps = map2 (\<lambda>p x. rep (param_type p) x) prs xs"
    and "code_in cs s'" "env_rel F (length (cg_calls s)) (cores s) (vs # env) m" "m_pc m = length (cg_calls s)"
  shows "flags s' = flags s \<and> tl (cores s') = tl (cores s) \<and>
    (\<exists>m'. reached F ar cs ps s s' ((vs @ map2 (\<lambda>p x. Var (param_name p) (param_type p) (Some x)) prs xs) # env) False m m')"
  using assms
proof (induction prs arbitrary: i s us xs vs m)
  case Nil
  then show ?case using reached_refl by (fastforce simp: ret_runs)
next
  case (Cons p prs)
  from Cons.prems(2) obtain x xs' where xs: "xs = x # xs'" by (cases xs) auto
  from Cons.prems(1) obtain u us' where u: "codegen_param n self func (i, p) s = Inr ((), u)"
    "cmap (codegen_param n self func) (enumerate (Suc i) prs) u = Inr (us', s')" by (auto simp: bind_runs ret_runs)
  have i: "i < length ps" "ps ! i = rep (param_type p) x" "drop (Suc i) ps = map2 (\<lambda>p x. rep (param_type p) x) prs xs'"
    using Cons.prems(3) xs by (auto simp: drop_Suc nth_via_drop simp flip: tl_drop intro: ccontr)
  have cu: "code_in cs u"
    by (rule code_before [OF Cons.prems(4) growsD(1) [OF grows_map u(2)]]) (rule grows_param)
  have ok: "scalar (param_type p)" "wrap (param_type p) x = x" using Cons.prems(2) xs by simp_all
  note P = param_reaches [OF u(1) i(1,2) ok cu Cons.prems(5,6)]
  from P(3) obtain m1 where m1: "reached F ar cs ps s u ((vs @ [Var (param_name p) (param_type p) (Some x)]) # env) False m m1"
    by blast
  have "list_all2 (\<lambda>p x. scalar (param_type p) \<and> wrap (param_type p) x = x) prs xs'" using Cons.prems(2) xs by simp
  from Cons.IH [OF u(2) this i(3) Cons.prems(4) reachedD(2,1) [OF m1]] show ?case
    using reached_trans [OF m1] P(1,2) xs by auto
qed

subsection \<open>Bodies\<close>

text \<open>
  The state after the first calls for a body: the entry block, the builder, and the block entered.
\<close>

definition body_start :: "lval \<Rightarrow> cg_state \<Rightarrow> cg_state" where
  "body_start func s = enter (Val (length (cg_calls s))) (add_call Create_Builder (add_call (Append_Basic_Block func ''entry'') s))"

lemma body_computes:
  assumes ar: "agrees F ar" and once: "entered_once cs" and self: "cg_after self = CHR 0x00 # as"
    "cg_break_block self = None" "cg_continue_block self = None"
    and knows: "knows F (cores s)"
    and run: "codegen_body verify n self fu func body s = Inr ((), s')" and code: "code_in cs s'"
    and xs: "arguments_ok fu xs" and call: "call_value F k fu body xs = Some v"
  shows "\<exists>m'. runs ar cs (arguments fu xs) (start_at (length (cg_calls s) + 2) (Val (length (cg_calls s)))) m' \<and>
    returning ar cs m' (map_option (rep (fu_return_type fu)) v)"
    and "v = Some y \<Longrightarrow> wrap (fu_return_type fu) y = y"
proof -
  let ?rt = "fu_return_type fu" and ?ps = "arguments fu xs"
  define cg where "cg = self\<lparr>cg_builder := True, cg_unit := Some ?rt\<rparr>"
  define s0 where "s0 = pushed (body_start func s)"
  define m0 where "m0 = start_at (length (cg_calls s) + 2) (Val (length (cg_calls s)))"
  from run obtain us s1 s2 t s3 s4 where s1: "cmap (codegen_param n cg func) (enumerate 0 (fu_params fu)) s0 = Inr (us, s1)"
    and s2: "codegen_stmt n cg body s1 = Inr ((), s2)" and s3: "codegen_context_dispose s2 = Inr (t, s3)"
    and s4: "if t then s4 = s3 else type_kind ?rt = Void_Type \<and> s4 = add_call Build_Ret_Void s3"
    and s': "more_calls s4 s'"
    by (auto simp: codegen_body_def verify_func_def Let_def cg_def s0_def body_start_def bind_runs seq_runs llvm_runs block_runs exec_runs
        push_runs when_runs fail_runs more_calls_def split: if_splits)
  have c4: "code_in cs s4" by (rule code_before [OF code s'])
  then have c3: "code_in cs s3" using s4 by (auto split: if_splits dest: code_add)
  then have c2: "code_in cs s2" using code_in_dispose [OF s3] by simp
  then have c1: "code_in cs s1" by (rule code_before [OF _ growsD(1) [OF grows_stmt s2]])
  have "matches F [[]] ([] # cores s)" unfolding matches_def
    by (intro exI [of _ "[[]]"] exI [of _ "cores s"]) (simp add: knows)
  then have m0: "env_rel F (length (cg_calls s0)) (cores s0) ([] # []) m0" "m_pc m0 = length (cg_calls s0)"
    by (auto simp: m0_def s0_def body_start_def start_at_def env_rel_def valid_def)
  have "list_all2 (\<lambda>p x. scalar (param_type p) \<and> wrap (param_type p) x = x) (fu_params fu) xs"
    using xs by (simp add: arguments_ok_def)
  from params_reach [OF s1 this _ c1 m0, of ?ps] obtain m1 where fl: "flags s1 = flags s0"
    and m1: "reached F ar cs ?ps s0 s1 (call_env fu xs) False m0 m1"
    by (auto simp: arguments_def call_env_def)
  from call obtain r env' where ex: "exec_stmt F ?rt k body (call_env fu xs) = Some (r, env')"
    and r: "(case r of Returned w \<Rightarrow> Some w | Normal \<Rightarrow> if type_kind ?rt = Void_Type then Some None else None | _ \<Rightarrow> None) = Some v"
    by (auto simp: call_value_def bind_eq_Some_conv)
  have pr: "proper cs cg ?rt" using self by (simp add: proper_def cg_def)
  have F: "follows F ar cs ?ps cg ?rt s1 s2 r env' m1"
    by (rule executesD(1) [OF stmt_executes [OF ar once] pr ex s2 c2 reachedD(2,1) [OF m1]])
  have r1: "runs ar cs ?ps m0 m1" using m1 by (simp add: reached_def)
  have "(\<exists>m'. runs ar cs ?ps m0 m' \<and> returning ar cs m' (map_option (rep ?rt) v)) \<and> (\<forall>y. v = Some y \<longrightarrow> wrap ?rt y = y)"
  proof (cases "r = Normal")
    case True
    with F obtain m2 where fl2: "flags s2 = flags s1"
      and m2: "arrives F ar cs ?ps (length (cg_calls s1)) (cores s1) env' (length (cg_calls s2)) m1 m2" by (auto simp: follows_def)
    have "\<not> t" using dispose_same(3) [OF s3] fl2 fl by (simp add: s0_def)
    with s4 have "code_in cs (add_call Build_Ret_Void s3)" using c4 by simp
    from code_at [OF this] have "returning ar cs m2 None"
      using arrivesD(1) [OF m2] dispose_same(1) [OF s3] by (simp add: returning_def)
    moreover have "runs ar cs ?ps m0 m2" using runs_trans [OF r1] m2 by (simp add: arrives_def)
    ultimately show ?thesis using r True by (auto split: if_splits)
  next
    case False
    with r obtain w where w: "r = Returned w" "v = w" by (cases r) auto
    with F obtain m2 where "runs ar cs ?ps m1 m2" "returning ar cs m2 (map_option (rep ?rt) v)"
      "\<forall>y. v = Some y \<longrightarrow> wrap ?rt y = y"
      by (auto simp: follows_def leaves_def)
    with runs_trans [OF r1] show ?thesis by blast
  qed
  then show "\<exists>m'. runs ar cs (arguments fu xs) (start_at (length (cg_calls s) + 2) (Val (length (cg_calls s)))) m' \<and>
      returning ar cs m' (map_option (rep ?rt) v)"
    and "v = Some y \<Longrightarrow> wrap ?rt y = y" unfolding m0_def by blast+
qed

end
