(* ===== verification/Codegen_Flow.thy ===== *)
theory Codegen_Flow
  imports Codegen_Stmt
begin

section \<open>The blocks of the generated code\<close>

text \<open>
  LLVM takes a function only when every block ends in exactly one terminator, which is its last
  instruction. \<open>flow\<close> checks this on the calls made: which blocks of the function there are,
  which of them have not been entered, and which one is being filled. An instruction needs a
  block that is being filled, a terminator ends it, the builder moves only to a block not entered
  before, when no other one is being filled, and a branch goes to a block of the function.
\<close>

subsection \<open>Following the calls\<close>

record flow =
  fl_known :: "lval list"
  fl_pending :: "lval list"
  fl_cur :: "lval option"

definition is_instruction :: "call \<Rightarrow> bool" where
  "is_instruction c = (case c of
     Build_Alloca _ _ \<Rightarrow> True | Build_Load _ _ \<Rightarrow> True | Build_Store _ _ \<Rightarrow> True
   | Build_Binary _ _ _ _ \<Rightarrow> True | Build_Cmp _ _ _ _ \<Rightarrow> True | Build_Unary _ _ _ \<Rightarrow> True
   | Build_Cast _ _ _ _ \<Rightarrow> True | Build_In_Bounds_GEP _ _ _ \<Rightarrow> True | Build_Struct_GEP _ _ _ \<Rightarrow> True
   | Build_Extract_Value _ _ _ \<Rightarrow> True | Build_Insert_Value _ _ _ _ \<Rightarrow> True | Build_Call _ _ _ \<Rightarrow> True
   | Build_Phi _ _ \<Rightarrow> True | Build_Malloc _ _ \<Rightarrow> True | Build_Array_Malloc _ _ _ \<Rightarrow> True
   | Build_Free _ \<Rightarrow> True | Build_Global_String_Ptr _ _ \<Rightarrow> True
   | _ \<Rightarrow> False)"

text \<open>The blocks a terminator may branch to.\<close>

definition jump_targets :: "call \<Rightarrow> lval list option" where
  "jump_targets c = (case c of
     Build_Br b \<Rightarrow> Some [b]
   | Build_Cond_Br _ t e \<Rightarrow> Some [t, e]
   | Build_Ret _ \<Rightarrow> Some []
   | Build_Ret_Void \<Rightarrow> Some []
   | Build_Unreachable \<Rightarrow> Some []
   | _ \<Rightarrow> None)"

definition flow_step :: "nat \<Rightarrow> call \<Rightarrow> flow \<Rightarrow> flow option" where
  "flow_step i c f = (case c of
     Append_Basic_Block _ _ \<Rightarrow>
       Some (f\<lparr>fl_known := Val i # fl_known f, fl_pending := Val i # fl_pending f\<rparr>)
   | Position_At_End b \<Rightarrow>
       if fl_cur f = None \<and> b \<in> set (fl_pending f)
       then Some (f\<lparr>fl_cur := Some b, fl_pending := removeAll b (fl_pending f)\<rparr>) else None
   | Dispose_Builder \<Rightarrow>
       if fl_cur f = None \<and> fl_pending f = [] then Some (f\<lparr>fl_known := []\<rparr>) else None
   | _ \<Rightarrow> (case jump_targets c of
         Some bs \<Rightarrow> if fl_cur f \<noteq> None \<and> set bs \<subseteq> set (fl_known f) then Some (f\<lparr>fl_cur := None\<rparr>) else None
       | None \<Rightarrow> if is_instruction c \<and> fl_cur f = None then None else Some f))"

lemmas flow_step_simps = flow_step_def jump_targets_def is_instruction_def

fun flow_from :: "nat \<Rightarrow> call list \<Rightarrow> flow \<Rightarrow> flow option" where
  "flow_from i [] f = Some f"
| "flow_from i (c # cs) f = Option.bind (flow_step i c f) (flow_from (Suc i) cs)"

definition flow_of :: "call list \<Rightarrow> flow option" where
  "flow_of cs = flow_from 0 cs \<lparr>fl_known = [], fl_pending = [], fl_cur = None\<rparr>"

definition well_formed_blocks :: "call list \<Rightarrow> bool" where
  "well_formed_blocks cs \<longleftrightarrow> (case flow_of cs of
     None \<Rightarrow> False | Some f \<Rightarrow> fl_pending f = [] \<and> fl_cur f = None)"

lemma flow_from_append:
  "flow_from i (cs @ ds) f = Option.bind (flow_from i cs f) (flow_from (i + length cs) ds)"
  by (induction cs arbitrary: i f) (simp_all split: Option.bind_splits)

lemma flow_of_snoc: "flow_of (cs @ [c]) = Option.bind (flow_of cs) (flow_step (length cs) c)"
  by (simp add: flow_of_def flow_from_append split: Option.bind_splits)

subsection \<open>Triples\<close>

text \<open>
  \<open>at K P q ts\<close>: the calls so far follow the rules, the blocks \<open>K\<close> are in the function, exactly the
  blocks \<open>P\<close> have not been entered, there is a block being filled if \<open>q\<close>, and the contexts
  are terminated as \<open>ts\<close> says.
\<close>

definition at :: "lval set \<Rightarrow> lval set \<Rightarrow> bool \<Rightarrow> bool list \<Rightarrow> cg_state \<Rightarrow> bool" where
  "at K P q ts s \<longleftrightarrow> (\<exists>f. flow_of (cg_calls s) = Some f \<and> K \<subseteq> set (fl_known f) \<and> set (fl_pending f) = P \<and>
     (fl_cur f \<noteq> None) = q \<and> P \<subseteq> set (fl_known f) \<and> set (fl_known f) \<subseteq> Val ` {..<length (cg_calls s)}) \<and>
     map cc_is_terminated (cg_contexts s) = ts"

definition hoare :: "(cg_state \<Rightarrow> bool) \<Rightarrow> 'a cg \<Rightarrow> ('a \<Rightarrow> cg_state \<Rightarrow> bool) \<Rightarrow> bool" where
  "hoare A m B \<longleftrightarrow> (\<forall>s x s'. A s \<longrightarrow> m s = Inr (x, s') \<longrightarrow> B x s')"

lemma hoareI: "(\<And>s x s'. A s \<Longrightarrow> m s = Inr (x, s') \<Longrightarrow> B x s') \<Longrightarrow> hoare A m B"
  by (simp add: hoare_def)

lemma hoareD: "hoare A m B \<Longrightarrow> A s \<Longrightarrow> m s = Inr (x, s') \<Longrightarrow> B x s'"
  by (auto simp: hoare_def)

lemma hoare_bind: "hoare A m B \<Longrightarrow> (\<And>x. hoare (B x) (f x) C) \<Longrightarrow> hoare A (cbind m f) C"
  by (auto simp: hoare_def cbind_def rbind_Inr_conv)

lemma hoare_seq: "hoare A m (\<lambda>_. B) \<Longrightarrow> hoare B k C \<Longrightarrow> hoare A (cseq m k) C"
  unfolding cseq_def by (rule hoare_bind)

lemma hoare_conseq: "hoare A m B \<Longrightarrow> (\<And>s. A' s \<Longrightarrow> A s) \<Longrightarrow> (\<And>x s. B x s \<Longrightarrow> B' x s) \<Longrightarrow> hoare A' m B'"
  unfolding hoare_def by blast

lemma hoare_pre: "(b \<Longrightarrow> hoare A m B) \<Longrightarrow> hoare (\<lambda>s. b \<and> A s) m B"
  by (auto simp: hoare_def)

lemma hoare_post: "hoare A m B \<Longrightarrow> (\<And>x s. B x s \<Longrightarrow> C x s) \<Longrightarrow> hoare A m C"
  by (auto simp: hoare_def)

lemma hoare_fail [intro]: "hoare A (cfail e) B" "hoare A (derror msg) B" "hoare A (die msg) B"
  by (simp_all add: hoare_def cfail_def derror_def die_def)

lemma hoare_ret: "(\<And>s. A s \<Longrightarrow> B x s) \<Longrightarrow> hoare A (cret x) B"
  by (simp add: hoare_def cret_def)

text \<open>
  Steps that leave the flow where it is: \<open>quiet\<close> ones make no difference at all, and those that
  \<open>keep\<close> it need a block being filled when there is a builder.
\<close>

definition quiet :: "'a cg \<Rightarrow> bool" where
  "quiet m \<longleftrightarrow> (\<forall>K P q ts. hoare (at K P q ts) m (\<lambda>_. at K P q ts))"

definition keeps :: "codegen_t \<Rightarrow> 'a cg \<Rightarrow> bool" where
  "keeps self m \<longleftrightarrow> (\<forall>K P q ts. (cg_builder self \<longrightarrow> q) \<longrightarrow> hoare (at K P q ts) m (\<lambda>_. at K P q ts))"

lemma quietD: "quiet m \<Longrightarrow> hoare (at K P q ts) m (\<lambda>_. at K P q ts)"
  by (simp add: quiet_def)

lemma keepsD: "keeps self m \<Longrightarrow> (cg_builder self \<Longrightarrow> q) \<Longrightarrow> hoare (at K P q ts) m (\<lambda>_. at K P q ts)"
  by (simp add: keeps_def)

named_theorems flow_intros \<open>steps that keep the flow where it is\<close>

lemma quiet_keeps: "quiet m \<Longrightarrow> keeps self m"
  by (simp add: quiet_def keeps_def)

lemma quiet_basic [flow_intros]:
  "quiet (cret x)" "quiet (cfail e)" "quiet (derror msg)" "quiet (die msg)" "quiet (clift r)" "quiet cget"
  by (auto simp: quiet_def hoare_def cret_def cfail_def derror_def die_def clift_def cget_def rbind_Inr_conv)

lemmas keeps_basic [flow_intros] = quiet_basic [THEN quiet_keeps]

lemma quiet_bind [flow_intros]: "quiet m \<Longrightarrow> (\<And>x. quiet (f x)) \<Longrightarrow> quiet (cbind m f)"
  by (simp add: quiet_def hoare_bind [OF quietD quietD])

lemma quiet_seq [flow_intros]: "quiet m \<Longrightarrow> quiet k \<Longrightarrow> quiet (cseq m k)"
  unfolding cseq_def by (rule quiet_bind)

lemma keeps_bind [flow_intros]: "keeps self m \<Longrightarrow> (\<And>x. keeps self (f x)) \<Longrightarrow> keeps self (cbind m f)"
  unfolding keeps_def [of self "cbind m f"] by (intro allI impI hoare_bind [OF keepsD keepsD]) auto

lemma keeps_seq [flow_intros]: "keeps self m \<Longrightarrow> keeps self k \<Longrightarrow> keeps self (cseq m k)"
  unfolding cseq_def by (rule keeps_bind)

lemma quiet_when [flow_intros]: "quiet m \<Longrightarrow> quiet (cwhen b m)"
  by (simp add: cwhen_def flow_intros)

lemma quiet_assert [flow_intros]: "quiet (cassert b msg)"
  by (simp add: cassert_def flow_intros)

lemmas keeps_assert [flow_intros] = quiet_assert [THEN quiet_keeps]

lemma keeps_when [flow_intros]: "keeps self m \<Longrightarrow> keeps self (cwhen b m)"
  by (simp add: cwhen_def flow_intros)

lemma quiet_map [flow_intros]: "(\<And>x. x \<in> set xs \<Longrightarrow> quiet (f x)) \<Longrightarrow> quiet (cmap f xs)"
  by (induction xs) (simp_all add: flow_intros)

lemma keeps_map [flow_intros]: "(\<And>x. x \<in> set xs \<Longrightarrow> keeps self (f x)) \<Longrightarrow> keeps self (cmap f xs)"
  by (induction xs) (auto intro!: flow_intros)

subsection \<open>Calls\<close>

lemma at_llvm:
  assumes "\<And>f i. K \<subseteq> set (fl_known f) \<Longrightarrow> (fl_cur f \<noteq> None) = q \<Longrightarrow> flow_step i c f = Some f"
  shows "hoare (at K P q ts) (llvm c) (\<lambda>_. at K P q ts)"
proof (rule hoareI)
  fix s x s'
  assume A: "at K P q ts s" and m: "llvm c s = Inr (x, s')"
  from A obtain f where f: "flow_of (cg_calls s) = Some f" "K \<subseteq> set (fl_known f)" "set (fl_pending f) = P"
    "(fl_cur f \<noteq> None) = q" "P \<subseteq> set (fl_known f)" "set (fl_known f) \<subseteq> Val ` {..<length (cg_calls s)}"
    "map cc_is_terminated (cg_contexts s) = ts" unfolding at_def by blast
  from m have s': "s' = s\<lparr>cg_calls := cg_calls s @ [c]\<rparr>" by (simp add: llvm_def)
  have "Val ` {..<length (cg_calls s)} \<subseteq> Val ` {..<Suc (length (cg_calls s))}" by (intro image_mono) simp
  with f(6) have "set (fl_known f) \<subseteq> Val ` {..<Suc (length (cg_calls s))}" by (rule order_trans)
  then show "at K P q ts s'"
    using f(1-5,7) assms [OF f(2,4), of "length (cg_calls s)"] by (simp add: at_def s' flow_of_snoc)
qed

text \<open>The calls that have nothing to do with blocks, and the instructions.\<close>

definition plain_call :: "call \<Rightarrow> bool" where
  "plain_call c \<longleftrightarrow> (case c of Append_Basic_Block _ _ \<Rightarrow> False | Position_At_End _ \<Rightarrow> False
     | Dispose_Builder \<Rightarrow> False | _ \<Rightarrow> jump_targets c = None)"

lemma flow_step_plain:
  "plain_call c \<Longrightarrow> (is_instruction c \<Longrightarrow> fl_cur f \<noteq> None) \<Longrightarrow> flow_step i c f = Some f"
  by (cases c) (auto simp: plain_call_def flow_step_simps)

lemma quiet_llvm: "plain_call c \<Longrightarrow> \<not> is_instruction c \<Longrightarrow> quiet (llvm c)"
  unfolding quiet_def by (blast intro: at_llvm flow_step_plain)

lemma keeps_build: "plain_call c \<Longrightarrow> keeps self (build self c)"
  unfolding keeps_def build_def by (auto intro: at_llvm flow_step_plain)

lemma keeps_exec: "plain_call c \<Longrightarrow> keeps self (exec self c)"
  unfolding exec_def by (intro flow_intros keeps_build)

text \<open>The calls about blocks.\<close>

lemma at_weaken: "at K P q ts s \<Longrightarrow> K' \<subseteq> K \<Longrightarrow> P' = P \<Longrightarrow> at K' P' q ts s"
  unfolding at_def by (metis order_trans)

lemma hoare_append:
  assumes "\<And>b. b \<notin> K \<Longrightarrow> b \<notin> P \<Longrightarrow> hoare (at (insert b K) (insert b P) q ts) (f b) C"
  shows "hoare (at K P q ts) (cbind (append_block func name) f) C"
proof (rule hoareI)
  fix s x s'
  assume A: "at K P q ts s" and m: "cbind (append_block func name) f s = Inr (x, s')"
  define b where "b = Val (length (cg_calls s))"
  define t where "t = s\<lparr>cg_calls := cg_calls s @ [Append_Basic_Block func name]\<rparr>"
  from A obtain fl where f: "flow_of (cg_calls s) = Some fl" "K \<subseteq> set (fl_known fl)" "set (fl_pending fl) = P"
    "(fl_cur fl \<noteq> None) = q" "P \<subseteq> set (fl_known fl)" "set (fl_known fl) \<subseteq> Val ` {..<length (cg_calls s)}"
    "map cc_is_terminated (cg_contexts s) = ts" unfolding at_def by blast
  have "b \<notin> Val ` {..<length (cg_calls s)}" by (auto simp: b_def)
  with f have fresh: "b \<notin> K" "b \<notin> P" by auto
  have "Val ` {..<length (cg_calls s)} \<subseteq> Val ` {..<Suc (length (cg_calls s))}" by (intro image_mono) simp
  with f(6) have "set (fl_known fl) \<subseteq> Val ` {..<Suc (length (cg_calls s))}" by (rule order_trans)
  with f have "at (insert b K) (insert b P) q ts t"
    by (auto simp: at_def t_def flow_of_snoc flow_step_def b_def)
  moreover from m have "f b t = Inr (x, s')" by (simp add: cbind_def append_block_def llvm_def b_def t_def)
  ultimately show "C x s'" by (rule hoareD [OF assms [OF fresh]])
qed

lemma hoare_func:
  assumes "\<And>x. cg_builder self \<Longrightarrow> hoare (at K P q ts) (f x) C"
  shows "hoare (at K P q ts) (cbind (current_func self) f) C"
proof (cases "cg_builder self")
  case True
  have "quiet (current_func self)"
    unfolding current_func_def build_def if_P [OF True]
    by (intro flow_intros quiet_llvm) (simp_all add: plain_call_def flow_step_simps)
  then show ?thesis using assms [OF True] by (blast intro: hoare_bind quietD)
next
  case False
  then show ?thesis by (simp add: hoare_def cbind_def current_func_def build_def cfail_def)
qed

lemma hoare_keeps:
  "keeps self m \<Longrightarrow> (cg_builder self \<Longrightarrow> q) \<Longrightarrow> (\<And>x. hoare (at K P q ts) (f x) C) \<Longrightarrow>
   hoare (at K P q ts) (cbind m f) C"
  by (rule hoare_bind [OF keepsD])

lemma hoare_keeps_seq:
  "keeps self m \<Longrightarrow> (cg_builder self \<Longrightarrow> q) \<Longrightarrow> hoare (at K P q ts) k C \<Longrightarrow> hoare (at K P q ts) (cseq m k) C"
  unfolding cseq_def by (rule hoare_keeps)

lemma hoare_enter_exec:
  assumes "b \<in> P"
  shows "hoare (at K P False ts) (exec self (Position_At_End b)) (\<lambda>_. at K (P - {b}) True ts)"
proof (rule hoareI)
  fix s x s'
  assume A: "at K P False ts s" and m: "exec self (Position_At_End b) s = Inr (x, s')"
  from A obtain f where f: "flow_of (cg_calls s) = Some f" "K \<subseteq> set (fl_known f)" "set (fl_pending f) = P"
    "fl_cur f = None" "P \<subseteq> set (fl_known f)" "set (fl_known f) \<subseteq> Val ` {..<length (cg_calls s)}"
    "map cc_is_terminated (cg_contexts s) = ts" unfolding at_def by blast
  from m have s': "s' = s\<lparr>cg_calls := cg_calls s @ [Position_At_End b]\<rparr>"
    by (auto simp: exec_def build_def llvm_def cbind_def cret_def cfail_def split: if_splits)
  have "Val ` {..<length (cg_calls s)} \<subseteq> Val ` {..<Suc (length (cg_calls s))}" by (intro image_mono) simp
  with f(6) have "set (fl_known f) \<subseteq> Val ` {..<Suc (length (cg_calls s))}" by (rule order_trans)
  with f assms show "at K (P - {b}) True ts s'" by (auto simp: at_def s' flow_of_snoc flow_step_def)
qed

lemma hoare_jump_exec:
  assumes "jump_targets c = Some bs" and "set bs \<subseteq> K"
  shows "hoare (at K P True ts) (exec self c) (\<lambda>_. at K P False ts)"
proof (rule hoareI)
  fix s x s'
  assume A: "at K P True ts s" and m: "exec self c s = Inr (x, s')"
  from A obtain f where f: "flow_of (cg_calls s) = Some f" "K \<subseteq> set (fl_known f)" "set (fl_pending f) = P"
    "fl_cur f \<noteq> None" "P \<subseteq> set (fl_known f)" "set (fl_known f) \<subseteq> Val ` {..<length (cg_calls s)}"
    "map cc_is_terminated (cg_contexts s) = ts" unfolding at_def by blast
  from m have s': "s' = s\<lparr>cg_calls := cg_calls s @ [c]\<rparr>"
    by (auto simp: exec_def build_def llvm_def cbind_def cret_def cfail_def split: if_splits)
  have step: "flow_step (length (cg_calls s)) c f = Some (f\<lparr>fl_cur := None\<rparr>)"
    using assms f(2,4) by (cases c) (auto simp: flow_step_def jump_targets_def)
  have "Val ` {..<length (cg_calls s)} \<subseteq> Val ` {..<Suc (length (cg_calls s))}" by (intro image_mono) simp
  with f(6) have "set (fl_known f) \<subseteq> Val ` {..<Suc (length (cg_calls s))}" by (rule order_trans)
  with f step show "at K P False ts s'" by (simp add: at_def s' flow_of_snoc)
qed

lemma hoare_enter:
  "b \<in> P \<Longrightarrow> hoare (at K (P - {b}) True ts) k C \<Longrightarrow>
   hoare (at K P False ts) (cseq (exec self (Position_At_End b)) k) C"
  by (rule hoare_seq [OF hoare_enter_exec])

lemma hoare_jump:
  "jump_targets c = Some bs \<Longrightarrow> set bs \<subseteq> K \<Longrightarrow> hoare (at K P False ts) k C \<Longrightarrow>
   hoare (at K P True ts) (cseq (exec self c) k) C"
  by (rule hoare_seq [OF hoare_jump_exec])

lemma hoare_done: "K' \<subseteq> K \<Longrightarrow> P' = P \<Longrightarrow> hoare (at K P q ts) (cret x) (\<lambda>_. at K' P' q ts)"
  by (rule hoare_ret) (rule at_weaken)

end
