(* ===== verification/Codegen_Flow_Expr.thy ===== *)
theory Codegen_Flow_Expr
  imports Codegen_Flow
begin

section \<open>The blocks of the code of an expression\<close>

subsection \<open>Case distinctions\<close>

lemma quiet_if [flow_intros]:
  "quiet a \<Longrightarrow> quiet b \<Longrightarrow> quiet (if c then a else b)"
  by simp

lemma quiet_let [flow_intros]:
  "(\<And>x. quiet (f x)) \<Longrightarrow> quiet (Let z f)"
  by (simp add: Let_def)

lemma quiet_option [flow_intros]:
  "quiet f0 \<Longrightarrow> (\<And>x. quiet (f1 x)) \<Longrightarrow>
   quiet (case_option f0 f1 z)"
  by (cases z) simp_all

lemma quiet_prod [flow_intros]:
  "(\<And>x y. quiet (f0 x y)) \<Longrightarrow>
   quiet (case_prod f0 z)"
  by (cases z) simp_all

lemma quiet_type_t [flow_intros]:
  "(\<And>x y. quiet (f0 x y)) \<Longrightarrow>
   quiet (case_type_t f0 z)"
  by (cases z) simp_all

lemma quiet_type_kind [flow_intros]:
  "quiet f0 \<Longrightarrow> quiet f1 \<Longrightarrow> quiet f2 \<Longrightarrow> (\<And>x. quiet (f3 x)) \<Longrightarrow> (\<And>x. quiet (f4 x)) \<Longrightarrow>
   (\<And>x y. quiet (f5 x y)) \<Longrightarrow> (\<And>x. quiet (f6 x)) \<Longrightarrow> (\<And>x. quiet (f7 x)) \<Longrightarrow> (\<And>x y. quiet (f8 x y)) \<Longrightarrow> (\<And>x. quiet (f9 x)) \<Longrightarrow>
   (\<And>x. quiet (f10 x)) \<Longrightarrow> quiet f11 \<Longrightarrow>
   quiet (case_type_kind f0 f1 f2 f3 f4 f5 f6 f7 f8 f9 f10 f11 z)"
  by (cases z) simp_all

lemma quiet_struct_member [flow_intros]:
  "(\<And>x y. quiet (f0 x y)) \<Longrightarrow>
   quiet (case_struct_member f0 z)"
  by (cases z) simp_all

lemma quiet_interface_member [flow_intros]:
  "(\<And>x y. quiet (f0 x y)) \<Longrightarrow> (\<And>x y z. quiet (f1 x y z)) \<Longrightarrow> quiet f2 \<Longrightarrow>
   quiet (case_interface_member f0 f1 f2 z)"
  by (cases z) simp_all

lemma quiet_interface_ptr [flow_intros]:
  "quiet f0 \<Longrightarrow> (\<And>x. quiet (f1 x)) \<Longrightarrow> quiet f2 \<Longrightarrow>
   quiet (case_interface_ptr f0 f1 f2 z)"
  by (cases z) simp_all

lemma quiet_expr_kind [flow_intros]:
  "(\<And>x. quiet (f0 x)) \<Longrightarrow> (\<And>x. quiet (f1 x)) \<Longrightarrow> (\<And>x y. quiet (f2 x y)) \<Longrightarrow> (\<And>x y. quiet (f3 x y)) \<Longrightarrow> (\<And>x y z w. quiet (f4 x y z w)) \<Longrightarrow>
   (\<And>x y. quiet (f5 x y)) \<Longrightarrow> (\<And>x y. quiet (f6 x y)) \<Longrightarrow> (\<And>x y z. quiet (f7 x y z)) \<Longrightarrow> (\<And>x y. quiet (f8 x y)) \<Longrightarrow> (\<And>x. quiet (f9 x)) \<Longrightarrow>
   (\<And>x. quiet (f10 x)) \<Longrightarrow> (\<And>x y. quiet (f11 x y)) \<Longrightarrow> (\<And>x y z. quiet (f12 x y z)) \<Longrightarrow> (\<And>x y z. quiet (f13 x y z)) \<Longrightarrow> (\<And>x y z. quiet (f14 x y z)) \<Longrightarrow>
   (\<And>x. quiet (f15 x)) \<Longrightarrow> (\<And>x y. quiet (f16 x y)) \<Longrightarrow> (\<And>x. quiet (f17 x)) \<Longrightarrow> (\<And>x y. quiet (f18 x y)) \<Longrightarrow> (\<And>x y. quiet (f19 x y)) \<Longrightarrow>
   (\<And>x. quiet (f20 x)) \<Longrightarrow>
   quiet (case_expr_kind f0 f1 f2 f3 f4 f5 f6 f7 f8 f9 f10 f11 f12 f13 f14 f15 f16 f17 f18 f19 f20 z)"
  by (cases z) simp_all

lemma quiet_unary_op [flow_intros]:
  "quiet f0 \<Longrightarrow> quiet f1 \<Longrightarrow> quiet f2 \<Longrightarrow> quiet f3 \<Longrightarrow> quiet f4 \<Longrightarrow>
   quiet f5 \<Longrightarrow>
   quiet (case_unary_op f0 f1 f2 f3 f4 f5 z)"
  by (cases z) simp_all

lemma quiet_lencap_kind [flow_intros]:
  "quiet f0 \<Longrightarrow> quiet f1 \<Longrightarrow>
   quiet (case_lencap_kind f0 f1 z)"
  by (cases z) simp_all

lemma quiet_sum [flow_intros]:
  "(\<And>x. quiet (f0 x)) \<Longrightarrow> (\<And>x. quiet (f1 x)) \<Longrightarrow>
   quiet (case_sum f0 f1 z)"
  by (cases z) simp_all

lemma keeps_if [flow_intros]:
  "keeps self a \<Longrightarrow> keeps self b \<Longrightarrow> keeps self (if c then a else b)"
  by simp

lemma keeps_let [flow_intros]:
  "(\<And>x. keeps self (f x)) \<Longrightarrow> keeps self (Let z f)"
  by (simp add: Let_def)

lemma keeps_option [flow_intros]:
  "keeps self f0 \<Longrightarrow> (\<And>x. keeps self (f1 x)) \<Longrightarrow>
   keeps self (case_option f0 f1 z)"
  by (cases z) simp_all

lemma keeps_prod [flow_intros]:
  "(\<And>x y. keeps self (f0 x y)) \<Longrightarrow>
   keeps self (case_prod f0 z)"
  by (cases z) simp_all

lemma keeps_type_t [flow_intros]:
  "(\<And>x y. keeps self (f0 x y)) \<Longrightarrow>
   keeps self (case_type_t f0 z)"
  by (cases z) simp_all

lemma keeps_type_kind [flow_intros]:
  "keeps self f0 \<Longrightarrow> keeps self f1 \<Longrightarrow> keeps self f2 \<Longrightarrow> (\<And>x. keeps self (f3 x)) \<Longrightarrow> (\<And>x. keeps self (f4 x)) \<Longrightarrow>
   (\<And>x y. keeps self (f5 x y)) \<Longrightarrow> (\<And>x. keeps self (f6 x)) \<Longrightarrow> (\<And>x. keeps self (f7 x)) \<Longrightarrow> (\<And>x y. keeps self (f8 x y)) \<Longrightarrow> (\<And>x. keeps self (f9 x)) \<Longrightarrow>
   (\<And>x. keeps self (f10 x)) \<Longrightarrow> keeps self f11 \<Longrightarrow>
   keeps self (case_type_kind f0 f1 f2 f3 f4 f5 f6 f7 f8 f9 f10 f11 z)"
  by (cases z) simp_all

lemma keeps_struct_member [flow_intros]:
  "(\<And>x y. keeps self (f0 x y)) \<Longrightarrow>
   keeps self (case_struct_member f0 z)"
  by (cases z) simp_all

lemma keeps_interface_member [flow_intros]:
  "(\<And>x y. keeps self (f0 x y)) \<Longrightarrow> (\<And>x y z. keeps self (f1 x y z)) \<Longrightarrow> keeps self f2 \<Longrightarrow>
   keeps self (case_interface_member f0 f1 f2 z)"
  by (cases z) simp_all

lemma keeps_interface_ptr [flow_intros]:
  "keeps self f0 \<Longrightarrow> (\<And>x. keeps self (f1 x)) \<Longrightarrow> keeps self f2 \<Longrightarrow>
   keeps self (case_interface_ptr f0 f1 f2 z)"
  by (cases z) simp_all

lemma keeps_expr_kind [flow_intros]:
  "(\<And>x. keeps self (f0 x)) \<Longrightarrow> (\<And>x. keeps self (f1 x)) \<Longrightarrow> (\<And>x y. keeps self (f2 x y)) \<Longrightarrow> (\<And>x y. keeps self (f3 x y)) \<Longrightarrow> (\<And>x y z w. keeps self (f4 x y z w)) \<Longrightarrow>
   (\<And>x y. keeps self (f5 x y)) \<Longrightarrow> (\<And>x y. keeps self (f6 x y)) \<Longrightarrow> (\<And>x y z. keeps self (f7 x y z)) \<Longrightarrow> (\<And>x y. keeps self (f8 x y)) \<Longrightarrow> (\<And>x. keeps self (f9 x)) \<Longrightarrow>
   (\<And>x. keeps self (f10 x)) \<Longrightarrow> (\<And>x y. keeps self (f11 x y)) \<Longrightarrow> (\<And>x y z. keeps self (f12 x y z)) \<Longrightarrow> (\<And>x y z. keeps self (f13 x y z)) \<Longrightarrow> (\<And>x y z. keeps self (f14 x y z)) \<Longrightarrow>
   (\<And>x. keeps self (f15 x)) \<Longrightarrow> (\<And>x y. keeps self (f16 x y)) \<Longrightarrow> (\<And>x. keeps self (f17 x)) \<Longrightarrow> (\<And>x y. keeps self (f18 x y)) \<Longrightarrow> (\<And>x y. keeps self (f19 x y)) \<Longrightarrow>
   (\<And>x. keeps self (f20 x)) \<Longrightarrow>
   keeps self (case_expr_kind f0 f1 f2 f3 f4 f5 f6 f7 f8 f9 f10 f11 f12 f13 f14 f15 f16 f17 f18 f19 f20 z)"
  by (cases z) simp_all

lemma keeps_unary_op [flow_intros]:
  "keeps self f0 \<Longrightarrow> keeps self f1 \<Longrightarrow> keeps self f2 \<Longrightarrow> keeps self f3 \<Longrightarrow> keeps self f4 \<Longrightarrow>
   keeps self f5 \<Longrightarrow>
   keeps self (case_unary_op f0 f1 f2 f3 f4 f5 z)"
  by (cases z) simp_all

lemma keeps_lencap_kind [flow_intros]:
  "keeps self f0 \<Longrightarrow> keeps self f1 \<Longrightarrow>
   keeps self (case_lencap_kind f0 f1 z)"
  by (cases z) simp_all

lemma keeps_sum [flow_intros]:
  "(\<And>x. keeps self (f0 x)) \<Longrightarrow> (\<And>x. keeps self (f1 x)) \<Longrightarrow>
   keeps self (case_sum f0 f1 z)"
  by (cases z) simp_all

subsection \<open>Symbols and types\<close>

lemma quiet_state:
  assumes "\<And>s x s'. m s = Inr (x, s') \<Longrightarrow>
    cg_calls s' = cg_calls s \<and> map cc_is_terminated (cg_contexts s') = map cc_is_terminated (cg_contexts s)"
  shows "quiet m"
  unfolding quiet_def
proof (intro allI hoareI)
  fix K P q ts s x s'
  assume "at K P q ts s" "m s = Inr (x, s')"
  then show "at K P q ts s'" using assms [of s x s'] by (simp add: at_def)
qed

lemma quiet_add_symbol [flow_intros]: "quiet (codegen_context_add_symbol sy)"
  by (rule quiet_state) (auto simp: codegen_context_add_symbol_def with_context_def split: list.splits)

lemma quiet_set_const [flow_intros]: "quiet (set_const_value p v)"
proof (rule quiet_state)
  fix s x s'
  assume "set_const_value p v s = Inr (x, s')"
  then show "cg_calls s' = cg_calls s \<and> map cc_is_terminated (cg_contexts s') = map cc_is_terminated (cg_contexts s)"
    by (cases "fst p < length (cg_contexts s)") (auto simp: set_const_value_def Let_def map_update list_update_same_conv list_update_beyond)
qed

lemma quiet_find_symbol [flow_intros]: "quiet (find_symbol name)"
  unfolding find_symbol_def by (intro flow_intros)

lemma quiet_resolve [flow_intros]: "quiet (resolve_type_name n ty)"
  by (induction n arbitrary: ty) (simp_all add: flow_intros)

lemma quiet_interface_arg: "(\<And>b t. quiet (gen b t)) \<Longrightarrow> quiet (interface_arg_type gen t)"
  by (auto simp: interface_arg_type_def intro!: flow_intros)

lemma quiet_codegen_kind:
  assumes g: "\<And>b t. quiet (gen b t)"
  shows "quiet (codegen_type_kind gen on_stack ty)"
  unfolding codegen_type_kind_def codegen_type_float_def codegen_type_func_def codegen_type_named_def
    codegen_type_struct_def codegen_type_slice_def codegen_type_array_def codegen_type_interface_def
    make_interface_table_type_def interface_field_type_def
  by (intro flow_intros g quiet_interface_arg)

lemma quiet_type [flow_intros]: "quiet (codegen_type n on_stack ty)"
  by (induction n arbitrary: on_stack ty) (auto intro!: flow_intros quiet_codegen_kind)

subsection \<open>The types of expressions\<close>

lemma quiet_type_ptr [flow_intros]: "quiet (type_ptr t)"
  unfolding type_ptr_def by (intro flow_intros)

lemma quiet_copied [flow_intros]: "quiet (copied e t)" "quiet (copied_hint e h)"
  unfolding copied_def copied_hint_def by (intro flow_intros)+

lemma quiet_prepare_opt: "(\<And>e h. quiet (prep e h)) \<Longrightarrow> quiet (prepare_opt prep e h)"
  unfolding prepare_opt_def by (intro flow_intros)

lemma quiet_prepare_args: "(\<And>e h. quiet (prep e h)) \<Longrightarrow> quiet (prepare_args prep es ts)"
  by (induction es arbitrary: ts) (auto intro!: flow_intros)

lemma quiet_prepare_kind:
  assumes p: "\<And>e h. quiet (prep e h)"
  shows "quiet (prepare_kind n prep e h)"
proof -
  note rules = flow_intros p quiet_prepare_opt quiet_prepare_args
  have k0: "quiet (prepare_ident_expr prep e x h)" "quiet (prepare_number_literal_expr e h)" "quiet (prepare_string_literal_expr e)" "quiet (prepare_sizeof_expr prep e h)" for x
    unfolding prepare_ident_expr_def prepare_number_literal_expr_def prepare_string_literal_expr_def prepare_sizeof_expr_def
    by (intro rules)+
  have k1: "quiet (prepare_assignment_expr prep e t v aop h)" "quiet (prepare_binary_expr prep e a b bop h)" for a aop b bop t v
    unfolding prepare_assignment_expr_def prepare_binary_expr_def
    by (intro rules)+
  have k2: "quiet (prepare_unary_expr prep e a uop h)" "quiet (prepare_incdec_expr prep e a ord dir h)" "quiet (prepare_cast_expr prep e a ty)" "quiet (prepare_conditional_expr prep e a b c h)" "quiet (prepare_comma_expr prep e es h)" for a b c dir es ord ty uop
    unfolding prepare_unary_expr_def prepare_incdec_expr_def prepare_cast_expr_def prepare_conditional_expr_def prepare_comma_expr_def
    by (intro rules)+
  have k3: "quiet (prepare_index_access_expr n prep e a b)" "quiet (prepare_index_slice_expr n prep e a fo lo sk)" "quiet (prepare_member_access_expr n prep e a x)" for a b fo lo sk x
    unfolding prepare_index_access_expr_def prepare_index_slice_expr_def prepare_member_access_expr_def
    by (intro rules)+
  have k4: "quiet (prepare_call_expr n prep e a es)" for a es
    unfolding prepare_call_expr_def
    by (intro rules)+
  have k5: "quiet (prepare_new_builtin_expr prep e ty eo)" "quiet (prepare_free_builtin_expr prep e a)" "quiet (prepare_make_builtin_expr n prep e ty a)" "quiet (prepare_lencap_builtin_expr n prep e lk a)" "quiet (prepare_dispose_builtin_expr n prep e a)" for a eo lk ty
    unfolding prepare_new_builtin_expr_def prepare_free_builtin_expr_def prepare_make_builtin_expr_def prepare_lencap_builtin_expr_def prepare_dispose_builtin_expr_def
    by (intro rules)+
  show ?thesis unfolding prepare_kind_def by (intro flow_intros k0 k1 k2 k3 k4 k5)
qed

lemma quiet_prepare [flow_intros]: "quiet (prepare_expr n e h)"
  by (induction n arbitrary: e h) (auto intro!: flow_intros quiet_prepare_kind)

subsection \<open>The code of expressions\<close>

lemmas keeps_quiet [flow_intros] = quiet_resolve [THEN quiet_keeps] quiet_type [THEN quiet_keeps]
  quiet_find_symbol [THEN quiet_keeps] quiet_add_symbol [THEN quiet_keeps] quiet_type_ptr [THEN quiet_keeps]
  quiet_prepare [THEN quiet_keeps] quiet_set_const [THEN quiet_keeps]

lemma quiet_value_ptr [flow_intros]: "quiet (value_ptr v)"
  unfolding value_ptr_def by (intro flow_intros)

lemmas keeps_value_ptr [flow_intros] = quiet_value_ptr [THEN quiet_keeps]

lemma keeps_load [flow_intros]: "keeps self (load_unless self lvalue ptr)"
  unfolding load_unless_def by (intro flow_intros keeps_build) (simp add: plain_call_def flow_step_simps)

lemma keeps_inst [flow_intros]: "keeps self (build_inst self i a b)"
  unfolding build_inst_def by (intro flow_intros keeps_build) (simp_all add: plain_call_def flow_step_simps)

lemma keeps_check_index [flow_intros]: "keeps self (check_index e)"
  unfolding check_index_def by (intro flow_intros)

lemma keeps_index_or: "(\<And>lv e. keeps self (gen lv e)) \<Longrightarrow> keeps self (index_or gen e v)"
  unfolding index_or_def by (intro flow_intros)

text \<open>Pieces of code with blocks of their own, all of which they enter and end.\<close>

lemma keeps_ret: "(\<And>K P ts. cg_builder self \<Longrightarrow> hoare (at K P True ts) m (\<lambda>_. at K P True ts)) \<Longrightarrow>
    (\<not> cg_builder self \<Longrightarrow> quiet m) \<Longrightarrow> keeps self m"
  by (cases "cg_builder self") (auto simp: keeps_def quiet_def)

lemma keeps_func:
  assumes "\<And>K P ts f. cg_builder self \<Longrightarrow> hoare (at K P True ts) (k f) (\<lambda>_. at K P True ts)"
  shows "keeps self (cbind (current_func self) k)"
  unfolding keeps_def
proof (intro allI impI)
  fix K P q ts
  assume "cg_builder self \<longrightarrow> q"
  then show "hoare (at K P q ts) (cbind (current_func self) k) (\<lambda>_. at K P q ts)"
    using assms by (cases "cg_builder self") (auto intro!: hoare_func)
qed

named_theorems flow_steps \<open>one step of a piece of code with blocks\<close>

lemmas call_simps = plain_call_def is_instruction_def jump_targets_def

lemma hoare_build [flow_steps]:
  "plain_call c \<Longrightarrow> (\<And>x. hoare (at K P True ts) (f x) C) \<Longrightarrow> hoare (at K P True ts) (cbind (build self c) f) C"
  by (rule hoare_keeps [OF keeps_build]) simp_all

lemma hoare_llvm [flow_steps]:
  "plain_call c \<Longrightarrow> \<not> is_instruction c \<Longrightarrow> (\<And>x. hoare (at K P q ts) (f x) C) \<Longrightarrow>
   hoare (at K P q ts) (cbind (llvm c) f) C"
  by (rule hoare_bind [OF quietD [OF quiet_llvm]])

lemma hoare_store [flow_steps]:
  "hoare (at K P True ts) k C \<Longrightarrow> hoare (at K P True ts) (cseq (exec self (Build_Store v p)) k) C"
  by (rule hoare_keeps_seq [OF keeps_exec]) (simp_all add: call_simps)

lemma hoare_call [flow_steps]:
  "hoare (at K P True ts) k C \<Longrightarrow> hoare (at K P True ts) (cseq (exec self (Build_Call f vs x)) k) C"
  by (rule hoare_keeps_seq [OF keeps_exec]) (simp_all add: call_simps)

lemma hoare_br [flow_steps]:
  "b \<in> K \<Longrightarrow> hoare (at K P False ts) k C \<Longrightarrow> hoare (at K P True ts) (cseq (exec self (Build_Br b)) k) C"
  by (rule hoare_jump [where bs = "[b]"]) (simp_all add: jump_targets_def)

lemma hoare_cond_br [flow_steps]:
  "b \<in> K \<Longrightarrow> b' \<in> K \<Longrightarrow> hoare (at K P False ts) k C \<Longrightarrow>
   hoare (at K P True ts) (cseq (exec self (Build_Cond_Br c b b')) k) C"
  by (rule hoare_jump [where bs = "[b, b']"]) (simp_all add: jump_targets_def)

lemma hoare_enter_last:
  "b \<in> P \<Longrightarrow> K' \<subseteq> K \<Longrightarrow> P' = P - {b} \<Longrightarrow>
   hoare (at K P False ts) (exec self (Position_At_End b)) (\<lambda>_. at K' P' True ts)"
  by (rule hoare_post [OF hoare_enter_exec]) (auto intro: at_weaken)

lemmas flow_rules = flow_steps hoare_append hoare_enter hoare_enter_last hoare_done

lemma keeps_build_assert [flow_intros]: "keeps self (build_assert self c)"
  unfolding build_assert_def by (rule keeps_func) (intro flow_rules; auto simp: call_simps)

lemma keeps_array_new [flow_intros]: "keeps self (codegen_array_new self ty sz)"
  unfolding codegen_array_new_def
  by (intro keeps_bind [OF keeps_build] keeps_seq [OF keeps_exec] keeps_func; (intro flow_rules)?; auto simp: call_simps)

lemma keeps_cond:
  assumes g: "\<And>lv e. keeps self (gen lv e)"
  shows "keeps self (codegen_conditional_expr n self gen lv c x y)"
proof -
  note step = hoare_keeps [OF g] hoare_keeps [OF keeps_quiet(2)]
  show ?thesis unfolding codegen_conditional_expr_def
    by (intro keeps_seq [OF keeps_assert] keeps_bind [OF g] keeps_func; (intro flow_rules step)?; auto simp: call_simps)
qed

lemma keeps_slice_slice:
  assumes g: "\<And>lv e. keeps self (gen lv e)"
  shows "keeps self (slice_slice self gen a fo lo k)"
proof -
  note step = hoare_keeps [OF keeps_build]
  show ?thesis unfolding slice_slice_def
    by (intro keeps_let keeps_if keeps_seq [OF keeps_check_index] keeps_bind [OF g] keeps_bind [OF keeps_index_or [OF g]]
      keeps_bind [OF keeps_build] keeps_func keeps_build; (intro flow_rules)?; auto simp: call_simps)
qed

lemma keeps_assignment_op [flow_intros]:
  "keeps self f0 \<Longrightarrow> keeps self f1 \<Longrightarrow> keeps self f2 \<Longrightarrow> keeps self f3 \<Longrightarrow> keeps self f4 \<Longrightarrow>
   keeps self f5 \<Longrightarrow> keeps self f6 \<Longrightarrow> keeps self f7 \<Longrightarrow> keeps self f8 \<Longrightarrow> keeps self f9 \<Longrightarrow>
   keeps self f10 \<Longrightarrow>
   keeps self (case_assignment_op f0 f1 f2 f3 f4 f5 f6 f7 f8 f9 f10 z)"
  by (cases z) simp_all

lemma keeps_codegen_kind:
  assumes g: "\<And>lv e. keeps self (gen lv e)"
  shows "keeps self (codegen_kind n self gen lv e)"
proof -
  note rules = flow_intros g keeps_index_or keeps_slice_slice keeps_build keeps_exec
  have k0: "keeps self (codegen_ident_expr self gen lv x)" "keeps self (codegen_number_literal_expr n self lv e x r)" "keeps self (codegen_string_literal_expr self lv x)" "keeps self (codegen_sizeof_expr n self gen lv e)" for r x
    unfolding codegen_ident_expr_def codegen_number_literal_expr_def codegen_string_literal_expr_def codegen_sizeof_expr_def
    by (intro rules; simp add: call_simps)+
  have k1: "keeps self (codegen_assignment_expr self gen a b aop)" "keeps self (codegen_binary_expr self gen lv a b bop)" "keeps self (codegen_unary_expr self gen lv a uop)" "keeps self (codegen_incdec_expr n self gen lv e a ord dir)" "keeps self (codegen_comma_expr gen lv es)" for a aop b bop dir es ord uop
    unfolding codegen_assignment_expr_def codegen_binary_expr_def codegen_unary_expr_def Let_def codegen_incdec_expr_def codegen_comma_expr_def
    by (intro rules; simp add: call_simps)+
  have k2: "keeps self (codegen_index_access_expr n self gen lv a b)" "keeps self (codegen_member_access_expr n self gen lv a x)" for a b x
    unfolding codegen_index_access_expr_def codegen_member_access_expr_def
    by (intro rules; simp add: call_simps)+
  have k3: "keeps self (codegen_new_builtin_expr n self gen ty eo)" "keeps self (codegen_free_builtin_expr self gen a)" "keeps self (codegen_make_builtin_expr n self gen ty a)" "keeps self (codegen_lencap_builtin_expr self gen lk a)" "keeps self (codegen_dispose_builtin_expr self gen a)" for a eo lk ty
    unfolding codegen_new_builtin_expr_def codegen_free_builtin_expr_def codegen_make_builtin_expr_def codegen_lencap_builtin_expr_def codegen_dispose_builtin_expr_def
    by (intro rules; simp add: call_simps)+
  have k4: "keeps self (codegen_index_slice_expr n self gen e a fo lo sk)" for a fo lo sk
    unfolding codegen_index_slice_expr_def slice_array_def by (intro rules; simp add: call_simps)+
  have k5: "keeps self (codegen_cast_expr n self gen lv a ty)" for a ty
    unfolding codegen_cast_expr_def Let_def cast_to_interface_def table_entry_def table_function_def table_field_def
    by (intro rules quiet_keeps [OF quiet_interface_arg] quiet_llvm quiet_keeps [OF quiet_llvm]; simp add: call_simps flow_intros)+
  have k6: "keeps self (codegen_call_expr n self gen lv a es)" for a es
    unfolding codegen_call_expr_def interface_call_def function_call_def call_args_def
    by (intro rules; simp add: call_simps)+
  show ?thesis unfolding codegen_kind_def
    by (intro flow_intros keeps_cond [OF g] k0 k1 k2 k3 k4 k5 k6)
qed

lemma keeps_expr [flow_intros]: "keeps self (codegen_expr n self lv e)"
  by (induction n arbitrary: lv e) (auto intro!: flow_intros keeps_codegen_kind)

lemma keeps_expr_top [flow_intros]: "keeps self (codegen_expr_top n self lv e h)"
  unfolding codegen_expr_top_def by (intro flow_intros)

end
