(* ===== verification/Codegen_Flow_Stmt.thy ===== *)
theory Codegen_Flow_Stmt
  imports Codegen_Flow_Expr
begin

section \<open>The blocks of the code of statements and functions\<close>

text \<open>
  A statement \<open>ends\<close> when the code generator marks its context as terminated. It is \<open>tidy\<close> when
  nothing follows such a statement: not another item of its block, and not the step of a loop.
\<close>

fun ends :: "stmt \<Rightarrow> bool" and ends_item :: "block_item \<Rightarrow> bool" where
  "ends (Stmt l k) = (case k of
     Compound_Stmt items \<Rightarrow> list_ex ends_item items
   | If_Stmt c x y \<Rightarrow> (case x of None \<Rightarrow> False | Some x \<Rightarrow> ends x) \<and> (case y of None \<Rightarrow> False | Some y \<Rightarrow> ends y)
   | Continue_Stmt \<Rightarrow> True
   | Break_Stmt \<Rightarrow> True
   | Return_Stmt e \<Rightarrow> True
   | _ \<Rightarrow> False)"
| "ends_item (Stmt_Item x) = (case x of None \<Rightarrow> False | Some x \<Rightarrow> ends x)"
| "ends_item (Decl_Item d) = False"

abbreviation ends_opt :: "stmt option \<Rightarrow> bool" where
  "ends_opt x \<equiv> (case x of None \<Rightarrow> False | Some x \<Rightarrow> ends x)"

fun tidy :: "stmt \<Rightarrow> bool" and tidy_item :: "block_item \<Rightarrow> bool" where
  "tidy (Stmt l k) = (case k of
     Compound_Stmt items \<Rightarrow> list_all tidy_item items \<and> list_all (\<lambda>i. \<not> ends_item i) (butlast items)
   | If_Stmt c x y \<Rightarrow> (case x of None \<Rightarrow> True | Some x \<Rightarrow> tidy x) \<and> (case y of None \<Rightarrow> True | Some y \<Rightarrow> tidy y)
   | For_Stmt i c s x \<Rightarrow> (case x of None \<Rightarrow> True | Some x \<Rightarrow> tidy x \<and> \<not> ends x)
   | _ \<Rightarrow> True)"
| "tidy_item (Stmt_Item x) = (case x of None \<Rightarrow> True | Some x \<Rightarrow> tidy x)"
| "tidy_item (Decl_Item d) = True"

abbreviation tidy_opt :: "stmt option \<Rightarrow> bool" where
  "tidy_opt x \<equiv> (case x of None \<Rightarrow> True | Some x \<Rightarrow> tidy x)"

subsection \<open>Declarations\<close>

lemma keeps_decl [flow_intros]: "keeps self (codegen_decl n self d)"
proof -
  have v: "keeps self (codegen_typed_variable n self d ty name i)"
    "keeps self (codegen_untyped_variable n self d name i)" for ty name i
    unfolding codegen_typed_variable_def codegen_untyped_variable_def
    by (intro flow_intros keeps_build keeps_exec; simp add: call_simps)+
  have c: "keeps self (codegen_const n self l name ty e)" for l name ty e
    unfolding codegen_const_def
    by (intro flow_intros quiet_keeps [OF quiet_llvm]; simp add: call_simps)
  show ?thesis unfolding codegen_decl_def by (cases "decl_kind d") (auto intro!: flow_intros v c)
qed

lemma keeps_opt_expr [flow_intros]: "keeps self (codegen_opt_expr n self e)"
  unfolding codegen_opt_expr_def by (intro flow_intros)

subsection \<open>Contexts\<close>

lemma hoare_push [flow_steps]:
  assumes "hoare (at K P q (False # ts)) k C"
  shows "hoare (at K P q ts) (cseq push_context k) C"
proof -
  have "hoare (at K P q ts) push_context (\<lambda>_. at K P q (False # ts))"
    by (rule hoareI) (auto simp: push_context_def at_def codegen_context_init_def)
  then show ?thesis using assms by (rule hoare_seq)
qed

lemma hoare_dispose [flow_steps]:
  assumes "hoare (at K P q ts) (f t) C"
  shows "hoare (at K P q (t # ts)) (cbind codegen_context_dispose f) C"
proof (rule hoareI)
  fix s x s'
  assume "at K P q (t # ts) s" "cbind codegen_context_dispose f s = Inr (x, s')"
  moreover then obtain c cs where "cg_contexts s = c # cs" "cc_is_terminated c = t"
    by (auto simp: at_def)
  ultimately have "at K P q ts (s\<lparr>cg_contexts := cs\<rparr>)" "f t (s\<lparr>cg_contexts := cs\<rparr>) = Inr (x, s')"
    by (auto simp: at_def codegen_context_dispose_def cbind_def)
  then show "C x s'" by (rule hoareD [OF assms])
qed

lemma hoare_set_terminated: "hoare (at K P q (t # ts)) set_terminated (\<lambda>_. at K P q (True # ts))"
  by (rule hoareI) (auto simp: at_def set_terminated_def with_context_def split: list.splits)

lemma hoare_when_terminated:
  "hoare (at K P q (t # ts)) (cwhen b set_terminated) (\<lambda>_. at K P q ((t \<or> b) # ts))"
  by (cases b) (auto simp: cwhen_def intro: hoare_ret hoare_set_terminated)

subsection \<open>Statements\<close>

definition jump_blocks :: "codegen_t \<Rightarrow> lval set" where
  "jump_blocks self = set_option (cg_break_block self) \<union> set_option (cg_continue_block self)"

text \<open>What the code of a tidy statement does to the blocks.\<close>

definition stmt_flow :: "stmt_gen \<Rightarrow> bool" where
  "stmt_flow gen \<longleftrightarrow> (\<forall>self x K P t ts. tidy x \<longrightarrow> cg_builder self \<longrightarrow> jump_blocks self \<subseteq> K \<longrightarrow>
     hoare (at K P True (t # ts)) (gen self x) (\<lambda>_. at K P (\<not> ends x) ((t \<or> ends x) # ts)))"

lemma stmt_flowD:
  "stmt_flow gen \<Longrightarrow> tidy x \<Longrightarrow> cg_builder self \<Longrightarrow> jump_blocks self \<subseteq> K \<Longrightarrow>
   hoare (at K P True (t # ts)) (gen self x) (\<lambda>_. at K P (\<not> ends x) ((t \<or> ends x) # ts))"
  by (simp add: stmt_flow_def)

lemma opt_flow:
  "stmt_flow gen \<Longrightarrow> tidy_opt x \<Longrightarrow> cg_builder self \<Longrightarrow> jump_blocks self \<subseteq> K \<Longrightarrow>
   hoare (at K P True (t # ts)) (opt_stmt gen self x) (\<lambda>_. at K P (\<not> ends_opt x) ((t \<or> ends_opt x) # ts))"
  by (cases x) (auto simp: opt_stmt_def intro: hoare_ret stmt_flowD)

lemma item_flow:
  assumes "stmt_flow gen" "tidy_item i" "cg_builder self" "jump_blocks self \<subseteq> K"
  shows "hoare (at K P True (t # ts)) (codegen_item n self gen i)
    (\<lambda>_. at K P (\<not> ends_item i) ((t \<or> ends_item i) # ts))"
proof (cases i)
  case (Stmt_Item x)
  then show ?thesis using assms opt_flow [of gen x] by (simp add: codegen_item_def)
next
  case (Decl_Item d)
  then show ?thesis using keepsD [OF keeps_decl] by (simp add: codegen_item_def)
qed

lemma items_flow:
  assumes "stmt_flow gen" "cg_builder self" "jump_blocks self \<subseteq> K"
    and "list_all tidy_item items" "list_all (\<lambda>i. \<not> ends_item i) (butlast items)"
  shows "hoare (at K P True (t # ts)) (cmap (codegen_item n self gen) items)
    (\<lambda>_. at K P (\<not> list_ex ends_item items) ((t \<or> list_ex ends_item items) # ts))"
  using assms(4,5)
proof (induction items)
  case Nil
  then show ?case by (auto intro: hoare_ret)
next
  case (Cons i items)
  have i: "hoare (at K P True (t # ts)) (codegen_item n self gen i)
      (\<lambda>_. at K P (\<not> ends_item i) ((t \<or> ends_item i) # ts))"
    using item_flow assms(1-3) Cons.prems(1) by simp
  show ?case
  proof (cases items)
    case Nil
    with i show ?thesis by (auto simp: cbind_def cret_def hoare_def rbind_Inr_conv)
  next
    case (Cons j js)
    with Cons.prems have "\<not> ends_item i" by simp
    with i have "hoare (at K P True (t # ts)) (codegen_item n self gen i) (\<lambda>_. at K P True (t # ts))" by simp
    moreover have "hoare (at K P True (t # ts)) (cmap (codegen_item n self gen) items)
        (\<lambda>_. at K P (\<not> list_ex ends_item items) ((t \<or> list_ex ends_item items) # ts))"
      using Cons.IH Cons.prems Cons by simp
    ultimately show ?thesis using \<open>\<not> ends_item i\<close> by (auto intro!: hoare_bind hoare_ret)
  qed
qed

lemma hoare_opt:
  assumes "stmt_flow gen" "tidy_opt x" "cg_builder self" "jump_blocks self \<subseteq> K"
    and "hoare (at K P (\<not> ends_opt x) ((t \<or> ends_opt x) # ts)) k C"
  shows "hoare (at K P True (t # ts)) (cseq (opt_stmt gen self x) k) C"
  by (rule hoare_seq [OF opt_flow]) (rule assms)+

lemma branch_flow:
  assumes "stmt_flow gen" "tidy_opt x" "cg_builder self" "jump_blocks self \<subseteq> K" "b \<in> P" "e \<in> K"
    and "hoare (at K (P - {b}) False ts) (f (ends_opt x)) C"
  shows "hoare (at K P False ts) (cbind (codegen_branch self gen b e x) f) C"
proof (rule hoare_bind)
  show "hoare (at K P False ts) (codegen_branch self gen b e x) (\<lambda>r s. r = ends_opt x \<and> at K (P - {b}) False ts s)"
    unfolding codegen_branch_def
    apply (intro hoare_push hoare_enter hoare_opt assms hoare_dispose)
    apply (cases "ends_opt x")
     apply (simp_all only: cwhen_def simp_thms if_True if_False)
     apply (rule hoare_seq [OF hoare_ret hoare_ret]; simp)
    apply (rule hoare_br)
    apply (rule assms)
    apply (rule hoare_ret; simp)
    done
next
  fix r
  show "hoare (\<lambda>s. r = ends_opt x \<and> at K (P - {b}) False ts s) (f r) C"
    using assms(7) by (intro hoare_pre) simp
qed

lemma compound_flow:
  assumes "stmt_flow gen" "cg_builder self" "jump_blocks self \<subseteq> K"
    and "list_all tidy_item items" "list_all (\<lambda>i. \<not> ends_item i) (butlast items)"
  shows "hoare (at K P True (t # ts)) (codegen_compound n self gen items)
    (\<lambda>_. at K P (\<not> list_ex ends_item items) ((t \<or> list_ex ends_item items) # ts))"
  unfolding codegen_compound_def
  by (intro hoare_push hoare_seq [OF items_flow] hoare_dispose assms)
    (use hoare_when_terminated [of K P "\<not> list_ex ends_item items" t ts "list_ex ends_item items"] in simp)

lemma hoare_expr_top:
  "cg_builder self \<Longrightarrow> (\<And>x. hoare (at K P True ts) (f x) C) \<Longrightarrow>
   hoare (at K P True ts) (cbind (codegen_expr_top n self lv e h) f) C"
  by (rule hoare_keeps [OF keeps_expr_top]) simp_all

lemma hoare_quiet: "quiet m \<Longrightarrow> (\<And>x. hoare (at K P q ts) (f x) C) \<Longrightarrow> hoare (at K P q ts) (cbind m f) C"
  by (rule hoare_bind [OF quietD])

lemma hoare_clift: "(\<And>x. hoare (at K P q ts) (f x) C) \<Longrightarrow> hoare (at K P q ts) (cbind (clift r) f) C"
  by (rule hoare_bind [OF quietD [OF quiet_basic(5)]])

lemma hoare_complaint:
  "hoare (at K P q ts) k C \<Longrightarrow> hoare (at K P q ts) (cseq (cwhen b (cbind (clift r) (\<lambda>td. derror (f td)))) k) C"
  by (rule hoare_seq [OF quietD]) (intro flow_intros)

lemma hoare_prod: "(\<And>a b. hoare A (f a b) C) \<Longrightarrow> hoare A (case_prod f p) C"
  by (cases p) simp

lemma cbind_ret [simp]: "cbind (cret x) f = f x"
  by (simp add: cbind_def cret_def)

lemma cseq_ret [simp]: "cseq (cret x) k = k"
  by (simp add: cseq_def)

lemma cbind_assoc: "cbind (cbind m f) g = cbind m (\<lambda>x. cbind (f x) g)"
proof
  fix s
  show "cbind (cbind m f) g s = cbind m (\<lambda>x. cbind (f x) g) s" by (cases "m s") (auto simp: cbind_def)
qed

lemma if_exit:
  assumes "e \<in> P" "K' \<subseteq> K" "P' = P - {e}"
  shows "hoare (at K P False (t # ts)) (cseq (exec self (Position_At_End e))
      (cwhen b (cseq (exec self Build_Unreachable) set_terminated))) (\<lambda>_. at K' P' (\<not> b) ((t \<or> b) # ts))"
proof (rule hoare_enter [OF assms(1)])
  have w: "at K (P - {e}) q us u \<Longrightarrow> at K' P' q us u" for q us u using assms(2,3) by (auto intro: at_weaken)
  show "hoare (at K (P - {e}) True (t # ts)) (cwhen b (cseq (exec self Build_Unreachable) set_terminated))
      (\<lambda>_. at K' P' (\<not> b) ((t \<or> b) # ts))"
  proof (cases b)
    case True
    have "hoare (at K (P - {e}) True (t # ts)) (cseq (exec self Build_Unreachable) set_terminated)
      (\<lambda>_. at K (P - {e}) False (True # ts))"
      by (rule hoare_jump [where bs = "[]"]) (auto simp: jump_targets_def intro: hoare_set_terminated)
    with True show ?thesis by (auto simp: cwhen_def intro: hoare_post w)
  qed (auto simp: cwhen_def intro: hoare_ret w)
qed

lemma if_flow:
  assumes g: "stmt_flow gen" "cg_builder self" "jump_blocks self \<subseteq> K" and x: "tidy_opt x" "tidy_opt y"
  shows "hoare (at K P True (t # ts)) (codegen_if n self gen c x y)
    (\<lambda>_. at K P (\<not> (ends_opt y \<and> ends_opt x)) ((t \<or> ends_opt y \<and> ends_opt x) # ts))"
proof -
  have K: "jump_blocks self \<subseteq> insert d (insert b K)" "jump_blocks self \<subseteq> insert e (insert d (insert b K))"
    for b d e using g(3) by auto
  note rules = hoare_push hoare_expr_top hoare_prod hoare_clift hoare_complaint hoare_dispose hoare_func hoare_append
    hoare_cond_br
  show ?thesis
  proof (cases y)
    case None
    show ?thesis unfolding codegen_if_def None
      apply (simp only: if_True simp_thms option.case cbind_ret cbind_assoc)
      apply (intro rules branch_flow [OF g(1) x(1) g(2) K(1)] if_exit [of _ _ _ _ _ _ _ _ False, simplified] g)
      apply auto
      done
  next
    case (Some z)
    then have "tidy_opt (Some z)" using x by simp
    show ?thesis unfolding codegen_if_def Some
      apply (simp only: if_False option.distinct simp_thms option.case cbind_ret cbind_assoc)
      apply (intro rules branch_flow [OF g(1) x(1) g(2) K(2)] g
        branch_flow [OF g(1) \<open>tidy_opt (Some z)\<close> g(2) K(2)]; (simp only: option.case)?; (rule if_exit)?; auto)
      done
  qed
qed

lemma hoare_opt_expr:
  "cg_builder self \<Longrightarrow> hoare (at K P True ts) k C \<Longrightarrow> hoare (at K P True ts) (cseq (codegen_opt_expr n self e) k) C"
  by (rule hoare_keeps_seq [OF keeps_opt_expr]) simp_all

lemma condition_flow:
  assumes "cg_builder self" and "b \<in> K" "b' \<in> K"
  shows "hoare (at K P True ts) (case c of
       Some e \<Rightarrow> cbind (codegen_expr_top n self False e (hint_of bool_type)) (\<lambda>(e', cond).
         exec self (Build_Cond_Br cond b b'))
     | None \<Rightarrow> exec self (Build_Br b)) (\<lambda>_. at K P False ts)"
proof (cases c)
  case None
  then show ?thesis using assms(2) by (simp add: hoare_jump_exec [where bs = "[b]"] jump_targets_def)
next
  case (Some e)
  have "hoare (at K P True ts) (exec self (Build_Cond_Br cond b b')) (\<lambda>_. at K P False ts)" for cond
    using assms(2,3) by (simp add: hoare_jump_exec [where bs = "[b, b']"] jump_targets_def)
  then show ?thesis unfolding Some option.case by (intro hoare_expr_top hoare_prod assms(1))
qed

lemma for_flow:
  assumes g: "stmt_flow gen" "cg_builder self" and x: "tidy_opt x" "\<not> ends_opt x"
  shows "hoare (at K P True ts) (codegen_for n self gen i c stp x) (\<lambda>_. at K P True ts)"
proof -
  have body: "hoare (at L Q True (t # us))
      (cseq (opt_stmt gen (self\<lparr>cg_continue_block := Some s, cg_break_block := Some e\<rparr>) x) k) C"
    if "hoare (at L Q True (t # us)) k C" "s \<in> L" "e \<in> L" for L Q t us s e k C
    by (rule hoare_opt) (use that g x in \<open>simp_all add: jump_blocks_def\<close>)
  have cond: "hoare (at L Q True us) (cseq (case c of
         Some e \<Rightarrow> cbind (codegen_expr_top n self False e (hint_of bool_type)) (\<lambda>(e', cond).
           exec self (Build_Cond_Br cond b b'))
       | None \<Rightarrow> exec self (Build_Br b)) k) C"
    if "hoare (at L Q False us) k C" "b \<in> L" "b' \<in> L" for L Q us b b' k C
    by (rule hoare_seq [OF condition_flow [OF g(2) that(2,3)] that(1)])
  show ?thesis unfolding codegen_for_def
    by (intro hoare_push hoare_opt_expr hoare_func hoare_append hoare_br hoare_enter cond body hoare_dispose hoare_done g)
      auto
qed

lemma jump_flow:
  assumes "b \<in> K"
  shows "hoare (at K P True (t # ts)) (cseq (exec self (Build_Br b)) set_terminated) (\<lambda>_. at K P False (True # ts))"
  by (intro hoare_br hoare_set_terminated assms)

lemma return_flow:
  assumes "cg_builder self"
  shows "hoare (at K P True (t # ts)) (codegen_return n self e) (\<lambda>_. at K P False (True # ts))"
proof -
  have ret: "hoare (at K P True us) (exec self (Build_Ret v)) (\<lambda>_. at K P False us)"
    "hoare (at K P True us) (exec self Build_Ret_Void) (\<lambda>_. at K P False us)" for us v
    by (rule hoare_jump_exec [where bs = "[]"]; simp add: jump_targets_def)+
  show ?thesis unfolding codegen_return_def
    by (cases e; cases "cg_unit self")
      (auto intro!: hoare_seq [OF _ hoare_set_terminated] ret hoare_expr_top hoare_prod assms)
qed

lemma stmt_flow_stmt: "stmt_flow (codegen_stmt n)"
proof (induction n)
  case 0
  then show ?case by (auto simp: stmt_flow_def)
next
  case (Suc n)
  show ?case unfolding stmt_flow_def
  proof (intro allI impI)
    fix self :: codegen_t and x K P t ts
    assume x: "tidy x" and s: "cg_builder self" "jump_blocks self \<subseteq> K"
    obtain l k where xk: "x = Stmt l k" by (cases x)
    show "hoare (at K P True (t # ts)) (codegen_stmt (Suc n) self x) (\<lambda>_. at K P (\<not> ends x) ((t \<or> ends x) # ts))"
    proof (cases k)
      case (Expr_Stmt e)
      show ?thesis using keepsD [OF keeps_opt_expr] by (simp add: codegen_stmt_kind_def xk Expr_Stmt)
    next
      case (Compound_Stmt items)
      show ?thesis using compound_flow [OF Suc.IH s] x by (simp add: codegen_stmt_kind_def xk Compound_Stmt)
    next
      case (If_Stmt c y z)
      show ?thesis using if_flow [OF Suc.IH s, of y z] x
        by (simp add: codegen_stmt_kind_def xk If_Stmt conj_commute)
    next
      case (For_Stmt i c stp y)
      have "tidy_opt y" "\<not> ends_opt y" using x by (auto simp: xk For_Stmt split: option.splits)
      then show ?thesis using for_flow [OF Suc.IH s(1)] by (simp add: codegen_stmt_kind_def xk For_Stmt)
    next
      case Continue_Stmt
      show ?thesis using s(2) jump_flow
        by (auto simp: codegen_stmt_kind_def xk Continue_Stmt codegen_jump_def jump_blocks_def split: option.split)
    next
      case Break_Stmt
      show ?thesis using s(2) jump_flow
        by (auto simp: codegen_stmt_kind_def xk Break_Stmt codegen_jump_def jump_blocks_def split: option.split)
    next
      case (Return_Stmt e)
      show ?thesis using return_flow [OF s(1)] by (simp add: codegen_stmt_kind_def xk Return_Stmt)
    qed (auto simp: codegen_stmt_kind_def xk)
  qed
qed

subsection \<open>Functions and units\<close>

definition tidy_unit :: "unit_t \<Rightarrow> bool" where
  "tidy_unit u = (case unit_kind u of Func_Unit fu \<Rightarrow> tidy_opt (fu_body fu) | _ \<Rightarrow> True)"

lemma quiet_declare [flow_intros]: "quiet (declare_func n self fu)"
  unfolding declare_func_def
  by (intro flow_intros quiet_llvm; simp add: call_simps)

lemma keeps_param [flow_intros]: "keeps self (codegen_param n self func ip)"
  unfolding codegen_param_def
  by (intro flow_intros quiet_keeps [OF quiet_llvm] keeps_build keeps_exec; simp add: call_simps)

lemma quiet_verify [flow_intros]: "quiet (verify_func verify func name)"
proof -
  have "quiet (\<lambda>s. if verify (cg_calls s) func then Inl (Exited msg) else Inr ((), s))" for msg
    by (rule quiet_state) (auto split: if_splits)
  then show ?thesis unfolding verify_func_def
    by (intro quiet_bind quiet_llvm) (simp_all add: call_simps)
qed

lemma hoare_dispose_builder:
  assumes "P = {}" "\<And>x. hoare (at {} {} False ts) (f x) C"
  shows "hoare (at K P False ts) (cbind (llvm Dispose_Builder) f) C"
proof (rule hoareI)
  fix s y s'
  assume A: "at K P False ts s" and m: "cbind (llvm Dispose_Builder) f s = Inr (y, s')"
  define t where "t = s\<lparr>cg_calls := cg_calls s @ [Dispose_Builder]\<rparr>"
  from A have "at {} {} False ts t" using assms(1) by (auto simp: at_def t_def flow_of_snoc flow_step_def)
  moreover from m have "f (Val (length (cg_calls s))) t = Inr (y, s')" by (simp add: cbind_def llvm_def t_def)
  ultimately show "C y s'" by (rule hoareD [OF assms(2)])
qed

lemma body_flow:
  assumes "tidy body" "jump_blocks self = {}"
  shows "hoare (at {} {} False ts) (codegen_body verify n self fu func body) (\<lambda>_. at {} {} False ts)"
proof -
  define cg where "cg = self\<lparr>cg_builder := True, cg_unit := Some (fu_return_type fu)\<rparr>"
  have cg: "cg_builder cg" "\<And>K. jump_blocks cg \<subseteq> K" using assms(2) by (simp_all add: cg_def jump_blocks_def)
  have ret: "hoare (at K P q ts) (cwhen (\<not> t)
      (if type_kind (fu_return_type fu) = Void_Type then exec cg Build_Ret_Void
       else derror (''missing return statement at the end of '' @ fu_name fu))) (\<lambda>_. at K P False ts)"
    if "q = (\<not> t)" for K P q t ts
    using that by (cases t) (auto simp: cwhen_def intro!: hoare_ret hoare_jump_exec [where bs = "[]"] simp: jump_targets_def)
  have params: "hoare (at K P True us) (cseq (cmap (codegen_param n cg func) ps) k) C"
    if "hoare (at K P True us) k C" for K P us ps k C
    by (rule hoare_keeps_seq [where self = cg, OF _ _ that]) (intro flow_intros, simp)
  have stmt: "hoare (at K P True (t # us)) (cseq (codegen_stmt n cg body) k) C"
    if "hoare (at K P (\<not> ends body) ((t \<or> ends body) # us)) k C" for K P t us k C
    by (rule hoare_seq [OF stmt_flowD [OF stmt_flow_stmt assms(1) cg] that])
  show ?thesis
    unfolding codegen_body_def Let_def cg_def [symmetric]
    by (intro hoare_append hoare_llvm hoare_enter hoare_push params stmt hoare_dispose hoare_seq [OF ret]
      hoare_dispose_builder quietD [OF quiet_verify]; simp add: call_simps)
qed

text \<open>The code of a unit starts and ends outside of all functions.\<close>

lemma unit_flow:
  assumes "tidy_unit u" "jump_blocks self = {}" "\<not> cg_builder self"
  shows "hoare (at {} {} False ts) (codegen_unit verify n self stage u) (\<lambda>_. at {} {} False ts)"
proof -
  have d: "hoare (at {} {} False ts) (codegen_decl n self d) (\<lambda>_. at {} {} False ts)" for d
    using keepsD [OF keeps_decl] assms(3) by blast
  have f: "hoare (at {} {} False ts) (define_func verify n self fu) (\<lambda>_. at {} {} False ts)"
    if "tidy_opt (fu_body fu)" for fu
    using that unfolding define_func_def
    by (intro hoare_quiet [OF quiet_find_symbol])
      (auto intro!: hoare_quiet [OF quiet_value_ptr] body_flow assms(2) hoare_ret split: option.split)
  note rules = d f hoare_done hoare_seq [OF quietD [OF quiet_declare]] quietD [OF quiet_add_symbol]
  show ?thesis
  proof (cases "unit_kind u")
    case (Func_Unit fu)
    then show ?thesis using assms(1)
      by (cases "stage = 1"; cases "stage = 2") (auto simp: codegen_unit_def tidy_unit_def cwhen_def intro!: rules)
  qed (auto simp: codegen_unit_def cwhen_def intro!: rules)
qed

lemma stage_flow:
  assumes "list_all tidy_unit us" "jump_blocks self = {}" "\<not> cg_builder self"
  shows "hoare (at {} {} False ts) (codegen_stage verify n self stage us) (\<lambda>_. at {} {} False ts)"
proof -
  have "hoare (at {} {} False ts) (cmap (codegen_unit verify n self stage) us) (\<lambda>_. at {} {} False ts)"
    using assms(1)
    by (induction us) (auto intro!: hoare_ret hoare_bind [OF unit_flow [OF _ assms(2,3)] hoare_bind])
  then show ?thesis unfolding codegen_stage_def by (auto intro: hoare_bind hoare_ret)
qed

lemma decls_flow:
  assumes "list_all tidy_unit us" "jump_blocks self = {}" "\<not> cg_builder self"
  shows "hoare (at {} {} False ts) (codegen_decls verify n self us) (\<lambda>_. at {} {} False ts)"
  unfolding codegen_decls_def by (rule hoare_seq [OF stage_flow [OF assms] stage_flow [OF assms]])

text \<open>Only the last stage looks at the bodies.\<close>

lemma keeps_declarations:
  assumes "\<not> cg_builder self"
  shows "quiet (codegen_decls verify n self us)"
proof -
  have d: "quiet (codegen_decl n self d)" for d
    using keeps_decl [of self n d] assms by (simp add: quiet_def keeps_def)
  have "quiet (codegen_unit verify n self stage u)" if "stage \<noteq> 2" for stage u
    using that unfolding codegen_unit_def
    by (auto simp: cwhen_def intro!: flow_intros d split: unit_kind.split)
  then show ?thesis unfolding codegen_decls_def codegen_stage_def by (intro flow_intros) simp_all
qed

lemma codegen_flow:
  assumes "list_all tidy_unit us" "jump_blocks self = {}" "\<not> cg_builder self"
  shows "hoare (at {} {} False ts) (codegen verify n self us) (\<lambda>_. at {} {} False ts)"
  unfolding codegen_def codegen_defs_def Let_def
  by (intro hoare_clift hoare_seq [OF decls_flow] stage_flow) (use assms in \<open>simp_all add: jump_blocks_def\<close>)

lemma well_formed_at: "at {} {} False ts s \<Longrightarrow> well_formed_blocks (cg_calls s)"
  by (auto simp: at_def well_formed_blocks_def)

end
