(* ===== verification/Codegen_Untidy.thy ===== *)
theory Codegen_Untidy
  imports Codegen_Flow_Stmt Codegen_Frame
begin

section \<open>Loops whose body ends in a jump\<close>

text \<open>
  The code of a loop branches to its step after the body, whether or not the body has ended with a
  jump. A statement is \<open>orderly\<close> when nothing follows such a statement in its block; it is tidy when, in
  addition, no body of a loop ends. Here: the code of an orderly statement that is not tidy breaks the rules
  on blocks.
\<close>

fun orderly :: "stmt \<Rightarrow> bool" and orderly_item :: "block_item \<Rightarrow> bool" where
  "orderly (Stmt l k) = (case k of
     Compound_Stmt items \<Rightarrow> list_all orderly_item items \<and> list_all (\<lambda>i. \<not> ends_item i) (butlast items)
   | If_Stmt c x y \<Rightarrow> (case x of None \<Rightarrow> True | Some x \<Rightarrow> orderly x) \<and> (case y of None \<Rightarrow> True | Some y \<Rightarrow> orderly y)
   | For_Stmt i c s x \<Rightarrow> (case x of None \<Rightarrow> True | Some x \<Rightarrow> orderly x)
   | _ \<Rightarrow> True)"
| "orderly_item (Stmt_Item x) = (case x of None \<Rightarrow> True | Some x \<Rightarrow> orderly x)"
| "orderly_item (Decl_Item d) = True"

abbreviation orderly_opt :: "stmt option \<Rightarrow> bool" where
  "orderly_opt x \<equiv> (case x of None \<Rightarrow> True | Some x \<Rightarrow> orderly x)"

definition orderly_unit :: "unit_t \<Rightarrow> bool" where
  "orderly_unit u = (case unit_kind u of Func_Unit fu \<Rightarrow> orderly_opt (fu_body fu) | _ \<Rightarrow> True)"

subsection \<open>Calls that break the rules\<close>

definition malformed :: "cg_state \<Rightarrow> bool" where
  "malformed s \<longleftrightarrow> flow_of (cg_calls s) = None"

definition adds :: "'a cg \<Rightarrow> bool" where
  "adds m \<longleftrightarrow> (\<forall>s x s'. m s = Inr (x, s') \<longrightarrow> more_calls s s')"

named_theorems adds_intros \<open>steps that take no call back\<close>

lemma grows_adds: "grows m \<Longrightarrow> adds m"
  by (simp add: grows_def adds_def)

lemma steady_adds: "steady m \<Longrightarrow> adds m"
  by (simp add: steady_def adds_def)

lemma adds_bind [adds_intros]: "adds m \<Longrightarrow> (\<And>x. adds (f x)) \<Longrightarrow> adds (cbind m f)"
  unfolding adds_def cbind_def rbind_Inr_conv by (fastforce intro: more_calls_trans)

lemma adds_seq [adds_intros]: "adds m \<Longrightarrow> adds k \<Longrightarrow> adds (cseq m k)"
  unfolding cseq_def by (rule adds_bind)

lemma adds_contexts [adds_intros]: "adds push_context" "adds codegen_context_dispose"
  by (auto simp: adds_def push_context_def codegen_context_dispose_def more_calls_def split: list.splits)

lemma adds_calls [adds_intros]: "adds (exec self c)" "adds (llvm c)" "adds (append_block func name)"
  by (auto simp: adds_def exec_def build_def llvm_def append_block_def cbind_def cret_def cfail_def more_calls_def split: if_splits)

lemma adds_basic [adds_intros]: "adds (cret x)" "adds (cfail e)" "adds (derror msg)" "adds (die msg)" "adds (clift r)"
  "adds set_terminated"
  by (intro steady_adds frame_intros)+

lemma adds_when [adds_intros]: "adds m \<Longrightarrow> adds (cwhen b m)"
  by (simp add: cwhen_def adds_basic)

lemma adds_cases [adds_intros]:
  "adds m \<Longrightarrow> adds k \<Longrightarrow> adds (if b then m else k)"
  "adds m \<Longrightarrow> (\<And>x. adds (f x)) \<Longrightarrow> adds (case z of None \<Rightarrow> m | Some x \<Rightarrow> f x)"
  "(\<And>x y. adds (g x y)) \<Longrightarrow> adds (case p of (x, y) \<Rightarrow> g x y)"
  by (simp_all split: option.split prod.split)

lemma adds_map: "(\<And>x. adds (f x)) \<Longrightarrow> adds (cmap f xs)"
  by (induction xs) (auto intro!: adds_intros)

lemma adds_gen [adds_intros]: "adds (opt_stmt (codegen_stmt n) self x)" "adds (codegen_opt_expr n self oe)"
  "adds (codegen_expr_top n self lv a h)" "adds (codegen_item n self (codegen_stmt n) i)"
  "adds (cmap (codegen_item n self (codegen_stmt n)) items)" "adds (codegen_branch self (codegen_stmt n) b b2 x)"
  unfolding codegen_item_def codegen_branch_def
  by (intro adds_intros adds_map grows_adds grows_map frame_intros grows_opt_stmt)+

lemma malformed_stays: "adds m \<Longrightarrow> hoare malformed m (\<lambda>_. malformed)"
  unfolding hoare_def adds_def malformed_def more_calls_def flow_of_def by (fastforce simp: flow_from_append)

lemma hoare_spoil: "hoare A m (\<lambda>_. malformed) \<Longrightarrow> (\<And>x. adds (f x)) \<Longrightarrow> hoare A (cbind m f) (\<lambda>_. malformed)"
  by (rule hoare_bind) (auto intro: malformed_stays)

lemma hoare_spoil_seq: "hoare A m (\<lambda>_. malformed) \<Longrightarrow> adds k \<Longrightarrow> hoare A (cseq m k) (\<lambda>_. malformed)"
  unfolding cseq_def by (rule hoare_spoil)

text \<open>A jump outside of a block.\<close>

lemma jump_spoils: "hoare (at K P False ts) (exec self (Build_Br b)) (\<lambda>_. malformed)"
proof (rule hoareI)
  fix s x s'
  assume A: "at K P False ts s" and m: "exec self (Build_Br b) s = Inr (x, s')"
  from m have "s' = s\<lparr>cg_calls := cg_calls s @ [Build_Br b]\<rparr>"
    by (auto simp: exec_def build_def llvm_def cbind_def cret_def cfail_def split: if_splits)
  with A show "malformed s'" by (auto simp: at_def malformed_def flow_of_snoc flow_step_simps)
qed

subsection \<open>Statements\<close>

definition stmt_spoils :: "nat \<Rightarrow> bool" where
  "stmt_spoils n \<longleftrightarrow> (\<forall>self x K P t ts. orderly x \<longrightarrow> \<not> tidy x \<longrightarrow> cg_builder self \<longrightarrow> jump_blocks self \<subseteq> K \<longrightarrow>
     hoare (at K P True (t # ts)) (codegen_stmt n self x) (\<lambda>_. malformed))"

lemma opt_spoils:
  "stmt_spoils n \<Longrightarrow> orderly_opt x \<Longrightarrow> \<not> tidy_opt x \<Longrightarrow> cg_builder self \<Longrightarrow> jump_blocks self \<subseteq> K \<Longrightarrow>
   hoare (at K P True (t # ts)) (opt_stmt (codegen_stmt n) self x) (\<lambda>_. malformed)"
  by (cases x) (auto simp: opt_stmt_def stmt_spoils_def)

lemma items_spoil:
  assumes n: "stmt_spoils n" and s: "cg_builder self" "jump_blocks self \<subseteq> K"
    and "list_all orderly_item items" "list_all (\<lambda>i. \<not> ends_item i) (butlast items)" "\<not> list_all tidy_item items"
  shows "hoare (at K P True (t # ts)) (cmap (codegen_item n self (codegen_stmt n)) items) (\<lambda>_. malformed)"
  using assms(4-)
proof (induction items)
  case (Cons i items)
  show ?case
  proof (cases "tidy_item i")
    case True
    then have rest: "\<not> list_all tidy_item items" using Cons.prems(3) by simp
    then have i: "\<not> ends_item i" "list_all (\<lambda>i. \<not> ends_item i) (butlast items)" using Cons.prems(2) by (cases items; simp)+
    have "hoare (at K P True (t # ts)) (codegen_item n self (codegen_stmt n) i) (\<lambda>_. at K P True (t # ts))"
      using item_flow [OF stmt_flow_stmt True s, of P t ts n n] i(1) by simp
    moreover have "hoare (at K P True (t # ts)) (cmap (codegen_item n self (codegen_stmt n)) items) (\<lambda>_. malformed)"
      using Cons.IH Cons.prems(1) i(2) rest by simp
    ultimately show ?thesis by (simp add: hoare_bind [OF _ hoare_spoil] adds_intros)
  next
    case False
    then obtain x where i: "i = Stmt_Item x" "\<not> tidy_opt x" "orderly_opt x" using Cons.prems(1) by (cases i) auto
    have "hoare (at K P True (t # ts)) (codegen_item n self (codegen_stmt n) i) (\<lambda>_. malformed)"
      using opt_spoils [OF n i(3,2) s] by (simp add: codegen_item_def i(1))
    then show ?thesis by (simp add: hoare_spoil adds_intros)
  qed
qed simp

lemma compound_spoils:
  assumes "stmt_spoils n" "cg_builder self" "jump_blocks self \<subseteq> K"
    and "list_all orderly_item items" "list_all (\<lambda>i. \<not> ends_item i) (butlast items)" "\<not> list_all tidy_item items"
  shows "hoare (at K P True (t # ts)) (codegen_compound n self (codegen_stmt n) items) (\<lambda>_. malformed)"
  unfolding codegen_compound_def
  by (intro hoare_push hoare_spoil_seq [OF items_spoil] assms adds_intros)

lemma branch_spoils:
  assumes "stmt_spoils n" "orderly_opt x" "\<not> tidy_opt x" "cg_builder self" "jump_blocks self \<subseteq> K" "b \<in> P" "\<And>r. adds (f r)"
  shows "hoare (at K P False ts) (cbind (codegen_branch self (codegen_stmt n) b e x) f) (\<lambda>_. malformed)"
  unfolding codegen_branch_def
  by (intro hoare_spoil hoare_push hoare_enter hoare_spoil_seq [OF opt_spoils] assms adds_intros)

lemma if_spoils:
  assumes g: "stmt_spoils n" "cg_builder self" "jump_blocks self \<subseteq> K"
    and x: "orderly_opt x" "orderly_opt y" "\<not> (tidy_opt x \<and> tidy_opt y)"
  shows "hoare (at K P True (t # ts)) (codegen_if n self (codegen_stmt n) c x y) (\<lambda>_. malformed)"
proof -
  have K: "jump_blocks self \<subseteq> insert d (insert b K)" "jump_blocks self \<subseteq> insert e (insert d (insert b K))"
    for b d e using g(3) by auto
  note rules = hoare_push hoare_expr_top hoare_prod hoare_clift hoare_complaint hoare_dispose hoare_func hoare_append
    hoare_cond_br
  show ?thesis
  proof (cases "tidy_opt x")
    case True
    with x obtain z where z: "y = Some z" "orderly_opt (Some z)" "\<not> tidy_opt (Some z)" by (cases y) auto
    show ?thesis unfolding codegen_if_def z(1)
      apply (simp only: if_False option.distinct simp_thms option.case cbind_ret cbind_assoc)
      apply (intro rules branch_flow [OF stmt_flow_stmt True g(2) K(2)] g
          branch_spoils [OF g(1) z(2,3) g(2) K(2)] adds_intros)
      apply auto
      done
  next
    case False
    show ?thesis
    proof (cases y)
      case None
      show ?thesis unfolding codegen_if_def None
        apply (simp only: if_True simp_thms option.case cbind_ret cbind_assoc)
        apply (intro rules branch_spoils [OF g(1) x(1) False g(2) K(1)] g adds_intros)
        apply auto
        done
    next
      case (Some z)
      show ?thesis unfolding codegen_if_def Some
        apply (simp only: if_False option.distinct simp_thms option.case cbind_ret cbind_assoc)
        apply (intro rules branch_spoils [OF g(1) x(1) False g(2) K(2)] g adds_intros)
        apply auto
        done
    qed
  qed
qed

lemma for_spoils:
  assumes g: "stmt_spoils n" "cg_builder self" and x: "orderly_opt x" "\<not> (tidy_opt x \<and> \<not> ends_opt x)"
  shows "hoare (at K P True ts) (codegen_for n self (codegen_stmt n) i c stp x) (\<lambda>_. malformed)"
proof -
  have body: "hoare (at L Q True (t # us))
      (cseq (opt_stmt (codegen_stmt n) (self\<lparr>cg_continue_block := Some s, cg_break_block := Some e\<rparr>) x)
      (cseq (exec self (Build_Br s)) k)) (\<lambda>_. malformed)"
    if "s \<in> L" "e \<in> L" "adds k" for L Q t us s e k
  proof (cases "tidy_opt x")
    case True
    with x(2) have "ends_opt x" by simp
    then show ?thesis
      by (intro hoare_opt [OF stmt_flow_stmt True])
        (use that g in \<open>auto simp: jump_blocks_def intro!: hoare_spoil_seq jump_spoils\<close>)
  next
    case False
    show ?thesis
      by (intro hoare_spoil_seq [OF opt_spoils [OF g(1) x(1) False]] adds_intros that(3))
        (use that g in \<open>auto simp: jump_blocks_def\<close>)
  qed
  have cond: "hoare (at L Q True us) (cseq (case c of
         Some e \<Rightarrow> cbind (codegen_expr_top n self False e (hint_of bool_type)) (\<lambda>(e', cond).
           exec self (Build_Cond_Br cond b b'))
       | None \<Rightarrow> exec self (Build_Br b)) k) C"
    if "hoare (at L Q False us) k C" "b \<in> L" "b' \<in> L" for L Q us b b' k C
    by (rule hoare_seq [OF condition_flow [OF g(2) that(2,3)] that(1)])
  show ?thesis unfolding codegen_for_def
    by (intro hoare_push hoare_opt_expr hoare_func hoare_append hoare_br hoare_enter cond body adds_intros g) auto
qed

lemma stmt_spoils_stmt: "stmt_spoils n"
proof (induction n)
  case 0
  then show ?case by (auto simp: stmt_spoils_def)
next
  case (Suc n)
  show ?case unfolding stmt_spoils_def
  proof (intro allI impI)
    fix self :: codegen_t and x K P t ts
    assume x: "orderly x" "\<not> tidy x" and s: "cg_builder self" "jump_blocks self \<subseteq> K"
    obtain l k where xk: "x = Stmt l k" by (cases x)
    show "hoare (at K P True (t # ts)) (codegen_stmt (Suc n) self x) (\<lambda>_. malformed)"
    proof (cases k)
      case (Compound_Stmt items)
      show ?thesis using compound_spoils [OF Suc.IH s] x by (simp add: codegen_stmt_kind_def xk Compound_Stmt)
    next
      case (If_Stmt c y z)
      show ?thesis using if_spoils [OF Suc.IH s, of y z] x by (simp add: codegen_stmt_kind_def xk If_Stmt)
    next
      case (For_Stmt i c stp y)
      have "orderly_opt y" "\<not> (tidy_opt y \<and> \<not> ends_opt y)" using x by (auto simp: xk For_Stmt split: option.splits)
      then show ?thesis using for_spoils [OF Suc.IH s(1)] by (simp add: codegen_stmt_kind_def xk For_Stmt)
    qed (use x in \<open>simp_all add: xk\<close>)
  qed
qed

subsection \<open>Functions and units\<close>

lemma adds_unit [adds_intros]: "adds (codegen_unit verify n self stage u)"
proof -
  have v: "adds (verify_func verify func name)" for func name
    by (auto simp: adds_def verify_func_def cbind_def llvm_def more_calls_def split: if_splits)
  have d: "adds (codegen_decl n self d)" "adds (find_symbol name)" "adds (value_ptr w)" for d name w
    by (intro grows_adds frame_intros)+
  have p: "adds (codegen_param n cg func ip)" "adds (codegen_stmt n cg x)" for cg func ip x
    unfolding codegen_param_def by (intro grows_adds frame_intros)+
  have b: "adds (codegen_body verify n self fu func body)" for fu func body
    unfolding codegen_body_def Let_def by (intro adds_intros adds_map v p)
  have f: "adds (declare_func n self fu)" "adds (codegen_context_add_symbol sy)" for fu sy
    unfolding declare_func_def by (intro grows_adds frame_intros)+
  show ?thesis unfolding codegen_unit_def define_func_def
    by (cases "unit_kind u") (auto intro!: adds_intros b f d split: option.split)
qed

lemma body_spoils:
  assumes "orderly body" "\<not> tidy body" "jump_blocks self = {}"
  shows "hoare (at {} {} False ts) (codegen_body verify n self fu func body) (\<lambda>_. malformed)"
proof -
  define cg where "cg = self\<lparr>cg_builder := True, cg_unit := Some (fu_return_type fu)\<rparr>"
  have cg: "cg_builder cg" "\<And>K. jump_blocks cg \<subseteq> K" using assms(3) by (simp_all add: cg_def jump_blocks_def)
  have v: "adds (verify_func verify func name)" for func name
    by (auto simp: adds_def verify_func_def cbind_def llvm_def more_calls_def split: if_splits)
  have params: "hoare (at K P True us) (cseq (cmap (codegen_param n cg func) ps) k) C"
    if "hoare (at K P True us) k C" for K P us ps k C
    by (rule hoare_keeps_seq [where self = cg, OF _ _ that]) (intro flow_intros, simp)
  have stmt: "hoare (at K P True (t # us)) (cseq (codegen_stmt n cg body) k) (\<lambda>_. malformed)" if "adds k" for K P t us k
    using stmt_spoils_stmt assms(1,2) cg that by (intro hoare_spoil_seq) (auto simp: stmt_spoils_def)
  show ?thesis unfolding codegen_body_def Let_def cg_def [symmetric]
    by (intro hoare_append hoare_llvm hoare_enter hoare_push params stmt adds_intros v; simp add: call_simps)
qed

text \<open>The units of the third stage, up to the first that is not tidy.\<close>

lemma unit_spoils:
  assumes "orderly_unit u" "\<not> tidy_unit u" "jump_blocks self = {}"
  shows "hoare (at {} {} False ts) (codegen_unit verify n self 2 u) (\<lambda>_. malformed)"
proof -
  obtain fu body where u: "unit_kind u = Func_Unit fu" "fu_body fu = Some body" "orderly body" "\<not> tidy body"
    using assms(1,2) by (auto simp: orderly_unit_def tidy_unit_def split: unit_kind.splits option.splits)
  have "hoare (at {} {} False ts) (define_func verify n self fu) (\<lambda>_. malformed)"
    unfolding define_func_def u(2) option.case
    by (intro hoare_quiet [OF quiet_find_symbol])
      (auto intro!: hoare_quiet [OF quiet_value_ptr] body_spoils u assms(3) split: option.split)
  then show ?thesis by (simp add: codegen_unit_def u(1) cwhen_def)
qed

lemma units_spoil:
  assumes "list_all orderly_unit us" "\<not> list_all tidy_unit us" "jump_blocks self = {}" "\<not> cg_builder self"
  shows "hoare (at {} {} False ts) (codegen_defs verify n self us) (\<lambda>_. malformed)"
proof -
  have "hoare (at {} {} False ts) (cmap (codegen_unit verify n self 2) us) (\<lambda>_. malformed)"
    using assms(1,2)
  proof (induction us)
    case (Cons u us)
    show ?case
    proof (cases "tidy_unit u")
      case True
      with Cons show ?thesis
        by (simp add: hoare_bind [OF unit_flow [OF True assms(3,4)] hoare_spoil] adds_intros)
    next
      case False
      with Cons.prems(1) show ?thesis
        by (simp add: hoare_spoil [OF unit_spoils [OF _ False assms(3)]] adds_intros adds_map)
    qed
  qed simp
  then show ?thesis unfolding codegen_defs_def codegen_stage_def by (rule hoare_spoil) (rule adds_intros)
qed

end
