(* ===== verification/Codegen_Run.thy ===== *)
theory Codegen_Run
  imports Driver
begin

section \<open>Running the code generator\<close>

text \<open>
  Equations that unfold a function of the code generator only where it is applied to a state, and
  congruence rules that keep the simplifier out of what has not been reached, so that evaluating
  a run by \<open>simp\<close> follows the run.
\<close>

lemma cbind_run: "cbind m f s = (case m s of Inl e \<Rightarrow> Inl e | Inr p \<Rightarrow> f (fst p) (snd p))"
  by (simp add: cbind_def rbind_def split_beta split: sum.split)

lemma cseq_run: "cseq m k s = (case m s of Inl e \<Rightarrow> Inl e | Inr p \<Rightarrow> k (snd p))"
  by (simp add: cseq_def cbind_run)

lemma cwhen_run: "cwhen b m s = (if b then m s else Inr ((), s))"
  by (simp add: cwhen_def cret_def)

lemma clift_run: "clift r s = (case r of Inl e \<Rightarrow> Inl e | Inr x \<Rightarrow> Inr (x, s))"
  by (simp add: clift_def rbind_def)

lemma lazy_run:
  "cbind m f s = cbind m f s" "cseq m k s = cseq m k s"
  "b = b' \<Longrightarrow> cwhen b m s = cwhen b' m s"
  by simp_all

lemmas fuel_run =
  resolve_type_name.simps(2) [of "pred_numeral v" for v, folded numeral_eq_Suc]
  codegen_type.simps(2) [of "pred_numeral v" for v, folded numeral_eq_Suc]
  prepare_expr.simps(2) [of "pred_numeral v" for v, folded numeral_eq_Suc]
  codegen_expr.simps(2) [of "pred_numeral v" for v, folded numeral_eq_Suc]
  codegen_stmt.simps(2) [of "pred_numeral v" for v, folded numeral_eq_Suc]
  resolve_imports.simps(2) [of "pred_numeral v" for v, folded numeral_eq_Suc]

lemmas codegen_run = cbind_run cseq_run cwhen_run clift_run fuel_run [THEN fun_cong] cret_def [THEN fun_cong]
  cfail_def [THEN fun_cong] cget_def [THEN fun_cong] llvm_def [THEN fun_cong] build_def [THEN fun_cong]
  push_context_def [THEN fun_cong] codegen_context_dispose_def [THEN fun_cong] with_context_def [THEN fun_cong]
  set_const_value_def [THEN fun_cong]
  resolve_type_name.simps [THEN fun_cong] codegen_type.simps [THEN fun_cong] prepare_expr.simps [THEN fun_cong]
  codegen_expr.simps [THEN fun_cong] codegen_stmt.simps [THEN fun_cong] resolve_imports.simps [THEN fun_cong]
  cmap.simps [THEN fun_cong] derror_def [THEN fun_cong] die_def [THEN fun_cong] cassert_def [THEN fun_cong]
  current_func_def [THEN fun_cong] set_terminated_def [THEN fun_cong]
  codegen_context_add_symbol_def [THEN fun_cong] find_symbol_def [THEN fun_cong]
  interface_arg_type_def [THEN fun_cong] interface_field_type_def [THEN fun_cong]
  make_interface_table_type_def [THEN fun_cong] codegen_type_float_def [THEN fun_cong]
  codegen_type_func_def [THEN fun_cong] codegen_type_named_def [THEN fun_cong]
  codegen_type_struct_def [THEN fun_cong] codegen_type_slice_def [THEN fun_cong]
  codegen_type_array_def [THEN fun_cong] codegen_type_interface_def [THEN fun_cong]
  codegen_type_kind_def [THEN fun_cong] copied_def [THEN fun_cong] copied_hint_def [THEN fun_cong]
  prepare_opt_def [THEN fun_cong] type_ptr_def [THEN fun_cong] prepare_ident_expr_def [THEN fun_cong]
  prepare_number_literal_expr_def [THEN fun_cong] prepare_string_literal_expr_def [THEN fun_cong]
  prepare_sizeof_expr_def [THEN fun_cong] prepare_assignment_expr_def [THEN fun_cong]
  prepare_binary_expr_def [THEN fun_cong] prepare_unary_expr_def [THEN fun_cong]
  prepare_incdec_expr_def [THEN fun_cong] prepare_cast_expr_def [THEN fun_cong]
  prepare_conditional_expr_def [THEN fun_cong] prepare_comma_expr_def [THEN fun_cong]
  prepare_index_access_expr_def [THEN fun_cong] prepare_index_slice_expr_def [THEN fun_cong]
  prepare_member_access_expr_def [THEN fun_cong] prepare_args.simps [THEN fun_cong]
  prepare_call_expr_def [THEN fun_cong] prepare_new_builtin_expr_def [THEN fun_cong]
  prepare_free_builtin_expr_def [THEN fun_cong] prepare_make_builtin_expr_def [THEN fun_cong]
  prepare_lencap_builtin_expr_def [THEN fun_cong] prepare_dispose_builtin_expr_def [THEN fun_cong]
  prepare_kind_def [THEN fun_cong] exec_def [THEN fun_cong] append_block_def [THEN fun_cong]
  load_unless_def [THEN fun_cong] value_ptr_def [THEN fun_cong] codegen_ident_expr_def [THEN fun_cong]
  codegen_number_literal_expr_def [THEN fun_cong] codegen_string_literal_expr_def [THEN fun_cong]
  codegen_sizeof_expr_def [THEN fun_cong] codegen_assignment_expr_def [THEN fun_cong]
  build_inst_def [THEN fun_cong] codegen_binary_expr_def [THEN fun_cong] codegen_unary_expr_def [THEN fun_cong]
  codegen_incdec_expr_def [THEN fun_cong] codegen_conditional_expr_def [THEN fun_cong]
  codegen_comma_expr_def [THEN fun_cong] build_assert_def [THEN fun_cong]
  codegen_index_access_expr_def [THEN fun_cong] check_index_def [THEN fun_cong] index_or_def [THEN fun_cong]
  slice_slice_def [THEN fun_cong] slice_array_def [THEN fun_cong] codegen_index_slice_expr_def [THEN fun_cong]
  codegen_member_access_expr_def [THEN fun_cong] call_args_def [THEN fun_cong] interface_call_def [THEN fun_cong]
  function_call_def [THEN fun_cong] codegen_call_expr_def [THEN fun_cong] table_function_def [THEN fun_cong]
  table_field_def [THEN fun_cong] table_entry_def [THEN fun_cong] cast_to_interface_def [THEN fun_cong]
  codegen_cast_expr_def [THEN fun_cong] codegen_array_new_def [THEN fun_cong]
  codegen_new_builtin_expr_def [THEN fun_cong] codegen_free_builtin_expr_def [THEN fun_cong]
  codegen_make_builtin_expr_def [THEN fun_cong] codegen_lencap_builtin_expr_def [THEN fun_cong]
  codegen_dispose_builtin_expr_def [THEN fun_cong] codegen_kind_def [THEN fun_cong]
  codegen_expr_top_def [THEN fun_cong] codegen_typed_variable_def [THEN fun_cong]
  codegen_untyped_variable_def [THEN fun_cong] codegen_const_def [THEN fun_cong] codegen_decl_def [THEN fun_cong]
  opt_stmt_def [THEN fun_cong] codegen_opt_expr_def [THEN fun_cong] codegen_item_def [THEN fun_cong]
  codegen_compound_def [THEN fun_cong] codegen_branch_def [THEN fun_cong] codegen_if_def [THEN fun_cong]
  codegen_for_def [THEN fun_cong] codegen_jump_def [THEN fun_cong] codegen_return_def [THEN fun_cong]
  codegen_stmt_kind_def [THEN fun_cong] declare_func_def [THEN fun_cong] codegen_param_def [THEN fun_cong]
  verify_func_def [THEN fun_cong] codegen_body_def [THEN fun_cong] define_func_def [THEN fun_cong]
  codegen_unit_def [THEN fun_cong] codegen_stage_def [THEN fun_cong] codegen_decls_def [THEN fun_cong]
  codegen_defs_def [THEN fun_cong] codegen_def [THEN fun_cong] import_units.simps [THEN fun_cong]
  generate_module_def [THEN fun_cong]

lemmas codegen_data = Let_def symbol_at_def no_symbol_def variable_symbol_def bool_type_def int_type_def hint_of_def
  typed_def of_kind_def pointer_to_def pointee_def is_const_decl_def const_value_def arithmetic_op_def untyped_def
  i8_pointer_def is_integer_def literal_text_def interface_symbol_def codegen_context_init_def new_codegen_def
  new_cg_state_def mangle_func_name_def

subsection \<open>A sample\<close>

text \<open>
  The tree of
  \<open>func f(n int32) int32 { var i int32 = 0; for ; i < n; i++ { if i == 7 { break; } } return i; }\<close>.
\<close>

definition at_sample :: loc where
  "at_sample = \<lparr>loc_filename = ''a.low'', loc_line = 0, loc_col = 0\<rparr>"

definition sample_expr :: "expr_kind \<Rightarrow> expr" where
  "sample_expr k = Expr at_sample (Type 0 No_Type) k"

definition sample_block :: "stmt_kind list \<Rightarrow> stmt" where
  "sample_block ks = Stmt at_sample (Compound_Stmt (map (\<lambda>k. Stmt_Item (Some (Stmt at_sample k))) ks))"

definition int32 :: type_t where
  "int32 = Type 0 (Integer_Type 32)"

definition sample_func :: "type_t \<Rightarrow> func_param list \<Rightarrow> stmt \<Rightarrow> unit_t" where
  "sample_func t ps body = Unit at_sample (Func_Unit \<lparr>fu_return_type = t, fu_name = ''f'', fu_body = Some body,
     fu_params = ps, fu_variadic = False, fu_type = Type 0 No_Type\<rparr>)"

definition sample_loop :: stmt_kind where
  "sample_loop = For_Stmt None
     (Some (sample_expr (Binary_Expr (sample_expr (Ident_Expr ''i'')) (sample_expr (Ident_Expr ''n'')) Op_Lt)))
     (Some (sample_expr (Incdec_Expr (sample_expr (Ident_Expr ''i'')) Order_Post Dir_Inc)))
     (Some (sample_block [If_Stmt
       (sample_expr (Binary_Expr (sample_expr (Ident_Expr ''i'')) (sample_expr (Number_Literal_Expr ''7'' 10)) Op_Eq))
       (Some (sample_block [Break_Stmt])) None]))"

definition sample_units :: "unit_t list" where
  "sample_units = [sample_func int32 [\<lparr>param_type = int32, param_name = Some ''n''\<rparr>]
     (Stmt at_sample (Compound_Stmt [
       Decl_Item (Decl at_sample (Variable_Decl int32 ''i'' (Some (sample_expr (Number_Literal_Expr ''0'' 10))))),
       Stmt_Item (Some (Stmt at_sample sample_loop)),
       Stmt_Item (Some (Stmt at_sample (Return_Stmt (Some (sample_expr (Ident_Expr ''i'')))))) ]))]"

definition lenient_llvm :: llvm_results where
  "lenient_llvm = \<lparr>lr_verify_function = (\<lambda>cs f. False), lr_verify_module = (\<lambda>m. True), lr_link_failed = (\<lambda>ms m. False)\<rparr>"

lemmas sample_defs = at_sample_def sample_expr_def sample_block_def int32_def sample_func_def sample_loop_def
  sample_units_def lenient_llvm_def

lemma sample_compiles:
  "\<exists>m. compile lenient_llvm 12 (new_codegen [CHR 0x00]) (\<lambda>name. Inr (Some sample_units)) ''a.low'' = Inr (Some m)"
  by (simp add: compile_def codegen_run codegen_data sample_defs cong: lazy_run)

end
