(* ===== verification/Codegen_Props.thy ===== *)
theory Codegen_Props
  imports Codegen_Untidy Codegen_Fuel Codegen_Run
begin

section \<open>Properties of the code generator and the driver\<close>

subsection \<open>Blocks\<close>

lemma quiet_imports:
  assumes d: "\<And>us. quiet (decls us)"
  shows "quiet (resolve_imports n decls read_units us name handled)"
proof (induction n arbitrary: us name handled)
  case 0
  show ?case by (simp add: flow_intros)
next
  case (Suc n)
  have "quiet (import_units (resolve_imports n decls read_units) decls read_units name us handled)"
    by (induction us arbitrary: handled) (auto simp: Let_def intro!: flow_intros Suc d split: unit_kind.split option.split)
  then show ?case by simp
qed

lemma at_new_state: "at {} {} False [False] new_cg_state"
  by (simp add: at_def new_cg_state_def flow_of_def codegen_context_init_def)

lemma codegen_spoils:
  assumes "list_all orderly_unit us" "\<not> list_all tidy_unit us" "jump_blocks self = {}" "\<not> cg_builder self"
  shows "hoare (at {} {} False [False]) (codegen verify n self us) (\<lambda>_. malformed)"
proof -
  have "hoare (at {} {} False [False]) (cseq (codegen_decls verify n (self\<lparr>cg_package := package\<rparr>) us)
      (codegen_defs verify n (self\<lparr>cg_package := package\<rparr>) us)) (\<lambda>_. malformed)" for package
    using assms by (intro hoare_seq [OF quietD [OF keeps_declarations] units_spoil]) (simp_all add: jump_blocks_def)
  then show ?thesis unfolding codegen_def Let_def by (intro hoare_clift)
qed

text \<open>
  C10: which files give a module that LLVM can take. In a file where nothing follows, in its block, a
  statement that jumps away, the calls made for the file, when they are made to the end, build blocks that
  are each entered once, end in exactly one terminator, which is the last instruction, and branch to blocks of the
  same function only - if and only if no body of a loop ends with a jump. So \<open>for ;; { break; }\<close>, a
  loop that is left by \<open>return\<close> at its end, or one that ends in \<open>continue\<close>, are compiled to blocks with two
  terminators.
\<close>

theorem compile_blocks_well_formed:
  assumes "compile results n (new_codegen after) read_units name = Inr (Some m)"
    and "read_units name = Inr (Some us)" and "list_all orderly_unit us"
  shows "well_formed_blocks m \<longleftrightarrow> list_all tidy_unit us"
proof -
  have cg: "jump_blocks (new_codegen after) = {}" "\<not> cg_builder (new_codegen after)"
    by (simp_all add: jump_blocks_def new_codegen_def)
  from assms(1,2) obtain s where
    s: "generate_module results n (new_codegen after) read_units name us new_cg_state = Inr ((), s)" "m = cg_calls s"
    by (auto simp: compile_def rbind_Inr_conv split: if_splits)
  show ?thesis
  proof (cases "list_all tidy_unit us")
    case True
    have "hoare (at {} {} False [False])
        (generate_module results n (new_codegen after) read_units name us) (\<lambda>_. at {} {} False [False])"
      unfolding generate_module_def
      by (intro hoare_quiet quiet_imports keeps_declarations codegen_flow True cg)
    then have "at {} {} False [False] s" using at_new_state s(1) by (rule hoareD)
    then show ?thesis using True s(2) well_formed_at by simp
  next
    case False
    have "hoare (at {} {} False [False])
        (generate_module results n (new_codegen after) read_units name us) (\<lambda>_. malformed)"
      unfolding generate_module_def
      by (intro hoare_quiet quiet_imports keeps_declarations codegen_spoils assms(3) False cg)
    then have "malformed s" using at_new_state s(1) by (rule hoareD)
    then show ?thesis using False s(2) by (simp add: malformed_def well_formed_blocks_def)
  qed
qed

text \<open>The function \<open>func f() void { for ;; { break; } }\<close>.\<close>

definition break_units :: "unit_t list" where
  "break_units = [sample_func (Type 0 Void_Type) [] (sample_block [For_Stmt None None None (Some (sample_block [Break_Stmt]))])]"

lemma break_compiles:
  "\<exists>m. compile lenient_llvm 12 (new_codegen [CHR 0x00]) (\<lambda>name. Inr (Some break_units)) ''a.low'' = Inr (Some m)"
  by (simp add: compile_def codegen_run codegen_data break_units_def sample_defs cong: lazy_run)

theorem compile_blocks_well_formed_witness:
  "\<exists>m m'. compile lenient_llvm 12 (new_codegen [CHR 0x00]) (\<lambda>name. Inr (Some sample_units)) ''a.low'' = Inr (Some m) \<and>
     well_formed_blocks m \<and>
     compile lenient_llvm 12 (new_codegen [CHR 0x00]) (\<lambda>name. Inr (Some break_units)) ''a.low'' = Inr (Some m') \<and>
     \<not> well_formed_blocks m'"
proof -
  obtain m where m: "compile lenient_llvm 12 (new_codegen [CHR 0x00]) (\<lambda>name. Inr (Some sample_units)) ''a.low'' = Inr (Some m)"
    using sample_compiles by blast
  obtain m' where m': "compile lenient_llvm 12 (new_codegen [CHR 0x00]) (\<lambda>name. Inr (Some break_units)) ''a.low'' = Inr (Some m')"
    using break_compiles by blast
  have "list_all tidy_unit sample_units" "list_all orderly_unit sample_units"
    by (simp_all add: sample_defs tidy_unit_def orderly_unit_def)
  with compile_blocks_well_formed [OF m] have "well_formed_blocks m" by auto
  moreover have "\<not> list_all tidy_unit break_units" "list_all orderly_unit break_units"
    by (simp_all add: break_units_def sample_defs tidy_unit_def orderly_unit_def)
  with compile_blocks_well_formed [OF m'] have "\<not> well_formed_blocks m'" by auto
  ultimately show ?thesis using m m' by blast
qed

text \<open>
  A result does not depend on the bound on the depth of the recursion it was found with: with a
  larger bound the compiler returns the same, unless the smaller bound was used up.
\<close>

lemma compile_bound:
  assumes "n \<le> n'" and "compile results n cg read_units name \<noteq> Inl Diverges"
  shows "compile results n' cg read_units name = compile results n cg read_units name"
proof -
  have "le (generate_module results n cg read_units name us) (generate_module results n' cg read_units name us)" for us
    unfolding generate_module_def using assms(1) by (intro fuel_intros)
  then have g: "generate_module results n cg read_units name us s = Inl Diverges \<or>
      generate_module results n' cg read_units name us s = generate_module results n cg read_units name us s" for us s
    by (simp add: le_def)
  show ?thesis
  proof (cases "\<exists>us. read_units name = Inr (Some us)")
    case True
    then obtain us where us: "read_units name = Inr (Some us)" by blast
    have "generate_module results n cg read_units name us new_cg_state \<noteq> Inl Diverges"
      using assms(2) by (auto simp: compile_def us)
    with g [of us new_cg_state] show ?thesis by (simp add: compile_def us)
  next
    case False
    then show ?thesis by (cases "read_units name") (auto simp: compile_def split: option.split)
  qed
qed

end
