(* ===== verification/Compile_Correct.thy ===== *)
theory Compile_Correct
  imports Func_Correct Codegen_Props
begin

section \<open>Compiled functions compute what they are to return\<close>

subsection \<open>Blocks are entered once\<close>

lemma entered_once_snoc:
  "entered_once (cs @ [c]) \<longleftrightarrow> entered_once cs \<and> (\<forall>b. c = Position_At_End b \<longrightarrow> c \<notin> set cs)"
  unfolding entered_once_def in_set_conv_nth
  by (auto simp: nth_append less_Suc_eq)

lemma flow_enters_once:
  "flow_of cs = Some f \<Longrightarrow> entered_once cs \<and> (\<forall>b. Position_At_End b \<in> set cs \<longrightarrow> (\<exists>i < length cs. b = Val i)) \<and>
     (\<forall>b \<in> set (fl_pending f). Position_At_End b \<notin> set cs \<and> (\<exists>i < length cs. b = Val i))"
proof (induction cs arbitrary: f rule: rev_induct)
  case Nil
  then show ?case by (auto simp: entered_once_def flow_of_def)
next
  case (snoc c cs)
  from snoc.prems obtain g where g: "flow_of cs = Some g" "flow_step (length cs) c g = Some f"
    by (auto simp: flow_of_snoc bind_eq_Some_conv)
  note IH = snoc.IH [OF g(1)]
  have less: "\<exists>i < Suc (length cs). b = Val i" if "\<exists>i < length cs. b = Val i" for b using that less_SucI by blast
  show ?case
  proof (cases c)
    case (Append_Basic_Block x nm)
    with g(2) have "fl_pending f = Val (length cs) # fl_pending g" by (auto simp: flow_step_def)
    with IH less Append_Basic_Block show ?thesis by (auto simp: entered_once_snoc)
  next
    case (Position_At_End b)
    with g(2) have "b \<in> set (fl_pending g)" "fl_pending f = removeAll b (fl_pending g)"
      by (auto simp: flow_step_def split: if_splits)
    with IH less Position_At_End show ?thesis by (auto simp: entered_once_snoc)
  next
    case Dispose_Builder
    with g(2) have "fl_pending f = []" by (auto simp: flow_step_def split: if_splits)
    with IH less Dispose_Builder show ?thesis by (auto simp: entered_once_snoc)
  qed (use IH less g(2) in \<open>(auto simp: entered_once_snoc flow_step_def split: if_splits option.splits)\<close>)
qed

lemma well_formed_enters_once: "well_formed_blocks cs \<Longrightarrow> entered_once cs"
  using flow_enters_once by (auto simp: well_formed_blocks_def split: option.splits)

subsection \<open>Units\<close>

lemma steady_verify [frame_intros]: "steady (verify_func verify func name)"
  by (auto simp: steady_def verify_func_def cbind_def llvm_def more_calls_def cores_def flags_def rbind_def
      entry_call_def split: if_splits)

text \<open>What follows the entry of a body: a context of its own, opened and closed.\<close>

lemma body_rest:
  assumes "codegen_body verify n self fu func body s = Inr ((), s')"
  obtains rest where "rest (body_start func s) = Inr ((), s')" and "steady rest"
proof -
  define cg where "cg = self\<lparr>cg_builder := True, cg_unit := Some (fu_return_type fu)\<rparr>"
  define rest where "rest = cseq push_context
     (cseq (cmap (codegen_param n cg func) (enumerate 0 (fu_params fu)))
     (cseq (codegen_stmt n cg body)
     (cbind codegen_context_dispose (\<lambda>terminated.
     cseq (cwhen (\<not> terminated)
       (if type_kind (fu_return_type fu) = Void_Type then exec cg Build_Ret_Void
        else derror (''missing return statement at the end of '' @ fu_name fu)))
     (cbind (llvm Dispose_Builder) (\<lambda>_. verify_func verify func (fu_name fu)))))))"
  have "codegen_body verify n self fu func body = cbind (append_block func ''entry'') (\<lambda>block.
     cbind (llvm Create_Builder) (\<lambda>_. cseq (exec cg (Position_At_End block)) rest))"
    by (simp only: codegen_body_def Let_def rest_def cg_def)
  with assms have "rest (body_start func s) = Inr ((), s')"
    by (simp add: bind_runs seq_runs block_runs llvm_runs exec_runs body_start_def)
  moreover have "steady rest" unfolding rest_def
    by (intro steady_push closes_seq closes_dispose frame_intros)
  ultimately show thesis by (rule that)
qed

lemma body_frame:
  assumes "codegen_body verify n self fu func body s = Inr ((), s')"
  shows "more_calls (body_start func s) s'" and "more_calls s s'" and "cores s' = cores s"
    and "entries (cg_calls s') = entries (cg_calls s) @ [func]"
proof -
  obtain rest where rest: "rest (body_start func s) = Inr ((), s')" "steady rest" by (rule body_rest [OF assms])
  then show more: "more_calls (body_start func s) s'" unfolding steady_def by blast
  have "more_calls s (body_start func s)" by (simp add: body_start_def more_calls_def)
  then show "more_calls s s'" using more by (rule more_calls_trans)
  show "cores s' = cores s" "entries (cg_calls s') = entries (cg_calls s) @ [func]"
    using rest unfolding steady_def by (fastforce simp: body_start_def entry_call_def)+
qed

text \<open>The functions whose bodies a unit brings.\<close>

definition unit_entries :: "core list list \<Rightarrow> unit_t \<Rightarrow> lval list" where
  "unit_entries cos u = (case unit_kind u of
     Func_Unit fu \<Rightarrow> if fu_body fu = None then [] else (case find_core cos (fu_name fu) of
         Some (_, _, _, Some func) \<Rightarrow> [func] | _ \<Rightarrow> [])
   | _ \<Rightarrow> [])"

lemma find_symbol_value:
  assumes "find_symbol name s = Inr (Some sy, s')"
  shows "find_core (cores s) name = Some (core sy)"
  using assms unfolding cores_def find_symbol_core
  by (auto simp: find_symbol_def cbind_def cget_def cret_def rbind_def)

lemma define_frame:
  assumes "define_func verify n self fu s = Inr ((), s')"
  shows "more_calls s s' \<and> cores s' = cores s \<and>
    entries (cg_calls s') = entries (cg_calls s) @ unit_entries (cores s) (Unit l (Func_Unit fu))"
proof -
  from assms obtain sy where sy: "find_symbol (fu_name fu) s = Inr (Some sy, s)"
    "(case fu_body fu of None \<Rightarrow> cret () | Some body \<Rightarrow> cbind (value_ptr (cs_value sy)) (\<lambda>func.
      codegen_body verify n self fu func body)) s = Inr ((), s')"
    by (auto simp: define_func_def find_symbol_def cbind_def cget_def cret_def cfail_def rbind_def split: option.splits)
  show ?thesis
  proof (cases "fu_body fu")
    case None
    with sy(2) show ?thesis by (simp add: ret_runs unit_entries_def)
  next
    case (Some body)
    with sy(2) obtain func where "cs_value sy = Some func" "codegen_body verify n self fu func body s = Inr ((), s')"
      by (auto simp: value_ptr_def bind_runs ret_runs fail_runs split: option.splits)
    with find_symbol_value [OF sy(1)] body_frame [OF this(2)] Some show ?thesis
      by (simp add: unit_entries_def core_def)
  qed
qed

lemma unit_frame:
  assumes "codegen_unit verify n self 2 u s = Inr (x, s')"
  shows "more_calls s s' \<and> cores s' = cores s \<and> entries (cg_calls s') = entries (cg_calls s) @ unit_entries (cores s) u"
proof (cases "unit_kind u")
  case (Func_Unit fu)
  with assms have "define_func verify n self fu s = Inr ((), s')" by (simp add: codegen_unit_def cwhen_def)
  from define_frame [OF this, of "unit_loc u"] Func_Unit show ?thesis by (simp add: unit_entries_def)
qed (use assms in \<open>simp_all add: codegen_unit_def cwhen_def ret_runs unit_entries_def\<close>)

subsection \<open>Functions of a module\<close>

text \<open>
  The entry block of the function that a function unit names, in the finished calls: \<open>s\<close> is the
  state in which the code generator comes to the body.
\<close>

definition entry_of :: "call list \<Rightarrow> func_unit \<Rightarrow> nat \<Rightarrow> bool" where
  "entry_of cs fu b \<longleftrightarrow> (\<exists>s sy func. code_in cs s \<and> b = length (cg_calls s) \<and>
     find_symbol (fu_name fu) s = Inr (Some sy, s) \<and> cs_value sy = Some func \<and>
     cs ! b = Append_Basic_Block func ''entry'' \<and> cs ! (b + 2) = Position_At_End (Val b))"

lemma body_entry:
  assumes run: "codegen_body verify n self fu func body s = Inr ((), s')" and code: "code_in cs s'"
  shows "cs ! length (cg_calls s) = Append_Basic_Block func ''entry''"
    and "cs ! (length (cg_calls s) + 2) = Position_At_End (Val (length (cg_calls s)))"
proof -
  have "code_in cs (body_start func s)" by (rule code_before [OF code body_frame(1) [OF run]])
  from code_at [OF this [unfolded body_start_def]] code_at [OF this [unfolded body_start_def, THEN code_add, THEN code_add]]
  show "cs ! length (cg_calls s) = Append_Basic_Block func ''entry''"
    "cs ! (length (cg_calls s) + 2) = Position_At_End (Val (length (cg_calls s)))" by simp_all
qed

text \<open>The third stage compiles the body of every function unit, over the same symbols.\<close>

lemma bodies_compiled:
  assumes run: "cmap (codegen_unit verify n self 2) us w = Inr (ys, s')" 
  shows "more_calls w s' \<and> entries (cg_calls s') = entries (cg_calls w) @ concat (map (unit_entries (cores w)) us) \<and>
    (\<forall>l fu body. Unit l (Func_Unit fu) \<in> set us \<longrightarrow> fu_body fu = Some body \<longrightarrow>
      (\<exists>t sy func t'. codegen_body verify n self fu func body t = Inr ((), t') \<and>
        find_symbol (fu_name fu) t = Inr (Some sy, t) \<and> cs_value sy = Some func \<and> cores t = cores w \<and> more_calls t' s'))"
  using run
proof (induction us arbitrary: w ys)
  case Nil
  then show ?case by (simp add: ret_runs)
next
  case (Cons u us)
  from Cons.prems obtain y t ys' where t: "codegen_unit verify n self 2 u w = Inr (y, t)"
    "cmap (codegen_unit verify n self 2) us t = Inr (ys', s')" by (auto simp: bind_runs ret_runs)
  note f = unit_frame [OF t(1)]
  note IH = Cons.IH [OF t(2)]
  have head: "\<exists>t sy func t'. codegen_body verify n self fu func body t = Inr ((), t') \<and>
      find_symbol (fu_name fu) t = Inr (Some sy, t) \<and> cs_value sy = Some func \<and> cores t = cores w \<and> more_calls t' s'"
    if u: "u = Unit l (Func_Unit fu)" and body: "fu_body fu = Some body" for l fu body
  proof -
    from t(1) u have "define_func verify n self fu w = Inr ((), t)" by (simp add: codegen_unit_def cwhen_def)
    then obtain sy func where "find_symbol (fu_name fu) w = Inr (Some sy, w)" "cs_value sy = Some func"
      "codegen_body verify n self fu func body w = Inr ((), t)"
      using body by (auto simp: define_func_def find_symbol_def value_ptr_def bind_runs ret_runs fail_runs cget_def
          split: option.splits if_splits)
    with IH show ?thesis by blast
  qed
  from IH f have "more_calls w s'" by (blast intro: more_calls_trans)
  moreover have "entries (cg_calls s') = entries (cg_calls w) @ concat (map (unit_entries (cores w)) (u # us))"
    using IH f by simp
  ultimately show ?case using IH f head by (metis set_ConsD)
qed

lemma codegen_stages:
  assumes "codegen verify n self us s = Inr ((), s')"
  obtains package w ys where "codegen_package None us = Inr package"
    and "codegen_decls verify n (self\<lparr>cg_package := package\<rparr>) us s = Inr ((), w)"
    and "cmap (codegen_unit verify n (self\<lparr>cg_package := package\<rparr>) 2) us w = Inr (ys, s')"
  using assms by (auto simp: codegen_def codegen_defs_def codegen_stage_def Let_def bind_runs seq_runs lift_runs ret_runs)

text \<open>A compiled module enters its blocks once.\<close>

lemma compiled_module:
  assumes "compile results n (new_codegen (CHR 0x00 # rest)) read_units name = Inr (Some cs)"
    and "read_units name = Inr (Some us)" and "list_all tidy_unit us"
  obtains s w where "generate_module results n (new_codegen (CHR 0x00 # rest)) read_units name us new_cg_state = Inr ((), s)"
    and "codegen (lr_verify_function results) n (new_codegen (CHR 0x00 # rest)) us w = Inr ((), s)"
    and "cs = cg_calls s" and "entered_once cs"
proof -
  let ?cg = "new_codegen (CHR 0x00 # rest)"
  have "jump_blocks ?cg = {}" "\<not> cg_builder ?cg" by (simp_all add: jump_blocks_def new_codegen_def)
  then have wf: "hoare (at {} {} False [False]) (generate_module results n ?cg read_units name us) (\<lambda>_. at {} {} False [False])"
    unfolding generate_module_def by (intro hoare_quiet quiet_imports keeps_declarations codegen_flow assms(3))
  from assms(1,2) obtain s where s: "generate_module results n ?cg read_units name us new_cg_state = Inr ((), s)" "cs = cg_calls s"
    by (auto simp: compile_def rbind_Inr_conv split: if_splits)
  have "entered_once cs"
    using hoareD [OF wf at_new_state s(1)] well_formed_enters_once [OF well_formed_at] s(2) by simp
  moreover from s(1) obtain w where "codegen (lr_verify_function results) n ?cg us w = Inr ((), s)"
    by (auto simp: generate_module_def bind_runs)
  ultimately show thesis using that s by blast
qed

lemma no_funs_agrees: "documented ar \<Longrightarrow> agrees no_funs ar" "knows no_funs cos"
  by (simp_all add: agrees_def calls_ok_def knows_def no_funs_def)

text \<open>The code of the function, from its entry block.\<close>

lemma function_computes:
  assumes ar: "documented ar"
    and "compile results n (new_codegen (CHR 0x00 # rest)) read_units name = Inr (Some cs)"
    and "read_units name = Inr (Some us)" and "list_all tidy_unit us"
    and u: "Unit l (Func_Unit fu) \<in> set us" "fu_body fu = Some body"
  shows "\<exists>b. entry_of cs fu b \<and> (\<forall>k xs v. arguments_ok fu xs \<longrightarrow> call_value no_funs k fu body xs = Some v \<longrightarrow>
    (\<exists>m. runs ar cs (arguments fu xs) (start_at (b + 2) (Val b)) m \<and>
       returning ar cs m (map_option (rep (fu_return_type fu)) v)))"
proof (rule compiled_module [OF assms(2-4)])
  let ?cg = "new_codegen (CHR 0x00 # rest)"
  fix s w0
  assume run: "codegen (lr_verify_function results) n ?cg us w0 = Inr ((), s)" and cs: "cs = cg_calls s" and once: "entered_once cs"
  obtain package w ys where "cmap (codegen_unit (lr_verify_function results) n (?cg\<lparr>cg_package := package\<rparr>) 2) us w = Inr (ys, s)"
    by (rule codegen_stages [OF run])
  with u bodies_compiled obtain t sy func t' where
    body: "codegen_body (lr_verify_function results) n (?cg\<lparr>cg_package := package\<rparr>) fu func body t = Inr ((), t')"
    and sy: "find_symbol (fu_name fu) t = Inr (Some sy, t)" "cs_value sy = Some func" and more: "more_calls t' s"
    by blast
  have c': "code_in cs t'" using more cs by (auto simp: code_in_def more_calls_def)
  have "code_in cs t" by (rule code_before [OF c' body_frame(2) [OF body]])
  with sy body_entry [OF body c'] have "entry_of cs fu (length (cg_calls t))" unfolding entry_of_def by blast
  moreover have "\<exists>m. runs ar cs (arguments fu xs) (start_at (length (cg_calls t) + 2) (Val (length (cg_calls t)))) m \<and>
     returning ar cs m (map_option (rep (fu_return_type fu)) v)"
    if "arguments_ok fu xs" "call_value no_funs k fu body xs = Some v" for k xs v
    by (rule body_computes(1) [OF no_funs_agrees(1) [OF ar] once _ _ _ no_funs_agrees(2) body c' that]) (simp_all add: new_codegen_def)
  ultimately show ?thesis by blast
qed

end
