(* ===== verification/Code_Props.thy ===== *)
theory Code_Props
  imports Compile_Correct
begin

section \<open>Properties of the generated code when it is run\<close>

subsection \<open>Results\<close>

text \<open>The result of at most \<open>k\<close> steps up to a return. A machine has no two results.\<close>

definition result_at :: "arith \<Rightarrow> call list \<Rightarrow> machine \<Rightarrow> mval option option" where
  "result_at ar cs m = (if length cs \<le> m_pc m then None else case cs ! m_pc m of
     Build_Ret v \<Rightarrow> map_option Some (operand ar (m_regs m) v)
   | Build_Ret_Void \<Rightarrow> Some None
   | _ \<Rightarrow> None)"

lemma returning_result: "returning ar cs m r \<longleftrightarrow> result_at ar cs m = Some r"
  by (auto simp: returning_def result_at_def split: call.split)

fun run_result :: "nat \<Rightarrow> arith \<Rightarrow> call list \<Rightarrow> mval list \<Rightarrow> machine \<Rightarrow> mval option option" where
  "run_result 0 ar cs ps m = None"
| "run_result (Suc k) ar cs ps m = (case result_at ar cs m of
     Some r \<Rightarrow> Some r
   | None \<Rightarrow> Option.bind (mstep ar cs ps m) (run_result k ar cs ps))"

lemma run_result_runs: "run_result k ar cs ps m = Some r \<Longrightarrow> \<exists>m'. runs ar cs ps m m' \<and> returning ar cs m' r"
proof (induction k arbitrary: m)
  case (Suc k)
  show ?case
  proof (cases "result_at ar cs m")
    case None
    with Suc obtain m1 where "mstep ar cs ps m = Some m1" "run_result k ar cs ps m1 = Some r"
      by (auto simp: bind_eq_Some_conv)
    with Suc.IH runs_step show ?thesis by blast
  next
    case (Some r')
    with Suc.prems show ?thesis by (intro exI [of _ m]) (simp add: returning_result)
  qed
qed simp

lemma returning_stops: "returning ar cs m r \<Longrightarrow> mstep ar cs ps m = None"
  by (auto simp: returning_def mstep_def Let_def split: call.splits)

lemma returning_unique: "returning ar cs m r \<Longrightarrow> returning ar cs m r' \<Longrightarrow> r = r'"
  by (simp add: returning_result)

lemma result_unique:
  assumes "runs ar cs ps m m1" and "returning ar cs m1 r1" and "runs ar cs ps m m2" and "returning ar cs m2 r2"
  shows "r1 = r2"
  using assms(1) [unfolded runs_def] assms(2-)
proof (induction rule: converse_rtranclp_induct)
  case base
  from base(2) have "m1 = m2" unfolding runs_def
    by (rule converse_rtranclpE) (use returning_stops [OF base(1), of ps] in simp_all)
  with base show ?case using returning_unique by blast
next
  case (step x y)
  from step.prems(2) have "runs ar cs ps y m2" unfolding runs_def
    by (rule converse_rtranclpE) (use step.hyps(1) step.prems returning_stops in fastforce)+
  with step show ?case by blast
qed

definition run_returns :: "arith \<Rightarrow> call list \<Rightarrow> mval list \<Rightarrow> machine \<Rightarrow> mval option \<Rightarrow> bool" where
  "run_returns ar cs ps m r \<longleftrightarrow> (\<exists>m'. runs ar cs ps m m' \<and> returning ar cs m' r) \<and>
     (\<forall>m' r'. runs ar cs ps m m' \<longrightarrow> returning ar cs m' r' \<longrightarrow> r' = r)"

lemma run_returnsI: "runs ar cs ps m m' \<Longrightarrow> returning ar cs m' r \<Longrightarrow> run_returns ar cs ps m r"
  unfolding run_returns_def using result_unique by blast

subsection \<open>Functions\<close>

text \<open>The function of the sample, and its arguments and results.\<close>

definition sample_body :: stmt where
  "sample_body = Stmt at_sample (Compound_Stmt [
     Decl_Item (Decl at_sample (Variable_Decl int32 ''i'' (Some (sample_expr (Number_Literal_Expr ''0'' 10))))),
     Stmt_Item (Some (Stmt at_sample sample_loop)),
     Stmt_Item (Some (Stmt at_sample (Return_Stmt (Some (sample_expr (Ident_Expr ''i'')))))) ])"

definition sample_unit :: func_unit where
  "sample_unit = \<lparr>fu_return_type = int32, fu_name = ''f'', fu_body = Some sample_body,
     fu_params = [\<lparr>param_type = int32, param_name = Some ''n''\<rparr>], fu_variadic = False, fu_type = Type 0 No_Type\<rparr>"

lemma sample_units_unit: "sample_units = [Unit at_sample (Func_Unit sample_unit)]"
  by (simp add: sample_units_def sample_func_def sample_unit_def sample_body_def)

lemma sample_value: "call_value no_funs 20 sample_unit sample_body [3] = Some (Some 3)"
  by code_simp

text \<open>
  C3: the code of a compiled function computes what the function is to return. Take a module that the
  compiler has generated, in which nothing follows a statement that jumps away and no loop body ends
  with one, and a function of it whose execution on some arguments, in the reference semantics of statements over integers and
  booleans, returns a value. The generated code of the function, run from its entry block with these
  arguments by a machine whose arithmetic is as LLVM documents it, comes to a return with this
  value, and to no other one: declarations, scopes, all operators, conditionals, loops with
  \<open>break\<close> and \<open>continue\<close>, and returns are compiled to what they mean. The calls of the semantics
  are left out here (\<open>no_funs\<close>). The byte after the buffer of a number literal, which the code leaves
  undefined, is taken to be NUL; the radix of a literal is one LLVM reads.
\<close>

theorem compiled_functions_correct:
  assumes "documented ar"
    and "compile results n (new_codegen (CHR 0x00 # rest)) read_units name = Inr (Some cs)"
    and "read_units name = Inr (Some us)" and "list_all tidy_unit us"
    and "Unit l (Func_Unit fu) \<in> set us" and "fu_body fu = Some body"
  shows "\<exists>b. entry_of cs fu b \<and> (\<forall>k xs v. arguments_ok fu xs \<longrightarrow> call_value no_funs k fu body xs = Some v \<longrightarrow>
    run_returns ar cs (arguments fu xs) (start_at (b + 2) (Val b)) (map_option (rep (fu_return_type fu)) v))"
proof -
  obtain b where b: "entry_of cs fu b" "\<forall>k xs v. arguments_ok fu xs \<longrightarrow> call_value no_funs k fu body xs = Some v \<longrightarrow>
    (\<exists>m. runs ar cs (arguments fu xs) (start_at (b + 2) (Val b)) m \<and>
       returning ar cs m (map_option (rep (fu_return_type fu)) v))"
    using function_computes [OF assms] by blast
  then show ?thesis using run_returnsI by blast
qed

theorem compiled_functions_correct_witness:
  "\<exists>cs b. compile lenient_llvm 12 (new_codegen [CHR 0x00]) (\<lambda>name. Inr (Some sample_units)) ''a.low'' = Inr (Some cs) \<and>
     entry_of cs sample_unit b \<and> run_returns standard cs [Int_Val 32 3] (start_at (b + 2) (Val b)) (Some (Int_Val 32 3))"
proof -
  obtain cs where cs: "compile lenient_llvm 12 (new_codegen [CHR 0x00]) (\<lambda>name. Inr (Some sample_units)) ''a.low'' = Inr (Some cs)"
    using sample_compiles by blast
  have tidy: "list_all tidy_unit sample_units" by (simp add: sample_defs tidy_unit_def)
  have "Unit at_sample (Func_Unit sample_unit) \<in> set sample_units" "fu_body sample_unit = Some sample_body"
    by (simp_all add: sample_units_unit sample_unit_def)
  from compiled_functions_correct [OF standard_documented cs refl tidy this]
  obtain b where b: "entry_of cs sample_unit b"
    "\<forall>k xs v. arguments_ok sample_unit xs \<longrightarrow> call_value no_funs k sample_unit sample_body xs = Some v \<longrightarrow>
      run_returns standard cs (arguments sample_unit xs) (start_at (b + 2) (Val b)) (map_option (rep (fu_return_type sample_unit)) v)"
    by blast
  moreover have "arguments_ok sample_unit [3]" by (simp add: arguments_ok_def sample_unit_def int32_def signed_bits_def)
  moreover have "arguments sample_unit [3] = [Int_Val 32 3]" "rep (fu_return_type sample_unit) 3 = Int_Val 32 3"
    by (simp_all add: arguments_def sample_unit_def int32_def rep_def)
  ultimately show ?thesis using cs sample_value by (metis option.simps(9))
qed

subsection \<open>Expressions\<close>

text \<open>
  C4: the code of an expression computes its value. In any module that enters each block once, the
  code generated for an expression that has a value in the reference semantics runs to its end;
  the operand it is said to be in then holds the value, at the width of its type, and the cells of the
  variables hold what the expression has assigned to them. A call gives what the functions \<open>F\<close> of the
  semantics say, when the calls of the machine do (\<open>agrees\<close>). The byte after the buffer of a number
  literal is taken to be NUL.
\<close>

theorem expression_code_correct:
  assumes "agrees F ar" and "entered_once cs" and "cg_after self = CHR 0x00 # rest"
    and "elab F env e h = Some e'" and "eval F e' env = Some (x, env')"
    and "codegen_expr_top n self False e h s = Inr ((e2, v), s')" and "code_in cs s'"
    and "env_rel F (length (cg_calls s)) (cores s) env m" and "m_pc m = length (cg_calls s)"
  shows "e2 = e' \<and> (\<exists>m'. runs ar cs ps m m' \<and> m_pc m' = length (cg_calls s') \<and>
    operand ar (m_regs m') v = Some (rep (expr_type e') x) \<and> env_rel F (length (cg_calls s')) (cores s') env' m')"
  by (rule top_computes [OF assms, of ps]) (auto simp: reached_def)

text \<open>The expression \<open>i++ * 2\<close>, where \<open>i\<close> is 5.\<close>

definition sample_product :: expr where
  "sample_product = sample_expr (Binary_Expr (sample_expr (Incdec_Expr (sample_expr (Ident_Expr ''i'')) Order_Post Dir_Inc))
     (sample_expr (Number_Literal_Expr ''2'' 10)) Op_Mul)"

definition typed_product :: expr where
  "typed_product = Expr at_sample int32 (Binary_Expr
     (Expr at_sample int32 (Incdec_Expr (Expr at_sample int32 (Ident_Expr ''i'')) Order_Post Dir_Inc))
     (Expr at_sample int32 (Number_Literal_Expr ''2'' 10)) Op_Mul)"

definition product_state :: "call list \<Rightarrow> cg_state" where
  "product_state cs = \<lparr>cg_calls = Build_Alloca (Ty_Int 32) ''i'' # cs,
     cg_contexts = [codegen_context_init\<lparr>cc_symbols := [variable_symbol (Some ''i'') int32 None (Val 0)]\<rparr>]\<rparr>"

definition product_calls :: "call list" where
  "product_calls = [Build_Load (Val 0) [], Build_Binary I_Add (Val 1) (Const_Int (Ty_Int 32) 1) [],
     Build_Store (Val 2) (Val 0), Build_Binary I_Mul (Val 1) (Const_Int_Of_String (Ty_Int 32) ''2'' 10) []]"

definition product_self :: codegen_t where
  "product_self = (new_codegen [CHR 0x00])\<lparr>cg_builder := True\<rparr>"

lemma product_runs:
  "codegen_expr_top 5 product_self False sample_product None (product_state []) = Inr ((typed_product, Val 4), product_state product_calls)"
  "elab no_funs [[Var (Some ''i'') int32 (Some 5)]] sample_product None = Some typed_product"
  "eval no_funs typed_product [[Var (Some ''i'') int32 (Some 5)]] = Some (10, [[Var (Some ''i'') int32 (Some 6)]])"
  by code_simp+

theorem expression_code_correct_witness:
  "\<exists>m'. runs standard (cg_calls (product_state product_calls)) []
       \<lparr>m_pc = 1, m_block = Val 0, m_from = None, m_regs = [0 \<mapsto> Ptr_Val 0], m_mem = [0 \<mapsto> Int_Val 32 5]\<rparr> m' \<and>
     m_pc m' = 5 \<and> operand standard (m_regs m') (Val 4) = Some (Int_Val 32 10) \<and> m_mem m' 0 = Some (Int_Val 32 6)"
proof -
  let ?env = "[[Var (Some ''i'') int32 (Some 5)]]" and ?env' = "[[Var (Some ''i'') int32 (Some 6)]]"
  let ?m = "\<lparr>m_pc = 1, m_block = Val 0, m_from = None, m_regs = [0 \<mapsto> Ptr_Val 0], m_mem = [0 \<mapsto> Int_Val 32 5]\<rparr>"
  have cores: "cores (product_state cs) = [[(Invalid_Symbol, Some ''i'', Some int32, Some (Val 0))]]" for cs
    by (simp add: cores_def product_state_def core_def variable_symbol_def no_symbol_def)
  have cell: "cell_at [[(Invalid_Symbol, Some ''i'', Some int32, Some (Val 0))]] (0, 0) = 0" by (simp add: cell_at_def cell_def)
  have once: "entered_once (cg_calls (product_state product_calls))"
    by (auto simp: entered_once_def product_state_def product_calls_def nth_Cons split: nat.splits)
  have len: "length (cg_calls (product_state [])) = 1" by (simp add: product_state_def)
  have "matches no_funs ?env (cores (product_state []))"
    unfolding matches_def by (intro exI [of _ "cores (product_state [])"] exI [of _ "[]"]) (simp add: cores no_funs_agrees)
  then have rel: "env_rel no_funs (length (cg_calls (product_state []))) (cores (product_state [])) ?env ?m"
    by (auto simp: env_rel_def cores valid_def cell holds_def var_at_def len rep_def) (simp_all add: int32_def signed_bits_def)
  have "code_in (cg_calls (product_state product_calls)) (product_state product_calls)" by (simp add: code_in_def)
  from expression_code_correct [OF no_funs_agrees(1) [OF standard_documented] once _ product_runs(2,3,1) this rel, where ps = "[]"]
  obtain m' where m': "runs standard (cg_calls (product_state product_calls)) [] ?m m'"
    "m_pc m' = length (cg_calls (product_state product_calls))"
    "operand standard (m_regs m') (Val 4) = Some (rep (expr_type typed_product) 10)"
    "env_rel no_funs (length (cg_calls (product_state product_calls))) (cores (product_state product_calls)) ?env' m'"
    by (auto simp: product_self_def new_codegen_def product_state_def)
  from m'(4) have "holds m' 0 (Var (Some ''i'') int32 (Some 6))"
    by (auto simp: env_rel_def cores valid_def cell var_at_def)
  with m' show ?thesis
    by (intro exI [of _ m']) (simp add: holds_def rep_def int32_def typed_product_def product_state_def product_calls_def)
qed

subsection \<open>Division\<close>

text \<open>The function \<open>func f(n int32, d int32) int32 { n /= d; return n; }\<close>.\<close>

definition dividing :: func_unit where
  "dividing = \<lparr>fu_return_type = int32, fu_name = ''f'', fu_body = Some (sample_block [
       Expr_Stmt (sample_expr (Assignment_Expr (sample_expr (Ident_Expr ''n'')) (sample_expr (Ident_Expr ''d'')) Div_Assign)),
       Return_Stmt (Some (sample_expr (Ident_Expr ''n'')))]),
     fu_params = [\<lparr>param_type = int32, param_name = Some ''n''\<rparr>, \<lparr>param_type = int32, param_name = Some ''d''\<rparr>],
     fu_variadic = False, fu_type = Type 0 No_Type\<rparr>"

definition dividing_calls :: "call list" where
  "dividing_calls = [Add_Function ''f'' (Ty_Function (Ty_Int 32) [Ty_Int 32, Ty_Int 32] False),
     Append_Basic_Block (Val 0) ''entry'', Create_Builder, Position_At_End (Val 1), Get_Param (Val 0) 0,
     Set_Value_Name (Val 4) ''n'', Build_Alloca (Ty_Int 32) [], Build_Store (Val 4) (Val 6), Get_Param (Val 0) 1,
     Set_Value_Name (Val 8) ''d'', Build_Alloca (Ty_Int 32) [], Build_Store (Val 8) (Val 10), Build_Load (Val 10) [],
     Build_Load (Val 6) [], Build_Binary I_UDiv (Val 13) (Val 12) [], Build_Store (Val 14) (Val 6),
     Build_Load (Val 6) [], Build_Ret (Val 16), Dispose_Builder, Verify_Function (Val 0)]"

lemma dividing_compiles:
  "compile lenient_llvm 12 (new_codegen [CHR 0x00]) (\<lambda>name. Inr (Some [Unit at_sample (Func_Unit dividing)])) ''a.low'' =
     Inr (Some dividing_calls)"
  by code_simp

lemma dividing_runs:
  assumes "ar_binary ar I_UDiv 32 x y = Some z"
  shows "run_result 14 ar dividing_calls [Int_Val 32 x, Int_Val 32 y] (start_at 3 (Val 1)) = Some (Some (Int_Val 32 z))"
proof -
  have "run_result (Suc (Suc (Suc (Suc (Suc (Suc (Suc (Suc (Suc (Suc (Suc (Suc (Suc (Suc 0)))))))))))))) ar dividing_calls
      [Int_Val 32 x, Int_Val 32 y] (start_at 3 (Val 1)) = Some (Some (Int_Val 32 z))"
    using assms
    by (simp add: dividing_calls_def start_at_def mstep_def result_at_def put_def next_call_def binary_step_def)
  then show ?thesis by (simp only: eval_nat_numeral BitM.simps)
qed

lemma unsigned_quotient:
  assumes "- (2 ^ 31) \<le> n" "n < 0" "1 < d" "d < (2::int) ^ 31"
  shows "1 \<le> (n mod 2 ^ 32) div d" and "(n mod 2 ^ 32) div d < 2 ^ 31"
    and "- (2 ^ 31) \<le> n sdiv d" and "n sdiv d \<le> 0"
proof -
  have "(n + 2 ^ 32) mod 2 ^ 32 = n + 2 ^ 32" using assms by (intro mod_pos_pos_trivial) simp_all
  then have m: "n mod 2 ^ 32 = n + 2 ^ 32" by simp
  have "0 < (n + 2 ^ 32) div d" using assms by (subst pos_imp_zdiv_pos_iff) simp_all
  then show "1 \<le> (n mod 2 ^ 32) div d" using m by simp
  have "(n + 2 ^ 32) div d \<le> (n + 2 ^ 32) div 2" using assms by (intro zdiv_mono2) simp_all
  also have "\<dots> < 2 ^ 31" using assms by simp
  finally show "(n mod 2 ^ 32) div d < 2 ^ 31" using m by simp
  have s: "n sdiv d = - ((- n) div d)" using assms by (simp add: signed_divide_int_def)
  have "(- n) div d \<le> (- n) div 1" using assms by (intro zdiv_mono2) simp_all
  moreover have "0 \<le> (- n) div d" using assms by (intro pos_imp_zdiv_nonneg_iff [THEN iffD2]) simp_all
  ultimately show "- (2 ^ 31) \<le> n sdiv d" "n sdiv d \<le> 0" using assms s by simp_all
qed

text \<open>
  C33: the compound assignment \<open>n /= d\<close> does not divide as \<open>n / d\<close> does: its code divides without signs.
  For every negative \<open>n\<close> and every \<open>d\<close> above 1 (of 32 bits), and any arithmetic that is as documented,
  the compiled function returns the quotient of the bits of \<open>n\<close>, read as an unsigned number, which
  is never the quotient that \<open>n / d\<close> stands for.
\<close>

theorem division_assignment_unsigned:
  assumes "documented ar" and "- (2 ^ 31) \<le> n" and "n < 0" and "1 < d" and "d < 2 ^ 31"
  shows "\<exists>cs q. compile lenient_llvm 12 (new_codegen [CHR 0x00]) (\<lambda>name. Inr (Some [Unit at_sample (Func_Unit dividing)])) ''a.low'' =
     Inr (Some cs) \<and> run_returns ar cs (arguments dividing [n, d]) (start_at 3 (Val 1)) (Some (Int_Val 32 ((n mod 2 ^ 32) div d))) \<and>
     binary_value int32 Op_Div n d = Some q \<and> rep int32 q \<noteq> Int_Val 32 ((n mod 2 ^ 32) div d)"
proof -
  note q = unsigned_quotient [OF assms(2-5)]
  have t: "take_bit 32 n = n mod 2 ^ 32" "take_bit 32 d = d" using assms(4,5) by (simp_all add: take_bit_int_eq_self take_bit_eq_mod)
  have "0 \<le> take_bit 32 n" "take_bit 32 n < 2 ^ 32" by (simp_all only: take_bit_nonnegative take_bit_int_less_exp)
  then have "ar_binary ar I_UDiv 32 (take_bit 32 n) d = Some (take_bit 32 n div d)"
    using assms(1,4,5) unfolding documented_def binary_documented_def by (auto dest: spec [of _ "32::nat"])
  from dividing_runs [OF this] have "run_result 14 ar dividing_calls (arguments dividing [n, d]) (start_at 3 (Val 1)) =
      Some (Some (Int_Val 32 ((n mod 2 ^ 32) div d)))"
    using t by (simp add: arguments_def dividing_def rep_def int32_def)
  from run_result_runs [OF this] have "run_returns ar dividing_calls (arguments dividing [n, d]) (start_at 3 (Val 1))
      (Some (Int_Val 32 ((n mod 2 ^ 32) div d)))" using run_returnsI by blast
  moreover have "binary_value int32 Op_Div n d = Some (wrap int32 (n sdiv d))"
    using assms(4) by (simp add: binary_value_def integer_value_def is_integer_def int32_def division_defined_def comparing_def)
  moreover have "rep int32 (wrap int32 (n sdiv d)) \<noteq> Int_Val 32 ((n mod 2 ^ 32) div d)"
  proof -
    have "take_bit 32 (signed_bits 32 (n sdiv d)) = (n sdiv d) mod 2 ^ 32"
      using take_bit_signed_take_bit [of 32 31 "n sdiv d"] unfolding signed_bits_def by (simp add: take_bit_eq_mod)
    moreover have "(n sdiv d) mod 2 ^ 32 \<noteq> (n mod 2 ^ 32) div d"
    proof (cases "n sdiv d = 0")
      case False
      then have "(n sdiv d + 2 ^ 32) mod 2 ^ 32 = n sdiv d + 2 ^ 32" using q(3,4) by (intro mod_pos_pos_trivial) simp_all
      then have "(n sdiv d) mod 2 ^ 32 = n sdiv d + 2 ^ 32" by simp
      with q(2,3) show ?thesis by simp
    qed (use q(1) in simp)
    ultimately show ?thesis by (simp add: rep_def int32_def)
  qed
  ultimately show ?thesis using dividing_compiles by blast
qed

theorem division_assignment_unsigned_witness:
  "\<exists>cs. compile lenient_llvm 12 (new_codegen [CHR 0x00]) (\<lambda>name. Inr (Some [Unit at_sample (Func_Unit dividing)])) ''a.low'' =
     Inr (Some cs) \<and> run_returns standard cs (arguments dividing [-6, 2]) (start_at 3 (Val 1)) (Some (Int_Val 32 2147483645))"
  using division_assignment_unsigned [OF standard_documented, of "-6" 2] by auto

end
