(* ===== verification/Programs.thy ===== *)
theory Programs
  imports Code_Props
begin

section \<open>Programs of functions that call each other\<close>

text \<open>
  The reference semantics of a file of functions, and the machine that runs the generated code of a
  file with the calls of functions in it. In both a number bounds the depth of the calls and, in each
  of them, the steps.
\<close>

subsection \<open>The reference semantics of a file\<close>

definition funcs :: "unit_t list \<Rightarrow> func_unit list" where
  "funcs us = List.map_filter (\<lambda>u. case unit_kind u of Func_Unit fu \<Rightarrow> Some fu | _ \<Rightarrow> None) us"

definition find_function :: "unit_t list \<Rightarrow> string \<Rightarrow> func_unit option" where
  "find_function us name = find (\<lambda>fu. fu_name fu = name) (funcs us)"

text \<open>The functions are declared to LLVM in their order, before any other call.\<close>

definition address_in :: "func_unit list \<Rightarrow> string \<Rightarrow> nat" where
  "address_in fus name = length (takeWhile (\<lambda>fu. fu_name fu \<noteq> name) fus)"

definition function_sig :: "func_unit \<Rightarrow> string \<times> type_t \<times> type_t list" where
  "function_sig fu = (fu_name fu, fu_return_type fu, map param_type (fu_params fu))"

definition file_funs :: "unit_t list \<Rightarrow> (string \<Rightarrow> int list \<Rightarrow> int option option) \<Rightarrow> funs" where
  "file_funs us val = \<lparr>fn_sigs = map function_sig (funcs us), fn_value = (\<lambda>name xs. Option.bind (val name xs) id),
     fn_address = address_in (funcs us)\<rparr>"

text \<open>What a function of the file returns, with calls that are at most \<open>d\<close> deep.\<close>

primrec program_value :: "nat \<Rightarrow> unit_t list \<Rightarrow> string \<Rightarrow> int list \<Rightarrow> int option option" where
  "program_value 0 us name xs = None"
| "program_value (Suc d) us name xs = Option.bind (find_function us name) (\<lambda>fu. Option.bind (fu_body fu) (\<lambda>body.
     if arguments_ok fu xs then call_value (file_funs us (program_value d us)) d fu body xs else None))"

subsection \<open>Running calls\<close>

text \<open>A function is entered at its block \<open>entry\<close>, with registers and variables of its own.\<close>

fun entry_from :: "nat \<Rightarrow> call list \<Rightarrow> lval \<Rightarrow> nat option" where
  "entry_from i [] f = None"
| "entry_from i (c # cs) f = (if entry_call c = Some f then Some i else entry_from (Suc i) cs f)"

definition calling :: "(nat \<Rightarrow> mval list \<Rightarrow> mval option option) \<Rightarrow> arith \<Rightarrow> arith" where
  "calling f ar = ar\<lparr>ar_call := \<lambda>g qs. Option.bind (f g qs) id\<rparr>"

primrec call_result :: "nat \<Rightarrow> arith \<Rightarrow> call list \<Rightarrow> nat \<Rightarrow> mval list \<Rightarrow> mval option option" where
  "call_result 0 ar cs f ps = None"
| "call_result (Suc d) ar cs f ps = Option.bind (entry_from 0 cs (Val f)) (\<lambda>b. Option.bind (label_of cs (Val b)) (\<lambda>p.
     run_result d (calling (call_result d ar cs) ar) cs ps (start_at p (Val b))))"

subsection \<open>More steps, same results\<close>

lemma operand_call [simp]:
  "operand (ar\<lparr>ar_call := c\<rparr>) regs v = operand ar regs v" "width_in (ar\<lparr>ar_call := c\<rparr>) regs t = width_in ar regs t"
  by (induction ar regs v and ar regs t rule: operand_width_in.induct) simp_all

lemma operand_calling [simp]:
  "operand (calling f ar) = operand ar" "width_in (calling f ar) = width_in ar" "ar_binary (calling f ar) = ar_binary ar"
  "ar_compare (calling f ar) = ar_compare ar" "ar_call (calling f ar) g qs = Option.bind (f g qs) id"
  by (simp_all add: calling_def fun_eq_iff)

lemma step_calling [simp]:
  "binary_step (calling f ar) i a b = binary_step ar i a b" "compare_step (calling f ar) p a b = compare_step ar p a b"
  "unary_step (calling f ar) j a = unary_step ar j a"
  by (simp_all add: binary_step_def compare_step_def unary_step_def split: option.split mval.split unary_inst.split)

lemma result_at_calling [simp]: "result_at (calling f ar) cs m = result_at ar cs m"
  by (simp add: result_at_def split: call.split)

lemma documented_calling [simp]: "documented (calling f ar) \<longleftrightarrow> documented ar"
  by (simp add: documented_def calling_def)

text \<open>\<open>g\<close> knows the results that \<open>f\<close> knows.\<close>

definition extends :: "(nat \<Rightarrow> mval list \<Rightarrow> 'a option) \<Rightarrow> (nat \<Rightarrow> mval list \<Rightarrow> 'a option) \<Rightarrow> bool" where
  "extends f g \<longleftrightarrow> (\<forall>k qs r. f k qs = Some r \<longrightarrow> g k qs = Some r)"

text \<open>Only the call of a function looks at what calls return.\<close>

definition calls_at :: "call list \<Rightarrow> machine \<Rightarrow> bool" where
  "calls_at cs m \<longleftrightarrow> (\<exists>k args s. cs ! m_pc m = Build_Call (Val k) args s)"

lemma mstep_call:
  "cs ! m_pc m = Build_Call (Val k) args s \<Longrightarrow> mstep ar cs ps m = Some m' \<longleftrightarrow>
     m_pc m < length cs \<and> (\<exists>xs v. those (map (operand ar (m_regs m)) args) = Some xs \<and> ar_call ar k xs = Some v \<and> m' = put v m)"
  by (auto simp: mstep_def Let_def split: option.splits)

lemma mstep_other: "\<not> calls_at cs m \<Longrightarrow> mstep (calling f ar) cs ps m = mstep (calling g ar) cs ps m"
  by (cases "cs ! m_pc m")
    (auto simp: calls_at_def mstep_def Let_def split: lval.split)

lemma mstep_extends:
  assumes "extends f g" and "mstep (calling f ar) cs ps m = Some m'"
  shows "mstep (calling g ar) cs ps m = Some m'"
proof (cases "calls_at cs m")
  case True
  then obtain k args s where "cs ! m_pc m = Build_Call (Val k) args s" unfolding calls_at_def by blast
  note call = mstep_call [OF this]
  from assms show ?thesis unfolding call by (auto simp: extends_def bind_eq_Some_conv)
next
  case False
  from mstep_other [OF this, of g ar ps f] assms(2) show ?thesis by simp
qed

lemma run_result_extends:
  "extends f g \<Longrightarrow> run_result k (calling f ar) cs ps m = Some r \<Longrightarrow> k \<le> k' \<Longrightarrow> run_result k' (calling g ar) cs ps m = Some r"
proof (induction k arbitrary: k' m)
  case (Suc k)
  then obtain j where k': "k' = Suc j" "k \<le> j" by (cases k') auto
  with Suc show ?case by (auto simp: bind_eq_Some_conv dest: mstep_extends split: option.splits)
qed simp

lemma call_result_extends: "d \<le> d' \<Longrightarrow> extends (call_result d ar cs) (call_result d' ar cs)"
proof (induction d arbitrary: d')
  case 0
  then show ?case by (simp add: extends_def)
next
  case (Suc d)
  then obtain j where d': "d' = Suc j" "d \<le> j" by (cases d') auto
  show ?case unfolding d'(1) extends_def
    using run_result_extends [OF Suc.IH [OF d'(2)] _ d'(2)] by (auto simp: bind_eq_Some_conv)
qed

lemma call_result_more: "call_result d ar cs f ps = Some r \<Longrightarrow> d \<le> d' \<Longrightarrow> call_result d' ar cs f ps = Some r"
  using call_result_extends unfolding extends_def by blast

subsection \<open>Calls without a bound\<close>

text \<open>What calls return when their depth and their steps have no bound: used in proofs only.\<close>

definition limit_result :: "arith \<Rightarrow> call list \<Rightarrow> nat \<Rightarrow> mval list \<Rightarrow> mval option option" where
  "limit_result ar cs f ps = call_result (LEAST d. call_result d ar cs f ps \<noteq> None) ar cs f ps"

lemma limit_result_iff: "limit_result ar cs f ps = Some r \<longleftrightarrow> (\<exists>d. call_result d ar cs f ps = Some r)"
proof
  assume "\<exists>d. call_result d ar cs f ps = Some r"
  then obtain d where d: "call_result d ar cs f ps = Some r" by blast
  then have "call_result (LEAST d. call_result d ar cs f ps \<noteq> None) ar cs f ps \<noteq> None"
    by (intro LeastI [of "\<lambda>d. call_result d ar cs f ps \<noteq> None" d]) simp
  moreover have "(LEAST d. call_result d ar cs f ps \<noteq> None) \<le> d" by (rule Least_le) (simp add: d)
  ultimately obtain r' where r': "limit_result ar cs f ps = Some r'" "call_result d ar cs f ps = Some r'"
    unfolding limit_result_def using call_result_more by blast
  then show "limit_result ar cs f ps = Some r" using d by simp
next
  assume "limit_result ar cs f ps = Some r"
  then show "\<exists>d. call_result d ar cs f ps = Some r" unfolding limit_result_def by (rule exI)
qed

lemma mstep_limit:
  assumes "mstep (calling (limit_result ar cs) ar) cs' ps m = Some m'"
  shows "\<exists>d. mstep (calling (call_result d ar cs) ar) cs' ps m = Some m'"
proof (cases "calls_at cs' m")
  case True
  then obtain k args s where "cs' ! m_pc m = Build_Call (Val k) args s" unfolding calls_at_def by blast
  note call = mstep_call [OF this]
  from assms show ?thesis unfolding call
    by (auto simp: limit_result_iff bind_eq_Some_conv)
next
  case False
  from mstep_other [OF this, of "call_result 0 ar cs" ar ps "limit_result ar cs"] assms show ?thesis by metis
qed

lemma runs_limit:
  assumes "runs (calling (limit_result ar cs) ar) cs ps m m'" and "returning ar cs m' r"
  shows "\<exists>d. run_result d (calling (call_result d ar cs) ar) cs ps m = Some r"
  using assms(1) unfolding runs_def
proof (induction rule: converse_rtranclp_induct)
  case base
  have "run_result (Suc 0) (calling (call_result (Suc 0) ar cs) ar) cs ps m' = Some r"
    using assms(2) by (simp add: returning_result)
  then show ?case by blast
next
  case (step m m1)
  from step.hyps(1) mstep_limit obtain d1 where d1: "mstep (calling (call_result d1 ar cs) ar) cs ps m = Some m1" by blast
  from step.IH obtain d2 where d2: "run_result d2 (calling (call_result d2 ar cs) ar) cs ps m1 = Some r" by blast
  define d where "d = max d1 d2"
  have le: "d1 \<le> Suc d" "d2 \<le> Suc d" "d2 \<le> d" by (simp_all add: d_def)
  have "result_at ar cs m = None"
    using returning_stops [of "calling (call_result d1 ar cs) ar" cs m _ ps] d1 by (fastforce simp: returning_result)
  moreover have "mstep (calling (call_result (Suc d) ar cs) ar) cs ps m = Some m1"
    by (rule mstep_extends [OF call_result_extends [OF le(1)] d1])
  moreover have "run_result d (calling (call_result (Suc d) ar cs) ar) cs ps m1 = Some r"
    by (rule run_result_extends [OF call_result_extends [OF le(2)] d2 le(3)])
  ultimately have "run_result (Suc d) (calling (call_result (Suc d) ar cs) ar) cs ps m = Some r" by simp
  then show ?case by blast
qed

lemma call_reached:
  assumes "entry_from 0 cs (Val f) = Some b" and "label_of cs (Val b) = Some p"
    and "runs (calling (limit_result ar cs) ar) cs ps (start_at p (Val b)) m" and "returning ar cs m r"
  shows "\<exists>d. call_result d ar cs f ps = Some r"
proof -
  obtain d where "run_result d (calling (call_result d ar cs) ar) cs ps (start_at p (Val b)) = Some r"
    using runs_limit [OF assms(3,4)] by blast
  with assms(1,2) have "call_result (Suc d) ar cs f ps = Some r" by simp
  then show ?thesis by blast
qed

end
