(* ===== verification/Program_Correct.thy ===== *)
theory Program_Correct
  imports Programs
begin

section \<open>Compiled programs compute what their functions return\<close>

subsection \<open>Declarations\<close>

text \<open>A file of functions over integers and booleans, perhaps with a package.\<close>

definition plain_function :: "func_unit \<Rightarrow> bool" where
  "plain_function fu \<longleftrightarrow> list_all (\<lambda>p. scalar (param_type p)) (fu_params fu) \<and>
     (scalar (fu_return_type fu) \<or> fu_return_type fu = Type 0 Void_Type)"

definition plain_unit :: "unit_t \<Rightarrow> bool" where
  "plain_unit u \<longleftrightarrow> (case unit_kind u of Func_Unit fu \<Rightarrow> plain_function fu | Package_Unit name \<Rightarrow> True | _ \<Rightarrow> False)"

definition plain_file :: "unit_t list \<Rightarrow> bool" where
  "plain_file us \<longleftrightarrow> list_all plain_unit us \<and> distinct (map fu_name (funcs us))"

definition declared :: "nat \<Rightarrow> func_unit \<Rightarrow> core" where
  "declared i fu = (Func_Symbol, Some (fu_name fu), Some (Type 0 (Func_Type (fu_return_type fu) (map param_type (fu_params fu)))),
     Some (Val i))"

lemma funcs_simps [simp]:
  "funcs [] = []"
  "funcs (u # us) = (case unit_kind u of Func_Unit fu \<Rightarrow> fu # funcs us | _ \<Rightarrow> funcs us)"
  by (simp_all add: funcs_def map_filter_def split: unit_kind.split)

lemma plain_type_runs:
  assumes "scalar t \<or> t = Type 0 Void_Type" and "codegen_type n False t s = Inr (lt, s')"
  shows "s' = s"
proof (cases "scalar t")
  case True
  with assms(2) show ?thesis using type_runs by blast
next
  case False
  with assms show ?thesis by (cases n) (simp_all add: codegen_type_kind_def cg_runs)
qed

lemma plain_type_copy: "scalar t \<or> t = Type 0 Void_Type \<Longrightarrow> type_copy t = Inr t"
  by (auto elim!: scalar_cases simp: bool_type_def)

lemma cmap_types:
  assumes "cmap (codegen_type n False) ts s = Inr (lts, s')" and "list_all scalar ts"
  shows "s' = s"
  using assms by (induction ts arbitrary: s lts) (fastforce simp: bind_runs ret_runs dest: type_runs)+

lemma cmap_copies:
  assumes "cmap (\<lambda>p. clift (type_copy (param_type p))) ps s = Inr (ts, s')" and "list_all (\<lambda>p. scalar (param_type p)) ps"
  shows "s' = s \<and> ts = map param_type ps"
  using assms
  by (induction ps arbitrary: s ts) (auto simp: bind_runs ret_runs lift_runs plain_type_copy)

lemma declare_runs:
  assumes "declare_func n self fu s = Inr ((), s')" and "plain_function fu" and "cores s = [c]"
  shows "cores s' = [c @ [declared (length (cg_calls s)) fu]] \<and> length (cg_calls s') = Suc (length (cg_calls s)) \<and>
    entries (cg_calls s') = entries (cg_calls s)"
proof -
  from assms(1) obtain lts s1 lr s2 fname r as s4 where
    t: "cmap (codegen_type n False) (map param_type (fu_params fu)) s = Inr (lts, s1)"
    "codegen_type n False (fu_return_type fu) s1 = Inr (lr, s2)" and r: "type_copy (fu_return_type fu) = Inr r"
    and as: "cmap (\<lambda>p. clift (type_copy (param_type p))) (fu_params fu)
      (add_call (Add_Function fname (Ty_Function lr lts (fu_variadic fu))) s2) = Inr (as, s4)"
    and sy: "codegen_context_add_symbol (no_symbol\<lparr>cs_kind := Func_Symbol, cs_type := Some (Type 0 (Func_Type r as)),
      cs_name := Some (fu_name fu), cs_value := Some (Val (length (cg_calls s2)))\<rparr>) s4 = Inr ((), s')"
    by (auto simp: declare_func_def bind_runs lift_runs llvm_runs)
  have ok: "list_all scalar (map param_type (fu_params fu))" "list_all (\<lambda>p. scalar (param_type p)) (fu_params fu)"
    "scalar (fu_return_type fu) \<or> fu_return_type fu = Type 0 Void_Type"
    using assms(2) by (simp_all add: plain_function_def list.pred_map comp_def)
  have s: "s2 = s" using cmap_types [OF t(1) ok(1)] plain_type_runs [OF ok(3) t(2)] by simp
  note c = cmap_copies [OF as ok(2)]
  note same = symbol_same [OF sy]
  show ?thesis using same(1) same(3) [of c "[]"] c s assms(3) r plain_type_copy [OF ok(3)]
    by (simp add: core_def no_symbol_def declared_def entry_call_def)
qed

lemma declarations_run:
  assumes "cmap (codegen_unit verify n self 1) us s = Inr (ys, s')" and "list_all plain_unit us" and "cores s = [c]"
  shows "cores s' = [c @ map (case_prod declared) (enumerate (length (cg_calls s)) (funcs us))] \<and>
    entries (cg_calls s') = entries (cg_calls s)"
  using assms
proof (induction us arbitrary: s ys c)
  case Nil
  then show ?case by (simp add: ret_runs)
next
  case (Cons u us)
  from Cons.prems(1) obtain y t ys' where t: "codegen_unit verify n self 1 u s = Inr (y, t)"
    "cmap (codegen_unit verify n self 1) us t = Inr (ys', s')" by (auto simp: bind_runs ret_runs)
  have us: "list_all plain_unit us" using Cons.prems(2) by simp
  show ?case
  proof (cases "unit_kind u")
    case (Func_Unit fu)
    with t(1) have "declare_func n self fu s = Inr ((), t)" by (simp add: codegen_unit_def cwhen_def seq_runs ret_runs)
    moreover have "plain_function fu" using Cons.prems(2) Func_Unit by (simp add: plain_unit_def)
    ultimately have "cores t = [c @ [declared (length (cg_calls s)) fu]] \<and> length (cg_calls t) = Suc (length (cg_calls s)) \<and>
      entries (cg_calls t) = entries (cg_calls s)" using declare_runs Cons.prems(3) by blast
    with Cons.IH [OF t(2) us, of "c @ [declared (length (cg_calls s)) fu]"] Func_Unit show ?thesis by simp
  next
    case (Package_Unit name)
    with t(1) have "t = s" by (simp add: codegen_unit_def ret_runs)
    with Cons.IH [OF t(2) us] Cons.prems(3) Package_Unit show ?thesis by simp
  qed (use Cons.prems(2) in \<open>simp_all add: plain_unit_def\<close>)
qed

lemma no_types_run:
  assumes "cmap (codegen_unit verify n self 0) us s = Inr (ys, s')" and "list_all plain_unit us"
  shows "s' = s"
  using assms
proof (induction us arbitrary: s ys)
  case (Cons u us)
  from Cons.prems obtain y t ys' where t: "codegen_unit verify n self 0 u s = Inr (y, t)"
    "cmap (codegen_unit verify n self 0) us t = Inr (ys', s')" by (auto simp: bind_runs ret_runs)
  have "t = s" using t(1) Cons.prems(2)
    by (auto simp: codegen_unit_def plain_unit_def cwhen_def seq_runs ret_runs split: unit_kind.splits)
  with Cons.IH [OF t(2)] Cons.prems(2) show ?case by simp
qed (simp add: ret_runs)

lemma no_imports_run:
  assumes "import_units resolve decls read_units name us h s = Inr (h', s')" and "list_all plain_unit us"
  shows "s' = s"
  using assms by (induction us) (auto simp: plain_unit_def ret_runs split: unit_kind.splits)

lemma plain_file_declared:
  assumes "generate_module results n cg read_units name us new_cg_state = Inr ((), s)" and "list_all plain_unit us"
  obtains package w ys where "cmap (codegen_unit (lr_verify_function results) n (cg\<lparr>cg_package := package\<rparr>) 2) us w = Inr (ys, s)"
    and "cores w = [map (case_prod declared) (enumerate 0 (funcs us))]" and "entries (cg_calls w) = []"
proof -
  from assms(1) obtain h s1 where s1: "resolve_imports n (codegen_decls (lr_verify_function results) n cg) read_units us name [] new_cg_state = Inr (h, s1)"
    and run: "codegen (lr_verify_function results) n cg us s1 = Inr ((), s)" by (auto simp: generate_module_def bind_runs)
  have "s1 = new_cg_state" using s1 no_imports_run [OF _ assms(2)] by (cases n) (auto simp: fail_runs)
  then have new: "cores s1 = [[]]" "cg_calls s1 = []"
    by (simp_all add: new_cg_state_def cores_def codegen_context_init_def)
  obtain package w ys where w: "codegen_decls (lr_verify_function results) n (cg\<lparr>cg_package := package\<rparr>) us s1 = Inr ((), w)"
    and b: "cmap (codegen_unit (lr_verify_function results) n (cg\<lparr>cg_package := package\<rparr>) 2) us w = Inr (ys, s)"
    by (rule codegen_stages [OF run])
  from w obtain t xs zs where "cmap (codegen_unit (lr_verify_function results) n (cg\<lparr>cg_package := package\<rparr>) 0) us s1 = Inr (xs, t)"
    and d: "cmap (codegen_unit (lr_verify_function results) n (cg\<lparr>cg_package := package\<rparr>) 1) us t = Inr (zs, w)"
    by (auto simp: codegen_decls_def codegen_stage_def bind_runs seq_runs ret_runs)
  then have "t = s1" using no_types_run assms(2) by blast
  with declarations_run [OF d assms(2), of "[]"] new
  have "cores w = [map (case_prod declared) (enumerate 0 (funcs us))]" "entries (cg_calls w) = []" by simp_all
  with b show thesis by (rule that)
qed

subsection \<open>What the bodies know of the functions\<close>

lemma find_declared:
  "find (\<lambda>co. fst (snd co) = Some name) (map (case_prod declared) (enumerate i fus)) =
     map_option (declared (i + address_in fus name)) (find (\<lambda>fu. fu_name fu = name) fus)"
  by (induction fus arbitrary: i) (auto simp: declared_def address_in_def)

lemma sig_found:
  "map_of (map function_sig fus) name =
     map_option (\<lambda>fu. (fu_return_type fu, map param_type (fu_params fu))) (find (\<lambda>fu. fu_name fu = name) fus)"
  by (induction fus) (auto simp: function_sig_def)

lemma find_name: "find (\<lambda>fu. fu_name fu = name) fus = Some fu \<Longrightarrow> fu_name fu = name \<and> fu \<in> set fus"
  by (auto simp: find_Some_iff)

lemma file_knows: "knows (file_funs us val) [map (case_prod declared) (enumerate 0 (funcs us))]"
  unfolding knows_def
proof (intro allI impI)
  fix name sg
  assume "map_of (fn_sigs (file_funs us val)) name = Some sg"
  then obtain fu where fu: "find (\<lambda>fu. fu_name fu = name) (funcs us) = Some fu"
    "sg = (fu_return_type fu, map param_type (fu_params fu))" by (auto simp: file_funs_def sig_found)
  from find_name [OF fu(1)] fu find_declared [of name 0 "funcs us"]
  show "find_core [map (case_prod declared) (enumerate 0 (funcs us))] name = Some (fun_core (file_funs us val) name sg)"
    by (simp add: fun_core_def declared_def file_funs_def)
qed

subsection \<open>Entry blocks\<close>

lemma entry_found:
  "distinct (entries cs) \<Longrightarrow> b < length cs \<Longrightarrow> entry_call (cs ! b) = Some f \<Longrightarrow> entry_from i cs f = Some (i + b)"
proof (induction cs arbitrary: i b)
  case (Cons c cs)
  show ?case
  proof (cases b)
    case 0
    then show ?thesis using Cons.prems by simp
  next
    case (Suc b')
    then have b': "b' < length cs" "entry_call (cs ! b') = Some f" using Cons.prems by simp_all
    have "f \<in> set (entries cs)" using b' unfolding entries_def map_filter_def by (force simp: image_iff in_set_conv_nth)
    with Cons.prems(1) have "entry_call c \<noteq> Some f" "distinct (entries cs)" by (auto split: option.splits)
    with Cons.IH [OF _ b'] Suc show ?thesis by simp
  qed
qed simp

lemma address_inject:
  "distinct (map fu_name fus) \<Longrightarrow> fu \<in> set fus \<Longrightarrow> fu' \<in> set fus \<Longrightarrow>
     address_in fus (fu_name fu) = address_in fus (fu_name fu') \<Longrightarrow> fu = fu'"
  unfolding address_in_def by (induction fus) (auto split: if_splits, (metis image_eqI)+)

lemma find_core_declared:
  "find_core [map (case_prod declared) (enumerate 0 fus)] name =
     map_option (declared (address_in fus name)) (find (\<lambda>fu. fu_name fu = name) fus)"
  using find_declared [of name 0 fus] by (simp split: option.split)

lemma unit_entries_declared:
  assumes "list_all plain_unit us" and "set (funcs us) \<subseteq> set fus"
  shows "concat (map (unit_entries [map (case_prod declared) (enumerate 0 fus)]) us) =
    map (\<lambda>fu. Val (address_in fus (fu_name fu))) (filter (\<lambda>fu. fu_body fu \<noteq> None) (funcs us))"
  using assms
proof (induction us)
  case (Cons u us)
  show ?case
  proof (cases "unit_kind u")
    case (Func_Unit fu)
    then have "fu \<in> set fus" using Cons.prems(2) by simp
    then obtain fu' where "find (\<lambda>f. fu_name f = fu_name fu) fus = Some fu'"
      using find_None_iff [of "\<lambda>f. fu_name f = fu_name fu" fus] by fastforce
    then have "unit_entries [map (case_prod declared) (enumerate 0 fus)] u =
        (if fu_body fu = None then [] else [Val (address_in fus (fu_name fu))])"
      using Func_Unit by (simp add: unit_entries_def find_core_declared declared_def del: find_core.simps)
    with Cons Func_Unit show ?thesis by simp
  next
    case (Package_Unit name)
    with Cons show ?thesis by (simp add: unit_entries_def)
  qed (use Cons.prems(1) in \<open>simp_all add: plain_unit_def\<close>)
qed simp

lemma entries_distinct:
  assumes "plain_file us"
  shows "distinct (concat (map (unit_entries [map (case_prod declared) (enumerate 0 (funcs us))]) us))"
proof -
  have "distinct (map fu_name (funcs us))" using assms by (simp add: plain_file_def)
  then have "inj_on (\<lambda>fu. Val (address_in (funcs us) (fu_name fu))) (set (funcs us))" "distinct (funcs us)"
    using address_inject by (auto simp: inj_on_def distinct_map)
  then show ?thesis using assms unit_entries_declared [of us "funcs us"]
    by (auto simp: plain_file_def distinct_map intro: inj_on_subset)
qed

subsection \<open>Calls\<close>

lemma func_in_file: "fu \<in> set (funcs us) \<Longrightarrow> \<exists>l. Unit l (Func_Unit fu) \<in> set us"
proof (induction us)
  case (Cons u us)
  then show ?case by (cases u) (auto split: unit_kind.splits)
qed simp

lemma function_layout:
  assumes "compile results n (new_codegen (CHR 0x00 # rest)) read_units name = Inr (Some cs)"
    and "read_units name = Inr (Some us)" and "list_all tidy_unit us" and pf: "plain_file us"
    and fu: "find_function us f = Some fu" "fu_body fu = Some body"
  obtains verify package t t' where "codegen_body verify n ((new_codegen (CHR 0x00 # rest))\<lparr>cg_package := package\<rparr>) fu
      (Val (address_in (funcs us) f)) body t = Inr ((), t')" and "code_in cs t'" and "entered_once cs"
    and "cores t = [map (case_prod declared) (enumerate 0 (funcs us))]"
    and "entry_from 0 cs (Val (address_in (funcs us) f)) = Some (length (cg_calls t))"
    and "label_of cs (Val (length (cg_calls t))) = Some (length (cg_calls t) + 2)"
proof (rule compiled_module [OF assms(1-3)])
  let ?cg = "new_codegen (CHR 0x00 # rest)" and ?cos = "[map (case_prod declared) (enumerate 0 (funcs us))]"
  fix s w0
  assume run: "generate_module results n ?cg read_units name us new_cg_state = Inr ((), s)"
    and cs: "cs = cg_calls s" and once: "entered_once cs"
  have units: "list_all plain_unit us" using pf by (simp add: plain_file_def)
  obtain package w ys where st: "cmap (codegen_unit (lr_verify_function results) n (?cg\<lparr>cg_package := package\<rparr>) 2) us w = Inr (ys, s)"
    "cores w = ?cos" "entries (cg_calls w) = []"
    by (rule plain_file_declared [OF run units])
  have name: "fu_name fu = f" "fu \<in> set (funcs us)" using find_name fu(1) by (auto simp: find_function_def)
  obtain l where "Unit l (Func_Unit fu) \<in> set us" using func_in_file [OF name(2)] by blast
  note all = bodies_compiled [OF st(1)]
  with \<open>Unit l (Func_Unit fu) \<in> set us\<close> fu(2) obtain t sy func t' where
    body: "codegen_body (lr_verify_function results) n (?cg\<lparr>cg_package := package\<rparr>) fu func body t = Inr ((), t')"
    and sy: "find_symbol (fu_name fu) t = Inr (Some sy, t)" "cs_value sy = Some func"
    and t: "cores t = cores w" "more_calls t' s" by blast
  from find_symbol_value [OF sy(1)] name(1) t(1) st(2) fu(1) have "core sy = declared (address_in (funcs us) f) fu"
    by (simp add: find_core_declared find_function_def del: find_core.simps)
  with sy(2) have func: "func = Val (address_in (funcs us) f)" by (simp add: core_def declared_def)
  have code: "code_in cs t'" using t(2) cs by (auto simp: code_in_def more_calls_def)
  have c: "code_in cs (body_start func t)" by (rule code_before [OF code body_frame(1) [OF body]])
  have "distinct (entries cs)" using all entries_distinct [OF pf] st(2,3) cs by simp
  moreover have "length (cg_calls t) < length cs" using c by (auto simp: code_in_def body_start_def)
  ultimately have "entry_from 0 cs func = Some (length (cg_calls t))"
    using entry_found [of cs "length (cg_calls t)" func 0] body_entry(1) [OF body code] by (simp add: entry_call_def)
  moreover have "label_of cs (Val (length (cg_calls t))) = Some (length (cg_calls t) + 2)"
    using label_found [OF once c [unfolded body_start_def]] by simp
  ultimately show thesis using that [OF _ code once] body st(2) t(1) func by simp
qed

lemma calls_file:
  assumes "\<And>g fu xs y. find_function us g = Some fu \<Longrightarrow> program_value d us g xs = Some (Some y) \<Longrightarrow>
      limit_result ar cs (address_in (funcs us) g) (arguments fu xs) = Some (Some (rep (fu_return_type fu) y)) \<and>
      wrap (fu_return_type fu) y = y"
  shows "calls_ok (file_funs us (program_value d us)) (calling (limit_result ar cs) ar)"
  unfolding calls_ok_def
proof (intro allI impI)
  fix g r ts xs y
  let ?F = "file_funs us (program_value d us)"
  assume "map_of (fn_sigs ?F) g = Some (r, ts)" and "fn_value ?F g xs = Some y"
  then obtain fu where fu: "find_function us g = Some fu" "r = fu_return_type fu" "ts = map param_type (fu_params fu)"
    and v: "program_value d us g xs = Some (Some y)"
    by (auto simp: file_funs_def sig_found find_function_def bind_eq_Some_conv)
  have "map2 rep ts xs = arguments fu xs" by (simp add: arguments_def fu(3) zip_map1 comp_def split_def)
  with assms [OF fu(1) v] fu(2)
  show "ar_call (calling (limit_result ar cs) ar) (fn_address ?F g) (map2 rep ts xs) = Some (rep r y) \<and> wrap r y = y"
    by (simp add: file_funs_def)
qed

lemma program_computes:
  assumes ar: "documented ar"
    and compiled: "compile results n (new_codegen (CHR 0x00 # rest)) read_units name = Inr (Some cs)"
      "read_units name = Inr (Some us)" "list_all tidy_unit us" "plain_file us"
    and "find_function us f = Some fu" and "program_value d us f xs = Some v"
  shows "limit_result ar cs (address_in (funcs us) f) (arguments fu xs) = Some (map_option (rep (fu_return_type fu)) v) \<and>
    (\<forall>y. v = Some y \<longrightarrow> wrap (fu_return_type fu) y = y)"
  using assms(6,7)
proof (induction d arbitrary: f fu xs v)
  case (Suc d)
  let ?F = "file_funs us (program_value d us)" and ?ar = "calling (limit_result ar cs) ar"
  from Suc.prems obtain body where body: "fu_body fu = Some body" "arguments_ok fu xs" "call_value ?F d fu body xs = Some v"
    by (auto simp: bind_eq_Some_conv split: if_splits)
  show ?case
  proof (rule function_layout [OF compiled Suc.prems(1) body(1)])
    fix verify package t t'
    assume run: "codegen_body verify n ((new_codegen (CHR 0x00 # rest))\<lparr>cg_package := package\<rparr>) fu
        (Val (address_in (funcs us) f)) body t = Inr ((), t')"
      and code: "code_in cs t'" and once: "entered_once cs"
      and cores: "cores t = [map (case_prod declared) (enumerate 0 (funcs us))]"
      and entry: "entry_from 0 cs (Val (address_in (funcs us) f)) = Some (length (cg_calls t))"
        "label_of cs (Val (length (cg_calls t))) = Some (length (cg_calls t) + 2)"
    have agrees: "agrees ?F ?ar" using ar calls_file [of us d ar cs] Suc.IH by (simp add: agrees_def)
    have knows: "knows ?F (cores t)" using file_knows cores by simp
    note computes = body_computes [OF agrees once _ _ _ knows run code body(2,3)]
    obtain m where "runs ?ar cs (arguments fu xs) (start_at (length (cg_calls t) + 2) (Val (length (cg_calls t)))) m"
      "returning ?ar cs m (map_option (rep (fu_return_type fu)) v)"
      using computes(1) by (auto simp: new_codegen_def)
    with call_reached [OF entry] have
      "limit_result ar cs (address_in (funcs us) f) (arguments fu xs) = Some (map_option (rep (fu_return_type fu)) v)"
      by (simp add: limit_result_iff returning_result)
    moreover have "wrap (fu_return_type fu) y = y" if "v = Some y" for y
      by (rule computes(2) [OF _ _ _ that]) (simp_all add: new_codegen_def)
    ultimately show ?thesis by blast
  qed
qed simp

subsection \<open>Programs\<close>

text \<open>
  C2: compiled programs compute what they mean, calls included. Take a file of functions over integers
  and booleans, with distinct names, in which nothing follows a statement that jumps away and no
  loop body ends with one, and the calls the compiler makes for it, when it returns. Where a
  function returns a value in the reference semantics, by calls to itself and to the other
  functions of the file in whatever order they are written, the machine that runs the generated code
  returns the same value from the block \<open>entry\<close> of the function, with all sufficiently large bounds
  on steps and depth. Arithmetic is any that LLVM's reference allows; the byte after the buffer of a
  number literal is taken to be NUL.
\<close>

theorem compiled_programs_correct:
  assumes "documented ar"
    and "compile results n (new_codegen (CHR 0x00 # rest)) read_units name = Inr (Some cs)"
    and "read_units name = Inr (Some us)" and "list_all tidy_unit us" and "plain_file us"
    and "find_function us f = Some fu" and "program_value d us f xs = Some v"
  shows "\<exists>D. \<forall>D' \<ge> D. call_result D' ar cs (address_in (funcs us) f) (arguments fu xs) =
    Some (map_option (rep (fu_return_type fu)) v)"
  using program_computes [OF assms] call_result_more unfolding limit_result_iff by blast

text \<open>The functions \<open>f(n) = n <= 0 ? 0 : n + g(n - 1)\<close> and \<open>g(n) = f(n) * 2\<close>, with an \<open>if\<close> for the condition.\<close>

definition sample_binary :: "expr \<Rightarrow> binary_op \<Rightarrow> expr \<Rightarrow> expr" where
  "sample_binary a op b = sample_expr (Binary_Expr a b op)"

definition sample_n :: expr where
  "sample_n = sample_expr (Ident_Expr ''n'')"

definition sample_number :: "string \<Rightarrow> expr" where
  "sample_number s = sample_expr (Number_Literal_Expr s 10)"

definition sample_call :: "string \<Rightarrow> expr \<Rightarrow> expr" where
  "sample_call f a = sample_expr (Call_Expr (sample_expr (Ident_Expr f)) [a])"

definition int_function :: "string \<Rightarrow> stmt_kind list \<Rightarrow> func_unit" where
  "int_function f ks = \<lparr>fu_return_type = int32, fu_name = f, fu_body = Some (sample_block ks),
     fu_params = [\<lparr>param_type = int32, param_name = Some ''n''\<rparr>], fu_variadic = False, fu_type = Type 0 No_Type\<rparr>"

definition function_f :: func_unit where
  "function_f = int_function ''f'' [
     If_Stmt (sample_binary sample_n Op_Le (sample_number ''0'')) (Some (sample_block [Return_Stmt (Some (sample_number ''0''))])) None,
     Return_Stmt (Some (sample_binary sample_n Op_Add (sample_call ''g'' (sample_binary sample_n Op_Sub (sample_number ''1'')))))]"

definition function_g :: func_unit where
  "function_g = int_function ''g'' [Return_Stmt (Some (sample_binary (sample_call ''f'' sample_n) Op_Mul (sample_number ''2'')))]"

definition sample_program :: "unit_t list" where
  "sample_program = [Unit at_sample (Func_Unit function_f), Unit at_sample (Func_Unit function_g)]"

lemmas program_defs = sample_program_def function_f_def function_g_def int_function_def

lemma program_compiles:
  "\<exists>cs. compile lenient_llvm 12 (new_codegen [CHR 0x00]) (\<lambda>name. Inr (Some sample_program)) ''a.low'' = Inr (Some cs)"
proof -
  have "case compile lenient_llvm 12 (new_codegen [CHR 0x00]) (\<lambda>name. Inr (Some sample_program)) ''a.low'' of
    Inr (Some cs) \<Rightarrow> True | _ \<Rightarrow> False" by code_simp
  then show ?thesis by (auto split: sum.splits option.splits)
qed

lemma program_returns: "program_value 9 sample_program ''f'' [2] = Some (Some 4)"
  by code_simp

theorem compiled_programs_correct_witness:
  "\<exists>cs D. compile lenient_llvm 12 (new_codegen [CHR 0x00]) (\<lambda>name. Inr (Some sample_program)) ''a.low'' = Inr (Some cs) \<and>
     call_result D standard cs 0 [Int_Val 32 2] = Some (Some (Int_Val 32 4))"
proof -
  obtain cs where cs: "compile lenient_llvm 12 (new_codegen [CHR 0x00]) (\<lambda>name. Inr (Some sample_program)) ''a.low'' = Inr (Some cs)"
    using program_compiles by blast
  have tidy: "list_all tidy_unit sample_program" by (simp add: program_defs sample_defs tidy_unit_def)
  have pf: "plain_file sample_program"
    by (simp add: plain_file_def plain_unit_def plain_function_def program_defs int32_def)
  have f: "find_function sample_program ''f'' = Some function_f" by (simp add: find_function_def program_defs)
  from compiled_programs_correct [OF standard_documented cs refl tidy pf f program_returns]
  obtain D where "call_result D standard cs (address_in (funcs sample_program) ''f'') (arguments function_f [2]) =
    Some (map_option (rep (fu_return_type function_f)) (Some 4))" by blast
  moreover have "address_in (funcs sample_program) ''f'' = 0" by (simp add: address_in_def program_defs)
  ultimately show ?thesis using cs by (auto simp: arguments_def program_defs rep_def int32_def)
qed

end
