(* ===== verification/Driver_Props.thy ===== *)
theory Driver_Props
  imports Driver
begin

section \<open>Names and imports\<close>

subsection \<open>Names\<close>

lemma strrchr_None [simp]: "strrchr xs c = None \<longleftrightarrow> c \<notin> set xs"
  by (induction xs) (auto split: option.splits)

lemma strrchr_last: "c \<notin> set ys \<Longrightarrow> strrchr (xs @ c # ys) c = Some (length xs)"
proof (induction xs)
  case Nil
  then have "strrchr ys c = None" by simp
  then show ?case by (simp del: strrchr_None)
qed simp

lemma strrchr_slash:
  assumes "dir = [] \<or> last dir = CHR ''/''" "CHR ''/'' \<notin> set fname"
  shows "strrchr (dir @ fname) CHR ''/'' = (if dir = [] then None else Some (length dir - 1))"
proof (cases dir rule: rev_cases)
  case Nil
  then show ?thesis using assms by simp
next
  case (snoc ds d)
  with assms have "d = CHR ''/''" by simp
  with snoc show ?thesis using strrchr_last [OF assms(2), of ds] by simp
qed

text \<open>
  C37: the output is written beside the input, under its name with the extension replaced by
  \<open>ll\<close>, or added when there is none; dots in the names of directories do not count.
\<close>

theorem out_name_replaces_extension:
  assumes "dir = [] \<or> last dir = CHR ''/''" and "CHR ''/'' \<notin> set base" and "CHR ''/'' \<notin> set ext"
    and "CHR ''.'' \<notin> set ext"
  shows "out_name (dir @ base @ CHR ''.'' # ext) = dir @ base @ ''.ll'' \<and>
    (CHR ''.'' \<notin> set base \<longrightarrow> out_name (dir @ base) = dir @ base @ ''.ll'')"
proof (intro conjI impI)
  have start: "(case strrchr (dir @ fname) CHR ''/'' of Some i \<Rightarrow> i | None \<Rightarrow> 0) = length dir - 1"
    if "CHR ''/'' \<notin> set fname" for fname
    using strrchr_slash [OF assms(1) that] by simp
  have tail: "drop (length dir - 1) (dir @ fname) = drop (length dir - 1) dir @ fname" for fname :: string by simp
  have dot: "CHR ''.'' \<notin> set (drop (length dir - 1) dir)"
  proof (cases dir rule: rev_cases)
    case (snoc ds d)
    with assms(1) show ?thesis by simp
  qed simp
  have len: "length dir - 1 + length (drop (length dir - 1) dir) = length dir" by simp
  show "out_name (dir @ base @ CHR ''.'' # ext) = dir @ base @ ''.ll''"
    using start [of "base @ CHR ''.'' # ext"] assms(2,3) len
      strrchr_last [OF assms(4), of "drop (length dir - 1) dir @ base"]
    by (simp add: out_name_def stem_length_def Let_def)
  assume "CHR ''.'' \<notin> set base"
  then show "out_name (dir @ base) = dir @ base @ ''.ll''"
    using start [OF assms(2)] dot strrchr_None [of "drop (length dir - 1) dir @ base" "CHR ''.''", THEN iffD2]
    by (simp add: out_name_def stem_length_def Let_def del: strrchr_None)
qed

theorem out_name_replaces_extension_witness:
  "out_name ''../lib.d/list.low'' = ''../lib.d/list.ll'' \<and> out_name ''../lib.d/list'' = ''../lib.d/list.ll''"
  using out_name_replaces_extension [of "''../lib.d/''" "''list''" "''low''"] by simp

subsection \<open>Imports\<close>

definition imports_of :: "string \<Rightarrow> unit_t list \<Rightarrow> string list" where
  "imports_of name us = map (import_path name) (concat (map (\<lambda>u. case unit_kind u of
     Import_Unit f \<Rightarrow> [f] | _ \<Rightarrow> []) us))"

definition resolved ::
    "(string \<Rightarrow> unit_t list option res) \<Rightarrow> string list \<Rightarrow> string list \<Rightarrow> string list \<Rightarrow> bool" where
  "resolved read_units wanted handled handled' \<longleftrightarrow> (distinct handled \<longrightarrow> distinct handled') \<and> set handled \<subseteq> set handled' \<and>
     set wanted \<subseteq> set handled' \<and>
     (\<forall>f \<in> set handled' - set handled. \<exists>us. read_units f = Inr (Some us) \<and> set (imports_of f us) \<subseteq> set handled')"

lemma cbind_Inr: "cbind m f s = Inr y \<longleftrightarrow> (\<exists>x t. m s = Inr (x, t) \<and> f x t = Inr y)"
  by (auto simp: cbind_def rbind_Inr_conv)

text \<open>One import: handled before, readable, or not.\<close>

lemma cbind_clift: "cbind (clift r) f = (case r of Inl e \<Rightarrow> cfail e | Inr x \<Rightarrow> f x)"
  by (auto simp: cbind_def clift_def cfail_def split: sum.split)

lemma import_step:
  assumes "unit_kind u = Import_Unit nm" and "f = import_path name nm"
  shows "f \<in> set handled \<Longrightarrow> import_units rec decls read_units name (u # us) handled =
      import_units rec decls read_units name us handled"
    and "f \<notin> set handled \<Longrightarrow> read_units f = Inr (Some us') \<Longrightarrow>
      import_units rec decls read_units name (u # us) handled =
        cbind (rec us' f (handled @ [f])) (\<lambda>h. cseq (decls us') (import_units rec decls read_units name us h))"
    and "f \<notin> set handled \<Longrightarrow> read_units f = Inr None \<Longrightarrow>
      import_units rec decls read_units name (u # us) handled =
        die (''unable to open file '' @ f @ '' imported from '' @ name)"
    and "f \<notin> set handled \<Longrightarrow> read_units f = Inl e \<Longrightarrow>
      import_units rec decls read_units name (u # us) handled = cfail e"
  by (simp_all add: assms Let_def cbind_clift)

lemma import_units_resolved:
  assumes rec: "\<And>us name handled s handled' s'. rec us name handled s = Inr (handled', s') \<Longrightarrow>
      resolved read_units (imports_of name us) handled handled'"
  shows "import_units rec decls read_units name us handled s = Inr (handled', s') \<Longrightarrow>
    resolved read_units (imports_of name us) handled handled'"
proof (induction us arbitrary: handled s)
  case Nil
  then show ?case by (simp add: resolved_def imports_of_def cret_def)
next
  case (Cons u us)
  show ?case
  proof (cases "unit_kind u")
    case (Import_Unit nm)
    define f where "f = import_path name nm"
    have i: "imports_of name (u # us) = f # imports_of name us" by (simp add: imports_of_def Import_Unit f_def)
    show ?thesis
    proof (cases "f \<in> set handled")
      case True
      then have "import_units rec decls read_units name us handled s = Inr (handled', s')"
        using Cons.prems by (simp only: import_step(1) [OF Import_Unit f_def])
      then have "resolved read_units (imports_of name us) handled handled'" using Cons by blast
      with True i show ?thesis by (auto simp: resolved_def)
    next
      case False
      note step = import_step [where read_units = read_units, OF Import_Unit f_def]
      obtain us' where us': "read_units f = Inr (Some us')"
      proof (cases "read_units f")
        case (Inl e)
        with Cons.prems step(4) [OF False] show thesis by (simp add: cfail_def)
      next
        case (Inr r)
        with Cons.prems step(3) [OF False] that show thesis by (cases r) (simp_all add: die_def cfail_def)
      qed
      then obtain h1 s1 s2 where h1: "rec us' f (handled @ [f]) s = Inr (h1, s1)"
        and rest: "import_units rec decls read_units name us h1 s2 = Inr (handled', s')"
        using Cons.prems unfolding step(2) [OF False us'] by (auto simp: cbind_Inr cseq_def)
      have r1: "resolved read_units (imports_of f us') (handled @ [f]) h1"
        by (rule rec [OF h1])
      have r2: "resolved read_units (imports_of name us) h1 handled'"
        by (rule Cons.IH [OF rest])
      show ?thesis unfolding i resolved_def
      proof (intro conjI ballI)
        fix g assume g: "g \<in> set handled' - set handled"
        show "\<exists>us. read_units g = Inr (Some us) \<and> set (imports_of g us) \<subseteq> set handled'"
        proof (cases "g \<in> set h1")
          case True
          have sub: "set h1 \<subseteq> set handled'" using r2 by (simp add: resolved_def)
          have "\<exists>us. read_units g = Inr (Some us) \<and> set (imports_of g us) \<subseteq> set h1"
          proof (cases "g = f")
            case True
            then show ?thesis using us' r1 by (simp add: resolved_def)
          next
            case False
            with g True have "g \<in> set h1 - set (handled @ [f])" by simp
            then show ?thesis using r1 unfolding resolved_def by blast
          qed
          with sub show ?thesis by blast
        next
          case False
          with g r2 show ?thesis by (auto simp: resolved_def)
        qed
      qed (use r1 r2 False in \<open>auto simp: resolved_def\<close>)
    qed
  qed (use Cons in \<open>simp_all add: imports_of_def\<close>)
qed

lemma imports_resolved:
  "resolve_imports n decls read_units us name h s = Inr (handled, s') \<Longrightarrow>
   resolved read_units (imports_of name us) h handled"
proof (induction n arbitrary: us name h s handled s')
  case 0
  then show ?case by (simp add: cfail_def)
next
  case (Suc n)
  show ?case by (rule import_units_resolved [OF Suc.IH]) (use Suc.prems in auto)
qed

text \<open>
  C11: the imports of a file are resolved completely and once each: no file name is handled twice,
  every import of the file is handled, and every file handled was read and has all its own
  imports handled.
\<close>

theorem imports_resolved_once:
  assumes "resolve_imports n decls read_units us name [] s = Inr (handled, s')"
  shows "distinct handled \<and> set (imports_of name us) \<subseteq> set handled \<and>
    (\<forall>f \<in> set handled. \<exists>us'. read_units f = Inr (Some us') \<and> set (imports_of f us') \<subseteq> set handled)"
  using imports_resolved [OF assms] by (simp add: resolved_def)

text \<open>Two files that import each other, and a third one.\<close>

definition sample_files :: "string \<Rightarrow> unit_t list option res" where
  "sample_files f = Inr (
     if f = ''lib/a.low'' then Some [Unit null_loc (Import_Unit ''b.low''), Unit null_loc (Import_Unit ''c.low'')]
     else if f = ''lib/b.low'' then Some [Unit null_loc (Import_Unit ''c.low'')]
     else if f = ''lib/c.low'' then Some [Unit null_loc (Import_Unit ''b.low'')] else None)"

lemma sample_imports:
  "resolve_imports 5 (\<lambda>us. cret ()) sample_files [Unit null_loc (Import_Unit ''b.low''), Unit null_loc (Import_Unit ''c.low'')]
     ''lib/a.low'' [] new_cg_state = Inr ([''lib/b.low'', ''lib/c.low''], new_cg_state)"
  by (simp add: numeral_eq_Suc sample_files_def import_path_def dir_of_def Let_def cbind_def cseq_def cret_def clift_def)

theorem imports_resolved_once_witness:
  "set (imports_of ''lib/a.low'' [Unit null_loc (Import_Unit ''b.low''), Unit null_loc (Import_Unit ''c.low'')])
     \<subseteq> {''lib/b.low'', ''lib/c.low''}"
  using imports_resolved_once [OF sample_imports] by simp

text \<open>
  The recursion over the imports ends when the files that can be reached are finitely many, if the
  declarations of each of them do: its depth is at most the number of their names, cyclic imports included.
\<close>

lemma imports_end:
  assumes "finite F" and "set (imports_of name us) \<subseteq> F"
    and "\<And>f us'. f \<in> F \<Longrightarrow> read_units f = Inr (Some us') \<Longrightarrow> set (imports_of f us') \<subseteq> F"
    and "\<And>f. f \<in> F \<Longrightarrow> read_units f \<noteq> Inl Diverges" and "\<And>f us' t. f \<in> F \<Longrightarrow> read_units f = Inr (Some us') \<Longrightarrow> decls us' t \<noteq> Inl Diverges"
    and "card F < n"
  shows "resolve_imports n decls read_units us name [] s \<noteq> Inl Diverges"
proof -
  have "import_units rec decls read_units name us h s \<noteq> Inl Diverges"
    if rec: "\<And>f us' h t. f \<in> F \<Longrightarrow> f \<notin> set h \<Longrightarrow> read_units f = Inr (Some us') \<Longrightarrow> set h0 \<subseteq> set h \<Longrightarrow>
        rec us' f (h @ [f]) t \<noteq> Inl Diverges"
      and mono: "\<And>f us' h t h' t'. rec us' f h t = Inr (h', t') \<Longrightarrow> set h \<subseteq> set h'"
      and "set (imports_of name us) \<subseteq> F" "set h0 \<subseteq> set h"
    for rec name us h h0 s
    using that(3,4)
  proof (induction us arbitrary: h s)
    case Nil
    then show ?case by (simp add: cret_def)
  next
    case (Cons u us)
    show ?case
    proof (cases "unit_kind u")
      case (Import_Unit nm)
      define f where "f = import_path name nm"
      note step = import_step [where read_units = read_units, OF Import_Unit f_def]
      have f: "f \<in> F" "set (imports_of name us) \<subseteq> F" using Cons.prems(1) by (auto simp: imports_of_def Import_Unit f_def)
      show ?thesis
      proof (cases "f \<in> set h")
        case True
        with Cons.IH [OF f(2) Cons.prems(2)] show ?thesis by (simp only: step(1) not_False_eq_True)
      next
        case False
        show ?thesis
        proof (cases "read_units f")
          case (Inl e)
          with assms(4) [OF f(1)] show ?thesis by (simp only: step(4) [OF False Inl]) (auto simp: cfail_def)
        next
          case (Inr r)
          show ?thesis
          proof (cases r)
            case None
            with Inr have "read_units f = Inr None" by simp
            then show ?thesis by (simp only: step(3) [OF False]) (simp add: die_def cfail_def)
          next
            case (Some us')
            with Inr have us': "read_units f = Inr (Some us')" by simp
            have "cbind (rec us' f (h @ [f])) (\<lambda>h. cseq (decls us') (import_units rec decls read_units name us h)) s \<noteq>
                Inl Diverges"
            proof (cases "rec us' f (h @ [f]) s")
              case (Inl e)
              with rec [OF f(1) False us' Cons.prems(2)] show ?thesis by (auto simp: cbind_def)
            next
              case (Inr p)
              obtain h1 t1 where p: "p = (h1, t1)" by (cases p)
              from mono Inr p have "set h0 \<subseteq> set h1" using Cons.prems(2) by fastforce
              with Cons.IH [OF f(2)] assms(5) [OF f(1) us', of t1] Inr p show ?thesis
                by (cases "decls us' t1") (auto simp: cbind_def cseq_def)
            qed
            then show ?thesis by (simp only: step(2) [OF False us'] not_False_eq_True)
          qed
        qed
      qed
    qed (use Cons in \<open>simp_all add: imports_of_def\<close>)
  qed
  note units = this
  have "resolve_imports n decls read_units us name h s \<noteq> Inl Diverges"
    if "set (imports_of name us) \<subseteq> F" "card (F - set h) < n" for n us name h s
    using that
  proof (induction n arbitrary: us name h s)
    case (Suc n)
    have "resolve_imports n decls read_units us' f (h' @ [f]) t \<noteq> Inl Diverges"
      if f: "f \<in> F" "f \<notin> set h'" "read_units f = Inr (Some us')" "set h \<subseteq> set h'" for f us' h' t
    proof (rule Suc.IH [OF assms(3) [OF f(1,3)]])
      have "F - set (h' @ [f]) \<subset> F - set h" using f by auto
      then have "card (F - set (h' @ [f])) < card (F - set h)" using assms(1) by (intro psubset_card_mono) auto
      with Suc.prems(2) show "card (F - set (h' @ [f])) < n" by simp
    qed
    moreover have "set h \<subseteq> set h'" if "resolve_imports n decls read_units us' f h t = Inr (h', t')" for us' f h t h' t'
      using imports_resolved [OF that] by (simp add: resolved_def)
    ultimately show ?case using units [of h "resolve_imports n decls read_units" name us h] Suc.prems(1) by simp
  qed simp
  with assms(2,6) show ?thesis by simp
qed

subsection \<open>Declarations end\<close>

text \<open>A type without names of types, in which nothing is nested deeper than \<open>n\<close>.\<close>

primrec type_within :: "nat \<Rightarrow> type_t \<Rightarrow> bool" where
  "type_within 0 t = False"
| "type_within (Suc n) t = (if 0 < type_pointer t then type_within n (Type (type_pointer t - 1) (type_kind t))
     else case type_kind t of
       Named_Type name \<Rightarrow> False
     | Func_Type r as \<Rightarrow> type_within n r \<and> list_all (type_within n) as
     | Struct_Type ms \<Rightarrow> list_all (\<lambda>m. case m of Struct_Member u name \<Rightarrow> type_within n u) ms
     | Slice_Type u \<Rightarrow> type_within n u
     | Array_Type u len \<Rightarrow> type_within n u
     | Interface_Type ms \<Rightarrow> list_all (\<lambda>m. case m of
         Member_Field name u \<Rightarrow> type_within n u
       | Member_Func name r as \<Rightarrow> type_within n r \<and> list_all (type_within n) as
       | Member_Uninit \<Rightarrow> True) ms
     | _ \<Rightarrow> True)"

text \<open>A unit that is an import, a package, a name for a type, or a function with such types.\<close>

definition declares_within :: "nat \<Rightarrow> unit_t \<Rightarrow> bool" where
  "declares_within n u \<longleftrightarrow> (case unit_kind u of
     Decl_Unit d \<Rightarrow> False
   | Func_Unit fu \<Rightarrow> type_within n (fu_return_type fu) \<and> list_all (\<lambda>p. type_within n (param_type p)) (fu_params fu)
   | _ \<Rightarrow> True)"

definition halts :: "'a cg \<Rightarrow> bool" where
  "halts m \<longleftrightarrow> (\<forall>s. m s \<noteq> Inl Diverges)"

named_theorems halts_intros \<open>steps that end\<close>

lemma halts_bind [halts_intros]: "halts m \<Longrightarrow> (\<And>x. halts (f x)) \<Longrightarrow> halts (cbind m f)"
proof -
  assume m: "halts m" and f: "\<And>x. halts (f x)"
  have "cbind m f s \<noteq> Inl Diverges" for s
    using m f by (cases "m s") (auto simp: cbind_def halts_def split: prod.splits)
  then show ?thesis by (simp add: halts_def)
qed

lemma halts_seq [halts_intros]: "halts m \<Longrightarrow> halts k \<Longrightarrow> halts (cseq m k)"
  unfolding cseq_def by (rule halts_bind)

lemma halts_basic [halts_intros]: "halts (cret x)" "halts cget" "e \<noteq> Diverges \<Longrightarrow> halts (cfail e)" "halts (derror msg)"
  "halts (die msg)" "halts (llvm c)" "r \<noteq> Inl Diverges \<Longrightarrow> halts (clift r)"
  by (auto simp: halts_def cret_def cget_def cfail_def derror_def die_def llvm_def clift_def split: sum.split)
    (cases r; simp)

lemma halts_when [halts_intros]: "halts m \<Longrightarrow> halts (cwhen b m)"
  by (simp add: cwhen_def halts_basic)

lemma halts_map: "(\<And>x. x \<in> set xs \<Longrightarrow> halts (f x)) \<Longrightarrow> halts (cmap f xs)"
  by (induction xs) (auto intro!: halts_intros)

lemma halts_symbol [halts_intros]: "halts (codegen_context_add_symbol sy)"
  by (auto simp: halts_def codegen_context_add_symbol_def with_context_def split: list.split)

lemma rbind_ends: "rbind r f = Inl e \<longleftrightarrow> r = Inl e \<or> (\<exists>x. r = Inr x \<and> f x = Inl e)"
  by (cases r) auto

lemma copies_end:
  "\<forall>x\<in>set as. type_copy x \<noteq> Inl Diverges \<Longrightarrow> types_copy as \<noteq> Inl Diverges"
  "\<forall>x\<in>set ms. struct_member_copy x \<noteq> Inl Diverges \<Longrightarrow> struct_members_copy ms \<noteq> Inl Diverges"
  "\<forall>x\<in>set js. interface_member_copy x \<noteq> Inl Diverges \<Longrightarrow> interface_members_copy js \<noteq> Inl Diverges"
    apply (induction as) apply (simp_all add: rbind_ends)
   apply (induction ms) apply (simp_all add: rbind_ends)
  apply (induction js) apply (simp_all add: rbind_ends)
  done

lemma copy_ends:
  "type_copy t \<noteq> Inl Diverges" "kind_copy k \<noteq> Inl Diverges" "struct_member_copy m \<noteq> Inl Diverges"
  "interface_member_copy i \<noteq> Inl Diverges"
  by (induction t and k and m and i rule: types_induct) (simp_all add: rbind_ends copies_end)

lemma mangle_ends: "mangle_func_name package name \<noteq> Inl Diverges"
  by (auto simp: mangle_func_name_def Let_def split: option.split)

lemma halts_interface:
  assumes "list_all (\<lambda>m. case m of
      Member_Field name u \<Rightarrow> type_within n u
    | Member_Func name r as \<Rightarrow> type_within n r \<and> list_all (type_within n) as
    | Member_Uninit \<Rightarrow> True) ms" and "\<And>b u. type_within n u \<Longrightarrow> halts (gen b u)"
  shows "halts (codegen_type_interface gen on_stack ty ms)"
proof -
  have arg: "halts (interface_arg_type gen u)" if "type_within n u" for u
    using assms(2) [OF that] by (simp add: interface_arg_type_def halts_basic)
  have field: "halts (interface_field_type gen m)" if "m \<in> set ms" for m
    using assms that unfolding interface_field_type_def
    by (cases m) (auto simp: list_all_iff intro!: halts_intros halts_map arg)
  have symbol: "interface_symbol on_stack ty i m \<noteq> Inl Diverges" for i m
    by (auto simp: interface_symbol_def split: interface_member.split)
  show ?thesis unfolding codegen_type_interface_def make_interface_table_type_def
    by (intro halts_intros halts_map field) (auto intro!: halts_intros symbol)
qed

lemma halts_type: "type_within n t \<Longrightarrow> halts (codegen_type n b t)"
proof (induction n arbitrary: b t)
  case (Suc n)
  show ?case
  proof (cases "0 < type_pointer t")
    case True
    then show ?thesis using Suc by (auto intro!: halts_intros)
  next
    case False
    have all: "halts (cmap (codegen_type n c) ts)" if "list_all (type_within n) ts" for c ts
      using that Suc.IH by (auto simp: list_all_iff intro: halts_map)
    have "halts (codegen_type_kind (codegen_type n) b t)"
    proof (cases "type_kind t")
      case (Struct_Type ms)
      with Suc.prems False have "halts (case m of Struct_Member u name \<Rightarrow> codegen_type n False u)" if "m \<in> set ms" for m
        using that Suc.IH by (cases m) (auto simp: list_all_iff)
      then show ?thesis using Struct_Type
        by (auto simp: codegen_type_kind_def codegen_type_struct_def intro!: halts_intros halts_map)
    next
      case (Interface_Type ms)
      then show ?thesis using Suc.prems False halts_interface [OF _ Suc.IH] by (simp add: codegen_type_kind_def)
    qed (use Suc False in \<open>auto simp: codegen_type_kind_def codegen_type_float_def codegen_type_func_def
        codegen_type_slice_def codegen_type_array_def intro!: halts_intros all\<close>)
    with False show ?thesis by simp
  qed
qed simp

lemma halts_declarations:
  assumes "list_all (declares_within n) us"
  shows "halts (codegen_decls verify n self us)"
proof -
  have f: "halts (declare_func n self fu)"
    if "type_within n (fu_return_type fu)" "list_all (\<lambda>p. type_within n (param_type p)) (fu_params fu)" for fu
    using that unfolding declare_func_def
    by (auto simp: list_all_iff intro!: halts_intros halts_map halts_type copy_ends mangle_ends)
  have "halts (codegen_unit verify n self stage u)" if "declares_within n u" "stage \<noteq> 2" for stage u
    using that unfolding codegen_unit_def declares_within_def
    by (auto simp: cwhen_def intro!: halts_intros f split: unit_kind.splits)
  then show ?thesis using assms unfolding codegen_decls_def codegen_stage_def
    by (auto simp: list_all_iff intro!: halts_intros halts_map)
qed

text \<open>
  C12: resolving imports ends. When finitely many files can be reached from a file by imports, cyclic
  ones included, and each of them has imports, a package, names for types, and functions whose types
  name no type and are nested at most \<open>n\<close> deep, then \<open>resolve_imports\<close>, with \<open>codegen_decls\<close> for the
  declarations of each file, does not use up the bound \<open>n\<close> on its depth, if this is larger than the
  number of the files.
\<close>

theorem imports_terminate:
  assumes "finite F" and "set (imports_of name us) \<subseteq> F" and "card F < n"
    and "\<And>f us'. f \<in> F \<Longrightarrow> read_units f = Inr (Some us') \<Longrightarrow>
      set (imports_of f us') \<subseteq> F \<and> list_all (declares_within n) us'"
    and "\<And>f. f \<in> F \<Longrightarrow> read_units f \<noteq> Inl Diverges"
  shows "resolve_imports n (codegen_decls verify n self) read_units us name [] s \<noteq> Inl Diverges"
  using halts_declarations assms unfolding halts_def by (intro imports_end [of F]) blast+

text \<open>Two files that import each other and declare a function each.\<close>

definition header_func :: "string \<Rightarrow> unit_t" where
  "header_func f = Unit null_loc (Func_Unit \<lparr>fu_return_type = Type 0 (Integer_Type 32), fu_name = f, fu_body = None,
     fu_params = [\<lparr>param_type = Type 1 (Integer_Type 8), param_name = None\<rparr>], fu_variadic = False, fu_type = Type 0 No_Type\<rparr>)"

definition header_files :: "string \<Rightarrow> unit_t list option res" where
  "header_files f = Inr (
     if f = ''lib/b.low'' then Some [Unit null_loc (Import_Unit ''c.low''), header_func ''b'']
     else if f = ''lib/c.low'' then Some [Unit null_loc (Import_Unit ''b.low''), header_func ''c''] else None)"

theorem imports_terminate_witness:
  "resolve_imports 3 (codegen_decls (\<lambda>cs f. False) 3 (new_codegen [])) header_files
     [Unit null_loc (Import_Unit ''b.low'')] ''lib/a.low'' [] new_cg_state \<noteq> Inl Diverges"
proof (rule imports_terminate [of "{''lib/b.low'', ''lib/c.low''}"])
  fix f us'
  assume "f \<in> {''lib/b.low'', ''lib/c.low''}" "header_files f = Inr (Some us')"
  then show "set (imports_of f us') \<subseteq> {''lib/b.low'', ''lib/c.low''} \<and> list_all (declares_within 3) us'"
    by (auto simp: header_files_def header_func_def imports_of_def import_path_def dir_of_def declares_within_def numeral_eq_Suc)
qed (simp_all add: imports_of_def import_path_def dir_of_def header_files_def)

subsection \<open>A file that imports itself\<close>

lemma dir_of_path: "CHR ''/'' \<notin> set base \<Longrightarrow> dir_of (d @ CHR ''/'' # base) = d"
  by (simp add: dir_of_def strrchr_last)

text \<open>
  The names of the file \<open>base\<close> in the directory \<open>dir\<close>, whose last component is \<open>d\<close>: by the parent of
  the directory and back, \<open>k\<close> times.
\<close>

definition other_dir :: "string \<Rightarrow> string \<Rightarrow> nat \<Rightarrow> string" where
  "other_dir dir d k = dir @ concat (replicate k (''/../'' @ d))"

definition other_name :: "string \<Rightarrow> string \<Rightarrow> string \<Rightarrow> nat \<Rightarrow> string" where
  "other_name dir d base k = other_dir dir d k @ ''/'' @ base"

text \<open>The first import of a file.\<close>

definition first_import :: "string \<Rightarrow> unit_t list \<Rightarrow> bool" where
  "first_import nm us \<longleftrightarrow> (\<exists>us1 l us2. us = us1 @ Unit l (Import_Unit nm) # us2 \<and>
     (\<forall>u\<in>set us1. \<forall>x. unit_kind u \<noteq> Import_Unit x))"

lemma other_dir_Suc: "other_dir dir d (Suc k) = other_dir dir d k @ ''/../'' @ d"
  by (simp add: other_dir_def flip: replicate_append_same)

lemma other_length: "length (other_name dir d base k) = length dir + k * (4 + length d) + 1 + length base"
  by (simp add: other_name_def other_dir_def length_concat sum_list_replicate algebra_simps)

lemma other_long: "k \<le> length (other_name dir d base k)"
proof -
  have "k * 1 \<le> k * (4 + length d)" by (intro mult_le_mono2) simp
  then show ?thesis unfolding other_length by linarith
qed

lemma other_import:
  assumes "dir \<noteq> []" and "CHR ''/'' \<notin> set base"
  shows "import_path (other_name dir d base k) (''../'' @ d @ ''/'' @ base) = other_name dir d base (Suc k)"
proof -
  have "dir_of (other_name dir d base k) = other_dir dir d k" using dir_of_path [OF assms(2)] by (simp add: other_name_def)
  moreover have "other_dir dir d k \<noteq> []" using assms(1) by (simp add: other_dir_def)
  ultimately show ?thesis by (simp add: import_path_def) (simp add: other_name_def other_dir_Suc)
qed

lemma skip_no_imports:
  "\<forall>u\<in>set us1. \<forall>x. unit_kind u \<noteq> Import_Unit x \<Longrightarrow>
   import_units rec decls read_units name (us1 @ us) handled = import_units rec decls read_units name us handled"
  by (induction us1) (auto split: unit_kind.split)

text \<open>The message on a file that is imported under a name which is too long.\<close>

definition cannot_open :: "fault \<Rightarrow> bool" where
  "cannot_open e \<longleftrightarrow> (\<exists>f g. 4096 \<le> length f \<and> e = Aborted (''unable to open file '' @ f @ '' imported from '' @ g))"

lemma die_cannot_open:
  "\<not> length f < 4096 \<Longrightarrow> \<exists>e. die (''unable to open file '' @ f @ '' imported from '' @ g) s = Inl e \<and> cannot_open e"
  unfolding cannot_open_def die_def cfail_def not_less by blast

lemma other_step:
  assumes dir: "dir \<noteq> []" "CHR ''/'' \<notin> set base"
    and read: "\<And>k. read_units (other_name dir d base k) = Inr (if length (other_name dir d base k) < 4096 then Some (us k) else None)"
    and first: "\<And>k. first_import (''../'' @ d @ ''/'' @ base) (us k)"
    and "\<And>h. h \<in> set handled \<Longrightarrow> length h \<le> length (other_name dir d base k)" and "4096 \<le> n + k"
  shows "\<exists>e. resolve_imports (Suc n) decls read_units (us k) (other_name dir d base k) handled s = Inl e \<and> cannot_open e"
  using assms(5-)
proof (induction n arbitrary: k handled s)
  case (0 k)
  let ?f = "other_name dir d base (Suc k)" and ?nm = "''../'' @ d @ ''/'' @ base"
  have long: "\<not> length ?f < 4096" using 0(2) other_long [of "Suc k" dir d base] by simp
  have new: "?f \<notin> set handled" using 0(1) [of ?f] by (auto simp: other_length)
  obtain us1 l us2 where us: "us k = us1 @ Unit l (Import_Unit ?nm) # us2"
    "\<forall>u\<in>set us1. \<forall>x. unit_kind u \<noteq> Import_Unit x" using first [of k] unfolding first_import_def by blast
  have none: "read_units ?f = Inr None" using read long by simp
  have "resolve_imports (Suc 0) decls read_units (us k) (other_name dir d base k) handled =
      die (''unable to open file '' @ ?f @ '' imported from '' @ other_name dir d base k)"
    unfolding resolve_imports.simps(2) us(1) skip_no_imports [OF us(2)]
    by (rule import_step(3) [where read_units = read_units, OF _ other_import [OF dir, of d k, symmetric] new none]) simp
  with die_cannot_open [OF long] show ?case by simp
next
  case (Suc n k)
  let ?f = "other_name dir d base (Suc k)" and ?nm = "''../'' @ d @ ''/'' @ base"
  have new: "?f \<notin> set handled" using Suc.prems(1) [of ?f] by (auto simp: other_length)
  obtain us1 l us2 where us: "us k = us1 @ Unit l (Import_Unit ?nm) # us2"
    "\<forall>u\<in>set us1. \<forall>x. unit_kind u \<noteq> Import_Unit x" using first [of k] unfolding first_import_def by blast
  show ?case
  proof (cases "length ?f < 4096")
    case True
    then have some: "read_units ?f = Inr (Some (us (Suc k)))" using read by simp
    have "\<exists>e. resolve_imports (Suc n) decls read_units (us (Suc k)) ?f (handled @ [?f]) s = Inl e \<and> cannot_open e"
      using Suc.prems by (intro Suc.IH) (auto simp: other_length dest!: Suc.prems(1))
    moreover have "resolve_imports (Suc (Suc n)) decls read_units (us k) (other_name dir d base k) handled =
        cbind (resolve_imports (Suc n) decls read_units (us (Suc k)) ?f (handled @ [?f])) (\<lambda>h. cseq (decls (us (Suc k)))
          (import_units (resolve_imports (Suc n) decls read_units) decls read_units (other_name dir d base k) us2 h))"
      unfolding resolve_imports.simps(2) [of "Suc n"] us(1) skip_no_imports [OF us(2)]
      by (rule import_step(2) [where read_units = read_units, OF _ other_import [OF dir, of d k, symmetric] new some]) simp
    ultimately show ?thesis by (auto simp: cbind_def)
  next
    case False
    then have none: "read_units ?f = Inr None" using read by simp
    have "resolve_imports (Suc (Suc n)) decls read_units (us k) (other_name dir d base k) handled =
        die (''unable to open file '' @ ?f @ '' imported from '' @ other_name dir d base k)"
      unfolding resolve_imports.simps(2) [of "Suc n"] us(1) skip_no_imports [OF us(2)]
      by (rule import_step(3) [where read_units = read_units, OF _ other_import [OF dir, of d k, symmetric] new none]) simp
    with die_cannot_open [OF False] show ?thesis by simp
  qed
qed

text \<open>
  C36: names are compared as they are spelled. A file \<open>dir/base\<close> whose first import is itself, as
  \<open>../d/base\<close> where \<open>d\<close> is the last component of \<open>dir\<close>, is imported under ever longer names. When every
  such name opens the file as long as it is shorter than 4096 bytes (the longest path), and none that is
  longer, the compiler aborts with a message on a name that is too long, whatever else is in the file.
\<close>

theorem self_import_aborts:
  assumes "dir \<noteq> []" and "CHR ''/'' \<notin> set base" and "length (other_name dir d base 0) < 4096" and "4097 \<le> n"
    and "\<And>k. read_units (other_name dir d base k) = Inr (if length (other_name dir d base k) < 4096 then Some (us k) else None)"
    and "\<And>k. first_import (''../'' @ d @ ''/'' @ base) (us k)"
  shows "\<exists>e. compile results n cg read_units (dir @ ''/'' @ base) = Inl e \<and> cannot_open e"
proof -
  obtain m where m: "n = Suc m" "4096 \<le> m" using assms(4) by (cases n) auto
  have a: "dir @ ''/'' @ base = other_name dir d base 0" by (simp add: other_name_def other_dir_def)
  obtain e where "resolve_imports n (codegen_decls (lr_verify_function results) n cg) read_units (us 0)
      (other_name dir d base 0) [] new_cg_state = Inl e" "cannot_open e"
    unfolding m(1) using other_step [OF assms(1,2,5,6), of "[]" 0 m] m(2) by auto
  moreover have "read_units (other_name dir d base 0) = Inr (Some (us 0))" using assms(3,5) by simp
  ultimately show ?thesis unfolding a
    by (auto simp: compile_def generate_module_def cbind_def simp del: resolve_imports.simps)
qed

text \<open>The locations of the units are in the file under the name it was opened by.\<close>

definition self_importing :: "string \<Rightarrow> unit_t list option res" where
  "self_importing f = Inr (if length f < 4096
     then Some [Unit \<lparr>loc_filename = f, loc_line = 0, loc_col = 0\<rparr> (Import_Unit ''../d/a.low'')] else None)"

theorem self_import_aborts_witness:
  "\<exists>e. compile
     \<lparr>lr_verify_function = (\<lambda>cs f. False), lr_verify_module = (\<lambda>m. True), lr_link_failed = (\<lambda>ms m. False)\<rparr>
     5000 (new_codegen []) self_importing ''d/a.low'' = Inl e \<and> cannot_open e"
proof -
  let ?us = "\<lambda>k. [Unit \<lparr>loc_filename = other_name ''d'' ''d'' ''a.low'' k, loc_line = 0, loc_col = 0\<rparr> (Import_Unit ''../d/a.low'')]"
  have "first_import ''../d/a.low'' (?us k)" for k unfolding first_import_def by fastforce
  then show ?thesis
    using self_import_aborts [of "''d''" "''a.low''" "''d''" 5000 self_importing ?us]
    by (simp add: self_importing_def other_length)
qed

end
