(* ===== verification/Spec2Isabelle.thy ===== *)
theory Spec2Isabelle
  imports Dyn_Array Options Lexer_Props Ast_Types Ast_Dispose Grammar_Typing Literals Parser_Props Generator_Correct Program_Correct Codegen_Props Driver_Props
begin

text \<open>
  \<^bold>\<open>lowc\<close>, the compiler of the language low, reads files of units, parses them with an LR parser
  whose table is generated from a grammar when the compiler is built, and hands the syntax trees
  to LLVM. This development models all of it: the dynamic array every list is kept in, the command
  line, the lexer, the grammar with its semantic actions, the syntax tree, the parser and the
  generator of its table, the code generator and the driver.

  \<^bold>\<open>Conventions\<close> (\<open>Low_Prelude\<close>). A failed assertion, an \<open>abort\<close>, an exit with a message and
  undefined behaviour are values of \<open>fault\<close>; an operation that can end in one returns
  \<open>'a res = fault + 'a\<close>, sequenced by \<open>rbind\<close>. Machine integers are words (\<open>u32\<close>), so that
  wrap-around is the code's. A block of memory is a list of bytes, read and written in bounds or
  not at all; allocation never fails. Text is a \<open>string\<close>, its characters the bytes.

  \<^bold>\<open>Dynamic arrays\<close> (\<open>Dyn_Array\<close>; src/array.c). The record \<open>array\<close> is the struct, with its
  block of bytes; each function of array.c is a definition of its name. \<open>array_ok\<close> is the
  invariant, \<open>array_items\<close> the list of items an array stands for. The locale \<open>item_seq\<close> states what
  the clients rely on (appending and reading) and is interpreted on the functions. Lemmas:
  every operation keeps the invariant and refines the operation on lists; the doubling of the
  capacity and the 32-bit size of the block wrap on large arrays.

  \<^bold>\<open>Command line\<close> (\<open>Options\<close>; src/options.c). \<open>parse_options\<close> permutes the arguments in place; the
  lemmas relate it to a specification over lists.

  \<^bold>\<open>Lexer\<close> (\<open>Tokens\<close>, \<open>Lexer\<close>, \<open>Lexer_Spec\<close>, \<open>Lexer_Props\<close>; src/lexer.c, src/lexer.h,
  src/lexer_tokens.h). \<open>Tokens\<close> holds the token numbers, their names and the tables of the
  \<open>CHECK_TOKEN\<close> and \<open>CHECK_KEYWORD\<close> macros. The record \<open>lexer\<close> is the struct over the mapped bytes,
  its pointers offsets into them; \<open>lexer_scan\<close> is one iteration of the loop of \<open>lexer_next\<close>.
  \<open>Lexer_Spec\<close> specifies the next token of a list of characters (\<open>next_token\<close>) and proves that
  \<open>lexer_next\<close> refines it and keeps \<open>lexer_ok\<close>: the text is below 4 GiB and followed by a NUL.
  \<open>Lexer_Props\<close> derives reading back, keywords, inserted semicolons, positions and progress, and
  shows where the lexer goes wrong: tokens whose text has a line break are located at its end, and
  an identifier that ends with the mapping is read past it.

  \<^bold>\<open>Syntax tree\<close> (\<open>Ast\<close>, \<open>Ast_Types\<close>; src/ast.h, src/ast.c). Tagged unions are datatypes with
  one constructor per kind. \<open>type_equal\<close>, \<open>type_copy\<close> and \<open>type_describe\<close> are primitive recursive
  over all types; the lemmas say on which types they decide equality, copy and return.

  \<^bold>\<open>Grammar and semantic actions\<close> (\<open>Grammar\<close>, \<open>Reducers\<close>, \<open>Grammar_Typing\<close>, \<open>Literals\<close>;
  src/grammar_rules.h, src/grammar.c, src/grammar_rules.c). \<open>grammar\<close> is the list of rules the
  macros expand to, \<open>reduce_x\<close> the action \<open>REDUCER(x)\<close>. The union of a token is the datatype \<open>sval\<close>;
  reading it as another member than the one written is a fault, so that the typing property
  \<open>reducers_fit_grammar\<close> means that the casts of the actions are right; the one action that reads
  past its tokens, of the list of mappings, is singled out there. \<open>Literals\<close> is about the text
  of string and number literals and of type names.

  \<^bold>\<open>Disposal\<close> (\<open>Ast_Dispose\<close>; the \<open>_dispose\<close> functions of src/ast.c, the end of \<open>compile\<close> in
  src/main.c). Disposing is the sequence of the blocks it frees, named by their paths in the tree;
  the lemmas say that none is freed twice or before what is read from it, and which ones leak.

  \<^bold>\<open>Parser\<close> (\<open>Parser\<close>, \<open>Parser_Props\<close>; src/parser.c, src/parser_states.h). The table is a
  parameter. \<open>parse_step\<close> is one iteration and \<open>parse\<close> the whole loop, a partial function since on
  an arbitrary table and text it need not end. \<open>table_ok\<close> states what the parser relies on (each
  state knows the last symbols of the stacks that lead to it, a reduction finds its right-hand
  side there and a goto below it). From it follow the soundness of what is accepted, the list of
  the ways to fail, and termination, where the measure is the number of tokens left, the height
  of the stack and the rank of its top symbol in the chains of unit productions.

  \<^bold>\<open>Parser generator\<close> (\<open>Generator\<close>, \<open>Generator_Props\<close>, \<open>Generator_States\<close>, \<open>Generator_Tables\<close>,
  \<open>Generator_Correct\<close>; src/parser_generator.c). The sets of tokens as words, the leads (items), their
  closure, the states and the table that is printed. \<open>Generator_Props\<close> relates first sets, closure,
  sorting and merging to their specifications, \<open>Generator_States\<close> keeps the invariant of the worklist
  of states, \<open>Generator_Tables\<close> shows \<open>table_ok\<close> of what is printed, and \<open>Generator_Correct\<close> composes
  generator and parser; it also says what the assertions on conflicts let through (every
  shift-reduce conflict) and what they reject (any two reductions in a state). The generator ends on the grammar of the compiler since states are sets
  of finitely many leads; whether it ends with a table or at its assertion is left open, as
  the construction for the whole grammar is too large to evaluate.

  \<^bold>\<open>Code generator\<close> (\<open>Codegen\<close>, \<open>Codegen_Prepare\<close>, \<open>Codegen_Expr\<close>, \<open>Codegen_Calls\<close>, \<open>Codegen_Stmt\<close>;
  src/codegen.c, src/codegen_type.c, src/codegen_*_expr.c). LLVM is not under src/: the state keeps
  the calls made to it, in order, and a value is the term of the call that gave it. The other
  part of the state is the chain of contexts with their symbols and \<open>is_terminated\<close>. The functions
  for the kinds of expressions, types and statements take the recursive function as an argument,
  as in the C code they reach it through a table. That function takes a bound on its depth, and
  \<open>Diverges\<close> is a bound used up: \<open>Codegen_Fuel\<close> shows that a larger bound never changes another
  result, so that the bound is no part of what is stated. The results of the verifier and of the
  linker of LLVM, and the bytes after an unterminated literal, are parameters.

  \<^bold>\<open>What the code generator guarantees.\<close> \<open>Codegen_Flow\<close>, \<open>Codegen_Flow_Expr\<close> and \<open>Codegen_Flow_Stmt\<close>:
  triples over runs of the code generator, from which it follows that the blocks of every function
  are well formed. \<open>Codegen_Untidy\<close> shows the converse: a loop body that ends in a jump gets a block
  with two terminators. \<open>Codegen_Frame\<close>: calls and symbols are only added. \<open>Codegen_Run\<close> evaluates
  sample programs. \<open>Codegen_Props\<close> joins the two into one equivalence.

  \<^bold>\<open>What the generated code computes.\<close> \<open>Target\<close> runs recorded calls on a machine with registers,
  variables and blocks; the arithmetic of LLVM is a parameter, and \<open>documented\<close> what its language
  reference says of it. \<open>Source_Sem\<close> is the reference semantics of integers, booleans, local variables
  and statements, with fuel for the rounds of loops. \<open>Elaboration\<close>: the types of an expression
  depend on the variables in scope only. \<open>Arith_Props\<close>: the instruction chosen for an operator
  computes what the operator means. \<open>Expr_Runs\<close>: the calls made for an expression.
  \<open>Expr_Correct\<close> relates the variables to memory (\<open>env_rel\<close>), and \<open>Expr_Values\<close> runs the code of every
  kind of expression. \<open>Scopes\<close> says where a statement leads: to the end of its code, to the block a
  jump names, or to a return (\<open>follows\<close>); \<open>Stmt_Runs\<close> proves it of declarations and jumps,
  \<open>Stmt_Correct\<close> of blocks and branches, \<open>Stmt_Loops\<close> of loops and then of all statements, by induction
  on the fuel of the execution. \<open>Func_Correct\<close> adds parameters and bodies, \<open>Compile_Correct\<close> the
  units of a module, where the triples of \<open>Codegen_Flow_Stmt\<close> give that blocks are entered once.
  \<open>Code_Props\<close> holds the properties of single functions and expressions: a compiled function returns
  what the reference semantics says.

  \<^bold>\<open>Calls.\<close> In all of these the functions that can be called are a parameter (\<open>funs\<close>) of the semantics,
  as what a call returns is one (\<open>ar_call\<close>) of the machine, and \<open>agrees\<close> relates the two. \<open>Programs\<close>
  ties both knots: \<open>program_value\<close> calls the functions of the file, to a depth \<open>d\<close>, and \<open>calling\<close> is
  a machine that runs the code of the function at the address called. \<open>Program_Correct\<close> shows by
  induction on the depth that they agree. The depth bounds no program: a call that returns does so
  at some depth, and larger ones give the same.

  The semantics leaves out pointers, arrays, structs, interfaces and strings, and
  conditionals nested in the branches of conditionals, whose code is wrong; it has no value where
  the generated code is undefined or \<open>/=\<close> meets negative numbers. Of the arithmetic of LLVM only what
  its reference says is used: literals in radix 2, 8, 10, 16 and 36. The text of a literal is not
  terminated by the code; its properties take the byte after it to be NUL.

  \<^bold>\<open>Driver\<close> (\<open>Driver\<close>, \<open>Driver_Props\<close>; src/main.c). \<open>parse_file\<close> over a function from names to texts,
  names of outputs, the recursive imports, \<open>compile\<close> and \<open>main\<close>. The lemmas are about the names, about
  imports (each file once, all that are reached, in finite depth, with \<open>codegen_decls\<close> run on each)
  and about the import of a file by itself.

  \<^bold>\<open>Not modelled.\<close> LLVM itself. Memory that the allocator refuses; the array of symbols of a context
  moving while a pointer into it is in use. \<open>dump_val\<close> and \<open>dump_type\<close>, which only print, and the
  positions in diagnostics, which are kept as the text of an exit. The calls that open, measure and
  map a file, which are one lookup that can fail.
\<close>

end
